(* ===== verification/Prelude.thy ===== *)
theory Prelude
  imports Complex_Main "HOL-Library.Word" "HOL-Library.Code_Target_Numeral" "HOL-Library.AList"
begin

text \<open>
  Shared vocabulary of the development.

  A Python call that may raise is a value of a sum type \<open>'e + 'a\<close>: \<open>Inl\<close> carries the
  exception, \<open>Inr\<close> the returned value. \<open>rbind\<close> is sequencing (the exception propagates) and
  \<open>need\<close> is the guard function that most modules of the repository define for themselves
  (\<open>need\<close>, \<open>require\<close>). The collection \<open>res_simps\<close> holds the inversion rules that every component
  uses to take a successful run apart.
\<close>

named_theorems res_simps

subsection \<open>Results\<close>

definition rbind :: "'e + 'a \<Rightarrow> ('a \<Rightarrow> 'e + 'b) \<Rightarrow> 'e + 'b" where
  "rbind r f = (case r of Inl e \<Rightarrow> Inl e | Inr x \<Rightarrow> f x)"

definition need :: "'e \<Rightarrow> bool \<Rightarrow> 'e + unit" where
  "need e c = (if c then Inr () else Inl e)"

lemma rbind_simps [simp]:
  "rbind (Inl e) f = Inl e"
  "rbind (Inr x) f = f x"
  by (simp_all add: rbind_def)

lemma need_simps [simp]:
  "need e True = Inr ()"
  "need e False = Inl e"
  by (simp_all add: need_def)

lemma need_Inr [res_simps]: "need e c = Inr u \<longleftrightarrow> c"
  by (simp add: need_def)

lemma need_Inl [res_simps]: "need e c = Inl e' \<longleftrightarrow> \<not> c \<and> e' = e"
  by (auto simp: need_def)

lemma rbind_Inr [res_simps]: "rbind r f = Inr y \<longleftrightarrow> (\<exists>x. r = Inr x \<and> f x = Inr y)"
  by (cases r) auto

lemma rbind_InrE:
  assumes "rbind r f = Inr y" obtains x where "r = Inr x" "f x = Inr y"
  using assms by (auto simp: rbind_Inr)

lemma rbind_Inl [res_simps]:
  "rbind r f = Inl e \<longleftrightarrow> r = Inl e \<or> (\<exists>x. r = Inr x \<and> f x = Inl e)"
  by (cases r) auto

lemma rbind_assoc: "rbind (rbind r f) g = rbind r (\<lambda>x. rbind (f x) g)"
  by (cases r) simp_all

lemma rbind_cong [fundef_cong]:
  assumes "r = r'" and "\<And>x. r' = Inr x \<Longrightarrow> f x = g x"
  shows "rbind r f = rbind r' g"
  using assms by (cases r') simp_all

text \<open>\<open>rlift\<close> turns an option into a result, the way a failed lookup becomes an exception.\<close>

definition rlift :: "'e \<Rightarrow> 'a option \<Rightarrow> 'e + 'a" where
  "rlift e x = (case x of None \<Rightarrow> Inl e | Some v \<Rightarrow> Inr v)"

lemma rlift_simps [simp]:
  "rlift e None = Inl e"
  "rlift e (Some v) = Inr v"
  by (simp_all add: rlift_def)

lemma rlift_Inr [res_simps]: "rlift e x = Inr v \<longleftrightarrow> x = Some v"
  by (cases x) auto

text \<open>A Python \<^verbatim>\<open>for\<close> loop whose body may raise, over an accumulator.\<close>

fun rfold :: "('a \<Rightarrow> 's \<Rightarrow> 'e + 's) \<Rightarrow> 'a list \<Rightarrow> 's \<Rightarrow> 'e + 's" where
  "rfold f [] s = Inr s"
| "rfold f (x # xs) s = rbind (f x s) (rfold f xs)"

text \<open>A loop that only checks.\<close>

fun rall :: "('a \<Rightarrow> 'e + unit) \<Rightarrow> 'a list \<Rightarrow> 'e + unit" where
  "rall f [] = Inr ()"
| "rall f (x # xs) = rbind (f x) (\<lambda>_. rall f xs)"

text \<open>A list comprehension whose element expression may raise.\<close>

fun rmap :: "('a \<Rightarrow> 'e + 'b) \<Rightarrow> 'a list \<Rightarrow> 'e + 'b list" where
  "rmap f [] = Inr []"
| "rmap f (x # xs) = rbind (f x) (\<lambda>y. rbind (rmap f xs) (\<lambda>ys. Inr (y # ys)))"

lemma rall_Inr [res_simps]: "rall f xs = Inr u \<longleftrightarrow> (\<forall>x \<in> set xs. f x = Inr ())"
  by (induction xs) (auto simp: rbind_Inr)

lemma rmap_Inr_length: "rmap f xs = Inr ys \<Longrightarrow> length ys = length xs"
  by (induction xs arbitrary: ys) (auto simp: rbind_Inr)

lemma rmap_Inr_list_all2: "rmap f xs = Inr ys \<longleftrightarrow> list_all2 (\<lambda>x y. f x = Inr y) xs ys"
  by (induction xs arbitrary: ys) (auto simp: rbind_Inr list_all2_Cons1)

lemma rfold_append: "rfold f (xs @ ys) s = rbind (rfold f xs s) (rfold f ys)"
  by (induction xs arbitrary: s) (auto simp: rbind_def split: sum.split)

lemma rfold_invariant:
  assumes "rfold f xs s = Inr s'" and "P s"
    and "\<And>x s s'. x \<in> set xs \<Longrightarrow> P s \<Longrightarrow> f x s = Inr s' \<Longrightarrow> P s'"
  shows "P s'"
  using assms by (induction xs arbitrary: s) (auto simp: rbind_Inr)

text \<open>An invariant that also speaks of the elements already processed.\<close>

lemma rfold_prefix_invariant:
  assumes "rfold f xs s = Inr s'" and "P [] s"
    and "\<And>ys x s s'. P ys s \<Longrightarrow> f x s = Inr s' \<Longrightarrow> P (ys @ [x]) s'"
  shows "P xs s'"
proof -
  have "rfold f zs s = Inr s' \<Longrightarrow> P ys s \<Longrightarrow> P (ys @ zs) s'" for ys zs s
  proof (induction zs arbitrary: ys s)
    case (Cons z zs)
    then obtain t where "f z s = Inr t" "rfold f zs t = Inr s'" by (auto simp: rbind_Inr)
    with Cons.IH [of t "ys @ [z]"] assms(3) [OF Cons.prems(2)] show ?case by simp
  qed simp
  from this [of xs s "[]"] assms(1,2) show ?thesis by simp
qed

lemma rmap_total:
  assumes "\<And>x. x \<in> set xs \<Longrightarrow> \<exists>y. f x = Inr y \<and> Q x y"
  shows "\<exists>ys. rmap f xs = Inr ys \<and> list_all2 Q xs ys"
  using assms
proof (induction xs)
  case (Cons x xs)
  obtain y where "f x = Inr y" "Q x y" using Cons.prems [of x] by auto
  moreover obtain ys where "rmap f xs = Inr ys" "list_all2 Q xs ys" using Cons by auto
  ultimately show ?case by simp
qed simp

lemma rmap_returns: "(\<And>x. x \<in> set xs \<Longrightarrow> \<exists>y. f x = Inr y) \<Longrightarrow> \<exists>ys. rmap f xs = Inr ys"
  using rmap_total [of xs f "\<lambda>_ _. True"] by blast

lemma rmap_cong: "(\<And>x. x \<in> set xs \<Longrightarrow> f x = g x) \<Longrightarrow> rmap f xs = rmap g xs"
  by (induction xs) simp_all

lemma rmap_same:
  assumes "rmap f xs = Inr ys" and "rmap g xs = Inr zs" and "\<And>x y z. x \<in> set xs \<Longrightarrow> f x = Inr y \<Longrightarrow> g x = Inr z \<Longrightarrow> y = z"
  shows "ys = zs"
  using assms by (induction xs arbitrary: ys zs) (fastforce simp: rbind_Inr)+

lemma rmap_map_Inr: "(\<And>x. f x = Inr (g x)) \<Longrightarrow> rmap f xs = Inr (map g xs)"
  by (induction xs) simp_all

lemma rmap_replicate: "f x = Inr y \<Longrightarrow> rmap f (replicate n x) = Inr (replicate n y)"
  by (induction n) simp_all

lemma find_SomeD: "find P xs = Some x \<Longrightarrow> x \<in> set xs \<and> P x"
  by (induction xs) (auto split: if_splits)

lemma find_None_ex: "find P xs = None \<longleftrightarrow> \<not> list_ex P xs"
  by (induction xs) auto

lemma find_append: "find P (xs @ ys) = (case find P xs of None \<Rightarrow> find P ys | Some x \<Rightarrow> Some x)"
  by (induction xs) auto

subsection \<open>Dictionaries\<close>

text \<open>
  A Python dict is an association list in insertion order with distinct keys: assignment to an
  existing key keeps its place, which is what \<open>AList.update\<close> does.
\<close>

type_synonym ('k, 'v) dict = "('k \<times> 'v) list"

abbreviation dget :: "('k, 'v) dict \<Rightarrow> 'k \<Rightarrow> 'v option" where
  "dget d k \<equiv> map_of d k"

abbreviation dset :: "'k \<Rightarrow> 'v \<Rightarrow> ('k, 'v) dict \<Rightarrow> ('k, 'v) dict" where
  "dset k v d \<equiv> AList.update k v d"

abbreviation ddel :: "'k \<Rightarrow> ('k, 'v) dict \<Rightarrow> ('k, 'v) dict" where
  "ddel k d \<equiv> AList.delete k d"

definition dhas :: "('k, 'v) dict \<Rightarrow> 'k \<Rightarrow> bool" where
  "dhas d k \<longleftrightarrow> dget d k \<noteq> None"

definition dict_ok :: "('k, 'v) dict \<Rightarrow> bool" where
  "dict_ok d \<longleftrightarrow> distinct (map fst d)"

definition dany :: "('v \<Rightarrow> bool) \<Rightarrow> ('k, 'v) dict \<Rightarrow> bool" where
  "dany P d \<longleftrightarrow> list_ex (\<lambda>(k, v). P v) d"

lemma dict_ok_Nil [simp, intro]: "dict_ok []"
  by (simp add: dict_ok_def)

lemma dict_ok_dset [simp, intro]: "dict_ok d \<Longrightarrow> dict_ok (dset k v d)"
  by (simp add: dict_ok_def distinct_update)

lemma dict_ok_ddel [simp, intro]: "dict_ok d \<Longrightarrow> dict_ok (ddel k d)"
  by (simp add: dict_ok_def distinct_delete)

lemma dget_dset [simp]: "dget (dset k v d) k' = (if k' = k then Some v else dget d k')"
  by (simp add: update_conv')

lemma dget_ddel [simp]: "dget (ddel k d) k' = (if k' = k then None else dget d k')"
  by (simp add: delete_conv')

lemma dany_iff: "dict_ok d \<Longrightarrow> dany P d \<longleftrightarrow> (\<exists>k v. dget d k = Some v \<and> P v)"
  unfolding dany_def dict_ok_def list_ex_iff
  by (metis (mono_tags, lifting) case_prod_conv map_of_SomeD map_of_eq_Some_iff old.prod.exhaust)

lemma length_dset:
  "length (dset k v d) = (if dhas d k then length d else Suc (length d))"
  by (induction d) (auto simp: dhas_def)

lemma length_ddel_le: "length (ddel k d) \<le> length d"
  by (rule length_delete_le)

lemma length_ddel: "dict_ok d \<Longrightarrow> dhas d k \<Longrightarrow> Suc (length (ddel k d)) = length d"
proof (induction d)
  case Nil
  then show ?case by (simp add: dhas_def)
next
  case (Cons x d)
  show ?case
  proof (cases "fst x = k")
    case True
    with Cons.prems have "k \<notin> fst ` set d" by (auto simp: dict_ok_def)
    with True show ?thesis by (cases x) simp
  next
    case False
    with Cons show ?thesis by (cases x) (auto simp: dict_ok_def dhas_def)
  qed
qed

lemma dget_map_find: "dget (map (\<lambda>x. (key x, val x)) L) n = map_option val (find (\<lambda>x. key x = n) L)"
  by (induction L) auto

subsection \<open>Latest writers\<close>

text \<open>
  The checkers of decoded pictures keep, per buffer, the number of the last picture that wrote it.
  \<open>latest_at same target n b\<close> is that number after \<open>n\<close> pictures, where picture \<open>j + 1\<close> writes
  \<open>target j\<close>. The locale is the interface of the table they keep; the buffers of the table may be
  compared by an equality other than \<open>=\<close>.
\<close>

fun latest_at :: "('k \<Rightarrow> 'k \<Rightarrow> bool) \<Rightarrow> (nat \<Rightarrow> 'k) \<Rightarrow> nat \<Rightarrow> 'k \<Rightarrow> nat option" where
  "latest_at same target 0 b = None"
| "latest_at same target (Suc n) b = (if same (target n) b then Some (Suc n) else latest_at same target n b)"

lemma latest_at_Some:
  "latest_at same target n b = Some w \<Longrightarrow>
     1 \<le> w \<and> w \<le> n \<and> same (target (w - 1)) b \<and> (\<forall>j. w \<le> j \<and> j < n \<longrightarrow> \<not> same (target j) b)"
  by (induction n) (auto simp: less_Suc_eq split: if_splits)

locale writer_table =
  fixes empty :: 'm and look :: "'m \<Rightarrow> 'k \<Rightarrow> nat option" and put :: "'k \<Rightarrow> nat \<Rightarrow> 'm \<Rightarrow> 'm"
    and same :: "'k \<Rightarrow> 'k \<Rightarrow> bool"
  assumes look_empty: "look empty b = None"
    and look_put: "look (put k w m) b = (if same k b then Some w else look m b)"
begin

lemma look_writes: "look (fold (\<lambda>j. put (target j) (Suc j)) [0..<n] empty) b = latest_at same target n b"
  by (induction n) (simp_all add: look_empty look_put)

lemma look_latest:
  assumes "look (fold (\<lambda>j. put (target j) (Suc j)) [0..<n] empty) b = Some w"
  shows "1 \<le> w \<and> w \<le> n \<and> same (target (w - 1)) b \<and> (\<forall>j. w \<le> j \<and> j < n \<longrightarrow> \<not> same (target j) b)"
  using assms unfolding look_writes by (rule latest_at_Some)

end

interpretation dict_writers: writer_table "[]" dget dset "(=)"
  by unfold_locales auto

subsection \<open>Bit length\<close>

text \<open>\<^verbatim>\<open>int.bit_length\<close> of a number that is not negative.\<close>

fun bit_length :: "nat \<Rightarrow> nat" where
  "bit_length n = (if n = 0 then 0 else Suc (bit_length (n div 2)))"

declare bit_length.simps [simp del]

lemma bit_length_bounds: "0 < n \<Longrightarrow> 2 ^ (bit_length n - 1) \<le> n \<and> n < 2 ^ bit_length n \<and> 0 < bit_length n"
proof (induction n rule: bit_length.induct)
  case (1 n)
  show ?case
  proof (cases "n = 1")
    case True
    then show ?thesis by (simp add: bit_length.simps)
  next
    case False
    with "1.prems" have h: "0 < n div 2" "n \<noteq> 0" by auto
    have IH: "2 ^ (bit_length (n div 2) - 1) \<le> n div 2 \<and> n div 2 < 2 ^ bit_length (n div 2)
              \<and> 0 < bit_length (n div 2)"
      using "1.IH" [OF h(2) h(1)] .
    obtain m where m: "bit_length (n div 2) = Suc m" using IH by (cases "bit_length (n div 2)") auto
    have "bit_length n = Suc (Suc m)" using h(2) m by (simp add: bit_length.simps [of n])
    then show ?thesis using IH m by auto
  qed
qed

end
