(* ===== verification/Hevcnal.thy ===== *)
theory Hevcnal
  imports Prelude
begin

text \<open>
  The Annex B helpers of \<open>src/experiments/hevc-parameter-sets/hevcnal.py\<close>: splitting and joining
  byte streams, emulation prevention, the bit reader and writer, and the functions that read or
  rewrite the parameter-set identifiers of one NAL unit.

  A byte is an \<open>8 word\<close>; a bit, which Python holds as the integer 0 or 1, is a \<open>bool\<close>. The class
  \<^verbatim>\<open>Bits\<close> is the record \<open>Bits\<close>, and its methods return the updated object. Python integers
  that callers pass in are \<open>int\<close>.
\<close>

unbundle bit_operations_syntax

type_synonym byte = "8 word"

datatype nal_error = ValueError string | AssertionError | IndexError

subsection \<open>Annex B framing\<close>

definition HEVC_NAL_VPS :: nat where "HEVC_NAL_VPS = 32"
definition HEVC_NAL_SPS :: nat where "HEVC_NAL_SPS = 33"
definition HEVC_NAL_PPS :: nat where "HEVC_NAL_PPS = 34"

definition START_CODE :: "byte list" where
  "START_CODE = [0, 0, 0, 1]"

definition rstrip_zeros :: "byte list \<Rightarrow> byte list" where
  "rstrip_zeros xs = rev (dropWhile (\<lambda>b. b = 0) (rev xs))"

definition py_slice :: "'a list \<Rightarrow> nat \<Rightarrow> nat \<Rightarrow> 'a list" where
  "py_slice xs i j = take (j - i) (drop i xs)"

function split_loop ::
  "byte list \<Rightarrow> nat \<Rightarrow> nat option \<Rightarrow> byte list list \<Rightarrow> nat option \<times> byte list list" where
  "split_loop data i start nals =
     (if i + 2 < length data then
        if data ! i = 0 \<and> data ! (i + 1) = 0 \<and> data ! (i + 2) = 1 then
          split_loop data (i + 3) (Some (i + 3))
            (case start of None \<Rightarrow> nals | Some s \<Rightarrow> nals @ [rstrip_zeros (py_slice data s i)])
        else split_loop data (i + 1) start nals
      else (start, nals))"
  by pat_completeness auto
termination
  by (relation "measure (\<lambda>(data, i, start, nals). length data - i)") auto

declare split_loop.simps [simp del]

definition split_annexb :: "byte list \<Rightarrow> byte list list" where
  "split_annexb data =
     (case split_loop data 0 None [] of
        (start, nals) \<Rightarrow>
          filter (\<lambda>nal. nal \<noteq> [])
            (case start of
               None \<Rightarrow> nals
             | Some s \<Rightarrow> nals @ [if s < length data then rstrip_zeros (drop s data) else []]))"

definition join_annexb :: "byte list list \<Rightarrow> byte list" where
  "join_annexb nals = concat (map (\<lambda>nal. START_CODE @ nal) nals)"

definition nal_type :: "byte list \<Rightarrow> nal_error + nat" where
  "nal_type nal =
     (case nal of [] \<Rightarrow> Inl IndexError | b # _ \<Rightarrow> Inr (unat (drop_bit 1 b AND 0x3F)))"

subsection \<open>Emulation prevention\<close>

text \<open>The loops carry the count of zero bytes since the last non-zero (or inserted) byte.\<close>

fun unescape_loop :: "nat \<Rightarrow> byte list \<Rightarrow> byte list" where
  "unescape_loop zeros [] = []"
| "unescape_loop zeros (b # bs) =
     (if 2 \<le> zeros \<and> b = 3 then unescape_loop 0 bs
      else b # unescape_loop (if b = 0 then zeros + 1 else 0) bs)"

definition unescape :: "byte list \<Rightarrow> byte list" where
  "unescape ebsp = unescape_loop 0 ebsp"

fun escape_loop :: "nat \<Rightarrow> byte list \<Rightarrow> byte list" where
  "escape_loop zeros [] = []"
| "escape_loop zeros (b # bs) =
     (if 2 \<le> zeros \<and> b \<le> 3
      then 3 # b # escape_loop (if b = 0 then 1 else 0) bs
      else b # escape_loop (if b = 0 then zeros + 1 else 0) bs)"

definition escape :: "byte list \<Rightarrow> byte list" where
  "escape rbsp = escape_loop 0 rbsp"

subsection \<open>The bit reader\<close>

record Bits =
  bits :: "bool list"
  pos :: nat

definition byte_bits :: "byte \<Rightarrow> bool list" where
  "byte_bits b = map (\<lambda>k. bit b (7 - k)) [0..<8]"

definition Bits_init :: "byte list \<Rightarrow> nal_error + Bits" where
  "Bits_init rbsp =
     (let bs = rev (dropWhile Not (rev (concat (map byte_bits rbsp)))) in
      if bs = [] then Inl (ValueError ''RBSP has no stop bit'')
      else Inr \<lparr>bits = butlast bs, pos = 0\<rparr>)"

fun u_loop :: "nat \<Rightarrow> nat \<Rightarrow> bool list \<Rightarrow> nat" where
  "u_loop 0 v bs = v"
| "u_loop (Suc n) v bs = u_loop n (2 * v + of_bool (hd bs)) (tl bs)"

definition Bits_u :: "nat \<Rightarrow> Bits \<Rightarrow> nal_error + nat \<times> Bits" where
  "Bits_u n b =
     (if length (bits b) < pos b + n then Inl (ValueError ''read past end of RBSP'')
      else Inr (u_loop n 0 (drop (pos b) (bits b)), b\<lparr>pos := pos b + n\<rparr>))"

function ue_zeros :: "nat \<Rightarrow> Bits \<Rightarrow> nal_error + nat \<times> Bits" where
  "ue_zeros zeros b =
     rbind (Bits_u 1 b) (\<lambda>(v, b').
       if v = 0 then
         if zeros + 1 > 31 then Inl (ValueError ''invalid Exp-Golomb code'')
         else ue_zeros (zeros + 1) b'
       else Inr (zeros, b'))"
  by pat_completeness auto
termination
  by (relation "measure (\<lambda>(zeros, b). 32 - zeros)") auto

declare ue_zeros.simps [simp del]

definition Bits_ue :: "Bits \<Rightarrow> nal_error + nat \<times> Bits" where
  "Bits_ue b =
     rbind (ue_zeros 0 b) (\<lambda>(zeros, b1).
     rbind (Bits_u zeros b1) (\<lambda>(v, b2). Inr (2 ^ zeros - 1 + v, b2)))"

definition Bits_replace :: "nat \<Rightarrow> nat \<Rightarrow> bool list \<Rightarrow> Bits \<Rightarrow> Bits" where
  "Bits_replace start end new_bits b =
     \<lparr>bits = take start (bits b) @ new_bits @ drop (max start end) (bits b),
      pos = start + length new_bits\<rparr>"

definition bits_byte :: "bool list \<Rightarrow> byte" where
  "bits_byte bs = of_nat (u_loop (length bs) 0 bs)"

fun bytes_of_bits :: "bool list \<Rightarrow> byte list" where
  "bytes_of_bits [] = []"
| "bytes_of_bits (b # bs) = bits_byte (take 8 (b # bs)) # bytes_of_bits (drop 8 (b # bs))"

definition Bits_to_rbsp :: "Bits \<Rightarrow> byte list" where
  "Bits_to_rbsp b =
     (let bs = bits b @ [True] in
      bytes_of_bits (bs @ replicate ((8 - length bs mod 8) mod 8) False))"

definition msb_bits :: "nat \<Rightarrow> nat \<Rightarrow> bool list" where
  "msb_bits value n = map (\<lambda>k. odd (value div 2 ^ (n - 1 - k))) [0..<n]"

definition ue_bits :: "int \<Rightarrow> nal_error + bool list" where
  "ue_bits value =
     (if value < 0 then Inl (ValueError ''Exp-Golomb value must be non-negative'')
      else let code = nat value + 1; width = bit_length code in
        Inr (replicate (width - 1) False @ msb_bits code width))"

definition u_bits :: "int \<Rightarrow> int \<Rightarrow> nal_error + bool list" where
  "u_bits value n =
     (if n < 0 \<or> \<not> (0 \<le> value \<and> value < 2 ^ nat n)
      then Inl (ValueError ''value does not fit'')
      else Inr (msb_bits (nat value) (nat n)))"

subsection \<open>Reading and rewriting one NAL unit\<close>

definition payload :: "byte list \<Rightarrow> nal_error + Bits" where
  "payload nal = Bits_init (unescape (drop 2 nal))"

definition rebuild :: "byte list \<Rightarrow> Bits \<Rightarrow> byte list" where
  "rebuild nal b = take 2 nal @ escape (Bits_to_rbsp b)"

fun ptl_flags :: "nat \<Rightarrow> Bits \<Rightarrow> nal_error + (nat \<times> nat) list \<times> Bits" where
  "ptl_flags 0 b = Inr ([], b)"
| "ptl_flags (Suc n) b =
     rbind (Bits_u 1 b) (\<lambda>(p, b1).
     rbind (Bits_u 1 b1) (\<lambda>(l, b2).
     rbind (ptl_flags n b2) (\<lambda>(fs, b3). Inr ((p, l) # fs, b3))))"

fun ptl_layers :: "(nat \<times> nat) list \<Rightarrow> Bits \<Rightarrow> nal_error + unit \<times> Bits" where
  "ptl_layers [] b = Inr ((), b)"
| "ptl_layers ((profile, level) # fs) b =
     rbind (if profile \<noteq> 0 then Bits_u 88 b else Inr (0, b)) (\<lambda>(_, b1).
     rbind (if level \<noteq> 0 then Bits_u 8 b1 else Inr (0, b1)) (\<lambda>(_, b2).
     ptl_layers fs b2))"

definition skip_ptl :: "nat \<Rightarrow> Bits \<Rightarrow> nal_error + unit \<times> Bits" where
  "skip_ptl max_sub_layers b =
     rbind (Bits_u 96 b) (\<lambda>(_, b1).
     rbind (ptl_flags (max_sub_layers - 1) b1) (\<lambda>(present, b2).
     rbind (if max_sub_layers > 1 then Bits_u (2 * (8 - (max_sub_layers - 1))) b2
            else Inr (0, b2)) (\<lambda>(_, b3).
     ptl_layers present b3)))"

definition vps_ids :: "byte list \<Rightarrow> nal_error + nat" where
  "vps_ids nal = rbind (payload nal) (\<lambda>b. rbind (Bits_u 4 b) (\<lambda>(vps_id, _). Inr vps_id))"

text \<open>
  The part of the SPS in front of the SPS id. The Python writes these calls out in
  \<^verbatim>\<open>sps_ids\<close>, \<^verbatim>\<open>set_sps_ids\<close> and \<^verbatim>\<open>set_sps_chroma_format_idc\<close>.
\<close>

definition sps_layers :: "Bits \<Rightarrow> nal_error + unit \<times> Bits" where
  "sps_layers b =
     rbind (Bits_u 3 b) (\<lambda>(m, b1).
     let max_sub_layers = m + 1 in
     rbind (need (ValueError ''multi-layer SPS extension is not supported'') (\<not> max_sub_layers > 7)) (\<lambda>_.
     rbind (Bits_u 1 b1) (\<lambda>(_, b2). skip_ptl max_sub_layers b2)))"

definition sps_ids :: "byte list \<Rightarrow> nal_error + nat \<times> nat" where
  "sps_ids nal =
     rbind (payload nal) (\<lambda>b.
     rbind (Bits_u 4 b) (\<lambda>(vps_id, b1).
     rbind (sps_layers b1) (\<lambda>(_, b2).
     rbind (Bits_ue b2) (\<lambda>(sps_id, _). Inr (vps_id, sps_id)))))"

definition pps_ids :: "byte list \<Rightarrow> nal_error + nat \<times> nat" where
  "pps_ids nal =
     rbind (payload nal) (\<lambda>b.
     rbind (Bits_ue b) (\<lambda>(pps_id, b1).
     rbind (Bits_ue b1) (\<lambda>(sps_id, _). Inr (pps_id, sps_id))))"

definition assert_type :: "byte list \<Rightarrow> nat \<Rightarrow> nal_error + unit" where
  "assert_type nal t = rbind (nal_type nal) (\<lambda>ty. need AssertionError (ty = t))"

definition set_vps_id :: "byte list \<Rightarrow> int \<Rightarrow> nal_error + byte list" where
  "set_vps_id nal vps_id =
     rbind (assert_type nal HEVC_NAL_VPS) (\<lambda>_.
     rbind (payload nal) (\<lambda>b.
     rbind (u_bits vps_id 4) (\<lambda>new.
     Inr (rebuild nal (Bits_replace 0 4 new b)))))"

definition set_sps_ids ::
  "byte list \<Rightarrow> int option \<Rightarrow> int option \<Rightarrow> nal_error + byte list" where
  "set_sps_ids nal vps_id sps_id =
     rbind (assert_type nal HEVC_NAL_SPS) (\<lambda>_.
     rbind (payload nal) (\<lambda>b.
     rbind (Bits_u 4 b) (\<lambda>(old_vps, b1).
     rbind (u_bits (case vps_id of None \<Rightarrow> int old_vps | Some v \<Rightarrow> v) 4) (\<lambda>new.
     let b2 = Bits_replace 0 4 new b1 in
     rbind (sps_layers b2) (\<lambda>(_, b3).
     let start = pos b3 in
     rbind (Bits_ue b3) (\<lambda>(_, b4).
     case sps_id of
       None \<Rightarrow> Inr (rebuild nal b4)
     | Some s \<Rightarrow> rbind (ue_bits s) (\<lambda>code.
         Inr (rebuild nal (Bits_replace start (pos b4) code b4)))))))))"

definition set_pps_id :: "byte list \<Rightarrow> int \<Rightarrow> nal_error + byte list" where
  "set_pps_id nal pps_id =
     rbind (assert_type nal HEVC_NAL_PPS) (\<lambda>_.
     rbind (payload nal) (\<lambda>b.
     rbind (Bits_ue b) (\<lambda>(_, b1).
     rbind (ue_bits pps_id) (\<lambda>code.
     Inr (rebuild nal (Bits_replace 0 (pos b1) code b1))))))"

definition set_pps_sps_id :: "byte list \<Rightarrow> int \<Rightarrow> nal_error + byte list" where
  "set_pps_sps_id nal sps_id =
     rbind (assert_type nal HEVC_NAL_PPS) (\<lambda>_.
     rbind (payload nal) (\<lambda>b.
     rbind (Bits_ue b) (\<lambda>(_, b1).
     rbind (Bits_ue b1) (\<lambda>(_, b2).
     rbind (ue_bits sps_id) (\<lambda>code.
     Inr (rebuild nal (Bits_replace (pos b1) (pos b2) code b2)))))))"

definition set_sps_chroma_format_idc :: "byte list \<Rightarrow> int \<Rightarrow> nal_error + byte list" where
  "set_sps_chroma_format_idc nal value =
     rbind (assert_type nal HEVC_NAL_SPS) (\<lambda>_.
     rbind (payload nal) (\<lambda>b.
     rbind (Bits_u 4 b) (\<lambda>(_, b1).
     rbind (sps_layers b1) (\<lambda>(_, b2).
     rbind (Bits_ue b2) (\<lambda>(_, b3).
     rbind (Bits_ue b3) (\<lambda>(_, b4).
     rbind (ue_bits value) (\<lambda>code.
     Inr (rebuild nal (Bits_replace (pos b3) (pos b4) code b4)))))))))"

definition set_pps_num_ref_idx_l0_minus1 :: "byte list \<Rightarrow> int \<Rightarrow> nal_error + byte list" where
  "set_pps_num_ref_idx_l0_minus1 nal value =
     rbind (assert_type nal HEVC_NAL_PPS) (\<lambda>_.
     rbind (payload nal) (\<lambda>b.
     rbind (Bits_ue b) (\<lambda>(_, b1).
     rbind (Bits_ue b1) (\<lambda>(_, b2).
     rbind (Bits_u 7 b2) (\<lambda>(_, b3).
     rbind (Bits_ue b3) (\<lambda>(_, b4).
     rbind (ue_bits value) (\<lambda>code.
     Inr (rebuild nal (Bits_replace (pos b3) (pos b4) code b4)))))))))"

definition drop_payload_bits :: "byte list \<Rightarrow> nat \<Rightarrow> nal_error + byte list" where
  "drop_payload_bits nal count =
     rbind (payload nal) (\<lambda>b.
     if count > length (bits b)
     then Inl (ValueError ''payload is shorter than the bits to drop'')
     else Inr (rebuild nal (b\<lparr>bits := take (length (bits b) - count) (bits b)\<rparr>)))"

definition set_sps_empty_extensions :: "byte list \<Rightarrow> nal_error + byte list" where
  "set_sps_empty_extensions nal =
     rbind (assert_type nal HEVC_NAL_SPS) (\<lambda>_.
     rbind (payload nal) (\<lambda>b.
     if bits b = [] then Inl IndexError
     else if last (bits b)
     then Inl (ValueError ''SPS does not end with sps_extension_present_flag 0'')
     else Inr (rebuild nal (b\<lparr>bits := butlast (bits b) @ [True] @ replicate 8 False\<rparr>))))"

definition pad_payload :: "byte list \<Rightarrow> nat \<Rightarrow> nal_error + byte list" where
  "pad_payload nal count =
     rbind (payload nal) (\<lambda>b.
     Inr (rebuild nal
       (b\<lparr>bits := bits b @ concat (replicate count
           [True, False, True, False, True, False, True, False])\<rparr>)))"

definition truncate_rbsp :: "byte list \<Rightarrow> nat \<Rightarrow> byte list" where
  "truncate_rbsp nal keep_bytes =
     take 2 nal @ escape (take keep_bytes (unescape (drop 2 nal)) @ [0x80])"

section \<open>Laws of the NAL helpers\<close>

subsection \<open>Laws of emulation prevention and of the framing\<close>

lemma unescape_escape_loop: "unescape_loop z (escape_loop z bs) = bs"
  by (induction bs arbitrary: z) auto

fun emulates :: "byte list \<Rightarrow> bool" where
  "emulates (a # b # c # r) \<longleftrightarrow> (a = 0 \<and> b = 0 \<and> c \<le> 2) \<or> emulates (b # c # r)"
| "emulates _ \<longleftrightarrow> False"

lemma emulates_nonzero: "b \<noteq> 0 \<Longrightarrow> emulates (b # r) = emulates r"
  by (cases r rule: emulates.cases) auto

lemma emulates_zero_nonzero: "b \<noteq> 0 \<Longrightarrow> emulates (0 # b # r) = emulates r"
  by (cases r) (auto simp: emulates_nonzero)

lemma emulates_zeros_large: "\<not> b \<le> 2 \<Longrightarrow> emulates (0 # 0 # b # r) = emulates r"
proof -
  assume b: "\<not> b \<le> 2"
  then have "b \<noteq> 0" by auto
  with b show ?thesis by (simp add: emulates_zero_nonzero)
qed

lemma replicate_two: "replicate 2 x = [x, x]"
  by (simp add: numeral_2_eq_2)

lemma escape_loop_emulates:
  "\<not> emulates (replicate (min z 2) 0 @ escape_loop z bs)"
proof (induction bs arbitrary: z)
  case Nil
  have "min z 2 = 0 \<or> min z 2 = 1 \<or> min z 2 = 2" by linarith
  then show ?case by (auto simp: replicate_two)
next
  case (Cons b bs)
  have IH0: "\<not> emulates (escape_loop 0 bs)" using Cons.IH [of 0] by simp
  have IH1: "\<not> emulates (0 # escape_loop 1 bs)" using Cons.IH [of 1] by simp
  have IH2: "\<not> emulates (0 # 0 # escape_loop (Suc (Suc 0)) bs)"
    using Cons.IH [of "Suc (Suc 0)"] by simp
  consider "z = 0" | "z = 1" | "2 \<le> z" by linarith
  then show ?case
  proof cases
    case 1
    then show ?thesis using IH0 IH1 by (auto simp: emulates_nonzero)
  next
    case 2
    then show ?thesis using IH0 IH2 by (auto simp: emulates_zero_nonzero)
  next
    case 3
    then have two: "replicate (min z 2) (0 :: byte) = [0, 0]" by (simp add: replicate_two)
    show ?thesis
    proof (cases "b \<le> 3")
      case True
      with 3 IH0 IH1 show ?thesis
        unfolding two by (auto simp: emulates_zeros_large emulates_nonzero)
    next
      case False
      then have "\<not> b \<le> 2" and "b \<noteq> 0" by (auto simp: word_le_nat_alt)
      with 3 False IH0 show ?thesis
        unfolding two by (auto simp: emulates_zero_nonzero)
    qed
  qed
qed

text \<open>A NAL unit that the framing can carry: not empty, no trailing zero byte, no start code inside.\<close>

definition start_code_at :: "byte list \<Rightarrow> nat \<Rightarrow> bool" where
  "start_code_at data k \<longleftrightarrow>
     k + 2 < length data \<and> data ! k = 0 \<and> data ! (k + 1) = 0 \<and> data ! (k + 2) = 1"

definition nal_wf :: "byte list \<Rightarrow> bool" where
  "nal_wf nal \<longleftrightarrow> nal \<noteq> [] \<and> last nal \<noteq> 0 \<and> (\<forall>k < length nal. \<not> start_code_at nal k)"

lemma split_loop_skip:
  assumes "\<And>k. i \<le> k \<Longrightarrow> k < i + n \<Longrightarrow> \<not> start_code_at data k"
  shows "split_loop data i st nals = split_loop data (i + n) st nals"
  using assms
proof (induction n arbitrary: i)
  case 0
  then show ?case by simp
next
  case (Suc n)
  have no: "\<not> start_code_at data i" using Suc.prems [of i] by simp
  have IH: "split_loop data (i + 1) st nals = split_loop data (i + 1 + n) st nals"
    using Suc.prems by (intro Suc.IH) auto
  show ?case
  proof (cases "i + 2 < length data")
    case True
    with no have "split_loop data i st nals = split_loop data (i + 1) st nals"
      by (subst split_loop.simps) (auto simp: start_code_at_def)
    with IH show ?thesis by simp
  next
    case False
    then have "split_loop data i st nals = (st, nals)"
      and "split_loop data (i + Suc n) st nals = (st, nals)"
      by (subst split_loop.simps; simp)+
    then show ?thesis by simp
  qed
qed

lemma rstrip_zeros_last: "xs \<noteq> [] \<Longrightarrow> last xs \<noteq> 0 \<Longrightarrow> rstrip_zeros xs = xs"
  by (cases xs rule: rev_cases) (auto simp: rstrip_zeros_def)

lemma rstrip_zeros_snoc: "rstrip_zeros (xs @ [0]) = rstrip_zeros xs"
  by (simp add: rstrip_zeros_def)

lemma join_annexb_Cons: "join_annexb (w # ws) = [0, 0, 0, 1] @ w @ join_annexb ws"
  by (simp add: join_annexb_def START_CODE_def)

lemma no_start_code_in_nal:
  assumes "nal_wf w" and "length pre \<le> k" and "k < length pre + length w"
  shows "\<not> start_code_at (pre @ w @ join_annexb ws) k"
proof
  let ?d = "pre @ w @ join_annexb ws"
  assume sc: "start_code_at ?d k"
  define j where "j = k - length pre"
  have k: "k = length pre + j" and j: "j < length w" using assms(2,3) by (auto simp: j_def)
  have at: "?d ! (length pre + m) = (w @ join_annexb ws) ! m" for m by simp
  from sc have z: "(w @ join_annexb ws) ! j = 0" "(w @ join_annexb ws) ! (j + 1) = 0"
      "(w @ join_annexb ws) ! (j + 2) = 1" and len: "j + 2 < length (w @ join_annexb ws)"
    unfolding start_code_at_def k using at [of j] at [of "j + 1"] at [of "j + 2"]
    by (simp_all add: add.assoc)
  have last: "w ! (length w - 1) \<noteq> 0" using assms(1) by (auto simp: nal_wf_def last_conv_nth)
  consider "j + 2 < length w" | "j + 1 = length w" | "j + 2 = length w" using j by linarith
  then show False
  proof cases
    case 1
    with z have "start_code_at w j" by (simp add: start_code_at_def nth_append)
    with assms(1) j show False by (auto simp: nal_wf_def)
  next
    case 2
    then have "j = length w - 1" by simp
    with z(1) j have "w ! (length w - 1) = 0" by (auto simp: nth_append)
    with last show False by simp
  next
    case 3
    then have "j + 1 = length w - 1" by simp
    with z(2) 3 have "w ! (length w - 1) = 0" by (auto simp: nth_append)
    with last show False by simp
  qed
qed

definition split_finish :: "byte list \<Rightarrow> nat option \<times> byte list list \<Rightarrow> byte list list" where
  "split_finish data r = (case r of (start, nals) \<Rightarrow>
     (case start of None \<Rightarrow> nals
      | Some s \<Rightarrow> nals @ [if s < length data then rstrip_zeros (drop s data) else []]))"

lemma split_loop_start_code:
  assumes "data = pre @ join_annexb (w # ws)" and "i = length pre" and "j = i + 4"
  shows "split_loop data i None acc = split_loop data j (Some j) acc" (is ?none)
    and "split_loop data i (Some s) acc =
           split_loop data j (Some j) (acc @ [rstrip_zeros (py_slice data s (i + 1))])" (is ?some)
proof -
  have d: "data = pre @ [0, 0, 0, 1] @ w @ join_annexb ws"
    by (simp add: assms join_annexb_Cons)
  have n: "data ! i = 0" "data ! (i + 1) = 0" "data ! (i + 2) = 0"
       "data ! (i + 3) = 1" "i + 3 < length data"
    by (simp_all add: d assms(2) nth_append)
  have "split_loop data i st acc = split_loop data (i + 1) st acc" for st
    using n by (subst split_loop.simps) simp
  moreover have "split_loop data (i + 1) st acc = split_loop data j (Some j)
       (case st of None \<Rightarrow> acc | Some s \<Rightarrow> acc @ [rstrip_zeros (py_slice data s (i + 1))])" for st
    using n by (subst split_loop.simps) (simp add: assms(3) eval_nat_numeral)
  ultimately show ?none and ?some by simp_all
qed

lemma split_loop_join:
  assumes "nal_wf w" and "\<forall>x \<in> set ws. nal_wf x"
  shows "split_finish (pre @ w @ join_annexb ws)
           (split_loop (pre @ w @ join_annexb ws) (length pre) (Some (length pre)) acc)
         = acc @ w # ws"
  using assms
proof (induction ws arbitrary: pre w acc)
  case Nil
  let ?d = "pre @ w"
  have "split_loop ?d (length pre) (Some (length pre)) acc
        = split_loop ?d (length pre + length w) (Some (length pre)) acc"
    using no_start_code_in_nal [OF Nil.prems(1), of pre _ "[]"]
    by (intro split_loop_skip) (auto simp: join_annexb_def)
  also have "\<dots> = (Some (length pre), acc)" by (subst split_loop.simps) simp
  finally show ?case using Nil.prems
    by (simp add: split_finish_def join_annexb_def rstrip_zeros_last nal_wf_def)
next
  case (Cons x ws)
  let ?d = "pre @ w @ join_annexb (x # ws)"
  let ?p = "pre @ w @ [0, 0, 0, 1]"
  have d: "?d = ?p @ x @ join_annexb ws" by (simp add: join_annexb_Cons)
  have "split_loop ?d (length pre) (Some (length pre)) acc
        = split_loop ?d (length pre + length w) (Some (length pre)) acc"
    using no_start_code_in_nal [OF Cons.prems(1)] by (intro split_loop_skip) auto
  also have "\<dots> = split_loop ?d (length ?p) (Some (length ?p))
        (acc @ [rstrip_zeros (py_slice ?d (length pre) (length pre + length w + 1))])"
    by (rule split_loop_start_code(2) [where pre = "pre @ w"]) simp_all
  also have "py_slice ?d (length pre) (length pre + length w + 1) = w @ [0]"
    by (simp add: py_slice_def join_annexb_Cons)
  also have "rstrip_zeros (w @ [0]) = w"
    using Cons.prems(1) by (simp add: rstrip_zeros_snoc rstrip_zeros_last nal_wf_def)
  finally have "split_finish ?d (split_loop ?d (length pre) (Some (length pre)) acc)
      = split_finish ?d (split_loop ?d (length ?p) (Some (length ?p)) (acc @ [w]))"
    by simp
  also have "\<dots> = (acc @ [w]) @ x # ws"
    unfolding d using Cons.prems by (intro Cons.IH) auto
  finally show ?case by simp
qed

lemma split_join_annexb:
  assumes "\<forall>nal \<in> set nals. nal_wf nal"
  shows "split_annexb (join_annexb nals) = nals"
proof (cases nals)
  case Nil
  have "split_loop [] 0 None [] = (None, [])" by (subst split_loop.simps) simp
  with Nil show ?thesis by (simp add: split_annexb_def join_annexb_def)
next
  case (Cons w ws)
  let ?d = "join_annexb nals"
  have "split_finish ?d (split_loop ?d 0 None []) =
        split_finish ?d (split_loop ?d 4 (Some 4) [])"
    using Cons by (subst split_loop_start_code(1) [where pre = "[]" and w = w and ws = ws]) simp_all
  also have "\<dots> = w # ws"
    using split_loop_join [of w ws "[0, 0, 0, 1]" "[]"] assms Cons
    by (simp add: join_annexb_Cons eval_nat_numeral)
  finally have "split_finish ?d (split_loop ?d 0 None []) = nals" using Cons by simp
  moreover have "filter (\<lambda>nal. nal \<noteq> []) nals = nals"
    using assms by (auto simp: filter_id_conv nal_wf_def)
  ultimately show ?thesis
    by (simp add: split_annexb_def split_finish_def split: prod.splits)
qed

subsection \<open>Laws of the bit reader and writer\<close>

lemma u_loop_append: "length xs = n \<Longrightarrow> u_loop n v (xs @ ys) = u_loop n v xs"
  by (induction n arbitrary: xs v) (auto simp: length_Suc_conv)

lemma u_loop_horner:
  "length bs = n \<Longrightarrow> u_loop n v bs = v * 2 ^ n + horner_sum of_bool 2 (rev bs)"
proof (induction n arbitrary: bs v)
  case 0
  then show ?case by simp
next
  case (Suc n)
  then obtain b cs where "bs = b # cs" "length cs = n" by (auto simp: length_Suc_conv)
  with Suc.IH show ?case by (simp add: horner_sum_append algebra_simps)
qed

lemma msb_bits_length [simp]: "length (msb_bits v n) = n"
  by (simp add: msb_bits_def)

lemma rev_msb_bits: "rev (msb_bits v n) = map (bit v) [0..<n]"
proof (rule nth_equalityI)
  fix i assume "i < length (rev (msb_bits v n))"
  then show "rev (msb_bits v n) ! i = map (bit v) [0..<n] ! i"
    by (simp add: rev_nth msb_bits_def bit_iff_odd)
qed simp

lemma u_loop_msb_bits: "u_loop n 0 (msb_bits v n) = take_bit n v"
  by (simp add: u_loop_horner rev_msb_bits horner_sum_bit_eq_take_bit)

lemma byte_bits_length [simp]: "length (byte_bits b) = 8"
  by (simp add: byte_bits_def)

lemma rev_byte_bits_nth: "k < 8 \<Longrightarrow> rev (byte_bits b) ! k = bit b k"
proof -
  assume "k < 8"
  then have "7 - k < 8" and "7 - (7 - k) = k" by auto
  then show ?thesis using \<open>k < 8\<close> by (simp add: rev_nth) (simp add: byte_bits_def)
qed

lemma byte_bits_bits_byte:
  assumes "length bs = 8"
  shows "byte_bits (bits_byte bs) = bs"
proof (rule nth_equalityI)
  fix i assume "i < length (byte_bits (bits_byte bs))"
  then have i: "i < 8" by (simp add: byte_bits_def)
  have "bits_byte bs = of_nat (horner_sum of_bool 2 (rev bs))"
    using assms by (simp add: bits_byte_def u_loop_horner)
  then have "bit (bits_byte bs) (7 - i) = rev bs ! (7 - i)"
    using assms i by (auto simp: bit_simps)
  also have "\<dots> = bs ! i" using assms i by (simp add: rev_nth)
  finally show "byte_bits (bits_byte bs) ! i = bs ! i" using i by (simp add: byte_bits_def)
qed (simp add: assms byte_bits_def)

lemma concat_byte_bits: "8 dvd length bs \<Longrightarrow> concat (map byte_bits (bytes_of_bits bs)) = bs"
proof (induction bs rule: bytes_of_bits.induct)
  case 1
  then show ?case by simp
next
  case (2 b bs)
  have "8 \<le> length (b # bs)" using "2.prems" by (auto dest: dvd_imp_le)
  then have "length (take 8 (b # bs)) = 8" by simp
  moreover have "8 dvd length (drop 8 (b # bs))"
    unfolding length_drop using "2.prems" by (intro dvd_diff_nat) auto
  ultimately show ?case
    using "2.IH" by (simp add: byte_bits_bits_byte del: take_Suc_Cons drop_Suc_Cons)
qed

lemma pad_dvd: "(8 :: nat) dvd n + (8 - n mod 8) mod 8"
proof -
  have "(n + (8 - n mod 8) mod 8) mod 8 = (n + (8 - n mod 8)) mod 8"
    by (rule mod_add_right_eq)
  also have "\<dots> = (n mod 8 + (8 - n mod 8)) mod 8"
    by (rule mod_add_left_eq [symmetric])
  also have "n mod 8 + (8 - n mod 8) = 8"
    by (rule le_add_diff_inverse) (rule less_imp_le, rule mod_less_divisor, simp)
  also have "(8 :: nat) mod 8 = 0" by simp
  finally show ?thesis by (rule dvd_eq_mod_eq_0 [THEN iffD2])
qed

lemma dropWhile_Not_replicate: "dropWhile Not (replicate k False @ True # xs) = True # xs"
  by (induction k) auto

lemma to_rbsp_bits:
  obtains k where "k < 8"
    and "concat (map byte_bits (Bits_to_rbsp b)) = bits b @ True # replicate k False"
proof
  define bs where "bs = bits b @ [True]"
  define k where "k = (8 - length bs mod 8) mod 8"
  show "k < 8" by (simp add: k_def)
  have "concat (map byte_bits (Bits_to_rbsp b)) = bs @ replicate k False"
    unfolding Bits_to_rbsp_def bs_def [symmetric] Let_def k_def [symmetric]
    by (rule concat_byte_bits) (simp add: k_def pad_dvd)
  then show "concat (map byte_bits (Bits_to_rbsp b)) = bits b @ True # replicate k False"
    by (simp add: bs_def)
qed

lemma Bits_init_to_rbsp: "Bits_init (Bits_to_rbsp b) = Inr \<lparr>bits = bits b, pos = 0\<rparr>"
  by (rule to_rbsp_bits [of b]) (simp add: Bits_init_def dropWhile_Not_replicate)

lemma Bits_to_rbsp_last: "Bits_to_rbsp b \<noteq> [] \<and> last (Bits_to_rbsp b) \<noteq> 0"
proof (rule to_rbsp_bits [of b])
  fix k assume k: "k < 8"
    and eq: "concat (map byte_bits (Bits_to_rbsp b)) = bits b @ True # replicate k False"
  from eq have ne: "Bits_to_rbsp b \<noteq> []" by auto
  then obtain ys l where y: "Bits_to_rbsp b = ys @ [l]" by (metis rev_exhaust)
  have "rev (byte_bits l) @ rev (concat (map byte_bits ys)) =
        replicate k False @ True # rev (bits b)"
    using arg_cong [OF eq, of rev] y by simp
  then have "(rev (byte_bits l) @ rev (concat (map byte_bits ys))) ! k"
    by (simp add: nth_append)
  then have "bit l k" using k by (simp add: nth_append rev_byte_bits_nth)
  then show ?thesis using ne y by auto
qed

text \<open>
  The interface between the bit reader and the functions that look at a NAL unit: \<open>reads rd cs a\<close>
  says that \<open>rd\<close> consumes exactly the bits \<open>cs\<close> and returns \<open>a\<close>, whatever stands before and after
  them. The locale \<open>bit_reader\<close> is the contract of one read operation: a successful read consumed
  some run of bits in this position-independent way and changed nothing but the position.
\<close>

definition reads :: "(Bits \<Rightarrow> nal_error + 'a \<times> Bits) \<Rightarrow> bool list \<Rightarrow> 'a \<Rightarrow> bool" where
  "reads rd cs a \<longleftrightarrow>
     (\<forall>pre post. rd \<lparr>bits = pre @ cs @ post, pos = length pre\<rparr> =
        Inr (a, \<lparr>bits = pre @ cs @ post, pos = length pre + length cs\<rparr>))"

locale bit_reader =
  fixes rd :: "Bits \<Rightarrow> nal_error + 'a \<times> Bits"
  assumes prefix_local:
    "rd b = Inr (a, b') \<Longrightarrow> pos b \<le> length (bits b) \<Longrightarrow>
       \<exists>pre cs post. b = \<lparr>bits = pre @ cs @ post, pos = length pre\<rparr> \<and>
         b' = b\<lparr>pos := length pre + length cs\<rparr> \<and> reads rd cs a"
begin

lemma bits_kept:
  "rd b = Inr (a, b') \<Longrightarrow> pos b \<le> length (bits b) \<Longrightarrow>
     bits b' = bits b \<and> pos b \<le> pos b' \<and> pos b' \<le> length (bits b)"
  using prefix_local [of b a b'] by fastforce

end

lemma reader_witness:
  assumes "pos b + n \<le> length (bits b)" and "b' = b\<lparr>pos := pos b + n\<rparr>"
    and "reads rd (take n (drop (pos b) (bits b))) a"
  shows "\<exists>pre cs post. b = \<lparr>bits = pre @ cs @ post, pos = length pre\<rparr> \<and>
           b' = b\<lparr>pos := length pre + length cs\<rparr> \<and> reads rd cs a"
proof -
  let ?cs = "take n (drop (pos b) (bits b))"
  have "b = \<lparr>bits = take (pos b) (bits b) @ ?cs @ drop n (drop (pos b) (bits b)),
           pos = length (take (pos b) (bits b))\<rparr>"
    unfolding append_take_drop_id using assms(1) by simp
  moreover have "b' = b\<lparr>pos := length (take (pos b) (bits b)) + length ?cs\<rparr>"
    using assms(1,2) by simp
  ultimately show ?thesis using assms(3) by blast
qed

lemma reads_bind:
  assumes "reads p cs a" and "reads (q a) ds c"
  shows "reads (\<lambda>b. rbind (p b) (\<lambda>(a, b'). q a b')) (cs @ ds) c"
  unfolding reads_def
proof (intro allI)
  fix pre post
  show "rbind (p \<lparr>bits = pre @ (cs @ ds) @ post, pos = length pre\<rparr>) (\<lambda>(a, b'). q a b') =
        Inr (c, \<lparr>bits = pre @ (cs @ ds) @ post, pos = length pre + length (cs @ ds)\<rparr>)"
    using assms(1) [unfolded reads_def, rule_format, of pre "ds @ post"]
      assms(2) [unfolded reads_def, rule_format, of "pre @ cs" post]
    by (simp add: add.assoc)
qed

lemma bit_reader_bind:
  assumes "bit_reader p" and "\<And>a. bit_reader (q a)"
  shows "bit_reader (\<lambda>b. rbind (p b) (\<lambda>(a, b'). q a b'))"
proof
  fix b c b''
  assume "rbind (p b) (\<lambda>(a, b'). q a b') = Inr (c, b'')" and wf: "pos b \<le> length (bits b)"
  then obtain a b' where p: "p b = Inr (a, b')" and q: "q a b' = Inr (c, b'')"
    by (auto simp: rbind_Inr)
  obtain pre cs post where b: "b = \<lparr>bits = pre @ cs @ post, pos = length pre\<rparr>"
      and b': "b' = b\<lparr>pos := length pre + length cs\<rparr>" and rp: "reads p cs a"
    using bit_reader.prefix_local [OF assms(1) p wf] by blast
  obtain pre2 ds post2 where b2: "b' = \<lparr>bits = pre2 @ ds @ post2, pos = length pre2\<rparr>"
      and b'': "b'' = b'\<lparr>pos := length pre2 + length ds\<rparr>" and rq: "reads (q a) ds c"
    using bit_reader.prefix_local [OF assms(2) q] b b' by auto
  have eq: "pre @ cs @ post = pre2 @ ds @ post2" "length pre2 = length (pre @ cs)"
    using b b' b2 by simp_all
  then have "pre2 = pre @ cs" "post = ds @ post2"
    by (metis append_assoc append_eq_append_conv)+
  then show "\<exists>pre cs post. b = \<lparr>bits = pre @ cs @ post, pos = length pre\<rparr> \<and>
         b'' = b\<lparr>pos := length pre + length cs\<rparr> \<and>
         reads (\<lambda>b. rbind (p b) (\<lambda>(a, b'). q a b')) cs c"
    using reads_bind [of p cs a q ds c, OF rp rq] b b' b''
    by (intro exI [of _ pre] exI [of _ "cs @ ds"] exI [of _ post2]) auto
qed

lemma bit_reader_return: "bit_reader (\<lambda>b. Inr (a, b))"
proof
  fix b b' :: Bits and c
  assume "Inr (a, b) = (Inr (c, b') :: nal_error + 'a \<times> Bits)" and "pos b \<le> length (bits b)"
  then show "\<exists>pre cs post. b = \<lparr>bits = pre @ cs @ post, pos = length pre\<rparr> \<and>
         b' = b\<lparr>pos := length pre + length cs\<rparr> \<and> reads (\<lambda>b. Inr (a, b)) cs c"
    by (intro reader_witness [where n = 0]) (auto simp: reads_def)
qed

lemma bit_reader_fail: "bit_reader (\<lambda>b. Inl e)"
  by unfold_locales simp

lemma reads_u:
  assumes "length cs = n"
  shows "reads (Bits_u n) cs (u_loop n 0 cs)"
  using assms by (auto simp: reads_def Bits_u_def u_loop_append)


lemma bit_reader_u: "bit_reader (Bits_u n)"
proof
  fix b a b'
  assume *: "Bits_u n b = Inr (a, b')" "pos b \<le> length (bits b)"
  let ?cs = "take n (drop (pos b) (bits b))"
  have n: "length ?cs = n" using * by (auto simp: Bits_u_def split: if_splits)
  have "u_loop n 0 (drop (pos b) (bits b)) = u_loop n 0 ?cs"
    using u_loop_append [OF n, of 0 "drop n (drop (pos b) (bits b))"]
    unfolding append_take_drop_id .
  then have "a = u_loop n 0 ?cs" and "b' = b\<lparr>pos := pos b + n\<rparr>"
    using *(1) by (auto simp: Bits_u_def split: if_splits)
  then show "\<exists>pre cs post. b = \<lparr>bits = pre @ cs @ post, pos = length pre\<rparr> \<and>
         b' = b\<lparr>pos := length pre + length cs\<rparr> \<and> reads (Bits_u n) cs a"
    using *(1) reads_u [OF n]
    by (intro reader_witness [where n = n]) (auto simp: Bits_u_def split: if_splits)
qed

lemma bit_reader_cong: "(\<And>b. p b = q b) \<Longrightarrow> bit_reader p = bit_reader q"
  by (metis ext)

lemma bit_reader_ue_zeros: "bit_reader (ue_zeros z)"
proof (induction "32 - z" arbitrary: z rule: less_induct)
  case less
  have step: "bit_reader (\<lambda>b'. if v = 0 then
         if z + 1 > 31 then Inl (ValueError ''invalid Exp-Golomb code'') else ue_zeros (z + 1) b'
       else Inr (z, b'))" for v :: nat
  proof (cases "v = 0 \<and> z + 1 \<le> 31")
    case True
    then have "32 - (z + 1) < 32 - z" by auto
    with True show ?thesis using less [of "z + 1"] by simp
  next
    case False
    then show ?thesis using bit_reader_return bit_reader_fail by (cases "v = 0") auto
  qed
  show ?case
    using bit_reader_bind [OF bit_reader_u [of 1] step]
    by (subst bit_reader_cong [OF ue_zeros.simps]) simp
qed

lemma bit_reader_ue: "bit_reader Bits_ue"
proof -
  have "bit_reader (\<lambda>b. rbind (Bits_u z b) (\<lambda>(v, b2). Inr (2 ^ z - 1 + v, b2)))" for z
    by (rule bit_reader_bind [OF bit_reader_u bit_reader_return])
  from bit_reader_bind [OF bit_reader_ue_zeros [of 0] this]
  show ?thesis by (subst bit_reader_cong [OF Bits_ue_def])
qed

interpretation u: bit_reader "Bits_u n" for n
  by (rule bit_reader_u)

interpretation ue: bit_reader Bits_ue
  by (rule bit_reader_ue)

lemma bit_reader_ptl_flags: "bit_reader (ptl_flags n)"
proof (induction n)
  case 0
  show ?case by (subst bit_reader_cong [OF ptl_flags.simps(1)]) (rule bit_reader_return)
next
  case (Suc n)
  show ?case
    by (subst bit_reader_cong [OF ptl_flags.simps(2)])
      (intro bit_reader_bind bit_reader_u Suc bit_reader_return)
qed

lemma bit_reader_ptl_layers: "bit_reader (ptl_layers fs)"
proof (induction fs)
  case Nil
  show ?case by (subst bit_reader_cong [OF ptl_layers.simps(1)]) (rule bit_reader_return)
next
  case (Cons f fs)
  obtain p l where f: "f = (p, l)" by (cases f)
  have opt: "bit_reader (\<lambda>b. if c then Bits_u n b else Inr (0, b))" for c n
    by (cases c) (simp_all add: bit_reader_u bit_reader_return)
  show ?case
    unfolding f by (subst bit_reader_cong [OF ptl_layers.simps(2)])
      (intro bit_reader_bind opt Cons)
qed

lemma bit_reader_skip_ptl: "bit_reader (skip_ptl n)"
proof -
  have opt: "bit_reader (\<lambda>b. if c then Bits_u n b else Inr (0, b))" for c n
    by (cases c) (simp_all add: bit_reader_u bit_reader_return)
  show ?thesis
    by (subst bit_reader_cong [OF skip_ptl_def])
      (intro bit_reader_bind bit_reader_u bit_reader_ptl_flags opt bit_reader_ptl_layers)
qed

lemma bit_reader_sps_layers: "bit_reader sps_layers"
proof -
  have tail: "bit_reader (\<lambda>b1. let max_sub_layers = m + 1 in
     rbind (need (ValueError ''multi-layer SPS extension is not supported'') (\<not> max_sub_layers > 7))
       (\<lambda>_. rbind (Bits_u 1 b1) (\<lambda>(_, b2). skip_ptl max_sub_layers b2)))" for m :: nat
    using bit_reader_bind [OF bit_reader_u [of 1] bit_reader_skip_ptl [of "m + 1"]] bit_reader_fail
    by (cases "m + 1 > 7") (simp_all add: Let_def)
  show ?thesis
    by (subst bit_reader_cong [OF sps_layers_def]) (intro bit_reader_bind bit_reader_u tail)
qed

interpretation layers: bit_reader sps_layers
  by (rule bit_reader_sps_layers)

text \<open>What \<open>u_bits\<close> and \<open>ue_bits\<close> write, the readers read back.\<close>

lemma u_bits_Inr:
  "u_bits v n = Inr cs \<longleftrightarrow> 0 \<le> n \<and> 0 \<le> v \<and> v < 2 ^ nat n \<and> cs = msb_bits (nat v) (nat n)"
  by (auto simp: u_bits_def)

lemma reads_u_bits:
  assumes "u_bits v n = Inr cs"
  shows "reads (Bits_u (nat n)) cs (nat v)"
proof -
  from assms have v: "0 \<le> v" "v < 2 ^ nat n" and cs: "cs = msb_bits (nat v) (nat n)"
    by (auto simp: u_bits_Inr)
  have "nat v < 2 ^ nat n" using v by (simp add: nat_less_iff)
  then have "u_loop (nat n) 0 cs = nat v"
    by (simp add: cs u_loop_msb_bits take_bit_nat_eq_self)
  then show ?thesis using reads_u [of cs "nat n"] cs by simp
qed

lemma msb_bits_Suc: "msb_bits v (Suc n) = odd (v div 2 ^ n) # msb_bits v n"
proof -
  have "map (\<lambda>k. odd (v div 2 ^ (n - k))) [0..<Suc n] =
        odd (v div 2 ^ n) # map (\<lambda>k. odd (v div 2 ^ (n - Suc k))) [0..<n]"
    by (simp add: upt_conv_Cons map_Suc_upt [symmetric] del: upt_Suc)
  then show ?thesis by (simp add: msb_bits_def)
qed

lemma reads_u_one: "reads (Bits_u 1) [c] (of_bool c)"
  using reads_u [of "[c]" 1] by simp

lemma ue_zeros_reads:
  "z + k \<le> 31 \<Longrightarrow> reads (ue_zeros z) (replicate k False @ [True]) (z + k)"
proof (induction k arbitrary: z)
  case 0
  have "reads (\<lambda>b. rbind (Bits_u 1 b) (\<lambda>(v, b').
       if v = 0 then if z + 1 > 31 then Inl (ValueError ''invalid Exp-Golomb code'')
         else ue_zeros (z + 1) b' else Inr (z, b'))) ([True] @ []) z"
    by (rule reads_bind [OF reads_u_one]) (simp add: reads_def)
  then show ?case by (simp add: reads_def ue_zeros.simps [of z])
next
  case (Suc k)
  then have IH: "reads (ue_zeros (z + 1)) (replicate k False @ [True]) (z + 1 + k)"
    using Suc.IH [of "z + 1"] Suc.prems by simp
  have "reads (\<lambda>b. rbind (Bits_u 1 b) (\<lambda>(v, b').
       if v = 0 then if z + 1 > 31 then Inl (ValueError ''invalid Exp-Golomb code'')
         else ue_zeros (z + 1) b' else Inr (z, b')))
       ([False] @ (replicate k False @ [True])) (z + 1 + k)"
    by (rule reads_bind [OF reads_u_one]) (use IH Suc.prems in \<open>simp add: reads_def\<close>)
  then show ?case by (simp add: reads_def ue_zeros.simps [of z])
qed

lemma reads_ue_bits:
  assumes "ue_bits v = Inr cs" and "v < 2 ^ 32 - 1"
  shows "reads Bits_ue cs (nat v)"
proof -
  define code where "code = nat v + 1"
  define w where "w = bit_length code"
  have v: "0 \<le> v" and cs: "cs = replicate (w - 1) False @ msb_bits code w"
    using assms(1) by (auto simp: ue_bits_def code_def w_def Let_def split: if_splits)
  have code: "code < 2 ^ 32" "0 < code" using assms(2) v by (auto simp: code_def)
  have w: "2 ^ (w - 1) \<le> code" "code < 2 ^ w" "0 < w"
    using bit_length_bounds [OF code(2)] by (auto simp: w_def)
  obtain k where k: "w = Suc k" using w(3) by (cases w) auto
  have "2 ^ k \<le> code" using w(1) k by simp
  then have "(2 :: nat) ^ k < 2 ^ 32" using code(1) by (rule le_less_trans)
  then have "k < 32" by (rule power_less_imp_less_exp [rotated]) simp
  then have k31: "k \<le> 31" by simp
  have top: "code div 2 ^ k = 1"
  proof -
    have "code div 2 ^ k < 2" using w(2) k by (simp add: less_mult_imp_div_less)
    moreover have "0 < code div 2 ^ k" using w(1) k by (simp add: div_greater_zero_iff)
    ultimately show ?thesis by simp
  qed
  have cs': "cs = (replicate k False @ [True]) @ msb_bits code k"
    using top by (simp add: cs k msb_bits_Suc)
  have low: "take_bit k code = code - 2 ^ k"
    using top by (metis One_nat_def add_diff_cancel_left' div_mult_mod_eq mult_1 take_bit_eq_mod)
  have "reads (\<lambda>b. rbind (Bits_u k b) (\<lambda>(v, b2). Inr (2 ^ k - 1 + v, b2)))
          (msb_bits code k @ []) (2 ^ k - 1 + (code - 2 ^ k))"
    by (rule reads_bind [OF reads_u [of "msb_bits code k" k, simplified]])
      (simp_all add: reads_def u_loop_msb_bits low)
  moreover have "2 ^ k - 1 + (code - 2 ^ k) = nat v"
  proof -
    have "(1 :: nat) \<le> 2 ^ k" by simp
    then show ?thesis using w(1) k unfolding code_def by simp
  qed
  ultimately have tail: "reads (\<lambda>b. rbind (Bits_u k b) (\<lambda>(v, b2). Inr (2 ^ k - 1 + v, b2)))
          (msb_bits code k) (nat v)" by simp
  have "reads (ue_zeros 0) (replicate k False @ [True]) k"
    using ue_zeros_reads [of 0 k] k31 by simp
  from reads_bind [of "ue_zeros 0" "replicate k False @ [True]" k
      "\<lambda>z b. rbind (Bits_u z b) (\<lambda>(v, b2). Inr (2 ^ z - 1 + v, b2))" "msb_bits code k" "nat v", OF this tail]
  show ?thesis by (simp add: cs' reads_def Bits_ue_def)
qed

subsection \<open>Rewriting identifiers\<close>

lemma payload_pos: "payload nal = Inr b \<Longrightarrow> pos b = 0"
  by (auto simp: payload_def Bits_init_def Let_def split: if_splits)

lemma payload_length: "payload nal = Inr b \<Longrightarrow> 2 < length nal"
  by (cases "drop 2 nal") (auto simp: payload_def Bits_init_def unescape_def not_le [symmetric])

lemma payload_rebuild:
  "payload nal = Inr b \<Longrightarrow> payload (rebuild nal b') = Inr \<lparr>bits = bits b', pos = 0\<rparr>"
  using payload_length [of nal b]
  by (simp add: payload_def rebuild_def escape_def unescape_def unescape_escape_loop
      Bits_init_to_rbsp)

lemma nal_type_rebuild:
  "payload nal = Inr b \<Longrightarrow> nal_type (rebuild nal b') = nal_type nal"
  using payload_length [of nal b] by (cases nal) (auto simp: nal_type_def rebuild_def numeral_2_eq_2)

lemma reads_at:
  "reads rd cs a \<Longrightarrow> bits b = pre @ cs @ post \<Longrightarrow> pos b = length pre \<Longrightarrow>
     rd b = Inr (a, \<lparr>bits = pre @ cs @ post, pos = length pre + length cs\<rparr>)"
  by (cases b) (auto simp: reads_def)

lemma reader_first:
  assumes "bit_reader rd" and "rd b = Inr (a, b')" and "pos b = 0"
  obtains cs post where "bits b = cs @ post" "reads rd cs a"
    "b' = \<lparr>bits = cs @ post, pos = length cs\<rparr>"
proof -
  obtain pre cs post where "b = \<lparr>bits = pre @ cs @ post, pos = length pre\<rparr>"
      "b' = b\<lparr>pos := length pre + length cs\<rparr>" "reads rd cs a"
    using bit_reader.prefix_local [OF assms(1,2)] assms(3) by auto
  then show ?thesis using that [of cs post] assms(3) by auto
qed

lemma reader_next:
  assumes "bit_reader rd" and "rd \<lparr>bits = pre @ rest, pos = length pre\<rparr> = Inr (a, b')"
  obtains cs post where "rest = cs @ post" "reads rd cs a"
    "b' = \<lparr>bits = pre @ cs @ post, pos = length pre + length cs\<rparr>"
proof -
  obtain pre' cs post where eq: "\<lparr>bits = pre @ rest, pos = length pre\<rparr> =
        \<lparr>bits = pre' @ cs @ post, pos = length pre'\<rparr>"
      and b': "b' = \<lparr>bits = pre @ rest, pos = length pre\<rparr>\<lparr>pos := length pre' + length cs\<rparr>"
      and r: "reads rd cs a"
    using bit_reader.prefix_local [OF assms] by auto
  from eq have "pre' = pre" and "rest = cs @ post" by auto
  with b' r show ?thesis using that by simp
qed

lemma set_vps_id_reads_back:
  assumes "set_vps_id nal v = Inr nal'"
  shows "vps_ids nal' = Inr (nat v) \<and> nal_type nal' = nal_type nal"
proof -
  from assms obtain b cs where p: "payload nal = Inr b" and cs: "u_bits v 4 = Inr cs"
      and nal': "nal' = rebuild nal (Bits_replace 0 4 cs b)"
    by (auto simp: set_vps_id_def res_simps)
  have "payload nal' = Inr \<lparr>bits = cs @ drop 4 (bits b), pos = 0\<rparr>"
    using payload_rebuild [OF p] by (simp add: nal' Bits_replace_def)
  moreover have "reads (Bits_u 4) cs (nat v)" using reads_u_bits [OF cs] by simp
  ultimately have "vps_ids nal' = Inr (nat v)"
    using reads_at [of "Bits_u 4" cs "nat v" "\<lparr>bits = cs @ drop 4 (bits b), pos = 0\<rparr>" "[]"]
    by (simp add: vps_ids_def)
  with nal_type_rebuild [OF p] nal' show ?thesis by simp
qed

lemma pps_fields:
  assumes "payload nal = Inr b" and "Bits_ue b = Inr (p, b1)" and "Bits_ue b1 = Inr (s, b2)"
  obtains c1 c2 rest where "bits b = c1 @ c2 @ rest" "reads Bits_ue c1 p" "reads Bits_ue c2 s"
    "b1 = \<lparr>bits = c1 @ c2 @ rest, pos = length c1\<rparr>"
    "b2 = \<lparr>bits = c1 @ c2 @ rest, pos = length c1 + length c2\<rparr>"
proof -
  obtain c1 post where 1: "bits b = c1 @ post" "reads Bits_ue c1 p"
      "b1 = \<lparr>bits = c1 @ post, pos = length c1\<rparr>"
    using reader_first [OF bit_reader_ue assms(2) payload_pos [OF assms(1)]] .
  from assms(3) obtain c2 rest where "post = c2 @ rest" "reads Bits_ue c2 s"
      "b2 = \<lparr>bits = c1 @ c2 @ rest, pos = length c1 + length c2\<rparr>"
    unfolding 1(3) by (rule reader_next [OF bit_reader_ue]) blast
  with 1 show ?thesis using that by simp
qed

lemma pps_ids_of_bits:
  assumes "payload nal = Inr \<lparr>bits = c1 @ c2 @ rest, pos = 0\<rparr>"
    and "reads Bits_ue c1 p" and "reads Bits_ue c2 s"
  shows "pps_ids nal = Inr (p, s)"
proof -
  have "Bits_ue \<lparr>bits = c1 @ c2 @ rest, pos = 0\<rparr> =
        Inr (p, \<lparr>bits = c1 @ c2 @ rest, pos = length c1\<rparr>)"
    using reads_at [OF assms(2), of _ "[]" "c2 @ rest"] by simp
  moreover have "Bits_ue \<lparr>bits = c1 @ c2 @ rest, pos = length c1\<rparr> =
        Inr (s, \<lparr>bits = c1 @ c2 @ rest, pos = length c1 + length c2\<rparr>)"
    using reads_at [OF assms(3), of _ c1 rest] by simp
  ultimately show ?thesis using assms(1) by (simp add: pps_ids_def)
qed

lemma set_pps_sps_id_reads_back:
  assumes "set_pps_sps_id nal v = Inr nal'" and "pps_ids nal = Inr (p, s)" and "v < 2 ^ 32 - 1"
  shows "pps_ids nal' = Inr (p, nat v) \<and> nal_type nal' = nal_type nal"
proof -
  from assms(1,2) obtain b b1 b2 cs where b: "payload nal = Inr b" "Bits_ue b = Inr (p, b1)"
      "Bits_ue b1 = Inr (s, b2)" and cs: "ue_bits v = Inr cs"
      and nal': "nal' = rebuild nal (Bits_replace (pos b1) (pos b2) cs b2)"
    by (auto simp: set_pps_sps_id_def pps_ids_def res_simps)
  obtain c1 c2 rest where f: "bits b = c1 @ c2 @ rest" "reads Bits_ue c1 p" "reads Bits_ue c2 s"
      "b1 = \<lparr>bits = c1 @ c2 @ rest, pos = length c1\<rparr>"
      "b2 = \<lparr>bits = c1 @ c2 @ rest, pos = length c1 + length c2\<rparr>"
    using pps_fields [OF b] .
  have "payload nal' = Inr \<lparr>bits = c1 @ cs @ rest, pos = 0\<rparr>"
    using payload_rebuild [OF b(1)] by (simp add: nal' Bits_replace_def f max_def)
  from pps_ids_of_bits [OF this f(2) reads_ue_bits [OF cs assms(3)]]
  show ?thesis using nal_type_rebuild [OF b(1)] nal' by simp
qed

lemma set_pps_id_reads_back:
  assumes "set_pps_id nal v = Inr nal'" and "pps_ids nal = Inr (p, s)" and "v < 2 ^ 32 - 1"
  shows "pps_ids nal' = Inr (nat v, s) \<and> nal_type nal' = nal_type nal"
proof -
  from assms(1,2) obtain b b1 b2 cs where b: "payload nal = Inr b" "Bits_ue b = Inr (p, b1)"
      "Bits_ue b1 = Inr (s, b2)" and cs: "ue_bits v = Inr cs"
      and nal': "nal' = rebuild nal (Bits_replace 0 (pos b1) cs b1)"
    by (auto simp: set_pps_id_def pps_ids_def res_simps)
  obtain c1 c2 rest where f: "bits b = c1 @ c2 @ rest" "reads Bits_ue c1 p" "reads Bits_ue c2 s"
      "b1 = \<lparr>bits = c1 @ c2 @ rest, pos = length c1\<rparr>"
      "b2 = \<lparr>bits = c1 @ c2 @ rest, pos = length c1 + length c2\<rparr>"
    using pps_fields [OF b] .
  have "payload nal' = Inr \<lparr>bits = cs @ c2 @ rest, pos = 0\<rparr>"
    using payload_rebuild [OF b(1)] by (simp add: nal' Bits_replace_def f)
  from pps_ids_of_bits [OF this reads_ue_bits [OF cs assms(3)] f(3)]
  show ?thesis using nal_type_rebuild [OF b(1)] nal' by simp
qed

lemma sps_ids_of_bits:
  assumes "payload nal = Inr \<lparr>bits = c1 @ c2 @ c3 @ rest, pos = 0\<rparr>"
    and "reads (Bits_u 4) c1 v" and "reads sps_layers c2 ()" and "reads Bits_ue c3 s"
  shows "sps_ids nal = Inr (v, s)"
proof -
  let ?bs = "c1 @ c2 @ c3 @ rest"
  have "Bits_u 4 \<lparr>bits = ?bs, pos = 0\<rparr> = Inr (v, \<lparr>bits = ?bs, pos = length c1\<rparr>)"
    using reads_at [OF assms(2), of _ "[]" "c2 @ c3 @ rest"] by simp
  moreover have "sps_layers \<lparr>bits = ?bs, pos = length c1\<rparr> =
      Inr ((), \<lparr>bits = ?bs, pos = length c1 + length c2\<rparr>)"
    using reads_at [OF assms(3), of _ c1 "c3 @ rest"] by simp
  moreover have "Bits_ue \<lparr>bits = ?bs, pos = length c1 + length c2\<rparr> =
      Inr (s, \<lparr>bits = ?bs, pos = length c1 + length c2 + length c3\<rparr>)"
    using reads_at [OF assms(4), of _ "c1 @ c2" rest] by simp
  ultimately show ?thesis using assms(1) by (simp add: sps_ids_def)
qed

lemma sps_fields:
  assumes "payload nal = Inr b" and "sps_ids nal = Inr (v, s)"
  obtains c1 c2 c3 rest where "bits b = c1 @ c2 @ c3 @ rest" "length c1 = 4"
    "reads (Bits_u 4) c1 v" "reads sps_layers c2 ()" "reads Bits_ue c3 s"
proof -
  from assms obtain b1 b2 b3 where u: "Bits_u 4 b = Inr (v, b1)"
      and l: "sps_layers b1 = Inr ((), b2)" and e: "Bits_ue b2 = Inr (s, b3)"
    by (auto simp: sps_ids_def res_simps)
  obtain c1 post where 1: "bits b = c1 @ post" "reads (Bits_u 4) c1 v"
      "b1 = \<lparr>bits = c1 @ post, pos = length c1\<rparr>"
    using reader_first [OF bit_reader_u u payload_pos [OF assms(1)]] .
  have len: "length c1 = 4"
  proof -
    have "pos b1 = 4" using u payload_pos [OF assms(1)] by (auto simp: Bits_u_def split: if_splits)
    with 1(3) show ?thesis by simp
  qed
  from l obtain c2 post2 where 2: "post = c2 @ post2" "reads sps_layers c2 ()"
      "b2 = \<lparr>bits = c1 @ c2 @ post2, pos = length c1 + length c2\<rparr>"
    unfolding 1(3) by (rule reader_next [OF bit_reader_sps_layers]) blast
  have "Bits_ue \<lparr>bits = (c1 @ c2) @ post2, pos = length (c1 @ c2)\<rparr> = Inr (s, b3)"
    using e 2(3) by simp
  then obtain c3 rest where "post2 = c3 @ rest" "reads Bits_ue c3 s"
    by (rule reader_next [OF bit_reader_ue]) blast
  with 1 2 len show ?thesis using that by simp
qed

text \<open>
  The payload of an SPS is four bits of VPS identifier, the layers, the code of the SPS identifier and
  the rest; rewriting replaces the first and the third part and keeps the layers and the rest.
\<close>

definition sps_rewrite :: "byte list \<Rightarrow> byte list \<Rightarrow> nat \<times> nat \<Rightarrow> nat \<times> nat \<Rightarrow> bool" where
  "sps_rewrite nal nal' old new \<longleftrightarrow> (\<exists>vps layers code vps' code' rest.
     payload nal = Inr \<lparr>bits = vps @ layers @ code @ rest, pos = 0\<rparr> \<and>
     payload nal' = Inr \<lparr>bits = vps' @ layers @ code' @ rest, pos = 0\<rparr> \<and> length vps = 4 \<and> length vps' = 4 \<and>
     reads (Bits_u 4) vps (fst old) \<and> reads sps_layers layers () \<and> reads Bits_ue code (snd old) \<and>
     reads (Bits_u 4) vps' (fst new) \<and> reads Bits_ue code' (snd new))"

lemma set_sps_ids_reads_back:
  assumes "set_sps_ids nal v s = Inr nal'" and "sps_ids nal = Inr (v0, s0)"
    and "\<forall>x. s = Some x \<longrightarrow> x < 2 ^ 32 - 1"
    and ids: "ids = (case v of None \<Rightarrow> v0 | Some x \<Rightarrow> nat x, case s of None \<Rightarrow> s0 | Some x \<Rightarrow> nat x)"
  shows "sps_ids nal' = Inr ids \<and> sps_rewrite nal nal' (v0, s0) ids \<and> take 2 nal' = take 2 nal"
proof -
  let ?v = "case v of None \<Rightarrow> int v0 | Some x \<Rightarrow> x"
  from assms(1) obtain b where p: "payload nal = Inr b"
    by (auto simp: set_sps_ids_def res_simps)
  obtain c1 c2 c3 rest where f: "bits b = c1 @ c2 @ c3 @ rest" "length c1 = 4"
      "reads (Bits_u 4) c1 v0" "reads sps_layers c2 ()" "reads Bits_ue c3 s0"
    using sps_fields [OF p assms(2)] .
  have u: "Bits_u 4 b = Inr (v0, \<lparr>bits = c1 @ c2 @ c3 @ rest, pos = 4\<rparr>)"
    using reads_at [OF f(3), of b "[]" "c2 @ c3 @ rest"] f(1,2) payload_pos [OF p] by simp
  from assms(1) p u obtain d where d: "u_bits ?v 4 = Inr d"
    by (auto simp: set_sps_ids_def res_simps Let_def)
  have len: "length d = 4" using d by (auto simp: u_bits_Inr)
  have rd: "reads (Bits_u 4) d (nat ?v)" using reads_u_bits [OF d] by simp
  let ?bs = "d @ c2 @ c3 @ rest"
  have rep: "Bits_replace 0 4 d \<lparr>bits = c1 @ c2 @ c3 @ rest, pos = 4\<rparr> = \<lparr>bits = ?bs, pos = length d\<rparr>"
    using f(2) by (simp add: Bits_replace_def)
  have lay: "sps_layers \<lparr>bits = ?bs, pos = length d\<rparr> =
      Inr ((), \<lparr>bits = ?bs, pos = length d + length c2\<rparr>)"
    using reads_at [OF f(4), of _ d "c3 @ rest"] by simp
  have ue: "Bits_ue \<lparr>bits = ?bs, pos = length d + length c2\<rparr> =
      Inr (s0, \<lparr>bits = ?bs, pos = length d + length c2 + length c3\<rparr>)"
    using reads_at [OF f(5), of _ "d @ c2" rest] by simp
  have header: "take 2 (rebuild nal b') = take 2 nal" for b' using payload_length [OF p] by (simp add: rebuild_def)
  obtain e where re: "reads Bits_ue e (case s of None \<Rightarrow> s0 | Some x \<Rightarrow> nat x)"
      and pl: "payload nal' = Inr \<lparr>bits = d @ c2 @ e @ rest, pos = 0\<rparr>"
      and ty: "take 2 nal' = take 2 nal"
  proof (cases s)
    case None
    then have "nal' = rebuild nal \<lparr>bits = ?bs, pos = length d + length c2 + length c3\<rparr>"
      using assms(1) p u d lay ue rep by (auto simp: set_sps_ids_def res_simps Let_def)
    then show ?thesis
      using that [of c3] f(5) None payload_rebuild [OF p] header by simp
  next
    case (Some x)
    then obtain e where e: "ue_bits x = Inr e"
        "nal' = rebuild nal (Bits_replace (length d + length c2) (length d + length c2 + length c3) e
            \<lparr>bits = ?bs, pos = length d + length c2 + length c3\<rparr>)"
      using assms(1) p u d lay ue rep by (auto simp: set_sps_ids_def res_simps Let_def)
    then show ?thesis
      using that [of e] Some reads_ue_bits [OF e(1)] assms(3) payload_rebuild [OF p] header by (simp add: Bits_replace_def)
  qed
  have v: "nat ?v = (case v of None \<Rightarrow> v0 | Some x \<Rightarrow> nat x)" by (cases v) auto
  have "payload nal = Inr \<lparr>bits = c1 @ c2 @ c3 @ rest, pos = 0\<rparr>" using p f(1) payload_pos [OF p] by (cases b) simp
  then have "sps_rewrite nal nal' (v0, s0) ids"
    unfolding sps_rewrite_def ids using pl f(2-5) len rd re v by (intro exI [of _ c1] exI [of _ c2] exI [of _ c3] exI [of _ d] exI [of _ e] exI [of _ rest]) simp
  with sps_ids_of_bits [OF pl rd f(4) re] ty v ids show ?thesis by simp
qed

text \<open>Rebuilt NAL units can be framed.\<close>

lemma escape_loop_last:
  "bs \<noteq> [] \<Longrightarrow> escape_loop z bs \<noteq> [] \<and> last (escape_loop z bs) = last bs"
proof (induction bs arbitrary: z)
  case Nil
  then show ?case by simp
next
  case (Cons b bs)
  show ?case
  proof (cases "bs = []")
    case True
    then show ?thesis by simp
  next
    case False
    then show ?thesis using Cons.IH by auto
  qed
qed

lemma emulates_start_code: "start_code_at xs k \<Longrightarrow> emulates xs"
proof (induction xs arbitrary: k rule: emulates.induct)
  case (1 a b c r)
  then show ?case
    by (cases k) (auto simp: start_code_at_def)
qed (auto simp: start_code_at_def)

lemma nal_wf_header:
  assumes "y \<noteq> 0" and "e \<noteq> []" and "last e \<noteq> 0" and "\<not> emulates e"
  shows "nal_wf (x # y # e)"
proof -
  obtain c r where e: "e = c # r" using assms(2) by (cases e) auto
  then have "\<not> emulates (x # y # e)"
    using assms(1,4) by (simp add: emulates_nonzero)
  then show ?thesis unfolding nal_wf_def using assms(2,3) emulates_start_code by auto
qed

lemma rebuild_nal_wf:
  assumes "payload nal = Inr b" and "nal ! 1 \<noteq> 0"
  shows "nal_wf (rebuild nal b')"
proof -
  obtain x y r where nal: "nal = x # y # r"
    using payload_length [OF assms(1)]
    by (auto simp: Suc_le_eq [symmetric] Suc_le_length_iff numeral_2_eq_2)
  define e where "e = escape (Bits_to_rbsp b')"
  have e: "e \<noteq> []" "last e \<noteq> 0" "\<not> emulates e"
    using Bits_to_rbsp_last [of b'] escape_loop_last [of "Bits_to_rbsp b'" 0]
      escape_loop_emulates [of 0 "Bits_to_rbsp b'"] by (auto simp: e_def escape_def)
  have "rebuild nal b' = x # y # e" by (simp add: rebuild_def nal e_def)
  then show ?thesis using nal_wf_header [of y e x] e assms(2) nal by simp
qed

lemma truncate_nal_wf:
  assumes "2 \<le> length nal" and "nal ! 1 \<noteq> 0"
  shows "nal_wf (truncate_rbsp nal k)"
proof -
  obtain x y r where nal: "nal = x # y # r"
    using assms(1) by (auto simp: Suc_le_length_iff numeral_2_eq_2)
  define e where "e = escape (take k (unescape r) @ [0x80])"
  have e: "e \<noteq> []" "last e \<noteq> 0" "\<not> emulates e"
    using escape_loop_last [of "take k (unescape r) @ [0x80]" 0]
      escape_loop_emulates [of 0 "take k (unescape r) @ [0x80]"] by (auto simp: e_def escape_def)
  have "truncate_rbsp nal k = x # y # e" by (simp add: truncate_rbsp_def nal e_def)
  then show ?thesis using nal_wf_header [of y e x] e assms(2) nal by simp
qed

lemma set_sps_ids_rebuild:
  "set_sps_ids nal vo so = Inr nal' \<Longrightarrow> \<exists>b b'. payload nal = Inr b \<and> nal' = rebuild nal b'"
  by (cases so) (auto simp: set_sps_ids_def res_simps Let_def)

lemma rewrites_rebuild:
  "set_vps_id nal i = Inr nal' \<Longrightarrow> \<exists>b b'. payload nal = Inr b \<and> nal' = rebuild nal b'"
  "set_pps_id nal i = Inr nal' \<Longrightarrow> \<exists>b b'. payload nal = Inr b \<and> nal' = rebuild nal b'"
  "set_pps_sps_id nal i = Inr nal' \<Longrightarrow> \<exists>b b'. payload nal = Inr b \<and> nal' = rebuild nal b'"
  "set_sps_chroma_format_idc nal i = Inr nal' \<Longrightarrow> \<exists>b b'. payload nal = Inr b \<and> nal' = rebuild nal b'"
  "set_pps_num_ref_idx_l0_minus1 nal i = Inr nal' \<Longrightarrow> \<exists>b b'. payload nal = Inr b \<and> nal' = rebuild nal b'"
  "drop_payload_bits nal n = Inr nal' \<Longrightarrow> \<exists>b b'. payload nal = Inr b \<and> nal' = rebuild nal b'"
  "set_sps_empty_extensions nal = Inr nal' \<Longrightarrow> \<exists>b b'. payload nal = Inr b \<and> nal' = rebuild nal b'"
  "pad_payload nal n = Inr nal' \<Longrightarrow> \<exists>b b'. payload nal = Inr b \<and> nal' = rebuild nal b'"
  by (auto simp: set_vps_id_def set_pps_id_def set_pps_sps_id_def
      set_sps_chroma_format_idc_def set_pps_num_ref_idx_l0_minus1_def drop_payload_bits_def
      set_sps_empty_extensions_def pad_payload_def res_simps Let_def
      split: option.splits if_splits)

lemma ue_zeros_too_many:
  "z \<le> 31 \<Longrightarrow> 32 \<le> z + k \<Longrightarrow>
     ue_zeros z \<lparr>bits = pre @ replicate k False @ post, pos = length pre\<rparr> =
       Inl (ValueError ''invalid Exp-Golomb code'')"
proof (induction k arbitrary: z pre)
  case 0
  then show ?case by simp
next
  case (Suc k)
  let ?b = "\<lparr>bits = pre @ replicate (Suc k) False @ post, pos = length pre\<rparr>"
  have u: "Bits_u 1 ?b = Inr (0, ?b\<lparr>pos := length pre + 1\<rparr>)"
    by (simp add: Bits_u_def)
  show ?case
  proof (cases "z + 1 > 31")
    case True
    with u show ?thesis by (simp add: ue_zeros.simps [of z])
  next
    case False
    then have "ue_zeros (z + 1)
        \<lparr>bits = (pre @ [False]) @ replicate k False @ post, pos = length (pre @ [False])\<rparr> =
        Inl (ValueError ''invalid Exp-Golomb code'')"
      using Suc.prems by (intro Suc.IH) auto
    with u False show ?thesis by (simp add: ue_zeros.simps [of z])
  qed
qed

lemma ue_bits_too_large:
  assumes "ue_bits v = Inr code" and "\<not> v < 2 ^ 32 - 1"
  shows "Bits_ue \<lparr>bits = pre @ code @ post, pos = length pre\<rparr> =
           Inl (ValueError ''invalid Exp-Golomb code'')"
proof -
  define w where "w = bit_length (nat v + 1)"
  have code: "code = replicate (w - 1) False @ msb_bits (nat v + 1) w"
    using assms(1) by (auto simp: ue_bits_def w_def Let_def split: if_splits)
  have "(2 :: nat) ^ 32 \<le> nat v + 1" using assms(2) by simp
  also have "nat v + 1 < 2 ^ w" using bit_length_bounds [of "nat v + 1"] by (simp add: w_def)
  finally have "32 < w" by (rule power_less_imp_less_exp [rotated]) simp
  then have "ue_zeros 0 \<lparr>bits = pre @ replicate (w - 1) False @ msb_bits (nat v + 1) w @ post,
      pos = length pre\<rparr> = Inl (ValueError ''invalid Exp-Golomb code'')"
    by (intro ue_zeros_too_many) auto
  then show ?thesis by (simp add: Bits_ue_def code)
qed

subsection \<open>Properties\<close>

text \<open>
  C12. Emulation prevention is lossless and effective: unescaping an escaped payload gives the
  payload back, and an escaped payload contains no three bytes 0, 0, x with x at most 2, so it can
  contain neither a start code nor a forbidden sequence.
\<close>

theorem escape_lossless_and_safe:
  "unescape (escape rbsp) = rbsp \<and> \<not> emulates (escape rbsp)"
  using unescape_escape_loop [of 0 rbsp] escape_loop_emulates [of 0 rbsp]
  by (simp add: unescape_def escape_def)

text \<open>
  C13. Every rewriting helper, given a NAL unit of at least two bytes whose second header byte is not
  zero (as \<^verbatim>\<open>nuh_temporal_id_plus1\<close> never is), returns a unit the byte-stream format can carry: putting
  the result in place of the original in a list of well-formed units, joining the list with start codes
  and splitting it again gives exactly that list, and the two header bytes are the original ones.
\<close>

theorem rewritten_stream_roundtrip:
  assumes "\<forall>nal \<in> set nals. nal_wf nal" and "i < length nals" and "nals ! i = nal"
    and "2 \<le> length nal" and "nal ! 1 \<noteq> 0"
    and "set_vps_id nal v = Inr nal' \<or> set_sps_ids nal vo so = Inr nal' \<or>
         set_pps_id nal v = Inr nal' \<or> set_pps_sps_id nal v = Inr nal' \<or>
         set_sps_chroma_format_idc nal v = Inr nal' \<or>
         set_pps_num_ref_idx_l0_minus1 nal v = Inr nal' \<or>
         drop_payload_bits nal n = Inr nal' \<or> set_sps_empty_extensions nal = Inr nal' \<or>
         pad_payload nal n = Inr nal' \<or> truncate_rbsp nal n = nal'"
  shows "split_annexb (join_annexb (nals[i := nal'])) = nals[i := nal'] \<and>
         take 2 nal' = take 2 nal"
proof -
  have "(\<exists>b b'. payload nal = Inr b \<and> nal' = rebuild nal b') \<or> nal' = truncate_rbsp nal n"
    using assms(6)
    by (elim disjE) (auto dest: rewrites_rebuild set_sps_ids_rebuild)
  then have "nal_wf nal' \<and> take 2 nal' = take 2 nal"
    using rebuild_nal_wf truncate_nal_wf assms(4,5)
    by (auto simp: rebuild_def truncate_rbsp_def)
  moreover have "\<forall>x \<in> set (nals[i := nal']). nal_wf x" if "nal_wf nal'"
    using assms(1) that set_update_subset_insert [of nals i nal'] by blast
  ultimately show ?thesis using split_join_annexb by blast
qed

theorem rewritten_stream_roundtrip_witness:
  "set_pps_id [0x44, 0x01, 0xE0] 5 = Inr [0x44, 0x01, 0x36] \<and>
   split_annexb (join_annexb ([[0x42, 0x01, 0x80], [0x44, 0x01, 0xE0]][1 := [0x44, 0x01, 0x36]])) =
     [[0x42, 0x01, 0x80], [0x44, 0x01, 0xE0]][1 := [0x44, 0x01, 0x36]]"
proof -
  have wf: "\<forall>nal \<in> set [[0x42, 0x01, 0x80], [0x44, 0x01, 0xE0]]. nal_wf nal"
    by (simp add: nal_wf_def start_code_at_def less_Suc_eq)
  have step: "set_pps_id [0x44, 0x01, 0xE0] 5 = Inr [0x44, 0x01, 0x36]" by code_simp
  show ?thesis
    using rewritten_stream_roundtrip [OF wf, of 1 "[0x44, 0x01, 0xE0]" 5 "[0x44, 0x01, 0x36]"] step
    by simp
qed

text \<open>
  Exp-Golomb codes: a value below 2^32 - 1 is written as a code that the reader, at any place of
  a bit string, reads back as that value while consuming exactly the code; a larger value is written
  as a code the reader refuses.
\<close>

theorem exp_golomb_roundtrip:
  assumes "ue_bits v = Inr code"
  shows "Bits_ue \<lparr>bits = pre @ code @ post, pos = length pre\<rparr> =
           (if v < 2 ^ 32 - 1
            then Inr (nat v, \<lparr>bits = pre @ code @ post, pos = length pre + length code\<rparr>)
            else Inl (ValueError ''invalid Exp-Golomb code''))"
  using reads_ue_bits [OF assms] ue_bits_too_large [OF assms] by (simp add: reads_def)

theorem exp_golomb_roundtrip_witness:
  "Bits_ue \<lparr>bits = [True] @ [False, False, True, True, False] @ [True], pos = 1\<rparr> =
     Inr (5, \<lparr>bits = [True] @ [False, False, True, True, False] @ [True], pos = 6\<rparr>)"
proof -
  have code: "ue_bits 5 = Inr [False, False, True, True, False]" by code_simp
  show ?thesis using exp_golomb_roundtrip [OF code, of "[True]" "[True]"] by simp
qed

text \<open>
  C14. Rewriting the identifiers of an SPS changes those identifiers and nothing else. For an SPS whose
  identifiers can be read and a requested SPS identifier below 2^32 - 1: the result keeps the two header
  bytes, and its payload is that of the original with the four bits of the VPS identifier and the
  Exp-Golomb code of the SPS identifier replaced; the layers between them and everything after them are
  bit for bit the same. Read back, the identifiers are the requested ones, or the old ones where none
  was requested.
\<close>

theorem set_sps_ids_correct:
  assumes "set_sps_ids nal v s = Inr nal'" and "sps_ids nal = Inr (v0, s0)"
    and "\<forall>x. s = Some x \<longrightarrow> x < 2 ^ 32 - 1"
    and "ids = (case v of None \<Rightarrow> v0 | Some x \<Rightarrow> nat x, case s of None \<Rightarrow> s0 | Some x \<Rightarrow> nat x)"
  shows "sps_ids nal' = Inr ids \<and> sps_rewrite nal nal' (v0, s0) ids \<and> take 2 nal' = take 2 nal"
  using set_sps_ids_reads_back [OF assms] .

theorem set_sps_ids_correct_witness:
  "sps_ids ([0x42, 0x01, 0x31] @ replicate 12 0xFF @ [0x34]) = Inr (3, 5) \<and>
   sps_rewrite ([0x42, 0x01, 0x01] @ replicate 12 0xFF @ [0xC0]) ([0x42, 0x01, 0x31] @ replicate 12 0xFF @ [0x34]) (0, 0) (3, 5)"
proof -
  have set: "set_sps_ids ([0x42, 0x01, 0x01] @ replicate 12 0xFF @ [0xC0]) (Some 3) (Some 5) =
      Inr ([0x42, 0x01, 0x31] @ replicate 12 0xFF @ [0x34])" by code_simp
  have get: "sps_ids ([0x42, 0x01, 0x01] @ replicate 12 0xFF @ [0xC0]) = Inr (0, 0)" by code_simp
  show ?thesis using set_sps_ids_correct [OF set get _ refl] by simp
qed

text \<open>
  Rewriting a PPS: setting its PPS id keeps the SPS id, setting its SPS reference keeps the PPS
  id, the new identifier is the one read back, and the NAL type is kept.
\<close>

theorem set_pps_ids_correct:
  assumes "pps_ids nal = Inr (p, s)" and "v < 2 ^ 32 - 1"
    and "set_pps_id nal v = Inr nal1" and "set_pps_sps_id nal v = Inr nal2"
  shows "pps_ids nal1 = Inr (nat v, s) \<and> nal_type nal1 = nal_type nal \<and>
         pps_ids nal2 = Inr (p, nat v) \<and> nal_type nal2 = nal_type nal"
  using set_pps_id_reads_back [OF assms(3,1,2)] set_pps_sps_id_reads_back [OF assms(4,1,2)] by simp

theorem set_pps_ids_correct_witness:
  "pps_ids [0x44, 0x01, 0x36] = Inr (5, 0) \<and> pps_ids [0x44, 0x01, 0x9A] = Inr (0, 5)"
proof -
  have get: "pps_ids [0x44, 0x01, 0xE0] = Inr (0, 0)" by code_simp
  have set1: "set_pps_id [0x44, 0x01, 0xE0] 5 = Inr [0x44, 0x01, 0x36]" by code_simp
  have set2: "set_pps_sps_id [0x44, 0x01, 0xE0] 5 = Inr [0x44, 0x01, 0x9A]" by code_simp
  show ?thesis using set_pps_ids_correct [OF get _ set1 set2] by simp
qed

end
