(* ===== verification/Fake_Queue.thy ===== *)
theory Fake_Queue
  imports Prelude
begin

text \<open>
  The bounded fake decoder queue of \<open>src/experiments/hevc-reference-content/synthetic_queue.py\<close>.

  The class \<^verbatim>\<open>FakeQueue\<close> is the record \<open>queue\<close>; each method is a function that takes the queue and
  returns what the method returned or raised together with the queue afterwards, because a method
  can raise after it has changed the object. Every method body runs under the condition's lock, so
  one call is one atomic step; \<open>qop\<close> and \<open>env_step\<close> are the calls another thread can make between
  two steps of the observer.

  \<^verbatim>\<open>drain\<close> is the only method that waits. Besides the number of seconds it takes the clock reading
  that sets its deadline and the script of its wake-ups: for each pass through the loop, the reading
  of the clock, and the calls other threads make while this thread waits. When the script ends,
  nothing wakes the thread before the deadline. Clock readings are exact rationals.

  \<open>q_inv\<close> is the invariant every call keeps. The locale \<open>retaining\<close> is the retention contract a
  reader relies on (a held identity keeps its view until its own token is dropped); \<open>fq\<close> interprets
  it for the queue.
\<close>

type_synonym byte = "8 word"

datatype queue_exn = QueueError string | KeyError

record writer_id =
  wid_run :: string
  wid_context :: string
  wid_allocation :: int
  wid_generation :: int
  wid_writer_job :: nat
  wid_picture :: int
  wid_poc :: int

record allocation =
  a_generation :: int
  a_data :: "byte list"
  a_policy :: string
  a_writer :: "writer_id option"

record job =
  j_allocation :: int
  j_generation :: int
  j_writer :: "(int \<times> int) option"

record queue =
  q_run :: string
  q_context :: string
  q_client :: string
  q_paused :: bool
  q_closed :: bool
  q_allocations :: "(int, allocation) dict"
  q_inflight :: "(nat, job) dict"
  q_completed :: "(nat, job) dict"
  q_pins :: "(nat, writer_id) dict"
  q_next_job :: nat
  q_next_pin :: nat

type_synonym 'a qres = "(queue_exn + 'a) \<times> queue"

definition queue_init :: "string \<Rightarrow> string \<Rightarrow> string \<Rightarrow> queue" where
  "queue_init run context client =
     \<lparr>q_run = run, q_context = context, q_client = client, q_paused = False, q_closed = False,
      q_allocations = [], q_inflight = [], q_completed = [], q_pins = [],
      q_next_job = 1, q_next_pin = 1\<rparr>"

definition q_live :: "queue \<Rightarrow> bool" where
  "q_live q \<longleftrightarrow> \<not> (q_closed q \<or> q_client q \<noteq> ''self'')"

definition pinned_alloc :: "queue \<Rightarrow> int \<Rightarrow> bool" where
  "pinned_alloc q a \<longleftrightarrow> dany (\<lambda>p. wid_allocation p = a) (q_pins q)"

definition q_allocate :: "int \<Rightarrow> int \<Rightarrow> byte list \<Rightarrow> string \<Rightarrow> queue \<Rightarrow> unit qres" where
  "q_allocate a generation data policy q =
     (if \<not> q_live q then (Inl (QueueError ''closed/foreign client''), q)
      else if q_paused q \<or> dhas (q_allocations q) a \<or> length (q_allocations q) \<ge> 8 \<or>
          a < 0 \<or> generation < 0 \<or> length data \<notin> {345600, 368128}
      then (Inl (QueueError ''allocation bounds/identity''), q)
      else (Inr (), q\<lparr>q_allocations := dset a \<lparr>a_generation = generation, a_data = data,
              a_policy = policy, a_writer = None\<rparr> (q_allocations q)\<rparr>))"

definition q_release :: "int \<Rightarrow> queue \<Rightarrow> unit qres" where
  "q_release a q =
     (if pinned_alloc q a \<or> dany (\<lambda>j. j_allocation j = a) (q_inflight q)
      then (Inl (QueueError ''retained/inflight allocation''), q)
      else if \<not> dhas (q_allocations q) a then (Inl KeyError, q)
      else (Inr (), q\<lparr>q_allocations := ddel a (q_allocations q)\<rparr>))"

definition q_submit :: "int \<Rightarrow> int \<Rightarrow> (int \<times> int) option \<Rightarrow> queue \<Rightarrow> nat qres" where
  "q_submit a generation writer q =
     (if \<not> q_live q then (Inl (QueueError ''closed/foreign client''), q)
      else if q_paused q then (Inl (QueueError ''paused''), q)
      else if (case dget (q_allocations q) a of
                 None \<Rightarrow> True | Some al \<Rightarrow> a_generation al \<noteq> generation)
      then (Inl (QueueError ''stale allocation''), q)
      else if writer \<noteq> None \<and> pinned_alloc q a then (Inl (QueueError ''retained writer''), q)
      else if length (q_inflight q) + length (q_completed q) \<ge> 128
      then (Inl (QueueError ''job budget''), q)
      else (Inr (q_next_job q),
            q\<lparr>q_next_job := q_next_job q + 1,
              q_inflight := dset (q_next_job q)
                \<lparr>j_allocation = a, j_generation = generation, j_writer = writer\<rparr> (q_inflight q)\<rparr>))"

definition q_complete :: "nat \<Rightarrow> queue \<Rightarrow> unit qres" where
  "q_complete job q =
     (if \<not> q_live q then (Inl (QueueError ''closed/foreign client''), q)
      else case dget (q_inflight q) job of
        None \<Rightarrow> (Inl KeyError, q)
      | Some item \<Rightarrow>
          let q1 = q\<lparr>q_inflight := ddel job (q_inflight q)\<rparr> in
          (case dget (q_allocations q1) (j_allocation item) of
             None \<Rightarrow> (Inl KeyError, q1)
           | Some al \<Rightarrow>
               (case j_writer item of
                  None \<Rightarrow> (Inr (), q1\<lparr>q_completed := dset job item (q_completed q1)\<rparr>)
                | Some (picture, poc) \<Rightarrow>
                    if pinned_alloc q1 (j_allocation item)
                    then (Inl (QueueError ''writer changed while retained''), q1)
                    else (Inr (),
                      q1\<lparr>q_allocations := dset (j_allocation item)
                            (al\<lparr>a_writer := Some \<lparr>wid_run = q_run q, wid_context = q_context q,
                               wid_allocation = j_allocation item,
                               wid_generation = j_generation item, wid_writer_job = job,
                               wid_picture = picture, wid_poc = poc\<rparr>\<rparr>) (q_allocations q1),
                         q_completed := dset job item (q_completed q1)\<rparr>))))"

definition q_writer_record :: "int \<Rightarrow> queue \<Rightarrow> writer_id qres" where
  "q_writer_record a q =
     (case dget (q_allocations q) a of
        None \<Rightarrow> (Inl KeyError, q)
      | Some al \<Rightarrow>
          (case a_writer al of
             None \<Rightarrow> (Inl (QueueError ''writer incomplete''), q)
           | Some w \<Rightarrow> (Inr w, q)))"

definition q_pin :: "writer_id \<Rightarrow> nat \<Rightarrow> queue \<Rightarrow> (nat \<times> byte list) qres" where
  "q_pin identity len q =
     (if \<not> q_live q then (Inl (QueueError ''closed/foreign client''), q)
      else case dget (q_allocations q) (wid_allocation identity) of
        None \<Rightarrow> (Inl (QueueError ''stale/incomplete writer identity''), q)
      | Some al \<Rightarrow>
          if a_writer al \<noteq> Some identity \<or> wid_run identity \<noteq> q_run q \<or>
             wid_context identity \<noteq> q_context q \<or>
             \<not> dhas (q_completed q) (wid_writer_job identity) \<or>
             dany (\<lambda>j. j_allocation j = wid_allocation identity \<and> j_writer j \<noteq> None) (q_inflight q)
          then (Inl (QueueError ''stale/incomplete writer identity''), q)
          else if a_policy al \<noteq> ''coherent-model'' \<or> length (a_data al) \<noteq> len \<or>
             length (q_pins q) \<ge> 8
          then (Inl (QueueError ''unsupported exporter/plane/pin budget''), q)
          else (Inr (q_next_pin q, a_data al),
                q\<lparr>q_next_pin := q_next_pin q + 1,
                  q_pins := dset (q_next_pin q) identity (q_pins q)\<rparr>))"

definition q_unpin :: "nat \<Rightarrow> queue \<Rightarrow> queue" where
  "q_unpin token q = q\<lparr>q_pins := ddel token (q_pins q)\<rparr>"

definition q_pause :: "queue \<Rightarrow> unit qres" where
  "q_pause q =
     (if \<not> q_live q then (Inl (QueueError ''closed/foreign client''), q)
      else if q_paused q then (Inl (QueueError ''already paused''), q)
      else (Inr (), q\<lparr>q_paused := True\<rparr>))"

definition q_validate :: "nat \<Rightarrow> writer_id \<Rightarrow> queue \<Rightarrow> unit qres" where
  "q_validate token identity q =
     (if \<not> q_live q then (Inl (QueueError ''closed/foreign client''), q)
      else if \<not> q_paused q \<or> q_inflight q \<noteq> [] \<or> dget (q_pins q) token \<noteq> Some identity \<or>
         (case dget (q_allocations q) (wid_allocation identity) of
            None \<Rightarrow> True
          | Some al \<Rightarrow> a_writer al \<noteq> Some identity \<or>
              a_generation al \<noteq> wid_generation identity \<or>
              wid_run identity \<noteq> q_run q \<or> wid_context identity \<noteq> q_context q \<or>
              a_policy al \<noteq> ''coherent-model'' \<or>
              \<not> dhas (q_completed q) (wid_writer_job identity))
      then (Inl (QueueError ''lost retention/quiescence/identity''), q)
      else (Inr (), q))"

definition q_resume :: "queue \<Rightarrow> unit qres" where
  "q_resume q =
     (if \<not> q_live q then (Inl (QueueError ''closed/foreign client''), q)
      else (Inr (), q\<lparr>q_paused := False\<rparr>))"

definition q_stop :: "queue \<Rightarrow> queue" where
  "q_stop q = q\<lparr>q_closed := True, q_paused := False\<rparr>"

subsection \<open>Calls of other threads, and waiting for the queue to drain\<close>

datatype qop =
    Allocate int int "byte list" string
  | Release int
  | Submit int int "(int \<times> int) option"
  | Complete nat
  | Pin writer_id nat
  | Unpin nat
  | Pause
  | Resume
  | Stop

fun env_step :: "qop \<Rightarrow> queue \<Rightarrow> queue" where
  "env_step (Allocate a g d p) q = snd (q_allocate a g d p q)"
| "env_step (Release a) q = snd (q_release a q)"
| "env_step (Submit a g w) q = snd (q_submit a g w q)"
| "env_step (Complete j) q = snd (q_complete j q)"
| "env_step (Pin i n) q = snd (q_pin i n q)"
| "env_step (Unpin t) q = q_unpin t q"
| "env_step Pause q = snd (q_pause q)"
| "env_step Resume q = snd (q_resume q)"
| "env_step Stop q = q_stop q"

definition env_run :: "qop list \<Rightarrow> queue \<Rightarrow> queue" where
  "env_run ops q = fold env_step ops q"

type_synonym wakeups = "(rat \<times> qop list) list"

fun drain_loop :: "rat \<Rightarrow> wakeups \<Rightarrow> queue \<Rightarrow> unit qres" where
  "drain_loop deadline ws q =
     (if q_inflight q = [] then (Inr (), q)
      else case ws of
        [] \<Rightarrow> (Inl (QueueError ''drain deadline/active job''), q)
      | (now, ops) # ws' \<Rightarrow>
          if deadline - now \<le> 0 then (Inl (QueueError ''drain deadline/active job''), q)
          else
            let q' = env_run ops q in
            if \<not> q_live q' then (Inl (QueueError ''closed/foreign client''), q')
            else drain_loop deadline ws' q')"

declare drain_loop.simps [simp del]

definition q_drain :: "rat \<Rightarrow> rat \<Rightarrow> wakeups \<Rightarrow> queue \<Rightarrow> unit qres" where
  "q_drain start seconds ws q =
     (if \<not> q_live q then (Inl (QueueError ''closed/foreign client''), q)
      else if \<not> q_paused q then (Inl (QueueError ''drain without pause''), q)
      else drain_loop (start + seconds) ws q)"

subsection \<open>The invariant\<close>

definition inv_dicts :: "queue \<Rightarrow> bool" where
  "inv_dicts q \<longleftrightarrow> dict_ok (q_allocations q) \<and> dict_ok (q_inflight q) \<and>
     dict_ok (q_completed q) \<and> dict_ok (q_pins q)"

definition pin_ok :: "queue \<Rightarrow> writer_id \<Rightarrow> bool" where
  "pin_ok q i \<longleftrightarrow>
     (\<exists>al. dget (q_allocations q) (wid_allocation i) = Some al \<and> a_writer al = Some i) \<and>
     (\<forall>j jb. dget (q_inflight q) j = Some jb \<and> j_allocation jb = wid_allocation i \<longrightarrow>
        j_writer jb = None)"

definition inv_pins :: "queue \<Rightarrow> bool" where
  "inv_pins q \<longleftrightarrow> (\<forall>t i. dget (q_pins q) t = Some i \<longrightarrow> t < q_next_pin q \<and> pin_ok q i)"

definition inv_jobs :: "queue \<Rightarrow> bool" where
  "inv_jobs q \<longleftrightarrow>
     (\<forall>j jb. dget (q_inflight q) j = Some jb \<longrightarrow> j < q_next_job q \<and> dget (q_completed q) j = None \<and>
        (\<exists>al. dget (q_allocations q) (j_allocation jb) = Some al \<and> a_generation al = j_generation jb)) \<and>
     (\<forall>j. dget (q_completed q) j \<noteq> None \<longrightarrow> j < q_next_job q)"

definition inv_writers :: "queue \<Rightarrow> bool" where
  "inv_writers q \<longleftrightarrow>
     (\<forall>a al. dget (q_allocations q) a = Some al \<longrightarrow>
        length (a_data al) \<in> {345600, 368128} \<and>
        (\<forall>w. a_writer al = Some w \<longrightarrow>
           wid_run w = q_run q \<and> wid_context w = q_context q \<and> wid_allocation w = a \<and>
           wid_generation w = a_generation al \<and> dget (q_completed q) (wid_writer_job w) \<noteq> None))"

definition inv_bounds :: "queue \<Rightarrow> bool" where
  "inv_bounds q \<longleftrightarrow> length (q_allocations q) \<le> 8 \<and>
     length (q_inflight q) + length (q_completed q) \<le> 128 \<and> length (q_pins q) \<le> 8"

definition q_inv :: "queue \<Rightarrow> bool" where
  "q_inv q \<longleftrightarrow> inv_dicts q \<and> inv_pins q \<and> inv_jobs q \<and> inv_writers q \<and> inv_bounds q"

lemmas inv_defs = inv_dicts_def inv_pins_def pin_ok_def inv_jobs_def inv_writers_def inv_bounds_def

lemma q_inv_init: "q_inv (queue_init r c cl)"
  by (simp add: q_inv_def inv_defs queue_init_def)

lemma pinned_alloc_iff:
  "inv_dicts q \<Longrightarrow> pinned_alloc q a \<longleftrightarrow> (\<exists>t i. dget (q_pins q) t = Some i \<and> wid_allocation i = a)"
  by (simp add: pinned_alloc_def inv_dicts_def dany_iff)

lemma q_inv_jobE:
  assumes "q_inv q" and "dget (q_inflight q) j = Some jb"
  obtains al where "dget (q_allocations q) (j_allocation jb) = Some al"
    and "a_generation al = j_generation jb" and "j < q_next_job q" and "dget (q_completed q) j = None"
  using assms unfolding q_inv_def inv_jobs_def by blast

lemma q_inv_pinE:
  assumes "q_inv q" and "dget (q_pins q) t = Some i"
  obtains al where "dget (q_allocations q) (wid_allocation i) = Some al" and "a_writer al = Some i"
    and "t < q_next_pin q"
  using assms unfolding q_inv_def inv_pins_def pin_ok_def by blast

lemma q_inv_add_allocation:
  assumes "q_inv q" and "dget (q_allocations q) a = None" and "a_writer al = None"
    and "length (a_data al) \<in> {345600, 368128}" and "length (q_allocations q) < 8"
  shows "q_inv (q\<lparr>q_allocations := dset a al (q_allocations q)\<rparr>)"
proof -
  have "dget (q_pins q) t = Some i \<Longrightarrow> wid_allocation i \<noteq> a" for t i
    using assms by (fastforce simp: q_inv_def inv_pins_def pin_ok_def)
  moreover have "dget (q_inflight q) j = Some jb \<Longrightarrow> j_allocation jb \<noteq> a" for j jb
    using assms by (fastforce simp: q_inv_def inv_jobs_def)
  ultimately show ?thesis
    using assms unfolding q_inv_def by (intro conjI) (auto simp: inv_defs length_dset dhas_def)
qed

lemma q_inv_allocate: "q_inv q \<Longrightarrow> q_inv (snd (q_allocate a g d p q))"
  by (simp add: q_allocate_def dhas_def q_inv_add_allocation)

lemma q_inv_release: "q_inv q \<Longrightarrow> q_inv (snd (q_release a q))"
  unfolding q_inv_def
  by (intro conjI)
    (auto simp: q_release_def inv_defs pinned_alloc_def dany_iff
       intro: order_trans [OF length_ddel_le])

lemma q_inv_add_job:
  assumes inv: "q_inv q" and "dget (q_allocations q) (j_allocation jb) = Some al"
    and "a_generation al = j_generation jb"
    and "j_writer jb = None \<or> \<not> pinned_alloc q (j_allocation jb)"
    and "length (q_inflight q) + length (q_completed q) < 128"
  shows "q_inv (q\<lparr>q_next_job := q_next_job q + 1,
                   q_inflight := dset (q_next_job q) jb (q_inflight q)\<rparr>)"
proof -
  have fresh: "dget (q_inflight q) (q_next_job q) = None" "dget (q_completed q) (q_next_job q) = None"
    using inv by (auto simp: q_inv_def inv_jobs_def) (metis less_irrefl not_None_eq)+
  have old: "j < Suc (q_next_job q)"
    if "dget (q_inflight q) j = Some jb' \<or> dget (q_completed q) j = Some jb'" for j jb'
    using that inv by (auto simp: q_inv_def inv_jobs_def less_Suc_eq)
  have free: "j_writer jb = None" if "dget (q_pins q) t = Some i" "j_allocation jb = wid_allocation i" for t i
    using that assms pinned_alloc_iff [of q "j_allocation jb"] by (auto simp: q_inv_def)
  show ?thesis
    using assms(1-3,5) fresh old free unfolding q_inv_def
    by (intro conjI) (auto simp: inv_defs length_dset dhas_def)
qed

lemma q_inv_submit: "q_inv q \<Longrightarrow> q_inv (snd (q_submit a g w q))"
  using q_inv_add_job [of q "\<lparr>j_allocation = a, j_generation = g, j_writer = w\<rparr>"]
  by (cases w) (auto simp: q_submit_def split: option.splits)

lemma q_inv_add_pin:
  assumes inv: "q_inv q" and al: "dget (q_allocations q) (wid_allocation i) = Some al"
    "a_writer al = Some i"
    and free: "\<not> dany (\<lambda>j. j_allocation j = wid_allocation i \<and> j_writer j \<noteq> None) (q_inflight q)"
    and "length (q_pins q) < 8"
  shows "q_inv (q\<lparr>q_next_pin := q_next_pin q + 1, q_pins := dset (q_next_pin q) i (q_pins q)\<rparr>)"
proof -
  let ?q = "q\<lparr>q_next_pin := q_next_pin q + 1, q_pins := dset (q_next_pin q) i (q_pins q)\<rparr>"
  have "pin_ok q i"
  proof -
    have "dict_ok (q_inflight q)" using inv by (simp add: q_inv_def inv_dicts_def)
    with free have "\<forall>j jb. dget (q_inflight q) j = Some jb \<and> j_allocation jb = wid_allocation i \<longrightarrow>
        j_writer jb = None"
      unfolding dany_iff [OF \<open>dict_ok (q_inflight q)\<close>] by metis
    with al show ?thesis unfolding pin_ok_def by metis
  qed
  moreover have "pin_ok ?q = pin_ok q" by (simp add: pin_ok_def fun_eq_iff)
  moreover have "inv_pins q" using inv by (simp add: q_inv_def)
  ultimately have "inv_pins ?q" by (simp add: inv_pins_def less_Suc_eq)
  moreover have "inv_jobs ?q = inv_jobs q" "inv_writers ?q = inv_writers q"
    unfolding inv_jobs_def inv_writers_def by simp_all
  ultimately show ?thesis
    using assms unfolding q_inv_def by (simp add: inv_dicts_def inv_bounds_def length_dset)
qed

lemma q_inv_pin: "q_inv q \<Longrightarrow> q_inv (snd (q_pin i n q))"
  using q_inv_add_pin [of q i] by (auto simp: q_pin_def split: option.splits)

lemma q_inv_unpin: "q_inv q \<Longrightarrow> q_inv (q_unpin t q)"
  unfolding q_inv_def
  by (intro conjI)
    (auto simp: q_unpin_def inv_defs intro: order_trans [OF length_ddel_le])

lemma q_inv_flags: "q_inv q \<Longrightarrow> q_inv (q\<lparr>q_paused := b\<rparr>)" "q_inv q \<Longrightarrow> q_inv (q\<lparr>q_closed := b\<rparr>)"
  unfolding q_inv_def by (auto simp: inv_defs)

lemma q_inv_pop:
  assumes "q_inv q"
  shows "q_inv (q\<lparr>q_inflight := ddel j (q_inflight q)\<rparr>)"
proof -
  have "length (ddel j (q_inflight q)) \<le> length (q_inflight q)" by (rule length_ddel_le)
  with assms show ?thesis
    unfolding q_inv_def by (intro conjI) (auto simp: inv_defs)
qed

lemma q_inv_finish:
  assumes "q_inv q" and "dget (q_inflight q) j = Some item"
  shows "q_inv (q\<lparr>q_inflight := ddel j (q_inflight q), q_completed := dset j item (q_completed q)\<rparr>)"
proof -
  have "Suc (length (ddel j (q_inflight q))) = length (q_inflight q)"
    using assms by (intro length_ddel) (auto simp: q_inv_def inv_dicts_def dhas_def)
  with assms show ?thesis
    unfolding q_inv_def by (intro conjI) (auto simp: inv_defs length_dset)
qed

lemma q_inv_set_writer:
  assumes "q_inv q" and "dget (q_allocations q) a = Some al" and "\<not> pinned_alloc q a"
    and "wid_run w = q_run q" "wid_context w = q_context q" "wid_allocation w = a"
    and "wid_generation w = a_generation al" "dget (q_completed q) (wid_writer_job w) \<noteq> None"
  shows "q_inv (q\<lparr>q_allocations := dset a (al\<lparr>a_writer := Some w\<rparr>) (q_allocations q)\<rparr>)"
proof -
  have "a_generation al = j_generation jb"
    if "dget (q_inflight q) j = Some jb" "j_allocation jb = a" for j jb
    using q_inv_jobE [OF assms(1) that(1)] that(2) assms(2) by (metis option.inject)
  with assms show ?thesis unfolding q_inv_def
    by (intro conjI) (auto simp: inv_defs pinned_alloc_def dany_iff length_dset dhas_def)
qed

lemma q_inv_complete:
  assumes "q_inv q"
  shows "q_inv (snd (q_complete j q))"
proof (cases "q_live q \<and> (\<exists>item. dget (q_inflight q) j = Some item)")
  case False
  with assms show ?thesis by (auto simp: q_complete_def split: option.splits)
next
  case True
  then obtain item where live: "q_live q" and item: "dget (q_inflight q) j = Some item" by auto
  obtain al where al: "dget (q_allocations q) (j_allocation item) = Some al"
      "a_generation al = j_generation item"
    using q_inv_jobE [OF assms item] by metis
  let ?q1 = "q\<lparr>q_inflight := ddel j (q_inflight q)\<rparr>"
  let ?q2 = "q\<lparr>q_inflight := ddel j (q_inflight q), q_completed := dset j item (q_completed q)\<rparr>"
  have q1: "q_inv ?q1" and q2: "q_inv ?q2"
    using q_inv_pop [OF assms] q_inv_finish [OF assms item] by simp_all
  show ?thesis
  proof (cases "j_writer item")
    case None
    with live item al q2 show ?thesis by (simp add: q_complete_def Let_def)
  next
    case (Some w)
    obtain picture poc where w: "w = (picture, poc)" by (cases w)
    let ?w = "\<lparr>wid_run = q_run q, wid_context = q_context q, wid_allocation = j_allocation item,
        wid_generation = j_generation item, wid_writer_job = j, wid_picture = picture, wid_poc = poc\<rparr>"
    show ?thesis
    proof (cases "pinned_alloc q (j_allocation item)")
      case True
      with live item al Some w q1 show ?thesis
        by (simp add: q_complete_def Let_def pinned_alloc_def)
    next
      case False
      then have "q_inv (?q2\<lparr>q_allocations :=
          dset (j_allocation item) (al\<lparr>a_writer := Some ?w\<rparr>) (q_allocations ?q2)\<rparr>)"
        using al by (intro q_inv_set_writer [OF q2]) (auto simp: pinned_alloc_def)
      moreover have "q\<lparr>q_completed := c, q_allocations := x\<rparr> = q\<lparr>q_allocations := x, q_completed := c\<rparr>"
        for c x and q :: queue by simp
      ultimately show ?thesis using False live item al Some w
        by (simp add: q_complete_def Let_def pinned_alloc_def)
    qed
  qed
qed

lemma q_inv_env_step: "q_inv q \<Longrightarrow> q_inv (env_step op q)"
  by (cases op)
    (simp_all add: q_inv_allocate q_inv_release q_inv_submit q_inv_complete q_inv_pin q_inv_unpin
      q_pause_def q_resume_def q_stop_def q_inv_flags)

subsection \<open>Retention\<close>

locale retaining =
  fixes ok :: "'q \<Rightarrow> bool"
    and held :: "'q \<Rightarrow> nat \<Rightarrow> 'i option"
    and view :: "'q \<Rightarrow> 'i \<Rightarrow> 'v option"
    and act :: "'op \<Rightarrow> 'q \<Rightarrow> 'q"
    and drops :: "'op \<Rightarrow> nat \<Rightarrow> bool"
  assumes act_ok: "ok q \<Longrightarrow> ok (act op q)"
    and act_held: "ok q \<Longrightarrow> held q t = Some i \<Longrightarrow> \<not> drops op t \<Longrightarrow> held (act op q) t = Some i"
    and act_view: "ok q \<Longrightarrow> held q t = Some i \<Longrightarrow> view (act op q) i = view q i"
begin

lemma run_ok: "ok q \<Longrightarrow> ok (fold act ops q)"
  by (induction ops arbitrary: q) (simp_all add: act_ok)

lemma run_retains:
  "ok q \<Longrightarrow> held q t = Some i \<Longrightarrow> \<forall>op \<in> set ops. \<not> drops op t \<Longrightarrow>
     held (fold act ops q) t = Some i \<and> view (fold act ops q) i = view q i"
proof (induction ops arbitrary: q)
  case Nil
  then show ?case by simp
next
  case (Cons op ops)
  then have "held (act op q) t = Some i" and "view (act op q) i = view q i" and "ok (act op q)"
    by (auto intro: act_held act_view act_ok)
  with Cons.IH [of "act op q"] Cons.prems show ?case by simp
qed

end

definition q_view :: "queue \<Rightarrow> writer_id \<Rightarrow> allocation option" where
  "q_view q i = (case dget (q_allocations q) (wid_allocation i) of
     None \<Rightarrow> None | Some al \<Rightarrow> if a_writer al = Some i then Some al else None)"

definition q_held :: "queue \<Rightarrow> nat \<Rightarrow> writer_id option" where
  "q_held q t = dget (q_pins q) t"

fun drops_pin :: "qop \<Rightarrow> nat \<Rightarrow> bool" where
  "drops_pin (Unpin t) t' \<longleftrightarrow> t = t'"
| "drops_pin _ _ \<longleftrightarrow> False"

lemma env_step_view:
  assumes "q_inv q" and "q_held q t = Some i"
  shows "q_view (env_step op q) i = q_view q i"
proof -
  obtain al where al: "dget (q_allocations q) (wid_allocation i) = Some al" "a_writer al = Some i"
    using q_inv_pinE [OF assms(1)] assms(2) by (metis q_held_def)
  have pin: "pinned_alloc q (wid_allocation i)"
    using assms pinned_alloc_iff [of q] by (auto simp: q_inv_def q_held_def)
  show ?thesis
  proof (cases op)
    case (Complete j)
    then show ?thesis using al pin
      by (auto simp: q_complete_def q_view_def Let_def pinned_alloc_def split: option.splits prod.splits)
  qed (use al pin in \<open>auto simp: q_allocate_def q_release_def q_submit_def q_pin_def q_unpin_def
        q_pause_def q_resume_def q_stop_def q_view_def dhas_def split: option.splits\<close>)
qed

lemma env_step_held:
  assumes "q_inv q" and "q_held q t = Some i" and "\<not> drops_pin op t"
  shows "q_held (env_step op q) t = Some i"
proof -
  have "t < q_next_pin q" using assms by (auto simp: q_inv_def inv_pins_def q_held_def)
  with assms show ?thesis
    by (cases op) (auto simp: q_allocate_def q_release_def q_submit_def q_pin_def q_unpin_def
        q_pause_def q_resume_def q_stop_def q_held_def q_complete_def Let_def
        split: option.splits prod.splits)
qed

text \<open>
  Tokens are not reused: a token that was issued and is no longer held is never held again. So a
  token that is still held has been held all along.
\<close>

locale retaining_fresh = retaining +
  fixes issued :: "'a \<Rightarrow> nat \<Rightarrow> bool"
  assumes act_issued: "ok q \<Longrightarrow> issued q t \<Longrightarrow> issued (act op q) t"
    and act_gone: "ok q \<Longrightarrow> issued q t \<Longrightarrow> held q t = None \<Longrightarrow> held (act op q) t = None"
    and act_drops: "ok q \<Longrightarrow> drops op t \<Longrightarrow> held (act op q) t = None"
begin

lemma run_gone:
  "ok q \<Longrightarrow> issued q t \<Longrightarrow> held q t = None \<Longrightarrow> held (fold act ops q) t = None"
  by (induction ops arbitrary: q) (simp_all add: act_ok act_issued act_gone)

lemma still_held:
  "ok q \<Longrightarrow> issued q t \<Longrightarrow> held q t = Some i \<Longrightarrow> held (fold act ops q) t \<noteq> None \<Longrightarrow>
     held (fold act ops q) t = Some i \<and> view (fold act ops q) i = view q i"
proof (induction ops arbitrary: q)
  case Nil
  then show ?case by simp
next
  case (Cons op ops)
  have "\<not> drops op t"
    using Cons.prems run_gone [of "act op q" t ops] act_drops act_ok act_issued by fastforce
  then show ?case
    using Cons.IH [of "act op q"] Cons.prems act_held act_view act_ok act_issued by simp
qed

end

definition q_issued :: "queue \<Rightarrow> nat \<Rightarrow> bool" where
  "q_issued q t \<longleftrightarrow> t < q_next_pin q"

lemma drops_pin_iff: "drops_pin op t \<longleftrightarrow> op = Unpin t"
  by (cases op) auto

lemma env_step_gone:
  assumes "q_issued q t"
  shows "q_issued (env_step op q) t" and "q_held q t = None \<Longrightarrow> q_held (env_step op q) t = None"
  using assms
  by (cases op; auto simp: q_issued_def q_held_def q_allocate_def q_release_def q_submit_def q_pin_def
      q_unpin_def q_pause_def q_resume_def q_stop_def q_complete_def Let_def
      split: option.splits prod.splits)+

interpretation fq: retaining_fresh q_inv q_held q_view env_step drops_pin q_issued
proof unfold_locales
  show "q_held (env_step op q) t = None" if "drops_pin op t" for op q t
    using that by (simp add: drops_pin_iff q_held_def q_unpin_def)
qed (auto intro: q_inv_env_step env_step_held env_step_view env_step_gone)

lemma env_run_inv: "q_inv q \<Longrightarrow> q_inv (env_run ops q)"
  unfolding env_run_def by (rule fq.run_ok)

lemma env_run_keeps_closed: "q_closed q \<Longrightarrow> q_closed (env_run ops q)"
proof -
  have "q_closed (env_step op q)" if "q_closed q" for op q
    using that by (cases op) (auto simp: q_allocate_def q_release_def q_submit_def q_complete_def
      q_pin_def q_unpin_def q_pause_def q_resume_def q_stop_def q_live_def split: option.splits)
  then show "q_closed q \<Longrightarrow> q_closed (env_run ops q)"
    unfolding env_run_def by (induction ops arbitrary: q) simp_all
qed

lemma q_inv_drain: "q_inv q \<Longrightarrow> q_inv (snd (q_drain start s ws q))"
proof -
  have "q_inv q \<Longrightarrow> q_inv (snd (drain_loop d ws q))" for d
    by (induction d ws q rule: drain_loop.induct)
      (subst drain_loop.simps, auto simp: Let_def env_run_inv split: list.splits)
  then show "q_inv q \<Longrightarrow> q_inv (snd (q_drain start s ws q))" by (simp add: q_drain_def)
qed

lemma drain_loop_run:
  "\<exists>ops. set ops \<subseteq> (\<Union>(now, os) \<in> set ws. set os) \<and> snd (drain_loop d ws q) = env_run ops q \<and>
     (fst (drain_loop d ws q) = Inr () \<longrightarrow> q_inflight (env_run ops q) = [])"
proof (induction d ws q rule: drain_loop.induct)
  case (1 d ws q)
  show ?case
  proof (cases "q_inflight q = [] \<or> ws = [] \<or> d - fst (hd ws) \<le> 0")
    case True
    then show ?thesis
      by (intro exI [of _ "[]"]) (auto simp: drain_loop.simps [of d ws q] env_run_def split: list.splits)
  next
    case False
    then obtain now os ws' where ws: "ws = (now, os) # ws'" and busy: "q_inflight q \<noteq> []" "\<not> d - now \<le> 0"
      by (cases ws) auto
    let ?q = "env_run os q"
    show ?thesis
    proof (cases "q_live ?q")
      case False
      with busy show ?thesis
        by (intro exI [of _ os])
          (auto simp: drain_loop.simps [of d "(now, os) # ws'" q] ws)
    next
      case True
      obtain ops where "set ops \<subseteq> (\<Union>(now, os) \<in> set ws'. set os)"
          "snd (drain_loop d ws' ?q) = env_run ops ?q"
          "fst (drain_loop d ws' ?q) = Inr () \<longrightarrow> q_inflight (env_run ops ?q) = []"
        using "1" [OF busy(1) ws refl busy(2) refl] True by auto
      with True busy show ?thesis
        by (intro exI [of _ "os @ ops"])
          (auto simp: drain_loop.simps [of d "(now, os) # ws'" q] ws env_run_def)
    qed
  qed
qed

lemma q_pin_InrE:
  assumes "q_pin i n q = (Inr (token, plane), q1)"
  obtains al where "dget (q_allocations q) (wid_allocation i) = Some al" "a_writer al = Some i"
    "a_data al = plane" "length plane = n"
    "q1 = q\<lparr>q_next_pin := q_next_pin q + 1, q_pins := dset (q_next_pin q) i (q_pins q)\<rparr>"
    "token = q_next_pin q"
proof (cases "dget (q_allocations q) (wid_allocation i)")
  case None
  with assms show thesis by (simp add: q_pin_def split: if_splits)
next
  case (Some al)
  with assms show thesis by (intro that [of al]) (auto simp: q_pin_def split: if_splits)
qed

lemma env_run_names: "q_run (env_run ops q) = q_run q" "q_context (env_run ops q) = q_context q"
proof -
  have "q_run (env_step op q) = q_run q \<and> q_context (env_step op q) = q_context q" for op q
    by (cases op) (auto simp: q_allocate_def q_release_def q_submit_def q_complete_def Let_def
      q_pin_def q_unpin_def q_pause_def q_resume_def q_stop_def split: option.splits)
  then show "q_run (env_run ops q) = q_run q" "q_context (env_run ops q) = q_context q"
    unfolding env_run_def by (induction ops arbitrary: q) simp_all
qed

lemma complete_ok:
  assumes inv: "q_inv q" and live: "q_live q" and item: "dget (q_inflight q) j = Some item"
  shows "fst (q_complete j q) = Inr ()" and "dget (q_completed (snd (q_complete j q))) j = Some item"
    and "j_writer item = Some (picture, poc) \<Longrightarrow>
      fst (q_writer_record (j_allocation item) (snd (q_complete j q))) =
        Inr \<lparr>wid_run = q_run q, wid_context = q_context q, wid_allocation = j_allocation item,
             wid_generation = j_generation item, wid_writer_job = j,
             wid_picture = picture, wid_poc = poc\<rparr>"
proof -
  obtain al where al: "dget (q_allocations q) (j_allocation item) = Some al"
    by (rule q_inv_jobE [OF inv item])
  have "\<not> pinned_alloc q (j_allocation item)" if "j_writer item \<noteq> None"
  proof
    assume "pinned_alloc q (j_allocation item)"
    then obtain t i where "dget (q_pins q) t = Some i" "wid_allocation i = j_allocation item"
      using inv pinned_alloc_iff [of q] by (auto simp: q_inv_def)
    with inv item that show False by (auto simp: q_inv_def inv_pins_def pin_ok_def)
  qed
  with live item al show "fst (q_complete j q) = Inr ()"
      "dget (q_completed (snd (q_complete j q))) j = Some item"
      "j_writer item = Some (picture, poc) \<Longrightarrow>
        fst (q_writer_record (j_allocation item) (snd (q_complete j q))) =
          Inr \<lparr>wid_run = q_run q, wid_context = q_context q, wid_allocation = j_allocation item,
               wid_generation = j_generation item, wid_writer_job = j,
               wid_picture = picture, wid_poc = poc\<rparr>"
    by (cases "j_writer item";
        force simp: q_complete_def q_writer_record_def pinned_alloc_def Let_def)+
qed

subsection \<open>Properties\<close>

text \<open>
  C10. Starting from a new queue, any sequence of calls from any threads keeps the queue invariant:
  every pin and every in-flight job refers to an existing allocation of the recorded generation, no
  writer is in flight on a pinned allocation, job numbers are fresh, and the budgets of 8
  allocations, 128 jobs and 8 pins hold. In such a queue completing an in-flight job of a live queue
  never raises, and only completing changes the recorded writer of an allocation.
\<close>
theorem queue_safe:
  assumes "q = env_run ops (queue_init r c cl)"
  shows "q_inv q \<and> length (q_allocations q) \<le> 8 \<and>
    length (q_inflight q) + length (q_completed q) \<le> 128 \<and> length (q_pins q) \<le> 8 \<and>
    (\<forall>j item. q_live q \<and> dget (q_inflight q) j = Some item \<longrightarrow>
       fst (q_complete j q) = Inr () \<and> dget (q_completed (snd (q_complete j q))) j = Some item \<and>
       (\<forall>picture poc. j_writer item = Some (picture, poc) \<longrightarrow>
          fst (q_writer_record (j_allocation item) (snd (q_complete j q))) =
            Inr \<lparr>wid_run = r, wid_context = c, wid_allocation = j_allocation item,
                 wid_generation = j_generation item, wid_writer_job = j,
                 wid_picture = picture, wid_poc = poc\<rparr>))"
proof -
  have inv: "q_inv q" unfolding assms by (intro env_run_inv q_inv_init)
  have names: "q_run q = r" "q_context q = c"
    unfolding assms by (simp_all add: env_run_names) (simp_all add: queue_init_def)
  have "length (q_allocations q) \<le> 8" "length (q_inflight q) + length (q_completed q) \<le> 128"
      "length (q_pins q) \<le> 8"
    using inv by (simp_all add: q_inv_def inv_bounds_def)
  with inv show ?thesis by (auto simp: complete_ok names)
qed

definition zero_plane :: "byte list" where
  "zero_plane = replicate 345600 0"

definition sample_ops :: "qop list" where
  "sample_ops = [Allocate 0 7 zero_plane ''coherent-model'', Submit 0 7 (Some (3, 4))]"

theorem queue_safe_witness:
  "fst (q_writer_record 0 (snd (q_complete 1 (env_run sample_ops (queue_init ''r'' ''c'' ''self'')))))
     = Inr \<lparr>wid_run = ''r'', wid_context = ''c'', wid_allocation = 0, wid_generation = 7,
            wid_writer_job = 1, wid_picture = 3, wid_poc = 4\<rparr>"
proof -
  let ?q = "env_run sample_ops (queue_init ''r'' ''c'' ''self'')"
  have "dget (q_inflight ?q) 1 = Some \<lparr>j_allocation = 0, j_generation = 7, j_writer = Some (3, 4)\<rparr>"
      "q_live ?q"
    by (simp_all add: sample_ops_def env_run_def queue_init_def q_allocate_def q_submit_def q_live_def
        pinned_alloc_def dany_def dhas_def zero_plane_def)
  then show ?thesis using queue_safe [OF refl, of sample_ops "''r''" "''c''" "''self''"]
    by fastforce
qed

text \<open>
  C9. Retention. Once \<open>pin\<close> has returned a token and a view of the plane, then whatever calls other
  threads make, as long as nobody drops that token, the allocation stays in the table with the same
  bytes, policy, generation and writer; releasing it and submitting a new writer for it are refused.
\<close>
theorem pinned_buffer_retained:
  assumes "q_inv q" and "q_pin i n q = (Inr (token, plane), q1)"
    and "Unpin token \<notin> set ops" and "q2 = env_run ops q1"
  shows "\<exists>al. dget (q_allocations q) (wid_allocation i) = Some al \<and>
      dget (q_allocations q2) (wid_allocation i) = Some al \<and> a_data al = plane \<and>
      length plane = n \<and> a_writer al = Some i \<and> dget (q_pins q2) token = Some i \<and>
      fst (q_release (wid_allocation i) q2) = Inl (QueueError ''retained/inflight allocation'') \<and>
      (\<forall>g w. fst (q_submit (wid_allocation i) g (Some w) q2) \<in> range Inl)"
proof -
  obtain al where al: "dget (q_allocations q) (wid_allocation i) = Some al" "a_writer al = Some i"
      "a_data al = plane" "length plane = n"
    and q1: "q1 = q\<lparr>q_next_pin := q_next_pin q + 1, q_pins := dset (q_next_pin q) i (q_pins q)\<rparr>"
      "token = q_next_pin q"
    by (rule q_pin_InrE [OF assms(2)])
  have inv1: "q_inv q1" using q_inv_pin [OF assms(1), of i n] assms(2) by simp
  have held: "q_held q1 token = Some i" by (simp add: q_held_def q1)
  have "\<forall>op \<in> set ops. \<not> drops_pin op token"
    using assms(3) by (auto simp: drops_pin_iff)
  then have "q_held q2 token = Some i" "q_view q2 i = q_view q1 i"
    using fq.run_retains [OF inv1 held] by (auto simp: assms(4) env_run_def)
  moreover have "q_view q1 i = Some al" using al by (simp add: q_view_def q1)
  ultimately have q2: "dget (q_pins q2) token = Some i"
      "dget (q_allocations q2) (wid_allocation i) = Some al"
    by (auto simp: q_held_def q_view_def split: option.splits if_splits)
  have "inv_dicts q2" using env_run_inv [OF inv1, of ops] by (simp add: assms(4) q_inv_def)
  then have pin: "pinned_alloc q2 (wid_allocation i)"
    using q2(1) pinned_alloc_iff by blast
  have "fst (q_release (wid_allocation i) q2) = Inl (QueueError ''retained/inflight allocation'')"
    using pin by (simp add: q_release_def)
  moreover have "fst (q_submit (wid_allocation i) g (Some w) q2) \<in> range Inl" for g w
    using pin by (simp add: q_submit_def)
  ultimately show ?thesis using al q2 by blast
qed

definition sample_queue :: queue where
  "sample_queue = env_run (sample_ops @ [Complete 1]) (queue_init ''r'' ''c'' ''self'')"

definition sample_writer :: writer_id where
  "sample_writer = \<lparr>wid_run = ''r'', wid_context = ''c'', wid_allocation = 0, wid_generation = 7,
     wid_writer_job = 1, wid_picture = 3, wid_poc = 4\<rparr>"

lemma sample_queue_eq:
  "sample_queue = \<lparr>q_run = ''r'', q_context = ''c'', q_client = ''self'', q_paused = False,
     q_closed = False,
     q_allocations = [(0, \<lparr>a_generation = 7, a_data = zero_plane, a_policy = ''coherent-model'',
        a_writer = Some sample_writer\<rparr>)],
     q_inflight = [], q_completed = [(1, \<lparr>j_allocation = 0, j_generation = 7, j_writer = Some (3, 4)\<rparr>)],
     q_pins = [], q_next_job = 2, q_next_pin = 1\<rparr>"
  by (simp add: sample_queue_def sample_writer_def sample_ops_def env_run_def queue_init_def
      q_allocate_def q_submit_def q_complete_def q_live_def pinned_alloc_def dany_def dhas_def
      zero_plane_def)

lemma sample_queue_inv: "q_inv sample_queue"
  unfolding sample_queue_def by (intro env_run_inv q_inv_init)

lemma sample_pin:
  "q_pin sample_writer 345600 sample_queue = (Inr (1, zero_plane),
     sample_queue\<lparr>q_next_pin := 2, q_pins := [(1, sample_writer)]\<rparr>)"
  by (simp add: sample_queue_eq q_pin_def q_live_def dhas_def dany_def)
    (simp add: sample_writer_def zero_plane_def)

theorem pinned_buffer_retained_witness:
  "fst (q_release 0 (env_run [Release 0, Submit 0 7 (Some (5, 6)), Submit 0 7 None, Pause]
     (snd (q_pin sample_writer 345600 sample_queue)))) =
     Inl (QueueError ''retained/inflight allocation'')"
  using pinned_buffer_retained [OF sample_queue_inv sample_pin _ refl,
      of "[Release 0, Submit 0 7 (Some (5, 6)), Submit 0 7 None, Pause]"]
  by (simp only: sample_pin snd_conv) (auto simp: sample_writer_def)

end
