(* ===== verification/Json.thy ===== *)
theory Json
  imports Prelude "HOL-Library.List_Lexorder" "HOL-Library.Char_ord"
begin

text \<open>
  Python values as they come out of \<^verbatim>\<open>json.loads\<close>: what the validators of the repository are
  handed before they have checked anything. \<open>JFloat\<close> carries an exact rational (no NaN, no
  infinities, no rounding). A dict keeps its insertion order and has each key once.

  The \<open>is_*\<close> predicates are the exact type tests \<^verbatim>\<open>type(v) is T\<close>, for which \<^verbatim>\<open>True\<close> is not an int;
  \<open>py_eq\<close> is \<^verbatim>\<open>==\<close>, for which \<^verbatim>\<open>True == 1 == 1.0\<close> and dict order does not matter; \<open>py_true\<close> is
  truth testing.
\<close>

datatype json =
    JNull
  | JBool bool
  | JInt int
  | JFloat rat
  | JStr string
  | JList "json list"
  | JObj "(string \<times> json) list"

subsection \<open>Exact types\<close>

fun is_int :: "json \<Rightarrow> bool" where
  "is_int (JInt _) = True" | "is_int _ = False"

fun is_bool :: "json \<Rightarrow> bool" where
  "is_bool (JBool _) = True" | "is_bool _ = False"

fun is_str :: "json \<Rightarrow> bool" where
  "is_str (JStr _) = True" | "is_str _ = False"

fun is_list :: "json \<Rightarrow> bool" where
  "is_list (JList _) = True" | "is_list _ = False"

fun is_obj :: "json \<Rightarrow> bool" where
  "is_obj (JObj _) = True" | "is_obj _ = False"

lemma is_int_iff: "is_int v \<longleftrightarrow> (\<exists>i. v = JInt i)" by (cases v) simp_all
lemma is_bool_iff: "is_bool v \<longleftrightarrow> (\<exists>b. v = JBool b)" by (cases v) simp_all
lemma is_str_iff: "is_str v \<longleftrightarrow> (\<exists>s. v = JStr s)" by (cases v) simp_all
lemma is_list_iff: "is_list v \<longleftrightarrow> (\<exists>xs. v = JList xs)" by (cases v) simp_all
lemma is_obj_iff: "is_obj v \<longleftrightarrow> (\<exists>d. v = JObj d)" by (cases v) simp_all

lemmas is_type_iffs = is_int_iff is_bool_iff is_str_iff is_list_iff is_obj_iff

subsection \<open>Equality and truth\<close>

fun canon :: "json \<Rightarrow> json" where
  "canon (JBool b) = JFloat (of_bool b)"
| "canon (JInt i) = JFloat (of_int i)"
| "canon (JList xs) = JList (map canon xs)"
| "canon (JObj d) = JObj (sort_key fst (map (\<lambda>(k, v). (k, canon v)) d))"
| "canon v = v"

definition py_eq :: "json \<Rightarrow> json \<Rightarrow> bool" where
  "py_eq v w \<longleftrightarrow> canon v = canon w"

fun py_true :: "json \<Rightarrow> bool" where
  "py_true JNull = False"
| "py_true (JBool b) = b"
| "py_true (JInt i) = (i \<noteq> 0)"
| "py_true (JFloat r) = (r \<noteq> 0)"
| "py_true (JStr s) = (s \<noteq> [])"
| "py_true (JList xs) = (xs \<noteq> [])"
| "py_true (JObj d) = (d \<noteq> [])"

lemma py_eq_refl [simp]: "py_eq v v"
  by (simp add: py_eq_def)

lemma py_eq_sym: "py_eq v w \<Longrightarrow> py_eq w v"
  by (simp add: py_eq_def)

lemma py_eq_trans: "py_eq u v \<Longrightarrow> py_eq v w \<Longrightarrow> py_eq u w"
  by (simp add: py_eq_def)

lemma py_eq_scalar [simp]:
  "py_eq (JInt i) (JInt j) \<longleftrightarrow> i = j"
  "py_eq (JBool b) (JBool c) \<longleftrightarrow> b = c"
  "py_eq (JBool b) (JInt i) \<longleftrightarrow> i = of_bool b"
  "py_eq (JInt i) (JBool b) \<longleftrightarrow> i = of_bool b"
  by (auto simp: py_eq_def)

lemma py_eq_JStr [simp]: "py_eq v (JStr s) \<longleftrightarrow> v = JStr s" "py_eq (JStr s) v \<longleftrightarrow> v = JStr s"
  by (cases v; auto simp: py_eq_def)+

lemma py_eq_JNull [simp]: "py_eq v JNull \<longleftrightarrow> v = JNull" "py_eq JNull v \<longleftrightarrow> v = JNull"
  by (cases v; auto simp: py_eq_def)+

lemma py_eq_JObjD:
  assumes "py_eq (JObj d) (JObj e)" and "dict_ok d" and "dict_ok e"
  shows "rel_option py_eq (dget d k) (dget e k)"
proof -
  let ?c = "map (\<lambda>(k, v). (k, canon v))"
  have fst_c: "map fst (?c x) = map fst x" for x :: "(string \<times> json) list"
    by (induction x) auto
  have sorted: "map_of (sort_key fst xs) = map_of xs" if "distinct (map fst xs)"
    for xs :: "(string \<times> json) list"
    by (rule map_of_inject_set [THEN iffD2])
      (use that in \<open>simp_all add: distinct_map distinct_sort inj_on_def\<close>)
  have "sort_key fst (?c d) = sort_key fst (?c e)"
    using assms(1) by (simp add: py_eq_def)
  then have "map_of (?c d) = map_of (?c e)"
    using assms(2,3) sorted [of "?c d"] sorted [of "?c e"] unfolding fst_c dict_ok_def
    by metis
  then have "map_of (?c d) k = map_of (?c e) k" by simp
  moreover have "map_of (?c x) k = map_option canon (dget x k)" for x by (induction x) auto
  ultimately show ?thesis
    by (cases "dget d k"; cases "dget e k") (simp_all add: py_eq_def)
qed

subsection \<open>Dict keys\<close>

definition keys_are :: "(string, json) dict \<Rightarrow> string list \<Rightarrow> bool" where
  "keys_are d ks \<longleftrightarrow> set (map fst d) = set ks"

lemma keys_are_dget: "keys_are d ks \<Longrightarrow> k \<in> set ks \<Longrightarrow> \<exists>v. dget d k = Some v"
  unfolding keys_are_def by (metis map_of_eq_None_iff not_Some_eq list.set_map)

lemma keys_are_dget_in: "keys_are d ks \<Longrightarrow> dget d k = Some v \<Longrightarrow> k \<in> set ks"
  unfolding keys_are_def by (metis map_of_eq_None_iff option.distinct(1) list.set_map)

text \<open>
  Reading a field whose presence and type have been checked: \<open>jv\<close> is subscription, \<open>jint\<close>, \<open>jbool\<close>
  and \<open>jstr\<close> the payload. Their values on other inputs are never used.
\<close>

definition jv :: "(string, json) dict \<Rightarrow> string \<Rightarrow> json" where
  "jv d k = (case dget d k of Some v \<Rightarrow> v | None \<Rightarrow> JNull)"

definition jint :: "(string, json) dict \<Rightarrow> string \<Rightarrow> int" where
  "jint d k = (case jv d k of JInt i \<Rightarrow> i | _ \<Rightarrow> 0)"

definition jbool :: "(string, json) dict \<Rightarrow> string \<Rightarrow> bool" where
  "jbool d k = (case jv d k of JBool b \<Rightarrow> b | _ \<Rightarrow> False)"

definition jstr :: "(string, json) dict \<Rightarrow> string \<Rightarrow> string" where
  "jstr d k = (case jv d k of JStr s \<Rightarrow> s | _ \<Rightarrow> [])"

definition jobj :: "(string, json) dict \<Rightarrow> string \<Rightarrow> (string, json) dict" where
  "jobj d k = (case jv d k of JObj x \<Rightarrow> x | _ \<Rightarrow> [])"

definition jlist :: "(string, json) dict \<Rightarrow> string \<Rightarrow> json list" where
  "jlist d k = (case jv d k of JList xs \<Rightarrow> xs | _ \<Rightarrow> [])"

lemma jint_is_int: "is_int (jv d k) \<Longrightarrow> jv d k = JInt (jint d k)"
  by (auto simp: is_int_iff jint_def)

lemma jbool_is_bool: "is_bool (jv d k) \<Longrightarrow> jv d k = JBool (jbool d k)"
  by (auto simp: is_bool_iff jbool_def)

lemma jstr_is_str: "is_str (jv d k) \<Longrightarrow> jv d k = JStr (jstr d k)"
  by (auto simp: is_str_iff jstr_def)

lemma jlist_is_list: "is_list (jv d k) \<Longrightarrow> jv d k = JList (jlist d k)"
  by (auto simp: is_list_iff jlist_def)

lemma jobj_is_obj: "is_obj (jv d k) \<Longrightarrow> jv d k = JObj (jobj d k)"
  by (auto simp: is_obj_iff jobj_def)

end
