(* ===== verification/Observer.thy ===== *)
theory Observer
  imports Fake_Queue Json
begin

text \<open>
  The synthetic observer of \<open>src/experiments/hevc-reference-content/adapter.py\<close>, on top of the fake queue.

  \<^verbatim>\<open>Observer.snapshot\<close> makes six calls on the queue (pin, pause, drain, validate, validate, resume), or
  fewer and then stop, and always unpin. Other threads run between any two of them: the record
  \<open>schedule\<close> says which calls they make in each gap, what the clock shows and how \<^verbatim>\<open>drain\<close> is woken.
  The digest function is the argument \<open>sha256\<close>. The plane a pin returns is a read-only view of the
  allocation's bytes; no method of the queue writes to those bytes.
\<close>

definition SLOT_SIZE :: nat where "SLOT_SIZE = 184320"
definition SLOT_COUNT :: nat where "SLOT_COUNT = 8"
definition COMP_START :: nat where "COMP_START = 161280"
definition COMP_SIZE :: nat where "COMP_SIZE = 177152"
definition MV :: nat where "MV = 7168"

lemmas extent_defs = SLOT_SIZE_def SLOT_COUNT_def COMP_START_def COMP_SIZE_def MV_def

datatype adapter_error = AdapterError string

record snap =
  s_identity :: writer_id
  s_copy :: bool
  s_bytes :: nat
  s_elapsed :: rat
  s_sha256 :: "string option"

record observer =
  o_enabled :: bool
  o_slots :: "byte list list"
  o_snapshots :: "snap list"
  o_stopped :: bool

record schedule =
  sch_gap :: "nat \<Rightarrow> qop list"
  sch_start :: rat
  sch_wakeups :: wakeups
  sch_clock1 :: rat
  sch_clock2 :: rat

definition observer_init :: "bool \<Rightarrow> observer" where
  "observer_init enabled = \<lparr>o_enabled = enabled, o_slots = replicate SLOT_COUNT (replicate SLOT_SIZE 0),
     o_snapshots = [], o_stopped = False\<rparr>"

definition real_client_adapter :: "'c \<Rightarrow> adapter_error + 'a" where
  "real_client_adapter client = Inl (AdapterError
     ''blocked: wait_on_capture_locked/helper execution supplies no live pause/retention/exporter adapter'')"

definition admit :: "(string, json) dict \<Rightarrow> adapter_error + unit" where
  "admit layout =
     rbind (need (AdapterError ''malformed extent'')
       (keys_are layout [''width'', ''height'', ''length'', ''comp_start'', ''comp_size'',
          ''mv_offset'', ''mv_size''] \<and> list_all (\<lambda>(k, v). is_int v) layout)) (\<lambda>_.
     rbind (need (AdapterError ''geometry/length'')
       (\<not> ((jint layout ''width'', jint layout ''height'') \<noteq> (448, 240) \<or>
          jint layout ''length'' \<notin> {345600, 368128}))) (\<lambda>_.
     rbind (need (AdapterError ''compressed extent'')
       ((jint layout ''comp_start'', jint layout ''comp_size'') = (int COMP_START, int COMP_SIZE))) (\<lambda>_.
     rbind (need (AdapterError ''mv extent'')
       (\<not> (jint layout ''mv_size'' \<noteq> int MV \<or>
          jint layout ''mv_offset'' \<noteq> jint layout ''length'' - int MV))) (\<lambda>_.
     need (AdapterError ''overlap'')
       (\<not> int COMP_START + int COMP_SIZE > jint layout ''mv_offset'')))))"

fun exn_str :: "queue_exn \<Rightarrow> string" where
  "exn_str (QueueError m) = m"
| "exn_str KeyError = ''KeyError''"

text \<open>Sequencing of queue calls with a gap before each call.\<close>

definition qthen :: "'a qres \<Rightarrow> qop list \<Rightarrow> (queue \<Rightarrow> 'b qres) \<Rightarrow> 'b qres" where
  "qthen r gap f = (case r of (Inl e, q) \<Rightarrow> (Inl e, q) | (Inr x, q) \<Rightarrow> f (env_run gap q))"

text \<open>Pause, drain and the first validation.\<close>

definition snap_quiesce :: "schedule \<Rightarrow> rat \<Rightarrow> nat \<Rightarrow> writer_id \<Rightarrow> queue \<Rightarrow> unit qres" where
  "snap_quiesce sch drain_seconds token identity q =
     qthen (qthen (q_pause q) (sch_gap sch 1)
       (q_drain (sch_start sch) drain_seconds (sch_wakeups sch)))
       (sch_gap sch 2) (q_validate token identity)"

text \<open>The second validation and resume.\<close>

definition snap_release :: "schedule \<Rightarrow> nat \<Rightarrow> writer_id \<Rightarrow> queue \<Rightarrow> unit qres" where
  "snap_release sch token identity q =
     qthen (q_validate token identity q) (sch_gap sch 4) q_resume"

text \<open>
  Slice assignment to a memoryview: both sides must have the same size. \<open>first\<close> and \<open>second\<close> are the
  two parts of the slot.
\<close>

definition copy_into :: "byte list \<Rightarrow> byte list \<Rightarrow> byte list \<Rightarrow> (string + unit) \<times> byte list" where
  "copy_into compressed motion slot =
     (let first = take COMP_SIZE slot; second = drop COMP_SIZE slot in
      if length compressed \<noteq> length first
      then (Inl ''memoryview assignment: lvalue and rvalue have different structures'', slot)
      else if length motion \<noteq> length second
      then (Inl ''memoryview assignment: lvalue and rvalue have different structures'', compressed @ second)
      else (Inr (), compressed @ motion))"

text \<open>The body of the try statement after the pin: (message or elapsed time, slot, queue).\<close>

definition snap_body ::
  "schedule \<Rightarrow> bool \<Rightarrow> rat \<Rightarrow> nat \<Rightarrow> writer_id \<Rightarrow> byte list \<Rightarrow> byte list \<Rightarrow> byte list \<Rightarrow> queue \<Rightarrow>
     (string + rat) \<times> byte list \<times> queue" where
  "snap_body sch copy drain_seconds token identity compressed motion slot q =
     (case snap_quiesce sch drain_seconds token identity q of
        (Inl e, q1) \<Rightarrow> (Inl (exn_str e), slot, q1)
      | (Inr _, q1) \<Rightarrow>
          (case (if copy then copy_into compressed motion slot else (Inr (), slot)) of
             (Inl m, slot1) \<Rightarrow> (Inl m, slot1, q1)
           | (Inr _, slot1) \<Rightarrow>
               let elapsed = sch_clock2 sch - sch_clock1 sch in
               if elapsed < 0 \<or> elapsed > 2 / 100 then (Inl ''copy deadline'', slot1, q1)
               else
                 (case snap_release sch token identity (env_run (sch_gap sch 3) q1) of
                    (Inl e, q2) \<Rightarrow> (Inl (exn_str e), slot1, q2)
                  | (Inr _, q2) \<Rightarrow> (Inr elapsed, slot1, q2))))"

definition snap_try ::
  "schedule \<Rightarrow> bool \<Rightarrow> rat \<Rightarrow> nat \<Rightarrow> nat \<Rightarrow> writer_id \<Rightarrow> byte list \<Rightarrow> queue \<Rightarrow>
     nat option \<times> (string + rat) \<times> byte list \<times> queue" where
  "snap_try sch copy drain_seconds len mv_offset identity slot q =
     (case q_pin identity len q of
        (Inl e, q1) \<Rightarrow> (None, Inl (exn_str e), slot, q1)
      | (Inr (token, plane), q1) \<Rightarrow>
          (Some token, snap_body sch copy drain_seconds token identity
             (take COMP_SIZE (drop COMP_START plane)) (take (len - mv_offset) (drop mv_offset plane))
             slot (env_run (sch_gap sch 0) q1)))"

definition unpin_opt :: "nat option \<Rightarrow> queue \<Rightarrow> queue" where
  "unpin_opt token q = (case token of None \<Rightarrow> q | Some t \<Rightarrow> q_unpin t q)"

definition snapshot ::
  "(byte list \<Rightarrow> string) \<Rightarrow> schedule \<Rightarrow> (string, json) dict \<Rightarrow> writer_id \<Rightarrow> bool \<Rightarrow> rat \<Rightarrow>
     observer \<times> queue \<Rightarrow> (adapter_error + snap) \<times> observer \<times> queue" where
  "snapshot sha256 sch layout identity copy drain_seconds = (\<lambda>(obs, q).
     if \<not> o_enabled obs \<or> o_stopped obs then (Inl (AdapterError ''disabled/stopped''), obs, q)
     else if \<not> (0 < drain_seconds \<and> drain_seconds \<le> 2)
     then (Inl (AdapterError ''invalid deadline/mode''), obs, q)
     else case admit layout of
       Inl e \<Rightarrow> (Inl e, obs, q)
     | Inr _ \<Rightarrow>
         if length (o_snapshots obs) \<ge> SLOT_COUNT
         then (Inl (AdapterError ''snapshot budget''), obs\<lparr>o_stopped := True\<rparr>, q)
         else
           let n = length (o_snapshots obs) in
           (case snap_try sch copy drain_seconds (nat (jint layout ''length''))
                   (nat (jint layout ''mv_offset'')) identity (o_slots obs ! n) q of
              (token, Inl m, slot, q1) \<Rightarrow>
                (Inl (AdapterError m), obs\<lparr>o_stopped := True, o_slots := (o_slots obs)[n := slot]\<rparr>,
                 unpin_opt token (env_run (sch_gap sch 6) (q_stop (env_run (sch_gap sch 5) q1))))
            | (token, Inr elapsed, slot, q1) \<Rightarrow>
                let result = \<lparr>s_identity = identity, s_copy = copy,
                      s_bytes = (if copy then SLOT_SIZE else 0), s_elapsed = elapsed,
                      s_sha256 = (if copy then Some (sha256 slot) else None)\<rparr> in
                (Inr result,
                 obs\<lparr>o_slots := (o_slots obs)[n := slot], o_snapshots := o_snapshots obs @ [result]\<rparr>,
                 unpin_opt token (env_run (sch_gap sch 6) q1))))"

subsection \<open>Runs of the observer as interleavings\<close>

definition obs_inv :: "observer \<Rightarrow> bool" where
  "obs_inv obs \<longleftrightarrow> length (o_slots obs) = SLOT_COUNT \<and>
     list_all (\<lambda>s. length s = SLOT_SIZE) (o_slots obs) \<and> length (o_snapshots obs) \<le> SLOT_COUNT"

lemma obs_inv_init: "obs_inv (observer_init e)"
  by (simp add: obs_inv_def observer_init_def list_all_iff)

lemma env_run_append: "env_run (xs @ ys) q = env_run ys (env_run xs q)"
  by (simp add: env_run_def)

lemma env_run_Cons: "env_run (op # ops) q = env_run ops (env_step op q)"
  by (simp add: env_run_def)

lemma env_run_single: "env_run [op] q = env_step op q"
  by (simp add: env_run_def)

lemma qthen_Inr:
  "qthen r gap f = (Inr y, q') \<longleftrightarrow> (\<exists>x q. r = (Inr x, q) \<and> f (env_run gap q) = (Inr y, q'))"
  by (auto simp: qthen_def split: prod.splits sum.splits)

lemma q_validate_Inr:
  assumes "q_validate t i q = (Inr u, q')"
  shows "q' = q" "q_live q" "q_paused q" "q_inflight q = []" "q_held q t = Some i"
  using assms by (auto simp: q_validate_def q_held_def split: if_splits)

lemma snap_quiesce_Inr:
  assumes "snap_quiesce sch s t i q = (Inr u, q')"
  obtains ops where "q' = env_run ops q" "q_validate t i q' = (Inr (), q')"
proof -
  obtain q1 q2 where q1: "q_pause q = (Inr (), q1)"
    and q2: "q_drain (sch_start sch) s (sch_wakeups sch) (env_run (sch_gap sch 1) q1) = (Inr (), q2)"
    and v: "q_validate t i (env_run (sch_gap sch 2) q2) = (Inr (), q')"
    using assms by (auto simp: snap_quiesce_def qthen_Inr)
  have "q1 = env_step Pause q" using q1 by simp
  moreover obtain ops where "q2 = env_run ops (env_run (sch_gap sch 1) q1)"
    using q2 drain_loop_run [of "sch_wakeups sch" "sch_start sch + s" "env_run (sch_gap sch 1) q1"]
    by (auto simp: q_drain_def split: if_splits)
  moreover have "q' = env_run (sch_gap sch 2) q2" by (rule q_validate_Inr [OF v])
  ultimately show thesis
    using v by (intro that [of "[Pause] @ sch_gap sch 1 @ ops @ sch_gap sch 2"])
      (simp_all add: env_run_append env_run_Cons del: env_step.simps)
qed

lemma snap_release_Inr:
  assumes "snap_release sch t i q = (Inr u, q')"
  shows "q' = env_run (sch_gap sch 4 @ [Resume]) q" and "q_validate t i q = (Inr (), q)"
  using assms
  by (auto simp: snap_release_def qthen_Inr env_run_append env_run_single dest: q_validate_Inr(1))

lemma copy_into_Inr:
  assumes "copy_into c m slot = (Inr u, slot')"
  shows "slot' = c @ m" "length slot' = length slot"
  using assms by (auto simp: copy_into_def Let_def split: if_splits)

lemma copy_into_length: "length (snd (copy_into c m slot)) = length slot"
  by (auto simp: copy_into_def Let_def)

lemma snap_body_slot: "length (fst (snd (snap_body sch copy s t i c m slot q))) = length slot"
  by (auto simp: snap_body_def Let_def copy_into_length [of c m slot, symmetric]
      split: prod.splits sum.splits)

lemma snap_body_Inr:
  assumes "snap_body sch copy s t i c m slot q = (Inr el, slot', q')"
  obtains ops1 ops2 qv where "qv = env_run ops1 q" "q_validate t i qv = (Inr (), qv)"
    "q' = env_run ops2 qv" "0 \<le> el" "el \<le> 2 / 100" "copy \<longrightarrow> slot' = c @ m"
proof -
  obtain q1 where q1: "snap_quiesce sch s t i q = (Inr (), q1)"
    and r: "snap_release sch t i (env_run (sch_gap sch 3) q1) = (Inr (), q')"
    and el: "0 \<le> el" "el \<le> 2 / 100" and c: "copy \<longrightarrow> copy_into c m slot = (Inr (), slot')"
    using assms by (auto simp: snap_body_def Let_def split: prod.splits sum.splits if_splits)
  obtain ops where ops: "q1 = env_run ops q" by (rule snap_quiesce_Inr [OF q1])
  show thesis
    by (rule that [of "env_run (sch_gap sch 3) q1" "ops @ sch_gap sch 3" "sch_gap sch 4 @ [Resume]"])
      (use el c copy_into_Inr snap_release_Inr [OF r] ops in \<open>auto simp: env_run_append\<close>)
qed

lemma admit_extents:
  assumes "admit layout = Inr u"
  shows "nat (jint layout ''length'') \<in> {345600, 368128}"
    and "nat (jint layout ''mv_offset'') = nat (jint layout ''length'') - MV"
  using assms by (auto simp: admit_def res_simps MV_def)

lemma snapshot_Inr:
  assumes "snapshot sha256 sch layout i copy s (obs, q) = (Inr r, obs', q')"
  obtains slot el token q1 where "o_enabled obs" "\<not> o_stopped obs" "admit layout = Inr ()"
    "length (o_snapshots obs) < SLOT_COUNT"
    "snap_try sch copy s (nat (jint layout ''length'')) (nat (jint layout ''mv_offset'')) i
       (o_slots obs ! length (o_snapshots obs)) q = (token, Inr el, slot, q1)"
    "r = \<lparr>s_identity = i, s_copy = copy, s_bytes = (if copy then SLOT_SIZE else 0), s_elapsed = el,
       s_sha256 = (if copy then Some (sha256 slot) else None)\<rparr>"
    "obs' = obs\<lparr>o_slots := (o_slots obs)[length (o_snapshots obs) := slot],
       o_snapshots := o_snapshots obs @ [r]\<rparr>"
    "q' = unpin_opt token (env_run (sch_gap sch 6) q1)"
  using assms
  by (auto simp: snapshot_def Let_def split: if_splits sum.splits prod.splits)

lemma snap_try_Inr:
  assumes "snap_try sch copy s n mv i slot q = (token, Inr el, slot', q')"
  obtains plane q1 where "q_pin i n q = (Inr (q_next_pin q, plane), q1)" "token = Some (q_next_pin q)"
    "snap_body sch copy s (q_next_pin q) i (take COMP_SIZE (drop COMP_START plane))
       (take (n - mv) (drop mv plane)) slot (env_run (sch_gap sch 0) q1) = (Inr el, slot', q')"
proof -
  obtain t plane q1 where p: "q_pin i n q = (Inr (t, plane), q1)"
    and b: "token = Some t" "snap_body sch copy s t i (take COMP_SIZE (drop COMP_START plane))
       (take (n - mv) (drop mv plane)) slot (env_run (sch_gap sch 0) q1) = (Inr el, slot', q')"
    using assms by (auto simp: snap_try_def split: prod.splits sum.splits)
  have "t = q_next_pin q" by (rule q_pin_InrE [OF p])
  with p b that show thesis by blast
qed

subsection \<open>Properties\<close>

text \<open>
  C7. A snapshot that succeeds is an interleaving of atomic queue calls (its own and those of other
  threads) that passes through a state in which the queue was live, paused and had no job in flight,
  the observer's pin was held and the pinned allocation still had the identified writer and the
  admitted length. The digest is of exactly the compressed range and the motion-vector range of that
  allocation, copied within 20 ms, and afterwards the pin is gone. No assumption is made about what
  the other threads do, not even that they leave the observer's pin alone.
\<close>
theorem snapshot_reads_quiescent_writer:
  assumes "q_inv q" and "snapshot sha256 sch layout i copy s (obs, q) = (Inr r, obs', q')"
  shows "\<exists>pre post qv al.
     qv = env_run pre q \<and> q' = env_run post qv \<and>
     q_live qv \<and> q_paused qv \<and> q_inflight qv = [] \<and> dget (q_pins qv) (q_next_pin q) = Some i \<and>
     dget (q_allocations q) (wid_allocation i) = Some al \<and>
     dget (q_allocations qv) (wid_allocation i) = Some al \<and> a_writer al = Some i \<and>
     length (a_data al) = nat (jint layout ''length'') \<and>
     0 \<le> s_elapsed r \<and> s_elapsed r \<le> 2 / 100 \<and>
     (copy \<longrightarrow> s_sha256 r = Some (sha256 (take 177152 (drop 161280 (a_data al)) @
        drop (length (a_data al) - 7168) (a_data al)))) \<and>
     dget (q_pins q') (q_next_pin q) = None"
proof -
  let ?L = "nat (jint layout ''length'')"
  obtain slot el token q5 where adm: "admit layout = Inr ()"
    and tr: "snap_try sch copy s ?L (nat (jint layout ''mv_offset'')) i
       (o_slots obs ! length (o_snapshots obs)) q = (token, Inr el, slot, q5)"
    and r: "r = \<lparr>s_identity = i, s_copy = copy, s_bytes = (if copy then SLOT_SIZE else 0),
       s_elapsed = el, s_sha256 = (if copy then Some (sha256 slot) else None)\<rparr>"
    and q': "q' = unpin_opt token (env_run (sch_gap sch 6) q5)"
    by (rule snapshot_Inr [OF assms(2)])
  let ?t = "q_next_pin q"
  obtain plane q1 where pin: "q_pin i ?L q = (Inr (?t, plane), q1)" and t: "token = Some ?t"
    and body: "snap_body sch copy s ?t i (take COMP_SIZE (drop COMP_START plane))
       (take (?L - nat (jint layout ''mv_offset'')) (drop (nat (jint layout ''mv_offset'')) plane))
       (o_slots obs ! length (o_snapshots obs)) (env_run (sch_gap sch 0) q1) = (Inr el, slot, q5)"
    by (rule snap_try_Inr [OF tr])
  obtain al where al: "dget (q_allocations q) (wid_allocation i) = Some al" "a_writer al = Some i"
      "a_data al = plane" "length plane = ?L"
    and q1: "q1 = q\<lparr>q_next_pin := q_next_pin q + 1, q_pins := dset (q_next_pin q) i (q_pins q)\<rparr>"
    by (rule q_pin_InrE [OF pin])
  have step: "q1 = env_run [Pin i ?L] q" and inv1: "q_inv q1"
    using pin q_inv_pin [OF assms(1), of i ?L] by (simp_all add: env_run_single)
  obtain ops1 ops2 qv where qv: "qv = env_run ops1 (env_run (sch_gap sch 0) q1)"
    and val: "q_validate ?t i qv = (Inr (), qv)" and q5: "q5 = env_run ops2 qv"
    and el: "0 \<le> el" "el \<le> 2 / 100"
    and slot: "copy \<longrightarrow> slot = take COMP_SIZE (drop COMP_START plane) @
       take (?L - nat (jint layout ''mv_offset'')) (drop (nat (jint layout ''mv_offset'')) plane)"
    by (rule snap_body_Inr [OF body])
  have "q_view qv i = q_view q1 i"
    using fq.still_held [OF inv1, of ?t i "sch_gap sch 0 @ ops1"] q_validate_Inr(5) [OF val]
    by (simp add: qv q1 env_run_def q_issued_def q_held_def)
  then have "dget (q_allocations qv) (wid_allocation i) = Some al"
    using al by (auto simp: q_view_def q1 split: option.splits if_splits)
  moreover have "q' = env_run (ops2 @ sch_gap sch 6 @ [Unpin ?t]) qv"
    by (simp add: q' t q5 env_run_append env_run_single unpin_opt_def)
  moreover have "qv = env_run ([Pin i ?L] @ sch_gap sch 0 @ ops1) q"
    by (simp add: qv step env_run_def)
  moreover have "copy \<longrightarrow> slot = take 177152 (drop 161280 plane) @ drop (length plane - 7168) plane"
    using slot al(4) admit_extents [OF adm] by (auto simp: extent_defs)
  moreover have "dget (q_pins q') ?t = None"
    by (simp add: q' t unpin_opt_def q_unpin_def)
  ultimately show ?thesis
    using al el r q_validate_Inr [OF val]
    by (intro exI [of _ "[Pin i ?L] @ sch_gap sch 0 @ ops1"]
        exI [of _ "ops2 @ sch_gap sch 6 @ [Unpin ?t]"] exI [of _ qv] exI [of _ al])
      (auto simp: q_held_def)
qed

definition quiet :: schedule where
  "quiet = \<lparr>sch_gap = (\<lambda>n. if n = 1 then [Submit 0 7 None, Release 0] else []), sch_start = 0,
     sch_wakeups = [], sch_clock1 = 0, sch_clock2 = 1 / 100\<rparr>"

definition sample_layout :: "(string, json) dict" where
  "sample_layout = [(''width'', JInt 448), (''height'', JInt 240), (''length'', JInt 345600),
     (''comp_start'', JInt 161280), (''comp_size'', JInt 177152), (''mv_offset'', JInt 338432),
     (''mv_size'', JInt 7168)]"

lemma sample_layout_admit: "admit sample_layout = Inr ()"
  by code_simp

lemma sample_layout_ints: "jint sample_layout ''length'' = 345600" "jint sample_layout ''mv_offset'' = 338432"
  by code_simp+

lemma sample_body:
  "snap_body quiet True 2 1 sample_writer (replicate 177152 0) (replicate 7168 0)
     (replicate SLOT_SIZE 0) (sample_queue\<lparr>q_next_pin := 2, q_pins := [(1, sample_writer)]\<rparr>) =
   (Inr (1 / 100), replicate 177152 0 @ replicate 7168 0,
    sample_queue\<lparr>q_next_pin := 2, q_pins := [(1, sample_writer)]\<rparr>)"
  by (simp add: snap_body_def snap_quiesce_def snap_release_def qthen_def quiet_def env_run_def
      q_pause_def q_drain_def drain_loop.simps q_validate_def q_resume_def q_submit_def q_release_def
      pinned_alloc_def dany_def dhas_def q_live_def sample_queue_eq copy_into_def extent_defs)
    (simp add: sample_writer_def)

theorem snapshot_reads_quiescent_writer_witness:
  "\<exists>r obs' q'. snapshot (\<lambda>_. ''h'') quiet sample_layout sample_writer True 2
       (observer_init True, sample_queue) = (Inr r, obs', q') \<and>
     0 \<le> s_elapsed r \<and> s_elapsed r \<le> 2 / 100 \<and> dget (q_pins q') 1 = None"
proof -
  let ?run = "snapshot (\<lambda>_. ''h'') quiet sample_layout sample_writer True 2 (observer_init True, sample_queue)"
  have slot: "o_slots (observer_init True) ! 0 = replicate SLOT_SIZE 0"
    by (simp add: observer_init_def SLOT_COUNT_def)
  have slices: "take COMP_SIZE (drop COMP_START zero_plane) = replicate 177152 0"
      "take (345600 - 338432) (drop 338432 zero_plane) = replicate 7168 0"
    by (simp_all add: zero_plane_def extent_defs)
  have "snap_try quiet True 2 345600 338432 sample_writer (replicate SLOT_SIZE 0) sample_queue =
      (Some 1, Inr (1 / 100), replicate 177152 0 @ replicate 7168 0,
       sample_queue\<lparr>q_next_pin := 2, q_pins := [(1, sample_writer)]\<rparr>)"
    unfolding snap_try_def sample_pin using sample_body slices
    by (simp add: quiet_def env_run_def)
  then have "\<exists>r obs' q'. ?run = (Inr r, obs', q')"
    by (simp add: snapshot_def sample_layout_admit sample_layout_ints slot SLOT_COUNT_def Let_def
        observer_init_def)
  then obtain r obs' q' where run: "?run = (Inr r, obs', q')" by blast
  then show ?thesis
    using snapshot_reads_quiescent_writer [OF sample_queue_inv run] by (auto simp: sample_queue_eq)
qed

lemma snap_try_slot: "snap_try sch copy s n mv i slot q = (tok, r, slot', q') \<Longrightarrow> length slot' = length slot"
  by (auto simp: snap_try_def split: prod.splits sum.splits)
    (metis snap_body_slot fst_conv snd_conv)

lemma obs_inv_slot:
  assumes "obs_inv obs" and "length slot = SLOT_SIZE"
  shows "obs_inv (obs\<lparr>o_slots := (o_slots obs)[n := slot]\<rparr>)"
  using assms set_update_subset_insert [of "o_slots obs" n slot]
  by (auto simp: obs_inv_def list_all_iff)

lemma qthen_inv:
  "q_inv (snd r) \<Longrightarrow> (\<And>q. q_inv q \<Longrightarrow> q_inv (snd (f q))) \<Longrightarrow> q_inv (snd (qthen r gap f))"
  by (auto simp: qthen_def env_run_inv split: prod.splits sum.splits)

lemma q_inv_simple:
  "q_inv q \<Longrightarrow> q_inv (snd (q_pause q))" "q_inv q \<Longrightarrow> q_inv (snd (q_validate t i q))"
  "q_inv q \<Longrightarrow> q_inv (snd (q_resume q))" "q_inv q \<Longrightarrow> q_inv (q_stop q)"
  "q_inv q \<Longrightarrow> q_inv (unpin_opt tok q)"
  by (auto simp: q_pause_def q_validate_def q_resume_def q_stop_def unpin_opt_def q_inv_flags
      q_inv_unpin split: option.splits)

lemma snap_quiesce_inv: "q_inv q \<Longrightarrow> q_inv (snd (snap_quiesce sch s t i q))"
  unfolding snap_quiesce_def by (intro qthen_inv q_inv_simple q_inv_drain)

lemma snap_release_inv: "q_inv q \<Longrightarrow> q_inv (snd (snap_release sch t i q))"
  unfolding snap_release_def by (intro qthen_inv q_inv_simple)

lemma snap_body_inv:
  assumes "q_inv q" shows "q_inv (snd (snd (snap_body sch copy s t i c m slot q)))"
proof -
  obtain r1 q1 where 1: "snap_quiesce sch s t i q = (r1, q1)" by fastforce
  have q1: "q_inv q1" using snap_quiesce_inv [OF assms, of sch s t i] 1 by simp
  obtain r2 q2 where 2: "snap_release sch t i (env_run (sch_gap sch 3) q1) = (r2, q2)" by fastforce
  have "q_inv q2" using snap_release_inv [OF env_run_inv [OF q1], of sch t i "sch_gap sch 3"] 2 by simp
  with q1 show ?thesis by (auto simp: snap_body_def 1 2 Let_def split: sum.splits prod.splits)
qed

lemma snap_try_inv:
  assumes "q_inv q" shows "q_inv (snd (snd (snd (snap_try sch copy s n mv i slot q))))"
proof -
  obtain r1 q1 where 1: "q_pin i n q = (r1, q1)" by fastforce
  have "q_inv q1" using q_inv_pin [OF assms, of i n] 1 by simp
  then show ?thesis by (auto simp: snap_try_def 1 snap_body_inv env_run_inv split: sum.splits)
qed

lemma snapshot_off:
  "\<not> o_enabled obs \<or> o_stopped obs \<Longrightarrow>
     snapshot sha256 sch layout i copy s (obs, q) = (Inl (AdapterError ''disabled/stopped''), obs, q)"
  by (simp add: snapshot_def)

lemma snapshot_bad_args:
  assumes "o_enabled obs" "\<not> o_stopped obs" "\<not> (0 < s \<and> s \<le> 2) \<or> admit layout \<noteq> Inr ()"
  shows "\<exists>e. snapshot sha256 sch layout i copy s (obs, q) = (Inl e, obs, q)"
proof (cases "0 < s \<and> s \<le> 2")
  case True
  with assms obtain e where "admit layout = Inl e" by (cases "admit layout") auto
  with True assms show ?thesis by (simp add: snapshot_def)
qed (use assms in \<open>simp add: snapshot_def\<close>)

lemma snapshot_budget:
  assumes "o_enabled obs" "\<not> o_stopped obs" "0 < s \<and> s \<le> 2" "admit layout = Inr ()"
    "length (o_snapshots obs) \<ge> SLOT_COUNT"
  shows "snapshot sha256 sch layout i copy s (obs, q) =
    (Inl (AdapterError ''snapshot budget''), obs\<lparr>o_stopped := True\<rparr>, q)"
  using assms by (simp add: snapshot_def)

lemma snapshot_early:
  assumes "\<not> o_enabled obs \<or> o_stopped obs \<or> \<not> (0 < s \<and> s \<le> 2) \<or> admit layout \<noteq> Inr () \<or>
    length (o_snapshots obs) \<ge> SLOT_COUNT"
  shows "\<exists>e obs'. snapshot sha256 sch layout i copy s (obs, q) = (Inl e, obs', q) \<and>
    obs' \<in> {obs, obs\<lparr>o_stopped := True\<rparr>}"
  using assms snapshot_off snapshot_bad_args snapshot_budget by (metis insertI1 insertI2)

lemma snapshot_inv:
  assumes "obs_inv obs" and "q_inv q" and "snapshot sha256 sch layout i copy s (obs, q) = (r, obs', q')"
  shows "obs_inv obs' \<and> q_inv q'"
proof -
  let ?L = "nat (jint layout ''length'')" and ?n = "length (o_snapshots obs)"
  obtain tok res slot q1 where tr: "snap_try sch copy s ?L (nat (jint layout ''mv_offset'')) i
      (o_slots obs ! ?n) q = (tok, res, slot, q1)"
    by (metis prod_cases4)
  have q1: "q_inv q1"
    using snap_try_inv [OF assms(2), of sch copy s ?L "nat (jint layout ''mv_offset'')" i] tr
    by (metis snd_conv)
  have slot: "length slot = SLOT_SIZE" if "?n < SLOT_COUNT"
    using snap_try_slot [OF tr] assms(1) that by (simp add: obs_inv_def list_all_length)
  have upd: "obs_inv (obs\<lparr>o_slots := (o_slots obs)[?n := slot]\<rparr>)" if "?n < SLOT_COUNT"
    by (rule obs_inv_slot [OF assms(1) slot [OF that]])
  let ?early = "\<not> o_enabled obs \<or> o_stopped obs \<or> \<not> (0 < s \<and> s \<le> 2) \<or> admit layout \<noteq> Inr ()
      \<or> ?n \<ge> SLOT_COUNT"
  show ?thesis
  proof (cases ?early)
    case True
    then have "q' = q \<and> obs' \<in> {obs, obs\<lparr>o_stopped := True\<rparr>}"
      using snapshot_early [of obs s layout] assms(3) by (metis prod.inject)
    with assms show ?thesis by (auto simp: obs_inv_def)
  next
    case False
    with assms upd q1 show ?thesis
      by (cases res) (auto simp: snapshot_def tr Let_def obs_inv_def env_run_inv q_inv_simple)
  qed
qed

text \<open>
  C8. The observer fails closed. A snapshot that raises either was refused by the argument checks and
  changed nothing, or left the observer stopped, recorded no result, and, unless the refusal was the
  snapshot budget, left the queue closed with the observer's pin removed whatever the other threads
  did meanwhile. A stopped observer refuses every later snapshot and touches nothing, and a closed
  queue refuses every later allocation, submission, pin and pause.
\<close>
theorem snapshot_fails_closed:
  assumes "snapshot sha256 sch layout i copy s (obs, q) = (Inl e, obs', q')"
    and "o_enabled obs" and "\<not> o_stopped obs"
  shows "o_snapshots obs' = o_snapshots obs \<and>
    (if \<not> (0 < s \<and> s \<le> 2) \<or> admit layout \<noteq> Inr () then obs' = obs \<and> q' = q
     else o_stopped obs' \<and>
       (\<forall>sha sch' layout' i' copy' s'. snapshot sha sch' layout' i' copy' s' (obs', q') =
          (Inl (AdapterError ''disabled/stopped''), obs', q')) \<and>
       (if length (o_snapshots obs) \<ge> 8 then q' = q
        else q_closed q' \<and>
          (\<forall>t p q1. q_pin i (nat (jint layout ''length'')) q = (Inr (t, p), q1) \<longrightarrow>
             dget (q_pins q') t = None) \<and>
          (\<forall>a g w. fst (q_submit a g w q') = Inl (QueueError ''closed/foreign client'')) \<and>
          (\<forall>i' n. fst (q_pin i' n q') = Inl (QueueError ''closed/foreign client'')) \<and>
          fst (q_pause q') = Inl (QueueError ''closed/foreign client'')))"
proof (cases "\<not> (0 < s \<and> s \<le> 2) \<or> admit layout \<noteq> Inr () \<or> length (o_snapshots obs) \<ge> 8")
  case True
  show ?thesis
  proof (cases "\<not> (0 < s \<and> s \<le> 2) \<or> admit layout \<noteq> Inr ()")
    case True
    with snapshot_bad_args [OF assms(2,3) True, of sha256 sch i copy q] assms(1) show ?thesis by auto
  next
    case False
    with True assms have "obs' = obs\<lparr>o_stopped := True\<rparr>" "q' = q"
      using snapshot_budget [of obs s layout sha256 sch i copy q] by (auto simp: SLOT_COUNT_def)
    with True False show ?thesis by (simp add: snapshot_off)
  qed
next
  case False
  let ?L = "nat (jint layout ''length'')" and ?n = "length (o_snapshots obs)"
  obtain tok res slot q1 where tr: "snap_try sch copy s ?L (nat (jint layout ''mv_offset'')) i
      (o_slots obs ! ?n) q = (tok, res, slot, q1)"
    by (metis prod_cases4)
  obtain m where m: "res = Inl m"
    using assms False tr by (cases res) (auto simp: snapshot_def SLOT_COUNT_def Let_def)
  have obs': "obs' = obs\<lparr>o_stopped := True, o_slots := (o_slots obs)[?n := slot]\<rparr>"
    and q': "q' = unpin_opt tok (env_run (sch_gap sch 6) (q_stop (env_run (sch_gap sch 5) q1)))"
    using assms False tr m by (auto simp: snapshot_def SLOT_COUNT_def Let_def)
  have closed: "q_closed q'"
    unfolding q' by (simp add: unpin_opt_def q_unpin_def env_run_keeps_closed q_stop_def split: option.split)
  moreover have "dget (q_pins q') t = None" if "q_pin i ?L q = (Inr (t, p), q2)" for t p q2
    using tr that by (auto simp: snap_try_def q' unpin_opt_def q_unpin_def)
  ultimately show ?thesis
    using False obs' by (auto simp: snapshot_def q_submit_def q_pin_def q_pause_def q_live_def)
qed

definition late :: schedule where
  "late = quiet\<lparr>sch_clock2 := 1\<rparr>"

theorem snapshot_fails_closed_witness:
  "\<exists>e obs' q'. snapshot (\<lambda>_. ''h'') late sample_layout sample_writer True 2
       (observer_init True, sample_queue) = (Inl e, obs', q') \<and> o_stopped obs' \<and> q_closed q'"
proof -
  let ?run = "snapshot (\<lambda>_. ''h'') late sample_layout sample_writer True 2 (observer_init True, sample_queue)"
  have "\<exists>e obs' q'. ?run = (Inl e, obs', q')"
  proof (cases "fst ?run")
    case (Inl e)
    then show ?thesis by (metis prod.collapse)
  next
    case (Inr r)
    then obtain obs' q' where run: "?run = (Inr r, obs', q')" by (metis prod.collapse)
    obtain token slot q5 el where "snap_try late True 2 (nat (jint sample_layout ''length''))
        (nat (jint sample_layout ''mv_offset'')) sample_writer
        (o_slots (observer_init True) ! length (o_snapshots (observer_init True))) sample_queue =
        (token, Inr el, slot, q5)"
      by (rule snapshot_Inr [OF run])
    then show ?thesis
      by (auto simp: snap_try_def snap_body_def late_def quiet_def Let_def
          split: prod.splits sum.splits if_splits)
  qed
  then obtain e obs' q' where run: "?run = (Inl e, obs', q')" by blast
  show ?thesis
    using snapshot_fails_closed [OF run] run by (simp add: sample_layout_admit observer_init_def)
qed

text \<open>
  The observer's storage is bounded and fixed: from a new observer, whatever the results of the
  snapshots and whatever other threads do, there are always 8 slots of 184320 bytes and at most 8
  recorded snapshots, and the queue invariant is kept.
\<close>
theorem snapshot_keeps_invariants:
  assumes "obs_inv obs" and "q_inv q" and "snapshot sha256 sch layout i copy s (obs, q) = (r, obs', q')"
  shows "obs_inv obs' \<and> q_inv q' \<and> length (o_snapshots obs') \<le> 8"
  using snapshot_inv [OF assms] by (simp add: obs_inv_def SLOT_COUNT_def)

theorem snapshot_keeps_invariants_witness:
  "length (o_snapshots (fst (snd (snapshot (\<lambda>_. ''h'') quiet sample_layout sample_writer True 2
      (observer_init True, sample_queue))))) \<le> 8"
  using snapshot_keeps_invariants [OF obs_inv_init sample_queue_inv] by (metis prod.collapse)

end
