(* ===== verification/Observation.thy ===== *)
theory Observation
  imports Json
begin

text \<open>
  The observation contract of \<open>src/experiments/hevc-reference-memory/observation.py\<close>: one function that
  decides from a JSON record whether a read of reference memory was admissible, and which byte
  ranges it covered. \<open>validate_record\<close> follows the checks in order, so each refusal carries the
  message of the first check that fails.
\<close>

definition MAX_COPY :: int where "MAX_COPY = 184320"
definition MAX_SNAPSHOTS :: int where "MAX_SNAPSHOTS = 8"

definition IDENTITY :: "string list" where
  "IDENTITY = [''run'', ''context'', ''allocation'', ''generation'', ''picture'', ''poc'']"

definition FIELDS :: "string list" where
  "FIELDS = [''enabled'', ''identity_before'', ''identity_after'', ''width'', ''height'', ''depth'',
     ''length'', ''comp_start'', ''comp_size'', ''mv_offset'', ''mv_size'', ''completed'',
     ''quiescent'', ''inflight_readers'', ''retained'', ''mapping_readable'',
     ''allocation_policy'', ''provenance_verified'', ''copy_budget'', ''snapshot_count'',
     ''elapsed_us'', ''error'', ''overflow'', ''context_kind'']"

definition BOOL_FIELDS :: "string list" where
  "BOOL_FIELDS = [''enabled'', ''completed'', ''quiescent'', ''retained'', ''mapping_readable'',
     ''provenance_verified'', ''error'', ''overflow'']"

definition INT_FIELDS :: "string list" where
  "INT_FIELDS = [''width'', ''height'', ''depth'', ''length'', ''comp_start'', ''comp_size'',
     ''mv_offset'', ''mv_size'', ''inflight_readers'', ''copy_budget'', ''snapshot_count'',
     ''elapsed_us'']"

datatype value_error = ValueError string

record observed =
  ob_bytes :: int
  ob_ranges :: "(int \<times> int) list"

definition u32 :: "json \<Rightarrow> bool" where
  "u32 v \<longleftrightarrow> (case v of JInt i \<Rightarrow> 0 \<le> i \<and> i \<le> 0xffffffff | _ \<Rightarrow> False)"

definition check_identity :: "json \<Rightarrow> value_error + unit" where
  "check_identity v =
     (case v of
        JObj d \<Rightarrow>
          rbind (need (ValueError ''incomplete identity'') (keys_are d IDENTITY)) (\<lambda>_.
          rbind (rall (\<lambda>key. need (ValueError ''invalid run/context identity'')
                   (case jv d key of JStr s \<Rightarrow> 1 \<le> length s \<and> length s \<le> 64 | _ \<Rightarrow> False))
                 [''run'', ''context'']) (\<lambda>_.
          rbind (rall (\<lambda>key. need (ValueError ''invalid allocation/writer identity'') (u32 (jv d key)))
                 [''allocation'', ''generation'', ''picture'']) (\<lambda>_.
          need (ValueError ''invalid POC'')
            (case jv d ''poc'' of JInt i \<Rightarrow> - (2 ^ 31) \<le> i \<and> i < 2 ^ 31 | _ \<Rightarrow> False))))
      | _ \<Rightarrow> Inl (ValueError ''incomplete identity''))"

definition check_layout :: "(string, json) dict \<Rightarrow> value_error + observed" where
  "check_layout r =
     rbind (need (ValueError ''outside bounded initial observation geometry'')
       ((jint r ''width'', jint r ''height'', jint r ''depth'') = (448, 240, 8))) (\<lambda>_.
     rbind (need (ValueError ''layout differs from pinned C and accepted window'')
       ((jint r ''comp_start'', jint r ''comp_size'', jint r ''mv_size'') = (161280, 177152, 7168))) (\<lambda>_.
     rbind (need (ValueError ''wrong MV/plane extent'')
       (jint r ''length'' \<in> {345600, 368128} \<and>
        jint r ''mv_offset'' = jint r ''length'' - jint r ''mv_size'')) (\<lambda>_.
     rbind (need (ValueError ''overlapping ranges'')
       (\<not> jint r ''comp_start'' + jint r ''comp_size'' > jint r ''mv_offset'')) (\<lambda>_.
     let size = jint r ''comp_size'' + jint r ''mv_size'' in
     rbind (need (ValueError ''observation budget exceeded'')
       (size \<le> jint r ''copy_budget'' \<and> jint r ''copy_budget'' \<le> MAX_COPY \<and>
        1 \<le> jint r ''snapshot_count'' \<and> jint r ''snapshot_count'' \<le> MAX_SNAPSHOTS)) (\<lambda>_.
     rbind (need (ValueError ''copy deadline exceeded'') (\<not> jint r ''elapsed_us'' > 20000)) (\<lambda>_.
     Inr \<lparr>ob_bytes = size,
          ob_ranges = [(jint r ''comp_start'', jint r ''comp_start'' + jint r ''comp_size''),
                       (jint r ''mv_offset'', jint r ''length'')]\<rparr>))))))"

definition validate_record :: "json \<Rightarrow> value_error + observed" where
  "validate_record v =
     (case v of
        JObj r \<Rightarrow>
          rbind (need (ValueError ''missing/unknown contract fields'') (keys_are r FIELDS)) (\<lambda>_.
          rbind (rall (\<lambda>key. need (ValueError (''non-boolean contract field: '' @ key))
                   (is_bool (jv r key))) BOOL_FIELDS) (\<lambda>_.
          rbind (rall (\<lambda>key. need (ValueError (''invalid integer: '' @ key)) (u32 (jv r key)))
                 INT_FIELDS) (\<lambda>_.
          rbind (need (ValueError ''disabled/error/overflow'')
            (\<not> (\<not> jbool r ''enabled'' \<or> jbool r ''error'' \<or> jbool r ''overflow''))) (\<lambda>_.
          rbind (need (ValueError ''unproved CPU/lifetime/quiescence contract'')
            (\<not> (\<not> py_eq (jv r ''context_kind'') (JStr ''process'') \<or>
               \<not> list_all (jbool r) [''completed'', ''quiescent'', ''retained'',
                  ''mapping_readable'', ''provenance_verified'']))) (\<lambda>_.
          rbind (need (ValueError ''reference reader still in flight'')
            (\<not> jint r ''inflight_readers'' \<noteq> 0)) (\<lambda>_.
          rbind (need (ValueError ''cacheable/unknown exporter is blocked at current pin'')
            (py_eq (jv r ''allocation_policy'') (JStr ''verified-coherent-noncached''))) (\<lambda>_.
          rbind (rall (\<lambda>name. check_identity (jv r name))
                 [''identity_before'', ''identity_after'']) (\<lambda>_.
          rbind (need (ValueError ''writer/run identity changed across observation'')
            (py_eq (jv r ''identity_before'') (jv r ''identity_after''))) (\<lambda>_.
          check_layout r)))))))))
      | _ \<Rightarrow> Inl (ValueError ''missing/unknown contract fields''))"

subsection \<open>What acceptance means\<close>

definition identity_field_eq :: "(string, json) dict \<Rightarrow> (string, json) dict \<Rightarrow> string \<Rightarrow> bool" where
  "identity_field_eq b a k \<longleftrightarrow> (\<exists>v. dget b k = Some v \<and> dget a k = Some v)"

definition identity_type_ok :: "string \<Rightarrow> json \<Rightarrow> bool" where
  "identity_type_ok k v \<longleftrightarrow> (if k \<in> {''run'', ''context''} then is_str v else is_int v)"

lemma check_identity_JObj:
  assumes "check_identity (JObj d) = Inr u" and "k \<in> set IDENTITY"
  obtains v where "dget d k = Some v" "identity_type_ok k v"
proof -
  have str: "is_str x" if "(case x of JStr s \<Rightarrow> 1 \<le> length s \<and> length s \<le> 64 | _ \<Rightarrow> False)" for x
    using that by (cases x) auto
  have u32: "is_int x" if "u32 x" for x using that by (cases x) (auto simp: u32_def)
  have poc: "is_int x" if "(case x of JInt i \<Rightarrow> - (2 ^ 31) \<le> i \<and> i < 2 ^ 31 | _ \<Rightarrow> False)" for x
    using that by (cases x) auto
  have "keys_are d IDENTITY" using assms by (auto simp: check_identity_def res_simps)
  with assms(2) obtain v where v: "dget d k = Some v" by (blast dest: keys_are_dget)
  have "identity_type_ok k (jv d k)"
    using assms unfolding check_identity_def
    by (auto simp: res_simps IDENTITY_def identity_type_ok_def intro: str u32 poc)
  then show thesis using v by (intro that) (simp_all add: jv_def)
qed

lemma identity_type_ok_eq:
  "identity_type_ok k v \<Longrightarrow> identity_type_ok k w \<Longrightarrow> py_eq v w \<Longrightarrow> v = w"
  by (auto simp: identity_type_ok_def is_str_iff is_int_iff split: if_splits)

lemma identity_fields_agree:
  assumes b: "check_identity (JObj b) = Inr u" and a: "check_identity (JObj a) = Inr u'"
    and eq: "py_eq (JObj b) (JObj a)" and ok: "dict_ok b" "dict_ok a"
  shows "\<forall>k \<in> set IDENTITY. identity_field_eq b a k"
proof
  fix k assume k: "k \<in> set IDENTITY"
  obtain x where x: "dget b k = Some x" "identity_type_ok k x" by (rule check_identity_JObj [OF b k])
  obtain y where y: "dget a k = Some y" "identity_type_ok k y" by (rule check_identity_JObj [OF a k])
  have "py_eq x y" using py_eq_JObjD [OF eq ok, of k] x y by simp
  then have "x = y" using identity_type_ok_eq x(2) y(2) by blast
  with x y show "identity_field_eq b a k" by (auto simp: identity_field_eq_def)
qed

lemma check_layout_sound:
  assumes "check_layout r = Inr ob"
  shows "ob_bytes ob = MAX_COPY" and "ob_bytes ob = (\<Sum>(lo, hi)\<leftarrow>ob_ranges ob. hi - lo)"
    and "\<forall>(lo, hi) \<in> set (ob_ranges ob). 0 \<le> lo \<and> lo < hi \<and> hi \<le> jint r ''length''"
    and "sorted_wrt (\<lambda>(a, b) (c, d). b \<le> c) (ob_ranges ob)" and "jint r ''elapsed_us'' \<le> 20000"
    and "ob_ranges ob = [(161280, 338432), (jint r ''length'' - 7168, jint r ''length'')]"
    and "jint r ''comp_start'' = 161280 \<and> jint r ''comp_size'' = 177152 \<and> jint r ''mv_offset'' = jint r ''length'' - 7168 \<and>
      jint r ''length'' \<in> {345600, 368128}"
  using assms by (auto simp: check_layout_def res_simps Let_def MAX_COPY_def)

lemma validate_record_parts:
  assumes "validate_record (JObj r) = Inr ob"
  shows "check_layout r = Inr ob"
    and "check_identity (jv r ''identity_before'') = Inr ()"
    and "check_identity (jv r ''identity_after'') = Inr ()"
    and "py_eq (jv r ''identity_before'') (jv r ''identity_after'')"
    and "u32 (jv r ''inflight_readers'')" and "jint r ''inflight_readers'' = 0"
    and "list_all (\<lambda>k. is_bool (jv r k)) BOOL_FIELDS"
    and "list_all (jbool r) [''enabled'', ''completed'', ''quiescent'', ''retained'', ''mapping_readable'', ''provenance_verified'']"
    and "\<not> jbool r ''error''" and "\<not> jbool r ''overflow''"
  using assms
  unfolding validate_record_def json.case rbind_Inr need_Inr rall_Inr BOOL_FIELDS_def INT_FIELDS_def
  by (elim exE conjE; simp)+

lemma check_identity_obj:
  assumes "check_identity v = Inr u" shows "\<exists>d. v = JObj d"
  using assms by (cases v) (simp_all add: check_identity_def)

text \<open>
  C11. A record the contract checker accepts describes a read of exactly two ranges: the compressed
  data, bytes 161280 to 338432, and the motion vectors, the last 7168 bytes of a plane of 345600 or
  368128 bytes. They are non-empty, ordered, disjoint and inside the plane, and have 184320 bytes
  together, which is the copy budget. The read was within 20 ms, enabled, without error or overflow,
  after completion, with the queue quiescent, the buffer retained and readable, its provenance verified
  and no reader in flight, and the six identity fields were the same before and after. The dicts of a
  Python record have each key once (the hypothesis on \<open>dict_ok\<close>).
\<close>
theorem observation_sound:
  assumes acc: "validate_record (JObj r) = Inr ob"
    and ok: "\<And>k d. dget r k = Some (JObj d) \<Longrightarrow> dict_ok d"
  shows "ob_ranges ob = [(161280, 338432), (jint r ''length'' - 7168, jint r ''length'')] \<and>
    jint r ''comp_start'' = 161280 \<and> jint r ''comp_size'' = 177152 \<and> jint r ''mv_offset'' = jint r ''length'' - 7168 \<and>
    jint r ''length'' \<in> {345600, 368128} \<and>
    ob_bytes ob = MAX_COPY \<and> ob_bytes ob = (\<Sum>(lo, hi)\<leftarrow>ob_ranges ob. hi - lo) \<and>
    (\<forall>(lo, hi) \<in> set (ob_ranges ob). 0 \<le> lo \<and> lo < hi \<and> hi \<le> jint r ''length'') \<and>
    sorted_wrt (\<lambda>(a, b) (c, d). b \<le> c) (ob_ranges ob) \<and> jint r ''elapsed_us'' \<le> 20000 \<and>
    (\<forall>k \<in> {''enabled'', ''completed'', ''quiescent'', ''retained'', ''mapping_readable'', ''provenance_verified''}.
       jv r k = JBool True) \<and>
    jv r ''error'' = JBool False \<and> jv r ''overflow'' = JBool False \<and> jv r ''inflight_readers'' = JInt 0 \<and>
    (\<exists>b a. jv r ''identity_before'' = JObj b \<and> jv r ''identity_after'' = JObj a \<and>
       (\<forall>k \<in> set IDENTITY. identity_field_eq b a k))"
proof -
  note parts = validate_record_parts [OF acc]
  obtain b a where b: "jv r ''identity_before'' = JObj b" and a: "jv r ''identity_after'' = JObj a"
    using check_identity_obj parts(2,3) by metis
  have "dict_ok b" "dict_ok a" using a b ok by (auto simp: jv_def split: option.splits)
  then have same: "\<forall>k \<in> set IDENTITY. identity_field_eq b a k"
    using identity_fields_agree parts(2-4) unfolding a b by blast
  have readers: "jv r ''inflight_readers'' = JInt 0"
    using parts(5,6) by (auto simp: u32_def jint_def split: json.splits)
  have flag: "jv r k = JBool (jbool r k)" if "k \<in> set BOOL_FIELDS" for k
    using parts(7) that by (intro jbool_is_bool) (simp add: list_all_iff)
  have yes: "\<forall>k \<in> {''enabled'', ''completed'', ''quiescent'', ''retained'', ''mapping_readable'', ''provenance_verified''}.
      jv r k = JBool True"
    using parts(8) by (auto simp: flag BOOL_FIELDS_def)
  have no: "jv r ''error'' = JBool False" "jv r ''overflow'' = JBool False"
    using parts(9,10) by (simp_all add: flag BOOL_FIELDS_def)
  note lay = check_layout_sound [OF parts(1)]
  from lay(1-6) lay(7) yes no readers same show ?thesis unfolding a b
    by (intro conjI exI [of _ b] exI [of _ a] refl) blast+
qed

definition sample_identity :: json where
  "sample_identity = JObj [(''run'', JStr ''r''), (''context'', JStr ''c''), (''allocation'', JInt 1),
     (''generation'', JInt 2), (''picture'', JInt 3), (''poc'', JInt (-1))]"

definition sample_record :: "(string, json) dict" where
  "sample_record = map (\<lambda>k. (k, JBool True)) [''enabled'', ''completed'', ''quiescent'', ''retained'',
       ''mapping_readable'', ''provenance_verified''] @
     [(''error'', JBool False), (''overflow'', JBool False), (''context_kind'', JStr ''process''),
      (''identity_before'', sample_identity), (''identity_after'', sample_identity),
      (''width'', JInt 448), (''height'', JInt 240), (''depth'', JInt 8), (''length'', JInt 345600),
      (''comp_start'', JInt 161280), (''comp_size'', JInt 177152), (''mv_offset'', JInt 338432),
      (''mv_size'', JInt 7168), (''inflight_readers'', JInt 0),
      (''allocation_policy'', JStr ''verified-coherent-noncached''), (''copy_budget'', JInt 184320),
      (''snapshot_count'', JInt 1), (''elapsed_us'', JInt 900)]"

theorem observation_sound_witness:
  "\<exists>ob. validate_record (JObj sample_record) = Inr ob \<and> ob_bytes ob = MAX_COPY \<and> jv sample_record ''retained'' = JBool True \<and>
     ob_ranges ob = [(161280, 338432), (338432, 345600)]"
proof -
  let ?ob = "\<lparr>ob_bytes = 184320, ob_ranges = [(161280, 338432), (338432, 345600)]\<rparr>"
  have "validate_record (JObj sample_record) = Inr ?ob" by code_simp
  moreover have "dict_ok d" if "dget sample_record k = Some (JObj d)" for k d
  proof -
    have "JObj d \<in> snd ` set sample_record" using that map_of_SomeD by force
    then have "JObj d = sample_identity" by (auto simp: sample_record_def)
    then show ?thesis by (simp add: sample_identity_def dict_ok_def)
  qed
  ultimately show ?thesis using observation_sound [of sample_record ?ob] by auto
qed

end
