(* ===== verification/Vp9_Geometry.thy ===== *)
theory Vp9_Geometry
  imports Prelude
begin

text \<open>
  The size arithmetic of \<open>src/experiments/vp9-state/model.py\<close>: alignment, the compressed tile
  layout and the plane sizes. Sizes are natural numbers, as every width and height that reaches this
  code was checked to be a non-negative integer.
\<close>

definition ALIGN_W :: nat where "ALIGN_W = 64"
definition ALIGN_H :: nat where "ALIGN_H = 16"
definition MIN_DIM :: nat where "MIN_DIM = 64"

definition round_up :: "nat \<Rightarrow> nat \<Rightarrow> nat" where
  "round_up n a = (n + a - 1) div a * a"

definition align :: "nat \<Rightarrow> nat \<Rightarrow> nat" where
  "align n a = round_up n a"

definition div_round_up :: "nat \<Rightarrow> nat \<Rightarrow> nat" where
  "div_round_up n d = (n + d - 1) div d"

fun nat_bit_length :: "nat \<Rightarrow> nat" where
  "nat_bit_length n = (if n = 0 then 0 else Suc (nat_bit_length (n div 2)))"

declare nat_bit_length.simps [simp del]

definition roundup_pow_of_two :: "nat \<Rightarrow> nat" where
  "roundup_pow_of_two n = (if n \<le> 1 then (if n \<noteq> 0 then 1 else 0) else 2 ^ nat_bit_length (n - 1))"

definition calc_tile_meta :: "nat \<Rightarrow> nat \<Rightarrow> nat \<Rightarrow> nat \<Rightarrow> nat \<Rightarrow> nat \<times> nat" where
  "calc_tile_meta w h bpb tile_dim meta_hdr_bytes =
     (let tiles_w = div_round_up w tile_dim;
          tiles_h = div_round_up h tile_dim;
          tile_bytes = tile_dim * tile_dim * div_round_up bpb 8;
          tile = align (tiles_w * tiles_h * tile_bytes) 16;
          meta_w = roundup_pow_of_two tiles_w;
          meta_h = roundup_pow_of_two tiles_h;
          meta = align (meta_w * meta_h * meta_hdr_bytes) 16
      in (tile, meta))"

definition fill_comp :: "nat \<Rightarrow> nat \<Rightarrow> nat \<Rightarrow> nat \<times> nat list" where
  "fill_comp width height bit_depth =
     (let (y, y_meta) = calc_tile_meta width height bit_depth 32 32;
          (uv, uv_meta) = calc_tile_meta (width div 2) (height div 2) (bit_depth * 2) 16 8
      in (y_meta + y + uv_meta + uv, [y, 0, y + y_meta + uv, y + y_meta]))"

definition pixel_plane :: "nat \<Rightarrow> nat \<Rightarrow> nat \<Rightarrow> nat" where
  "pixel_plane width height bit_depth =
     (let bpp = (if bit_depth = 10 then 2 else 1)
      in width * height * bpp + width * height * bpp div 2)"

definition era_sizeimage :: "nat \<Rightarrow> nat \<Rightarrow> nat \<Rightarrow> nat" where
  "era_sizeimage aligned_w aligned_h bit_depth =
     (let (comp_size, offsets) = fill_comp aligned_w aligned_h bit_depth
      in pixel_plane aligned_w aligned_h bit_depth + comp_size)"

definition fourcc_for :: "nat \<Rightarrow> string" where
  "fourcc_for bit_depth = (if bit_depth = 10 then ''P010'' else ''NV12'')"

record era =
  era_id :: nat
  era_width :: nat
  era_height :: nat
  era_bit_depth :: nat
  era_aligned_w :: nat
  era_aligned_h :: nat
  era_fourcc :: string
  era_sizeimg :: nat
  era_comp_size :: nat
  era_comp_offsets :: "nat list"
  era_start_offset :: nat

definition Era :: "nat \<Rightarrow> nat \<Rightarrow> nat \<Rightarrow> nat \<Rightarrow> era" where
  "Era i width height bit_depth =
     (let aligned_w = round_up width ALIGN_W;
          aligned_h = round_up height ALIGN_H;
          (comp_size, comp_offsets) = fill_comp aligned_w aligned_h bit_depth
      in \<lparr>era_id = i, era_width = width, era_height = height, era_bit_depth = bit_depth,
          era_aligned_w = aligned_w, era_aligned_h = aligned_h, era_fourcc = fourcc_for bit_depth,
          era_sizeimg = era_sizeimage aligned_w aligned_h bit_depth,
          era_comp_size = comp_size, era_comp_offsets = comp_offsets,
          era_start_offset = pixel_plane aligned_w aligned_h bit_depth\<rparr>)"

subsection \<open>Rounding\<close>

lemma round_up_dvd: "a dvd round_up n a"
  by (simp add: round_up_def)

lemma round_up_ge: "0 < a \<Longrightarrow> n \<le> round_up n a"
proof -
  assume a: "0 < a"
  have "n + a - 1 = (n + a - 1) div a * a + (n + a - 1) mod a" by simp
  moreover have "(n + a - 1) mod a < a" using a by simp
  ultimately show ?thesis using a unfolding round_up_def by linarith
qed

lemma round_up_less: "0 < a \<Longrightarrow> round_up n a < n + a"
proof -
  assume a: "0 < a"
  have "(n + a - 1) div a * a \<le> n + a - 1" by (rule div_times_less_eq_dividend)
  then show ?thesis using a unfolding round_up_def by linarith
qed

lemma round_up_least:
  assumes "0 < a" "a dvd m" "n \<le> m" shows "round_up n a \<le> m"
proof -
  obtain k l where k: "round_up n a = a * k" and l: "m = a * l"
    using round_up_dvd [of a n] assms(2) by (auto elim!: dvdE)
  have "a * k < a * Suc l" using round_up_less [OF assms(1), of n] assms(3) k l by simp
  then have "k < Suc l" unfolding mult_less_cancel1 by simp
  then show ?thesis using k l by simp
qed

lemma round_up_idem: "0 < a \<Longrightarrow> a dvd n \<Longrightarrow> round_up n a = n"
  using round_up_least [of a n n] round_up_ge [of a n] by simp

lemma nat_bit_length_pos: "0 < n \<Longrightarrow> nat_bit_length n = Suc (nat_bit_length (n div 2))"
  by (simp add: nat_bit_length.simps [of n])

lemma less_pow_bit_length: "n < 2 ^ nat_bit_length n"
proof (induction n rule: less_induct)
  case (less n)
  show ?case
  proof (cases "n = 0")
    case False
    with less have "n div 2 < 2 ^ nat_bit_length (n div 2)" by simp
    with False show ?thesis by (simp add: nat_bit_length_pos)
  qed simp
qed

lemma pow_bit_length_le: "0 < n \<Longrightarrow> 2 ^ nat_bit_length n \<le> 2 * n"
proof (induction n rule: less_induct)
  case (less n)
  show ?case
  proof (cases "n div 2 = 0")
    case True
    with less.prems show ?thesis by (simp add: nat_bit_length_pos nat_bit_length.simps [of 0])
  next
    case False
    with less have "2 ^ nat_bit_length (n div 2) \<le> 2 * (n div 2)" by simp
    also have "\<dots> \<le> n" by simp
    finally show ?thesis using less.prems by (simp add: nat_bit_length_pos)
  qed
qed

lemma roundup_pow_of_two_ge: "n \<le> roundup_pow_of_two n"
  using less_pow_bit_length [of "n - 1"] by (auto simp: roundup_pow_of_two_def)

lemma roundup_pow_of_two_less: "0 < n \<Longrightarrow> roundup_pow_of_two n < 2 * n"
  using pow_bit_length_le [of "n - 1"] by (auto simp: roundup_pow_of_two_def)

lemma roundup_pow_of_two_is_pow: "0 < n \<Longrightarrow> \<exists>k. roundup_pow_of_two n = 2 ^ k"
  by (auto simp: roundup_pow_of_two_def intro: exI [of _ 0])

subsection \<open>The compressed layout\<close>

lemma div_round_up_mult_ge: "0 < d \<Longrightarrow> n \<le> div_round_up n d * d"
  using round_up_ge [of d n] by (simp add: round_up_def div_round_up_def)

lemma calc_tile_meta_covers:
  assumes "calc_tile_meta w h bpb t m = (tile, meta)" and "0 < t"
  shows "16 dvd tile" "16 dvd meta" "w * h * div_round_up bpb 8 \<le> tile"
    "div_round_up w t * div_round_up h t * m \<le> meta"
proof -
  have tile: "tile = align (div_round_up w t * div_round_up h t * (t * t * div_round_up bpb 8)) 16"
    and meta: "meta = align (roundup_pow_of_two (div_round_up w t) *
      roundup_pow_of_two (div_round_up h t) * m) 16"
    using assms(1) by (simp_all add: calc_tile_meta_def Let_def)
  show "16 dvd tile" "16 dvd meta" unfolding tile meta align_def by (rule round_up_dvd)+
  have "w * h * div_round_up bpb 8 \<le>
      (div_round_up w t * t) * (div_round_up h t * t) * div_round_up bpb 8"
    by (intro mult_le_mono1 mult_le_mono div_round_up_mult_ge assms(2))
  also have "\<dots> = div_round_up w t * div_round_up h t * (t * t * div_round_up bpb 8)" by (simp add: ac_simps)
  also have "\<dots> \<le> tile" unfolding tile align_def by (rule round_up_ge) simp
  finally show "w * h * div_round_up bpb 8 \<le> tile" .
  have "div_round_up w t * div_round_up h t * m \<le>
      roundup_pow_of_two (div_round_up w t) * roundup_pow_of_two (div_round_up h t) * m"
    by (intro mult_le_mono1 mult_le_mono roundup_pow_of_two_ge)
  also have "\<dots> \<le> meta" unfolding meta align_def by (rule round_up_ge) simp
  finally show "div_round_up w t * div_round_up h t * m \<le> meta" .
qed

lemma pixel_plane_aligned:
  assumes "64 dvd w" and "16 dvd h" shows "16 dvd pixel_plane w h d"
proof -
  obtain a b where "w = 64 * a" "h = 16 * b" using assms by (auto elim!: dvdE)
  then have "w * h * bpp = 16 * (64 * a * b * bpp)" "w * h * bpp div 2 = 16 * (32 * a * b * bpp)" for bpp
    by simp_all
  then show ?thesis unfolding pixel_plane_def Let_def by (metis dvd_add dvd_triv_left)
qed

text \<open>
  C6. Geometry of a format era. Width and height are rounded up to the next multiple of 64 and of 16,
  by less than one unit. The image is the pixel plane followed by the compressed area, at a 16-byte
  aligned offset; the compressed area is partitioned into luma tiles, luma metadata, chroma tiles and
  chroma metadata, each 16-byte aligned, at exactly the four offsets of the table, and each part is
  large enough for every tile of the aligned picture.
\<close>
theorem era_layout_sound:
  "let e = Era i w h d; aw = era_aligned_w e; ah = era_aligned_h e in
     64 dvd aw \<and> w \<le> aw \<and> aw < w + 64 \<and> 16 dvd ah \<and> h \<le> ah \<and> ah < h + 16 \<and>
     era_sizeimg e = era_start_offset e + era_comp_size e \<and> 16 dvd era_start_offset e \<and>
     (\<exists>y y_meta uv uv_meta.
        era_comp_offsets e = [y, 0, y + y_meta + uv, y + y_meta] \<and>
        era_comp_size e = y + y_meta + uv + uv_meta \<and>
        16 dvd y \<and> 16 dvd y_meta \<and> 16 dvd uv \<and> 16 dvd uv_meta \<and>
        aw * ah * div_round_up d 8 \<le> y \<and>
        div_round_up aw 32 * div_round_up ah 32 * 32 \<le> y_meta \<and>
        aw div 2 * (ah div 2) * div_round_up (d * 2) 8 \<le> uv \<and>
        div_round_up (aw div 2) 16 * div_round_up (ah div 2) 16 * 8 \<le> uv_meta)"
proof -
  let ?w = "round_up w 64" and ?h = "round_up h 16"
  obtain y ym where y: "calc_tile_meta ?w ?h d 32 32 = (y, ym)" by fastforce
  obtain uv uvm where uv: "calc_tile_meta (?w div 2) (?h div 2) (d * 2) 16 8 = (uv, uvm)" by fastforce
  note covers = calc_tile_meta_covers [OF y] calc_tile_meta_covers [OF uv]
  have "fill_comp ?w ?h d = (ym + y + uvm + uv, [y, 0, y + ym + uv, y + ym])"
    by (simp add: fill_comp_def y uv)
  then have e: "Era i w h d = \<lparr>era_id = i, era_width = w, era_height = h, era_bit_depth = d,
      era_aligned_w = ?w, era_aligned_h = ?h, era_fourcc = fourcc_for d,
      era_sizeimg = pixel_plane ?w ?h d + (ym + y + uvm + uv), era_comp_size = ym + y + uvm + uv,
      era_comp_offsets = [y, 0, y + ym + uv, y + ym], era_start_offset = pixel_plane ?w ?h d\<rparr>"
    by (simp add: Era_def ALIGN_W_def ALIGN_H_def era_sizeimage_def Let_def)
  have "64 dvd ?w \<and> w \<le> ?w \<and> ?w < w + 64 \<and> 16 dvd ?h \<and> h \<le> ?h \<and> ?h < h + 16"
    by (simp add: round_up_dvd round_up_ge round_up_less)
  with covers show ?thesis
    unfolding e Let_def
    by (simp add: pixel_plane_aligned)
qed

end
