(* ===== verification/Vp9_State.thy ===== *)
theory Vp9_State
  imports Vp9_Geometry Json
begin

text \<open>
  The queue and reference state model of \<open>src/experiments/vp9-state/model.py\<close>: the class
  \<^verbatim>\<open>Session\<close> as the record \<open>session\<close>, every \<^verbatim>\<open>op_*\<close> handler as a state transformer, \<^verbatim>\<open>apply\<close>,
  \<^verbatim>\<open>run_events\<close> and \<^verbatim>\<open>run_fixture\<close>.

  An event arrives as a JSON value. \<open>validate_event\<close> checks it and \<open>event_of\<close> reads the validated
  dict into the datatype \<open>event\<close>; the handlers work on that. A handler returns an exception or a unit
  together with the session, because several of them raise after they have changed it. \<open>Reject\<close>
  carries its code, invariant and kind, \<open>FixtureError\<close> its text (without interpolated values); the
  texts of rejects are not modelled. \<open>Crash\<close> stands for the exceptions the code never raises on
  purpose: a missing dict key, an attribute of \<^verbatim>\<open>None\<close>, arithmetic on \<^verbatim>\<open>None\<close>.
\<close>

definition SCHEMA :: string where "SCHEMA = ''omarchy-m1-video.vp9-state/1''"
definition TS_SCALE :: nat where "TS_SCALE = 1000"
definition REG_TS_BASE :: nat where "REG_TS_BASE = 1000000"

text \<open>Ids and kinds of the invariants in \<^verbatim>\<open>source-map.json\<close>, in its order.\<close>

definition INVARIANTS :: "(string, string) dict" where
  "INVARIANTS =
     map (\<lambda>i. (i, ''source_observed''))
       [''capture_s_fmt_busy'', ''output_s_fmt_streaming'', ''output_s_fmt_capture_busy'',
        ''validate_dec_params_min64'', ''validate_dec_params_aligned'', ''wrapper_on_queue'',
        ''wrapper_written_on_run'', ''refs_from_wrapper'', ''get_ref_fallback_dst'',
        ''start_on_output_streamon'', ''stop_on_output_streamoff'', ''scratch_from_coded_fmt'',
        ''queue_setup_sizeimage'', ''buf_prepare_sizeimage'', ''vb2_dmabuf_min_length'',
        ''fill_comp_layout'', ''image_fmt_busy''] @
     map (\<lambda>i. (i, ''proposed_contract''))
       [''no_destination_fallback'', ''generation_scoped_timestamps'', ''explicit_ref_registration'',
        ''ref_not_queued_as_dst'', ''era_sizing_dst_vs_ref'', ''failed_session_no_submit'',
        ''session_not_profile_key''] @
     map (\<lambda>i. (i, ''firmware_unknown''))
       [''firmware_live_resize'', ''firmware_seg_map'', ''firmware_scratch_regrow'',
        ''firmware_mixed_era_comp'', ''firmware_rev3_vs_rev4''] @
     [(''both_queues_streaming'', ''source_observed''), (''reqbufs_replaces_queue'', ''source_observed''),
      (''scratch_capacity_contract'', ''proposed_contract''),
      (''unique_destination_slot'', ''proposed_contract'')]"

datatype vp9_exn = FixtureError string | Reject string string string | Crash string

definition reject :: "string \<Rightarrow> string \<Rightarrow> vp9_exn" where
  "reject code invariant = (case dget INVARIANTS invariant of
     None \<Rightarrow> Crash ''KeyError'' | Some kind \<Rightarrow> Reject code invariant kind)"

subsection \<open>Events\<close>

definition EVENT_FIELDS :: "(string, string list \<times> string list) dict" where
  "EVENT_FIELDS =
     [(''open'', ([], [''session''])),
      (''output_s_fmt'', ([''width'', ''height''], [])),
      (''capture_s_fmt'', ([''width'', ''height''], [''bit_depth''])),
      (''proposed_reconfigure'', ([''width'', ''height''], [''bit_depth''])),
      (''capture_reqbufs'', ([''count''], [])),
      (''queue_dst'', ([''dst''], [''backing_bytes''])),
      (''decode'', ([''dst'', ''width'', ''height''],
         [''bit_depth'', ''key'', ''refs'', ''backing_bytes'', ''force_kernel_lookup''])),
      (''export'', ([''name''], [''backing_bytes''])),
      (''register'', ([''name''], [''timestamp'', ''index''])),
      (''inject_failure'', ([], [''phase''])),
      (''ask_firmware'', ([], [''question''])),
      (''output_streamon'', ([], [])), (''output_streamoff'', ([], [])),
      (''capture_streamon'', ([], [])), (''capture_streamoff'', ([], [])),
      (''snapshot'', ([], [])),
      (''submit'', ([''dst'', ''width'', ''height''],
         [''bit_depth'', ''key'', ''refs'', ''backing_bytes'', ''force_kernel_lookup'']))]"

definition nonempty_str :: "json \<Rightarrow> bool" where
  "nonempty_str v \<longleftrightarrow> (case v of JStr s \<Rightarrow> s \<noteq> [] | _ \<Rightarrow> False)"

definition check_field :: "string \<Rightarrow> json \<Rightarrow> vp9_exn + unit" where
  "check_field key v =
     (if key \<in> {''width'', ''height'', ''bit_depth'', ''count'', ''backing_bytes'', ''timestamp'', ''index''}
      then need (FixtureError (key @ '' must be an unsigned integer''))
             (case v of JInt i \<Rightarrow> \<not> (i < 0 \<or> i > 2 ^ 64 - 1) | _ \<Rightarrow> False)
      else if key \<in> {''key'', ''force_kernel_lookup''}
      then need (FixtureError (key @ '' must be boolean'')) (is_bool v)
      else if key = ''refs''
      then need (FixtureError ''refs must be a list of buffer names'')
             (case v of JList xs \<Rightarrow> list_all nonempty_str xs | _ \<Rightarrow> False)
      else need (FixtureError (key @ '' must be a nonempty string'')) (nonempty_str v))"

definition validate_event :: "json \<Rightarrow> vp9_exn + unit" where
  "validate_event v =
     (case v of
        JObj event \<Rightarrow>
          (case dget event ''op'' of
             Some (JStr op) \<Rightarrow>
               (case dget EVENT_FIELDS op of
                  None \<Rightarrow> Inl (FixtureError ''unknown op'')
                | Some (required, optional) \<Rightarrow>
                    rbind (need (FixtureError ''invalid or missing fields'')
                      (list_all (dhas event) required \<and>
                       list_all (\<lambda>k. k \<in> set (''op'' # required @ optional)) (map fst event))) (\<lambda>_.
                    rall (\<lambda>(key, value). check_field key value) event))
           | _ \<Rightarrow> Inl (FixtureError ''event requires a string op''))
      | _ \<Rightarrow> Inl (FixtureError ''event requires a string op''))"

record decode_args =
  d_dst :: string
  d_width :: nat
  d_height :: nat
  d_bit_depth :: "nat option"
  d_key :: bool
  d_refs :: "string list"
  d_backing_bytes :: "nat option"
  d_force_kernel_lookup :: bool

datatype event =
    Open "string option"
  | Output_s_fmt nat nat
  | Capture_s_fmt nat nat "nat option"
  | Proposed_reconfigure nat nat "nat option"
  | Capture_reqbufs nat
  | Queue_dst string "nat option"
  | Decode decode_args
  | Submit decode_args
  | Export string "nat option"
  | Register string "nat option" "nat option"
  | Inject_failure "string option"
  | Ask_firmware "string option"
  | Output_streamon
  | Output_streamoff
  | Capture_streamon
  | Capture_streamoff
  | Snapshot

definition jnat :: "(string, json) dict \<Rightarrow> string \<Rightarrow> nat" where
  "jnat d k = nat (jint d k)"

definition opt_nat :: "(string, json) dict \<Rightarrow> string \<Rightarrow> nat option" where
  "opt_nat d k = (if dhas d k then Some (jnat d k) else None)"

definition opt_str :: "(string, json) dict \<Rightarrow> string \<Rightarrow> string option" where
  "opt_str d k = (if dhas d k then Some (jstr d k) else None)"

definition jstrs :: "(string, json) dict \<Rightarrow> string \<Rightarrow> string list" where
  "jstrs d k = (case jv d k of JList xs \<Rightarrow> map (\<lambda>x. case x of JStr s \<Rightarrow> s | _ \<Rightarrow> []) xs | _ \<Rightarrow> [])"

definition decode_args_of :: "(string, json) dict \<Rightarrow> decode_args" where
  "decode_args_of e = \<lparr>d_dst = jstr e ''dst'', d_width = jnat e ''width'', d_height = jnat e ''height'',
     d_bit_depth = opt_nat e ''bit_depth'', d_key = jbool e ''key'', d_refs = jstrs e ''refs'',
     d_backing_bytes = opt_nat e ''backing_bytes'',
     d_force_kernel_lookup = jbool e ''force_kernel_lookup''\<rparr>"

definition event_of :: "(string, json) dict \<Rightarrow> event" where
  "event_of e =
     (let op = jstr e ''op'' in
      if op = ''open'' then Open (opt_str e ''session'')
      else if op = ''output_s_fmt'' then Output_s_fmt (jnat e ''width'') (jnat e ''height'')
      else if op = ''capture_s_fmt''
      then Capture_s_fmt (jnat e ''width'') (jnat e ''height'') (opt_nat e ''bit_depth'')
      else if op = ''proposed_reconfigure''
      then Proposed_reconfigure (jnat e ''width'') (jnat e ''height'') (opt_nat e ''bit_depth'')
      else if op = ''capture_reqbufs'' then Capture_reqbufs (jnat e ''count'')
      else if op = ''queue_dst'' then Queue_dst (jstr e ''dst'') (opt_nat e ''backing_bytes'')
      else if op = ''decode'' then Decode (decode_args_of e)
      else if op = ''submit'' then Submit (decode_args_of e)
      else if op = ''export'' then Export (jstr e ''name'') (opt_nat e ''backing_bytes'')
      else if op = ''register''
      then Register (jstr e ''name'') (opt_nat e ''timestamp'') (opt_nat e ''index'')
      else if op = ''inject_failure'' then Inject_failure (opt_str e ''phase'')
      else if op = ''ask_firmware'' then Ask_firmware (opt_str e ''question'')
      else if op = ''output_streamon'' then Output_streamon
      else if op = ''output_streamoff'' then Output_streamoff
      else if op = ''capture_streamon'' then Capture_streamon
      else if op = ''capture_streamoff'' then Capture_streamoff
      else Snapshot)"

subsection \<open>The session\<close>

record buffer =
  b_era_id :: nat
  b_width :: nat
  b_height :: nat
  b_bit_depth :: nat
  b_sizeimage :: nat
  b_backing_bytes :: nat
  b_index :: "nat option"
  b_generation :: "nat option"
  b_timestamp :: "nat option"
  b_decoded_ok :: bool
  b_exported :: bool
  b_queued_as_dst :: bool
  b_wrapper_alive :: bool
  b_content_id :: string

definition Buffer :: "string \<Rightarrow> era \<Rightarrow> nat option \<Rightarrow> buffer" where
  "Buffer name era backing_bytes =
     \<lparr>b_era_id = era_id era, b_width = era_width era, b_height = era_height era,
      b_bit_depth = era_bit_depth era, b_sizeimage = era_sizeimg era,
      b_backing_bytes = (case backing_bytes of None \<Rightarrow> era_sizeimg era | Some n \<Rightarrow> n),
      b_index = None, b_generation = None, b_timestamp = None, b_decoded_ok = False,
      b_exported = False, b_queued_as_dst = False, b_wrapper_alive = False, b_content_id = name\<rparr>"

record registration =
  r_generation :: nat
  r_timestamp :: nat
  r_era_id :: nat
  r_index :: "nat option"

record session =
  path :: string
  session_id :: json
  profile :: int
  bit_depth :: nat
  failed :: bool
  destructive_done :: bool
  output_streaming :: bool
  capture_streaming :: bool
  capture_slots :: nat
  capture_generation :: nat
  current_era :: "era option"
  coded_w :: "nat option"
  coded_h :: "nat option"
  eras :: "(nat, era) dict"
  buffers :: "(string, buffer) dict"
  slot :: "(nat, string) dict"
  ts_index :: "(nat \<times> nat, string) dict"
  registrations :: "(string, registration) dict"
  probabilities :: bool
  last_present :: bool
  scratch_present :: bool
  scratch_w :: "nat option"
  scratch_h :: "nat option"
  scratch_depth :: "nat option"
  seg_present :: bool
  seg_policy :: string
  next_reg_ts :: nat
  events_applied :: nat

definition Session :: "string \<Rightarrow> json \<Rightarrow> json \<Rightarrow> json \<Rightarrow> vp9_exn + session" where
  "Session p sid prof depth =
     rbind (need (FixtureError ''unknown path'') (p \<in> {''stock'', ''proposed''})) (\<lambda>_.
     rbind (need (FixtureError ''only advertised VP9 profiles 0 and 2 are modelled'')
       (case prof of JInt i \<Rightarrow> i \<in> {0, 2} | _ \<Rightarrow> False)) (\<lambda>_.
     rbind (need (FixtureError ''bit_depth must be 8 or 10'')
       (case depth of JInt i \<Rightarrow> i \<in> {8, 10} | _ \<Rightarrow> False)) (\<lambda>_.
     rbind (need (FixtureError ''profile 0 is 8-bit NV12; profile 2 is 10-bit P010'')
       (\<not> (prof = JInt 0 \<and> depth \<noteq> JInt 8 \<or> prof = JInt 2 \<and> depth \<noteq> JInt 10))) (\<lambda>_.
     Inr \<lparr>path = p, session_id = sid, profile = (case prof of JInt i \<Rightarrow> i | _ \<Rightarrow> 0),
          bit_depth = (case depth of JInt i \<Rightarrow> nat i | _ \<Rightarrow> 0), failed = False,
          destructive_done = False, output_streaming = False, capture_streaming = False,
          capture_slots = 0, capture_generation = 0, current_era = None, coded_w = None,
          coded_h = None, eras = [], buffers = [], slot = [], ts_index = [], registrations = [],
          probabilities = False, last_present = False, scratch_present = False, scratch_w = None,
          scratch_h = None, scratch_depth = None, seg_present = False, seg_policy = ''absent'',
          next_reg_ts = REG_TS_BASE, events_applied = 0\<rparr>))))"

record vp9_snapshot =
  sn_path :: string
  sn_session :: json
  sn_generation :: nat
  sn_output_streaming :: bool
  sn_capture_streaming :: bool
  sn_capture_slots :: nat
  sn_probabilities :: bool
  sn_last_present :: bool
  sn_scratch_present :: bool
  sn_seg_policy :: string
  sn_failed :: bool
  sn_destructive_done :: bool
  sn_era :: "era option"
  sn_lost :: "string list"
  sn_decoded_frame_evidence :: bool

definition lost_state :: "session \<Rightarrow> string list" where
  "lost_state s =
     (if \<not> dany b_wrapper_alive (buffers s) \<and> buffers s \<noteq> [] then [''wrapper_metadata''] else []) @
     (if \<not> probabilities s then [''frame_context''] else []) @
     (if \<not> last_present s then [''last_frame_info''] else []) @
     (if \<not> scratch_present s then [''scratch''] else []) @
     (if seg_policy s \<in> {''lost'', ''absent''} then [''seg_map'']
      else if seg_policy s = ''unknown'' then [''seg_map_policy_unknown''] else [])"

definition session_snapshot :: "session \<Rightarrow> vp9_snapshot" where
  "session_snapshot s =
     \<lparr>sn_path = path s, sn_session = session_id s, sn_generation = capture_generation s,
      sn_output_streaming = output_streaming s, sn_capture_streaming = capture_streaming s,
      sn_capture_slots = capture_slots s, sn_probabilities = probabilities s,
      sn_last_present = last_present s, sn_scratch_present = scratch_present s,
      sn_seg_policy = seg_policy s, sn_failed = failed s, sn_destructive_done = destructive_done s,
      sn_era = current_era s, sn_lost = lost_state s, sn_decoded_frame_evidence = False\<rparr>"

subsection \<open>Handlers\<close>

type_synonym handled = "(vp9_exn + unit) \<times> session"

definition set_buffer :: "string \<Rightarrow> buffer \<Rightarrow> session \<Rightarrow> session" where
  "set_buffer name buf s = s\<lparr>buffers := dset name buf (buffers s)\<rparr>"

definition depth_of :: "nat option \<Rightarrow> session \<Rightarrow> nat" where
  "depth_of d s = (case d of None \<Rightarrow> bit_depth s | Some n \<Rightarrow> n)"

definition next_era_id :: "(nat, era) dict \<Rightarrow> nat" where
  "next_era_id d = (if d = [] then 0 else Max (set (map fst d)) + 1)"

definition need_era :: "nat \<Rightarrow> nat \<Rightarrow> nat \<Rightarrow> session \<Rightarrow> (vp9_exn + era) \<times> session" where
  "need_era w h depth s =
     (if w < MIN_DIM \<or> h < MIN_DIM then (Inl (reject ''sub64'' ''validate_dec_params_min64''), s)
      else let i = next_era_id (eras s); era = Era i w h depth
           in (Inr era, s\<lparr>eras := dset i era (eras s)\<rparr>))"

definition capture_busy :: "session \<Rightarrow> bool" where
  "capture_busy s \<longleftrightarrow> capture_slots s > 0"

definition op_open :: "string option \<Rightarrow> session \<Rightarrow> handled" where
  "op_open sid s =
     (case sid of
        None \<Rightarrow> (Inr (), s)
      | Some i \<Rightarrow>
          if events_applied s \<noteq> 0 \<and> \<not> py_eq (JStr i) (session_id s)
          then (Inl (reject ''session_identity_change'' ''session_not_profile_key''), s)
          else (Inr (), s\<lparr>session_id := JStr i\<rparr>))"

definition op_output_s_fmt :: "nat \<Rightarrow> nat \<Rightarrow> session \<Rightarrow> handled" where
  "op_output_s_fmt w h s =
     (if output_streaming s
      then (Inl (reject ''streaming_output_s_fmt'' ''output_s_fmt_streaming''), s)
      else if capture_busy s
      then (Inl (reject ''busy_capture_s_fmt'' ''output_s_fmt_capture_busy''), s)
      else (Inr (), s\<lparr>coded_w := Some w, coded_h := Some h\<rparr>))"

definition op_capture_s_fmt :: "nat \<Rightarrow> nat \<Rightarrow> nat option \<Rightarrow> session \<Rightarrow> handled" where
  "op_capture_s_fmt w h d s =
     (if capture_busy s then (Inl (reject ''busy_capture_s_fmt'' ''capture_s_fmt_busy''), s)
      else if depth_of d s \<noteq> bit_depth s then (Inl (reject ''mixed_depth'' ''image_fmt_busy''), s)
      else case need_era w h (depth_of d s) s of
        (Inl e, s1) \<Rightarrow> (Inl e, s1)
      | (Inr era, s1) \<Rightarrow> (Inr (), s1\<lparr>current_era := Some era\<rparr>))"

definition op_output_streamon :: "session \<Rightarrow> handled" where
  "op_output_streamon s =
     (if output_streaming s then (Inr (), s)
      else if coded_w s = None then (Inl (FixtureError ''OUTPUT STREAMON before S_FMT''), s)
      else (Inr (), s\<lparr>output_streaming := True, probabilities := True, last_present := True,
              scratch_present := True, scratch_w := coded_w s, scratch_h := coded_h s,
              scratch_depth := Some (bit_depth s), seg_present := True, seg_policy := ''present''\<rparr>))"

definition op_output_streamoff :: "session \<Rightarrow> handled" where
  "op_output_streamoff s =
     (Inr (), s\<lparr>output_streaming := False, probabilities := False, last_present := False,
        scratch_present := False, scratch_w := None, scratch_h := None, scratch_depth := None,
        seg_present := False, seg_policy := ''lost''\<rparr>)"

definition op_capture_streamon :: "session \<Rightarrow> handled" where
  "op_capture_streamon s =
     (if capture_slots s = 0 then (Inl (FixtureError ''CAPTURE STREAMON without buffers''), s)
      else (Inr (), s\<lparr>capture_streaming := True\<rparr>))"

definition op_capture_streamoff :: "session \<Rightarrow> handled" where
  "op_capture_streamoff s = (Inr (), s\<lparr>capture_streaming := False\<rparr>)"

definition drop_wrapper :: "buffer \<Rightarrow> buffer" where
  "drop_wrapper b =
     b\<lparr>b_wrapper_alive := False, b_queued_as_dst := False, b_index := None, b_generation := None\<rparr>"

definition free_queue :: "session \<Rightarrow> session" where
  "free_queue s =
     s\<lparr>buffers := map (\<lambda>(k, b). (k, drop_wrapper b)) (buffers s), slot := [], capture_slots := 0,
       capture_generation := capture_generation s + 1, destructive_done := True, registrations := []\<rparr>"

definition op_capture_reqbufs :: "nat \<Rightarrow> session \<Rightarrow> handled" where
  "op_capture_reqbufs count s =
     (if capture_streaming s
      then (Inl (reject ''streaming_reqbufs'' ''reqbufs_replaces_queue''), s)
      else
        let s1 = (if count = 0 \<or> capture_slots s \<noteq> 0 then free_queue s else s) in
        if count = 0 then (Inr (), s1)
        else if current_era s1 = None then (Inl (FixtureError ''REQBUFS before CAPTURE S_FMT''), s1)
        else (Inr (), s1\<lparr>capture_slots := count, slot := []\<rparr>))"

text \<open>The loop over \<^verbatim>\<open>range(self.capture_slots)\<close> that looks for a free index.\<close>

function first_free :: "nat \<Rightarrow> nat \<Rightarrow> (nat, string) dict \<Rightarrow> nat option" where
  "first_free i n used =
     (if i \<ge> n then None else if \<not> dhas used i then Some i else first_free (i + 1) n used)"
  by pat_completeness auto

termination
  by (relation "measure (\<lambda>(i, n, used). n - i)") auto

declare first_free.simps [simp del]

definition alloc_index :: "string \<Rightarrow> session \<Rightarrow> (vp9_exn + nat) \<times> session" where
  "alloc_index name s =
     (if capture_slots s = 0 then (Inl (FixtureError ''decode/queue without CAPTURE buffers''), s)
      else case first_free 0 (capture_slots s) (slot s) of
        None \<Rightarrow> (Inl (reject ''no_capture_buffer'' ''queue_setup_sizeimage''), s)
      | Some i \<Rightarrow> (Inr i, s\<lparr>slot := dset i name (slot s)\<rparr>))"

text \<open>The part of \<^verbatim>\<open>op_queue_dst\<close> after the buffer object exists.\<close>

definition queue_buffer :: "string \<Rightarrow> buffer \<Rightarrow> session \<Rightarrow> handled" where
  "queue_buffer name buf s =
     (if dhas (registrations s) name
      then (Inl (reject ''reference_queued_as_destination'' ''ref_not_queued_as_dst''), s)
      else if b_queued_as_dst buf
      then (Inl (reject ''duplicate_destination'' ''unique_destination_slot''), s)
      else (case current_era s of
        None \<Rightarrow> (Inl (Crash ''AttributeError''), s)
      | Some era \<Rightarrow>
          if b_backing_bytes buf < era_sizeimg era
          then (Inl (reject ''short_backing'' ''vb2_dmabuf_min_length''), s)
          else (case alloc_index name s of
            (Inl e, s1) \<Rightarrow> (Inl e, s1)
          | (Inr idx, s1) \<Rightarrow>
              let ts = (idx + 1) * TS_SCALE;
                  s2 = set_buffer name (buf\<lparr>b_index := Some idx,
                         b_generation := Some (capture_generation s1), b_timestamp := Some ts,
                         b_wrapper_alive := True, b_queued_as_dst := True\<rparr>) s1;
                  key = (capture_generation s2, ts) in
              if dget (ts_index s2) key \<notin> {None, Some name}
              then (Inl (reject ''old_generation_alias'' ''generation_scoped_timestamps''), s2)
              else (Inr (), s2\<lparr>ts_index := dset key name (ts_index s2)\<rparr>))))"

definition op_queue_dst :: "string \<Rightarrow> nat option \<Rightarrow> session \<Rightarrow> handled" where
  "op_queue_dst name backing s =
     (case dget (buffers s) name of
        Some buf \<Rightarrow> queue_buffer name buf s
      | None \<Rightarrow>
          (case current_era s of
             None \<Rightarrow> (Inl (FixtureError ''queue_dst before CAPTURE S_FMT''), s)
           | Some era \<Rightarrow>
               let buf = Buffer name era backing in queue_buffer name buf (set_buffer name buf s)))"

definition resolve_stock_userspace :: "string \<Rightarrow> session \<Rightarrow> vp9_exn + unit" where
  "resolve_stock_userspace ref s =
     need (reject ''unavailable_reference'' ''wrapper_on_queue'')
       (case dget (buffers s) ref of
          None \<Rightarrow> False
        | Some buf \<Rightarrow> b_wrapper_alive buf \<and> b_decoded_ok buf \<and>
            b_generation buf = Some (capture_generation s))"

definition resolve_stock_kernel :: "string \<Rightarrow> session \<Rightarrow> vp9_exn + unit" where
  "resolve_stock_kernel ref s =
     (let ts = (case dget (buffers s) ref of None \<Rightarrow> None | Some buf \<Rightarrow> b_timestamp buf);
          found = (case ts of None \<Rightarrow> None | Some t \<Rightarrow> dget (ts_index s) (capture_generation s, t))
      in case found of
           None \<Rightarrow> Inl (reject ''destination_fallback'' ''get_ref_fallback_dst'')
         | Some name \<Rightarrow>
             need (reject ''old_generation_alias'' ''generation_scoped_timestamps'') (name = ref))"

definition resolve_proposed :: "string \<Rightarrow> session \<Rightarrow> vp9_exn + unit" where
  "resolve_proposed ref s =
     (case dget (buffers s) ref of
        None \<Rightarrow> Inl (reject ''orphaned_retained_buffer'' ''explicit_ref_registration'')
      | Some buf \<Rightarrow>
          if b_bit_depth buf \<noteq> bit_depth s then Inl (reject ''mixed_depth'' ''image_fmt_busy'')
          else (case dget (eras s) (b_era_id buf) of
            None \<Rightarrow> Inl (Crash ''KeyError'')
          | Some era \<Rightarrow>
              if b_backing_bytes buf < era_sizeimg era
              then Inl (reject ''short_backing'' ''era_sizing_dst_vs_ref'')
              else (case dget (registrations s) ref of
                Some reg \<Rightarrow>
                  if b_queued_as_dst buf
                  then Inl (reject ''reference_queued_as_destination'' ''ref_not_queued_as_dst'')
                  else if r_generation reg \<noteq> capture_generation s
                  then Inl (reject ''stale_registration'' ''generation_scoped_timestamps'')
                  else Inr ()
              | None \<Rightarrow>
                  if b_wrapper_alive buf \<and> b_decoded_ok buf \<and>
                     b_generation buf = Some (capture_generation s) then Inr ()
                  else if b_exported buf \<and> \<not> b_wrapper_alive buf
                  then Inl (reject ''orphaned_retained_buffer'' ''explicit_ref_registration'')
                  else Inl (reject ''unavailable_reference'' ''no_destination_fallback''))))"

definition resolve_ref :: "decode_args \<Rightarrow> session \<Rightarrow> string \<Rightarrow> vp9_exn + unit" where
  "resolve_ref a s ref =
     (if ref = d_dst a
      then Inl (reject ''reference_queued_as_destination'' ''ref_not_queued_as_dst'')
      else if path s = ''stock'' \<and> \<not> d_force_kernel_lookup a then resolve_stock_userspace ref s
      else if path s = ''stock'' \<and> d_force_kernel_lookup a then resolve_stock_kernel ref s
      else resolve_proposed ref s)"

definition resolve_refs :: "decode_args \<Rightarrow> session \<Rightarrow> vp9_exn + unit" where
  "resolve_refs a s = rall (resolve_ref a s) (d_refs a)"

definition scratch_exceeded :: "nat \<Rightarrow> nat \<Rightarrow> nat \<Rightarrow> session \<Rightarrow> vp9_exn + bool" where
  "scratch_exceeded w h depth s =
     (if \<not> scratch_present s \<or> scratch_depth s \<noteq> Some depth then Inr True
      else case (scratch_w s, scratch_h s) of
        (Some sw, Some sh) \<Rightarrow>
          Inr (list_ex (\<lambda>a. div_round_up w a > div_round_up sw a \<or> div_round_up h a > div_round_up sh a)
                 [8, 16, 64])
      | _ \<Rightarrow> Inl (Crash ''TypeError''))"

text \<open>The end of \<^verbatim>\<open>op_decode\<close>: queue the destination unless it is queued, then record the frame.\<close>

definition finish_decode :: "decode_args \<Rightarrow> era \<Rightarrow> nat \<Rightarrow> session \<Rightarrow> handled" where
  "finish_decode a era depth s =
     (case (if (case dget (buffers s) (d_dst a) of None \<Rightarrow> True | Some b \<Rightarrow> \<not> b_queued_as_dst b)
            then op_queue_dst (d_dst a) (d_backing_bytes a) s else (Inr (), s)) of
        (Inl e, s1) \<Rightarrow> (Inl e, s1)
      | (Inr _, s1) \<Rightarrow>
          (case dget (buffers s1) (d_dst a) of
             None \<Rightarrow> (Inl (Crash ''KeyError''), s1)
           | Some buf \<Rightarrow>
               (Inr (), (set_buffer (d_dst a) (buf\<lparr>b_decoded_ok := True, b_era_id := era_id era,
                  b_width := d_width a, b_height := d_height a, b_bit_depth := depth\<rparr>) s1)
                  \<lparr>last_present := True\<rparr>)))"

definition op_decode :: "decode_args \<Rightarrow> session \<Rightarrow> handled" where
  "op_decode a s =
     (if failed s then (Inl (reject ''partial_failure_reuse'' ''failed_session_no_submit''), s)
      else if \<not> output_streaming s \<or> \<not> probabilities s
      then (Inl (reject ''state_loss'' ''stop_on_output_streamoff''), s)
      else if \<not> capture_streaming s \<or> capture_slots s = 0
      then (Inl (reject ''capture_not_streaming'' ''both_queues_streaming''), s)
      else if d_width a < MIN_DIM \<or> d_height a < MIN_DIM
      then (Inl (reject ''sub64'' ''validate_dec_params_min64''), s)
      else (case current_era s of
        None \<Rightarrow> (Inl (FixtureError ''decode before CAPTURE S_FMT''), s)
      | Some era \<Rightarrow>
          if round_up (d_width a) ALIGN_W \<noteq> era_aligned_w era \<or>
             round_up (d_height a) ALIGN_H \<noteq> era_aligned_h era
          then (Inl (reject ''unexpected_resolution'' ''validate_dec_params_aligned''), s)
          else if depth_of (d_bit_depth a) s \<noteq> bit_depth s
          then (Inl (reject ''mixed_depth'' ''image_fmt_busy''), s)
          else if d_key a \<and> d_refs a \<noteq> []
          then (Inl (FixtureError ''key frames do not take inter references in this model''), s)
          else (case (if d_key a then Inr () else resolve_refs a s) of
            Inl e \<Rightarrow> (Inl e, s)
          | Inr _ \<Rightarrow>
              (case scratch_exceeded (d_width a) (d_height a) (depth_of (d_bit_depth a) s) s of
                 Inl e \<Rightarrow> (Inl e, s)
               | Inr True \<Rightarrow> (Inl (reject ''scratch_bounds'' ''scratch_capacity_contract''), s)
               | Inr False \<Rightarrow> finish_decode a era (depth_of (d_bit_depth a) s) s))))"

definition op_export :: "string \<Rightarrow> nat option \<Rightarrow> session \<Rightarrow> handled" where
  "op_export name backing s =
     (case dget (buffers s) name of
        None \<Rightarrow> (Inl (FixtureError ''export of undecoded buffer''), s)
      | Some buf \<Rightarrow>
          if \<not> b_decoded_ok buf then (Inl (FixtureError ''export of undecoded buffer''), s)
          else (Inr (), set_buffer name (buf\<lparr>b_exported := True,
                  b_backing_bytes := (case backing of None \<Rightarrow> b_backing_bytes buf | Some n \<Rightarrow> n)\<rparr>) s))"

text \<open>The part of \<^verbatim>\<open>op_register\<close> after the checks on the buffer.\<close>

definition finish_register :: "string \<Rightarrow> buffer \<Rightarrow> nat option \<Rightarrow> nat option \<Rightarrow> session \<Rightarrow> handled" where
  "finish_register name buf timestamp idx s =
     (let ts = (case timestamp of None \<Rightarrow> next_reg_ts s | Some t \<Rightarrow> t);
          s1 = s\<lparr>next_reg_ts := max (next_reg_ts s) ts + 1\<rparr>;
          key = (capture_generation s, ts) in
      if dhas (ts_index s1) key
      then (Inl (reject ''duplicate_timestamp'' ''generation_scoped_timestamps''), s1)
      else if (case idx of None \<Rightarrow> False | Some i \<Rightarrow> dhas (slot s1) i)
      then (Inl (reject ''reference_queued_as_destination'' ''ref_not_queued_as_dst''), s1)
      else (Inr (),
        (set_buffer name (buf\<lparr>b_timestamp := Some ts, b_queued_as_dst := False\<rparr>) s1)
          \<lparr>ts_index := dset key name (ts_index s1),
           registrations := dset name \<lparr>r_generation = capture_generation s, r_timestamp = ts,
              r_era_id = b_era_id buf, r_index = idx\<rparr> (registrations s1)\<rparr>))"

definition op_register :: "string \<Rightarrow> nat option \<Rightarrow> nat option \<Rightarrow> session \<Rightarrow> handled" where
  "op_register name timestamp idx s =
     (if path s \<noteq> ''proposed''
      then (Inl (reject ''stock_has_no_registration'' ''explicit_ref_registration''), s)
      else (case dget (buffers s) name of
        None \<Rightarrow> (Inl (reject ''orphaned_retained_buffer'' ''explicit_ref_registration''), s)
      | Some buf \<Rightarrow>
          if \<not> b_exported buf
          then (Inl (reject ''orphaned_retained_buffer'' ''explicit_ref_registration''), s)
          else if \<not> b_decoded_ok buf
          then (Inl (reject ''unavailable_reference'' ''explicit_ref_registration''), s)
          else if b_queued_as_dst buf
          then (Inl (reject ''reference_queued_as_destination'' ''ref_not_queued_as_dst''), s)
          else (case dget (eras s) (b_era_id buf) of
            None \<Rightarrow> (Inl (Crash ''KeyError''), s)
          | Some era \<Rightarrow>
              if b_backing_bytes buf < era_sizeimg era
              then (Inl (reject ''short_backing'' ''era_sizing_dst_vs_ref''), s)
              else finish_register name buf timestamp idx s)))"

definition op_submit :: "decode_args \<Rightarrow> session \<Rightarrow> handled" where
  "op_submit a s = op_decode a s"

definition op_proposed_reconfigure :: "nat \<Rightarrow> nat \<Rightarrow> nat option \<Rightarrow> session \<Rightarrow> handled" where
  "op_proposed_reconfigure w h d s =
     (if path s \<noteq> ''proposed''
      then (Inl (reject ''stock_has_no_reconfigure'' ''output_s_fmt_streaming''), s)
      else if \<not> output_streaming s
      then (Inl (reject ''state_loss'' ''stop_on_output_streamoff''), s)
      else if capture_streaming s \<or> capture_busy s
      then (Inl (reject ''busy_capture_s_fmt'' ''capture_s_fmt_busy''), s)
      else if depth_of d s \<noteq> bit_depth s
      then (Inl (reject ''mixed_depth'' ''image_fmt_busy''), s)
      else case need_era w h (depth_of d s) (s\<lparr>coded_w := Some w, coded_h := Some h\<rparr>) of
        (Inl e, s1) \<Rightarrow> (Inl e, s1)
      | (Inr era, s1) \<Rightarrow>
          (Inr (), s1\<lparr>current_era := Some era, scratch_w := Some w, scratch_h := Some h,
             scratch_depth := Some (depth_of d s), scratch_present := True, probabilities := True,
             last_present := True, seg_policy := ''unknown''\<rparr>))"

definition op_inject_failure :: "string option \<Rightarrow> session \<Rightarrow> handled" where
  "op_inject_failure ph s =
     (let phase = (case ph of None \<Rightarrow> ''after_destructive'' | Some p \<Rightarrow> p) in
      if phase = ''preflight'' then (Inr (), s)
      else if phase \<noteq> ''after_destructive''
      then (Inl (FixtureError ''unknown inject_failure phase''), s)
      else if \<not> destructive_done s
      then (Inl (FixtureError ''after_destructive inject requires REQBUFS(0) first''), s)
      else (Inr (), s\<lparr>failed := True\<rparr>))"

definition op_ask_firmware :: "string option \<Rightarrow> session \<Rightarrow> handled" where
  "op_ask_firmware question s =
     (let which = (case question of None \<Rightarrow> ''firmware_live_resize'' | Some q \<Rightarrow> q) in
      if dget INVARIANTS which \<noteq> Some ''firmware_unknown''
      then (Inl (FixtureError ''not a firmware_unknown invariant''), s)
      else (Inl (reject ''firmware_unknown'' which), s))"

definition op_snapshot :: "session \<Rightarrow> handled" where
  "op_snapshot s = (Inr (), s)"

fun handler :: "event \<Rightarrow> session \<Rightarrow> handled" where
  "handler (Open sid) s = op_open sid s"
| "handler (Output_s_fmt w h) s = op_output_s_fmt w h s"
| "handler (Capture_s_fmt w h d) s = op_capture_s_fmt w h d s"
| "handler (Proposed_reconfigure w h d) s = op_proposed_reconfigure w h d s"
| "handler (Capture_reqbufs n) s = op_capture_reqbufs n s"
| "handler (Queue_dst name b) s = op_queue_dst name b s"
| "handler (Decode a) s = op_decode a s"
| "handler (Submit a) s = op_submit a s"
| "handler (Export name b) s = op_export name b s"
| "handler (Register name ts i) s = op_register name ts i s"
| "handler (Inject_failure p) s = op_inject_failure p s"
| "handler (Ask_firmware q) s = op_ask_firmware q s"
| "handler Output_streamon s = op_output_streamon s"
| "handler Output_streamoff s = op_output_streamoff s"
| "handler Capture_streamon s = op_capture_streamon s"
| "handler Capture_streamoff s = op_capture_streamoff s"
| "handler Snapshot s = op_snapshot s"

fun needs_live_session :: "event \<Rightarrow> bool" where
  "needs_live_session (Decode a) = True"
| "needs_live_session (Submit a) = True"
| "needs_live_session (Register name ts i) = True"
| "needs_live_session (Queue_dst name b) = True"
| "needs_live_session (Proposed_reconfigure w h d) = True"
| "needs_live_session Capture_streamon = True"
| "needs_live_session _ = False"

definition apply_event :: "event \<Rightarrow> session \<Rightarrow> handled" where
  "apply_event ev s =
     (if failed s \<and> needs_live_session ev
      then (Inl (reject ''partial_failure_reuse'' ''failed_session_no_submit''), s)
      else case handler ev s of
        (Inl e, s1) \<Rightarrow> (Inl e, s1)
      | (Inr _, s1) \<Rightarrow> (Inr (), s1\<lparr>events_applied := events_applied s1 + 1\<rparr>))"

definition apply_json :: "json \<Rightarrow> session \<Rightarrow> handled" where
  "apply_json v s =
     (case validate_event v of
        Inl e \<Rightarrow> (Inl e, s)
      | Inr _ \<Rightarrow> (case v of JObj d \<Rightarrow> apply_event (event_of d) s | _ \<Rightarrow> (Inl (Crash ''TypeError''), s)))"

subsection \<open>Running sequences and fixtures\<close>

record run_result =
  res_status :: string
  res_code :: "string option"
  res_kind :: string
  res_invariant :: "string option"
  res_at_event :: "nat option"
  res_snapshot :: vp9_snapshot
  res_decoded_frame_evidence :: bool

text \<open>
  The loop of \<^verbatim>\<open>run_events\<close>: the first reject ends it and is reported with its position; every other
  exception leaves the function.
\<close>

fun run_loop :: "nat \<Rightarrow> json list \<Rightarrow> session \<Rightarrow> vp9_exn + (nat \<times> string \<times> string \<times> string) option \<times> session"
where
  "run_loop i [] s = Inr (None, s)"
| "run_loop i (ev # evs) s =
     (case apply_json ev s of
        (Inr _, s1) \<Rightarrow> run_loop (i + 1) evs s1
      | (Inl (Reject code invariant kind), s1) \<Rightarrow> Inr (Some (i, code, invariant, kind), s1)
      | (Inl e, s1) \<Rightarrow> Inl e)"

definition run_events :: "string \<Rightarrow> json list \<Rightarrow> json \<Rightarrow> json \<Rightarrow> json \<Rightarrow> vp9_exn + run_result" where
  "run_events p events sid prof depth =
     rbind (rall validate_event events) (\<lambda>_.
     rbind (Session p sid prof depth) (\<lambda>s.
     rbind (run_loop 0 events s) (\<lambda>(rejected, s').
     case rejected of
       Some (i, code, invariant, kind) \<Rightarrow>
         Inr \<lparr>res_status = (if code = ''firmware_unknown'' then ''unknown'' else ''reject''),
              res_code = Some code, res_kind = kind, res_invariant = Some invariant,
              res_at_event = Some i, res_snapshot = session_snapshot s',
              res_decoded_frame_evidence = False\<rparr>
     | None \<Rightarrow>
         Inr \<lparr>res_status = (if p = ''proposed'' then ''model_accept'' else ''observe''),
              res_code = None,
              res_kind = (if p = ''proposed'' then ''proposed_contract'' else ''source_observed''),
              res_invariant = None, res_at_event = None, res_snapshot = session_snapshot s',
              res_decoded_frame_evidence = False\<rparr>)))"

record fixture_result =
  fx_result :: run_result
  fx_id :: json
  fx_classification :: json

text \<open>The items that \<^verbatim>\<open>for item in expect["lost"]\<close> visits; \<^verbatim>\<open>None\<close> where Python raises.\<close>

definition iter_json :: "json \<Rightarrow> json list option" where
  "iter_json v = (case v of
     JList xs \<Rightarrow> Some xs
   | JStr s \<Rightarrow> Some (map (\<lambda>c. JStr [c]) s)
   | JObj d \<Rightarrow> Some (map (JStr \<circ> fst) d)
   | _ \<Rightarrow> None)"

definition opt_json :: "string option \<Rightarrow> json" where
  "opt_json x = (case x of None \<Rightarrow> JNull | Some s \<Rightarrow> JStr s)"

definition check_expect :: "(string, json) dict \<Rightarrow> run_result \<Rightarrow> (string, json) dict \<Rightarrow> vp9_exn + unit" where
  "check_expect expect result doc =
     rbind (need (FixtureError ''unexpected status'')
       (py_eq (JStr (res_status result)) (jv expect ''status''))) (\<lambda>_.
     rbind (need (FixtureError ''unexpected code'')
       (\<not> (dhas expect ''code'' \<and> \<not> py_eq (opt_json (res_code result)) (jv expect ''code'')))) (\<lambda>_.
     rbind (if dhas expect ''lost''
            then (case iter_json (jv expect ''lost'') of
                    None \<Rightarrow> Inl (Crash ''TypeError'')
                  | Some items \<Rightarrow>
                      need (FixtureError ''unexpected lost state'')
                        (list_all (\<lambda>item. list_ex (\<lambda>l. py_eq item (JStr l))
                           (sn_lost (res_snapshot result))) items))
            else Inr ()) (\<lambda>_.
     rbind (need (FixtureError ''model must not claim decoded-frame evidence'')
       (\<not> res_decoded_frame_evidence result)) (\<lambda>_.
     rbind (need (FixtureError ''model_accept is only valid on the proposed path'')
       (\<not> (py_eq (jv expect ''status'') (JStr ''model_accept'') \<and>
           \<not> py_eq (jv doc ''path'') (JStr ''proposed'')))) (\<lambda>_.
     need (FixtureError ''model_accept must stay labeled proposed_contract'')
       (\<not> (py_eq (jv expect ''status'') (JStr ''model_accept'') \<and>
           res_kind result \<noteq> ''proposed_contract'')))))))"

definition run_fixture :: "json \<Rightarrow> vp9_exn + fixture_result" where
  "run_fixture v =
     (case v of
        JObj doc \<Rightarrow>
          rbind (need (FixtureError ''missing or incompatible schema'')
            (py_eq (jv doc ''schema'') (JStr SCHEMA))) (\<lambda>_.
          rbind (rall (\<lambda>field. need (FixtureError (''fixture missing '' @ field)) (dhas doc field))
            [''id'', ''path'', ''classification'', ''expect'', ''events'']) (\<lambda>_.
          rbind (need (FixtureError ''path must be stock or proposed'')
            (list_ex (\<lambda>p. py_eq (jv doc ''path'') (JStr p)) [''stock'', ''proposed''])) (\<lambda>_.
          rbind (need (FixtureError ''invalid classification'')
            (list_ex (\<lambda>p. py_eq (jv doc ''classification'') (JStr p))
               [''legal_stream'', ''adversarial_api'', ''firmware_unknown''])) (\<lambda>_.
          rbind (case jv doc ''events'' of
                   JList (ev # evs) \<Rightarrow> Inr (ev # evs)
                 | _ \<Rightarrow> Inl (FixtureError ''events must be a non-empty list'')) (\<lambda>events.
          rbind (case jv doc ''expect'' of
                   JObj d \<Rightarrow> if dhas d ''status'' then Inr d
                     else Inl (FixtureError ''expect.status is required'')
                 | _ \<Rightarrow> Inl (FixtureError ''expect.status is required'')) (\<lambda>expect.
          rbind (need (FixtureError ''invalid expected status'')
            (list_ex (\<lambda>p. py_eq (jv expect ''status'') (JStr p))
               [''observe'', ''model_accept'', ''reject'', ''unknown''])) (\<lambda>_.
          rbind (need (FixtureError ''reject/unknown fixtures must name the expected code'')
            (\<not> (list_ex (\<lambda>p. py_eq (jv expect ''status'') (JStr p)) [''reject'', ''unknown''] \<and>
               \<not> is_str (jv expect ''code'')))) (\<lambda>_.
          let prof = (if dhas doc ''profile'' then jv doc ''profile'' else JInt 0);
              depth = (if dhas doc ''bit_depth'' then jv doc ''bit_depth''
                       else if py_eq prof (JInt 0) then JInt 8 else JInt 10);
              sid = (if dhas doc ''session'' then jv doc ''session'' else JStr ''s1'') in
          rbind (run_events (jstr doc ''path'') events sid prof depth) (\<lambda>result.
          rbind (check_expect expect result doc) (\<lambda>_.
          Inr \<lparr>fx_result = result, fx_id = jv doc ''id'',
               fx_classification = jv doc ''classification''\<rparr>))))))))))
      | _ \<Rightarrow> Inl (FixtureError ''fixture must be a JSON object''))"

end
