(* ===== verification/Vp9_Safety.thy ===== *)
theory Vp9_Safety
  imports Vp9_State
begin

text \<open>
  What the VP9 session model guarantees. \<open>sinv\<close> is the invariant of a session, in six parts: format
  eras, buffers, capture slots, registrations, the timestamp index and the codec context. It holds
  initially and every handler keeps it, also when the handler raises. From it follow: no run crashes,
  references of accepted decodes are safe, and a failed session stays failed.
\<close>

subsection \<open>The session invariant\<close>

definition inv_eras :: "session \<Rightarrow> bool" where
  "inv_eras s \<longleftrightarrow> dict_ok (eras s) \<and>
     (\<forall>k e. dget (eras s) k = Some e \<longrightarrow> era_id e = k \<and> era_bit_depth e = bit_depth s) \<and>
     (\<forall>e. current_era s = Some e \<longrightarrow> dget (eras s) (era_id e) = Some e)"

definition buffer_ok :: "session \<Rightarrow> string \<Rightarrow> buffer \<Rightarrow> bool" where
  "buffer_ok s n b \<longleftrightarrow>
     dget (eras s) (b_era_id b) \<noteq> None \<and> b_bit_depth b = bit_depth s \<and>
     b_wrapper_alive b = b_queued_as_dst b \<and>
     b_generation b = (if b_queued_as_dst b then Some (capture_generation s) else None) \<and>
     (b_queued_as_dst b \<longrightarrow> (\<exists>i. b_index b = Some i \<and> dget (slot s) i = Some n)) \<and>
     (b_exported b \<longrightarrow> b_decoded_ok b)"

definition inv_buffers :: "session \<Rightarrow> bool" where
  "inv_buffers s \<longleftrightarrow> dict_ok (buffers s) \<and> (buffers s \<noteq> [] \<longrightarrow> current_era s \<noteq> None) \<and>
     (\<forall>n b. dget (buffers s) n = Some b \<longrightarrow> buffer_ok s n b)"

definition inv_slots :: "session \<Rightarrow> bool" where
  "inv_slots s \<longleftrightarrow>
     (\<forall>i n. dget (slot s) i = Some n \<longrightarrow> i < capture_slots s \<and>
        (\<exists>b. dget (buffers s) n = Some b \<and> b_queued_as_dst b \<and> b_index b = Some i))"

definition inv_regs :: "session \<Rightarrow> bool" where
  "inv_regs s \<longleftrightarrow>
     (\<forall>n r. dget (registrations s) n = Some r \<longrightarrow> path s = ''proposed'' \<and>
        r_generation r = capture_generation s \<and>
        (\<exists>b. dget (buffers s) n = Some b \<and> b_exported b \<and> b_decoded_ok b \<and> \<not> b_queued_as_dst b \<and>
           r_era_id r = b_era_id b))"

definition inv_ts :: "session \<Rightarrow> bool" where
  "inv_ts s \<longleftrightarrow>
     (\<forall>g t n. dget (ts_index s) (g, t) = Some n \<longrightarrow> g \<le> capture_generation s \<and>
        (g = capture_generation s \<longrightarrow>
           (\<exists>b. dget (buffers s) n = Some b \<and> (b_queued_as_dst b \<or> dhas (registrations s) n))))"

definition inv_context :: "session \<Rightarrow> bool" where
  "inv_context s \<longleftrightarrow> (capture_slots s > 0 \<longrightarrow> current_era s \<noteq> None) \<and>
     (coded_w s \<noteq> None \<longrightarrow> coded_h s \<noteq> None) \<and>
     (scratch_present s \<longrightarrow> scratch_w s \<noteq> None \<and> scratch_h s \<noteq> None) \<and>
     (failed s \<longrightarrow> destructive_done s)"

definition sinv :: "session \<Rightarrow> bool" where
  "sinv s \<longleftrightarrow> inv_eras s \<and> inv_buffers s \<and> inv_slots s \<and> inv_regs s \<and> inv_ts s \<and> inv_context s"

lemmas sinv_parts = inv_eras_def inv_buffers_def buffer_ok_def inv_slots_def inv_regs_def inv_ts_def
  inv_context_def

lemma sinv_Session: "Session p sid prof depth = Inr s \<Longrightarrow> sinv s"
  by (auto simp: Session_def res_simps sinv_def sinv_parts)

text \<open>Handlers that only touch flags, formats and counters.\<close>

lemma sinv_plain:
  assumes "sinv s"
  shows "sinv (s\<lparr>session_id := x\<rparr>)" "sinv (s\<lparr>coded_w := Some w, coded_h := Some h\<rparr>)"
    "sinv (s\<lparr>capture_streaming := b\<rparr>)" "sinv (s\<lparr>last_present := b\<rparr>)"
    "sinv (s\<lparr>events_applied := n\<rparr>)" "sinv (s\<lparr>next_reg_ts := n\<rparr>)"
    "destructive_done s \<Longrightarrow> sinv (s\<lparr>failed := b\<rparr>)"
  using assms unfolding sinv_def sinv_parts by simp_all

lemma sinv_open: "sinv s \<Longrightarrow> sinv (snd (op_open sid s))"
  by (simp add: op_open_def sinv_plain split: option.split)

lemma sinv_output_s_fmt: "sinv s \<Longrightarrow> sinv (snd (op_output_s_fmt w h s))"
  by (simp add: op_output_s_fmt_def sinv_plain)

lemma sinv_output_streamon: "sinv s \<Longrightarrow> sinv (snd (op_output_streamon s))"
  unfolding op_output_streamon_def by (auto simp: sinv_def sinv_parts)

lemma sinv_output_streamoff: "sinv s \<Longrightarrow> sinv (snd (op_output_streamoff s))"
  unfolding op_output_streamoff_def by (auto simp: sinv_def sinv_parts)

lemma sinv_capture_stream:
  "sinv s \<Longrightarrow> sinv (snd (op_capture_streamon s))" "sinv s \<Longrightarrow> sinv (snd (op_capture_streamoff s))"
  by (simp_all add: op_capture_streamon_def op_capture_streamoff_def sinv_plain)

lemma sinv_misc:
  "sinv s \<Longrightarrow> sinv (snd (op_inject_failure ph s))" "sinv s \<Longrightarrow> sinv (snd (op_ask_firmware q s))"
  "sinv s \<Longrightarrow> sinv (snd (op_snapshot s))"
  by (simp_all add: op_inject_failure_def op_ask_firmware_def op_snapshot_def Let_def sinv_plain)

subsection \<open>Eras\<close>

lemma next_era_id_fresh: "dget d (next_era_id d) = None"
proof (cases "d = []")
  case False
  have "Max (set (map fst d)) + 1 \<notin> set (map fst d)"
    using Max_ge [of "set (map fst d)" "Max (set (map fst d)) + 1"] by fastforce
  then have "next_era_id d \<notin> set (map fst d)" using False by (simp add: next_era_id_def)
  then show ?thesis by (simp add: map_of_eq_None_iff)
qed simp

lemma Era_simps [simp]: "era_id (Era i w h d) = i" "era_bit_depth (Era i w h d) = d"
  by (simp_all add: Era_def Let_def split: prod.split)

lemma sinv_add_era:
  assumes "sinv s" and "i = next_era_id (eras s)"
  shows "sinv (s\<lparr>eras := dset i (Era i w h (bit_depth s)) (eras s)\<rparr>)" (is "sinv ?s")
    and "sinv (s\<lparr>eras := dset i (Era i w h (bit_depth s)) (eras s),
              current_era := Some (Era i w h (bit_depth s))\<rparr>)" (is "sinv ?t")
proof -
  have fresh: "dget (eras s) i = None" using next_era_id_fresh assms(2) by simp
  have old: "k \<noteq> i" if "dget (eras s) k = Some e" for k e using that fresh by auto
  have "inv_eras ?s" "inv_eras ?t" using assms(1) old unfolding sinv_def inv_eras_def by auto
  moreover have "inv_buffers ?s" "inv_buffers ?t"
    using assms(1) unfolding sinv_def inv_buffers_def buffer_ok_def by auto
  moreover have "inv_slots ?s" "inv_slots ?t" "inv_regs ?s" "inv_regs ?t" "inv_ts ?s" "inv_ts ?t"
      "inv_context ?s" "inv_context ?t"
    using assms(1) unfolding sinv_def inv_slots_def inv_regs_def inv_ts_def inv_context_def by simp_all
  ultimately show "sinv ?s" "sinv ?t" unfolding sinv_def by blast+
qed

lemma need_era_cases:
  obtains e where "need_era w h d s = (Inl e, s)"
  | i where "i = next_era_id (eras s)"
      "need_era w h d s = (Inr (Era i w h d), s\<lparr>eras := dset i (Era i w h d) (eras s)\<rparr>)"
  by (cases "w < MIN_DIM \<or> h < MIN_DIM") (simp_all add: need_era_def Let_def)

lemma sinv_capture_s_fmt:
  assumes "sinv s" shows "sinv (snd (op_capture_s_fmt w h d s))"
  by (rule need_era_cases [of w h "depth_of d s" s])
    (use assms sinv_add_era(2) in \<open>auto simp: op_capture_s_fmt_def\<close>)

lemma sinv_scratch:
  assumes "sinv s"
  shows "sinv (s\<lparr>scratch_w := Some w, scratch_h := Some h, scratch_depth := x, scratch_present := True,
    probabilities := True, last_present := True, seg_policy := p\<rparr>)"
  using assms unfolding sinv_def sinv_parts by simp

lemma sinv_proposed_reconfigure:
  assumes "sinv s" shows "sinv (snd (op_proposed_reconfigure w h d s))"
proof -
  let ?s = "s\<lparr>coded_w := Some w, coded_h := Some h\<rparr>"
  have s: "sinv ?s" using sinv_plain(2) [OF assms] .
  show ?thesis
  proof (rule need_era_cases [of w h "depth_of d s" ?s])
    fix e assume "need_era w h (depth_of d s) ?s = (Inl e, ?s)"
    with assms s show ?thesis by (cases "depth_of d s = bit_depth s") (simp_all add: op_proposed_reconfigure_def)
  next
    fix i assume "i = next_era_id (eras ?s)" and n: "need_era w h (depth_of d s) ?s =
      (Inr (Era i w h (depth_of d s)), ?s\<lparr>eras := dset i (Era i w h (depth_of d s)) (eras ?s)\<rparr>)"
    then have "sinv ((?s\<lparr>eras := dset i (Era i w h (bit_depth ?s)) (eras ?s),
        current_era := Some (Era i w h (bit_depth ?s))\<rparr>)
        \<lparr>scratch_w := Some w, scratch_h := Some h, scratch_depth := Some (bit_depth s),
         scratch_present := True, probabilities := True, last_present := True,
         seg_policy := ''unknown''\<rparr>)"
      using sinv_add_era(2) [OF s] by (intro sinv_scratch) blast
    with assms n show ?thesis
      by (cases "depth_of d s = bit_depth s") (simp_all add: op_proposed_reconfigure_def)
  qed
qed

subsection \<open>Replacing the capture queue\<close>

lemma dget_map_values: "dget (map (\<lambda>(k, v). (k, f v)) d) k = map_option f (dget d k)"
  by (induction d) auto

lemma dict_ok_map_values: "dict_ok (map (\<lambda>(k, v). (k, f v)) d) = dict_ok d"
  by (simp add: dict_ok_def comp_def case_prod_unfold)

lemma drop_wrapper_simps [simp]:
  "b_wrapper_alive (drop_wrapper b) = False" "b_queued_as_dst (drop_wrapper b) = False"
  "b_index (drop_wrapper b) = None" "b_generation (drop_wrapper b) = None"
  "b_era_id (drop_wrapper b) = b_era_id b" "b_bit_depth (drop_wrapper b) = b_bit_depth b"
  "b_exported (drop_wrapper b) = b_exported b" "b_decoded_ok (drop_wrapper b) = b_decoded_ok b"
  "b_backing_bytes (drop_wrapper b) = b_backing_bytes b" "b_timestamp (drop_wrapper b) = b_timestamp b"
  by (simp_all add: drop_wrapper_def)

lemma sinv_free_queue:
  assumes "sinv s" shows "sinv (free_queue s)"
proof -
  have "g \<noteq> Suc (capture_generation s)" if "dget (ts_index s) (g, t) = Some n" for g t n
    using assms that unfolding sinv_def inv_ts_def by fastforce
  moreover have "g \<le> Suc (capture_generation s)" if "dget (ts_index s) (g, t) = Some n" for g t n
    using assms that unfolding sinv_def inv_ts_def by fastforce
  ultimately have "inv_ts (free_queue s)" unfolding inv_ts_def free_queue_def by auto
  moreover have "inv_buffers (free_queue s)"
    using assms unfolding sinv_def inv_buffers_def buffer_ok_def free_queue_def
    by (auto simp: dget_map_values dict_ok_map_values)
  moreover have "inv_eras (free_queue s)" "inv_slots (free_queue s)" "inv_regs (free_queue s)"
      "inv_context (free_queue s)"
    using assms unfolding sinv_def sinv_parts free_queue_def by simp_all
  ultimately show ?thesis unfolding sinv_def by blast
qed

lemma sinv_set_slots:
  assumes "sinv s" and "current_era s \<noteq> None" and "slot s = []"
  shows "sinv (s\<lparr>capture_slots := n, slot := []\<rparr>)"
  using assms unfolding sinv_def sinv_parts by simp

lemma sinv_no_slots:
  assumes "sinv s" and "capture_slots s = 0" shows "slot s = []"
proof (rule ccontr)
  assume "slot s \<noteq> []"
  then obtain i n where "dget (slot s) i = Some n" by (cases "slot s") fastforce+
  with assms show False by (auto simp: sinv_def inv_slots_def)
qed

lemma sinv_capture_reqbufs:
  assumes "sinv s" shows "sinv (snd (op_capture_reqbufs n s))"
proof -
  define s1 where "s1 = (if n = 0 \<or> capture_slots s \<noteq> 0 then free_queue s else s)"
  have "sinv s1" using assms sinv_free_queue by (simp add: s1_def)
  moreover have "slot s1 = []"
    using sinv_no_slots [OF assms] by (simp add: s1_def free_queue_def)
  ultimately have "sinv (s1\<lparr>capture_slots := n, slot := []\<rparr>)" if "current_era s1 \<noteq> None"
    using sinv_set_slots that by blast
  with assms \<open>sinv s1\<close> show ?thesis
    unfolding op_capture_reqbufs_def s1_def [symmetric] Let_def by simp
qed

subsection \<open>Buffers\<close>

lemma sinv_bufferD:
  assumes "sinv s" and "dget (buffers s) n = Some b"
  shows "buffer_ok s n b" and "\<exists>e. current_era s = Some e"
  using assms unfolding sinv_def inv_buffers_def by fastforce+

lemma sinv_slotE:
  assumes "sinv s" and "dget (slot s) i = Some n"
  obtains b where "dget (buffers s) n = Some b" "b_queued_as_dst b" "b_index b = Some i" "i < capture_slots s"
  using assms unfolding sinv_def inv_slots_def by blast

lemma sinv_regE:
  assumes "sinv s" and "dget (registrations s) n = Some r"
  obtains b where "dget (buffers s) n = Some b" "b_exported b" "b_decoded_ok b" "\<not> b_queued_as_dst b"
    "r_era_id r = b_era_id b" "r_generation r = capture_generation s" "path s = ''proposed''"
  using assms unfolding sinv_def inv_regs_def by blast

lemma sinv_tsE:
  assumes "sinv s" and "dget (ts_index s) (capture_generation s, t) = Some n"
  obtains b where "dget (buffers s) n = Some b" "b_queued_as_dst b \<or> dhas (registrations s) n"
  using assms unfolding sinv_def inv_ts_def by blast

lemma sinv_put_buffer:
  assumes inv: "sinv s" and ok: "buffer_ok s n b'" and era: "current_era s \<noteq> None"
    and slots: "\<And>i. dget (slot s) i = Some n \<Longrightarrow> b_queued_as_dst b' \<and> b_index b' = Some i"
    and regs: "\<And>r. dget (registrations s) n = Some r \<Longrightarrow>
      b_exported b' \<and> b_decoded_ok b' \<and> \<not> b_queued_as_dst b' \<and> r_era_id r = b_era_id b'"
    and ts: "\<And>b. dget (buffers s) n = Some b \<Longrightarrow> b_queued_as_dst b \<Longrightarrow> b_queued_as_dst b'"
  shows "sinv (set_buffer n b' s)" (is "sinv ?s")
proof -
  have "inv_buffers ?s"
    using inv ok era unfolding sinv_def inv_buffers_def buffer_ok_def set_buffer_def by simp
  moreover have "inv_slots ?s" using inv slots unfolding sinv_def inv_slots_def set_buffer_def by simp
  moreover have "inv_regs ?s" using inv regs unfolding sinv_def inv_regs_def set_buffer_def by simp
  moreover have "b_queued_as_dst b' \<or> dhas (registrations s) n"
    if "dget (ts_index s) (capture_generation s, t) = Some n" for t
    using sinv_tsE [OF inv that] ts by blast
  then have "inv_ts ?s" using inv unfolding sinv_def inv_ts_def set_buffer_def by simp
  moreover have "inv_eras ?s" "inv_context ?s"
    using inv unfolding sinv_def inv_eras_def inv_context_def set_buffer_def by simp_all
  ultimately show ?thesis unfolding sinv_def by blast
qed

lemma sinv_new_buffer:
  assumes inv: "sinv s" and "dget (buffers s) n = None" and "current_era s = Some e"
  shows "sinv (set_buffer n (Buffer n e x) s)"
proof (rule sinv_put_buffer [OF inv])
  have "dget (eras s) (era_id e) = Some e" "era_bit_depth e = bit_depth s"
    using inv assms(3) by (auto simp: sinv_def inv_eras_def)
  then show "buffer_ok s n (Buffer n e x)" by (simp add: buffer_ok_def Buffer_def)
next
  show "b_queued_as_dst (Buffer n e x) \<and> b_index (Buffer n e x) = Some i" if "dget (slot s) i = Some n" for i
    by (rule sinv_slotE [OF inv that]) (simp add: assms(2))
next
  fix r assume "dget (registrations s) n = Some r"
  then show "b_exported (Buffer n e x) \<and> b_decoded_ok (Buffer n e x) \<and>
      \<not> b_queued_as_dst (Buffer n e x) \<and> r_era_id r = b_era_id (Buffer n e x)"
    using sinv_regE [OF inv] assms(2) by fastforce
qed (use assms in auto)

text \<open>An update that leaves the queue binding of a buffer alone.\<close>

lemma sinv_change_buffer:
  assumes inv: "sinv s" and b: "dget (buffers s) n = Some b"
    and same: "b_wrapper_alive b' = b_wrapper_alive b" "b_queued_as_dst b' = b_queued_as_dst b"
      "b_index b' = b_index b" "b_generation b' = b_generation b" "b_bit_depth b' = b_bit_depth b"
    and era: "b_era_id b' = b_era_id b \<or> b_queued_as_dst b \<and> dget (eras s) (b_era_id b') \<noteq> None"
    and mono: "b_decoded_ok b \<Longrightarrow> b_decoded_ok b'" "b_exported b \<Longrightarrow> b_exported b'"
      "b_exported b' \<Longrightarrow> b_decoded_ok b'"
  shows "sinv (set_buffer n b' s)"
proof (rule sinv_put_buffer [OF inv])
  have ok: "buffer_ok s n b" and cur: "\<exists>e. current_era s = Some e" using sinv_bufferD [OF inv b] by auto
  have "dget (eras s) (b_era_id b') \<noteq> None" using ok era unfolding buffer_ok_def by metis
  with ok mono(3) show "buffer_ok s n b'" unfolding buffer_ok_def same by blast
  show "current_era s \<noteq> None" using cur by auto
  show "b_queued_as_dst b' \<and> b_index b' = Some i" if "dget (slot s) i = Some n" for i
    by (rule sinv_slotE [OF inv that]) (simp add: b same)
  show "b_exported b' \<and> b_decoded_ok b' \<and> \<not> b_queued_as_dst b' \<and> r_era_id r = b_era_id b'"
    if "dget (registrations s) n = Some r" for r
    by (rule sinv_regE [OF inv that]) (use b same era mono in auto)
  show "b_queued_as_dst b'" if "dget (buffers s) n = Some b0" "b_queued_as_dst b0" for b0
    using that b same by simp
qed

lemma sinv_export:
  assumes "sinv s" shows "sinv (snd (op_export n x s))"
  using assms
  by (auto simp: op_export_def split: option.split intro!: sinv_change_buffer)

subsection \<open>Queueing a destination\<close>

lemma first_free_Some: "first_free i n used = Some j \<Longrightarrow> j < n \<and> dget used j = None"
  by (induction i n used rule: first_free.induct)
    (subst (asm) (2) first_free.simps, auto simp: dhas_def split: if_splits)

lemma sinv_bind_slot:
  assumes inv: "sinv s" and b: "dget (buffers s) n = Some b" "\<not> b_queued_as_dst b"
    and reg: "\<not> dhas (registrations s) n" and i: "i < capture_slots s" "dget (slot s) i = None"
    and b': "b' = b\<lparr>b_index := Some i, b_generation := Some (capture_generation s), b_timestamp := ts,
      b_wrapper_alive := True, b_queued_as_dst := True\<rparr>"
  shows "sinv (set_buffer n b' (s\<lparr>slot := dset i n (slot s)\<rparr>))" (is "sinv ?s")
proof -
  have none: "dget (slot s) j \<noteq> Some n" for j
    using sinv_slotE [OF inv] b by fastforce
  have other: "j \<noteq> i" if "dget (slot s) j = Some m" for j m using that i(2) by auto
  have ok: "buffer_ok s n b" using sinv_bufferD [OF inv b(1)] by simp
  have keep: "buffer_ok ?s m c" if "dget (buffers s) m = Some c" "m \<noteq> n" for m c
  proof -
    have "buffer_ok s m c" using sinv_bufferD [OF inv that(1)] by simp
    then show ?thesis using other unfolding buffer_ok_def set_buffer_def by auto
  qed
  have "buffer_ok ?s n b'" using ok by (simp add: buffer_ok_def set_buffer_def b')
  with keep have "inv_buffers ?s"
    using inv sinv_bufferD(2) [OF inv b(1)] unfolding sinv_def inv_buffers_def
    by (auto simp: set_buffer_def)
  moreover have "inv_slots ?s"
    using inv none i unfolding sinv_def inv_slots_def set_buffer_def by (auto simp: b')
  moreover have "inv_regs ?s"
    using inv reg unfolding sinv_def inv_regs_def set_buffer_def by (auto simp: dhas_def)
  moreover have "inv_ts ?s"
    using inv unfolding sinv_def inv_ts_def set_buffer_def by (auto simp: b')
  moreover have "inv_eras ?s" "inv_context ?s"
    using inv unfolding sinv_def inv_eras_def inv_context_def set_buffer_def by simp_all
  ultimately show ?thesis unfolding sinv_def by blast
qed

lemma sinv_set_ts:
  assumes inv: "sinv s" and "dget (buffers s) n = Some b" "b_queued_as_dst b"
  shows "sinv (s\<lparr>ts_index := dset (capture_generation s, t) n (ts_index s)\<rparr>)" (is "sinv ?s")
proof -
  have "inv_ts ?s" using assms unfolding sinv_def inv_ts_def by auto
  moreover have "inv_eras ?s" "inv_buffers ?s" "inv_slots ?s" "inv_regs ?s" "inv_context ?s"
    using inv unfolding sinv_def sinv_parts by simp_all
  ultimately show ?thesis unfolding sinv_def by blast
qed

definition bound_buffer :: "buffer \<Rightarrow> nat \<Rightarrow> nat \<Rightarrow> buffer" where
  "bound_buffer b i g = b\<lparr>b_index := Some i, b_generation := Some g,
     b_timestamp := Some ((i + 1) * TS_SCALE), b_wrapper_alive := True, b_queued_as_dst := True\<rparr>"

lemma queue_buffer_cases:
  obtains (unchanged) e where "queue_buffer n b s = (Inl e, s)"
  | (aliased) e i where "queue_buffer n b s =
        (Inl e, set_buffer n (bound_buffer b i (capture_generation s)) (s\<lparr>slot := dset i n (slot s)\<rparr>))"
      "\<not> dhas (registrations s) n" "\<not> b_queued_as_dst b" "i < capture_slots s" "dget (slot s) i = None"
  | (queued) e i s2 where "queue_buffer n b s =
        (Inr (), s2\<lparr>ts_index := dset (capture_generation s2, (i + 1) * TS_SCALE) n (ts_index s2)\<rparr>)"
      "s2 = set_buffer n (bound_buffer b i (capture_generation s)) (s\<lparr>slot := dset i n (slot s)\<rparr>)"
      "\<not> dhas (registrations s) n" "\<not> b_queued_as_dst b" "i < capture_slots s" "dget (slot s) i = None"
      "current_era s = Some e" "era_sizeimg e \<le> b_backing_bytes b"
proof -
  let ?guards = "dhas (registrations s) n \<or> b_queued_as_dst b \<or>
    (case current_era s of None \<Rightarrow> True | Some e \<Rightarrow> b_backing_bytes b < era_sizeimg e) \<or>
    capture_slots s = 0 \<or> first_free 0 (capture_slots s) (slot s) = None"
  show thesis
  proof (cases ?guards)
    case True
    then have "\<exists>e. queue_buffer n b s = (Inl e, s)"
      by (auto simp: queue_buffer_def alloc_index_def split: option.splits)
    then show thesis using unchanged by blast
  next
    case False
    then obtain e i where e: "current_era s = Some e" "\<not> b_backing_bytes b < era_sizeimg e"
      and i: "first_free 0 (capture_slots s) (slot s) = Some i" and c: "capture_slots s \<noteq> 0"
      and r: "\<not> dhas (registrations s) n" "\<not> b_queued_as_dst b"
      by (auto split: option.splits)
    have i': "i < capture_slots s" "dget (slot s) i = None" using first_free_Some [OF i] by auto
    let ?s2 = "set_buffer n (bound_buffer b i (capture_generation s)) (s\<lparr>slot := dset i n (slot s)\<rparr>)"
    have q: "queue_buffer n b s =
        (if dget (ts_index ?s2) (capture_generation ?s2, (i + 1) * TS_SCALE) \<notin> {None, Some n}
         then (Inl (reject ''old_generation_alias'' ''generation_scoped_timestamps''), ?s2)
         else (Inr (), ?s2\<lparr>ts_index := dset (capture_generation ?s2, (i + 1) * TS_SCALE) n (ts_index ?s2)\<rparr>))"
      using e i c r
      by (simp add: queue_buffer_def alloc_index_def bound_buffer_def set_buffer_def Let_def)
    show thesis
    proof (cases "dget (ts_index ?s2) (capture_generation ?s2, (i + 1) * TS_SCALE) \<notin> {None, Some n}")
      case True
      then show thesis using aliased [of _ i] q i' r by metis
    next
      case False
      then show thesis using queued [of ?s2 i e] q i' r e by (metis linorder_not_less)
    qed
  qed
qed

lemma sinv_queue_buffer:
  assumes inv: "sinv s" and b: "dget (buffers s) n = Some b"
  shows "sinv (snd (queue_buffer n b s))"
proof (cases rule: queue_buffer_cases [of n b s])
  case unchanged
  with inv show ?thesis by simp
next
  case (aliased e i)
  have "sinv (set_buffer n (bound_buffer b i (capture_generation s)) (s\<lparr>slot := dset i n (slot s)\<rparr>))"
    using aliased b by (intro sinv_bind_slot [OF inv]) (simp_all add: bound_buffer_def)
  with aliased show ?thesis by simp
next
  case (queued e i s2)
  have "sinv s2"
    unfolding queued(2) using queued b by (intro sinv_bind_slot [OF inv]) (simp_all add: bound_buffer_def)
  then have "sinv (s2\<lparr>ts_index := dset (capture_generation s2, (i + 1) * TS_SCALE) n (ts_index s2)\<rparr>)"
    by (rule sinv_set_ts [where b = "bound_buffer b i (capture_generation s)"])
      (simp_all add: queued(2) set_buffer_def bound_buffer_def)
  with queued(1) show ?thesis by simp
qed

lemma queue_buffer_frame:
  "eras (snd (queue_buffer n b s)) = eras s" "current_era (snd (queue_buffer n b s)) = current_era s"
  "bit_depth (snd (queue_buffer n b s)) = bit_depth s" "path (snd (queue_buffer n b s)) = path s"
  "failed (snd (queue_buffer n b s)) = failed s"
  "m \<noteq> n \<Longrightarrow> dget (buffers (snd (queue_buffer n b s))) m = dget (buffers s) m"
  by (cases rule: queue_buffer_cases [of n b s]; simp add: set_buffer_def)+

lemma queue_buffer_Inr:
  assumes "queue_buffer n b s = (Inr u, s')"
  shows "\<exists>i. dget (buffers s') n = Some (bound_buffer b i (capture_generation s)) \<and>
    i < capture_slots s \<and> dget (slot s) i = None"
  using assms by (cases rule: queue_buffer_cases [of n b s]) (auto simp: set_buffer_def)

lemma sinv_queue_dst:
  assumes "sinv s" shows "sinv (snd (op_queue_dst n x s))"
proof (cases "dget (buffers s) n")
  case (Some b)
  then show ?thesis using sinv_queue_buffer [OF assms] by (simp add: op_queue_dst_def)
next
  case None
  show ?thesis
  proof (cases "current_era s")
    case (Some e)
    have "sinv (set_buffer n (Buffer n e x) s)" by (rule sinv_new_buffer [OF assms None Some])
    then have "sinv (snd (queue_buffer n (Buffer n e x) (set_buffer n (Buffer n e x) s)))"
      by (rule sinv_queue_buffer) (simp add: set_buffer_def)
    with None Some show ?thesis by (simp add: op_queue_dst_def Let_def)
  qed (use None assms in \<open>simp add: op_queue_dst_def\<close>)
qed

lemma queue_dst_frame:
  "eras (snd (op_queue_dst n x s)) = eras s" "current_era (snd (op_queue_dst n x s)) = current_era s"
  "bit_depth (snd (op_queue_dst n x s)) = bit_depth s" "path (snd (op_queue_dst n x s)) = path s"
  "failed (snd (op_queue_dst n x s)) = failed s"
  "m \<noteq> n \<Longrightarrow> dget (buffers (snd (op_queue_dst n x s))) m = dget (buffers s) m"
  by (simp_all add: op_queue_dst_def queue_buffer_frame set_buffer_def Let_def split: option.split)

lemma queue_dst_Inr:
  assumes "op_queue_dst n x s = (Inr u, s')"
  shows "\<exists>b. dget (buffers s') n = Some b \<and> b_queued_as_dst b"
  using assms queue_buffer_Inr
  by (fastforce simp: op_queue_dst_def bound_buffer_def Let_def split: option.splits)

subsection \<open>Decoding\<close>

lemma finish_decode_cases:
  obtains (err) e s1 where "finish_decode a era d s = (Inl e, s1)"
      "op_queue_dst (d_dst a) (d_backing_bytes a) s = (Inl e, s1)"
  | (ok) s1 b where "finish_decode a era d s = (Inr (),
        (set_buffer (d_dst a) (b\<lparr>b_decoded_ok := True, b_era_id := era_id era, b_width := d_width a,
           b_height := d_height a, b_bit_depth := d\<rparr>) s1)\<lparr>last_present := True\<rparr>)"
      "dget (buffers s1) (d_dst a) = Some b" "b_queued_as_dst b"
      "s1 = s \<or> op_queue_dst (d_dst a) (d_backing_bytes a) s = (Inr (), s1)"
proof (cases "case dget (buffers s) (d_dst a) of None \<Rightarrow> True | Some b \<Rightarrow> \<not> b_queued_as_dst b")
  case False
  then obtain b where "dget (buffers s) (d_dst a) = Some b" "b_queued_as_dst b"
    by (auto split: option.splits)
  then show thesis by (intro ok [of b s]) (simp_all add: finish_decode_def)
next
  case True
  obtain r s1 where q: "op_queue_dst (d_dst a) (d_backing_bytes a) s = (r, s1)" by fastforce
  show thesis
  proof (cases r)
    case (Inl e)
    with True q show thesis by (intro err) (simp_all add: finish_decode_def)
  next
    case (Inr u)
    with q obtain b where "dget (buffers s1) (d_dst a) = Some b" "b_queued_as_dst b"
      using queue_dst_Inr by blast
    with True q Inr show thesis by (intro ok [of b s1]) (simp_all add: finish_decode_def)
  qed
qed

lemma sinv_finish_decode:
  assumes inv: "sinv s" and era: "current_era s = Some era" and d: "d = bit_depth s"
  shows "sinv (snd (finish_decode a era d s))"
proof (cases rule: finish_decode_cases [of a era d s])
  case (err e s1)
  then show ?thesis using sinv_queue_dst [OF inv, of "d_dst a" "d_backing_bytes a"] by simp
next
  case (ok s1 b)
  have s1: "sinv s1" "current_era s1 = Some era" "bit_depth s1 = d"
    using ok(4) inv era d sinv_queue_dst [OF inv, of "d_dst a" "d_backing_bytes a"]
      queue_dst_frame(2,3) [of "d_dst a" "d_backing_bytes a" s] by auto
  have "dget (eras s1) (era_id era) = Some era" using s1 by (simp add: sinv_def inv_eras_def)
  moreover have "b_bit_depth b = d" using sinv_bufferD(1) [OF s1(1) ok(2)] s1 by (simp add: buffer_ok_def)
  ultimately have "sinv (set_buffer (d_dst a) (b\<lparr>b_decoded_ok := True, b_era_id := era_id era,
      b_width := d_width a, b_height := d_height a, b_bit_depth := d\<rparr>) s1)"
    using ok(2,3) by (intro sinv_change_buffer [OF s1(1)]) auto
  then show ?thesis using ok(1) sinv_plain(4) by simp
qed

lemma op_decode_cases:
  obtains (refused) e where "op_decode a s = (Inl e, s)"
  | (finish) era where "op_decode a s = finish_decode a era (bit_depth s) s" "current_era s = Some era"
      "\<not> failed s" "output_streaming s" "capture_streaming s" "capture_slots s \<noteq> 0"
      "round_up (d_width a) ALIGN_W = era_aligned_w era" "round_up (d_height a) ALIGN_H = era_aligned_h era"
      "d_key a \<longrightarrow> d_refs a = []" "resolve_refs a s = Inr ()"
      "scratch_exceeded (d_width a) (d_height a) (bit_depth s) s = Inr False"
proof -
  let ?early = "failed s \<or> \<not> output_streaming s \<or> \<not> probabilities s \<or> \<not> capture_streaming s \<or>
    capture_slots s = 0 \<or> d_width a < MIN_DIM \<or> d_height a < MIN_DIM \<or> current_era s = None"
  show thesis
  proof (cases ?early)
    case True
    then have "\<exists>e. op_decode a s = (Inl e, s)" by (auto simp: op_decode_def split: option.split)
    then show thesis using refused by blast
  next
    case False
    then obtain era where era: "current_era s = Some era" by auto
    let ?d = "depth_of (d_bit_depth a) s"
    consider "round_up (d_width a) ALIGN_W \<noteq> era_aligned_w era \<or>
        round_up (d_height a) ALIGN_H \<noteq> era_aligned_h era \<or> ?d \<noteq> bit_depth s \<or> d_key a \<and> d_refs a \<noteq> [] \<or>
        \<not> d_key a \<and> resolve_refs a s \<noteq> Inr () \<or>
        scratch_exceeded (d_width a) (d_height a) ?d s \<noteq> Inr False"
      | "round_up (d_width a) ALIGN_W = era_aligned_w era"
        "round_up (d_height a) ALIGN_H = era_aligned_h era" "?d = bit_depth s"
        "d_key a \<longrightarrow> d_refs a = []" "d_key a \<or> resolve_refs a s = Inr ()"
        "scratch_exceeded (d_width a) (d_height a) ?d s = Inr False"
      by blast
    then show thesis
    proof cases
      case 1
      then have "\<exists>e. op_decode a s = (Inl e, s)"
        using False era by (auto simp: op_decode_def split: sum.splits bool.splits)
      then show thesis using refused by blast
    next
      case 2
      have "op_decode a s = finish_decode a era (bit_depth s) s"
        using False era 2 by (auto simp: op_decode_def)
      moreover have "resolve_refs a s = Inr ()" using 2 by (auto simp: resolve_refs_def)
      ultimately show thesis using finish False era 2 by auto
    qed
  qed
qed

lemma sinv_decode: "sinv s \<Longrightarrow> sinv (snd (op_decode a s))"
  by (cases rule: op_decode_cases [of a s]) (simp_all add: sinv_finish_decode)

subsection \<open>Registration\<close>

lemma op_register_split:
  "(\<exists>e. op_register n ts idx s = (Inl e, s)) \<or>
   (\<exists>b. op_register n ts idx s = finish_register n b ts idx s \<and> dget (buffers s) n = Some b \<and>
      b_exported b \<and> b_decoded_ok b \<and> \<not> b_queued_as_dst b \<and> path s = ''proposed'')"
  by (auto simp: op_register_def split: option.split)

lemma op_register_cases:
  obtains (refused) e m where "op_register n ts idx s = (Inl e, s\<lparr>next_reg_ts := m\<rparr>)"
  | (ok) b t m where "op_register n ts idx s = (Inr (),
        (set_buffer n (b\<lparr>b_timestamp := Some t, b_queued_as_dst := False\<rparr>) (s\<lparr>next_reg_ts := m\<rparr>))
          \<lparr>ts_index := dset (capture_generation s, t) n (ts_index s),
           registrations := dset n \<lparr>r_generation = capture_generation s, r_timestamp = t,
             r_era_id = b_era_id b, r_index = idx\<rparr> (registrations s)\<rparr>)"
      "path s = ''proposed''" "dget (buffers s) n = Some b" "b_exported b" "b_decoded_ok b"
      "\<not> b_queued_as_dst b"
proof -
  consider "\<exists>e. op_register n ts idx s = (Inl e, s)"
    | b where "op_register n ts idx s = finish_register n b ts idx s" "dget (buffers s) n = Some b"
      "b_exported b" "b_decoded_ok b" "\<not> b_queued_as_dst b" "path s = ''proposed''"
    using op_register_split by metis
  then show thesis
  proof cases
    case 1
    moreover have "s = s\<lparr>next_reg_ts := next_reg_ts s\<rparr>" by simp
    ultimately show thesis using refused by metis
  next
    case (2 b)
    let ?t = "case ts of None \<Rightarrow> next_reg_ts s | Some t \<Rightarrow> t"
    let ?s1 = "s\<lparr>next_reg_ts := max (next_reg_ts s) ?t + 1\<rparr>"
    show thesis
    proof (cases "dhas (ts_index s) (capture_generation s, ?t) \<or>
        (case idx of None \<Rightarrow> False | Some i \<Rightarrow> dhas (slot s) i)")
      case True
      then have "\<exists>e. finish_register n b ts idx s = (Inl e, ?s1)"
        by (cases "dhas (ts_index s) (capture_generation s, ?t)"; cases idx)
          (simp_all add: finish_register_def Let_def)
      then show thesis using refused 2(1) by metis
    next
      case False
      with 2 show thesis by (intro ok; cases idx) (simp_all add: finish_register_def Let_def)
    qed
  qed
qed

lemma sinv_register:
  assumes inv: "sinv s" shows "sinv (snd (op_register n ts idx s))"
proof (cases rule: op_register_cases [of n ts idx s])
  case refused
  with sinv_plain(6) [OF inv] show ?thesis by simp
next
  case (ok b t m)
  let ?b = "b\<lparr>b_timestamp := Some t, b_queued_as_dst := False\<rparr>"
  let ?s1 = "set_buffer n ?b (s\<lparr>next_reg_ts := m\<rparr>)"
  let ?r = "\<lparr>r_generation = capture_generation s, r_timestamp = t, r_era_id = b_era_id b, r_index = idx\<rparr>"
  let ?s2 = "?s1\<lparr>ts_index := dset (capture_generation s, t) n (ts_index s),
      registrations := dset n ?r (registrations s)\<rparr>"
  have s1: "sinv ?s1"
    using ok sinv_plain(6) [OF inv, of m] by (intro sinv_change_buffer [where b = b]) simp_all
  have "inv_regs ?s2" using inv ok(2-) unfolding sinv_def inv_regs_def by (simp add: set_buffer_def)
  moreover have "inv_ts ?s2"
    using inv ok(3,6) unfolding sinv_def inv_ts_def by (simp add: set_buffer_def dhas_def)
  moreover have "inv_eras ?s2" "inv_buffers ?s2" "inv_slots ?s2" "inv_context ?s2"
    using s1 unfolding sinv_def sinv_parts by simp_all
  ultimately show ?thesis using ok(1) unfolding sinv_def by simp
qed

subsection \<open>Every handler keeps the invariant\<close>

lemmas sinv_handlers = sinv_open sinv_output_s_fmt sinv_capture_s_fmt sinv_proposed_reconfigure
  sinv_capture_reqbufs sinv_queue_dst sinv_decode sinv_export sinv_register sinv_misc
  sinv_output_streamon sinv_output_streamoff sinv_capture_stream

lemma sinv_handler: "sinv s \<Longrightarrow> sinv (snd (handler ev s))"
  by (cases ev) (simp_all add: sinv_handlers op_submit_def)

lemma sinv_apply_event:
  assumes "sinv s" shows "sinv (snd (apply_event ev s))"
proof -
  obtain r s1 where h: "handler ev s = (r, s1)" by fastforce
  have "sinv s1" using sinv_handler [OF assms, of ev] h by simp
  with assms show ?thesis
    by (cases r) (simp_all add: apply_event_def h sinv_plain)
qed

subsection \<open>No crash\<close>

text \<open>
  An exception is ill-formed when it is a crash, or a reject whose invariant is not in the table with
  the kind it carries.
\<close>

fun ill :: "vp9_exn \<Rightarrow> bool" where
  "ill (Crash m) = True"
| "ill (Reject code invariant kind) = (dget INVARIANTS invariant \<noteq> Some kind)"
| "ill (FixtureError m) = False"

definition crashes :: "vp9_exn + 'a \<Rightarrow> bool" where
  "crashes r \<longleftrightarrow> (\<exists>e. r = Inl e \<and> ill e)"

lemma known_invariants:
  "list_all (dhas INVARIANTS)
    [''both_queues_streaming'', ''capture_s_fmt_busy'', ''era_sizing_dst_vs_ref'',
     ''explicit_ref_registration'', ''failed_session_no_submit'', ''generation_scoped_timestamps'',
     ''get_ref_fallback_dst'', ''image_fmt_busy'', ''no_destination_fallback'',
     ''output_s_fmt_capture_busy'', ''output_s_fmt_streaming'', ''queue_setup_sizeimage'',
     ''ref_not_queued_as_dst'', ''reqbufs_replaces_queue'', ''scratch_capacity_contract'',
     ''session_not_profile_key'', ''stop_on_output_streamoff'', ''unique_destination_slot'',
     ''validate_dec_params_aligned'', ''validate_dec_params_min64'', ''vb2_dmabuf_min_length'',
     ''wrapper_on_queue'']"
  by code_simp

lemma reject_not_crash:
  assumes "dhas INVARIANTS i" shows "\<not> ill (reject c i)"
  using assms by (auto simp: reject_def dhas_def)

lemma crashes_simps [simp]:
  "crashes (Inr x) = False" "crashes (Inl (FixtureError t)) = False" "crashes (Inl (Crash t)) = True"
  "dhas INVARIANTS i \<Longrightarrow> crashes (Inl (reject c i)) = False"
  "crashes (need e p) = (\<not> p \<and> ill e)"
  by (auto simp: crashes_def reject_not_crash need_def)

lemmas known_simps = known_invariants [unfolded list.pred_inject]

lemma resolve_no_crash:
  assumes inv: "sinv s" shows "\<not> crashes (resolve_ref a s r)"
proof -
  have "dget (eras s) (b_era_id b) \<noteq> None" if "dget (buffers s) r = Some b" for b
    using sinv_bufferD(1) [OF inv that] by (simp add: buffer_ok_def)
  then have "\<not> crashes (resolve_proposed r s)"
    by (auto simp: resolve_proposed_def known_simps split: option.splits)
  then show ?thesis
    by (auto simp: resolve_ref_def resolve_stock_userspace_def resolve_stock_kernel_def known_simps
        reject_not_crash Let_def split: option.splits)
qed

lemma queue_buffer_no_crash:
  "current_era s \<noteq> None \<Longrightarrow> \<not> crashes (fst (queue_buffer n b s))"
  by (auto simp: queue_buffer_def alloc_index_def known_simps Let_def split: option.splits)

lemma queue_dst_no_crash:
  assumes "sinv s" shows "\<not> crashes (fst (op_queue_dst n x s))"
proof (cases "dget (buffers s) n")
  case (Some b)
  then show ?thesis
    using sinv_bufferD(2) [OF assms Some] queue_buffer_no_crash [of s n b] by (simp add: op_queue_dst_def)
next
  case None
  then show ?thesis
    by (auto simp: op_queue_dst_def Let_def set_buffer_def queue_buffer_no_crash split: option.split)
qed

lemma scratch_no_crash: "sinv s \<Longrightarrow> \<not> crashes (scratch_exceeded w h d s)"
  by (auto simp: scratch_exceeded_def sinv_def inv_context_def split: option.splits)

lemma finish_decode_no_crash:
  assumes "sinv s" shows "\<not> crashes (fst (finish_decode a era d s))"
proof (cases rule: finish_decode_cases [of a era d s])
  case (err e s1)
  then show ?thesis using queue_dst_no_crash [OF assms, of "d_dst a" "d_backing_bytes a"] by simp
qed simp

lemma rall_no_crash: "(\<And>x. \<not> crashes (f x)) \<Longrightarrow> \<not> crashes (rall f xs)"
  by (induction xs) (auto simp: crashes_def rbind_Inl)

lemma crashes_Inl: "crashes (Inl e) = ill e"
  by (simp add: crashes_def)

lemma decode_no_crash:
  assumes inv: "sinv s" shows "\<not> crashes (fst (op_decode a s))"
proof -
  let ?d = "depth_of (d_bit_depth a) s"
  define r where "r = (if d_key a then Inr () else resolve_refs a s)"
  define x where "x = scratch_exceeded (d_width a) (d_height a) ?d s"
  have "\<not> crashes (resolve_refs a s)"
    unfolding resolve_refs_def by (rule rall_no_crash, rule resolve_no_crash [OF inv])
  then have r: "\<not> crashes r" by (simp add: r_def)
  have x: "\<not> crashes x" unfolding x_def by (rule scratch_no_crash [OF inv])
  have f: "\<not> crashes (fst (finish_decode a era ?d s))" for era
    by (rule finish_decode_no_crash [OF inv])
  have tail: "\<not> crashes (fst (case r of Inl e \<Rightarrow> (Inl e, s) | Inr _ \<Rightarrow>
      (case x of Inl e \<Rightarrow> (Inl e, s)
       | Inr True \<Rightarrow> (Inl (reject ''scratch_bounds'' ''scratch_capacity_contract''), s)
       | Inr False \<Rightarrow> finish_decode a era ?d s)))" for era
    using r x f by (auto simp: known_simps crashes_Inl reject_not_crash split: sum.split bool.split)
  show ?thesis
    unfolding op_decode_def r_def [symmetric] x_def [symmetric]
    using tail by (simp add: known_simps split: option.split)
qed

lemma register_no_crash:
  assumes "sinv s" shows "\<not> crashes (fst (op_register n ts idx s))"
proof -
  have "dget (eras s) (b_era_id b) \<noteq> None" if "dget (buffers s) n = Some b" for b
    using sinv_bufferD(1) [OF assms that] by (simp add: buffer_ok_def)
  moreover have "\<not> crashes (fst (finish_register n b ts idx s))" for b
    by (simp add: finish_register_def Let_def known_simps)
  ultimately show ?thesis by (auto simp: op_register_def known_simps split: option.split)
qed

lemma need_era_no_crash: "\<not> crashes (fst (need_era w h d s))"
  by (simp add: need_era_def Let_def known_simps)

lemma handler_no_crash:
  assumes "sinv s" shows "\<not> crashes (fst (handler ev s))"
proof (cases ev)
  case (Capture_s_fmt w h d)
  then show ?thesis using need_era_no_crash [of w h "depth_of d s" s]
    by (auto simp: op_capture_s_fmt_def known_simps reject_not_crash crashes_def split: prod.splits sum.splits)
next
  case (Proposed_reconfigure w h d)
  then show ?thesis
    using need_era_no_crash [of w h "depth_of d s" "s\<lparr>coded_w := Some w, coded_h := Some h\<rparr>"]
    by (auto simp: op_proposed_reconfigure_def known_simps reject_not_crash crashes_def split: prod.splits sum.splits)
next
  case (Ask_firmware q)
  then show ?thesis by (auto simp: op_ask_firmware_def Let_def reject_def crashes_def split: option.split)
qed (use assms in \<open>auto simp: op_open_def op_output_s_fmt_def op_capture_reqbufs_def op_export_def
      op_inject_failure_def op_output_streamon_def op_output_streamoff_def op_capture_streamon_def
      op_capture_streamoff_def op_snapshot_def op_submit_def Let_def known_simps queue_dst_no_crash
      decode_no_crash register_no_crash split: option.split\<close>)

lemma apply_event_no_crash:
  assumes "sinv s" shows "\<not> crashes (fst (apply_event ev s))"
  using handler_no_crash [OF assms, of ev]
  by (auto simp: apply_event_def known_simps reject_not_crash crashes_def split: prod.splits sum.splits)

lemma validate_event_no_crash: "\<not> crashes (validate_event v)"
proof -
  have "\<not> crashes (check_field k x)" for k x by (simp add: check_field_def)
  then have "\<not> crashes (rall (\<lambda>(k, x). check_field k x) d)" for d by (intro rall_no_crash) auto
  then show ?thesis
    by (auto simp: validate_event_def crashes_def rbind_Inl need_Inl split: json.split option.split)
qed

lemma validate_event_obj: "validate_event v = Inr u \<Longrightarrow> \<exists>d. v = JObj d"
  by (cases v) (simp_all add: validate_event_def)

lemma apply_json_safe:
  assumes "sinv s" shows "sinv (snd (apply_json v s)) \<and> \<not> crashes (fst (apply_json v s))"
proof (cases "validate_event v")
  case (Inl e)
  then show ?thesis
    using assms validate_event_no_crash [of v] by (auto simp: apply_json_def crashes_def)
next
  case (Inr u)
  then obtain d where "v = JObj d" using validate_event_obj by blast
  with Inr show ?thesis
    using sinv_apply_event [OF assms] apply_event_no_crash [OF assms] by (simp add: apply_json_def)
qed

lemma run_loop_no_crash: "sinv s \<Longrightarrow> \<not> crashes (run_loop i evs s)"
proof (induction i evs s rule: run_loop.induct)
  case (2 i ev evs s)
  obtain r s1 where a: "apply_json ev s = (r, s1)" by fastforce
  have "sinv s1 \<and> \<not> crashes r"
    using apply_json_safe [OF 2(2), of ev] a by simp
  then show ?case
    using 2(1) a by (auto simp: crashes_def split: sum.splits vp9_exn.splits)
qed simp

lemma run_loop_result:
  "sinv s \<Longrightarrow> run_loop i evs s = Inr (Some (j, code, inv0, kind), s') \<Longrightarrow>
     i \<le> j \<and> j < i + length evs \<and> dget INVARIANTS inv0 = Some kind"
proof (induction i evs s rule: run_loop.induct)
  case (2 i ev evs s)
  obtain r s1 where a: "apply_json ev s = (r, s1)" by fastforce
  have s1: "sinv s1" "\<not> crashes r" using apply_json_safe [OF 2(2), of ev] a by simp_all
  show ?case
  proof (cases r)
    case (Inr u)
    then show ?thesis using 2(1) [OF a [symmetric] Inr s1(1)] a 2(3) by fastforce
  next
    case (Inl e)
    then show ?thesis using a 2(3) s1(2) by (cases e) (auto simp: crashes_Inl)
  qed
qed simp

lemma rall_Inl_obtain: "rall f xs = Inl e \<Longrightarrow> \<exists>x \<in> set xs. f x = Inl e"
  by (induction xs) (auto simp: rbind_Inl)

lemma validate_event_not_reject: "validate_event v = Inl e \<Longrightarrow> \<exists>m. e = FixtureError m"
proof -
  have field: "check_field k x = Inl e \<Longrightarrow> \<exists>m. e = FixtureError m" for k x
    by (auto simp: check_field_def need_Inl split: if_splits)
  have "rall (\<lambda>(k, x). check_field k x) d = Inl e \<Longrightarrow> \<exists>m. e = FixtureError m" for d
    by (drule rall_Inl_obtain) (auto dest: field)
  then show "validate_event v = Inl e \<Longrightarrow> \<exists>m. e = FixtureError m"
    by (auto simp: validate_event_def rbind_Inl need_Inl split: json.splits option.splits)
qed

lemma run_loop_error:
  assumes "sinv s" and "run_loop i evs s = Inl e"
  shows "\<exists>m. e = FixtureError m"
proof -
  have "\<not> (\<exists>c i k. e = Reject c i k)"
    using assms(2)
    by (induction i evs s rule: run_loop.induct) (auto split: prod.splits sum.splits vp9_exn.splits)
  moreover have "\<not> crashes (run_loop i evs s)" by (rule run_loop_no_crash [OF assms(1)])
  ultimately show ?thesis using assms(2) by (cases e) (auto simp: crashes_Inl)
qed

subsection \<open>Reachable sessions\<close>

definition after_events :: "json list \<Rightarrow> session \<Rightarrow> session" where
  "after_events evs s = fold (\<lambda>v s. snd (apply_json v s)) evs s"

lemma sinv_after_events: "sinv s \<Longrightarrow> sinv (after_events evs s)"
  unfolding after_events_def by (induction evs arbitrary: s) (simp_all add: apply_json_safe)

lemma reachable_sinv: "Session p sid prof depth = Inr s0 \<Longrightarrow> sinv (after_events evs s0)"
  by (intro sinv_after_events sinv_Session)

lemma handler_failed: "failed s \<Longrightarrow> failed (snd (handler ev s))"
proof (cases ev)
  case (Capture_s_fmt w h d)
  assume "failed s"
  with Capture_s_fmt show ?thesis
    by (cases rule: need_era_cases [of w h "depth_of d s" s]) (auto simp: op_capture_s_fmt_def)
next
  case (Proposed_reconfigure w h d)
  assume "failed s"
  with Proposed_reconfigure show ?thesis
    by (cases rule: need_era_cases [of w h "depth_of d s" "s\<lparr>coded_w := Some w, coded_h := Some h\<rparr>"])
      (auto simp: op_proposed_reconfigure_def)
next
  case (Register n ts i)
  assume "failed s"
  with Register show ?thesis
    by (cases rule: op_register_cases [of n ts i s]) (auto simp: set_buffer_def)
qed (auto simp: op_open_def op_output_s_fmt_def op_capture_reqbufs_def free_queue_def op_export_def
      op_inject_failure_def op_ask_firmware_def op_output_streamon_def op_output_streamoff_def
      op_capture_streamon_def op_capture_streamoff_def op_snapshot_def op_submit_def op_decode_def
      Let_def queue_dst_frame set_buffer_def split: option.split)

lemma apply_json_failed: "failed s \<Longrightarrow> failed (snd (apply_json v s))"
proof -
  have "failed (snd (apply_event ev s))" if "failed s" for ev
    using handler_failed [OF that, of ev] that
    by (auto simp: apply_event_def split: prod.splits sum.splits)
  then show "failed s \<Longrightarrow> failed (snd (apply_json v s))"
    by (simp add: apply_json_def split: sum.split json.split)
qed

lemma decode_path: "path (snd (op_decode a s)) = path s"
proof (cases rule: op_decode_cases [of a s])
  case (finish era)
  show ?thesis
  proof (cases rule: finish_decode_cases [of a era "bit_depth s" s])
    case (err e s1)
    with finish(1) queue_dst_frame(4) [of "d_dst a" "d_backing_bytes a" s] show ?thesis by simp
  next
    case (ok s1 b)
    with finish(1) queue_dst_frame(4) [of "d_dst a" "d_backing_bytes a" s] show ?thesis
      by (auto simp: set_buffer_def)
  qed
qed simp

lemma handler_path: "path (snd (handler ev s)) = path s"
proof (cases ev)
  case (Capture_s_fmt w h d)
  then show ?thesis
    by (cases rule: need_era_cases [of w h "depth_of d s" s]) (auto simp: op_capture_s_fmt_def)
next
  case (Proposed_reconfigure w h d)
  then show ?thesis
    by (cases rule: need_era_cases [of w h "depth_of d s" "s\<lparr>coded_w := Some w, coded_h := Some h\<rparr>"])
      (auto simp: op_proposed_reconfigure_def)
next
  case (Register n ts i)
  then show ?thesis
    by (cases rule: op_register_cases [of n ts i s]) (auto simp: set_buffer_def)
next
  case (Decode a)
  then show ?thesis by (simp add: decode_path)
next
  case (Submit a)
  then show ?thesis by (simp add: op_submit_def decode_path)
qed (auto simp: op_open_def op_output_s_fmt_def op_capture_reqbufs_def free_queue_def op_export_def
      op_inject_failure_def op_ask_firmware_def op_output_streamon_def op_output_streamoff_def
      op_capture_streamon_def op_capture_streamoff_def op_snapshot_def
      Let_def queue_dst_frame set_buffer_def split: option.split)

lemma after_events_path: "path (after_events evs s) = path s"
proof -
  have "path (snd (apply_event ev s)) = path s" for ev s
    using handler_path [of ev s] by (auto simp: apply_event_def split: prod.splits sum.splits)
  then have "path (snd (apply_json v s)) = path s" for v s
    by (simp add: apply_json_def split: sum.split json.split)
  then show ?thesis unfolding after_events_def by (induction evs arbitrary: s) simp_all
qed

lemma run_events_result:
  assumes "run_events p events sid prof depth = Inr res"
  shows "\<not> res_decoded_frame_evidence res"
    and "res_status res = ''model_accept'' \<longrightarrow> res_at_event res = None"
proof -
  obtain s rej s' where "run_loop 0 events s = Inr (rej, s')"
    and res: "(case rej of
       Some (i, code, invariant, kind) \<Rightarrow>
         Inr \<lparr>res_status = (if code = ''firmware_unknown'' then ''unknown'' else ''reject''),
              res_code = Some code, res_kind = kind, res_invariant = Some invariant,
              res_at_event = Some i, res_snapshot = session_snapshot s',
              res_decoded_frame_evidence = False\<rparr>
     | None \<Rightarrow>
         Inr \<lparr>res_status = (if p = ''proposed'' then ''model_accept'' else ''observe''),
              res_code = None,
              res_kind = (if p = ''proposed'' then ''proposed_contract'' else ''source_observed''),
              res_invariant = None, res_at_event = None, res_snapshot = session_snapshot s',
              res_decoded_frame_evidence = False\<rparr>) = (Inr res :: vp9_exn + run_result)"
    using assms unfolding run_events_def rbind_Inr by auto
  show "\<not> res_decoded_frame_evidence res"
    and "res_status res = ''model_accept'' \<longrightarrow> res_at_event res = None"
    using res by (cases rej; auto split: prod.splits if_splits)+
qed

lemma check_expect_parts:
  assumes "check_expect expect result doc = Inr ()"
  shows "jv expect ''status'' = JStr (res_status result)"
    and "res_status result = ''model_accept'' \<longrightarrow> jv doc ''path'' = JStr ''proposed'' \<and>
       res_kind result = ''proposed_contract''"
    and "dhas expect ''code'' \<longrightarrow> py_eq (opt_json (res_code result)) (jv expect ''code'')"
proof -
  note parts = assms [unfolded check_expect_def rbind_Inr need_Inr]
  show st: "jv expect ''status'' = JStr (res_status result)" using parts by simp
  show "res_status result = ''model_accept'' \<longrightarrow> jv doc ''path'' = JStr ''proposed'' \<and>
      res_kind result = ''proposed_contract''"
    using parts st by simp
  show "dhas expect ''code'' \<longrightarrow> py_eq (opt_json (res_code result)) (jv expect ''code'')"
    using parts by blast
qed

lemma run_fixture_parts:
  assumes "run_fixture (JObj doc) = Inr fx"
  obtains expect events sid prof depth where "jv doc ''expect'' = JObj expect"
    "list_ex (\<lambda>p. py_eq (jv expect ''status'') (JStr p)) [''reject'', ''unknown''] \<longrightarrow>
      is_str (jv expect ''code'')"
    "run_events (jstr doc ''path'') events sid prof depth = Inr (fx_result fx)"
    "check_expect expect (fx_result fx) doc = Inr ()"
proof -
  let ?sid = "if dhas doc ''session'' then jv doc ''session'' else JStr ''s1''"
  let ?prof = "if dhas doc ''profile'' then jv doc ''profile'' else JInt 0"
  let ?depth = "if dhas doc ''bit_depth'' then jv doc ''bit_depth''
    else if py_eq ?prof (JInt 0) then JInt 8 else JInt 10"
  obtain expect events result u u' where x: "(case jv doc ''expect'' of
        JObj d \<Rightarrow> if dhas d ''status'' then Inr d
          else Inl (FixtureError ''expect.status is required'')
      | _ \<Rightarrow> Inl (FixtureError ''expect.status is required'')) = Inr expect"
    and code: "need (FixtureError ''reject/unknown fixtures must name the expected code'')
      (\<not> (list_ex (\<lambda>p. py_eq (jv expect ''status'') (JStr p)) [''reject'', ''unknown''] \<and>
         \<not> is_str (jv expect ''code''))) = Inr u"
    and run: "run_events (jstr doc ''path'') events ?sid ?prof ?depth = Inr result"
    and chk: "check_expect expect result doc = Inr u'"
    and fx: "(Inr \<lparr>fx_result = result, fx_id = jv doc ''id'',
      fx_classification = jv doc ''classification''\<rparr> :: vp9_exn + fixture_result) = Inr fx"
    using assms unfolding run_fixture_def Let_def json.case
    by (elim rbind_InrE) blast
  have "jv doc ''expect'' = JObj expect" using x by (auto split: json.splits if_splits)
  then show thesis
    by (rule that) (use code run chk fx in \<open>auto simp: need_Inr\<close>)
qed

subsection \<open>Properties\<close>

text \<open>
  C2. Running any list of JSON values as events, on any path, session id, profile and depth, never
  ends in a missing key, an attribute of \<^verbatim>\<open>None\<close> or arithmetic on \<^verbatim>\<open>None\<close>: it raises a fixture error or
  returns a result. A result never claims decoded-frame evidence; if it reports a reject, the reject
  belongs to an event of the list and its kind is the one the source map records for its invariant.
\<close>
theorem run_events_total:
  "case run_events p events sid prof depth of
     Inl e \<Rightarrow> \<exists>m. e = FixtureError m
   | Inr res \<Rightarrow> \<not> res_decoded_frame_evidence res \<and>
       (case res_at_event res of
          None \<Rightarrow> res_status res = (if p = ''proposed'' then ''model_accept'' else ''observe'')
        | Some i \<Rightarrow> i < length events \<and> res_status res \<in> {''reject'', ''unknown''} \<and>
            (\<exists>inv0. res_invariant res = Some inv0 \<and> dget INVARIANTS inv0 = Some (res_kind res)))"
proof (cases "rall validate_event events")
  case (Inl e)
  have "\<not> crashes (rall validate_event events)" by (intro rall_no_crash validate_event_no_crash)
  moreover have "\<exists>m. e = FixtureError m"
    using Inl validate_event_not_reject by (metis rall_Inl_obtain)
  ultimately show ?thesis using Inl by (simp add: run_events_def)
next
  case (Inr u)
  show ?thesis
  proof (cases "Session p sid prof depth")
    case (Inl e)
    then have "\<exists>m. e = FixtureError m" by (auto simp: Session_def res_simps)
    then show ?thesis using Inr Inl by (simp add: run_events_def)
  next
    case (Inr s)
    note s = Inr
    have inv: "sinv s" by (rule sinv_Session [OF s])
    show ?thesis
    proof (cases "run_loop 0 events s")
      case (Inl e)
      then have "\<exists>m. e = FixtureError m" using run_loop_error [OF inv] by blast
      then show ?thesis using \<open>rall validate_event events = Inr u\<close> s Inl by (simp add: run_events_def)
    next
      case (Inr r)
      obtain rej s' where r: "r = (rej, s')" by fastforce
      have "j < length events \<and> dget INVARIANTS inv0 = Some kind"
        if "rej = Some (j, code, inv0, kind)" for j code inv0 kind
        using run_loop_result [OF inv, of 0 events j code inv0 kind s'] Inr r that by simp
      then show ?thesis
        using \<open>rall validate_event events = Inr u\<close> s Inr r
        by (auto simp: run_events_def split: option.split)
    qed
  qed
qed

lemma resolve_proposed_Inr:
  assumes inv: "sinv s" and r: "resolve_proposed r s = Inr ()"
  obtains b e where "dget (buffers s) r = Some b" "dget (eras s) (b_era_id b) = Some e"
    "era_sizeimg e \<le> b_backing_bytes b" "b_bit_depth b = bit_depth s" "b_decoded_ok b"
    "dhas (registrations s) r \<and> \<not> b_queued_as_dst b \<or>
     b_queued_as_dst b \<and> b_generation b = Some (capture_generation s)"
proof -
  obtain b where b: "dget (buffers s) r = Some b" and d: "b_bit_depth b = bit_depth s"
    using r by (auto simp: resolve_proposed_def split: option.splits if_splits)
  then obtain e where e: "dget (eras s) (b_era_id b) = Some e" "era_sizeimg e \<le> b_backing_bytes b"
    using r by (auto simp: resolve_proposed_def split: option.splits if_splits)
  have ok: "buffer_ok s r b" by (rule sinv_bufferD(1) [OF inv b])
  show thesis
  proof (cases "dget (registrations s) r")
    case (Some reg)
    obtain b' where "dget (buffers s) r = Some b'" "b_decoded_ok b'" "\<not> b_queued_as_dst b'"
      by (rule sinv_regE [OF inv Some])
    then show thesis using that [OF b e d] b Some by (simp add: dhas_def)
  next
    case None
    then have "b_wrapper_alive b \<and> b_decoded_ok b \<and> b_generation b = Some (capture_generation s)"
      using r b d e by (auto simp: resolve_proposed_def split: if_splits)
    then show thesis using that [OF b e d] ok by (simp add: buffer_ok_def)
  qed
qed

lemma apply_decode_Inr:
  assumes "apply_event (Decode a) s = (Inr u, s')"
  obtains era s1 where "op_decode a s = (Inr (), s1)" "s' = s1\<lparr>events_applied := events_applied s1 + 1\<rparr>"
    "current_era s = Some era" "resolve_refs a s = Inr ()" "finish_decode a era (bit_depth s) s = (Inr (), s1)"
    "\<not> failed s" "output_streaming s" "capture_streaming s"
proof -
  obtain s1 where d: "op_decode a s = (Inr (), s1)" "s' = s1\<lparr>events_applied := events_applied s1 + 1\<rparr>"
    using assms by (auto simp: apply_event_def split: if_splits prod.splits sum.splits)
  show thesis
    by (cases rule: op_decode_cases [of a s]) (use d that in auto)
qed

lemma finish_decode_frame:
  assumes inv: "sinv s" and f: "finish_decode a era (bit_depth s) s = (Inr (), s1)"
    and era: "current_era s = Some era"
  obtains b j where "dget (buffers s1) (d_dst a) = Some b" "b_queued_as_dst b" "b_decoded_ok b"
    "b_index b = Some j" "dget (slot s1) j = Some (d_dst a)"
    "\<forall>m. m \<noteq> d_dst a \<longrightarrow> dget (buffers s1) m = dget (buffers s) m" "sinv s1"
proof -
  have s1: "sinv s1" using sinv_finish_decode [OF inv era refl, of a] f by simp
  obtain b where b: "dget (buffers s1) (d_dst a) = Some b" "b_queued_as_dst b" "b_decoded_ok b"
    and m: "\<forall>m. m \<noteq> d_dst a \<longrightarrow> dget (buffers s1) m = dget (buffers s) m"
  proof (cases rule: finish_decode_cases [of a era "bit_depth s" s])
    case (ok s0 b0)
    have "dget (buffers s0) m = dget (buffers s) m" if "m \<noteq> d_dst a" for m
      using ok(4) queue_dst_frame(6) [OF that, of "d_backing_bytes a" s] by auto
    with ok f show ?thesis
      by (intro that [of "b0\<lparr>b_decoded_ok := True, b_era_id := era_id era, b_width := d_width a,
          b_height := d_height a, b_bit_depth := bit_depth s\<rparr>"]) (auto simp: set_buffer_def)
  qed (use f in simp)
  have "buffer_ok s1 (d_dst a) b" by (rule sinv_bufferD(1) [OF s1 b(1)])
  with b m s1 that show thesis by (auto simp: buffer_ok_def)
qed

text \<open>
  C1. Reference safety on the proposed path. In a session that any JSON events have led to, a decode
  that is accepted uses only references that are different from its destination, were decoded, have
  the depth of the session and a backing at least as large as the image size of their own era, and
  are either registered in this generation and not queued, or queued in this generation in a slot
  other than the destination's. The decode leaves every reference exactly as it was.
\<close>
theorem proposed_references_safe:
  assumes reach: "Session ''proposed'' sid prof depth = Inr s0" "s = after_events evs s0"
    and dec: "apply_event (Decode a) s = (Inr u, s')" and r: "r \<in> set (d_refs a)"
  shows "\<exists>b e. r \<noteq> d_dst a \<and> dget (buffers s) r = Some b \<and> dget (buffers s') r = Some b \<and>
    b_decoded_ok b \<and> b_bit_depth b = bit_depth s \<and>
    dget (eras s) (b_era_id b) = Some e \<and> era_sizeimg e \<le> b_backing_bytes b \<and>
    (dhas (registrations s) r \<and> \<not> b_queued_as_dst b \<or>
     b_queued_as_dst b \<and> b_generation b = Some (capture_generation s) \<and>
       (\<exists>d. dget (buffers s') (d_dst a) = Some d \<and> b_index d \<noteq> b_index b))"
proof -
  have inv: "sinv s" unfolding reach(2) by (rule reachable_sinv [OF reach(1)])
  have "path s0 = ''proposed''" using reach(1) by (auto simp: Session_def res_simps)
  then have path: "path s = ''proposed''" unfolding reach(2) by (simp add: after_events_path)
  obtain era s1 where s': "s' = s1\<lparr>events_applied := events_applied s1 + 1\<rparr>"
    and era: "current_era s = Some era" and refs: "resolve_refs a s = Inr ()"
    and fin: "finish_decode a era (bit_depth s) s = (Inr (), s1)"
    by (rule apply_decode_Inr [OF dec])
  have "resolve_ref a s r = Inr ()" using refs r by (simp add: resolve_refs_def rall_Inr)
  then have neq: "r \<noteq> d_dst a" and res: "resolve_proposed r s = Inr ()"
    using path by (auto simp: resolve_ref_def split: if_splits)
  obtain b e where b: "dget (buffers s) r = Some b" and e: "dget (eras s) (b_era_id b) = Some e"
    "era_sizeimg e \<le> b_backing_bytes b" "b_bit_depth b = bit_depth s" "b_decoded_ok b"
    and use: "dhas (registrations s) r \<and> \<not> b_queued_as_dst b \<or>
      b_queued_as_dst b \<and> b_generation b = Some (capture_generation s)"
    by (rule resolve_proposed_Inr [OF inv res])
  obtain d j where d: "dget (buffers s1) (d_dst a) = Some d" "b_index d = Some j"
      "dget (slot s1) j = Some (d_dst a)"
    and frame: "\<forall>m. m \<noteq> d_dst a \<longrightarrow> dget (buffers s1) m = dget (buffers s) m" and s1: "sinv s1"
    by (rule finish_decode_frame [OF inv fin era])
  have b1: "dget (buffers s1) r = Some b" using frame neq b by simp
  have "b_index d \<noteq> b_index b" if "b_queued_as_dst b"
    using sinv_bufferD(1) [OF s1 b1] that d neq by (auto simp: buffer_ok_def)
  then show ?thesis using b b1 e use neq d s' by auto
qed

definition ev :: "string \<Rightarrow> (string \<times> json) list \<Rightarrow> json" where
  "ev op args = JObj ((''op'', JStr op) # args)"

definition size_fields :: "int \<Rightarrow> int \<Rightarrow> (string \<times> json) list" where
  "size_fields w h = [(''width'', JInt w), (''height'', JInt h)]"

text \<open>The event sequence of the fixture \<^verbatim>\<open>proposed-grow.json\<close> without its last decode.\<close>

definition grow_events :: "json list" where
  "grow_events =
     [ev ''open'' [], ev ''output_s_fmt'' (size_fields 320 180), ev ''capture_s_fmt'' (size_fields 320 180),
      ev ''capture_reqbufs'' [(''count'', JInt 4)], ev ''output_streamon'' [], ev ''capture_streamon'' [],
      ev ''decode'' ((''dst'', JStr ''A'') # (''key'', JBool True) # size_fields 320 180),
      ev ''decode'' ((''dst'', JStr ''B'') # (''refs'', JList [JStr ''A'']) # size_fields 320 180),
      ev ''export'' [(''name'', JStr ''A'')], ev ''export'' [(''name'', JStr ''B'')],
      ev ''capture_streamoff'' [], ev ''capture_reqbufs'' [(''count'', JInt 0)],
      ev ''proposed_reconfigure'' (size_fields 640 360), ev ''capture_reqbufs'' [(''count'', JInt 4)],
      ev ''capture_streamon'' [], ev ''register'' [(''name'', JStr ''A'')],
      ev ''register'' [(''name'', JStr ''B'')]]"

definition start :: "string \<Rightarrow> session" where
  "start p = (case Session p (JStr ''s1'') (JInt 0) (JInt 8) of Inr s \<Rightarrow> s)"

definition grow_decode :: decode_args where
  "grow_decode = \<lparr>d_dst = ''C'', d_width = 640, d_height = 360, d_bit_depth = None, d_key = False,
     d_refs = [''A'', ''B''], d_backing_bytes = None, d_force_kernel_lookup = False\<rparr>"

lemma start_eq: "p \<in> {''stock'', ''proposed''} \<Longrightarrow> Session p (JStr ''s1'') (JInt 0) (JInt 8) = Inr (start p)"
  by (auto simp: start_def Session_def)

lemma grow_accepted: "fst (apply_event (Decode grow_decode) (after_events grow_events (start ''proposed''))) = Inr ()"
  by code_simp

theorem proposed_references_safe_witness:
  "\<exists>b. dget (buffers (snd (apply_event (Decode grow_decode)
      (after_events grow_events (start ''proposed''))))) ''A'' = Some b \<and> b_decoded_ok b"
proof -
  let ?s = "after_events grow_events (start ''proposed'')"
  have "apply_event (Decode grow_decode) ?s = (Inr (), snd (apply_event (Decode grow_decode) ?s))"
    using grow_accepted by (metis prod.collapse)
  then show ?thesis
    using proposed_references_safe [OF start_eq refl, where evs = grow_events and a = grow_decode and r = "''A''"]
    by (fastforce simp: grow_decode_def)
qed

text \<open>
  \<open>no_new_work s s'\<close>: from \<open>s\<close> to \<open>s'\<close> no buffer appeared, none became decoded or queued, none was
  registered, no timestamp was bound and CAPTURE streaming was not started.
\<close>

definition no_new_work :: "session \<Rightarrow> session \<Rightarrow> bool" where
  "no_new_work s s' \<longleftrightarrow>
     (\<forall>n b'. dget (buffers s') n = Some b' \<longrightarrow> (\<exists>b. dget (buffers s) n = Some b \<and>
        (b_decoded_ok b' \<longrightarrow> b_decoded_ok b) \<and> (b_queued_as_dst b' \<longrightarrow> b_queued_as_dst b))) \<and>
     (\<forall>n. dhas (registrations s') n \<longrightarrow> dhas (registrations s) n) \<and> ts_index s' = ts_index s \<and>
     (capture_streaming s' \<longrightarrow> capture_streaming s)"

lemma no_new_work_refl: "no_new_work s s"
  by (simp add: no_new_work_def)

lemma no_new_work_trans: "no_new_work s s' \<Longrightarrow> no_new_work s' s'' \<Longrightarrow> no_new_work s s''"
  unfolding no_new_work_def by metis

lemma no_new_work_plain:
  "buffers s' = buffers s \<Longrightarrow> registrations s' = registrations s \<Longrightarrow> ts_index s' = ts_index s \<Longrightarrow>
    capture_streaming s' = capture_streaming s \<or> \<not> capture_streaming s' \<Longrightarrow> no_new_work s s'"
  by (auto simp: no_new_work_def)

lemma free_queue_no_new_work: "no_new_work s (free_queue s)"
  by (auto simp: no_new_work_def free_queue_def dget_map_values drop_wrapper_simps dhas_def)

lemma handler_no_new_work:
  assumes "\<not> needs_live_session e"
  shows "no_new_work s (snd (handler e s))"
proof (cases e)
  case (Capture_s_fmt w h d)
  then show ?thesis
    by (cases rule: need_era_cases [of w h "depth_of d s" s]) (auto simp: op_capture_s_fmt_def intro!: no_new_work_plain)
next
  case (Capture_reqbufs n)
  have "no_new_work s (t\<lparr>capture_slots := n, slot := []\<rparr>)" if "no_new_work s t" for t
    using that by (simp add: no_new_work_def)
  with Capture_reqbufs show ?thesis
    by (simp add: op_capture_reqbufs_def Let_def no_new_work_refl free_queue_no_new_work)
next
  case (Export n x)
  then show ?thesis by (auto simp: op_export_def no_new_work_def set_buffer_def split: option.split)
qed (use assms in \<open>auto simp: op_open_def op_output_s_fmt_def op_inject_failure_def op_ask_firmware_def op_output_streamon_def
    op_output_streamoff_def op_capture_streamoff_def op_snapshot_def Let_def split: option.split intro!: no_new_work_plain\<close>)

lemma apply_json_no_new_work: "failed s \<Longrightarrow> no_new_work s (snd (apply_json v s))"
proof -
  have "no_new_work s (snd (apply_event e s))" if "failed s" for e
  proof (cases "needs_live_session e")
    case False
    then have "no_new_work s (snd (handler e s))" by (rule handler_no_new_work)
    then show ?thesis using False by (auto simp: apply_event_def no_new_work_def split: prod.splits sum.splits)
  qed (simp add: apply_event_def that no_new_work_refl)
  then show "failed s \<Longrightarrow> no_new_work s (snd (apply_json v s))"
    by (simp add: apply_json_def no_new_work_refl split: sum.split json.split)
qed

text \<open>
  C3. A session that failed after a destructive step does no more work. Whatever JSON events follow, it
  stays failed, no buffer appears, is decoded, is queued or is registered, no timestamp is bound and
  CAPTURE streaming is not started; and every valid event whose operation is \<^verbatim>\<open>decode\<close>, \<^verbatim>\<open>submit\<close>,
  \<^verbatim>\<open>register\<close>, \<^verbatim>\<open>queue_dst\<close>, \<^verbatim>\<open>proposed_reconfigure\<close> or \<^verbatim>\<open>capture_streamon\<close> is refused as
  \<^verbatim>\<open>partial_failure_reuse\<close> and changes nothing.
\<close>
theorem failed_session_frozen:
  assumes "failed s" and "s' = after_events evs s"
  shows "failed s' \<and> no_new_work s s' \<and>
    (\<forall>d. validate_event (JObj d) = Inr () \<and>
       jv d ''op'' \<in> {JStr ''decode'', JStr ''submit'', JStr ''register'', JStr ''queue_dst'', JStr ''proposed_reconfigure'',
         JStr ''capture_streamon''} \<longrightarrow>
       apply_json (JObj d) s' = (Inl (Reject ''partial_failure_reuse'' ''failed_session_no_submit'' ''proposed_contract''), s'))"
proof -
  have "failed s' \<and> no_new_work s s'"
    unfolding assms(2) after_events_def using assms(1)
  proof (induction evs arbitrary: s)
    case (Cons v evs)
    then have "failed (snd (apply_json v s))" "no_new_work s (snd (apply_json v s))"
      by (simp_all add: apply_json_failed apply_json_no_new_work)
    with Cons.IH [of "snd (apply_json v s)"] show ?case by (auto intro: no_new_work_trans)
  qed (simp add: no_new_work_refl)
  moreover have "reject ''partial_failure_reuse'' ''failed_session_no_submit'' =
      Reject ''partial_failure_reuse'' ''failed_session_no_submit'' ''proposed_contract''"
    by code_simp
  ultimately show ?thesis by (auto simp: apply_json_def apply_event_def event_of_def jstr_def)
qed

definition failed_start :: session where
  "failed_start = after_events [ev ''capture_reqbufs'' [(''count'', JInt 0)], ev ''inject_failure'' []]
     (start ''proposed'')"

theorem failed_session_frozen_witness:
  "failed failed_start \<and> no_new_work failed_start (after_events grow_events failed_start) \<and>
   apply_json (ev ''register'' [(''name'', JStr ''B'')]) (after_events grow_events failed_start) =
     (Inl (Reject ''partial_failure_reuse'' ''failed_session_no_submit'' ''proposed_contract''), after_events grow_events failed_start)"
proof -
  have "failed failed_start" by code_simp
  moreover obtain d where d: "ev ''register'' [(''name'', JStr ''B'')] = JObj d" "jv d ''op'' = JStr ''register''"
    by (simp add: ev_def jv_def)
  moreover have "validate_event (ev ''register'' [(''name'', JStr ''B'')]) = Inr ()" by code_simp
  ultimately show ?thesis using failed_session_frozen [OF _ refl, of failed_start grow_events] by simp
qed

text \<open>
  C4. Capture slots. In a session that any JSON events have led to, every queued destination has a
  slot number below the number of allocated buffers, belongs to the current generation, and shares
  its slot with no other buffer; every registered reference belongs to the current generation and is
  exported, decoded and not queued, and registrations exist only on the proposed path.
\<close>
theorem destination_slots_exclusive:
  assumes "Session p sid prof depth = Inr s0" and "s = after_events evs s0"
  shows "(\<forall>n b. dget (buffers s) n = Some b \<and> b_queued_as_dst b \<longrightarrow>
      (\<exists>i. b_index b = Some i \<and> i < capture_slots s \<and> b_generation b = Some (capture_generation s)) \<and>
      (\<forall>m c. dget (buffers s) m = Some c \<and> b_queued_as_dst c \<and> b_index c = b_index b \<longrightarrow> m = n)) \<and>
    (\<forall>n r. dget (registrations s) n = Some r \<longrightarrow> path s = ''proposed'' \<and>
      r_generation r = capture_generation s \<and>
      (\<exists>b. dget (buffers s) n = Some b \<and> b_exported b \<and> b_decoded_ok b \<and> \<not> b_queued_as_dst b))"
proof -
  have inv: "sinv s" unfolding assms(2) by (rule reachable_sinv [OF assms(1)])
  have slot: "\<exists>i. b_index b = Some i \<and> dget (slot s) i = Some n \<and> b_generation b = Some (capture_generation s)"
    if "dget (buffers s) n = Some b" "b_queued_as_dst b" for n b
    using sinv_bufferD(1) [OF inv that(1)] that(2) by (simp add: buffer_ok_def)
  have bound: "i < capture_slots s" if "dget (slot s) i = Some n" for i n
    by (rule sinv_slotE [OF inv that])
  have unique: "m = n" if b: "dget (buffers s) n = Some b" "b_queued_as_dst b"
    and c: "dget (buffers s) m = Some c" "b_queued_as_dst c" and "b_index c = b_index b" for n b m c
    using slot [OF b] slot [OF c] that(5) by auto
  have "path s = ''proposed'' \<and> r_generation r = capture_generation s \<and>
      (\<exists>b. dget (buffers s) n = Some b \<and> b_exported b \<and> b_decoded_ok b \<and> \<not> b_queued_as_dst b)"
    if "dget (registrations s) n = Some r" for n r
    by (rule sinv_regE [OF inv that]) blast
  then show ?thesis using slot bound unique by blast
qed

theorem destination_slots_exclusive_witness:
  "\<exists>r. dget (registrations (after_events grow_events (start ''proposed''))) ''A'' = Some r \<and>
     r_generation r = capture_generation (after_events grow_events (start ''proposed''))"
proof -
  have "dget (registrations (after_events grow_events (start ''proposed''))) ''A'' \<noteq> None" by code_simp
  then show ?thesis
    using destination_slots_exclusive [OF start_eq refl, where evs = grow_events and p = "''proposed''"]
    by blast
qed

text \<open>
  On the stock path with the userspace lookup, an accepted inter picture uses only references
  that are queued in the current generation and were decoded, so a reference from before a queue
  replacement is never accepted.
\<close>
theorem stock_references_live:
  assumes "Session ''stock'' sid prof depth = Inr s0" and "s = after_events evs s0"
    and "apply_event (Decode a) s = (Inr u, s')" and "\<not> d_force_kernel_lookup a"
    and "r \<in> set (d_refs a)"
  shows "\<exists>b. r \<noteq> d_dst a \<and> dget (buffers s) r = Some b \<and> b_decoded_ok b \<and> b_queued_as_dst b \<and>
    b_generation b = Some (capture_generation s)"
proof -
  have inv: "sinv s" unfolding assms(2) by (rule reachable_sinv [OF assms(1)])
  have "path s0 = ''stock''" using assms(1) by (auto simp: Session_def res_simps)
  then have path: "path s = ''stock''" unfolding assms(2) by (simp add: after_events_path)
  have "resolve_refs a s = Inr ()" by (rule apply_decode_Inr [OF assms(3)])
  then have "resolve_ref a s r = Inr ()" using assms(5) by (simp add: resolve_refs_def rall_Inr)
  then have "r \<noteq> d_dst a" and res: "resolve_stock_userspace r s = Inr ()"
    using path assms(4) by (auto simp: resolve_ref_def split: if_splits)
  moreover obtain b where b: "dget (buffers s) r = Some b" "b_wrapper_alive b" "b_decoded_ok b"
      "b_generation b = Some (capture_generation s)"
    using res by (auto simp: resolve_stock_userspace_def need_Inr split: option.splits)
  moreover have "b_queued_as_dst b" using sinv_bufferD(1) [OF inv b(1)] b(2) by (simp add: buffer_ok_def)
  ultimately show ?thesis by blast
qed

definition stock_events :: "json list" where
  "stock_events =
     [ev ''output_s_fmt'' (size_fields 64 64), ev ''capture_s_fmt'' (size_fields 64 64),
      ev ''capture_reqbufs'' [(''count'', JInt 2)], ev ''output_streamon'' [], ev ''capture_streamon'' [],
      ev ''decode'' ((''dst'', JStr ''A'') # (''key'', JBool True) # size_fields 64 64)]"

definition stock_decode :: "bool \<Rightarrow> decode_args" where
  "stock_decode force = \<lparr>d_dst = ''B'', d_width = 64, d_height = 64, d_bit_depth = None, d_key = False,
     d_refs = [''A''], d_backing_bytes = None, d_force_kernel_lookup = force\<rparr>"

theorem stock_references_live_witness:
  "\<exists>b. dget (buffers (after_events stock_events (start ''stock''))) ''A'' = Some b \<and> b_decoded_ok b \<and>
     b_queued_as_dst b"
proof -
  let ?s = "after_events stock_events (start ''stock'')"
  have "fst (apply_event (Decode (stock_decode False)) ?s) = Inr ()" by code_simp
  then have "apply_event (Decode (stock_decode False)) ?s =
      (Inr (), snd (apply_event (Decode (stock_decode False)) ?s))"
    by (metis prod.collapse)
  then show ?thesis
    using stock_references_live [OF start_eq refl, where evs = stock_events and a = "stock_decode False"
        and r = "''A''"]
    by (fastforce simp: stock_decode_def)
qed

lemma stock_kernel_only_queued:
  assumes "Session ''stock'' sid prof depth = Inr s0" and "s = after_events evs s0" and "resolve_stock_kernel r s = Inr ()"
  shows "\<exists>b. dget (buffers s) r = Some b \<and> b_queued_as_dst b \<and> b_generation b = Some (capture_generation s)"
proof -
  from assms(3) obtain t where t: "dget (ts_index s) (capture_generation s, t) = Some r"
    by (auto simp: resolve_stock_kernel_def Let_def need_Inr split: option.splits)
  have inv: "sinv s" unfolding assms(2) by (rule reachable_sinv [OF assms(1)])
  have "path s0 = ''stock''" using assms(1) by (auto simp: Session_def res_simps)
  then have "path s = ''stock''" by (simp add: assms(2) after_events_path)
  then have none: "\<not> dhas (registrations s) r" using sinv_regE [OF inv] by (fastforce simp: dhas_def)
  obtain b where b: "dget (buffers s) r = Some b" "b_queued_as_dst b \<or> dhas (registrations s) r"
    by (rule sinv_tsE [OF inv t])
  then show ?thesis using none sinv_bufferD(1) [OF inv b(1)] by (simp add: buffer_ok_def)
qed

text \<open>Queueing a destination binds its timestamp, so that the kernel lookup finds it, decoded or not.\<close>

definition undecoded_events :: "json list" where
  "undecoded_events = butlast stock_events @ [ev ''queue_dst'' [(''dst'', JStr ''A'')]]"

lemma undecoded_accepted:
  assumes "Session ''stock'' sid prof depth = Inr s0"
  shows "fst (apply_event (Decode (stock_decode True)) (after_events undecoded_events s0)) = Inr () \<and>
    map_option b_decoded_ok (dget (buffers (after_events undecoded_events s0)) ''A'') = Some False"
proof -
  have k: "prof = JInt 0 \<and> depth = JInt 8 \<or> prof = JInt 2 \<and> depth = JInt 10"
    using assms by (auto simp: Session_def res_simps split: json.splits)
  have 8: "case Session ''stock'' sid (JInt 0) (JInt 8) of Inl _ \<Rightarrow> False
     | Inr s0 \<Rightarrow> fst (apply_event (Decode (stock_decode True)) (after_events undecoded_events s0)) = Inr () \<and>
         map_option b_decoded_ok (dget (buffers (after_events undecoded_events s0)) ''A'') = Some False"
    by code_simp
  have 10: "case Session ''stock'' sid (JInt 2) (JInt 10) of Inl _ \<Rightarrow> False
     | Inr s0 \<Rightarrow> fst (apply_event (Decode (stock_decode True)) (after_events undecoded_events s0)) = Inr () \<and>
         map_option b_decoded_ok (dget (buffers (after_events undecoded_events s0)) ''A'') = Some False"
    by code_simp
  from k show ?thesis using 8 10 assms by auto
qed

text \<open>
  C5. The kernel lookup of the stock path (\<^verbatim>\<open>force_kernel_lookup\<close>), which is documented as never
  accepting, does accept. In whatever state JSON events have led a stock session of any identity and
  profile, a reference it accepts is queued in the current generation; and from every such initial
  session there are events after which a decode through it is accepted although its reference was
  queued and never decoded.
\<close>
theorem stock_kernel_lookup_accepts:
  assumes "Session ''stock'' sid prof depth = Inr s0"
  shows "(\<forall>evs r. resolve_stock_kernel r (after_events evs s0) = Inr () \<longrightarrow>
      (\<exists>b. dget (buffers (after_events evs s0)) r = Some b \<and> b_queued_as_dst b \<and>
         b_generation b = Some (capture_generation (after_events evs s0)))) \<and>
    (\<exists>evs a r b. d_refs a = [r] \<and> d_force_kernel_lookup a \<and> fst (apply_event (Decode a) (after_events evs s0)) = Inr () \<and>
      dget (buffers (after_events evs s0)) r = Some b \<and> \<not> b_decoded_ok b)"
proof (intro conjI allI impI)
  show "\<exists>b. dget (buffers (after_events evs s0)) r = Some b \<and> b_queued_as_dst b \<and>
      b_generation b = Some (capture_generation (after_events evs s0))"
    if "resolve_stock_kernel r (after_events evs s0) = Inr ()" for evs r
    using stock_kernel_only_queued [OF assms refl that] .
  have "d_refs (stock_decode True) = [''A''] \<and> d_force_kernel_lookup (stock_decode True)" by (simp add: stock_decode_def)
  with undecoded_accepted [OF assms] show "\<exists>evs a r b. d_refs a = [r] \<and> d_force_kernel_lookup a \<and>
      fst (apply_event (Decode a) (after_events evs s0)) = Inr () \<and> dget (buffers (after_events evs s0)) r = Some b \<and> \<not> b_decoded_ok b"
    by blast
qed

theorem stock_kernel_lookup_accepts_witness:
  "(\<exists>b. dget (buffers (after_events stock_events (start ''stock''))) ''A'' = Some b \<and> b_queued_as_dst b) \<and>
   (\<exists>evs a. d_force_kernel_lookup a \<and> fst (apply_event (Decode a) (after_events evs (start ''stock''))) = Inr ())"
proof -
  have "Session ''stock'' (JStr ''s1'') (JInt 0) (JInt 8) = Inr (start ''stock'')" by (rule start_eq) simp
  note acc = stock_kernel_lookup_accepts [OF this]
  have "resolve_stock_kernel ''A'' (after_events stock_events (start ''stock'')) = Inr ()" by code_simp
  then show ?thesis using acc by blast
qed

text \<open>
  A fixture that passes was run against its own expectation: the reported status is the expected
  one, the code of a reject is the expected code, nothing claims decoded-frame evidence, and a
  \<^verbatim>\<open>model_accept\<close> is on the proposed path, labelled as a proposed contract, with every event applied.
\<close>
theorem fixture_pass_means_expected:
  assumes "run_fixture v = Inr fx"
  shows "\<exists>doc expect. v = JObj doc \<and> jv doc ''expect'' = JObj expect \<and>
    jv expect ''status'' = JStr (res_status (fx_result fx)) \<and>
    \<not> res_decoded_frame_evidence (fx_result fx) \<and>
    (res_status (fx_result fx) = ''model_accept'' \<longrightarrow> jv doc ''path'' = JStr ''proposed'' \<and>
       res_kind (fx_result fx) = ''proposed_contract'' \<and> res_at_event (fx_result fx) = None) \<and>
    (res_status (fx_result fx) \<in> {''reject'', ''unknown''} \<longrightarrow>
       (\<exists>c. res_code (fx_result fx) = Some c \<and> jv expect ''code'' = JStr c))"
proof -
  obtain doc where v: "v = JObj doc" using assms by (cases v) (auto simp: run_fixture_def)
  obtain expect events sid prof depth where x: "jv doc ''expect'' = JObj expect"
    and code: "list_ex (\<lambda>p. py_eq (jv expect ''status'') (JStr p)) [''reject'', ''unknown''] \<longrightarrow>
      is_str (jv expect ''code'')"
    and run: "run_events (jstr doc ''path'') events sid prof depth = Inr (fx_result fx)"
    and chk: "check_expect expect (fx_result fx) doc = Inr ()"
    by (rule run_fixture_parts [OF assms [unfolded v]])
  have status: "jv expect ''status'' = JStr (res_status (fx_result fx))"
    and kind: "res_status (fx_result fx) = ''model_accept'' \<longrightarrow> jv doc ''path'' = JStr ''proposed'' \<and>
       res_kind (fx_result fx) = ''proposed_contract''"
    and ok: "dhas expect ''code'' \<longrightarrow> py_eq (opt_json (res_code (fx_result fx))) (jv expect ''code'')"
    using check_expect_parts [OF chk] by blast+
  note total = run_events_result [OF run]
  have "\<exists>c. res_code (fx_result fx) = Some c \<and> jv expect ''code'' = JStr c"
    if st: "res_status (fx_result fx) \<in> {''reject'', ''unknown''}"
  proof -
    obtain c where c: "jv expect ''code'' = JStr c" using code st status by (auto simp: is_str_iff)
    then have "dhas expect ''code''" by (auto simp: jv_def dhas_def split: option.splits)
    with ok c have "opt_json (res_code (fx_result fx)) = JStr c" by simp
    with c show ?thesis by (auto simp: opt_json_def split: option.splits)
  qed
  with v x status kind total show ?thesis by auto
qed

definition sub64_expect :: "(string, json) dict" where
  "sub64_expect = [(''status'', JStr ''reject''), (''code'', JStr ''sub64'')]"

definition sub64_doc :: "(string, json) dict" where
  "sub64_doc = [(''schema'', JStr SCHEMA), (''id'', JStr ''x''), (''path'', JStr ''stock''),
     (''classification'', JStr ''adversarial_api''), (''expect'', JObj sub64_expect),
     (''events'', JList [ev ''capture_s_fmt'' (size_fields 48 64)])]"

theorem fixture_pass_means_expected_witness:
  "\<exists>fx. run_fixture (JObj sub64_doc) = Inr fx \<and> res_code (fx_result fx) = Some ''sub64''"
proof -
  have "\<not> isl (run_fixture (JObj sub64_doc))" by code_simp
  then obtain fx where fx: "run_fixture (JObj sub64_doc) = Inr fx"
    by (cases "run_fixture (JObj sub64_doc)") auto
  have x: "jv sub64_doc ''expect'' = JObj sub64_expect" by code_simp
  have c: "jv sub64_expect ''code'' = JStr ''sub64''" "jv sub64_expect ''status'' = JStr ''reject''"
    by code_simp+
  from fixture_pass_means_expected [OF fx] x c fx show ?thesis by auto
qed

end
