(* ===== verification/H264_Selection.thy ===== *)
theory H264_Selection
  imports Json
begin

text \<open>
  H.264 profile selection, \<open>src/experiments/h264-profile-selection/selection.py\<close>: the exact-match
  behaviour of the current client (\<open>select_current\<close>) and the proposed feature-aware remap
  (\<open>select_proposed\<close>) on a typed inventory of a stream.

  The inventory arrives as JSON. \<open>validate_inventory\<close> checks it field by field; \<open>picture_of\<close> reads a
  validated picture into the records \<open>sps\<close>, \<open>pps\<close> and \<open>slice\<close>. An argument \<^verbatim>\<open>None\<close> for the advertised
  profiles is \<open>JNull\<close>. FFmpeg profile names are a datatype, VA profile names and reasons are strings.
  Texts of fixture errors are kept without interpolated positions.
\<close>

definition H264_SCHEMA :: string where "H264_SCHEMA = ''omarchy-m1-video.h264-profile-selection/2''"

datatype ff_profile =
    H264_BASELINE | H264_CONSTRAINED_BASELINE | H264_MAIN | H264_EXTENDED | H264_HIGH
  | H264_HIGH_10 | H264_HIGH_10_INTRA | H264_UNKNOWN int

definition VAAPI_PROFILE_MAP :: "(ff_profile \<times> string) list" where
  "VAAPI_PROFILE_MAP =
     [(H264_HIGH_10_INTRA, ''VAProfileH264High10''),
      (H264_HIGH_10, ''VAProfileH264High10''),
      (H264_CONSTRAINED_BASELINE, ''VAProfileH264ConstrainedBaseline''),
      (H264_MAIN, ''VAProfileH264Main''),
      (H264_HIGH, ''VAProfileH264High'')]"

definition DEFAULT_ADVERTISED :: "string list" where
  "DEFAULT_ADVERTISED =
     [''VAProfileH264ConstrainedBaseline'', ''VAProfileH264Main'', ''VAProfileH264High'',
      ''VAProfileH264High10'']"

definition SLICE_TYPE_NAMES :: "string list" where
  "SLICE_TYPE_NAMES = [''I'', ''P'', ''B'', ''SP'', ''SI'']"

definition SLICE_SET_IP :: "string list" where "SLICE_SET_IP = [''I'', ''P'']"
definition SLICE_SET_IPB :: "string list" where "SLICE_SET_IPB = [''I'', ''P'', ''B'']"

definition VA_PROFILE_ALLOWED_FF :: "(string, ff_profile list) dict" where
  "VA_PROFILE_ALLOWED_FF =
     [(''VAProfileH264ConstrainedBaseline'', [H264_BASELINE, H264_CONSTRAINED_BASELINE]),
      (''VAProfileH264Main'', [H264_BASELINE, H264_CONSTRAINED_BASELINE, H264_MAIN, H264_EXTENDED]),
      (''VAProfileH264High'', [H264_BASELINE, H264_CONSTRAINED_BASELINE, H264_MAIN, H264_EXTENDED,
         H264_HIGH]),
      (''VAProfileH264High10'', [H264_BASELINE, H264_CONSTRAINED_BASELINE, H264_MAIN, H264_EXTENDED,
         H264_HIGH, H264_HIGH_10, H264_HIGH_10_INTRA])]"

definition VA_PROFILE_MAX_BIT_DEPTH_MINUS8 :: "(string, int) dict" where
  "VA_PROFILE_MAX_BIT_DEPTH_MINUS8 =
     [(''VAProfileH264ConstrainedBaseline'', 0), (''VAProfileH264Main'', 0),
      (''VAProfileH264High'', 0), (''VAProfileH264High10'', 2)]"

type_synonym checks = "(string, bool) dict"

definition DEFAULT_CHECKS :: checks where
  "DEFAULT_CHECKS = map (\<lambda>k. (k, True))
     [''fmo'', ''fields'', ''partitions'', ''malformed'', ''scan_all_pictures'', ''sps_compat'',
      ''slice_types'']"

definition check_on :: "checks \<Rightarrow> string \<Rightarrow> bool" where
  "check_on c k = (case dget c k of None \<Rightarrow> True | Some b \<Rightarrow> b)"

datatype h264_error = H264FixtureError string

subsection \<open>The inventory\<close>

datatype bound = BBool | BSlice | BRange int int

definition good_value :: "bound \<Rightarrow> json \<Rightarrow> bool" where
  "good_value b v = (case b of
     BBool \<Rightarrow> is_bool v
   | BSlice \<Rightarrow> (case v of JStr s \<Rightarrow> s \<in> set SLICE_TYPE_NAMES | _ \<Rightarrow> False)
   | BRange lo hi \<Rightarrow> (case v of JInt i \<Rightarrow> lo \<le> i \<and> i \<le> hi | _ \<Rightarrow> False))"

definition check_object :: "(string, bound) dict \<Rightarrow> json \<Rightarrow> h264_error + unit" where
  "check_object fields v =
     (case v of
        JObj d \<Rightarrow>
          rbind (need (H264FixtureError ''expected exactly'') (keys_are d (map fst fields))) (\<lambda>_.
          rall (\<lambda>(key, b). need (H264FixtureError ''invalid value/type'') (good_value b (jv d key))) fields)
      | _ \<Rightarrow> Inl (H264FixtureError ''expected exactly''))"

definition SPS_FIELDS :: "(string, bound) dict" where
  "SPS_FIELDS =
     [(''profile_idc'', BRange 0 255), (''constraint_set1_flag'', BRange 0 1),
      (''constraint_set3_flag'', BRange 0 1), (''frame_mbs_only_flag'', BRange 0 1),
      (''mb_adaptive_frame_field_flag'', BRange 0 1), (''chroma_format_idc'', BRange 0 3),
      (''bit_depth_luma_minus8'', BRange 0 6), (''bit_depth_chroma_minus8'', BRange 0 6),
      (''parse_ok'', BBool)]"

definition PPS_FIELDS :: "(string, bound) dict" where
  "PPS_FIELDS =
     [(''num_slice_groups_minus1'', BRange 0 7), (''entropy_coding_mode_flag'', BRange 0 1),
      (''redundant_pic_cnt_present_flag'', BRange 0 1), (''transform_8x8_mode_flag'', BRange 0 1),
      (''parse_ok'', BBool)]"

definition SLICE_FIELDS :: "(string, bound) dict" where
  "SLICE_FIELDS =
     [(''nal_unit_type'', BRange 0 31), (''slice_type'', BSlice), (''field_pic_flag'', BRange 0 1),
      (''first_mb_in_slice'', BRange 0 (2 ^ 32 - 1)), (''redundant_pic_cnt'', BRange 0 127),
      (''parse_ok'', BBool)]"

definition check_picture :: "json \<Rightarrow> h264_error + unit" where
  "check_picture v =
     (case v of
        JObj pic \<Rightarrow>
          rbind (need (H264FixtureError ''sps, pps and slices required'')
            (keys_are pic [''sps'', ''pps'', ''slices''])) (\<lambda>_.
          rbind (check_object SPS_FIELDS (jv pic ''sps'')) (\<lambda>_.
          rbind (check_object PPS_FIELDS (jv pic ''pps'')) (\<lambda>_.
          (case jv pic ''slices'' of
             JList (sl # sls) \<Rightarrow> rall (check_object SLICE_FIELDS) (sl # sls)
           | _ \<Rightarrow> Inl (H264FixtureError ''slices must be nonempty'')))))
      | _ \<Rightarrow> Inl (H264FixtureError ''sps, pps and slices required''))"

definition validate_inventory :: "json \<Rightarrow> json \<Rightarrow> h264_error + unit" where
  "validate_inventory v advertised =
     (case v of
        JObj stream \<Rightarrow>
          rbind (case jv stream ''pictures'' of
                   JList (p # ps) \<Rightarrow> rall check_picture (p # ps)
                 | _ \<Rightarrow> Inl (H264FixtureError ''pictures must be a nonempty list'')) (\<lambda>_.
          let profiles = (if advertised = JNull then jv stream ''advertised'' else advertised) in
          rbind (case profiles of
                   JList ps \<Rightarrow>
                     rbind (need (H264FixtureError ''advertised must be an explicit list of modelled VA profiles'')
                       (list_all (\<lambda>p. list_ex (\<lambda>q. p = JStr q) DEFAULT_ADVERTISED) ps)) (\<lambda>_.
                     need (H264FixtureError ''duplicate advertised profiles'') (distinct ps))
                 | _ \<Rightarrow> Inl (H264FixtureError
                     ''advertised must be an explicit list of modelled VA profiles'')) (\<lambda>_.
          need (H264FixtureError ''allow_profile_mismatch must be boolean'')
            (\<not> (dhas stream ''allow_profile_mismatch'' \<and>
               \<not> is_bool (jv stream ''allow_profile_mismatch'')))))
      | _ \<Rightarrow> Inl (H264FixtureError ''stream must be an object''))"

record sps =
  profile_idc :: int
  constraint_set1_flag :: int
  constraint_set3_flag :: int
  frame_mbs_only_flag :: int
  mb_adaptive_frame_field_flag :: int
  chroma_format_idc :: int
  bit_depth_luma_minus8 :: int
  bit_depth_chroma_minus8 :: int
  sps_parse_ok :: bool

record pps =
  num_slice_groups_minus1 :: int
  entropy_coding_mode_flag :: int
  redundant_pic_cnt_present_flag :: int
  transform_8x8_mode_flag :: int
  pps_parse_ok :: bool

record slice =
  nal_unit_type :: int
  slice_type :: string
  field_pic_flag :: int
  first_mb_in_slice :: int
  redundant_pic_cnt :: int
  slice_parse_ok :: bool

record picture =
  pic_sps :: sps
  pic_pps :: pps
  pic_slices :: "slice list"

definition sps_of :: "(string, json) dict \<Rightarrow> sps" where
  "sps_of d = \<lparr>profile_idc = jint d ''profile_idc'',
     constraint_set1_flag = jint d ''constraint_set1_flag'',
     constraint_set3_flag = jint d ''constraint_set3_flag'',
     frame_mbs_only_flag = jint d ''frame_mbs_only_flag'',
     mb_adaptive_frame_field_flag = jint d ''mb_adaptive_frame_field_flag'',
     chroma_format_idc = jint d ''chroma_format_idc'',
     bit_depth_luma_minus8 = jint d ''bit_depth_luma_minus8'',
     bit_depth_chroma_minus8 = jint d ''bit_depth_chroma_minus8'',
     sps_parse_ok = jbool d ''parse_ok''\<rparr>"

definition pps_of :: "(string, json) dict \<Rightarrow> pps" where
  "pps_of d = \<lparr>num_slice_groups_minus1 = jint d ''num_slice_groups_minus1'',
     entropy_coding_mode_flag = jint d ''entropy_coding_mode_flag'',
     redundant_pic_cnt_present_flag = jint d ''redundant_pic_cnt_present_flag'',
     transform_8x8_mode_flag = jint d ''transform_8x8_mode_flag'',
     pps_parse_ok = jbool d ''parse_ok''\<rparr>"

definition slice_of :: "json \<Rightarrow> slice" where
  "slice_of v = (case v of JObj d \<Rightarrow>
       \<lparr>nal_unit_type = jint d ''nal_unit_type'', slice_type = jstr d ''slice_type'',
        field_pic_flag = jint d ''field_pic_flag'', first_mb_in_slice = jint d ''first_mb_in_slice'',
        redundant_pic_cnt = jint d ''redundant_pic_cnt'', slice_parse_ok = jbool d ''parse_ok''\<rparr>
     | _ \<Rightarrow> \<lparr>nal_unit_type = 0, slice_type = [], field_pic_flag = 0, first_mb_in_slice = 0,
        redundant_pic_cnt = 0, slice_parse_ok = False\<rparr>)"

definition picture_of :: "json \<Rightarrow> picture" where
  "picture_of v = (let d = (case v of JObj d \<Rightarrow> d | _ \<Rightarrow> []) in
     \<lparr>pic_sps = sps_of (jobj d ''sps''), pic_pps = pps_of (jobj d ''pps''),
      pic_slices = map slice_of (jlist d ''slices'')\<rparr>)"

definition pictures_of :: "(string, json) dict \<Rightarrow> picture list" where
  "pictures_of stream = map picture_of (jlist stream ''pictures'')"

definition strings_of :: "json \<Rightarrow> string list" where
  "strings_of v = (case v of JList xs \<Rightarrow> map (\<lambda>x. case x of JStr s \<Rightarrow> s | _ \<Rightarrow> []) xs | _ \<Rightarrow> [])"

subsection \<open>Profiles and matching\<close>

definition ffmpeg_profile_from_sps :: "sps \<Rightarrow> ff_profile option" where
  "ffmpeg_profile_from_sps s =
     (if \<not> sps_parse_ok s then None
      else if profile_idc s = 66
      then Some (if constraint_set1_flag s \<noteq> 0 then H264_CONSTRAINED_BASELINE else H264_BASELINE)
      else if profile_idc s = 77 then Some H264_MAIN
      else if profile_idc s = 88 then Some H264_EXTENDED
      else if profile_idc s = 100 then Some H264_HIGH
      else if profile_idc s = 110
      then Some (if constraint_set3_flag s \<noteq> 0 then H264_HIGH_10_INTRA else H264_HIGH_10)
      else Some (H264_UNKNOWN (profile_idc s)))"

record selection =
  sel_status :: string
  sel_reason :: string
  sel_va_profile :: "string option"
  sel_ffmpeg_profile :: "ff_profile option"
  sel_exact_match :: bool
  sel_path :: string
  sel_mismatch_uses :: "ff_profile option"
  sel_would_mismatch_to :: "string option"
  sel_wanted_va_profile :: "string option"
  sel_picture_index :: "nat option"
  sel_decoded_frame_evidence :: bool

text \<open>
  The loop over the profile map: the last advertised row so far with whether it matches exactly; an
  exact row ends the loop.
\<close>

fun match_loop :: "ff_profile option \<Rightarrow> string list \<Rightarrow> (ff_profile \<times> string) list \<Rightarrow>
    (ff_profile \<times> string \<times> bool) option \<Rightarrow> (ff_profile \<times> string \<times> bool) option" where
  "match_loop ff advertised [] acc = acc"
| "match_loop ff advertised ((map_ff, map_va) # rest) acc =
     (if map_va \<notin> set advertised then match_loop ff advertised rest acc
      else if ff = Some map_ff then Some (map_ff, map_va, True)
      else match_loop ff advertised rest (Some (map_ff, map_va, False)))"

definition refused :: "string \<Rightarrow> string \<Rightarrow> string \<Rightarrow> ff_profile option \<Rightarrow> selection" where
  "refused status reason p ff =
     \<lparr>sel_status = status, sel_reason = reason, sel_va_profile = None, sel_ffmpeg_profile = ff,
      sel_exact_match = False, sel_path = p, sel_mismatch_uses = None, sel_would_mismatch_to = None,
      sel_wanted_va_profile = None, sel_picture_index = None, sel_decoded_frame_evidence = False\<rparr>"

definition selected :: "string \<Rightarrow> string \<Rightarrow> ff_profile option \<Rightarrow> string \<Rightarrow> selection" where
  "selected reason p ff va =
     \<lparr>sel_status = ''select'', sel_reason = reason, sel_va_profile = Some va, sel_ffmpeg_profile = ff,
      sel_exact_match = (reason = ''exact_profile_match''), sel_path = p, sel_mismatch_uses = None,
      sel_would_mismatch_to = None, sel_wanted_va_profile = None, sel_picture_index = None,
      sel_decoded_frame_evidence = False\<rparr>"

definition vaapi_current_match :: "ff_profile option \<Rightarrow> string list \<Rightarrow> bool \<Rightarrow> selection" where
  "vaapi_current_match ff advertised allow =
     (case match_loop ff advertised VAAPI_PROFILE_MAP None of
        None \<Rightarrow> refused ''refuse'' ''no_h264_va_profile_advertised'' ''current'' ff
      | Some (matched_ff, matched_va, exact) \<Rightarrow>
          if exact then selected ''exact_profile_match'' ''current'' ff matched_va
          else if allow
          then (selected ''allow_profile_mismatch'' ''current'' ff matched_va)
                 \<lparr>sel_mismatch_uses := Some matched_ff\<rparr>
          else (refused ''refuse'' ''profile_mismatch'' ''current'' ff)
                 \<lparr>sel_would_mismatch_to := Some matched_va\<rparr>)"

subsection \<open>Features of a picture\<close>

definition nal_is_partition :: "int \<Rightarrow> bool" where
  "nal_is_partition t \<longleftrightarrow> t \<in> {2, 3, 4}"

fun increasing :: "int list \<Rightarrow> bool" where
  "increasing (a # b # xs) = (a < b \<and> increasing (b # xs))"
| "increasing _ = True"

definition picture_disallowed :: "picture \<Rightarrow> checks \<Rightarrow> string option" where
  "picture_disallowed p c =
     (let sps = pic_sps p; pps = pic_pps p; slices = pic_slices p;
          starts = map first_mb_in_slice slices in
      if check_on c ''malformed'' \<and> (\<not> sps_parse_ok sps \<or> \<not> pps_parse_ok pps \<or>
           list_ex (\<lambda>s. \<not> slice_parse_ok s) slices \<or>
           list_ex (\<lambda>s. slice_type s \<notin> set SLICE_TYPE_NAMES) slices)
      then Some ''malformed_header''
      else if check_on c ''partitions'' \<and> list_ex (\<lambda>s. nal_is_partition (nal_unit_type s)) slices
      then Some ''data_partition''
      else if check_on c ''fmo'' \<and> num_slice_groups_minus1 pps > 0 then Some ''fmo''
      else if check_on c ''fields'' \<and> (frame_mbs_only_flag sps = 0 \<or>
           mb_adaptive_frame_field_flag sps \<noteq> 0 \<or> list_ex (\<lambda>s. field_pic_flag s \<noteq> 0) slices)
      then Some ''fields''
      else if list_ex (\<lambda>s. nal_unit_type s \<notin> {1, 2, 3, 4, 5}) slices then Some ''unsupported_nal''
      else if redundant_pic_cnt_present_flag pps \<noteq> 0 \<or> list_ex (\<lambda>s. redundant_pic_cnt s \<noteq> 0) slices
      then Some ''redundant_picture''
      else if take 1 starts \<noteq> [0] \<or> \<not> increasing starts then Some ''slice_order''
      else if profile_idc sps \<in> {66, 77, 88} \<and> transform_8x8_mode_flag pps \<noteq> 0
      then Some ''unsupported_transform''
      else if profile_idc sps \<in> {66, 88} \<and> entropy_coding_mode_flag pps \<noteq> 0
      then Some ''unsupported_entropy''
      else None)"

definition allowed_slices_for_ff_profile :: "ff_profile option \<Rightarrow> string list" where
  "allowed_slices_for_ff_profile ff =
     (if ff \<in> {Some H264_BASELINE, Some H264_CONSTRAINED_BASELINE} then SLICE_SET_IP
      else if ff = Some H264_HIGH_10_INTRA then [''I'']
      else SLICE_SET_IPB)"

fun slices_disallowed :: "string list \<Rightarrow> slice list \<Rightarrow> string option" where
  "slices_disallowed allowed [] = None"
| "slices_disallowed allowed (s # ss) =
     (if slice_type s = ''SP'' then Some ''sp_slice''
      else if slice_type s = ''SI'' then Some ''si_slice''
      else if slice_type s = ''B'' \<and> ''B'' \<notin> set allowed then Some ''baseline_with_b_slices''
      else if slice_type s \<notin> set allowed then Some ''disallowed_slice''
      else slices_disallowed allowed ss)"

definition picture_slice_disallowed :: "picture \<Rightarrow> ff_profile option \<Rightarrow> string option" where
  "picture_slice_disallowed p ff = slices_disallowed (allowed_slices_for_ff_profile ff) (pic_slices p)"

definition sps_incompatible_with_va :: "sps \<Rightarrow> string \<Rightarrow> string option" where
  "sps_incompatible_with_va s va =
     (case dget VA_PROFILE_ALLOWED_FF va of
        None \<Rightarrow> Some ''sps_incompatible''
      | Some allowed \<Rightarrow>
          if ffmpeg_profile_from_sps s \<notin> Some ` set allowed then Some ''sps_incompatible''
          else
            let luma = bit_depth_luma_minus8 s; chroma_depth = bit_depth_chroma_minus8 s;
                max_depth = (case dget VA_PROFILE_MAX_BIT_DEPTH_MINUS8 va of None \<Rightarrow> 0 | Some n \<Rightarrow> n) in
            if luma \<noteq> chroma_depth \<or> luma \<notin> {0, 2} \<or> luma > max_depth then Some ''sps_incompatible''
            else if chroma_format_idc s \<noteq> 1 then Some ''sps_incompatible''
            else None)"

definition has_b_slice :: "picture list \<Rightarrow> bool" where
  "has_b_slice pictures = list_ex (\<lambda>p. list_ex (\<lambda>s. slice_type s = ''B'') (pic_slices p)) pictures"

definition proposed_va_for_safe_stream ::
  "ff_profile option \<Rightarrow> picture list \<Rightarrow> string option \<times> string" where
  "proposed_va_for_safe_stream ff pictures =
     (if ff = Some H264_CONSTRAINED_BASELINE
      then (Some ''VAProfileH264ConstrainedBaseline'', ''exact_profile_match'')
      else if ff = Some H264_MAIN then (Some ''VAProfileH264Main'', ''exact_profile_match'')
      else if ff = Some H264_HIGH then (Some ''VAProfileH264High'', ''exact_profile_match'')
      else if ff \<in> {Some H264_HIGH_10, Some H264_HIGH_10_INTRA}
      then (Some ''VAProfileH264High10'', ''exact_profile_match'')
      else if ff = Some H264_BASELINE \<and> \<not> has_b_slice pictures
      then (Some ''VAProfileH264ConstrainedBaseline'', ''baseline_constrained_subset'')
      else if ff = Some H264_BASELINE \<and> has_b_slice pictures
      then (None, ''baseline_with_b_slices'')
      else if ff = Some H264_EXTENDED then (Some ''VAProfileH264Main'', ''extended_main_subset'')
      else (None, ''unmapped_profile''))"

subsection \<open>Selection\<close>

definition advertised_of :: "(string, json) dict \<Rightarrow> json \<Rightarrow> string list" where
  "advertised_of stream advertised =
     (if advertised \<noteq> JNull then strings_of advertised
      else if dhas stream ''advertised'' then strings_of (jv stream ''advertised'')
      else DEFAULT_ADVERTISED)"

definition select_current :: "json \<Rightarrow> json \<Rightarrow> bool \<Rightarrow> h264_error + selection" where
  "select_current v advertised allow_profile_mismatch =
     rbind (validate_inventory v advertised) (\<lambda>_.
     let stream = (case v of JObj d \<Rightarrow> d | _ \<Rightarrow> []); pictures = pictures_of stream in
     case pictures of
       [] \<Rightarrow> Inl (H264FixtureError ''stream has no pictures'')
     | p # ps \<Rightarrow>
         let allow = (if dhas stream ''allow_profile_mismatch''
                      then jbool stream ''allow_profile_mismatch'' else allow_profile_mismatch) in
         Inr (vaapi_current_match (ffmpeg_profile_from_sps (pic_sps p))
                (advertised_of stream advertised) allow))"

definition rejected :: "ff_profile option \<Rightarrow> string \<Rightarrow> nat option \<Rightarrow> selection" where
  "rejected ff reason index =
     (refused ''reject'' reason ''proposed'' ff)\<lparr>sel_picture_index := index\<rparr>"

text \<open>The two loops over the scanned pictures: the index and reason of the first offender.\<close>

fun scan_features :: "checks \<Rightarrow> nat \<Rightarrow> picture list \<Rightarrow> (nat \<times> string) option" where
  "scan_features c i [] = None"
| "scan_features c i (p # ps) =
     (case picture_disallowed p c of
        Some reason \<Rightarrow> Some (i, reason)
      | None \<Rightarrow>
          (case (if check_on c ''slice_types''
                 then picture_slice_disallowed p (ffmpeg_profile_from_sps (pic_sps p)) else None) of
             Some reason \<Rightarrow> Some (i, reason)
           | None \<Rightarrow> scan_features c (i + 1) ps))"

fun scan_sps :: "string \<Rightarrow> nat \<Rightarrow> picture list \<Rightarrow> (nat \<times> string) option" where
  "scan_sps va i [] = None"
| "scan_sps va i (p # ps) =
     (case sps_incompatible_with_va (pic_sps p) va of
        Some reason \<Rightarrow> Some (i, reason)
      | None \<Rightarrow> scan_sps va (i + 1) ps)"

definition propose :: "checks \<Rightarrow> string list \<Rightarrow> picture list \<Rightarrow> ff_profile option \<Rightarrow> selection" where
  "propose c advertised scan ff =
     (case scan_features c 0 scan of
        Some (i, reason) \<Rightarrow> rejected ff reason (Some i)
      | None \<Rightarrow>
          (case proposed_va_for_safe_stream ff scan of
             (None, why) \<Rightarrow> rejected ff why None
           | (Some va, why) \<Rightarrow>
               (case (if check_on c ''sps_compat'' then scan_sps va 0 scan else None) of
                  Some (i, reason) \<Rightarrow> rejected ff reason (Some i)
                | None \<Rightarrow>
                    if va \<notin> set advertised
                    then (rejected ff ''va_profile_not_advertised'' None)
                           \<lparr>sel_wanted_va_profile := Some va\<rparr>
                    else selected why ''proposed'' ff va)))"

definition select_proposed :: "json \<Rightarrow> json \<Rightarrow> checks option \<Rightarrow> h264_error + selection" where
  "select_proposed v advertised checks =
     rbind (validate_inventory v advertised) (\<lambda>_.
     let stream = (case v of JObj d \<Rightarrow> d | _ \<Rightarrow> []); pictures = pictures_of stream;
         c = (case checks of None \<Rightarrow> DEFAULT_CHECKS | Some c \<Rightarrow> c) in
     case pictures of
       [] \<Rightarrow> Inl (H264FixtureError ''stream has no pictures'')
     | p # ps \<Rightarrow>
         let scan = (if check_on c ''scan_all_pictures'' then pictures else take 1 pictures) in
         Inr (propose c (advertised_of stream advertised) scan (ffmpeg_profile_from_sps (pic_sps p))))"

definition opt_str_json :: "string option \<Rightarrow> json" where
  "opt_str_json x = (case x of None \<Rightarrow> JNull | Some s \<Rightarrow> JStr s)"

definition h264_run_fixture :: "json \<Rightarrow> checks option \<Rightarrow> h264_error + bool \<times> selection" where
  "h264_run_fixture v checks =
     (case v of
        JObj doc \<Rightarrow>
          rbind (need (H264FixtureError ''unsupported or missing schema'')
            (py_eq (jv doc ''schema'') (JStr H264_SCHEMA))) (\<lambda>_.
          rbind (need (H264FixtureError ''path must be current or proposed'')
            (jv doc ''path'' \<in> {JStr ''current'', JStr ''proposed''})) (\<lambda>_.
          rbind (need (H264FixtureError ''pictures must be a list'') (is_list (jv doc ''pictures''))) (\<lambda>_.
          rbind (case jv doc ''expected'' of
                   JObj e \<Rightarrow> if dhas e ''status'' then Inr e
                     else Inl (H264FixtureError ''expected.status is required'')
                 | _ \<Rightarrow> Inl (H264FixtureError ''expected.status is required'')) (\<lambda>expected.
          let advertised = jv doc ''advertised'' in
          rbind (if jv doc ''path'' = JStr ''current'' then select_current v advertised False
                 else select_proposed v advertised checks) (\<lambda>got.
          let ok = py_eq (JStr (sel_status got)) (jv expected ''status'') \<and>
            (dhas expected ''va_profile'' \<longrightarrow>
               py_eq (opt_str_json (sel_va_profile got)) (jv expected ''va_profile'')) \<and>
            (dhas expected ''reason'' \<longrightarrow> py_eq (JStr (sel_reason got)) (jv expected ''reason'')) in
          Inr (ok, got))))))
      | _ \<Rightarrow> Inl (H264FixtureError ''fixture is not an object''))"

subsection \<open>The matching loop\<close>

text \<open>What the loop of \<^verbatim>\<open>vaapi_decode_make_config\<close> computes, without the loop.\<close>

definition current_match_ref :: "ff_profile option \<Rightarrow> string list \<Rightarrow> bool \<Rightarrow> selection" where
  "current_match_ref ff advertised allow =
     (let rows = filter (\<lambda>(f, va). va \<in> set advertised) VAAPI_PROFILE_MAP in
      case find (\<lambda>(f, va). ff = Some f) rows of
        Some (f, va) \<Rightarrow> selected ''exact_profile_match'' ''current'' ff va
      | None \<Rightarrow>
          if rows = [] then refused ''refuse'' ''no_h264_va_profile_advertised'' ''current'' ff
          else if allow
          then (selected ''allow_profile_mismatch'' ''current'' ff (snd (last rows)))
                 \<lparr>sel_mismatch_uses := Some (fst (last rows))\<rparr>
          else (refused ''refuse'' ''profile_mismatch'' ''current'' ff)
                 \<lparr>sel_would_mismatch_to := Some (snd (last rows))\<rparr>)"

lemma match_loop_ref:
  "match_loop ff advertised rows acc =
     (let live = filter (\<lambda>(f, va). va \<in> set advertised) rows in
      case find (\<lambda>(f, va). ff = Some f) live of
        Some (f, va) \<Rightarrow> Some (f, va, True)
      | None \<Rightarrow> if live = [] then acc else Some (fst (last live), snd (last live), False))"
  by (induction ff advertised rows acc rule: match_loop.induct) (auto simp: Let_def split: option.splits)

text \<open>
  C16. The client's matching loop equals its declarative reading: the first advertised row of the
  profile map with exactly this profile is selected; without one, the last advertised row is used if
  mismatches are allowed and named in the refusal if not.
\<close>
theorem current_match_is_reference: "vaapi_current_match ff advertised allow = current_match_ref ff advertised allow"
  by (auto simp: vaapi_current_match_def match_loop_ref current_match_ref_def Let_def split: option.splits)

subsection \<open>What a proposed selection guarantees\<close>

definition slice_safe :: "string list \<Rightarrow> slice \<Rightarrow> bool" where
  "slice_safe kinds s \<longleftrightarrow> slice_parse_ok s \<and> nal_unit_type s \<in> {1, 5} \<and> field_pic_flag s = 0 \<and>
     redundant_pic_cnt s = 0 \<and> slice_type s \<in> set kinds"

definition picture_safe :: "picture \<Rightarrow> bool" where
  "picture_safe p \<longleftrightarrow>
     sps_parse_ok (pic_sps p) \<and> pps_parse_ok (pic_pps p) \<and>
     num_slice_groups_minus1 (pic_pps p) \<le> 0 \<and> frame_mbs_only_flag (pic_sps p) \<noteq> 0 \<and>
     mb_adaptive_frame_field_flag (pic_sps p) = 0 \<and> redundant_pic_cnt_present_flag (pic_pps p) = 0 \<and>
     (\<forall>s \<in> set (pic_slices p).
        slice_safe (allowed_slices_for_ff_profile (ffmpeg_profile_from_sps (pic_sps p))) s) \<and>
     sorted_wrt (<) (map first_mb_in_slice (pic_slices p)) \<and>
     (\<exists>s ss. pic_slices p = s # ss \<and> first_mb_in_slice s = 0)"

definition sps_fits :: "string \<Rightarrow> sps \<Rightarrow> bool" where
  "sps_fits va s \<longleftrightarrow>
     (\<exists>allowed ff m. dget VA_PROFILE_ALLOWED_FF va = Some allowed \<and>
        ffmpeg_profile_from_sps s = Some ff \<and> ff \<in> set allowed \<and>
        dget VA_PROFILE_MAX_BIT_DEPTH_MINUS8 va = Some m \<and> bit_depth_luma_minus8 s \<le> m) \<and>
     bit_depth_luma_minus8 s = bit_depth_chroma_minus8 s \<and> chroma_format_idc s = 1"

lemma increasing_sorted: "increasing xs \<Longrightarrow> sorted_wrt (<) xs"
  by (induction xs rule: increasing.induct) (auto intro: less_trans)

lemma check_on_default: "check_on DEFAULT_CHECKS k"
  by (auto simp: check_on_def DEFAULT_CHECKS_def split: option.splits if_splits)

lemma slices_disallowed_None:
  "slices_disallowed allowed ss = None \<Longrightarrow> \<forall>s \<in> set ss. slice_type s \<in> set allowed"
  by (induction ss) (auto split: if_splits)

lemma picture_checks_safe:
  assumes d: "picture_disallowed p DEFAULT_CHECKS = None"
    and sl: "picture_slice_disallowed p (ffmpeg_profile_from_sps (pic_sps p)) = None"
  shows "picture_safe p"
proof -
  note facts = d [unfolded picture_disallowed_def Let_def, simplified check_on_default simp_thms]
  have types: "\<forall>s \<in> set (pic_slices p). slice_type s \<in>
      set (allowed_slices_for_ff_profile (ffmpeg_profile_from_sps (pic_sps p)))"
    using sl slices_disallowed_None by (simp add: picture_slice_disallowed_def)
  have order: "take 1 (map first_mb_in_slice (pic_slices p)) = [0]"
      "sorted_wrt (<) (map first_mb_in_slice (pic_slices p))"
    using facts increasing_sorted by (auto split: if_splits)
  have "\<exists>s ss. pic_slices p = s # ss \<and> first_mb_in_slice s = 0"
    using order(1) by (cases "pic_slices p") auto
  moreover have "\<forall>s \<in> set (pic_slices p). slice_parse_ok s \<and> nal_unit_type s \<in> {1, 5} \<and>
      field_pic_flag s = 0 \<and> redundant_pic_cnt s = 0"
    using facts by (auto simp: list_ex_iff nal_is_partition_def split: if_splits)
  ultimately show ?thesis
    using facts types order(2) unfolding picture_safe_def slice_safe_def
    by (auto split: if_splits)
qed

lemma scan_features_safe:
  "scan_features DEFAULT_CHECKS i ps = None \<Longrightarrow> \<forall>p \<in> set ps. picture_safe p"
  by (induction ps arbitrary: i)
    (auto simp: check_on_default intro: picture_checks_safe split: option.splits)

lemma sps_compatible_fits: "sps_incompatible_with_va s va = None \<Longrightarrow> sps_fits va s"
proof -
  assume a: "sps_incompatible_with_va s va = None"
  then obtain allowed where allowed: "dget VA_PROFILE_ALLOWED_FF va = Some allowed"
    by (auto simp: sps_incompatible_with_va_def split: option.splits)
  then have "\<exists>m. dget VA_PROFILE_MAX_BIT_DEPTH_MINUS8 va = Some m"
    by (auto simp: VA_PROFILE_ALLOWED_FF_def VA_PROFILE_MAX_BIT_DEPTH_MINUS8_def split: if_splits)
  with a allowed show ?thesis
    by (auto simp: sps_incompatible_with_va_def sps_fits_def Let_def split: if_splits)
qed

lemma scan_sps_fits: "scan_sps va i ps = None \<Longrightarrow> \<forall>p \<in> set ps. sps_fits va (pic_sps p)"
  by (induction ps arbitrary: i) (auto intro: sps_compatible_fits split: option.splits)

lemma propose_select:
  assumes "propose DEFAULT_CHECKS adv ps ff = r" and "sel_status r = ''select''"
  obtains va where "sel_va_profile r = Some va" "\<not> sel_decoded_frame_evidence r"
    "sel_exact_match r = (sel_reason r = ''exact_profile_match'')" "va \<in> set adv"
    "proposed_va_for_safe_stream ff ps = (Some va, sel_reason r)"
    "\<forall>p \<in> set ps. picture_safe p \<and> sps_fits va (pic_sps p)"
proof -
  have f: "scan_features DEFAULT_CHECKS 0 ps = None"
    using assms by (auto simp: propose_def rejected_def refused_def split: option.splits prod.splits)
  then obtain va why where va: "proposed_va_for_safe_stream ff ps = (Some va, why)"
    using assms by (auto simp: propose_def rejected_def refused_def split: option.splits prod.splits)
  have sp: "scan_sps va 0 ps = None"
    using assms f va
    by (auto simp: propose_def rejected_def refused_def check_on_default split: option.splits if_splits)
  have "va \<in> set adv" "r = selected why ''proposed'' ff va"
    using assms f va sp
    by (auto simp: propose_def rejected_def refused_def check_on_default split: if_splits)
  moreover have "\<forall>p \<in> set ps. picture_safe p \<and> sps_fits va (pic_sps p)"
    using scan_features_safe [OF f] scan_sps_fits [OF sp] by blast
  ultimately show thesis using that [of va] va by (simp add: selected_def)
qed

lemma select_proposed_Inr:
  assumes "select_proposed v adv None = Inr r"
  obtains d p ps where "v = JObj d" "pictures_of d = p # ps"
    "r = propose DEFAULT_CHECKS (advertised_of d adv) (p # ps) (ffmpeg_profile_from_sps (pic_sps p))"
    "validate_inventory v adv = Inr ()"
proof -
  have val: "validate_inventory v adv = Inr ()" using assms by (auto simp: select_proposed_def rbind_Inr)
  then obtain d where d: "v = JObj d" by (cases v) (auto simp: validate_inventory_def)
  with assms val obtain p ps where "pictures_of d = p # ps"
    by (cases "pictures_of d") (auto simp: select_proposed_def Let_def)
  with assms val d show thesis
    by (intro that) (auto simp: select_proposed_def Let_def check_on_default)
qed

text \<open>
  C15. If the proposed path selects a VA profile for a stream, the profile is advertised and every
  picture of the stream is safe for it: headers parsed, one slice group, progressive frames, no data
  partitions, no redundant slices, slices in strictly increasing order from macroblock 0, only slice
  types its own profile allows (never SP or SI), 4:2:0 at a depth the VA profile has, and an FFmpeg
  profile in the subset the VA profile accepts. In particular a stream sent to Constrained Baseline
  has no B slice.
\<close>
theorem proposed_selection_sound:
  assumes "select_proposed v adv None = Inr r" and "sel_status r = ''select''"
  shows "\<exists>d va. v = JObj d \<and> sel_va_profile r = Some va \<and> va \<in> set (advertised_of d adv) \<and>
    \<not> sel_decoded_frame_evidence r \<and> pictures_of d \<noteq> [] \<and>
    (\<forall>p \<in> set (pictures_of d). picture_safe p \<and> sps_fits va (pic_sps p) \<and>
       (va = ''VAProfileH264ConstrainedBaseline'' \<longrightarrow>
          (\<forall>s \<in> set (pic_slices p). slice_type s \<noteq> ''B'')))"
proof -
  obtain d p ps where d: "v = JObj d" "pictures_of d = p # ps"
    and r: "r = propose DEFAULT_CHECKS (advertised_of d adv) (p # ps) (ffmpeg_profile_from_sps (pic_sps p))"
    by (rule select_proposed_Inr [OF assms(1)])
  obtain va where va: "sel_va_profile r = Some va" "va \<in> set (advertised_of d adv)"
      "\<not> sel_decoded_frame_evidence r"
    and safe: "\<forall>q \<in> set (p # ps). picture_safe q \<and> sps_fits va (pic_sps q)"
    by (rule propose_select [OF r [symmetric] assms(2)])
  have "slice_type s \<noteq> ''B''"
    if "q \<in> set (p # ps)" "va = ''VAProfileH264ConstrainedBaseline''" "s \<in> set (pic_slices q)" for q s
  proof -
    have q: "picture_safe q" "sps_fits va (pic_sps q)" using safe that(1) by blast+
    have "ffmpeg_profile_from_sps (pic_sps q) \<in> {Some H264_BASELINE, Some H264_CONSTRAINED_BASELINE}"
      using q(2) that(2) by (auto simp: sps_fits_def VA_PROFILE_ALLOWED_FF_def)
    then have "allowed_slices_for_ff_profile (ffmpeg_profile_from_sps (pic_sps q)) = SLICE_SET_IP"
      by (simp add: allowed_slices_for_ff_profile_def)
    then have "slice_safe SLICE_SET_IP s" using q(1) that(3) by (simp add: picture_safe_def)
    then show ?thesis by (auto simp: slice_safe_def SLICE_SET_IP_def)
  qed
  then show ?thesis using d va safe by auto
qed

lemma exact_remap_matches:
  assumes "proposed_va_for_safe_stream ff ps = (Some va, ''exact_profile_match'')" and "va \<in> set adv"
  shows "vaapi_current_match ff adv allow = selected ''exact_profile_match'' ''current'' ff va"
proof -
  have "(ff, va) \<in> {(Some H264_CONSTRAINED_BASELINE, ''VAProfileH264ConstrainedBaseline''),
      (Some H264_MAIN, ''VAProfileH264Main''), (Some H264_HIGH, ''VAProfileH264High''),
      (Some H264_HIGH_10, ''VAProfileH264High10''), (Some H264_HIGH_10_INTRA, ''VAProfileH264High10'')}"
    using assms(1) by (auto simp: proposed_va_for_safe_stream_def split: if_splits)
  then have "match_loop ff adv VAAPI_PROFILE_MAP None = Some (the ff, va, True)"
    using assms(2) by (elim insertE emptyE) (simp_all add: VAAPI_PROFILE_MAP_def)
  then show ?thesis by (simp add: vaapi_current_match_def)
qed

lemma other_remap_profiles:
  assumes "proposed_va_for_safe_stream ff ps = (Some va, why)" and "why \<noteq> ''exact_profile_match''"
  shows "ff \<in> {Some H264_BASELINE, Some H264_EXTENDED}"
  using assms by (auto simp: proposed_va_for_safe_stream_def split: if_splits)

lemma unmatched_profiles:
  assumes "ff \<in> {Some H264_BASELINE, Some H264_EXTENDED}"
  shows "\<not> sel_exact_match (vaapi_current_match ff adv allow)"
    and "\<not> allow \<Longrightarrow> sel_status (vaapi_current_match ff adv allow) = ''refuse''"
proof -
  have "find (\<lambda>(f, va). ff = Some f) (filter (\<lambda>(f, va). va \<in> set adv) VAAPI_PROFILE_MAP) = None"
    using assms unfolding find_None_iff by (auto simp: VAAPI_PROFILE_MAP_def)
  then show "\<not> sel_exact_match (vaapi_current_match ff adv allow)"
    and "\<not> allow \<Longrightarrow> sel_status (vaapi_current_match ff adv allow) = ''refuse''"
    by (simp_all add: vaapi_current_match_def match_loop_ref Let_def refused_def selected_def)
qed

text \<open>
  C17. The proposal extends the current behaviour conservatively. When it selects with an exact match,
  the current client selects the same VA profile exactly; when it selects a remapped profile, the
  current client, unless told to accept mismatches, refuses the stream.
\<close>
theorem proposed_extends_current:
  assumes "select_proposed v adv None = Inr r" and "sel_status r = ''select''"
  shows "\<exists>c. select_current v adv False = Inr c \<and>
    (if sel_exact_match r
     then sel_status c = ''select'' \<and> sel_exact_match c \<and> sel_va_profile c = sel_va_profile r
     else \<not> sel_exact_match c \<and>
       (\<not> (\<exists>d. v = JObj d \<and> jbool d ''allow_profile_mismatch'') \<longrightarrow> sel_status c = ''refuse''))"
proof -
  obtain d p ps where d: "v = JObj d" "pictures_of d = p # ps" and val: "validate_inventory v adv = Inr ()"
    and r: "r = propose DEFAULT_CHECKS (advertised_of d adv) (p # ps) (ffmpeg_profile_from_sps (pic_sps p))"
    by (rule select_proposed_Inr [OF assms(1)])
  let ?ff = "ffmpeg_profile_from_sps (pic_sps p)" and ?adv = "advertised_of d adv"
  obtain va where exact: "sel_exact_match r = (sel_reason r = ''exact_profile_match'')"
      "sel_va_profile r = Some va"
    and va: "va \<in> set ?adv" "proposed_va_for_safe_stream ?ff (p # ps) = (Some va, sel_reason r)"
    by (rule propose_select [OF r [symmetric] assms(2)])
  define allow where "allow = (if dhas d ''allow_profile_mismatch''
    then jbool d ''allow_profile_mismatch'' else False)"
  have cur: "select_current v adv False = Inr (vaapi_current_match ?ff ?adv allow)"
    using val d by (simp add: select_current_def allow_def Let_def)
  have no: "\<not> jbool d ''allow_profile_mismatch'' \<Longrightarrow> \<not> allow" by (simp add: allow_def)
  show ?thesis
  proof (cases "sel_reason r = ''exact_profile_match''")
    case True
    then have "vaapi_current_match ?ff ?adv allow = selected ''exact_profile_match'' ''current'' ?ff va"
      using exact_remap_matches [OF _ va(1)] va(2) by simp
    then show ?thesis unfolding cur exact using True by (simp add: selected_def)
  next
    case False
    then have "?ff \<in> {Some H264_BASELINE, Some H264_EXTENDED}"
      by (rule other_remap_profiles [OF va(2)])
    then have "\<not> sel_exact_match (vaapi_current_match ?ff ?adv allow)"
        "\<not> allow \<Longrightarrow> sel_status (vaapi_current_match ?ff ?adv allow) = ''refuse''"
      using unmatched_profiles by blast+
    then show ?thesis unfolding cur exact using False no d(1) by auto
  qed
qed

subsection \<open>A stream\<close>

text \<open>One Extended profile picture with an I slice and a P slice.\<close>

definition extended_stream :: json where
  "extended_stream = JObj
     [(''advertised'', JList [JStr ''VAProfileH264Main'']),
      (''pictures'', JList [JObj
         [(''sps'', JObj [(''profile_idc'', JInt 88), (''constraint_set1_flag'', JInt 0),
             (''constraint_set3_flag'', JInt 0), (''frame_mbs_only_flag'', JInt 1),
             (''mb_adaptive_frame_field_flag'', JInt 0), (''chroma_format_idc'', JInt 1),
             (''bit_depth_luma_minus8'', JInt 0), (''bit_depth_chroma_minus8'', JInt 0),
             (''parse_ok'', JBool True)]),
          (''pps'', JObj [(''num_slice_groups_minus1'', JInt 0), (''entropy_coding_mode_flag'', JInt 0),
             (''redundant_pic_cnt_present_flag'', JInt 0), (''transform_8x8_mode_flag'', JInt 0),
             (''parse_ok'', JBool True)]),
          (''slices'', JList
             [JObj [(''nal_unit_type'', JInt 5), (''slice_type'', JStr ''I''), (''field_pic_flag'', JInt 0),
                (''first_mb_in_slice'', JInt 0), (''redundant_pic_cnt'', JInt 0), (''parse_ok'', JBool True)],
              JObj [(''nal_unit_type'', JInt 1), (''slice_type'', JStr ''P''), (''field_pic_flag'', JInt 0),
                (''first_mb_in_slice'', JInt 40), (''redundant_pic_cnt'', JInt 0),
                (''parse_ok'', JBool True)]])]])]"

definition extended_selection :: selection where
  "extended_selection = selected ''extended_main_subset'' ''proposed'' (Some H264_EXTENDED) ''VAProfileH264Main''"

lemma extended_stream_selected: "select_proposed extended_stream JNull None = Inr extended_selection"
  by code_simp

theorem proposed_selection_sound_witness:
  "select_proposed extended_stream JNull None = Inr extended_selection \<and>
   (\<exists>d va. extended_stream = JObj d \<and> sel_va_profile extended_selection = Some va \<and>
     va \<in> set (advertised_of d JNull) \<and> list_all picture_safe (pictures_of d))"
proof -
  have "sel_status extended_selection = ''select''" by (simp add: extended_selection_def selected_def)
  from proposed_selection_sound [OF extended_stream_selected this] show ?thesis
    using extended_stream_selected by (auto simp: list_all_iff)
qed

theorem proposed_extends_current_witness:
  "\<exists>c. select_current extended_stream JNull False = Inr c \<and> \<not> sel_exact_match c \<and> sel_status c = ''refuse''"
proof -
  have s: "sel_status extended_selection = ''select''" "\<not> sel_exact_match extended_selection"
    by (simp_all add: extended_selection_def selected_def)
  have "\<not> (\<exists>d. extended_stream = JObj d \<and> jbool d ''allow_profile_mismatch'')"
    by (simp add: extended_stream_def jbool_def jv_def)
  with proposed_extends_current [OF extended_stream_selected s(1)] s(2) show ?thesis by auto
qed

end
