(* ===== verification/Pyvalues.thy ===== *)
theory Pyvalues
  imports Json
begin

text \<open>
  What the trace readers use of Python beside \<open>Json\<close>: exceptions other than their own rejections
  (a missing key, a subscript or attribute of a value of the wrong type), strings
  (\<^verbatim>\<open>strip\<close>, \<^verbatim>\<open>split\<close>, \<^verbatim>\<open>splitlines\<close>, decimal numerals) and the guard \<open>integer\<close>
  that \<open>hevc-controls/normalize.py\<close> and \<open>hevc-avd-map/model.py\<close> share.

  Strings are over the characters 0 to 255; white space and line boundaries are those of
  \<^verbatim>\<open>str\<close> within that range.
\<close>

subsection \<open>Exceptions and access\<close>

datatype py_exn =
    Reject string
  | KeyError string
  | IndexError
  | TypeError
  | AttributeError
  | ValueError
  | OverflowError
  | RecursionError

type_synonym 'a py = "py_exn + 'a"

definition sub :: "json \<Rightarrow> string \<Rightarrow> json py" where
  "sub v k = (case v of
     JObj d \<Rightarrow> (case dget d k of Some x \<Rightarrow> Inr x | None \<Rightarrow> Inl (KeyError k))
   | _ \<Rightarrow> Inl TypeError)"

definition dsub :: "(string, 'v) dict \<Rightarrow> string \<Rightarrow> 'v py" where
  "dsub d k = (case dget d k of Some x \<Rightarrow> Inr x | None \<Rightarrow> Inl (KeyError k))"

definition dict_get :: "json \<Rightarrow> string \<Rightarrow> json py" where
  "dict_get v k = (case v of
     JObj d \<Rightarrow> Inr (jv d k)
   | _ \<Rightarrow> Inl AttributeError)"

definition require :: "bool \<Rightarrow> string \<Rightarrow> unit py" where
  "require c m = need (Reject m) c"

definition int_in :: "string \<Rightarrow> int \<Rightarrow> int \<Rightarrow> json \<Rightarrow> int py" where
  "int_in m low high v = (case v of
     JInt i \<Rightarrow> if low \<le> i \<and> i \<le> high then Inr i else Inl (Reject m)
   | _ \<Rightarrow> Inl (Reject m))"

text \<open>\<^verbatim>\<open>len(v)\<close>, iteration, \<^verbatim>\<open>v[0]\<close> and use as a set element or dict key.\<close>

definition py_len :: "json \<Rightarrow> nat py" where
  "py_len v = (case v of
     JStr s \<Rightarrow> Inr (length s) | JList xs \<Rightarrow> Inr (length xs) | JObj d \<Rightarrow> Inr (length d)
   | _ \<Rightarrow> Inl TypeError)"

definition py_iter :: "json \<Rightarrow> json list py" where
  "py_iter v = (case v of
     JStr s \<Rightarrow> Inr (map (\<lambda>c. JStr [c]) s) | JList xs \<Rightarrow> Inr xs | JObj d \<Rightarrow> Inr (map (JStr \<circ> fst) d)
   | _ \<Rightarrow> Inl TypeError)"

definition py_first :: "json \<Rightarrow> json py" where
  "py_first v = (case v of
     JList (x # _) \<Rightarrow> Inr x | JStr (c # _) \<Rightarrow> Inr (JStr [c])
   | JList [] \<Rightarrow> Inl IndexError | JStr [] \<Rightarrow> Inl IndexError
   | JObj _ \<Rightarrow> Inl (KeyError ''0'') | _ \<Rightarrow> Inl TypeError)"

definition py_hash :: "json \<Rightarrow> unit py" where
  "py_hash v = need TypeError (\<not> is_list v \<and> \<not> is_obj v)"

text \<open>Subscription and item assignment with an arbitrary key.\<close>

definition index_of :: "json \<Rightarrow> int option" where
  "index_of k = (case k of JInt i \<Rightarrow> Some i | JBool b \<Rightarrow> Some (of_bool b) | _ \<Rightarrow> None)"

definition list_index :: "nat \<Rightarrow> json \<Rightarrow> nat py" where
  "list_index n k = (case index_of k of
     None \<Rightarrow> Inl TypeError
   | Some i \<Rightarrow> if 0 \<le> i \<and> i < int n then Inr (nat i)
               else if i < 0 \<and> - i \<le> int n then Inr (nat (int n + i)) else Inl IndexError)"

definition py_at :: "json \<Rightarrow> json \<Rightarrow> json py" where
  "py_at v k = (case v of
     JObj d \<Rightarrow> (case k of JStr s \<Rightarrow> sub v s | _ \<Rightarrow> rbind (py_hash k) (\<lambda>_. Inl (KeyError [])))
   | JList xs \<Rightarrow> rbind (list_index (length xs) k) (\<lambda>i. Inr (xs ! i))
   | JStr s \<Rightarrow> rbind (list_index (length s) k) (\<lambda>i. Inr (JStr [s ! i]))
   | _ \<Rightarrow> Inl TypeError)"

definition py_put :: "json \<Rightarrow> json \<Rightarrow> json \<Rightarrow> json py" where
  "py_put v k x = (case v of
     JObj d \<Rightarrow> (case k of JStr s \<Rightarrow> Inr (JObj (dset s x d)) | _ \<Rightarrow> Inl TypeError)
   | JList xs \<Rightarrow> rbind (list_index (length xs) k) (\<lambda>i. Inr (JList (xs[i := x])))
   | _ \<Rightarrow> Inl TypeError)"

lemma sub_Inr [res_simps]: "sub v k = Inr x \<longleftrightarrow> (\<exists>d. v = JObj d \<and> dget d k = Some x)"
  by (cases v) (auto simp: sub_def split: option.splits)

lemma dsub_Inr [res_simps]: "dsub d k = Inr x \<longleftrightarrow> dget d k = Some x"
  by (auto simp: dsub_def split: option.splits)

lemma require_Inr [res_simps]: "require c m = Inr u \<longleftrightarrow> c"
  by (simp add: require_def need_Inr)

lemma require_simps [simp]:
  "require True m = Inr ()"
  "require False m = Inl (Reject m)"
  by (simp_all add: require_def)

lemma int_in_Inr [res_simps]: "int_in m lo hi v = Inr i \<longleftrightarrow> v = JInt i \<and> lo \<le> i \<and> i \<le> hi"
  by (cases v) (auto simp: int_in_def)

lemma dict_get_Inr [res_simps]: "dict_get v k = Inr x \<longleftrightarrow> (\<exists>d. v = JObj d \<and> x = jv d k)"
  by (cases v) (auto simp: dict_get_def)

subsection \<open>Decoded JSON\<close>

text \<open>
  The object hook that every reader hands to \<^verbatim>\<open>json.loads\<close> and that refuses a repeated key, on a
  decoded document whose pairs are not yet collapsed.
\<close>

fun unique_pairs :: "(string \<times> json) list \<Rightarrow> (string, json) dict \<Rightarrow> (string, json) dict py" where
  "unique_pairs [] result = Inr result"
| "unique_pairs ((key, v) # rest) result =
     rbind (require (\<not> dhas result key) ''duplicate JSON key'') (\<lambda>_. unique_pairs rest (result @ [(key, v)]))"

fun unique_json :: "json \<Rightarrow> bool" where
  "unique_json (JObj d) = ((case unique_pairs d [] of Inr _ \<Rightarrow> True | Inl _ \<Rightarrow> False) \<and> list_all (\<lambda>(k, v). unique_json v) d)"
| "unique_json (JList xs) = list_all unique_json xs"
| "unique_json v = True"

subsection \<open>Strings\<close>

definition py_space :: "char \<Rightarrow> bool" where
  "py_space c \<longleftrightarrow> (let n = of_char c :: nat in (9 \<le> n \<and> n \<le> 13) \<or> (28 \<le> n \<and> n \<le> 32) \<or> n = 133 \<or> n = 160)"

definition line_end :: "char \<Rightarrow> bool" where
  "line_end c \<longleftrightarrow> (let n = of_char c :: nat in (10 \<le> n \<and> n \<le> 13) \<or> (28 \<le> n \<and> n \<le> 30) \<or> n = 133)"

definition py_strip :: "string \<Rightarrow> string" where
  "py_strip s = rev (dropWhile py_space (rev (dropWhile py_space s)))"

text \<open>\<^verbatim>\<open>s.split(sep)\<close> for a one-character separator.\<close>

fun split_on :: "char \<Rightarrow> string \<Rightarrow> string list" where
  "split_on c [] = [[]]"
| "split_on c (x # s) =
     (if x = c then [] # split_on c s
      else (case split_on c s of [] \<Rightarrow> [[x]] | t # ts \<Rightarrow> (x # t) # ts))"

text \<open>\<^verbatim>\<open>s.split()\<close>: the maximal runs of other characters.\<close>

fun words_of :: "string \<Rightarrow> string \<Rightarrow> string list" where
  "words_of acc [] = (if acc = [] then [] else [rev acc])"
| "words_of acc (c # s) =
     (if py_space c then (if acc = [] then words_of [] s else rev acc # words_of [] s)
      else words_of (c # acc) s)"

definition py_split :: "string \<Rightarrow> string list" where
  "py_split s = words_of [] s"

text \<open>\<^verbatim>\<open>s.splitlines()\<close>: a carriage return with its line feed is one boundary.\<close>

fun lines_of :: "string \<Rightarrow> string \<Rightarrow> string list" where
  "lines_of acc [] = (if acc = [] then [] else [rev acc])"
| "lines_of acc [c] = (if line_end c then [rev acc] else [rev (c # acc)])"
| "lines_of acc (c # d # s) =
     (if c = CHR 0x0D \<and> d = CHR 0x0A then rev acc # lines_of [] s
      else if line_end c then rev acc # lines_of [] (d # s)
      else lines_of (c # acc) (d # s))"

definition splitlines :: "string \<Rightarrow> string list" where
  "splitlines s = lines_of [] s"

definition utf8_len :: "string \<Rightarrow> nat" where
  "utf8_len s = sum_list (map (\<lambda>c. if (of_char c :: nat) < 128 then 1 else 2) s)"

fun suffixes_of :: "string \<Rightarrow> string list" where
  "suffixes_of [] = [[]]"
| "suffixes_of (c # s) = (c # s) # suffixes_of s"

definition starts_with :: "string \<Rightarrow> string \<Rightarrow> bool" where
  "starts_with p s \<longleftrightarrow> take (length p) s = p"

definition lower_char :: "char \<Rightarrow> char" where
  "lower_char c = (let n = of_char c :: nat in if 65 \<le> n \<and> n \<le> 90 then char_of (n + 32) else c)"

text \<open>\<^verbatim>\<open>x in v\<close>, for a list, the keys of a dict, or a substring.\<close>

definition py_in :: "json \<Rightarrow> json \<Rightarrow> bool py" where
  "py_in x v = (case v of
     JList ys \<Rightarrow> Inr (list_ex (py_eq x) ys)
   | JObj d \<Rightarrow> rbind (py_hash x) (\<lambda>_. Inr (list_ex (\<lambda>(k, _). x = JStr k) d))
   | JStr t \<Rightarrow> (case x of JStr s \<Rightarrow> Inr (list_ex (starts_with s) (suffixes_of t)) | _ \<Rightarrow> Inl TypeError)
   | _ \<Rightarrow> Inl TypeError)"

text \<open>\<^verbatim>\<open>set(v)\<close> as the list of its elements without repetitions, and \<^verbatim>\<open>sorted\<close> on such a list.\<close>

fun py_dedup :: "json list \<Rightarrow> json list \<Rightarrow> json list" where
  "py_dedup [] seen = seen"
| "py_dedup (x # xs) seen = py_dedup xs (if list_ex (py_eq x) seen then seen else seen @ [x])"

definition py_set :: "json \<Rightarrow> json list py" where
  "py_set v = rbind (py_iter v) (\<lambda>xs. rbind (rall py_hash xs) (\<lambda>_. Inr (py_dedup xs [])))"

definition num_of :: "json \<Rightarrow> rat option" where
  "num_of v = (case canon v of JFloat r \<Rightarrow> Some r | _ \<Rightarrow> None)"

definition py_sorted :: "json list \<Rightarrow> json list py" where
  "py_sorted xs =
     (if length xs \<le> 1 then Inr xs
      else if list_all is_str xs then Inr (sort_key (\<lambda>v. case v of JStr s \<Rightarrow> s | _ \<Rightarrow> []) xs)
      else if list_all (\<lambda>v. num_of v \<noteq> None) xs then Inr (sort_key (\<lambda>v. the (num_of v)) xs)
      else Inl TypeError)"

definition subset_names :: "json list \<Rightarrow> string list \<Rightarrow> bool" where
  "subset_names xs names \<longleftrightarrow> list_all (\<lambda>x. list_ex (\<lambda>n. x = JStr n) names) xs"

definition superset_names :: "json list \<Rightarrow> string list \<Rightarrow> bool" where
  "superset_names xs names \<longleftrightarrow> list_all (\<lambda>n. list_ex (\<lambda>x. x = JStr n) xs) names"

definition names_are :: "json list \<Rightarrow> string list \<Rightarrow> bool" where
  "names_are xs names \<longleftrightarrow> subset_names xs names \<and> superset_names xs names"

text \<open>\<^verbatim>\<open>"|".join(v)\<close> and \<^verbatim>\<open>v[:k]\<close> for a list and a count.\<close>

fun bar_join :: "string list \<Rightarrow> string" where
  "bar_join [] = []"
| "bar_join [s] = s"
| "bar_join (s # t # ts) = s @ CHR ''|'' # bar_join (t # ts)"

definition py_join :: "json \<Rightarrow> string py" where
  "py_join v = rbind (py_iter v) (\<lambda>xs.
     if list_all is_str xs then Inr (bar_join (map (\<lambda>x. case x of JStr s \<Rightarrow> s | _ \<Rightarrow> []) xs)) else Inl TypeError)"

definition py_take :: "json \<Rightarrow> json \<Rightarrow> json list py" where
  "py_take v k = (case v of
     JList xs \<Rightarrow> (case k of JInt i \<Rightarrow> Inr (take (nat (if i < 0 then int (length xs) + i else i)) xs) | _ \<Rightarrow> Inl TypeError)
   | _ \<Rightarrow> Inl TypeError)"

text \<open>A conjunction whose conjuncts may raise: later ones are not evaluated after a false one.\<close>

fun py_and :: "bool py list \<Rightarrow> bool py" where
  "py_and [] = Inr True"
| "py_and (x # xs) = rbind x (\<lambda>b. if b then py_and xs else Inr False)"

lemma py_and_True: "py_and xs = Inr True \<longleftrightarrow> (\<forall>x \<in> set xs. x = Inr True)"
  by (induction xs) (auto simp: rbind_Inr)

definition require_and :: "bool py list \<Rightarrow> string \<Rightarrow> unit py" where
  "require_and xs m = rbind (py_and xs) (\<lambda>b. require b m)"

lemma require_and_Inr [res_simps]: "require_and xs m = Inr u \<longleftrightarrow> (\<forall>x \<in> set xs. x = Inr True)"
  by (auto simp: require_and_def rbind_Inr require_Inr py_and_True [symmetric])

definition eq_sub :: "json \<Rightarrow> string \<Rightarrow> json \<Rightarrow> bool py" where
  "eq_sub v k x = rbind (sub v k) (\<lambda>y. Inr (py_eq y x))"

definition eq_subs :: "json \<Rightarrow> string \<Rightarrow> json \<Rightarrow> string \<Rightarrow> bool py" where
  "eq_subs v k w l = rbind (sub v k) (\<lambda>x. rbind (sub w l) (\<lambda>y. Inr (py_eq x y)))"

lemma eq_sub_True [res_simps]: "eq_sub v k x = Inr True \<longleftrightarrow> (\<exists>y. sub v k = Inr y \<and> py_eq y x)"
  by (auto simp: eq_sub_def rbind_Inr)

lemma eq_subs_True [res_simps]: "eq_subs v k w l = Inr True \<longleftrightarrow> (\<exists>x y. sub v k = Inr x \<and> sub w l = Inr y \<and> py_eq x y)"
  by (auto simp: eq_subs_def rbind_Inr)

subsection \<open>Decimal numerals\<close>

definition is_digit :: "char \<Rightarrow> bool" where
  "is_digit c \<longleftrightarrow> (let n = of_char c :: nat in 48 \<le> n \<and> n \<le> 57)"

definition digit_value :: "char \<Rightarrow> nat" where
  "digit_value c = (of_char c :: nat) - 48"

definition digit_char :: "nat \<Rightarrow> char" where
  "digit_char n = char_of (48 + n)"

fun dec_value :: "nat \<Rightarrow> string \<Rightarrow> nat" where
  "dec_value acc [] = acc"
| "dec_value acc (c # s) = dec_value (10 * acc + digit_value c) s"

fun show_nat :: "nat \<Rightarrow> string" where
  "show_nat n = (if n < 10 then [digit_char n] else show_nat (n div 10) @ [digit_char (n mod 10)])"

declare show_nat.simps [simp del]

lemma digit_char_is_digit: "n < 10 \<Longrightarrow> is_digit (digit_char n)"
  by (simp add: is_digit_def digit_char_def of_char_of)

lemma digit_value_char: "n < 10 \<Longrightarrow> digit_value (digit_char n) = n"
  by (simp add: digit_value_def digit_char_def of_char_of)

lemma dec_value_append: "dec_value acc (s @ t) = dec_value (dec_value acc s) t"
  by (induction acc s rule: dec_value.induct) simp_all

lemma dec_value_show_nat: "dec_value 0 (show_nat n) = n"
  by (induction n rule: show_nat.induct) (subst show_nat.simps, simp add: dec_value_append digit_value_char)

lemma show_nat_digits: "list_all is_digit (show_nat n)"
  by (induction n rule: show_nat.induct) (subst show_nat.simps, simp add: digit_char_is_digit)

lemma show_nat_not_Nil [simp]: "show_nat n \<noteq> []"
  by (subst show_nat.simps) simp

lemma show_nat_length: "n < 10 ^ k \<Longrightarrow> 0 < k \<Longrightarrow> length (show_nat n) \<le> k"
proof (induction n arbitrary: k rule: show_nat.induct)
  case (1 n)
  show ?case
  proof (cases "n < 10")
    case True
    then show ?thesis using 1 by (subst show_nat.simps) simp
  next
    case False
    then obtain j where k: "k = Suc j" "0 < j" using 1(2,3) by (cases k; cases "k = 1") auto
    then have "n div 10 < 10 ^ j" using 1(2) by (simp add: less_mult_imp_div_less mult.commute)
    then show ?thesis using 1(1) [OF False _ k(2)] False k by (subst show_nat.simps) simp
  qed
qed

text \<open>
  Both trace readers accept a decimal numeral only in the spelling \<^verbatim>\<open>str\<close> prints, with at most 20
  digits and within a width.
\<close>

definition decimal_token :: "string \<Rightarrow> string \<Rightarrow> nat \<Rightarrow> string \<Rightarrow> int py" where
  "decimal_token m1 m2 bits token =
     rbind (require (token \<noteq> [] \<and> list_all is_digit token \<and> length token \<le> 20) m1) (\<lambda>_.
     let n = dec_value 0 token in
     rbind (require (show_nat n = token \<and> n < 2 ^ bits) m2) (\<lambda>_. Inr (int n)))"

lemma decimal_token_Inr:
  assumes "bits \<le> 64"
  shows "decimal_token m1 m2 bits t = Inr i \<longleftrightarrow> 0 \<le> i \<and> i < 2 ^ bits \<and> t = show_nat (nat i)"
proof
  assume "decimal_token m1 m2 bits t = Inr i"
  then show "0 \<le> i \<and> i < 2 ^ bits \<and> t = show_nat (nat i)"
    by (auto simp: decimal_token_def Let_def res_simps)
next
  assume r: "0 \<le> i \<and> i < 2 ^ bits \<and> t = show_nat (nat i)"
  have "(2 :: nat) ^ bits \<le> 2 ^ 64" using assms by (rule power_increasing) simp
  also have "\<dots> < (10 :: nat) ^ 20" by simp
  finally have "(2 :: nat) ^ bits < 10 ^ 20" .
  moreover have "nat i < 2 ^ bits" using r by (simp add: nat_less_iff)
  ultimately have "nat i < 10 ^ 20" by (rule less_trans [rotated])
  then have "length t \<le> 20" using r show_nat_length [of "nat i" 20] by simp
  then show "decimal_token m1 m2 bits t = Inr i"
    using r show_nat_digits [of "nat i"] by (simp add: decimal_token_def Let_def dec_value_show_nat nat_less_iff)
qed

end
