(* ===== verification/Campaign.thy ===== *)
theory Campaign
  imports Pyvalues "HOL-Library.List_Lexorder" "HOL-Library.Char_ord" "HOL-Library.Multiset"
begin

text \<open>
  The offline planner of the observation campaign,
  \<open>src/experiments/hevc-reference-content/campaign/controller.py\<close>: the plan of eight workloads, its
  validation, the adapter contracts it publishes, and the controller whose \<open>execute\<close> never executes.

  Dataclasses are records, clients, vectors and domains are strings, Python ints are \<open>int\<close>, \<^verbatim>\<open>None\<close> is
  \<open>None\<close>. A message of \<^verbatim>\<open>validate_plan\<close> is a constructor of \<open>problem\<close> carrying the values it
  interpolates. \<^verbatim>\<open>Plan.to_json\<close> is modelled up to the document it hands to \<^verbatim>\<open>json.dumps\<close>. The argument
  \<open>fresh\<close> of \<open>build_plan\<close> is what \<^verbatim>\<open>uuid.uuid4().hex\<close> returns.
\<close>

definition VECTORS :: "string list" where "VECTORS = [''B'', ''E'']"
definition CLIENTS :: "string list" where "CLIENTS = [''va'', ''gst'']"
definition MODES :: "bool list" where "MODES = [False, True]"

definition GST_SELECTOR :: string where "GST_SELECTOR = ''system_frame_number''"
definition VA_SELECTOR :: string where "VA_SELECTOR = ''output_ordinal''"
definition VA_OWNER_OPERATIONS :: "string list" where
  "VA_OWNER_OPERATIONS = [''send'', ''receive'', ''flush'', ''result'', ''finish'', ''close'']"

definition SNAPSHOT_BYTES :: int where "SNAPSHOT_BYTES = 184320"
definition MAX_SNAPSHOTS :: int where "MAX_SNAPSHOTS = 8"
definition TOTAL_BYTES :: int where "TOTAL_BYTES = 1474560"
definition MIN_SELECTION :: nat where "MIN_SELECTION = 1"
definition MAX_SELECTION :: nat where "MAX_SELECTION = 8"
definition E_SLOTS_PER_CLIENT :: nat where "E_SLOTS_PER_CLIENT = 3"
definition B_SLOTS_PER_CLIENT :: nat where "B_SLOTS_PER_CLIENT = 1"

record authorization =
  operator :: string
  guard_lease_id :: string
  approved_manifest_sha256 :: string
  issue_authorization_url :: string
  hardware_window :: string

record gst_requirements =
  fresh_element_per_observation :: bool
  arm_on_streaming_owner :: bool
  treat_flow_error_as_failure :: bool
  finish_before_lifecycle_ops :: bool

record va_requirements =
  fresh_decoder_per_observation :: bool
  decoder_threads :: int
  active_thread_type :: int
  single_application_owner :: bool
  owner_operations :: "string list"
  finish_before_close :: bool
  fatal_cleanup_is_failure :: bool
  sticky_failure_invalidates_result :: bool

definition GstRequirements :: gst_requirements where
  "GstRequirements = \<lparr>fresh_element_per_observation = True, arm_on_streaming_owner = True,
     treat_flow_error_as_failure = True, finish_before_lifecycle_ops = True\<rparr>"

definition VARequirements :: va_requirements where
  "VARequirements = \<lparr>fresh_decoder_per_observation = True, decoder_threads = 1, active_thread_type = 0,
     single_application_owner = True, owner_operations = VA_OWNER_OPERATIONS,
     finish_before_close = True, fatal_cleanup_is_failure = True,
     sticky_failure_invalidates_result = True\<rparr>"

record workload =
  wl_vector :: string
  wl_client :: string
  wl_copy :: bool
  selector_domain :: string
  selectors :: "int list"
  arm_input_index :: int
  last_required_input_index :: int
  parameter_set_change_inputs :: "int list"
  gst_pool_size :: "int option"
  va_output_count :: "int option"

definition run_name :: "string \<Rightarrow> string \<Rightarrow> bool \<Rightarrow> string" where
  "run_name vec client copy = vec @ ''-'' @ client @ ''-'' @ (if copy then ''on'' else ''off'')"

definition wl_name :: "workload \<Rightarrow> string" where
  "wl_name w = run_name (wl_vector w) (wl_client w) (wl_copy w)"

record plan =
  run_id :: string
  workloads :: "workload list"
  plan_gst :: gst_requirements
  plan_va :: va_requirements

datatype problem =
    WorkloadSet "string list" "string list"
  | DuplicateWorkloads
  | Requirement string
  | SelectorDomain string string string
  | NoSelection string
  | SelectionCount string nat
  | SelectorsNotDistinct string string
  | NegativeSelector string string
  | ForeignLimit string
  | UnknownLimit string
  | PoolTooSmall string int nat
  | LateOrdinals string "int list" int
  | NegativeArm string
  | InvalidWindow string int int
  | NegativeChanges string "int list"
  | ChangeInsideWindow string "int list" int int
  | PairSelectors string string
  | PairWindows string string
  | PairChanges string string
  | PairLimits string string
  | SlotCount string string nat nat
  | TooManySnapshots int
  | TooManyBytes int

subsection \<open>Validation\<close>

definition expected_names :: "string list" where
  "expected_names = concat (map (\<lambda>v. concat (map (\<lambda>c. map (run_name v c) MODES) CLIENTS)) VECTORS)"

definition unless :: "bool \<Rightarrow> problem \<Rightarrow> problem list" where
  "unless c p = (if c then [] else [p])"

definition name_problems :: "string list \<Rightarrow> problem list" where
  "name_problems names =
     unless (set names = set expected_names)
       (WorkloadSet (sort (filter (\<lambda>n. n \<notin> set names) expected_names))
                    (sort (remdups (filter (\<lambda>n. n \<notin> set expected_names) names)))) @
     unless (distinct names) DuplicateWorkloads"

definition requirement_problems :: "gst_requirements \<Rightarrow> va_requirements \<Rightarrow> problem list" where
  "requirement_problems gst va =
     unless (fresh_element_per_observation gst) (Requirement ''Gst requires a fresh decoder element per observation'') @
     unless (arm_on_streaming_owner gst) (Requirement ''Gst arm() must happen on the streaming owner thread'') @
     unless (treat_flow_error_as_failure gst) (Requirement ''Gst GST_FLOW_ERROR in an armed window must fail the observation'') @
     unless (finish_before_lifecycle_ops gst) (Requirement ''Gst must finish before flush or a state change'') @
     unless (fresh_decoder_per_observation va) (Requirement ''VA requires a fresh decoder per observation'') @
     unless (decoder_threads va = 1) (Requirement ''VA armed decoding requires decoder_threads=1'') @
     unless (active_thread_type va = 0) (Requirement ''VA armed decoding requires active_thread_type=0'') @
     unless (single_application_owner va) (Requirement ''VA send/receive/flush/result/finish/close require one application owner'') @
     unless (owner_operations va = VA_OWNER_OPERATIONS) (Requirement ''VA owner_operations must cover send/receive/flush/result/finish/close exactly'') @
     unless (finish_before_close va) (Requirement ''VA observer finish must succeed before avcodec_free_context/close'') @
     unless (fatal_cleanup_is_failure va) (Requirement ''VA persistent native-end failure must be a fatal quarantined run'') @
     unless (sticky_failure_invalidates_result va) (Requirement ''VA sticky output failure must invalidate result and repeated finish'')"

definition expected_domain :: "workload \<Rightarrow> string" where
  "expected_domain w = (if wl_client w = ''va'' then VA_SELECTOR else GST_SELECTOR)"

definition gst_limit_problems :: "workload \<Rightarrow> problem list" where
  "gst_limit_problems w =
     unless (va_output_count w = None) (ForeignLimit (wl_name w)) @
     (case gst_pool_size w of
        None \<Rightarrow> [UnknownLimit (wl_name w)]
      | Some n \<Rightarrow>
          if n \<le> 0 then [UnknownLimit (wl_name w)]
          else unless (n > int (length (selectors w))) (PoolTooSmall (wl_name w) n (length (selectors w))))"

definition va_limit_problems :: "workload \<Rightarrow> problem list" where
  "va_limit_problems w =
     unless (gst_pool_size w = None) (ForeignLimit (wl_name w)) @
     (case va_output_count w of
        None \<Rightarrow> [UnknownLimit (wl_name w)]
      | Some n \<Rightarrow>
          if n \<le> 0 then [UnknownLimit (wl_name w)]
          else let late = filter (\<lambda>v. v \<ge> n) (selectors w) in
            unless (late = []) (LateOrdinals (wl_name w) (sort late) n))"

definition window_problems :: "workload \<Rightarrow> problem list" where
  "window_problems w =
     (let arm = arm_input_index w; lst = last_required_input_index w;
          negative = filter (\<lambda>v. v < 0) (parameter_set_change_inputs w);
          inside = filter (\<lambda>v. arm \<le> v \<and> v \<le> lst) (parameter_set_change_inputs w) in
      unless (\<not> arm < 0) (NegativeArm (wl_name w)) @
      unless (\<not> lst < arm) (InvalidWindow (wl_name w) arm lst) @
      unless (negative = []) (NegativeChanges (wl_name w) (sort negative)) @
      unless (inside = []) (ChangeInsideWindow (wl_name w) (sort inside) arm lst))"

text \<open>The body of the workload loop; an empty selection \<^verbatim>\<open>continue\<close>s after two checks.\<close>

definition workload_problems :: "workload \<Rightarrow> problem list" where
  "workload_problems w =
     unless (selector_domain w = expected_domain w)
       (SelectorDomain (wl_name w) (selector_domain w) (expected_domain w)) @
     (if selectors w = [] then [NoSelection (wl_name w)]
      else
        unless (MIN_SELECTION \<le> length (selectors w) \<and> length (selectors w) \<le> MAX_SELECTION)
          (SelectionCount (wl_name w) (length (selectors w))) @
        unless (distinct (selectors w)) (SelectorsNotDistinct (wl_name w) (expected_domain w)) @
        unless (\<not> list_ex (\<lambda>v. v < 0) (selectors w)) (NegativeSelector (wl_name w) (expected_domain w)) @
        (if wl_client w = ''gst'' then gst_limit_problems w
         else if wl_client w = ''va'' then va_limit_problems w else []) @
        window_problems w)"

fun copied_targets :: "workload list \<Rightarrow> int" where
  "copied_targets [] = 0"
| "copied_targets (w # ws) =
     (if selectors w \<noteq> [] \<and> wl_copy w then int (length (selectors w)) else 0) + copied_targets ws"

text \<open>\<^verbatim>\<open>{workload.copy: workload for ...}\<close>: the last workload of each mode.\<close>

definition pair_row :: "plan \<Rightarrow> string \<Rightarrow> string \<Rightarrow> bool \<Rightarrow> workload option" where
  "pair_row p client vec copy =
     find (\<lambda>w. wl_client w = client \<and> wl_vector w = vec \<and> wl_copy w = copy) (rev (workloads p))"

definition pair_problems :: "plan \<Rightarrow> string \<Rightarrow> string \<times> nat \<Rightarrow> problem list" where
  "pair_problems p client = (\<lambda>(vec, wanted).
     (case (pair_row p client vec False, pair_row p client vec True) of
        (Some off, Some on) \<Rightarrow>
          unless (selectors off = selectors on) (PairSelectors vec client) @
          unless ((arm_input_index off, last_required_input_index off) =
                  (arm_input_index on, last_required_input_index on)) (PairWindows vec client) @
          unless (parameter_set_change_inputs off = parameter_set_change_inputs on)
            (PairChanges vec client) @
          unless ((gst_pool_size off, va_output_count off) = (gst_pool_size on, va_output_count on))
            (PairLimits vec client) @
          unless (length (selectors on) = wanted) (SlotCount vec client (length (selectors on)) wanted)
      | _ \<Rightarrow> []))"

definition SLOTS :: "(string \<times> nat) list" where
  "SLOTS = [(''E'', E_SLOTS_PER_CLIENT), (''B'', B_SLOTS_PER_CLIENT)]"

definition budget_problems :: "int \<Rightarrow> problem list" where
  "budget_problems copied =
     unless (\<not> copied > MAX_SNAPSHOTS) (TooManySnapshots copied) @
     unless (\<not> copied * SNAPSHOT_BYTES > TOTAL_BYTES) (TooManyBytes (copied * SNAPSHOT_BYTES))"

definition validate_plan :: "plan \<Rightarrow> problem list" where
  "validate_plan p =
     name_problems (map wl_name (workloads p)) @
     requirement_problems (plan_gst p) (plan_va p) @
     concat (map workload_problems (workloads p)) @
     concat (map (\<lambda>c. concat (map (pair_problems p c) SLOTS)) CLIENTS) @
     budget_problems (copied_targets (workloads p))"

subsection \<open>Building a plan\<close>

definition plan_row ::
  "(string, int) dict \<Rightarrow> (string, int) dict \<Rightarrow> (string, int list) dict \<Rightarrow> (string, int list) dict \<Rightarrow>
   (string, (string, int) dict) dict \<Rightarrow> (string, int list) dict \<Rightarrow> string \<Rightarrow> string \<Rightarrow> bool \<Rightarrow> workload" where
  "plan_row gst_pool_sizes va_output_counts gst_frames va_outputs last_required_inputs changes vec client copy =
     \<lparr>wl_vector = vec, wl_client = client, wl_copy = copy,
      selector_domain = (if client = ''gst'' then GST_SELECTOR else VA_SELECTOR),
      selectors = (case dget (if client = ''gst'' then gst_frames else va_outputs) vec of
                     None \<Rightarrow> [] | Some xs \<Rightarrow> xs),
      arm_input_index = 0,
      last_required_input_index =
        (case dget last_required_inputs client of
           None \<Rightarrow> -1 | Some d \<Rightarrow> (case dget d vec of None \<Rightarrow> -1 | Some n \<Rightarrow> n)),
      parameter_set_change_inputs = (case dget changes vec of None \<Rightarrow> [] | Some xs \<Rightarrow> xs),
      gst_pool_size = (if client = ''gst'' then dget gst_pool_sizes vec else None),
      va_output_count = (if client = ''va'' then dget va_output_counts vec else None)\<rparr>"

definition build_plan ::
  "(string, int) dict \<Rightarrow> (string, int) dict \<Rightarrow> (string, int list) dict \<Rightarrow> (string, int list) dict \<Rightarrow>
   (string, (string, int) dict) dict \<Rightarrow> (string, int list) dict option \<Rightarrow> string option \<Rightarrow> string \<Rightarrow> plan" where
  "build_plan gst_pool_sizes va_output_counts gst_frames va_outputs last_required_inputs
     parameter_changes rid fresh =
     (let changes = (case parameter_changes of None \<Rightarrow> [] | Some d \<Rightarrow> d) in
      \<lparr>run_id = (case rid of None \<Rightarrow> fresh | Some r \<Rightarrow> if r = [] then fresh else r),
       workloads = concat (map (\<lambda>v. concat (map (\<lambda>c.
           map (plan_row gst_pool_sizes va_output_counts gst_frames va_outputs last_required_inputs changes v c)
             MODES) CLIENTS)) VECTORS),
       plan_gst = GstRequirements, plan_va = VARequirements\<rparr>)"

subsection \<open>Contracts\<close>

record result_report =
  report_private_option :: string
  report_destination :: string
  report_schema :: string
  report_publication :: string
  report_max_bytes :: int
  require_process_exit_zero :: bool

text \<open>\<^verbatim>\<open>",".join(map(str, selectors))\<close>.\<close>

definition show_int :: "int \<Rightarrow> string" where
  "show_int i = (if i < 0 then CHR ''-'' # show_nat (nat (- i)) else show_nat (nat i))"

fun comma_join :: "string list \<Rightarrow> string" where
  "comma_join [] = []"
| "comma_join [x] = x"
| "comma_join (x # xs) = x @ CHR '','' # comma_join xs"

datatype contract =
    GstContract (arm_api: string) (gst_copy: bool) (gst_domain: string) (gst_values: "int list") (gst_window: "int \<times> int")
      (source_pool_size: "int option") (reserved_allocations: nat) (ordinary_allocations: "int option")
      (gst_contract_requirements: gst_requirements)
  | VaContract (va_threads: int) (va_observer_outputs: string) (va_observer_copy: int)
      (va_domain: string) (va_values: "int list") (va_window: "int \<times> int") (decoded_output_count: "int option")
      (va_contract_requirements: va_requirements) (persistent_end_failure: string)
      (va_result_report: result_report)

datatype campaign_error =
    PlanError "problem list" "string list"
  | AuthorizationIncomplete "string list"
  | AuthorizationDigest
  | ExecutionNotAuthorized
  | UnknownClient string

definition client_contract :: "plan \<Rightarrow> workload \<Rightarrow> campaign_error + contract" where
  "client_contract p w =
     (if wl_client w = ''gst''
      then Inr (GstContract ''gst_hevc_callsite_arm_frames'' (wl_copy w) (selector_domain w) (selectors w)
        (arm_input_index w, last_required_input_index w) (gst_pool_size w) (length (selectors w))
        (map_option (\<lambda>n. n - int (length (selectors w))) (gst_pool_size w)) (plan_gst p))
      else if wl_client w = ''va''
      then Inr (VaContract (decoder_threads (plan_va p)) (comma_join (map show_int (selectors w))) (of_bool (wl_copy w))
        (selector_domain w) (selectors w) (arm_input_index w, last_required_input_index w) (va_output_count w)
        (plan_va p) ''fatal_quarantine''
        \<lparr>report_private_option = ''va_observer_report'', report_destination = ''runner_allocated_exclusive_path'',
         report_schema = ''omarchy.hevc.va-observer-result/v1'', report_publication = ''renameat2(RENAME_NOREPLACE)'',
         report_max_bytes = 8192, require_process_exit_zero = True\<rparr>)
      else Inl (UnknownClient (wl_client w)))"

record plan_document =
  doc_run_id :: string
  doc_valid :: bool
  doc_problems :: "problem list"
  doc_execution_authorized :: bool
  doc_requirements :: "gst_requirements \<times> va_requirements"
  doc_workloads :: "(workload \<times> string \<times> contract) list"

definition to_json :: "plan \<Rightarrow> campaign_error + plan_document" where
  "to_json p =
     (let problems = validate_plan p in
      rbind (rmap (\<lambda>w. rbind (client_contract p w) (\<lambda>c. Inr (w, wl_name w, c))) (workloads p)) (\<lambda>rows.
      Inr \<lparr>doc_run_id = run_id p, doc_valid = (problems = []), doc_problems = problems,
           doc_execution_authorized = False, doc_requirements = (plan_gst p, plan_va p),
           doc_workloads = rows\<rparr>))"

subsection \<open>The controller\<close>

record preconditions =
  healthy_idle :: bool
  foreign_client_absent :: bool
  journal_boundary :: string
  module_loaded :: bool
  decoder_refcount :: int

definition precondition_problems :: "preconditions \<Rightarrow> string list" where
  "precondition_problems c =
     (if healthy_idle c then [] else [''decoder is not in a healthy idle state'']) @
     (if foreign_client_absent c then [] else [''a foreign client holds the decoder'']) @
     (if journal_boundary c \<noteq> [] then [] else [''no fixed journal boundary recorded'']) @
     (if module_loaded c then [] else [''decoder module is not loaded'']) @
     (if decoder_refcount c = 0 then [] else [''decoder refcount is '' @ show_int (decoder_refcount c) @ '', expected 0''])"

definition auth_check :: "authorization \<Rightarrow> campaign_error + unit" where
  "auth_check a =
     (let missing = map fst (filter (\<lambda>(k, v). v = [])
            [(''approved_manifest_sha256'', approved_manifest_sha256 a),
             (''guard_lease_id'', guard_lease_id a), (''hardware_window'', hardware_window a),
             (''issue_authorization_url'', issue_authorization_url a), (''operator'', operator a)]) in
      rbind (need (AuthorizationIncomplete missing) (missing = [])) (\<lambda>_.
      need AuthorizationDigest (length (approved_manifest_sha256 a) = 64)))"

definition review :: "plan \<Rightarrow> problem list" where
  "review p = validate_plan p"

definition execute :: "plan \<Rightarrow> authorization \<Rightarrow> preconditions \<Rightarrow> campaign_error + unit" where
  "execute p a c =
     rbind (auth_check a) (\<lambda>_.
     let plan_problems = review p; state_problems = precondition_problems c in
     if plan_problems \<noteq> [] \<or> state_problems \<noteq> [] then Inl (PlanError plan_problems state_problems)
     else Inl ExecutionNotAuthorized)"

subsection \<open>What a valid plan is\<close>

definition in_window :: "workload \<Rightarrow> int \<Rightarrow> bool" where
  "in_window w i \<longleftrightarrow> arm_input_index w \<le> i \<and> i \<le> last_required_input_index w"

definition limit_ok :: "workload \<Rightarrow> bool" where
  "limit_ok w \<longleftrightarrow>
     (if wl_client w = ''gst''
      then va_output_count w = None \<and> (\<exists>n. gst_pool_size w = Some n \<and> n > int (length (selectors w)))
      else gst_pool_size w = None \<and>
        (\<exists>n > 0. va_output_count w = Some n \<and> (\<forall>v \<in> set (selectors w). v < n)))"

definition slots :: "string \<Rightarrow> nat" where
  "slots vec = (if vec = ''E'' then 3 else 1)"

definition workload_ok :: "workload \<Rightarrow> bool" where
  "workload_ok w \<longleftrightarrow>
     wl_vector w \<in> {''B'', ''E''} \<and> wl_client w \<in> {''va'', ''gst''} \<and>
     selector_domain w = (if wl_client w = ''va'' then VA_SELECTOR else GST_SELECTOR) \<and>
     length (selectors w) = slots (wl_vector w) \<and> distinct (selectors w) \<and>
     (\<forall>v \<in> set (selectors w). 0 \<le> v) \<and> limit_ok w \<and>
     0 \<le> arm_input_index w \<and> arm_input_index w \<le> last_required_input_index w \<and>
     (\<forall>i \<in> set (parameter_set_change_inputs w). 0 \<le> i \<and> \<not> in_window w i)"

definition run_ids :: "(string \<times> string \<times> bool) list" where
  "run_ids = List.product VECTORS (List.product CLIENTS MODES)"

definition wl_id :: "workload \<Rightarrow> string \<times> string \<times> bool" where
  "wl_id w = (wl_vector w, wl_client w, wl_copy w)"

definition plan_ok :: "plan \<Rightarrow> bool" where
  "plan_ok p \<longleftrightarrow>
     mset (map wl_id (workloads p)) = mset run_ids \<and>
     plan_gst p = GstRequirements \<and> plan_va p = VARequirements \<and>
     (\<forall>w \<in> set (workloads p). workload_ok w) \<and>
     (\<forall>off \<in> set (workloads p). \<forall>on \<in> set (workloads p).
        \<not> wl_copy off \<and> wl_copy on \<and> wl_vector off = wl_vector on \<and> wl_client off = wl_client on \<longrightarrow>
        on = off\<lparr>wl_copy := True\<rparr>)"

lemma unless_Nil [simp]: "unless c p = [] \<longleftrightarrow> c"
  by (simp add: unless_def)

lemma requirement_problems_Nil:
  "requirement_problems gst va = [] \<longleftrightarrow> gst = GstRequirements \<and> va = VARequirements"
  by (auto simp: requirement_problems_def GstRequirements_def VARequirements_def)

text \<open>A run name determines its three parts, because vector and client names have no dash.\<close>

lemma first_occurrence:
  assumes "a \<notin> set xs" and "a \<notin> set us" and "xs @ a # ys = us @ a # vs"
  shows "xs = us \<and> ys = vs"
  using assms
proof (induction xs arbitrary: us)
  case Nil
  then show ?case by (cases us) auto
next
  case (Cons x xs)
  then show ?case by (cases us) auto
qed

lemma run_name_parts:
  assumes eq: "run_name v c m = run_name v' c' m'" and dash: "CHR ''-'' \<notin> set v'" "CHR ''-'' \<notin> set c'"
  shows "v = v' \<and> c = c' \<and> m = m'"
proof -
  let ?m = "\<lambda>m. if m then ''on'' else ''off''"
  have e: "v @ CHR ''-'' # c @ CHR ''-'' # ?m m = v' @ CHR ''-'' # c' @ CHR ''-'' # ?m m'"
    using eq by (simp add: run_name_def)
  have "count_list v CHR ''-'' + count_list c CHR ''-'' = 0"
    using arg_cong [OF e, of "\<lambda>z. count_list z CHR ''-''"] dash by (simp add: count_notin split: if_splits)
  then have no: "CHR ''-'' \<notin> set v" "CHR ''-'' \<notin> set c" by (simp_all add: count_list_0_iff)
  have 1: "v = v' \<and> c @ CHR ''-'' # ?m m = c' @ CHR ''-'' # ?m m'"
    by (rule first_occurrence [OF no(1) dash(1) e])
  then have "c = c' \<and> ?m m = ?m m'" by (intro first_occurrence [OF no(2) dash(2)]) blast
  with 1 show ?thesis by (simp split: if_splits)
qed

definition id_name :: "string \<times> string \<times> bool \<Rightarrow> string" where
  "id_name i = run_name (fst i) (fst (snd i)) (snd (snd i))"

lemma expected_names_eq: "expected_names = map id_name run_ids"
  by code_simp

lemma run_ids_distinct: "distinct run_ids"
  by code_simp

lemma id_name_inj:
  assumes "id_name x = id_name y" and "y \<in> set run_ids"
  shows "x = y"
proof -
  have "list_all (\<lambda>i. CHR ''-'' \<notin> set (fst i) \<and> CHR ''-'' \<notin> set (fst (snd i))) run_ids"
    by code_simp
  then have "CHR ''-'' \<notin> set (fst y)" "CHR ''-'' \<notin> set (fst (snd y))"
    unfolding list_all_iff using assms(2) by blast+
  then have "fst x = fst y \<and> fst (snd x) = fst (snd y) \<and> snd (snd x) = snd (snd y)"
    by (rule run_name_parts [OF assms(1) [unfolded id_name_def]])
  then show ?thesis by (simp only: prod_eq_iff)
qed

lemma same_image:
  assumes img: "f ` A = f ` B" and inj: "\<And>x y. f x = f y \<Longrightarrow> y \<in> B \<Longrightarrow> x = y"
  shows "A = B"
proof (intro set_eqI iffI)
  fix x assume "x \<in> A"
  then have "f x \<in> f ` B" unfolding img [symmetric] by (rule imageI)
  then obtain y where "y \<in> B" "f x = f y" by blast
  then show "x \<in> B" using inj by metis
next
  fix y assume y: "y \<in> B"
  then have "f y \<in> f ` A" unfolding img by (rule imageI)
  then obtain x where "x \<in> A" "f x = f y" by (metis imageE)
  then show "y \<in> A" using inj [OF _ y] by metis
qed

lemma name_problems_Nil:
  "name_problems (map wl_name ws) = [] \<longleftrightarrow> mset (map wl_id ws) = mset run_ids"
proof -
  have names: "map wl_name ws = map id_name (map wl_id ws)"
    by (simp add: wl_name_def wl_id_def id_name_def)
  have "name_problems (map wl_name ws) = [] \<longleftrightarrow>
      id_name ` set (map wl_id ws) = id_name ` set run_ids \<and> distinct (map id_name (map wl_id ws))"
    unfolding name_problems_def names expected_names_eq by (simp only: append_is_Nil_conv unless_Nil set_map)
  also have "\<dots> \<longleftrightarrow> set (map wl_id ws) = set run_ids \<and> distinct (map wl_id ws)"
  proof
    assume a: "id_name ` set (map wl_id ws) = id_name ` set run_ids \<and> distinct (map id_name (map wl_id ws))"
    then have "distinct (map wl_id ws)" using distinct_map by blast
    moreover have "set (map wl_id ws) = set run_ids"
      by (rule same_image [OF conjunct1 [OF a]]) (rule id_name_inj)
    ultimately show "set (map wl_id ws) = set run_ids \<and> distinct (map wl_id ws)" by blast
  next
    assume a: "set (map wl_id ws) = set run_ids \<and> distinct (map wl_id ws)"
    then have "inj_on id_name (set (map wl_id ws))" using id_name_inj by (metis inj_onI)
    then have "distinct (map id_name (map wl_id ws))" using a distinct_map by blast
    then show "id_name ` set (map wl_id ws) = id_name ` set run_ids \<and> distinct (map id_name (map wl_id ws))"
      using a by metis
  qed
  also have "\<dots> \<longleftrightarrow> mset (map wl_id ws) = mset run_ids"
    using run_ids_distinct set_eq_iff_mset_eq_distinct [of "map wl_id ws" run_ids]
      mset_eq_setD [of "map wl_id ws" run_ids] mset_eq_imp_distinct_iff [of "map wl_id ws" run_ids] by blast
  finally show ?thesis .
qed

lemma find_unique:
  assumes "w \<in> set xs" and "P w" and "\<And>x. x \<in> set xs \<Longrightarrow> P x \<Longrightarrow> x = w"
  shows "find P xs = Some w"
proof -
  obtain x where x: "find P xs = Some x"
    using assms(1,2) by (cases "find P xs") (auto simp: find_None_iff)
  then have "x \<in> set xs" "P x" by (auto simp: find_Some_iff)
  then have "x = w" by (rule assms(3))
  with x show ?thesis by simp
qed

lemma wl_id_unique:
  assumes "mset (map wl_id ws) = mset run_ids" and "w \<in> set ws" and "x \<in> set ws" and "wl_id x = wl_id w"
  shows "x = w"
proof -
  have "distinct (map wl_id ws)"
    by (rule iffD2 [OF mset_eq_imp_distinct_iff [OF assms(1)] run_ids_distinct])
  then have "inj_on wl_id (set ws)" unfolding distinct_map by (rule conjunct2)
  from inj_onD [OF this assms(4,3,2)] show ?thesis .
qed

lemma pair_row_wl_id: "pair_row p c v m = find (\<lambda>w. wl_id w = (v, c, m)) (rev (workloads p))"
proof -
  have "(wl_client w = c \<and> wl_vector w = v \<and> wl_copy w = m) = (wl_id w = (v, c, m))" for w
    by (auto simp: wl_id_def)
  then show ?thesis unfolding pair_row_def by (simp only:)
qed

lemma pair_row_unique:
  assumes "mset (map wl_id (workloads p)) = mset run_ids" and "w \<in> set (workloads p)"
  shows "pair_row p (wl_client w) (wl_vector w) (wl_copy w) = Some w"
proof -
  have "find (\<lambda>x. wl_id x = wl_id w) (rev (workloads p)) = Some w"
    by (rule find_unique) (use wl_id_unique [OF assms] assms(2) in simp_all)
  then show ?thesis unfolding pair_row_wl_id by (simp add: wl_id_def)
qed

lemma gst_limit_problems_Nil:
  "wl_client w = ''gst'' \<Longrightarrow> gst_limit_problems w = [] \<longleftrightarrow> limit_ok w"
  by (auto simp: gst_limit_problems_def limit_ok_def split: option.splits)

lemma va_limit_problems_Nil:
  "wl_client w = ''va'' \<Longrightarrow> va_limit_problems w = [] \<longleftrightarrow> limit_ok w"
  by (auto simp: va_limit_problems_def limit_ok_def Let_def filter_empty_conv not_le split: option.splits)

lemma window_problems_Nil:
  "window_problems w = [] \<longleftrightarrow> 0 \<le> arm_input_index w \<and> arm_input_index w \<le> last_required_input_index w \<and>
     (\<forall>i \<in> set (parameter_set_change_inputs w). 0 \<le> i \<and> \<not> in_window w i)"
  unfolding window_problems_def Let_def in_window_def append_is_Nil_conv unless_Nil filter_empty_conv not_less
  by blast

lemma workload_problems_Nil:
  assumes v: "wl_vector w \<in> {''B'', ''E''}" and c: "wl_client w \<in> {''va'', ''gst''}"
    and n: "length (selectors w) = slots (wl_vector w)"
  shows "workload_problems w = [] \<longleftrightarrow> workload_ok w"
proof -
  have lim: "(if wl_client w = ''gst'' then gst_limit_problems w
     else if wl_client w = ''va'' then va_limit_problems w else []) = [] \<longleftrightarrow> limit_ok w"
    using c gst_limit_problems_Nil va_limit_problems_Nil by (auto split: if_splits)
  have "selectors w \<noteq> []" "1 \<le> length (selectors w)" "length (selectors w) \<le> 8"
    using n by (auto simp: slots_def split: if_splits)
  then show ?thesis
    unfolding workload_problems_def workload_ok_def expected_domain_def MIN_SELECTION_def MAX_SELECTION_def
    using v c n by (simp add: lim window_problems_Nil list_ex_iff not_less)
qed

lemma workload_problems_domain:
  "workload_problems w = [] \<Longrightarrow> selector_domain w = expected_domain w"
  by (simp add: workload_problems_def)

lemma pair_problems_Nil:
  "pair_row p c v False = Some off \<Longrightarrow> pair_row p c v True = Some on \<Longrightarrow>
   pair_problems p c (v, n) = [] \<longleftrightarrow> selectors off = selectors on \<and> arm_input_index off = arm_input_index on \<and>
     last_required_input_index off = last_required_input_index on \<and>
     parameter_set_change_inputs off = parameter_set_change_inputs on \<and>
     gst_pool_size off = gst_pool_size on \<and> va_output_count off = va_output_count on \<and>
     length (selectors on) = n"
  by (auto simp: pair_problems_def)

text \<open>The budget is a consequence: the four copying runs of a valid plan take eight snapshots.\<close>

definition id_slots :: "string \<times> string \<times> bool \<Rightarrow> int" where
  "id_slots i = (if snd (snd i) then int (slots (fst i)) else 0)"

lemma copied_targets_ids:
  assumes "\<forall>w \<in> set ws. length (selectors w) = slots (wl_vector w)"
  shows "copied_targets ws = sum_list (map id_slots (map wl_id ws))"
  using assms by (induction ws) (auto simp: id_slots_def wl_id_def slots_def split: if_splits)

lemma copied_targets_8:
  assumes "mset (map wl_id ws) = mset run_ids" and "\<forall>w \<in> set ws. length (selectors w) = slots (wl_vector w)"
  shows "copied_targets ws = 8"
proof -
  have "copied_targets ws = sum_mset (image_mset id_slots (mset (map wl_id ws)))"
    unfolding copied_targets_ids [OF assms(2)] by (simp only: mset_map [symmetric] sum_mset_sum_list)
  also have "\<dots> = sum_list (map id_slots run_ids)"
    unfolding assms(1) by (simp only: mset_map [symmetric] sum_mset_sum_list)
  also have "\<dots> = 8" by code_simp
  finally show ?thesis .
qed

lemma budget_problems_8: "budget_problems 8 = []"
  by code_simp

lemma run_ids_cases: "i \<in> set run_ids \<longleftrightarrow> fst i \<in> {''B'', ''E''} \<and> fst (snd i) \<in> {''va'', ''gst''}"
  by (cases i) (auto simp: run_ids_def VECTORS_def CLIENTS_def MODES_def)

lemma matrix_row:
  assumes "mset (map wl_id (workloads p)) = mset run_ids" and "v \<in> {''B'', ''E''}" and "c \<in> {''va'', ''gst''}"
  obtains w where "w \<in> set (workloads p)" "wl_vector w = v" "wl_client w = c" "wl_copy w = m"
    "pair_row p c v m = Some w"
proof -
  have "(v, c, m) \<in> set (map wl_id (workloads p))"
    unfolding mset_eq_setD [OF assms(1)] run_ids_cases using assms(2,3) by simp
  then obtain w where w: "w \<in> set (workloads p)" "wl_id w = (v, c, m)" by auto
  with pair_row_unique [OF assms(1) w(1)] show thesis by (intro that [of w]) (simp_all add: wl_id_def)
qed

lemma matrix_ids:
  assumes "mset (map wl_id (workloads p)) = mset run_ids" and "w \<in> set (workloads p)"
  shows "wl_vector w \<in> {''B'', ''E''}" and "wl_client w \<in> {''va'', ''gst''}"
proof -
  have "wl_id w \<in> set (map wl_id (workloads p))" using assms(2) by simp
  then have "wl_id w \<in> set run_ids" unfolding mset_eq_setD [OF assms(1)] .
  then show "wl_vector w \<in> {''B'', ''E''}" and "wl_client w \<in> {''va'', ''gst''}"
    unfolding run_ids_cases by (simp_all add: wl_id_def)
qed

lemma pairs_Nil:
  "concat (map (\<lambda>c. concat (map (pair_problems p c) SLOTS)) CLIENTS) = [] \<longleftrightarrow>
     (\<forall>v \<in> {''B'', ''E''}. \<forall>c \<in> {''va'', ''gst''}. pair_problems p c (v, slots v) = [])"
  by (auto simp: SLOTS_def CLIENTS_def slots_def E_SLOTS_PER_CLIENT_def B_SLOTS_PER_CLIENT_def)

lemma validate_plan_Nil:
  "validate_plan p = [] \<longleftrightarrow> mset (map wl_id (workloads p)) = mset run_ids \<and>
     (plan_gst p = GstRequirements \<and> plan_va p = VARequirements) \<and>
     (\<forall>w \<in> set (workloads p). workload_problems w = []) \<and>
     (\<forall>v \<in> {''B'', ''E''}. \<forall>c \<in> {''va'', ''gst''}. pair_problems p c (v, slots v) = []) \<and>
     budget_problems (copied_targets (workloads p)) = []"
  unfolding validate_plan_def append_is_Nil_conv name_problems_Nil requirement_problems_Nil pairs_Nil
  by (simp only: concat_eq_Nil_conv set_map ball_simps)

lemma plan_okD:
  assumes "plan_ok p"
  shows "mset (map wl_id (workloads p)) = mset run_ids" and "plan_gst p = GstRequirements"
    and "plan_va p = VARequirements" and "\<And>w. w \<in> set (workloads p) \<Longrightarrow> workload_ok w"
    and "\<And>off on. off \<in> set (workloads p) \<Longrightarrow> on \<in> set (workloads p) \<Longrightarrow> \<not> wl_copy off \<Longrightarrow> wl_copy on \<Longrightarrow>
      wl_vector off = wl_vector on \<Longrightarrow> wl_client off = wl_client on \<Longrightarrow> on = off\<lparr>wl_copy := True\<rparr>"
  using assms unfolding plan_ok_def by blast+

lemma plan_ok_problems:
  assumes "plan_ok p"
  shows "validate_plan p = []"
proof -
  note m = plan_okD(1) [OF assms]
  have n: "\<forall>w \<in> set (workloads p). length (selectors w) = slots (wl_vector w)"
    using plan_okD(4) [OF assms] by (simp add: workload_ok_def)
  have "workload_problems w = []" if "w \<in> set (workloads p)" for w
    using workload_problems_Nil [OF matrix_ids [OF m that]] n plan_okD(4) [OF assms that] that by simp
  moreover have "pair_problems p c (v, slots v) = []" if vc: "v \<in> {''B'', ''E''}" "c \<in> {''va'', ''gst''}" for v c
  proof -
    obtain off where off: "off \<in> set (workloads p)" "wl_vector off = v" "wl_client off = c" "wl_copy off = False"
      "pair_row p c v False = Some off" by (rule matrix_row [OF m vc])
    obtain on where on: "on \<in> set (workloads p)" "wl_vector on = v" "wl_client on = c" "wl_copy on = True"
      "pair_row p c v True = Some on" by (rule matrix_row [OF m vc])
    have "on = off\<lparr>wl_copy := True\<rparr>"
      using plan_okD(5) [OF assms off(1) on(1)] off(2-4) on(2-4) by simp
    moreover have "length (selectors on) = slots v" using bspec [OF n on(1)] on(2) by simp
    ultimately show ?thesis unfolding pair_problems_Nil [OF off(5) on(5)] by simp
  qed
  ultimately show ?thesis
    unfolding validate_plan_Nil copied_targets_8 [OF m n] using m plan_okD(2,3) [OF assms] budget_problems_8
    by blast
qed

lemma problems_plan_ok:
  assumes "validate_plan p = []"
  shows "plan_ok p"
proof -
  have m: "mset (map wl_id (workloads p)) = mset run_ids"
    and req: "plan_gst p = GstRequirements" "plan_va p = VARequirements"
    and wp: "\<And>w. w \<in> set (workloads p) \<Longrightarrow> workload_problems w = []"
    and pairs: "\<And>v c. v \<in> {''B'', ''E''} \<Longrightarrow> c \<in> {''va'', ''gst''} \<Longrightarrow> pair_problems p c (v, slots v) = []"
    using assms unfolding validate_plan_Nil by blast+
  have row: "on = off\<lparr>wl_copy := True\<rparr> \<and> length (selectors on) = slots (wl_vector on)"
    if off: "off \<in> set (workloads p)" "\<not> wl_copy off" and on: "on \<in> set (workloads p)" "wl_copy on"
      and same: "wl_vector off = wl_vector on" "wl_client off = wl_client on" for off on
  proof -
    have rows: "pair_row p (wl_client on) (wl_vector on) False = Some off"
        "pair_row p (wl_client on) (wl_vector on) True = Some on"
      using pair_row_unique [OF m off(1)] pair_row_unique [OF m on(1)] off(2) on(2) same by simp_all
    have "selector_domain off = selector_domain on"
      using workload_problems_domain [OF wp [OF off(1)]] workload_problems_domain [OF wp [OF on(1)]] same
      by (simp add: expected_domain_def)
    then show ?thesis
      using pairs [OF matrix_ids [OF m on(1)]] off(2) on(2) same unfolding pair_problems_Nil [OF rows] by simp
  qed
  have n: "length (selectors w) = slots (wl_vector w)" if w: "w \<in> set (workloads p)" for w
  proof -
    note vc = matrix_ids [OF m w]
    obtain off where off: "off \<in> set (workloads p)" "wl_vector off = wl_vector w" "wl_client off = wl_client w"
      "wl_copy off = False" "pair_row p (wl_client w) (wl_vector w) False = Some off"
      by (rule matrix_row [OF m vc])
    obtain on where on: "on \<in> set (workloads p)" "wl_vector on = wl_vector w" "wl_client on = wl_client w"
      "wl_copy on = True" "pair_row p (wl_client w) (wl_vector w) True = Some on"
      by (rule matrix_row [OF m vc])
    have same: "wl_vector off = wl_vector on" "wl_client off = wl_client on" using off(2,3) on(2,3) by simp_all
    have r: "on = off\<lparr>wl_copy := True\<rparr> \<and> length (selectors on) = slots (wl_vector on)"
      by (rule row [OF off(1) _ on(1) _ same]) (simp_all add: off(4) on(4))
    have eq: "on = off\<lparr>wl_copy := True\<rparr>" by (rule conjunct1 [OF r])
    have len: "length (selectors on) = slots (wl_vector w)" using conjunct2 [OF r] on(2) by simp
    have "w = off \<or> w = on"
      using pair_row_unique [OF m w] off(5) on(5) by (cases "wl_copy w") simp_all
    moreover have "selectors off = selectors on" using eq by simp
    ultimately show ?thesis using len by metis
  qed
  have "workload_ok w" if "w \<in> set (workloads p)" for w
    using workload_problems_Nil [OF matrix_ids [OF m that] n [OF that]] wp [OF that] by blast
  then show ?thesis unfolding plan_ok_def using m req row by blast
qed

subsection \<open>Properties\<close>

text \<open>
  C26. Validation decides the campaign contract. A plan has no problem exactly when it consists of the
  eight runs, once each, with the fixed client requirements, every run well formed (selectors
  distinct, non-negative and within the client's limit, three for vector E and one for B, no
  parameter-set change inside its armed window) and the two runs of a pair equal but for the copy
  flag. Such a plan spends exactly the snapshot and byte budgets.
\<close>
theorem validate_plan_iff:
  "validate_plan p = [] \<longleftrightarrow>
     plan_ok p \<and> copied_targets (workloads p) = MAX_SNAPSHOTS \<and>
     copied_targets (workloads p) * SNAPSHOT_BYTES = TOTAL_BYTES"
proof -
  have "copied_targets (workloads p) = 8" if "plan_ok p"
    by (rule copied_targets_8 [OF plan_okD(1) [OF that]])
      (use plan_okD(4) [OF that] in \<open>simp add: workload_ok_def\<close>)
  then show ?thesis
    using plan_ok_problems problems_plan_ok by (auto simp: MAX_SNAPSHOTS_def SNAPSHOT_BYTES_def TOTAL_BYTES_def)
qed

text \<open>
  The controller never starts a campaign: \<open>execute\<close> ends in an exception for every plan,
  authorization and precondition. It gets as far as refusing for want of authorization exactly when
  the authorization is complete with a 64-character digest, the plan is valid and the decoder is
  healthy, idle, unshared, loaded, unreferenced and has a journal boundary.
\<close>
theorem execute_never_runs:
  "\<exists>e. execute p a c = Inl e \<and>
     (e = ExecutionNotAuthorized \<longleftrightarrow>
        [] \<notin> {operator a, guard_lease_id a, issue_authorization_url a, hardware_window a} \<and>
        length (approved_manifest_sha256 a) = 64 \<and> plan_ok p \<and>
        healthy_idle c \<and> foreign_client_absent c \<and> journal_boundary c \<noteq> [] \<and> module_loaded c \<and>
        decoder_refcount c = 0)"
proof -
  have auth: "auth_check a = Inr () \<longleftrightarrow>
      [] \<notin> {operator a, guard_lease_id a, issue_authorization_url a, hardware_window a} \<and>
      length (approved_manifest_sha256 a) = 64"
    by (auto simp: auth_check_def Let_def res_simps)
  have "auth_check a \<noteq> Inl ExecutionNotAuthorized"
    by (auto simp: auth_check_def Let_def res_simps)
  moreover have "validate_plan p = [] \<longleftrightarrow> plan_ok p"
    using plan_ok_problems problems_plan_ok by blast
  moreover have "precondition_problems c = [] \<longleftrightarrow>
      healthy_idle c \<and> foreign_client_absent c \<and> journal_boundary c \<noteq> [] \<and> module_loaded c \<and>
      decoder_refcount c = 0"
    by (simp add: precondition_problems_def)
  ultimately show ?thesis
    unfolding execute_def review_def Let_def using auth by (cases "auth_check a") auto
qed

text \<open>
  Building is complete: the matrix, its names, pairs, requirements and budget hold by construction,
  so a built plan is valid exactly when each of its four client/vector rows is well formed.
\<close>
theorem build_plan_valid_iff:
  "validate_plan (build_plan pools counts frames outputs lasts changes rid fresh) = [] \<longleftrightarrow>
   list_all (\<lambda>v. list_all (\<lambda>c. workload_ok
     (plan_row pools counts frames outputs lasts (case changes of None \<Rightarrow> [] | Some d \<Rightarrow> d) v c False))
     CLIENTS) VECTORS"
proof -
  let ?p = "build_plan pools counts frames outputs lasts changes rid fresh"
  define row where "row = plan_row pools counts frames outputs lasts (case changes of None \<Rightarrow> [] | Some d \<Rightarrow> d)"
  have ws: "workloads ?p = concat (map (\<lambda>v. concat (map (\<lambda>c. map (row v c) MODES) CLIENTS)) VECTORS)"
    by (simp add: build_plan_def row_def Let_def)
  have id: "wl_id (row v c m) = (v, c, m)" for v c m by (simp add: wl_id_def row_def plan_row_def)
  have ids: "map wl_id (workloads ?p) = run_ids"
    by (simp add: ws run_ids_def VECTORS_def CLIENTS_def MODES_def id)
  have pair: "row v c True = (row v c False)\<lparr>wl_copy := True\<rparr>" for v c by (simp add: row_def plan_row_def)
  have mem: "w \<in> set (workloads ?p) \<longleftrightarrow> (\<exists>v \<in> set VECTORS. \<exists>c \<in> set CLIENTS. \<exists>m. w = row v c m)" for w
    unfolding ws ex_bool_eq by (auto simp: MODES_def)
  have okm: "workload_ok (w\<lparr>wl_copy := b\<rparr>) = workload_ok w" for w b
    by (simp add: workload_ok_def limit_ok_def in_window_def)
  have okrow: "workload_ok (row v c m) = workload_ok (row v c False)" for v c m
    by (cases m) (simp_all add: pair okm)
  have pairs: "on = off\<lparr>wl_copy := True\<rparr>"
    if mems: "off \<in> set (workloads ?p)" "on \<in> set (workloads ?p)"
      and same: "\<not> wl_copy off" "wl_copy on" "wl_vector off = wl_vector on" "wl_client off = wl_client on"
      for off on
  proof -
    obtain v c m v' c' m' where r: "off = row v c m" "on = row v' c' m'" using mems unfolding mem by blast
    with same id [of v c m] id [of v' c' m'] have "v = v'" "c = c'" "\<not> m" "m'" by (auto simp: wl_id_def)
    then show ?thesis using r pair by simp
  qed
  have req: "plan_gst ?p = GstRequirements" "plan_va ?p = VARequirements"
    by (simp_all add: build_plan_def Let_def)
  have "validate_plan ?p = [] \<longleftrightarrow> plan_ok ?p" using plan_ok_problems problems_plan_ok by blast
  also have "\<dots> \<longleftrightarrow> (\<forall>w \<in> set (workloads ?p). workload_ok w)"
    unfolding plan_ok_def ids using req pairs by blast
  also have "\<dots> \<longleftrightarrow> (\<forall>v \<in> set VECTORS. \<forall>c \<in> set CLIENTS. workload_ok (row v c False))"
    unfolding Ball_def mem using okrow by blast
  finally show ?thesis unfolding list_all_iff row_def .
qed

text \<open>What a published contract must say for its workload.\<close>

definition contract_matches :: "plan \<Rightarrow> workload \<Rightarrow> contract \<Rightarrow> bool" where
  "contract_matches p w c \<longleftrightarrow> (case c of
     GstContract api copy domain values window pool reserve ordinary req \<Rightarrow>
       wl_client w = ''gst'' \<and> copy = wl_copy w \<and> values = selectors w \<and> req = GstRequirements \<and>
       reserve = length (selectors w) \<and>
       (\<exists>n k. pool = Some n \<and> ordinary = Some k \<and> k \<ge> 1 \<and> n = k + int reserve)
   | VaContract threads outputs copy domain values window outs req failure report \<Rightarrow>
       wl_client w = ''va'' \<and> threads = 1 \<and> values = selectors w \<and>
       outputs = comma_join (map (\<lambda>v. show_nat (nat v)) values) \<and> copy = of_bool (wl_copy w) \<and>
       req = VARequirements \<and> require_process_exit_zero report \<and>
       (\<exists>n. outs = Some n \<and> (\<forall>v \<in> set values. 0 \<le> v \<and> v < n)))"

lemma client_contract_ok:
  assumes "workload_ok w" and "plan_gst p = GstRequirements" and "plan_va p = VARequirements"
  shows "\<exists>c. client_contract p w = Inr c \<and> contract_matches p w c"
proof (cases "wl_client w = ''gst''")
  case True
  then obtain n where "gst_pool_size w = Some n" "n > int (length (selectors w))"
    using assms(1) by (auto simp: workload_ok_def limit_ok_def)
  with True assms show ?thesis
    by (simp add: client_contract_def contract_matches_def)
next
  case False
  with assms(1) have va: "wl_client w = ''va''" by (auto simp: workload_ok_def)
  with assms(1) obtain n where "va_output_count w = Some n" "\<forall>v \<in> set (selectors w). 0 \<le> v \<and> v < n"
    by (auto simp: workload_ok_def limit_ok_def)
  moreover from this have "comma_join (map show_int (selectors w)) = comma_join (map (\<lambda>v. show_nat (nat v)) (selectors w))"
    by (intro arg_cong [of _ _ comma_join] map_cong refl) (force simp: show_int_def)
  ultimately show ?thesis using va assms(2,3)
    by (simp add: client_contract_def contract_matches_def VARequirements_def)
qed

text \<open>
  C27. A valid plan can be published: \<open>to_json\<close> does not raise on it, marks it valid and not authorized,
  and attaches to each workload, in order, a contract with the workload's selection. A Gst contract
  keeps at least one ordinary allocation beside the reserved ones, a VA contract runs one decoder
  thread and selects only decoded outputs.
\<close>
theorem valid_plan_published:
  assumes "validate_plan p = []"
  shows "\<exists>doc. to_json p = Inr doc \<and> doc_valid doc \<and> \<not> doc_execution_authorized doc \<and>
    list_all2 (\<lambda>w (w', name, c). w' = w \<and> name = wl_name w \<and> contract_matches p w c)
      (workloads p) (doc_workloads doc)"
proof -
  note ok = problems_plan_ok [OF assms]
  have "\<exists>ys. rmap (\<lambda>w. rbind (client_contract p w) (\<lambda>c. Inr (w, wl_name w, c))) (workloads p) = Inr ys \<and>
      list_all2 (\<lambda>w (w', name, c). w' = w \<and> name = wl_name w \<and> contract_matches p w c) (workloads p) ys"
  proof (rule rmap_total)
    fix w assume "w \<in> set (workloads p)"
    from client_contract_ok [OF plan_okD(4) [OF ok this] plan_okD(2,3) [OF ok]]
    show "\<exists>y. rbind (client_contract p w) (\<lambda>c. Inr (w, wl_name w, c)) = Inr y \<and>
        (case y of (w', name, c) \<Rightarrow> w' = w \<and> name = wl_name w \<and> contract_matches p w c)" by auto
  qed
  then show ?thesis unfolding to_json_def Let_def using assms by auto
qed

subsection \<open>A valid plan\<close>

definition sample_plan :: plan where
  "sample_plan = build_plan [(''E'', 8), (''B'', 4)] [(''E'', 20), (''B'', 9)]
     [(''E'', [3, 5, 7]), (''B'', [2])] [(''E'', [4, 6, 8]), (''B'', [1])]
     [(''gst'', [(''E'', 12), (''B'', 6)]), (''va'', [(''E'', 12), (''B'', 6)])]
     (Some [(''E'', [14])]) (Some ''run'') ''fresh''"

theorem valid_plan_published_witness:
  "\<exists>doc. to_json sample_plan = Inr doc \<and> doc_valid doc \<and> length (doc_workloads doc) = 8"
proof -
  have v: "validate_plan sample_plan = []" by code_simp
  have "length (workloads sample_plan) = 8" by code_simp
  moreover obtain doc where "to_json sample_plan = Inr doc" "doc_valid doc"
    "length (workloads sample_plan) = length (doc_workloads doc)"
    using valid_plan_published [OF v] list_all2_lengthD by blast
  ultimately show ?thesis by simp
qed

end
