(* ===== verification/Reports.thy ===== *)
theory Reports
  imports Pyvalues
begin

unbundle bit_operations_syntax

text \<open>
  The collectors of one observer report:
  \<open>src/experiments/hevc-reference-content/va-callsite/collector.py\<close> (the \<open>va_\<close> definitions) and
  \<open>src/experiments/hevc-reference-content/gst-runner/collector.py\<close> (the \<open>gst_\<close> definitions). They share
  their helpers, byte for byte, and so does the model.

  A report is a byte string (a \<open>string\<close> here); the argument \<open>loads\<close> is what
  \<^verbatim>\<open>json.loads(data.decode("utf-8"))\<close> returns on it, with the pairs of an object still uncollapsed, or the
  exception it raises: \<open>Reject\<close> for the two decoding errors that the code catches, another one for what
  passes it (a plain \<^verbatim>\<open>ValueError\<close> for an integer of more than 4300 digits, a \<^verbatim>\<open>RecursionError\<close>). Reading the file is a run of system calls whose results are given: the two
  \<^verbatim>\<open>fstat\<close> results, the successive \<^verbatim>\<open>read\<close> results and whether \<^verbatim>\<open>open\<close> and \<^verbatim>\<open>close\<close> succeed, with
  \<open>None\<close> for an \<^verbatim>\<open>OSError\<close>. A refusal keeps its message without the position it interpolates.
\<close>

definition VA_SCHEMA :: string where "VA_SCHEMA = ''omarchy.hevc.va-observer-result/v1''"
definition GST_SCHEMA :: string where "GST_SCHEMA = ''omarchy.hevc.gst-observer-result/v1''"
definition MAX_REPORT_BYTES :: nat where "MAX_REPORT_BYTES = 8 * 1024"
definition TOP_KEYS :: "string list" where "TOP_KEYS = [''schema'', ''count'', ''outputs'']"

definition VA_OUTPUT_KEYS :: "string list" where
  "VA_OUTPUT_KEYS = [''output_ordinal'', ''surface'', ''run'', ''context_generation'', ''session'',
     ''allocation_generation'', ''writer'', ''submitted'', ''completed'', ''capture_index'', ''copied'', ''sha256'']"

definition VA_HEX64_FIELDS :: "string list" where
  "VA_HEX64_FIELDS = [''context_generation'', ''session'', ''allocation_generation'', ''writer'', ''submitted'', ''completed'']"

definition GST_OUTPUT_KEYS :: "string list" where
  "GST_OUTPUT_KEYS = [''system_frame_number'', ''request'', ''run'', ''context_generation'', ''session'',
     ''allocation_generation'', ''writer'', ''submitted'', ''completed'', ''capture_index'', ''copied'', ''sha256'']"

definition GST_HEX64_FIELDS :: "string list" where
  "GST_HEX64_FIELDS = [''request'', ''context_generation'', ''session'', ''allocation_generation'', ''writer'',
     ''submitted'', ''completed'']"

subsection \<open>Fields\<close>

definition hex_char :: "char \<Rightarrow> bool" where
  "hex_char c \<longleftrightarrow> c \<in> set ''0123456789abcdef''"

definition hex_digit_value :: "char \<Rightarrow> nat" where
  "hex_digit_value c = (if is_digit c then digit_value c else (of_char c :: nat) - 87)"

definition hex_value :: "string \<Rightarrow> nat" where
  "hex_value s = foldl (\<lambda>acc c. 16 * acc + hex_digit_value c) 0 s"

definition rep_hex :: "nat \<Rightarrow> json \<Rightarrow> string py" where
  "rep_hex digits v = (case v of
     JStr s \<Rightarrow> rbind (require (length s = digits \<and> list_all hex_char s) ''must be lowercase hexadecimal digits'') (\<lambda>_. Inr s)
   | _ \<Rightarrow> Inl (Reject ''must be lowercase hexadecimal digits''))"

definition rep_uint :: "nat \<Rightarrow> json \<Rightarrow> int py" where
  "rep_uint bits v = int_in ''must be an unsigned integer'' 0 (2 ^ bits - 1) v"

type_synonym rep_identity = "(string \<times> string) \<times> string \<times> string"

definition report_run :: "(string, json) dict \<Rightarrow> (string \<times> string) py" where
  "report_run d =
     rbind (dsub d ''run'') (\<lambda>run.
     case run of
       JList [a, b] \<Rightarrow>
         rbind (rep_hex 16 a) (\<lambda>x. rbind (rep_hex 16 b) (\<lambda>y.
         rbind (require (hex_value x \<noteq> 0 \<or> hex_value y \<noteq> 0) ''run must be nonzero'') (\<lambda>_. Inr (x, y))))
     | _ \<Rightarrow> Inl (Reject ''run must contain two identities''))"

definition nonzero_hex :: "(string, json) dict \<Rightarrow> string \<Rightarrow> unit py" where
  "nonzero_hex d k =
     rbind (rbind (dsub d k) (rep_hex 16)) (\<lambda>s. require (hex_value s \<noteq> 0) ''must be nonzero'')"

definition same_identity :: "rep_identity option \<Rightarrow> rep_identity \<Rightarrow> rep_identity option py" where
  "same_identity seen this = (case seen of
     None \<Rightarrow> Inr (Some this)
   | Some i \<Rightarrow> rbind (require (this = i) ''outputs do not share one run/context/session'') (\<lambda>_. Inr seen))"

definition copy_digest :: "(string, json) dict \<Rightarrow> bool py" where
  "copy_digest d =
     (case jv d ''copied'' of
        JBool c \<Rightarrow>
          if c then rbind (rbind (dsub d ''sha256'') (rep_hex 64)) (\<lambda>_. Inr c)
          else rbind (dsub d ''sha256'') (\<lambda>v. rbind (require (v = JNull) ''sha256 must be null when copy is off'') (\<lambda>_. Inr c))
      | _ \<Rightarrow> Inl (Reject ''copied must be boolean''))"

text \<open>The part of the loop body that follows the coordinates: run, generations, frontier, identity, copy.\<close>

definition output_identity :: "string list \<Rightarrow> (string, json) dict \<Rightarrow> rep_identity option \<Rightarrow> (rep_identity option \<times> bool) py" where
  "output_identity hex_fields d seen =
     rbind (report_run d) (\<lambda>run.
     rbind (rall (nonzero_hex d) hex_fields) (\<lambda>_.
     rbind (require (hex_value (jstr d ''completed'') \<ge> hex_value (jstr d ''submitted''))
       ''completion precedes submission'') (\<lambda>_.
     rbind (same_identity seen (run, jstr d ''context_generation'', jstr d ''session'')) (\<lambda>seen'.
     rbind (copy_digest d) (\<lambda>c. Inr (seen', c))))))"

record report_state =
  rs_coordinates :: "int list"
  rs_requests :: "string list"
  rs_identity :: "rep_identity option"
  rs_copied :: "bool list"

definition report_init :: report_state where
  "report_init = \<lparr>rs_coordinates = [], rs_requests = [], rs_identity = None, rs_copied = []\<rparr>"

definition va_output :: "json \<Rightarrow> report_state \<Rightarrow> report_state py" where
  "va_output out st =
     (case out of
        JObj d \<Rightarrow>
          rbind (require (keys_are d VA_OUTPUT_KEYS) ''has unexpected fields'') (\<lambda>_.
          rbind (rbind (dsub d ''output_ordinal'') (rep_uint 64)) (\<lambda>ordinal.
          rbind (rbind (dsub d ''surface'') (rep_uint 32)) (\<lambda>_.
          rbind (rbind (dsub d ''capture_index'') (rep_uint 32)) (\<lambda>_.
          rbind (output_identity VA_HEX64_FIELDS d (rs_identity st)) (\<lambda>(seen, c).
          Inr (st\<lparr>rs_coordinates := rs_coordinates st @ [ordinal], rs_identity := seen,
                  rs_copied := rs_copied st @ [c]\<rparr>))))))
      | _ \<Rightarrow> Inl (Reject ''has unexpected fields''))"

definition gst_output :: "json \<Rightarrow> report_state \<Rightarrow> report_state py" where
  "gst_output out st =
     (case out of
        JObj d \<Rightarrow>
          rbind (require (keys_are d GST_OUTPUT_KEYS) ''has unexpected fields'') (\<lambda>_.
          rbind (rbind (dsub d ''system_frame_number'') (rep_uint 32)) (\<lambda>frame.
          rbind (rbind (dsub d ''capture_index'') (rep_uint 32)) (\<lambda>_.
          rbind (output_identity GST_HEX64_FIELDS d (rs_identity st)) (\<lambda>(seen, c).
          Inr (st\<lparr>rs_coordinates := rs_coordinates st @ [frame], rs_requests := rs_requests st @ [jstr d ''request''],
                  rs_identity := seen, rs_copied := rs_copied st @ [c]\<rparr>)))))
      | _ \<Rightarrow> Inl (Reject ''has unexpected fields''))"

subsection \<open>Documents\<close>

text \<open>The top level of a report: its keys, schema and count, and the list of outputs.\<close>

definition report_outputs :: "string \<Rightarrow> json \<Rightarrow> json list py" where
  "report_outputs schema document =
     (case document of
        JObj d \<Rightarrow>
          rbind (require (keys_are d TOP_KEYS) ''unexpected top-level report fields'') (\<lambda>_.
          rbind (require (jv d ''schema'' = JStr schema) ''unknown report schema'') (\<lambda>_.
          rbind (require (is_list (jv d ''outputs'') \<and> is_int (jv d ''count'')) ''count and outputs have invalid types'') (\<lambda>_.
          rbind (require (1 \<le> jint d ''count'' \<and> jint d ''count'' \<le> 8 \<and>
            jint d ''count'' = int (length (jlist d ''outputs''))) ''count does not describe one to eight outputs'') (\<lambda>_.
          Inr (jlist d ''outputs'')))))
      | _ \<Rightarrow> Inl (Reject ''unexpected top-level report fields''))"

definition copy_mode :: "bool option \<Rightarrow> report_state \<Rightarrow> unit py" where
  "copy_mode expected_copy st = (case expected_copy of
     None \<Rightarrow> Inr ()
   | Some c \<Rightarrow> require (list_all (\<lambda>x. x = c) (rs_copied st)) ''report copy mode does not match the requested mode'')"

definition va_document :: "json \<Rightarrow> int list option \<Rightarrow> bool option \<Rightarrow> json py" where
  "va_document document expected_outputs expected_copy =
     rbind (report_outputs VA_SCHEMA document) (\<lambda>outputs.
     rbind (rfold va_output outputs report_init) (\<lambda>st.
     rbind (require (distinct (rs_coordinates st)) ''output ordinals are duplicated'') (\<lambda>_.
     rbind (case expected_outputs of
              None \<Rightarrow> Inr ()
            | Some xs \<Rightarrow> require (rs_coordinates st = xs) ''report output ordinals do not match the requested order'') (\<lambda>_.
     rbind (copy_mode expected_copy st) (\<lambda>_.
     Inr document)))))"

definition gst_document :: "json \<Rightarrow> int list option \<Rightarrow> bool option \<Rightarrow> json py" where
  "gst_document document expected_frames expected_copy =
     rbind (report_outputs GST_SCHEMA document) (\<lambda>outputs.
     rbind (rfold gst_output outputs report_init) (\<lambda>st.
     rbind (require (distinct (rs_coordinates st)) ''system frame numbers are duplicated'') (\<lambda>_.
     rbind (require (distinct (rs_requests st)) ''request identities are duplicated'') (\<lambda>_.
     rbind (case expected_frames of
              None \<Rightarrow> Inr ()
            | Some xs \<Rightarrow>
                rbind (require (set (rs_coordinates st) = set xs) ''report frames do not match the requested selection'') (\<lambda>_.
                require (length (rs_coordinates st) = length xs) ''report frame count does not match the requested selection'')) (\<lambda>_.
     rbind (copy_mode expected_copy st) (\<lambda>_.
     Inr document))))))"

subsection \<open>Bytes\<close>

definition selection_ok :: "int \<Rightarrow> int list \<Rightarrow> bool" where
  "selection_ok bound xs \<longleftrightarrow> 1 \<le> length xs \<and> length xs \<le> 8 \<and> list_all (\<lambda>x. 0 \<le> x \<and> x < bound) xs \<and> distinct xs"

definition expected_ok :: "int \<Rightarrow> int list option \<Rightarrow> unit py" where
  "expected_ok bound expected = (case expected of
     None \<Rightarrow> Inr () | Some xs \<Rightarrow> require (selection_ok bound xs) ''expected selection must be one to eight unique values'')"

definition decode_report :: "(string \<Rightarrow> json py) \<Rightarrow> string \<Rightarrow> json py" where
  "decode_report loads data =
     rbind (require (data \<noteq> [] \<and> length data \<le> MAX_REPORT_BYTES \<and> last data = CHR 0x0A \<and>
       CHR 0x0A \<notin> set (butlast data) \<and> CHR 0x0D \<notin> set data) ''report must be one bounded newline-terminated record'') (\<lambda>_.
     rbind (require (CHR 0x00 \<notin> set data) ''report contains a NUL byte'') (\<lambda>_.
     case loads data of
       Inl (Reject _) \<Rightarrow> Inl (Reject ''invalid report JSON'')
     | Inl e \<Rightarrow> Inl e
     | Inr v \<Rightarrow> rbind (require (unique_json v) ''duplicate JSON key'') (\<lambda>_. Inr v)))"

definition va_parse_report :: "(string \<Rightarrow> json py) \<Rightarrow> string \<Rightarrow> int list option \<Rightarrow> bool option \<Rightarrow> json py" where
  "va_parse_report loads data expected_outputs expected_copy =
     rbind (expected_ok (2 ^ 64) expected_outputs) (\<lambda>_.
     rbind (decode_report loads data) (\<lambda>document. va_document document expected_outputs expected_copy))"

definition gst_parse_report :: "(string \<Rightarrow> json py) \<Rightarrow> string \<Rightarrow> int list option \<Rightarrow> bool option \<Rightarrow> json py" where
  "gst_parse_report loads data expected_frames expected_copy =
     rbind (expected_ok (2 ^ 32 - 1) expected_frames) (\<lambda>_.
     rbind (decode_report loads data) (\<lambda>document. gst_document document expected_frames expected_copy))"

subsection \<open>Files\<close>

record file_stat =
  st_dev :: int
  st_ino :: int
  st_mode :: int
  st_uid :: int
  st_nlink :: int
  st_size :: int
  st_mtime_ns :: int
  st_ctime_ns :: int

record file_run =
  fr_nofollow :: bool
  fr_open :: bool
  fr_stat :: "file_stat option"
  fr_reads :: "string option list"
  fr_final :: "file_stat option"
  fr_close :: bool
  fr_euid :: int

definition is_regular :: "file_stat \<Rightarrow> bool" where
  "is_regular s \<longleftrightarrow> st_mode s AND 0xF000 = 0x8000"

text \<open>
  The read loop: at most \<open>limit + 1\<close> bytes in pieces of at most \<open>piece\<close>, until an empty result. A
  \<^verbatim>\<open>read\<close> never returns more than it was asked for; past the end of the given results it returns nothing.
\<close>

fun read_loop :: "nat \<Rightarrow> nat \<Rightarrow> string option list \<Rightarrow> string \<Rightarrow> string py" where
  "read_loop limit piece [] data = Inr data"
| "read_loop limit piece (r # rs) data =
     (if length data > limit then Inr data
      else (case r of
              None \<Rightarrow> Inl (Reject ''cannot read'')
            | Some chunk \<Rightarrow>
                (let got = take (min piece (limit + 1 - length data)) chunk in
                 if got = [] then Inr data else read_loop limit piece rs (data @ got))))"

definition opened_stat :: "file_run \<Rightarrow> file_stat py" where
  "opened_stat f =
     rbind (require (fr_nofollow f) ''this collector requires O_NOFOLLOW'') (\<lambda>_.
     rbind (require (fr_open f) ''cannot open'') (\<lambda>_.
     case fr_stat f of None \<Rightarrow> Inl (Reject ''cannot read'') | Some s \<Rightarrow> Inr s))"

definition closed_stat :: "file_run \<Rightarrow> file_stat py" where
  "closed_stat f =
     rbind (case fr_final f of None \<Rightarrow> Inl (Reject ''cannot read'') | Some s \<Rightarrow> Inr s) (\<lambda>s.
     rbind (require (fr_close f) ''cannot close'') (\<lambda>_. Inr s))"

definition load_bytes :: "file_run \<Rightarrow> string py" where
  "load_bytes f =
     rbind (opened_stat f) (\<lambda>status.
     rbind (require (is_regular status) ''report is not a regular file'') (\<lambda>_.
     rbind (require (st_uid status = fr_euid f \<and> st_nlink status = 1) ''report ownership or link count is ambiguous'') (\<lambda>_.
     rbind (require (st_mode status AND 63 = 0) ''report permissions expose private evidence'') (\<lambda>_.
     rbind (require (0 < st_size status \<and> st_size status \<le> int MAX_REPORT_BYTES) ''report size is outside the accepted bound'') (\<lambda>_.
     rbind (read_loop MAX_REPORT_BYTES 4096 (fr_reads f) []) (\<lambda>data.
     rbind (closed_stat f) (\<lambda>final_status.
     rbind (require (status = final_status \<and> int (length data) = st_size status) ''report changed while it was read'') (\<lambda>_.
     Inr data))))))))"

definition va_load_report :: "(string \<Rightarrow> json py) \<Rightarrow> file_run \<Rightarrow> int list option \<Rightarrow> bool option \<Rightarrow> json py" where
  "va_load_report loads f expected_outputs expected_copy =
     rbind (load_bytes f) (\<lambda>data. va_parse_report loads data expected_outputs expected_copy)"

definition va_collect_report ::
  "(string \<Rightarrow> json py) \<Rightarrow> file_run \<Rightarrow> json \<Rightarrow> int list option \<Rightarrow> bool option \<Rightarrow> json py" where
  "va_collect_report loads f process_exit_code expected_outputs expected_copy =
     rbind (require (process_exit_code = JInt 0) ''the complete FFmpeg process did not exit successfully'') (\<lambda>_.
     va_load_report loads f expected_outputs expected_copy)"

definition gst_load_report :: "(string \<Rightarrow> json py) \<Rightarrow> file_run \<Rightarrow> int list option \<Rightarrow> bool option \<Rightarrow> json py" where
  "gst_load_report loads f expected_frames expected_copy =
     rbind (load_bytes f) (\<lambda>data. gst_parse_report loads data expected_frames expected_copy)"

definition gst_collect_report ::
  "(string \<Rightarrow> json py) \<Rightarrow> file_run \<Rightarrow> json \<Rightarrow> int list option \<Rightarrow> bool option \<Rightarrow> json py" where
  "gst_collect_report loads f process_exit_code expected_frames expected_copy =
     rbind (require (process_exit_code = JInt 0) ''the complete GStreamer process did not exit successfully'') (\<lambda>_.
     gst_load_report loads f expected_frames expected_copy)"

subsection \<open>What an accepted report says\<close>

definition hex_field :: "nat \<Rightarrow> json \<Rightarrow> bool" where
  "hex_field n v \<longleftrightarrow> (\<exists>s. v = JStr s \<and> length s = n \<and> list_all hex_char s)"

definition hex_nonzero :: "json \<Rightarrow> bool" where
  "hex_nonzero v \<longleftrightarrow> (\<exists>s. v = JStr s \<and> length s = 16 \<and> list_all hex_char s \<and> hex_value s \<noteq> 0)"

definition uint_field :: "nat \<Rightarrow> json \<Rightarrow> bool" where
  "uint_field bits v \<longleftrightarrow> (\<exists>i. v = JInt i \<and> 0 \<le> i \<and> i < 2 ^ bits)"

definition run_field :: "json \<Rightarrow> (string \<times> string) option" where
  "run_field v = (case v of JList [JStr x, JStr y] \<Rightarrow> Some (x, y) | _ \<Rightarrow> None)"

definition out_identity :: "(string, json) dict \<Rightarrow> rep_identity" where
  "out_identity d = (the (run_field (jv d ''run'')), jstr d ''context_generation'', jstr d ''session'')"

definition run_good :: "(string, json) dict \<Rightarrow> bool" where
  "run_good d \<longleftrightarrow> (\<exists>x y. jv d ''run'' = JList [JStr x, JStr y] \<and> hex_field 16 (JStr x) \<and> hex_field 16 (JStr y) \<and>
     (hex_value x \<noteq> 0 \<or> hex_value y \<noteq> 0))"

definition copy_good :: "(string, json) dict \<Rightarrow> bool" where
  "copy_good d \<longleftrightarrow> (\<exists>c. jv d ''copied'' = JBool c \<and>
     (if c then hex_field 64 (jv d ''sha256'') else jv d ''sha256'' = JNull))"

definition va_output_good :: "(string, json) dict \<Rightarrow> bool" where
  "va_output_good d \<longleftrightarrow> keys_are d VA_OUTPUT_KEYS \<and> uint_field 64 (jv d ''output_ordinal'') \<and>
     uint_field 32 (jv d ''surface'') \<and> uint_field 32 (jv d ''capture_index'') \<and> run_good d \<and>
     (\<forall>k \<in> set VA_HEX64_FIELDS. hex_nonzero (jv d k)) \<and>
     hex_value (jstr d ''submitted'') \<le> hex_value (jstr d ''completed'') \<and> copy_good d"

lemma dsub_jv: "dhas d k \<Longrightarrow> dsub d k = Inr (jv d k)"
  by (auto simp: dhas_def dsub_def jv_def)

lemma rep_hex_Inr: "rep_hex n v = Inr s \<longleftrightarrow> v = JStr s \<and> hex_field n v"
  by (cases v) (auto simp: rep_hex_def hex_field_def res_simps)

lemma rep_uint_Inr: "rep_uint n v = Inr i \<longleftrightarrow> v = JInt i \<and> uint_field n v"
  by (auto simp: rep_uint_def uint_field_def res_simps)

lemma rep_uint_field: "rep_uint n (jv d k) = Inr i \<longleftrightarrow> uint_field n (jv d k) \<and> i = jint d k"
  by (auto simp: rep_uint_Inr uint_field_def jint_def)

lemma nonzero_hex_Inr: "dhas d k \<Longrightarrow> nonzero_hex d k = Inr u \<longleftrightarrow> hex_nonzero (jv d k)"
  by (auto simp: nonzero_hex_def dsub_jv hex_nonzero_def rbind_Inr rep_hex_Inr hex_field_def require_Inr)

lemma report_run_Inr:
  assumes "dhas d ''run''"
  shows "report_run d = Inr r \<longleftrightarrow> run_good d \<and> run_field (jv d ''run'') = Some r"
  using dsub_jv [OF assms]
  by (cases r; cases "jv d ''run''")
     (auto simp: report_run_def run_good_def run_field_def rbind_Inr rep_hex_Inr require_Inr split: list.splits json.splits)

lemma same_identity_Inr:
  "same_identity seen i = Inr r \<longleftrightarrow> (seen = None \<or> seen = Some i) \<and> r = Some i"
  by (auto simp: same_identity_def rbind_Inr require_Inr split: option.splits)

lemma copy_digest_Inr:
  assumes "dhas d ''sha256''"
  shows "copy_digest d = Inr c \<longleftrightarrow> copy_good d \<and> c = jbool d ''copied''"
  using dsub_jv [OF assms]
  by (cases "jv d ''copied''") (auto simp: copy_digest_def copy_good_def jbool_def rbind_Inr rep_hex_Inr require_Inr hex_field_def)

lemma output_identity_Inr:
  assumes "dhas d ''run''" and "dhas d ''sha256''" and "\<forall>k \<in> set ks. dhas d k"
  shows "output_identity ks d seen = Inr r \<longleftrightarrow> run_good d \<and> (\<forall>k \<in> set ks. hex_nonzero (jv d k)) \<and>
    hex_value (jstr d ''submitted'') \<le> hex_value (jstr d ''completed'') \<and>
    (seen = None \<or> seen = Some (out_identity d)) \<and> copy_good d \<and> r = (Some (out_identity d), jbool d ''copied'')"
  using assms(3)
  by (auto simp: output_identity_def rbind_Inr report_run_Inr [OF assms(1)] copy_digest_Inr [OF assms(2)] rall_Inr
      nonzero_hex_Inr require_Inr same_identity_Inr out_identity_def run_good_def run_field_def)

lemma va_keys: "keys_are d VA_OUTPUT_KEYS \<Longrightarrow> k \<in> set VA_OUTPUT_KEYS \<Longrightarrow> dhas d k"
  using keys_are_dget by (fastforce simp: dhas_def)

lemma va_hex_keys: "k \<in> set VA_HEX64_FIELDS \<Longrightarrow> k \<in> set VA_OUTPUT_KEYS"
  by (auto simp: VA_HEX64_FIELDS_def VA_OUTPUT_KEYS_def)

lemma va_output_Inr:
  "va_output (JObj d) st = Inr st' \<longleftrightarrow> va_output_good d \<and> (rs_identity st = None \<or> rs_identity st = Some (out_identity d)) \<and>
     st' = st\<lparr>rs_coordinates := rs_coordinates st @ [jint d ''output_ordinal''], rs_identity := Some (out_identity d),
       rs_copied := rs_copied st @ [jbool d ''copied'']\<rparr>"
proof (cases "keys_are d VA_OUTPUT_KEYS")
  case True
  have k: "dhas d k" if "k \<in> set VA_OUTPUT_KEYS" for k using va_keys [OF True that] .
  have oi: "output_identity VA_HEX64_FIELDS d (rs_identity st) = Inr r \<longleftrightarrow> run_good d \<and>
      (\<forall>k \<in> set VA_HEX64_FIELDS. hex_nonzero (jv d k)) \<and>
      hex_value (jstr d ''submitted'') \<le> hex_value (jstr d ''completed'') \<and>
      (rs_identity st = None \<or> rs_identity st = Some (out_identity d)) \<and> copy_good d \<and>
      r = (Some (out_identity d), jbool d ''copied'')" for r
    by (rule output_identity_Inr) (use k va_hex_keys in \<open>auto simp: VA_OUTPUT_KEYS_def\<close>)
  have ds: "dsub d ''output_ordinal'' = Inr (jv d ''output_ordinal'')" "dsub d ''surface'' = Inr (jv d ''surface'')"
    "dsub d ''capture_index'' = Inr (jv d ''capture_index'')"
    by (rule dsub_jv, rule k, simp add: VA_OUTPUT_KEYS_def)+
  show ?thesis unfolding va_output_def va_output_good_def
    by (auto simp: True ds rbind_Inr rep_uint_field require_Inr oi)
next
  case False
  then show ?thesis by (simp add: va_output_def va_output_good_def)
qed

text \<open>The loop over the outputs, from any state.\<close>

definition dict_of :: "json \<Rightarrow> (string, json) dict" where
  "dict_of v = (case v of JObj d \<Rightarrow> d | _ \<Rightarrow> [])"

abbreviation output_ident :: "json \<Rightarrow> rep_identity" where
  "output_ident v \<equiv> out_identity (dict_of v)"

definition output_fits :: "rep_identity option \<Rightarrow> json \<Rightarrow> bool" where
  "output_fits seen v \<longleftrightarrow> is_obj v \<and> va_output_good (dict_of v) \<and> (seen = None \<or> seen = Some (output_ident v))"

lemma va_output_step:
  "va_output v st = Inr st' \<longleftrightarrow> output_fits (rs_identity st) v \<and>
     st' = st\<lparr>rs_coordinates := rs_coordinates st @ [jint (dict_of v) ''output_ordinal''],
       rs_identity := Some (output_ident v), rs_copied := rs_copied st @ [jbool (dict_of v) ''copied'']\<rparr>"
proof (cases v)
  case (JObj d)
  then show ?thesis by (simp add: va_output_Inr output_fits_def dict_of_def)
qed (simp_all add: va_output_def output_fits_def)

lemma va_outputs_state:
  assumes "rfold va_output outs st = Inr st'"
  shows "rs_coordinates st' = rs_coordinates st @ map (\<lambda>v. jint (dict_of v) ''output_ordinal'') outs \<and>
    rs_copied st' = rs_copied st @ map (\<lambda>v. jbool (dict_of v) ''copied'') outs"
  using assms by (induction outs arbitrary: st) (auto simp: rbind_Inr va_output_step)

lemma one_identity:
  "(G v \<and> (s = None \<or> s = Some (I v))) \<and> (\<forall>w \<in> W. G w \<and> I v = I w) \<and> (\<forall>w \<in> W. \<forall>u \<in> W. I w = I u) \<longleftrightarrow>
   (\<forall>w \<in> insert v W. G w \<and> (s = None \<or> s = Some (I w))) \<and> (\<forall>w \<in> insert v W. \<forall>u \<in> insert v W. I w = I u)"
proof
  assume "(G v \<and> (s = None \<or> s = Some (I v))) \<and> (\<forall>w \<in> W. G w \<and> I v = I w) \<and> (\<forall>w \<in> W. \<forall>u \<in> W. I w = I u)"
  then have 1: "G v" "s = None \<or> s = Some (I v)" "\<And>w. w \<in> W \<Longrightarrow> G w" "\<And>w. w \<in> W \<Longrightarrow> I v = I w" by blast+
  have 2: "I w = I v \<and> G w" if "w \<in> insert v W" for w using that 1(1,3) 1(4) [of w] by auto
  show "(\<forall>w \<in> insert v W. G w \<and> (s = None \<or> s = Some (I w))) \<and> (\<forall>w \<in> insert v W. \<forall>u \<in> insert v W. I w = I u)"
    using 1(2) 2 by metis
next
  assume "(\<forall>w \<in> insert v W. G w \<and> (s = None \<or> s = Some (I w))) \<and> (\<forall>w \<in> insert v W. \<forall>u \<in> insert v W. I w = I u)"
  then show "(G v \<and> (s = None \<or> s = Some (I v))) \<and> (\<forall>w \<in> W. G w \<and> I v = I w) \<and> (\<forall>w \<in> W. \<forall>u \<in> W. I w = I u)"
    by blast
qed

lemma output_fits_insert:
  "output_fits s v \<and> (\<forall>w \<in> W. output_fits (Some (output_ident v)) w) \<and> (\<forall>w \<in> W. \<forall>u \<in> W. output_ident w = output_ident u) \<longleftrightarrow>
   (\<forall>w \<in> insert v W. output_fits s w) \<and> (\<forall>w \<in> insert v W. \<forall>u \<in> insert v W. output_ident w = output_ident u)"
  using one_identity [of "\<lambda>v. is_obj v \<and> va_output_good (dict_of v)" v s output_ident W]
  by (simp only: output_fits_def option.simps simp_thms conj_assoc)

lemma va_outputs_accepted:
  "(\<exists>st'. rfold va_output outs st = Inr st') \<longleftrightarrow>
     (\<forall>v \<in> set outs. output_fits (rs_identity st) v) \<and>
     (\<forall>v \<in> set outs. \<forall>w \<in> set outs. output_ident v = output_ident w)"
proof (induction outs arbitrary: st)
  case (Cons v outs)
  define st1 where "st1 = st\<lparr>rs_coordinates := rs_coordinates st @ [jint (dict_of v) ''output_ordinal''],
       rs_identity := Some (output_ident v), rs_copied := rs_copied st @ [jbool (dict_of v) ''copied'']\<rparr>"
  have id1: "rs_identity st1 = Some (output_ident v)" by (simp add: st1_def)
  have "(\<exists>st'. rfold va_output (v # outs) st = Inr st') \<longleftrightarrow>
      output_fits (rs_identity st) v \<and> (\<exists>st'. rfold va_output outs st1 = Inr st')"
    unfolding rfold.simps rbind_Inr va_output_step st1_def [symmetric] by blast
  also have "\<dots> \<longleftrightarrow> output_fits (rs_identity st) v \<and> (\<forall>w \<in> set outs. output_fits (Some (output_ident v)) w) \<and>
      (\<forall>w \<in> set outs. \<forall>u \<in> set outs. output_ident w = output_ident u)"
    unfolding Cons.IH id1 by blast
  also have "\<dots> \<longleftrightarrow> (\<forall>w \<in> set (v # outs). output_fits (rs_identity st) w) \<and>
      (\<forall>w \<in> set (v # outs). \<forall>u \<in> set (v # outs). output_ident w = output_ident u)"
    unfolding list.set by (rule output_fits_insert)
  finally show ?case .
qed simp

text \<open>A whole VA report, declaratively.\<close>

definition va_report_good :: "json \<Rightarrow> int list \<Rightarrow> bool \<Rightarrow> bool" where
  "va_report_good document ordinals copy \<longleftrightarrow> (\<exists>d outs. document = JObj d \<and> keys_are d TOP_KEYS \<and>
     jv d ''schema'' = JStr VA_SCHEMA \<and> jv d ''outputs'' = JList outs \<and> jv d ''count'' = JInt (int (length outs)) \<and>
     1 \<le> length outs \<and> length outs \<le> 8 \<and>
     (\<forall>v \<in> set outs. output_fits None v) \<and> (\<forall>v \<in> set outs. \<forall>w \<in> set outs. output_ident v = output_ident w) \<and>
     map (\<lambda>v. jv (dict_of v) ''output_ordinal'') outs = map JInt ordinals \<and> distinct ordinals \<and>
     (\<forall>v \<in> set outs. jv (dict_of v) ''copied'' = JBool copy))"

lemma report_outputs_Inr:
  "report_outputs schema document = Inr outs \<longleftrightarrow> (\<exists>d. document = JObj d \<and> keys_are d TOP_KEYS \<and>
     jv d ''schema'' = JStr schema \<and> jv d ''outputs'' = JList outs \<and> jv d ''count'' = JInt (int (length outs)) \<and>
     1 \<le> length outs \<and> length outs \<le> 8)"
  by (cases document)
     (auto simp: report_outputs_def rbind_Inr require_Inr is_list_iff is_int_iff jlist_def jint_def)

lemma va_document_Inr:
  "va_document document (Some ordinals) (Some copy) = Inr v \<longleftrightarrow> v = document \<and> va_report_good document ordinals copy"
proof -
  have init: "rs_identity report_init = None" by (simp add: report_init_def)
  show ?thesis
proof
  assume "va_document document (Some ordinals) (Some copy) = Inr v"
  then obtain outs st where outs: "report_outputs VA_SCHEMA document = Inr outs"
    and st: "rfold va_output outs report_init = Inr st" "rs_coordinates st = ordinals" "distinct (rs_coordinates st)"
      "list_all (\<lambda>x. x = copy) (rs_copied st)" "v = document"
    unfolding va_document_def option.case copy_mode_def by (elim rbind_InrE) (simp add: require_Inr)
  have fits: "\<forall>v \<in> set outs. output_fits None v" "\<forall>v \<in> set outs. \<forall>w \<in> set outs. output_ident v = output_ident w"
    using va_outputs_accepted [of outs report_init, unfolded init] st(1) by blast+
  have ord: "map (\<lambda>v. jint (dict_of v) ''output_ordinal'') outs = ordinals"
    and cop: "\<forall>v \<in> set outs. jbool (dict_of v) ''copied'' = copy"
    using va_outputs_state [OF st(1)] st(2,4) by (auto simp: report_init_def list_all_iff)
  have val: "jv (dict_of v) ''output_ordinal'' = JInt (jint (dict_of v) ''output_ordinal'') \<and>
      jv (dict_of v) ''copied'' = JBool (jbool (dict_of v) ''copied'')" if "v \<in> set outs" for v
    using fits(1) that by (auto simp: output_fits_def va_output_good_def uint_field_def copy_good_def jint_def jbool_def)
  then have "map (\<lambda>v. jv (dict_of v) ''output_ordinal'') outs = map JInt ordinals" unfolding ord [symmetric] by simp
  moreover have "\<forall>v \<in> set outs. jv (dict_of v) ''copied'' = JBool copy" using val cop by simp
  ultimately show "v = document \<and> va_report_good document ordinals copy"
    using outs st(2,3,5) fits unfolding va_report_good_def report_outputs_Inr by blast
next
  assume good: "v = document \<and> va_report_good document ordinals copy"
  then obtain d outs where outs: "report_outputs VA_SCHEMA document = Inr outs"
    and fits: "\<forall>v \<in> set outs. output_fits None v" "\<forall>v \<in> set outs. \<forall>w \<in> set outs. output_ident v = output_ident w"
    and ord: "map (\<lambda>v. jv (dict_of v) ''output_ordinal'') outs = map JInt ordinals" "distinct ordinals"
    and cop: "\<forall>v \<in> set outs. jv (dict_of v) ''copied'' = JBool copy"
    unfolding va_report_good_def report_outputs_Inr by blast
  obtain st where st: "rfold va_output outs report_init = Inr st"
    using va_outputs_accepted [of outs report_init, unfolded init] fits by blast
  have "map (\<lambda>v. jint (dict_of v) ''output_ordinal'') outs = map (\<lambda>x. case x of JInt i \<Rightarrow> i | _ \<Rightarrow> 0) (map JInt ordinals)"
    unfolding ord(1) [symmetric] by (simp add: jint_def)
  then have "rs_coordinates st = ordinals" using va_outputs_state [OF st] by (simp add: report_init_def comp_def)
  moreover have "list_all (\<lambda>x. x = copy) (rs_copied st)"
    using va_outputs_state [OF st] cop by (auto simp: report_init_def list_all_iff jbool_def)
  ultimately show "va_document document (Some ordinals) (Some copy) = Inr v"
    using good outs st ord(2) by (simp add: va_document_def copy_mode_def)
qed
qed

subsection \<open>Reading the file\<close>

lemma read_loop_length: "read_loop limit piece rs data = Inr out \<Longrightarrow> length data \<le> length out"
  by (induction limit piece rs data rule: read_loop.induct)
     (fastforce simp: Let_def split: if_splits option.splits)+

lemma read_loop_prefix:
  assumes "read_loop limit piece rs data = Inr out" and "length out \<le> limit"
    and "list_all (\<lambda>r. case r of None \<Rightarrow> True | Some c \<Rightarrow> length c \<le> piece) rs"
  shows "\<exists>n \<le> length rs. out = data @ concat (map the (take n rs)) \<and>
    (\<forall>r \<in> set (take n rs). r \<noteq> None \<and> r \<noteq> Some []) \<and> (n < length rs \<longrightarrow> rs ! n = Some [])"
  using assms
proof (induction limit piece rs data rule: read_loop.induct)
  case (2 limit piece r rs data)
  have len: "length data \<le> length out" using 2(2) by (rule read_loop_length)
  then have le: "\<not> length data > limit" using 2(3) by simp
  then obtain c where r: "r = Some c" using 2(2) by (cases r) auto
  let ?got = "take (min piece (limit + 1 - length data)) c"
  show ?case
  proof (cases "?got = []")
    case True
    then have "c = []" using le 2(4) r by (auto simp: min_def split: if_splits)
    then show ?thesis using 2(2) le r by (intro exI [of _ 0]) simp
  next
    case False
    then have rec: "read_loop limit piece rs (data @ ?got) = Inr out" using 2(2) le r
      by (simp add: Let_def del: take_eq_Nil take_eq_Nil2)
    have "length (data @ ?got) \<le> length out" using rec by (rule read_loop_length)
    then have got: "?got = c" using 2(3,4) r by auto
    from 2(1) [OF le r refl False rec 2(3)] 2(4) r obtain n where n: "n \<le> length rs"
      "out = (data @ ?got) @ concat (map the (take n rs))" "\<forall>r \<in> set (take n rs). r \<noteq> None \<and> r \<noteq> Some []"
      "n < length rs \<longrightarrow> rs ! n = Some []" by auto
    then show ?thesis using r got False by (intro exI [of _ "Suc n"]) auto
  qed
qed simp

lemma load_bytes_Inr:
  assumes "load_bytes f = Inr data"
  shows "\<exists>s. fr_stat f = Some s \<and> fr_final f = Some s \<and> is_regular s \<and> st_uid s = fr_euid f \<and> st_nlink s = 1 \<and>
    st_mode s AND 63 = 0 \<and> st_size s \<le> int MAX_REPORT_BYTES \<and> int (length data) = st_size s \<and>
    read_loop MAX_REPORT_BYTES 4096 (fr_reads f) [] = Inr data"
  using assms unfolding load_bytes_def opened_stat_def closed_stat_def
  by (elim rbind_InrE) (auto simp: require_Inr elim!: rbind_InrE split: option.splits)

text \<open>
  C30. What the VA collector vouches for: when it accepts, the process exited with 0; the file was
  private, regular, of one link, owned by the caller, and had the same status before and after the
  read; the bytes are exactly the results of the reads up to the end of the file, as many as the
  status says; and the decoded document is a report whose outputs all carry the requested ordinals in
  the requested order, one run, context and session, nonzero generations, a completion not before
  the submission, the requested copy mode, and a digest exactly when content was copied.
\<close>
theorem collected_report_sound:
  assumes "va_collect_report loads f code (Some ordinals) (Some copy) = Inr document"
    and "list_all (\<lambda>r. case r of None \<Rightarrow> True | Some c \<Rightarrow> length c \<le> 4096) (fr_reads f)"
  shows "code = JInt 0 \<and> va_report_good document ordinals copy \<and>
    (\<exists>s n. fr_stat f = Some s \<and> fr_final f = Some s \<and> is_regular s \<and> st_uid s = fr_euid f \<and> st_nlink s = 1 \<and>
       st_mode s AND 63 = 0 \<and> None \<notin> set (take n (fr_reads f)) \<and>
       (n < length (fr_reads f) \<longrightarrow> fr_reads f ! n = Some []) \<and>
       int (length (concat (map the (take n (fr_reads f))))) = st_size s \<and>
       loads (concat (map the (take n (fr_reads f)))) = Inr document)"
proof -
  obtain u data where code: "require (code = JInt 0) ''the complete FFmpeg process did not exit successfully'' = Inr u"
    and data: "load_bytes f = Inr data"
    and doc: "va_parse_report loads data (Some ordinals) (Some copy) = Inr document"
    using assms(1) unfolding va_collect_report_def va_load_report_def by (elim rbind_InrE)
  obtain w document' where dec: "decode_report loads data = Inr document'"
    and good: "va_document document' (Some ordinals) (Some copy) = Inr document"
    using doc unfolding va_parse_report_def by (elim rbind_InrE)
  have eq: "document = document'" and rep: "va_report_good document ordinals copy"
    using good by (simp_all add: va_document_Inr)
  have loads: "loads data = Inr document"
    using dec unfolding decode_report_def eq by (elim rbind_InrE) (auto elim!: rbind_InrE split: sum.splits py_exn.splits)
  obtain s where s: "fr_stat f = Some s" "fr_final f = Some s" "is_regular s" "st_uid s = fr_euid f" "st_nlink s = 1"
      "st_mode s AND 63 = 0" "st_size s \<le> int MAX_REPORT_BYTES" "int (length data) = st_size s"
    and loop: "read_loop MAX_REPORT_BYTES 4096 (fr_reads f) [] = Inr data"
    using load_bytes_Inr [OF data] by blast
  have "length data \<le> MAX_REPORT_BYTES" using s(7,8) by linarith
  from read_loop_prefix [OF loop this assms(2)] obtain n where n: "data = concat (map the (take n (fr_reads f)))"
    "\<forall>r \<in> set (take n (fr_reads f)). r \<noteq> None \<and> r \<noteq> Some []" "n < length (fr_reads f) \<longrightarrow> fr_reads f ! n = Some []"
    by auto
  have "None \<notin> set (take n (fr_reads f))" using n(2) by blast
  with code rep loads s n show ?thesis unfolding require_Inr by blast
qed

definition demo_output :: json where
  "demo_output = JObj [(''output_ordinal'', JInt 7), (''surface'', JInt 3),
     (''run'', JList [JStr ''000000000000000a'', JStr ''00000000000000b0'']), (''context_generation'', JStr ''0000000000000001''),
     (''session'', JStr ''0000000000000002''), (''allocation_generation'', JStr ''0000000000000003''),
     (''writer'', JStr ''0000000000000004''), (''submitted'', JStr ''0000000000000005''),
     (''completed'', JStr ''0000000000000005''), (''capture_index'', JInt 9), (''copied'', JBool False), (''sha256'', JNull)]"

definition demo_report :: json where
  "demo_report = JObj [(''schema'', JStr VA_SCHEMA), (''count'', JInt 1), (''outputs'', JList [demo_output])]"

definition demo_stat :: file_stat where
  "demo_stat = \<lparr>st_dev = 1, st_ino = 2, st_mode = 33152, st_uid = 1000, st_nlink = 1, st_size = 4, st_mtime_ns = 5, st_ctime_ns = 6\<rparr>"

definition demo_file :: file_run where
  "demo_file = \<lparr>fr_nofollow = True, fr_open = True, fr_stat = Some demo_stat, fr_reads = [Some ''{}'', Some [CHR 0x20, CHR 0x0A], Some []],
     fr_final = Some demo_stat, fr_close = True, fr_euid = 1000\<rparr>"

lemma demo_collected: "va_collect_report (\<lambda>_. Inr demo_report) demo_file (JInt 0) (Some [7]) (Some False) = Inr demo_report"
  by code_simp

theorem collected_report_sound_witness:
  "va_collect_report (\<lambda>_. Inr demo_report) demo_file (JInt 0) (Some [7]) (Some False) = Inr demo_report \<and>
   va_report_good demo_report [7] False"
  using collected_report_sound [OF demo_collected] demo_collected by (simp add: demo_file_def)

end
