(* ===== verification/Hevc_Controls.thy ===== *)
theory Hevc_Controls
  imports Pyvalues "HOL-Library.Multiset"
begin

text \<open>
  The adapter from a v4l2-tracer event trace to reference records,
  \<open>src/experiments/hevc-controls/normalize.py\<close>, and its copy with one change,
  \<open>src/experiments/hevc-full-controls/lifecycle.py\<close>: a successful OUTPUT stream-off returns the source
  buffers that were not dequeued. The walk over the events is one definition with that change as the
  argument \<open>clear\<close>; \<open>normalize\<close> and \<open>lifecycle_normalize\<close> are its two instances.

  An event is a dict of JSON values. The request dicts, which the code shares between \<^verbatim>\<open>requests\<close>,
  \<^verbatim>\<open>pictures\<close> and \<^verbatim>\<open>by_timestamp\<close>, are objects in a store: those hold indices into \<open>ns_objs\<close>.
  \<open>parse_events\<close> starts from the value that \<^verbatim>\<open>json.loads\<close> returned (\<open>None\<close> when it raised), with the
  pairs of an object still uncollapsed; the check that the strings can be encoded always succeeds on
  the strings of the model.
\<close>

definition HC_SCHEMA :: string where "HC_SCHEMA = ''libva-v4l2request.hevc-refs/1''"
definition MAX_BYTES :: nat where "MAX_BYTES = 128 * 1024 * 1024"
definition MAX_PICTURES :: int where "MAX_PICTURES = 10000"
definition CID :: string where "CID = ''V4L2_CID_STATELESS_HEVC_''"
definition OUT_TYPE :: json where "OUT_TYPE = JStr ''V4L2_BUF_TYPE_VIDEO_OUTPUT_MPLANE''"
definition CAP_TYPE :: json where "CAP_TYPE = JStr ''V4L2_BUF_TYPE_VIDEO_CAPTURE_MPLANE''"

definition SIZES :: "(string, int) dict" where
  "SIZES = [(''SPS'', 40), (''DECODE_PARAMS'', 328), (''SLICE_PARAMS'', 280)]"

definition SPS_FLAGS :: "string list" where
  "SPS_FLAGS = [''SEPARATE_COLOUR_PLANE'', ''SCALING_LIST_ENABLED'', ''AMP_ENABLED'', ''SAMPLE_ADAPTIVE_OFFSET'',
     ''PCM_ENABLED'', ''PCM_LOOP_FILTER_DISABLED'', ''LONG_TERM_REF_PICS_PRESENT'', ''SPS_TEMPORAL_MVP_ENABLED'',
     ''STRONG_INTRA_SMOOTHING_ENABLED'']"

definition SLICE_FLAGS :: "string list" where
  "SLICE_FLAGS = [''SLICE_SAO_LUMA'', ''SLICE_SAO_CHROMA'', ''SLICE_TEMPORAL_MVP_ENABLED'', ''MVD_L1_ZERO'',
     ''CABAC_INIT'', ''COLLOCATED_FROM_L0'', ''USE_INTEGER_MV'', ''SLICE_DEBLOCKING_FILTER_DISABLED'',
     ''SLICE_LOOP_FILTER_ACROSS_SLICES_ENABLED'', ''DEPENDENT_SLICE_SEGMENT'']"

type_synonym tr_event = "(string, json) dict"

definition hc_integer :: "int \<Rightarrow> int \<Rightarrow> json \<Rightarrow> int py" where
  "hc_integer low high v = int_in ''invalid integer'' low high v"

abbreviation hc_u32 :: "json \<Rightarrow> int py" where
  "hc_u32 \<equiv> hc_integer 0 (2 ^ 32 - 1)"

subsection \<open>Reading the trace\<close>

definition event_of_json :: "json \<Rightarrow> tr_event py" where
  "event_of_json v = (case v of JObj d \<Rightarrow> Inr d | _ \<Rightarrow> Inl (Reject ''non-object event''))"

definition parse_events :: "nat \<Rightarrow> json option \<Rightarrow> tr_event list py" where
  "parse_events nbytes decoded =
     rbind (require (nbytes \<le> MAX_BYTES) ''input exceeds byte limit'') (\<lambda>_.
     rbind (case decoded of
              None \<Rightarrow> Inl (Reject ''invalid JSON trace'')
            | Some v \<Rightarrow> if unique_json v then Inr v else Inl (Reject ''invalid JSON trace'')) (\<lambda>v.
     rbind (case v of
              JList xs \<Rightarrow> rbind (require (0 < length xs \<and> length xs \<le> 500000) ''expected bounded event array'') (\<lambda>_. Inr xs)
            | _ \<Rightarrow> Inl (Reject ''expected bounded event array'')) (\<lambda>xs.
     rbind (rmap event_of_json xs) (\<lambda>es.
     rbind (require (jv (hd es) ''package_version'' = JStr ''1.32.0'') ''only v4l2-tracer 1.32.0 is supported'') (\<lambda>_.
     Inr (map (\<lambda>e. if jv e ''ioctl'' = JStr ''VIDIOC_QUERYCAP'' then ddel ''from_userspace'' e else e) es))))))"

definition hc_flags :: "json \<Rightarrow> string \<Rightarrow> string list \<Rightarrow> string list py" where
  "hc_flags v prefix allowed =
     (case v of
        JStr s \<Rightarrow>
          let tokens = map py_strip (if s \<noteq> [] then split_on CHR ''|'' s else []) in
          rbind (require (distinct tokens) ''duplicate flag'') (\<lambda>_.
          rbind (require (set tokens \<subseteq> set (map (\<lambda>n. prefix @ n) allowed)) ''unknown flag encoding'') (\<lambda>_.
          Inr (map (drop (length prefix)) tokens)))
      | _ \<Rightarrow> Inl (Reject ''missing flags''))"

definition symbolic_flag :: "string \<Rightarrow> bool" where
  "symbolic_flag t \<longleftrightarrow> (let p = ''V4L2_BUF_FLAG_''; r = drop (length p) t in
     take (length p) t = p \<and> r \<noteq> [] \<and>
     list_all (\<lambda>c. let n = of_char c :: nat in (65 \<le> n \<and> n \<le> 90) \<or> (48 \<le> n \<and> n \<le> 57) \<or> n = 95) r)"

definition buffer_flags :: "json \<Rightarrow> string list py" where
  "buffer_flags v =
     (case v of
        JStr s \<Rightarrow>
          let tokens = map py_strip (split_on CHR ''|'' s) in
          rbind (require (list_all symbolic_flag tokens) ''unknown numeric buffer flag'') (\<lambda>_.
          rbind (require (''V4L2_BUF_FLAG_ERROR'' \<notin> set tokens) ''buffer error'') (\<lambda>_.
          rbind (require (''V4L2_BUF_FLAG_M2M_HOLD_CAPTURE_BUF'' \<notin> set tokens)
            ''partial/multi-request pictures are unsupported'') (\<lambda>_.
          Inr tokens)))
      | _ \<Rightarrow> Inl (Reject ''missing buffer flags''))"

definition hc_timestamp :: "tr_event \<Rightarrow> int py" where
  "hc_timestamp buf =
     rbind (rbind (dsub buf ''timestamp_ns'') (hc_integer 0 (2 ^ 64 - 1))) (\<lambda>ns.
     rbind (dsub buf ''timestamp'') (\<lambda>tv.
     rbind (rbind (sub tv ''tv_sec'') (hc_integer 0 (2 ^ 63 - 1))) (\<lambda>sec.
     rbind (rbind (sub tv ''tv_usec'') (hc_integer 0 999999)) (\<lambda>usec.
     rbind (require (ns = sec * 1000000000 + usec * 1000) ''inconsistent timestamp'') (\<lambda>_.
     rbind (require (ns mod 1000 = 0 \<and> ns div 1000 \<le> 2 ^ 32 - 1) ''not a GStreamer system-frame timestamp'') (\<lambda>_.
     Inr ns))))))"

definition arguments :: "tr_event \<Rightarrow> string \<Rightarrow> string \<Rightarrow> tr_event py" where
  "arguments e direction key =
     rbind (dsub e direction) (\<lambda>d. rbind (sub d key) (\<lambda>r.
     case r of JObj x \<Rightarrow> Inr x | _ \<Rightarrow> Inl (Reject ''missing ioctl arguments'')))"

definition control_item :: "json \<Rightarrow> (string \<times> tr_event) option" where
  "control_item c = (case c of
     JObj d \<Rightarrow> (case jv d ''id'' of JStr i \<Rightarrow> Some (i, d) | _ \<Rightarrow> None)
   | _ \<Rightarrow> None)"

definition ext_controls :: "tr_event \<Rightarrow> (tr_event \<times> (string, tr_event) dict) py" where
  "ext_controls e =
     rbind (arguments e ''from_userspace'' ''v4l2_ext_controls'') (\<lambda>ext.
     rbind (dsub ext ''controls'') (\<lambda>items.
     case items of
       JList xs \<Rightarrow>
         rbind (rbind (dsub ext ''count'') (hc_integer 0 64)) (\<lambda>n.
         rbind (require (int (length xs) = n) ''incomplete controls array'') (\<lambda>_.
         rbind (require (list_all (\<lambda>c. control_item c \<noteq> None) xs) ''invalid control'') (\<lambda>_.
         let cs = map (\<lambda>c. the (control_item c)) xs in
         rbind (require (distinct (map fst cs)) ''duplicate control'') (\<lambda>_.
         Inr (ext, cs)))))
     | _ \<Rightarrow> Inl (Reject ''incomplete controls array'')))"

definition payload_key :: "string \<Rightarrow> string" where
  "payload_key name = ''v4l2_ctrl_hevc_'' @
     (if name = ''SPS'' then ''sps'' else if name = ''DECODE_PARAMS'' then ''decode_params'' else ''slice_params'')"

definition hc_payload :: "(string, tr_event) dict \<Rightarrow> string \<Rightarrow> tr_event py" where
  "hc_payload cs name =
     rbind (dsub cs (CID @ name)) (\<lambda>c.
     rbind (rbind (dsub c ''size'') hc_u32) (\<lambda>sz.
     rbind (require (Some sz = dget SIZES name) ''unsupported control size'') (\<lambda>_.
     rbind (dsub c (payload_key name)) (\<lambda>p.
     case p of JObj d \<Rightarrow> Inr d | _ \<Rightarrow> Inl (Reject ''missing control payload'')))))"

subsection \<open>The walk over the events\<close>

record hc_request =
  rq_controls :: "(string, tr_event) dict option"
  rq_timestamp :: "int option"
  rq_queued :: bool
  rq_complete :: bool
  rq_dp :: tr_event
  rq_sl :: tr_event
  rq_sps :: tr_event
  rq_pic :: nat
  rq_target :: int

definition new_request :: hc_request where
  "new_request = \<lparr>rq_controls = None, rq_timestamp = None, rq_queued = False, rq_complete = False,
     rq_dp = [], rq_sl = [], rq_sps = [], rq_pic = 0, rq_target = 0\<rparr>"

record norm_state =
  ns_allocations :: "int list"
  ns_requests :: "(int, nat) dict"
  ns_objs :: "hc_request list"
  ns_output_buffers :: "(int, int) dict"
  ns_capture_buffers :: "int list"
  ns_pictures :: "nat list"
  ns_by_timestamp :: "(int, nat) dict"
  ns_sps :: "tr_event option"
  ns_closed :: bool
  ns_stopped :: bool

definition norm_init :: norm_state where
  "norm_init = \<lparr>ns_allocations = [], ns_requests = [], ns_objs = [], ns_output_buffers = [],
     ns_capture_buffers = [], ns_pictures = [], ns_by_timestamp = [], ns_sps = None, ns_closed = False,
     ns_stopped = False\<rparr>"

abbreviation obj :: "norm_state \<Rightarrow> nat \<Rightarrow> hc_request" where
  "obj st i \<equiv> ns_objs st ! i"

definition set_obj :: "nat \<Rightarrow> hc_request \<Rightarrow> norm_state \<Rightarrow> norm_state" where
  "set_obj i r st = st\<lparr>ns_objs := (ns_objs st)[i := r]\<rparr>"

text \<open>\<^verbatim>\<open>requests.setdefault(reqfd, {})\<close>: the object, allocated if the descriptor has none.\<close>

definition setdefault_request :: "int \<Rightarrow> norm_state \<Rightarrow> norm_state \<times> nat" where
  "setdefault_request reqfd st =
     (case dget (ns_requests st) reqfd of
        Some i \<Rightarrow> (st, i)
      | None \<Rightarrow> (st\<lparr>ns_requests := dset reqfd (length (ns_objs st)) (ns_requests st),
                    ns_objs := ns_objs st @ [new_request]\<rparr>, length (ns_objs st)))"

definition step_alloc :: "tr_event \<Rightarrow> norm_state \<Rightarrow> norm_state py" where
  "step_alloc e st =
     (if jv e ''ioctl'' = JStr ''MEDIA_IOC_REQUEST_ALLOC''
      then
        rbind (require (\<not> dhas e ''errno'') ''request allocation failed'') (\<lambda>_.
        rbind (rbind (dsub e ''from_driver'') (\<lambda>d. rbind (sub d ''request_fd'') hc_u32)) (\<lambda>reqfd.
        rbind (require (case dget (ns_requests st) reqfd of
                          None \<Rightarrow> True | Some i \<Rightarrow> obj st i = new_request \<or> rq_complete (obj st i))
          ''request fd reused while pending'') (\<lambda>_.
        Inr (st\<lparr>ns_allocations := List.insert reqfd (ns_allocations st),
                ns_requests := ddel reqfd (ns_requests st)\<rparr>))))
      else Inr st)"

definition opens :: "tr_event \<Rightarrow> bool" where
  "opens e \<longleftrightarrow> dhas e ''open'' \<or> dhas e ''open64''"

definition step_close :: "int \<Rightarrow> tr_event \<Rightarrow> norm_state \<Rightarrow> norm_state py" where
  "step_close fd e st =
     (if py_eq (jv e ''fd'') (JInt fd) \<and> opens e then Inl (Reject ''video fd reused / multiple contexts'')
      else if py_eq (jv e ''fd'') (JInt fd) \<and> dhas e ''close''
      then rbind (require (\<not> ns_closed st) ''duplicate video close'') (\<lambda>_. Inr (st\<lparr>ns_closed := True\<rparr>))
      else Inr st)"

definition queue_request :: "int \<Rightarrow> nat \<Rightarrow> norm_state \<Rightarrow> norm_state py" where
  "queue_request expected i st =
     (let req = obj st i in
     rbind (require (\<not> ns_closed st \<and> \<not> ns_stopped st \<and> \<not> rq_queued req) ''duplicate/late request queue'') (\<lambda>_.
     rbind (case rq_controls req of None \<Rightarrow> Inl (KeyError ''controls'') | Some cs \<Rightarrow> Inr cs) (\<lambda>cs.
     rbind (hc_payload cs ''DECODE_PARAMS'') (\<lambda>dp.
     rbind (hc_payload cs ''SLICE_PARAMS'') (\<lambda>sl.
     rbind (if dhas cs (CID @ ''SPS'') then rbind (hc_payload cs ''SPS'') (\<lambda>p. Inr (Some p)) else Inr (ns_sps st)) (\<lambda>sps.
     rbind (case sps of None \<Rightarrow> Inl (Reject ''missing initial SPS'') | Some p \<Rightarrow> Inr p) (\<lambda>p.
     rbind (case rq_timestamp req of None \<Rightarrow> Inl (KeyError ''timestamp'') | Some ts \<Rightarrow> Inr ts) (\<lambda>ts.
     rbind (require (\<not> dhas (ns_by_timestamp st) ts) ''duplicate picture timestamp'') (\<lambda>_.
     rbind (require (int (length (ns_pictures st)) < expected) ''more requests than expected'') (\<lambda>_.
     let req' = req\<lparr>rq_queued := True, rq_dp := dp, rq_sl := sl, rq_sps := p,
                    rq_pic := length (ns_pictures st) + 1\<rparr> in
     Inr ((set_obj i req' st)\<lparr>ns_pictures := ns_pictures st @ [i],
            ns_by_timestamp := dset ts i (ns_by_timestamp st), ns_sps := sps\<rparr>)))))))))))"

definition step_request :: "int \<Rightarrow> bool \<Rightarrow> tr_event \<Rightarrow> norm_state \<Rightarrow> norm_state py" where
  "step_request expected reinit e st =
     rbind (rbind (dsub e ''fd'') hc_u32) (\<lambda>reqfd.
     case dget (ns_requests st) reqfd of
       None \<Rightarrow> rbind (require (reinit \<and> reqfd \<in> set (ns_allocations st) \<and> \<not> dhas e ''errno'')
                 ''orphaned request operation'') (\<lambda>_. Inr st)
     | Some i \<Rightarrow>
         rbind (require (\<not> dhas e ''errno'') ''request operation failed'') (\<lambda>_.
         if reinit
         then rbind (require (rq_complete (obj st i)) ''reinitialization before capture completion'') (\<lambda>_.
              Inr (st\<lparr>ns_requests := ddel reqfd (ns_requests st)\<rparr>))
         else queue_request expected i st))"

definition step_controls :: "tr_event \<Rightarrow> norm_state \<Rightarrow> norm_state py" where
  "step_controls e st =
     rbind (ext_controls e) (\<lambda>(ext, cs).
     rbind (dsub ext ''which'') (\<lambda>which.
     if which \<noteq> JStr ''V4L2_CTRL_WHICH_REQUEST_VAL''
     then
       rbind (require (which = JStr ''V4L2_CTRL_WHICH_CUR_VAL'' \<and> ns_pictures st = [] \<and>
         \<not> dhas cs (CID @ ''DECODE_PARAMS'') \<and> \<not> dhas cs (CID @ ''SLICE_PARAMS'')) ''non-request HEVC payload'') (\<lambda>_.
       if dhas cs (CID @ ''SPS'') then rbind (hc_payload cs ''SPS'') (\<lambda>_. Inr st) else Inr st)
     else
       rbind (require (\<not> ns_stopped st) ''controls after stream stop'') (\<lambda>_.
       rbind (rbind (dsub ext ''request_fd'') hc_u32) (\<lambda>reqfd.
       rbind (require (reqfd \<in> set (ns_allocations st)) ''missing request allocation'') (\<lambda>_.
       let (st1, i) = setdefault_request reqfd st; req = obj st1 i;
           dst = (case rq_controls req of None \<Rightarrow> [] | Some d \<Rightarrow> d) in
       rbind (require (\<not> rq_queued req) ''controls changed after queue'') (\<lambda>_.
       rbind (require (\<not> list_ex (dhas dst) (map fst cs)) ''controls set twice in request'') (\<lambda>_.
       Inr (set_obj i (req\<lparr>rq_controls := Some (dst @ cs)\<rparr>) st1))))))))"

definition step_qbuf :: "tr_event \<Rightarrow> norm_state \<Rightarrow> norm_state py" where
  "step_qbuf e st =
     rbind (arguments e ''from_userspace'' ''v4l2_buffer'') (\<lambda>b.
     rbind (dsub b ''type'') (\<lambda>kind.
     rbind (require (kind \<in> {OUT_TYPE, CAP_TYPE}) ''unsupported buffer type'') (\<lambda>_.
     rbind (rbind (dsub b ''index'') hc_u32) (\<lambda>bi.
     rbind (rbind (dsub b ''flags'') buffer_flags) (\<lambda>bf.
     rbind (require (\<not> ns_stopped st) ''buffer queued after stream stop'') (\<lambda>_.
     if kind = CAP_TYPE
     then rbind (require (bi \<notin> set (ns_capture_buffers st)) ''capture buffer queued twice'') (\<lambda>_.
          Inr (st\<lparr>ns_capture_buffers := bi # ns_capture_buffers st\<rparr>))
     else
       rbind (require (''V4L2_BUF_FLAG_REQUEST_FD'' \<in> set bf) ''non-request OUTPUT'') (\<lambda>_.
       rbind (rbind (dsub b ''request_fd'') hc_u32) (\<lambda>reqfd.
       rbind (require (reqfd \<in> set (ns_allocations st)) ''unallocated OUTPUT request'') (\<lambda>_.
       let (st1, i) = setdefault_request reqfd st; req = obj st1 i in
       rbind (require (rq_timestamp req = None \<and> \<not> dhas (ns_output_buffers st1) bi)
         ''OUTPUT/request reused before completion'') (\<lambda>_.
       rbind (hc_timestamp b) (\<lambda>ts.
       Inr ((set_obj i (req\<lparr>rq_timestamp := Some ts\<rparr>) st1)
              \<lparr>ns_output_buffers := dset bi ts (ns_output_buffers st1)\<rparr>))))))))))))"

text \<open>The plane of a dequeued capture buffer.\<close>

definition capture_plane :: "tr_event \<Rightarrow> bool py" where
  "capture_plane b =
     rbind (rbind (dsub b ''m'') (\<lambda>m. sub m ''planes'')) (\<lambda>planes.
     rbind (rbind (dsub b ''length'') hc_u32) (\<lambda>n.
     if n \<noteq> 1 then Inr False
     else (case planes of
             JList [p] \<Rightarrow> rbind (rbind (sub p ''bytesused'') hc_u32) (\<lambda>used. Inr (used > 0))
           | _ \<Rightarrow> Inr False)))"

definition step_dqbuf :: "tr_event \<Rightarrow> norm_state \<Rightarrow> norm_state py" where
  "step_dqbuf e st =
     rbind (arguments e ''from_driver'' ''v4l2_buffer'') (\<lambda>b.
     rbind (dsub b ''type'') (\<lambda>kind.
     rbind (require (kind \<in> {OUT_TYPE, CAP_TYPE}) ''unsupported buffer type'') (\<lambda>_.
     rbind (rbind (dsub b ''index'') hc_u32) (\<lambda>bi.
     rbind (rbind (dsub b ''flags'') buffer_flags) (\<lambda>bf.
     rbind (hc_timestamp b) (\<lambda>ts.
     rbind (case dget (ns_by_timestamp st) ts of
              None \<Rightarrow> Inl (Reject ''completion without queued picture'') | Some i \<Rightarrow> Inr i) (\<lambda>i.
     if kind = OUT_TYPE
     then rbind (require (dget (ns_output_buffers st) bi = Some ts) ''OUTPUT completion mismatch'') (\<lambda>_.
          Inr (st\<lparr>ns_output_buffers := ddel bi (ns_output_buffers st)\<rparr>))
     else
       rbind (require (bi \<in> set (ns_capture_buffers st)) ''CAPTURE completion without QBUF'') (\<lambda>_.
       rbind (require (''V4L2_BUF_FLAG_TIMESTAMP_COPY'' \<in> set bf) ''CAPTURE timestamp is not copied from OUTPUT'') (\<lambda>_.
       rbind (require (\<not> rq_complete (obj st i)) ''duplicate CAPTURE timestamp'') (\<lambda>_.
       rbind (capture_plane b) (\<lambda>ok.
       rbind (require ok ''empty/unsupported capture'') (\<lambda>_.
       Inr ((set_obj i ((obj st i)\<lparr>rq_complete := True, rq_target := bi\<rparr>) st)
              \<lparr>ns_capture_buffers := remove1 bi (ns_capture_buffers st)\<rparr>)))))))))))))"

definition all_complete :: "norm_state \<Rightarrow> bool" where
  "all_complete st \<longleftrightarrow> list_all (\<lambda>i. rq_complete (obj st i)) (ns_pictures st)"

definition streamoff_output :: "tr_event \<Rightarrow> bool py" where
  "streamoff_output e =
     (case dget e ''from_userspace'' of
        None \<Rightarrow> Inr False
      | Some v \<Rightarrow> rbind (dict_get v ''type'') (\<lambda>t. Inr (t = OUT_TYPE)))"

definition step_streamoff :: "bool \<Rightarrow> int \<Rightarrow> tr_event \<Rightarrow> norm_state \<Rightarrow> norm_state py" where
  "step_streamoff clear expected e st =
     rbind (require (ns_pictures st \<noteq> [] \<and> int (length (ns_pictures st)) = expected \<and> all_complete st)
       ''stream stopped before expected captures completed'') (\<lambda>_.
     rbind (if clear then streamoff_output e else Inr False) (\<lambda>out.
     Inr (st\<lparr>ns_output_buffers := (if out then [] else ns_output_buffers st), ns_stopped := True\<rparr>)))"

definition step_ioctl :: "bool \<Rightarrow> int \<Rightarrow> string \<Rightarrow> tr_event \<Rightarrow> norm_state \<Rightarrow> norm_state py" where
  "step_ioctl clear expected op e st =
     rbind (require (\<not> ns_closed st) ''ioctl after video close'') (\<lambda>_.
     if op \<notin> {''VIDIOC_S_EXT_CTRLS'', ''VIDIOC_QBUF'', ''VIDIOC_DQBUF'', ''VIDIOC_STREAMOFF'', ''VIDIOC_STREAMON'',
              ''VIDIOC_S_FMT'', ''VIDIOC_REQBUFS''} then Inr st
     else if op = ''VIDIOC_DQBUF'' \<and> jv e ''errno'' = JStr ''EAGAIN'' then Inr st
     else
       rbind (require (\<not> dhas e ''errno'') ''selected ioctl failed'') (\<lambda>_.
       if op = ''VIDIOC_STREAMOFF'' then step_streamoff clear expected e st
       else if op \<in> {''VIDIOC_STREAMON'', ''VIDIOC_S_FMT'', ''VIDIOC_REQBUFS''}
       then rbind (require (ns_pictures st = [] \<or> (ns_stopped st \<and> op = ''VIDIOC_REQBUFS''))
              ''stream reconfiguration after submission'') (\<lambda>_. Inr st)
       else if op = ''VIDIOC_S_EXT_CTRLS'' then step_controls e st
       else if op = ''VIDIOC_QBUF'' then step_qbuf e st
       else step_dqbuf e st))"

definition norm_step :: "bool \<Rightarrow> int \<Rightarrow> nat \<Rightarrow> int \<Rightarrow> nat \<times> tr_event \<Rightarrow> norm_state \<Rightarrow> norm_state py" where
  "norm_step clear fd start expected = (\<lambda>(index, e) st.
     rbind (step_alloc e st) (\<lambda>st1.
     if index \<le> start then Inr st1
     else
       rbind (step_close fd e st1) (\<lambda>st2.
       let op = jv e ''ioctl'' in
       if op = JStr ''MEDIA_REQUEST_IOC_QUEUE'' then step_request expected False e st2
       else if op = JStr ''MEDIA_REQUEST_IOC_REINIT'' then step_request expected True e st2
       else if \<not> py_eq (jv e ''fd'') (JInt fd) \<or> \<not> py_true op then Inr st2
       else step_ioctl clear expected (case op of JStr s \<Rightarrow> s | _ \<Rightarrow> []) e st2)))"

subsection \<open>Records\<close>

record dpb_rec =
  dr_i :: nat
  dr_buf :: int
  dr_poc :: int
  dr_lt :: int
  dr_field :: int

record slice_rec =
  sr_type :: string
  sr_nal :: int
  sr_l0 :: "int list"
  sr_l1 :: "int list"
  sr_tmvp :: bool
  sr_col_l0 :: bool
  sr_col :: int

record ref_record =
  rr_run :: string
  rr_pic :: nat
  rr_target :: int
  rr_poc :: int
  rr_irap :: bool
  rr_idr :: bool
  rr_ltr_sps :: bool
  rr_total_curr :: nat
  rr_dpb :: "dpb_rec list"
  rr_slice :: slice_rec
  rr_st_before :: "int list"
  rr_st_after :: "int list"
  rr_lt_curr :: "int list"

record association =
  as_pic :: nat
  as_poc :: int
  as_system_frame_number :: int

text \<open>One active DPB entry: resolved by time stamp to an earlier picture whose buffer it still owns.\<close>

definition dpb_entry :: "norm_state \<Rightarrow> (int, nat) dict \<Rightarrow> hc_request \<Rightarrow> json \<Rightarrow> dpb_rec list \<Rightarrow> dpb_rec list py" where
  "dpb_entry st last_writer req ent acc =
     rbind (rbind (sub ent ''timestamp'') (hc_integer 0 (2 ^ 64 - 1))) (\<lambda>ts.
     rbind (case dget (ns_by_timestamp st) ts of
              None \<Rightarrow> Inl (Reject ''unresolved/future/self reference'')
            | Some i \<Rightarrow> rbind (require (rq_pic (obj st i) < rq_pic req) ''unresolved/future/self reference'') (\<lambda>_.
                Inr (obj st i))) (\<lambda>ref.
     rbind (require (dget last_writer (rq_target ref) = Some (rq_pic ref) \<and> rq_target ref \<noteq> rq_target req)
       ''reference aliases a reused/destination capture buffer'') (\<lambda>_.
     rbind (rbind (sub ent ''pic_order_cnt_val'') (hc_integer (-(2 ^ 31)) (2 ^ 31 - 1))) (\<lambda>rpoc.
     rbind (dsub (rq_dp ref) ''pic_order_cnt_val'') (\<lambda>wpoc.
     rbind (require (py_eq (JInt rpoc) wpoc) ''reference POC mismatch'') (\<lambda>_.
     rbind (rbind (sub ent ''flags'') (\<lambda>v. hc_flags v ''V4L2_HEVC_PPS_FLAG_'' [''DEPENDENT_SLICE_SEGMENT_ENABLED''])) (\<lambda>ef.
     rbind (rbind (sub ent ''field_pic'') (hc_integer 0 1)) (\<lambda>field.
     Inr (acc @ [\<lparr>dr_i = length acc, dr_buf = rq_target ref, dr_poc = rpoc, dr_lt = of_bool (ef \<noteq> []),
                   dr_field = field\<rparr>])))))))))"

definition slot_list :: "int \<Rightarrow> json \<Rightarrow> int \<Rightarrow> int list py" where
  "slot_list n arr cnt =
     (case arr of
        JList xs \<Rightarrow>
          rbind (require (length xs = 16) ''incomplete reference array'') (\<lambda>_.
          rbind (require (list_all (\<lambda>v. case v of JInt i \<Rightarrow> 0 \<le> i \<and> i \<le> 255 | _ \<Rightarrow> False) xs)
            ''invalid reference array'') (\<lambda>_.
          rmap (hc_integer 0 (n - 1)) (take (nat cnt) xs)))
      | _ \<Rightarrow> Inl (Reject ''incomplete reference array''))"

definition current_list :: "tr_event \<Rightarrow> int \<Rightarrow> string \<Rightarrow> int list py" where
  "current_list dp n suffix =
     rbind (rbind (dsub dp (''num_poc_'' @ suffix)) (hc_integer 0 16)) (\<lambda>cnt.
     rbind (dsub dp (''poc_'' @ suffix)) (\<lambda>arr. slot_list n arr cnt))"

definition slice_of_request :: "tr_event \<Rightarrow> int \<Rightarrow> string list \<Rightarrow> slice_rec py" where
  "slice_of_request sl n lf =
     rbind (rbind (dsub sl ''slice_type'') (hc_integer 0 2)) (\<lambda>ty.
     rbind (if ty = 2 then Inr 0
            else rbind (rbind (dsub sl ''num_ref_idx_l0_active_minus1'') (hc_integer 0 15)) (\<lambda>k. Inr (k + 1))) (\<lambda>c0.
     rbind (if ty = 0
            then rbind (rbind (dsub sl ''num_ref_idx_l1_active_minus1'') (hc_integer 0 15)) (\<lambda>k. Inr (k + 1))
            else Inr 0) (\<lambda>c1.
     rbind (rbind (dsub sl ''nal_unit_type'') (hc_integer 0 63)) (\<lambda>nal.
     rbind (rbind (dsub sl ''ref_idx_l0'') (\<lambda>a. slot_list n a c0)) (\<lambda>l0.
     rbind (rbind (dsub sl ''ref_idx_l1'') (\<lambda>a. slot_list n a c1)) (\<lambda>l1.
     let tmvp = (''SLICE_TEMPORAL_MVP_ENABLED'' \<in> set lf); col_l0 = (''COLLOCATED_FROM_L0'' \<in> set lf) in
     rbind (if tmvp
            then rbind (rbind (dsub sl ''collocated_ref_idx'') (hc_integer 0 255)) (\<lambda>col.
                 let chosen = (if ty = 1 \<or> col_l0 then l0 else l1) in
                 rbind (require (ty = 2 \<or> col < int (length chosen)) ''unresolved collocated reference'') (\<lambda>_.
                 Inr (col_l0, col)))
            else Inr (False, 0)) (\<lambda>(cl, col).
     Inr \<lparr>sr_type = (if ty = 0 then ''B'' else if ty = 1 then ''P'' else ''I''), sr_nal = nal, sr_l0 = l0,
          sr_l1 = l1, sr_tmvp = tmvp, sr_col_l0 = cl, sr_col = col\<rparr>)))))))"

definition build_record :: "string \<Rightarrow> norm_state \<Rightarrow> (int, nat) dict \<Rightarrow> hc_request \<Rightarrow> ref_record py" where
  "build_record run st last_writer req =
     (let dp = rq_dp req; sl = rq_sl req in
     rbind (rbind (dsub (rq_sps req) ''flags'') (\<lambda>v. hc_flags v ''V4L2_HEVC_SPS_FLAG_'' SPS_FLAGS)) (\<lambda>sf.
     rbind (rbind (dsub dp ''flags'') (\<lambda>v. hc_flags v ''V4L2_HEVC_DECODE_PARAM_FLAG_''
       [''IRAP_PIC'', ''IDR_PIC'', ''NO_OUTPUT_OF_PRIOR''])) (\<lambda>df.
     rbind (rbind (dsub sl ''flags'') (\<lambda>v. hc_flags v ''V4L2_HEVC_SLICE_PARAMS_FLAG_'' SLICE_FLAGS)) (\<lambda>lf.
     rbind (rbind (dsub dp ''pic_order_cnt_val'') (hc_integer (-(2 ^ 31)) (2 ^ 31 - 1))) (\<lambda>poc.
     rbind (dsub dp ''dpb'') (\<lambda>entries.
     rbind (case entries of
              JList es \<Rightarrow> rbind (require (length es = 16) ''incomplete DPB array'') (\<lambda>_. Inr es)
            | _ \<Rightarrow> Inl (Reject ''incomplete DPB array'')) (\<lambda>es.
     rbind (rbind (dsub dp ''num_active_dpb_entries'') (hc_integer 0 16)) (\<lambda>n.
     rbind (rfold (dpb_entry st last_writer req) (take (nat n) es) []) (\<lambda>dpb.
     rbind (current_list dp n ''st_curr_before'') (\<lambda>before.
     rbind (current_list dp n ''st_curr_after'') (\<lambda>after.
     rbind (current_list dp n ''lt_curr'') (\<lambda>lt.
     let total = length before + length after + length lt in
     rbind (require (int total \<le> n) ''current reference count exceeds DPB'') (\<lambda>_.
     rbind (slice_of_request sl n lf) (\<lambda>s.
     Inr \<lparr>rr_run = run, rr_pic = rq_pic req, rr_target = rq_target req, rr_poc = poc,
          rr_irap = (''IRAP_PIC'' \<in> set df), rr_idr = (''IDR_PIC'' \<in> set df),
          rr_ltr_sps = (''LONG_TERM_REF_PICS_PRESENT'' \<in> set sf), rr_total_curr = total, rr_dpb = dpb,
          rr_slice = s, rr_st_before = before, rr_st_after = after, rr_lt_curr = lt\<rparr>))))))))))))))"

record build_state =
  bs_records :: "ref_record list"
  bs_associations :: "association list"
  bs_last_writer :: "(int, nat) dict"

definition build_step :: "string \<Rightarrow> norm_state \<Rightarrow> nat \<Rightarrow> build_state \<Rightarrow> build_state py" where
  "build_step run st i bs =
     (let req = obj st i in
     rbind (build_record run st (bs_last_writer bs) req) (\<lambda>r.
     Inr \<lparr>bs_records = bs_records bs @ [r],
          bs_associations = bs_associations bs @
            [\<lparr>as_pic = rr_pic r, as_poc = rr_poc r,
              as_system_frame_number = (case rq_timestamp req of Some ts \<Rightarrow> ts div 1000 | None \<Rightarrow> 0)\<rparr>],
          bs_last_writer = dset (rq_target req) (rq_pic req) (bs_last_writer bs)\<rparr>))"

subsection \<open>Normalization\<close>

definition run_ok :: "json \<Rightarrow> string py" where
  "run_ok run = (case run of
     JStr s \<Rightarrow> rbind (require (length s = 16 \<and> list_all (\<lambda>c. is_digit c \<or>
         (let n = of_char c :: nat in 97 \<le> n \<and> n \<le> 102)) s) ''invalid run'') (\<lambda>_. Inr s)
   | _ \<Rightarrow> Inl (Reject ''invalid run''))"

text \<open>The events that submit decode parameters, with their position and descriptor.\<close>

definition candidate :: "nat \<times> tr_event \<Rightarrow> (nat \<times> int) list \<Rightarrow> (nat \<times> int) list py" where
  "candidate = (\<lambda>(i, e) acc.
     if jv e ''ioctl'' = JStr ''VIDIOC_S_EXT_CTRLS''
     then rbind (ext_controls e) (\<lambda>(_, cs).
          if dhas cs (CID @ ''DECODE_PARAMS'')
          then rbind (rbind (dsub e ''fd'') hc_u32) (\<lambda>fd. Inr (acc @ [(i, fd)])) else Inr acc)
     else Inr acc)"

definition enumerate_events :: "tr_event list \<Rightarrow> (nat \<times> tr_event) list" where
  "enumerate_events events = zip [0..<length events] events"

definition context_start :: "tr_event list \<Rightarrow> (int \<times> nat) py" where
  "context_start events =
     rbind (rfold candidate (enumerate_events events) []) (\<lambda>cands.
     case cands of
       [] \<Rightarrow> Inl (Reject ''expected exactly one HEVC video context'')
     | (first, fd) # _ \<Rightarrow>
         rbind (require (list_all (\<lambda>(_, f). f = fd) cands) ''expected exactly one HEVC video context'') (\<lambda>_.
         let os = map fst (filter (\<lambda>(i, e). py_eq (jv e ''fd'') (JInt fd) \<and> opens e) (take first (enumerate_events events))) in
         rbind (require (os \<noteq> []) ''missing video open / truncated context'') (\<lambda>_.
         Inr (fd, last os))))"

definition walk_events :: "bool \<Rightarrow> tr_event list \<Rightarrow> int \<Rightarrow> norm_state py" where
  "walk_events clear events expected =
     rbind (context_start events) (\<lambda>(fd, start).
     rfold (norm_step clear fd start expected) (enumerate_events events) norm_init)"

definition finish_walk :: "int \<Rightarrow> norm_state \<Rightarrow> unit py" where
  "finish_walk expected st =
     rbind (require (ns_closed st \<and> ns_stopped st) ''missing clean context teardown'') (\<lambda>_.
     rbind (require (int (length (ns_pictures st)) = expected \<and> all_complete st \<and> ns_output_buffers st = [])
       ''incomplete expected capture'') (\<lambda>_.
     require (list_all (\<lambda>(_, i). rq_queued (obj st i)) (ns_requests st)) ''orphaned pending request''))"

definition normalize_with :: "bool \<Rightarrow> tr_event list \<Rightarrow> json \<Rightarrow> json \<Rightarrow> (ref_record list \<times> association list) py" where
  "normalize_with clear events expected run =
     rbind (hc_integer 1 MAX_PICTURES expected) (\<lambda>n.
     rbind (run_ok run) (\<lambda>r.
     rbind (walk_events clear events n) (\<lambda>st.
     rbind (finish_walk n st) (\<lambda>_.
     rbind (rfold (build_step r st) (ns_pictures st)
       \<lparr>bs_records = [], bs_associations = [], bs_last_writer = []\<rparr>) (\<lambda>bs.
     Inr (bs_records bs, bs_associations bs))))))"

definition normalize :: "tr_event list \<Rightarrow> json \<Rightarrow> json \<Rightarrow> (ref_record list \<times> association list) py" where
  "normalize = normalize_with False"

definition lifecycle_normalize :: "tr_event list \<Rightarrow> json \<Rightarrow> json \<Rightarrow> (ref_record list \<times> association list) py" where
  "lifecycle_normalize = normalize_with True"

subsection \<open>Association with output order\<close>

text \<open>The regular expression at one position: the element name and the digits of the picture.\<close>

definition match_output :: "string \<Rightarrow> (string \<times> string) option" where
  "match_output s =
     (let p = ''gst_v4l2_codec_h265_dec_output_picture:<''; q = ''> Output picture '';
          r = drop (length p) s; name = takeWhile (\<lambda>c. c \<noteq> CHR ''>'') r; r1 = dropWhile (\<lambda>c. c \<noteq> CHR ''>'') r;
          r2 = drop (length q) r1; digits = takeWhile is_digit r2 in
      if starts_with p s \<and> name \<noteq> [] \<and> starts_with q r1 \<and> digits \<noteq> [] \<and>
         list_all py_space (dropWhile is_digit r2)
      then Some (name, digits) else None)"

definition search_output :: "string \<Rightarrow> (string \<times> string) option" where
  "search_output line = (case find (\<lambda>s. match_output s \<noteq> None) (suffixes_of line) of
     None \<Rightarrow> None | Some s \<Rightarrow> match_output s)"

definition output_line :: "string \<Rightarrow> (string \<times> int) list \<Rightarrow> (string \<times> int) list py" where
  "output_line line acc =
     (if \<not> list_ex (starts_with ''Output picture'') (suffixes_of line) then Inr acc
      else (case search_output line of
              None \<Rightarrow> Inl (Reject ''unrecognized output-picture event'')
            | Some (name, digits) \<Rightarrow>
                rbind (hc_u32 (JInt (int (dec_value 0 digits)))) (\<lambda>i. Inr (acc @ [(name, i)]))))"

definition frame_of :: "association list \<Rightarrow> int \<Rightarrow> association option" where
  "frame_of pictures f = find (\<lambda>p. as_system_frame_number p = f) (rev pictures)"

definition associate :: "string \<Rightarrow> association list \<Rightarrow> json \<Rightarrow> json \<Rightarrow> (nat \<times> association) list py" where
  "associate logtext pictures decoded_frames tracee_status =
     rbind (hc_integer 1 MAX_PICTURES decoded_frames) (\<lambda>n.
     rbind (hc_integer 0 255 tracee_status) (\<lambda>status.
     rbind (require (status = 0 \<and> n = int (length pictures))
       ''association requires successful pipeline and independent full frame count'') (\<lambda>_.
     rbind (require (utf8_len logtext \<le> MAX_BYTES) ''log exceeds byte limit'') (\<lambda>_.
     rbind (rfold output_line (splitlines logtext) []) (\<lambda>found.
     let ids = map snd found in
     rbind (require (length (remdups (map fst found)) = 1 \<and> length ids = length pictures \<and> distinct ids)
       ''missing/duplicate/multiple-context output events'') (\<lambda>_.
     rbind (require (set ids = set (map as_system_frame_number pictures)) ''output/decode picture identities differ'') (\<lambda>_.
     Inr (zip [0..<length ids] (map (\<lambda>f. the (frame_of pictures f)) ids)))))))))"

subsection \<open>The walk keeps pictures and requests apart\<close>

definition walk_inv :: "norm_state \<Rightarrow> bool" where
  "walk_inv st \<longleftrightarrow>
     (\<forall>k < length (ns_pictures st). ns_pictures st ! k < length (ns_objs st) \<and>
        rq_pic (obj st (ns_pictures st ! k)) = k + 1 \<and> rq_queued (obj st (ns_pictures st ! k))) \<and>
     (\<forall>ts i. dget (ns_by_timestamp st) ts = Some i \<longrightarrow> i \<in> set (ns_pictures st)) \<and>
     (\<forall>fd i. dget (ns_requests st) fd = Some i \<longrightarrow> i < length (ns_objs st))"

lemma walk_inv_init: "walk_inv norm_init"
  by (simp add: walk_inv_def norm_init_def)

lemma walk_inv_pictures: "walk_inv st \<Longrightarrow> i \<in> set (ns_pictures st) \<Longrightarrow> i < length (ns_objs st) \<and> rq_queued (obj st i)"
  by (auto simp: walk_inv_def in_set_conv_nth)

lemma walk_inv_set_obj:
  assumes "walk_inv st" and "rq_pic r = rq_pic (obj st i)" and "rq_queued r = rq_queued (obj st i)"
  shows "walk_inv (set_obj i r st)"
proof -
  have "rq_pic (obj (set_obj i r st) j) = rq_pic (obj st j) \<and> rq_queued (obj (set_obj i r st) j) = rq_queued (obj st j)" for j
    using assms(2,3) by (cases "j = i"; cases "i < length (ns_objs st)") (simp_all add: set_obj_def list_update_beyond)
  then show ?thesis using assms(1) by (simp add: walk_inv_def set_obj_def)
qed

lemma walk_inv_irrelevant:
  assumes "walk_inv st" and "ns_objs st' = ns_objs st" and "ns_pictures st' = ns_pictures st"
    and "ns_by_timestamp st' = ns_by_timestamp st"
    and "\<And>fd i. dget (ns_requests st') fd = Some i \<Longrightarrow> dget (ns_requests st) fd = Some i"
  shows "walk_inv st'"
  using assms(1,5) unfolding walk_inv_def assms(2-4) by blast

lemma setdefault_request_inv:
  assumes "walk_inv st" and "setdefault_request reqfd st = (st', i)"
  shows "walk_inv st' \<and> i < length (ns_objs st') \<and> dget (ns_requests st') reqfd = Some i"
proof (cases "dget (ns_requests st) reqfd")
  case None
  then have st': "st' = st\<lparr>ns_requests := dset reqfd (length (ns_objs st)) (ns_requests st),
      ns_objs := ns_objs st @ [new_request]\<rparr>" "i = length (ns_objs st)"
    using assms(2) by (auto simp: setdefault_request_def)
  show ?thesis using assms(1) unfolding st' walk_inv_def by (auto simp: nth_append less_Suc_eq)
next
  case (Some j)
  then show ?thesis using assms by (auto simp: setdefault_request_def walk_inv_def)
qed

lemma step_alloc_inv:
  assumes "walk_inv st" and "step_alloc e st = Inr st'"
  shows "walk_inv st'"
proof (cases "jv e ''ioctl'' = JStr ''MEDIA_IOC_REQUEST_ALLOC''")
  case True
  obtain reqfd where "Inr (st\<lparr>ns_allocations := List.insert reqfd (ns_allocations st),
      ns_requests := ddel reqfd (ns_requests st)\<rparr>) = (Inr st' :: norm_state py)"
    using assms(2) unfolding step_alloc_def if_P [OF True] by (elim rbind_InrE)
  then have "st' = st\<lparr>ns_allocations := List.insert reqfd (ns_allocations st),
      ns_requests := ddel reqfd (ns_requests st)\<rparr>" by simp
  then show ?thesis by (intro walk_inv_irrelevant [OF assms(1)]) (auto split: if_splits)
next
  case False
  then show ?thesis using assms by (simp add: step_alloc_def)
qed

lemma step_close_inv:
  assumes "walk_inv st" and "step_close fd e st = Inr st'"
  shows "walk_inv st'"
proof -
  have "st' = st \<or> st' = st\<lparr>ns_closed := True\<rparr>"
    using assms(2) unfolding step_close_def by (auto elim!: rbind_InrE split: if_splits)
  then show ?thesis by (elim disjE) (auto intro!: walk_inv_irrelevant [OF assms(1)])
qed

lemma step_controls_inv:
  assumes "walk_inv st" and "step_controls e st = Inr st'"
  shows "walk_inv st'"
proof -
  have "st' = st \<or> (\<exists>reqfd st1 i d. setdefault_request reqfd st = (st1, i) \<and>
        st' = set_obj i ((obj st1 i)\<lparr>rq_controls := d\<rparr>) st1)"
    using assms(2) unfolding step_controls_def Let_def
    by (elim rbind_InrE) (auto elim!: rbind_InrE split: if_splits prod.splits; blast)
  then consider "st' = st" | reqfd st1 i d where "setdefault_request reqfd st = (st1, i)"
    "st' = set_obj i ((obj st1 i)\<lparr>rq_controls := d\<rparr>) st1" by blast
  then show ?thesis
  proof cases
    case 2
    from setdefault_request_inv [OF assms(1) 2(1)] show ?thesis unfolding 2(2)
      by (intro walk_inv_set_obj) simp_all
  qed (simp add: assms(1))
qed

lemma step_qbuf_inv:
  assumes "walk_inv st" and "step_qbuf e st = Inr st'"
  shows "walk_inv st'"
proof -
  have "(\<exists>bs. st' = st\<lparr>ns_capture_buffers := bs\<rparr>) \<or>
    (\<exists>reqfd st1 i ts bs. setdefault_request reqfd st = (st1, i) \<and>
        st' = (set_obj i ((obj st1 i)\<lparr>rq_timestamp := ts\<rparr>) st1)\<lparr>ns_output_buffers := bs\<rparr>)"
    using assms(2) unfolding step_qbuf_def Let_def
    by (elim rbind_InrE) (auto elim!: rbind_InrE split: if_splits prod.splits; blast)
  then consider bs where "st' = st\<lparr>ns_capture_buffers := bs\<rparr>"
    | reqfd st1 i ts bs where "setdefault_request reqfd st = (st1, i)"
        "st' = (set_obj i ((obj st1 i)\<lparr>rq_timestamp := ts\<rparr>) st1)\<lparr>ns_output_buffers := bs\<rparr>" by blast
  then show ?thesis
  proof cases
    case 1
    then show ?thesis by (intro walk_inv_irrelevant [OF assms(1)]) simp_all
  next
    case 2
    from setdefault_request_inv [OF assms(1) 2(1)]
    have "walk_inv (set_obj i ((obj st1 i)\<lparr>rq_timestamp := ts\<rparr>) st1)" by (intro walk_inv_set_obj) simp_all
    then show ?thesis unfolding 2(2) by (rule walk_inv_irrelevant) simp_all
  qed
qed

lemma step_dqbuf_inv:
  assumes "walk_inv st" and "step_dqbuf e st = Inr st'"
  shows "walk_inv st'"
proof -
  have "(\<exists>bs. st' = st\<lparr>ns_output_buffers := bs\<rparr>) \<or>
    (\<exists>i bi bs. st' = (set_obj i ((obj st i)\<lparr>rq_complete := True, rq_target := bi\<rparr>) st)\<lparr>ns_capture_buffers := bs\<rparr>)"
    using assms(2) unfolding step_dqbuf_def by (elim rbind_InrE) (auto elim!: rbind_InrE split: if_splits)
  then consider bs where "st' = st\<lparr>ns_output_buffers := bs\<rparr>"
    | i bi bs where "st' = (set_obj i ((obj st i)\<lparr>rq_complete := True, rq_target := bi\<rparr>) st)\<lparr>ns_capture_buffers := bs\<rparr>"
    by blast
  then show ?thesis
  proof cases
    case 1
    then show ?thesis by (intro walk_inv_irrelevant [OF assms(1)]) simp_all
  next
    case 2
    have "walk_inv (set_obj i ((obj st i)\<lparr>rq_complete := True, rq_target := bi\<rparr>) st)"
      using assms(1) by (rule walk_inv_set_obj) simp_all
    then show ?thesis unfolding 2 by (rule walk_inv_irrelevant) simp_all
  qed
qed

lemma step_streamoff_inv:
  assumes "walk_inv st" and "step_streamoff clear expected e st = Inr st'"
  shows "walk_inv st'"
proof -
  obtain bs where "st' = st\<lparr>ns_output_buffers := bs, ns_stopped := True\<rparr>"
    using assms(2) unfolding step_streamoff_def by (auto elim!: rbind_InrE)
  then show ?thesis by (intro walk_inv_irrelevant [OF assms(1)]) simp_all
qed

lemma queue_request_inv:
  assumes "walk_inv st" and "i < length (ns_objs st)" and "queue_request expected i st = Inr st'"
  shows "walk_inv st'"
proof -
  obtain dp sl p ts sps where fresh: "\<not> rq_queued (obj st i)"
    and st': "st' = (set_obj i ((obj st i)\<lparr>rq_queued := True, rq_dp := dp, rq_sl := sl, rq_sps := p,
        rq_pic := length (ns_pictures st) + 1\<rparr>) st)\<lparr>ns_pictures := ns_pictures st @ [i],
        ns_by_timestamp := dset ts i (ns_by_timestamp st), ns_sps := sps\<rparr>"
    using assms(3) unfolding queue_request_def Let_def by (elim rbind_InrE) (auto simp: require_Inr)
  have "i \<notin> set (ns_pictures st)" using walk_inv_pictures [OF assms(1)] fresh by blast
  then have "i \<noteq> ns_pictures st ! k" if "k < length (ns_pictures st)" for k using that nth_mem by blast
  then show ?thesis using assms(1,2) unfolding st' walk_inv_def
    by (auto simp: set_obj_def nth_append less_Suc_eq)
qed

lemma step_request_inv:
  assumes "walk_inv st" and "step_request expected reinit e st = Inr st'"
  shows "walk_inv st'"
proof -
  consider "st' = st" | reqfd where "st' = st\<lparr>ns_requests := ddel reqfd (ns_requests st)\<rparr>"
    | reqfd i where "dget (ns_requests st) reqfd = Some i" "queue_request expected i st = Inr st'"
    using assms(2) unfolding step_request_def by (auto elim!: rbind_InrE split: if_splits option.splits)
  then show ?thesis
  proof cases
    case 2
    then show ?thesis by (intro walk_inv_irrelevant [OF assms(1)]) (auto split: if_splits)
  next
    case 3
    then have "i < length (ns_objs st)" using assms(1) by (auto simp: walk_inv_def)
    from queue_request_inv [OF assms(1) this 3(2)] show ?thesis .
  qed (simp add: assms(1))
qed

text \<open>The operation alone decides which handler runs.\<close>

lemma ioctl_branches:
  assumes "rbind r (\<lambda>_. if A then Inr st else if B then Inr st else rbind q (\<lambda>_.
      if C then f else if D then rbind p (\<lambda>_. Inr st) else if E then g else if F then h else k)) = Inr a"
  shows "(A \<or> B \<or> \<not> C \<and> D \<longrightarrow> a = st) \<and> (\<not> A \<and> \<not> B \<and> C \<longrightarrow> f = Inr a) \<and>
    (\<not> A \<and> \<not> B \<and> \<not> C \<and> \<not> D \<and> E \<longrightarrow> g = Inr a) \<and> (\<not> A \<and> \<not> B \<and> \<not> C \<and> \<not> D \<and> \<not> E \<and> F \<longrightarrow> h = Inr a) \<and>
    (\<not> A \<and> \<not> B \<and> \<not> C \<and> \<not> D \<and> \<not> E \<and> \<not> F \<longrightarrow> k = Inr a)"
  using assms by (auto elim!: rbind_InrE split: if_splits)

lemma branches_obtain:
  assumes "\<And>clear st a. S clear st a \<Longrightarrow> (A \<or> B \<or> \<not> C \<and> D \<longrightarrow> a = st) \<and> (\<not> A \<and> \<not> B \<and> C \<longrightarrow> f clear st a) \<and>
    (\<not> A \<and> \<not> B \<and> \<not> C \<and> \<not> D \<and> E \<longrightarrow> g clear st a) \<and> (\<not> A \<and> \<not> B \<and> \<not> C \<and> \<not> D \<and> \<not> E \<and> F \<longrightarrow> h clear st a) \<and>
    (\<not> A \<and> \<not> B \<and> \<not> C \<and> \<not> D \<and> \<not> E \<and> \<not> F \<longrightarrow> k clear st a)"
  obtains "\<And>clear st a. S clear st a \<Longrightarrow> a = st" | "\<And>clear st a. S clear st a \<Longrightarrow> f clear st a"
    | "\<And>clear st a. S clear st a \<Longrightarrow> g clear st a" | "\<And>clear st a. S clear st a \<Longrightarrow> h clear st a"
    | "\<And>clear st a. S clear st a \<Longrightarrow> k clear st a"
  using assms by (cases A; cases B; cases C; cases D; cases E; cases F) simp_all

lemma step_ioctl_dispatch:
  obtains (skip) "\<And>clear st a. step_ioctl clear n op e st = Inr a \<Longrightarrow> a = st"
    | (off) "\<And>clear st a. step_ioctl clear n op e st = Inr a \<Longrightarrow> step_streamoff clear n e st = Inr a"
    | (ctl) "\<And>clear st a. step_ioctl clear n op e st = Inr a \<Longrightarrow> step_controls e st = Inr a"
    | (qbuf) "\<And>clear st a. step_ioctl clear n op e st = Inr a \<Longrightarrow> step_qbuf e st = Inr a"
    | (dqbuf) "\<And>clear st a. step_ioctl clear n op e st = Inr a \<Longrightarrow> step_dqbuf e st = Inr a"
proof -
  let ?A = "op \<notin> {''VIDIOC_S_EXT_CTRLS'', ''VIDIOC_QBUF'', ''VIDIOC_DQBUF'', ''VIDIOC_STREAMOFF'', ''VIDIOC_STREAMON'',
      ''VIDIOC_S_FMT'', ''VIDIOC_REQBUFS''}"
  let ?B = "op = ''VIDIOC_DQBUF'' \<and> jv e ''errno'' = JStr ''EAGAIN''" and ?C = "op = ''VIDIOC_STREAMOFF''"
    and ?D = "op \<in> {''VIDIOC_STREAMON'', ''VIDIOC_S_FMT'', ''VIDIOC_REQBUFS''}"
    and ?E = "op = ''VIDIOC_S_EXT_CTRLS''" and ?F = "op = ''VIDIOC_QBUF''"
  have key: "(?A \<or> ?B \<or> \<not> ?C \<and> ?D \<longrightarrow> a = st) \<and> (\<not> ?A \<and> \<not> ?B \<and> ?C \<longrightarrow> step_streamoff clear n e st = Inr a) \<and>
    (\<not> ?A \<and> \<not> ?B \<and> \<not> ?C \<and> \<not> ?D \<and> ?E \<longrightarrow> step_controls e st = Inr a) \<and>
    (\<not> ?A \<and> \<not> ?B \<and> \<not> ?C \<and> \<not> ?D \<and> \<not> ?E \<and> ?F \<longrightarrow> step_qbuf e st = Inr a) \<and>
    (\<not> ?A \<and> \<not> ?B \<and> \<not> ?C \<and> \<not> ?D \<and> \<not> ?E \<and> \<not> ?F \<longrightarrow> step_dqbuf e st = Inr a)"
    if "step_ioctl clear n op e st = Inr a" for clear st a
    using that unfolding step_ioctl_def by (rule ioctl_branches)
  show thesis
    by (rule branches_obtain [where S = "\<lambda>clear st a. step_ioctl clear n op e st = Inr a"], erule key) (fact that)+
qed

lemma step_ioctl_inv:
  assumes "walk_inv st" and "step_ioctl clear expected op e st = Inr st'"
  shows "walk_inv st'"
proof (cases rule: step_ioctl_dispatch [of expected op e])
  case skip
  then show ?thesis using assms by blast
next
  case off
  then show ?thesis using assms step_streamoff_inv by blast
next
  case ctl
  then show ?thesis using assms step_controls_inv by blast
next
  case qbuf
  then show ?thesis using assms step_qbuf_inv by blast
next
  case dqbuf
  then show ?thesis using assms step_dqbuf_inv by blast
qed

lemma norm_step_inv:
  assumes "walk_inv st" and "norm_step clear fd s expected x st = Inr st'"
  shows "walk_inv st'"
proof -
  obtain index e where x: "x = (index, e)" by (cases x)
  obtain st1 where st1: "step_alloc e st = Inr st1"
    and rest: "st' = st1 \<or> (\<exists>st2. step_close fd e st1 = Inr st2 \<and> (st' = st2 \<or>
       (\<exists>b. step_request expected b e st2 = Inr st') \<or> (\<exists>op. step_ioctl clear expected op e st2 = Inr st')))"
    using assms(2) unfolding norm_step_def x Let_def by (auto elim!: rbind_InrE split: if_splits; blast)
  from step_alloc_inv [OF assms(1) st1] rest show ?thesis
    using step_close_inv step_request_inv step_ioctl_inv by blast
qed

lemma walk_events_inv:
  assumes "walk_events clear events expected = Inr st"
  shows "walk_inv st"
proof -
  obtain fd s where "rfold (norm_step clear fd s expected) (enumerate_events events) norm_init = Inr st"
    using assms unfolding walk_events_def by (auto elim!: rbind_InrE)
  then show ?thesis by (rule rfold_invariant) (auto simp: walk_inv_init intro: norm_step_inv)
qed

subsection \<open>References of the records\<close>

text \<open>
  A record resolves in a history of records: each entry of its DPB names a buffer whose most recent
  writer of the history has that picture order count, the buffer is not the one the record itself
  writes, and every list names entries of the DPB.
\<close>

definition last_write :: "ref_record list \<Rightarrow> nat \<Rightarrow> bool" where
  "last_write rs w \<longleftrightarrow> w < length rs \<and> (\<forall>k. w < k \<and> k < length rs \<longrightarrow> rr_target (rs ! k) \<noteq> rr_target (rs ! w))"

definition entry_resolves :: "ref_record list \<Rightarrow> int \<Rightarrow> dpb_rec \<Rightarrow> bool" where
  "entry_resolves hist own d \<longleftrightarrow> dr_buf d \<noteq> own \<and>
     (\<exists>w. last_write hist w \<and> rr_target (hist ! w) = dr_buf d \<and> rr_poc (hist ! w) = dr_poc d)"

definition slots_in :: "nat \<Rightarrow> int list \<Rightarrow> bool" where
  "slots_in n xs \<longleftrightarrow> (\<forall>i \<in> set xs. 0 \<le> i \<and> i < int n)"

definition record_resolves :: "ref_record list \<Rightarrow> ref_record \<Rightarrow> bool" where
  "record_resolves hist r \<longleftrightarrow>
     (\<forall>d \<in> set (rr_dpb r). entry_resolves hist (rr_target r) d) \<and>
     map dr_i (rr_dpb r) = [0..<length (rr_dpb r)] \<and>
     slots_in (length (rr_dpb r)) (sr_l0 (rr_slice r)) \<and> slots_in (length (rr_dpb r)) (sr_l1 (rr_slice r)) \<and>
     slots_in (length (rr_dpb r)) (rr_st_before r @ rr_st_after r @ rr_lt_curr r)"

lemma hc_integer_Inr: "hc_integer low high v = Inr i \<longleftrightarrow> v = JInt i \<and> low \<le> i \<and> i \<le> high"
  by (auto simp: hc_integer_def int_in_Inr)

lemma slot_list_slots:
  assumes "slot_list n arr c = Inr xs" and "0 \<le> n"
  shows "slots_in (nat n) xs"
proof -
  obtain ys where "list_all2 (\<lambda>v i. hc_integer 0 (n - 1) v = Inr i) ys xs"
    using assms(1) unfolding slot_list_def
    by (auto elim!: rbind_InrE split: json.splits simp: rmap_Inr_list_all2)
  then have "\<exists>v. hc_integer 0 (n - 1) v = Inr i" if "i \<in> set xs" for i
    using that by (auto simp: list_all2_conv_all_nth in_set_conv_nth)
  then show ?thesis using assms(2) by (fastforce simp: slots_in_def hc_integer_Inr)
qed

lemma current_list_slots: "current_list dp n suffix = Inr xs \<Longrightarrow> 0 \<le> n \<Longrightarrow> slots_in (nat n) xs"
  unfolding current_list_def by (elim rbind_InrE) (rule slot_list_slots)

lemma slice_of_request_slots:
  assumes "slice_of_request sl n lf = Inr s" and "0 \<le> n"
  shows "slots_in (nat n) (sr_l0 s) \<and> slots_in (nat n) (sr_l1 s)"
proof -
  obtain a b c d l0 l1 where "slot_list n a c = Inr l0" "slot_list n b d = Inr l1" "sr_l0 s = l0" "sr_l1 s = l1"
    using assms(1) unfolding slice_of_request_def Let_def by (elim rbind_InrE) (auto simp del: rbind_Inr)
  with slot_list_slots assms(2) show ?thesis by metis
qed

lemma dpb_entry_Inr:
  assumes "dpb_entry st lw req ent acc = Inr acc'"
  obtains ts i d v where "dget (ns_by_timestamp st) ts = Some i" "rq_pic (obj st i) < rq_pic req"
    "dget lw (rq_target (obj st i)) = Some (rq_pic (obj st i))" "rq_target (obj st i) \<noteq> rq_target req"
    "acc' = acc @ [d]" "dr_i d = length acc" "dr_buf d = rq_target (obj st i)"
    "dget (rq_dp (obj st i)) ''pic_order_cnt_val'' = Some v" "py_eq (JInt (dr_poc d)) v"
  using assms unfolding dpb_entry_def
  by (elim rbind_InrE) (auto simp: require_Inr dsub_Inr elim!: rbind_InrE split: option.splits intro!: that)

text \<open>The records built so far, against the pictures they were built from.\<close>

definition build_inv :: "norm_state \<Rightarrow> nat list \<Rightarrow> build_state \<Rightarrow> bool" where
  "build_inv st ys bs \<longleftrightarrow>
     length (bs_records bs) = length ys \<and>
     map (\<lambda>a. (as_pic a, as_poc a)) (bs_associations bs) = map (\<lambda>r. (rr_pic r, rr_poc r)) (bs_records bs) \<and>
     (\<forall>k < length ys. rr_pic (bs_records bs ! k) = k + 1 \<and> rr_target (bs_records bs ! k) = rq_target (obj st (ys ! k)) \<and>
        dget (rq_dp (obj st (ys ! k))) ''pic_order_cnt_val'' = Some (JInt (rr_poc (bs_records bs ! k))) \<and>
        record_resolves (take k (bs_records bs)) (bs_records bs ! k)) \<and>
     (\<forall>t p. dget (bs_last_writer bs) t = Some p \<longrightarrow>
        (\<exists>w. p = w + 1 \<and> last_write (bs_records bs) w \<and> rr_target (bs_records bs ! w) = t))"

lemma dpb_entry_resolves:
  assumes inv: "build_inv st ys bs" and walk: "walk_inv st" and pics: "ns_pictures st = ys @ zs"
    and entry: "dpb_entry st (bs_last_writer bs) req ent acc = Inr acc'"
  shows "\<exists>d. acc' = acc @ [d] \<and> dr_i d = length acc \<and> entry_resolves (bs_records bs) (rq_target req) d"
proof -
  obtain ts i d v where ts: "dget (ns_by_timestamp st) ts = Some i"
    and lw: "dget (bs_last_writer bs) (rq_target (obj st i)) = Some (rq_pic (obj st i))"
    and own: "rq_target (obj st i) \<noteq> rq_target req"
    and d: "acc' = acc @ [d]" "dr_i d = length acc" "dr_buf d = rq_target (obj st i)"
    and v: "dget (rq_dp (obj st i)) ''pic_order_cnt_val'' = Some v" "py_eq (JInt (dr_poc d)) v"
    using dpb_entry_Inr [OF entry] by metis
  obtain w where w: "rq_pic (obj st i) = w + 1" "last_write (bs_records bs) w"
    "rr_target (bs_records bs ! w) = rq_target (obj st i)" using inv lw unfolding build_inv_def by blast
  have len: "w < length ys" using w(2) inv by (simp add: last_write_def build_inv_def)
  have "i \<in> set (ns_pictures st)" using walk ts by (auto simp: walk_inv_def)
  then obtain k where "k < length (ns_pictures st)" "ns_pictures st ! k = i" by (auto simp: in_set_conv_nth)
  with walk w(1) have "k = w" by (auto simp: walk_inv_def)
  with \<open>ns_pictures st ! k = i\<close> len have "ys ! w = i" by (simp add: pics nth_append)
  then have "v = JInt (rr_poc (bs_records bs ! w))" using inv len v(1) by (auto simp: build_inv_def)
  then have "rr_poc (bs_records bs ! w) = dr_poc d" using v(2) by simp
  with w(2,3) own d show ?thesis by (auto simp: entry_resolves_def)
qed

lemma dpb_resolves:
  assumes "build_inv st ys bs" and "walk_inv st" and "ns_pictures st = ys @ zs"
    and "rfold (dpb_entry st (bs_last_writer bs) req) es [] = Inr dpb"
  shows "length dpb = length es \<and> map dr_i dpb = [0..<length dpb] \<and>
    (\<forall>d \<in> set dpb. entry_resolves (bs_records bs) (rq_target req) d)"
  using assms(4)
proof (rule rfold_prefix_invariant)
  fix ys' :: "json list" and ent acc acc'
  assume IH: "length acc = length ys' \<and> map dr_i acc = [0..<length acc] \<and>
      (\<forall>d \<in> set acc. entry_resolves (bs_records bs) (rq_target req) d)"
    and st: "dpb_entry st (bs_last_writer bs) req ent acc = Inr acc'"
  from dpb_entry_resolves [OF assms(1-3) st] IH
  show "length acc' = length (ys' @ [ent]) \<and> map dr_i acc' = [0..<length acc'] \<and>
      (\<forall>d \<in> set acc'. entry_resolves (bs_records bs) (rq_target req) d)" by auto
qed simp

lemma build_record_resolves:
  assumes "build_inv st ys bs" and "walk_inv st" and "ns_pictures st = ys @ zs"
    and "build_record run st (bs_last_writer bs) req = Inr r"
  shows "rr_pic r = rq_pic req \<and> rr_target r = rq_target req \<and>
    dget (rq_dp req) ''pic_order_cnt_val'' = Some (JInt (rr_poc r)) \<and> record_resolves (bs_records bs) r"
proof -
  obtain es entries m n dpb before after lt s lf p poc sf df where
    es: "(case entries of
              JList es \<Rightarrow> rbind (require (length es = 16) ''incomplete DPB array'') (\<lambda>_. Inr es)
            | _ \<Rightarrow> Inl (Reject ''incomplete DPB array'')) = Inr es"
    and n: "hc_integer 0 16 m = Inr n"
    and dpb: "rfold (dpb_entry st (bs_last_writer bs) req) (take (nat n) es) [] = Inr dpb"
    and before: "current_list (rq_dp req) n ''st_curr_before'' = Inr before"
    and after: "current_list (rq_dp req) n ''st_curr_after'' = Inr after"
    and lt: "current_list (rq_dp req) n ''lt_curr'' = Inr lt"
    and s: "slice_of_request (rq_sl req) n lf = Inr s"
    and p: "dsub (rq_dp req) ''pic_order_cnt_val'' = Inr p" "hc_integer (-(2 ^ 31)) (2 ^ 31 - 1) p = Inr poc"
    and R: "Inr \<lparr>rr_run = run, rr_pic = rq_pic req, rr_target = rq_target req, rr_poc = poc,
          rr_irap = (''IRAP_PIC'' \<in> set df), rr_idr = (''IDR_PIC'' \<in> set df),
          rr_ltr_sps = (''LONG_TERM_REF_PICS_PRESENT'' \<in> set sf),
          rr_total_curr = length before + length after + length lt, rr_dpb = dpb,
          rr_slice = s, rr_st_before = before, rr_st_after = after, rr_lt_curr = lt\<rparr> = (Inr r :: ref_record py)"
    using assms(4) unfolding build_record_def Let_def by (elim rbind_InrE) (rule that)
  have r: "rr_pic r = rq_pic req" "rr_target r = rq_target req" "rr_dpb r = dpb" "rr_slice r = s"
      "rr_st_before r = before" "rr_st_after r = after" "rr_lt_curr r = lt" "rr_poc r = poc" using R by auto
  have poc: "dget (rq_dp req) ''pic_order_cnt_val'' = Some (JInt (rr_poc r))"
    using p r(8) by (simp add: dsub_Inr hc_integer_Inr)
  have n: "0 \<le> n" "n \<le> 16" "length es = 16"
    using n es by (auto simp: hc_integer_Inr require_Inr elim!: rbind_InrE split: json.splits)
  from dpb_resolves [OF assms(1-3) dpb] n have D: "length dpb = nat n" "map dr_i dpb = [0..<length dpb]"
    "\<forall>d \<in> set dpb. entry_resolves (bs_records bs) (rq_target req) d" by auto
  from slice_of_request_slots [OF s n(1)] current_list_slots [OF before n(1)] current_list_slots [OF after n(1)]
    current_list_slots [OF lt n(1)] D poc r
  show ?thesis by (auto simp: record_resolves_def slots_in_def)
qed

lemma last_write_snoc:
  "last_write (rs @ [r]) w \<longleftrightarrow> w = length rs \<or> (last_write rs w \<and> rr_target (rs ! w) \<noteq> rr_target r)"
  by (auto simp: last_write_def nth_append less_Suc_eq)

lemma build_step_inv:
  assumes inv: "build_inv st ys bs" and walk: "walk_inv st" and pics: "ns_pictures st = (ys @ [i]) @ zs"
    and st: "build_step run st i bs = Inr bs'"
  shows "build_inv st (ys @ [i]) bs'"
proof -
  obtain r a where r: "build_record run st (bs_last_writer bs) (obj st i) = Inr r"
    and bs': "bs' = \<lparr>bs_records = bs_records bs @ [r], bs_associations = bs_associations bs @ [a],
      bs_last_writer = dset (rq_target (obj st i)) (rq_pic (obj st i)) (bs_last_writer bs)\<rparr>"
    and a: "as_pic a = rr_pic r" "as_poc a = rr_poc r"
    using st unfolding build_step_def Let_def by (auto elim!: rbind_InrE)
  have pics': "ns_pictures st = ys @ (i # zs)" using pics by simp
  have "length ys < length (ns_pictures st)" by (simp add: pics)
  then have "rq_pic (obj st (ns_pictures st ! length ys)) = length ys + 1"
    using walk unfolding walk_inv_def by blast
  then have pic: "rq_pic (obj st i) = length ys + 1" by (simp add: pics nth_append)
  note R = build_record_resolves [OF inv walk pics' r]
  have len: "length (bs_records bs) = length ys" using inv by (simp add: build_inv_def)
  have old: "rr_pic (bs_records bs ! k) = k + 1 \<and> rr_target (bs_records bs ! k) = rq_target (obj st (ys ! k)) \<and>
      dget (rq_dp (obj st (ys ! k))) ''pic_order_cnt_val'' = Some (JInt (rr_poc (bs_records bs ! k))) \<and>
      record_resolves (take k (bs_records bs)) (bs_records bs ! k)" if "k < length ys" for k
    using inv that unfolding build_inv_def by blast
  have writer: "\<exists>w. p = w + 1 \<and> last_write (bs_records bs) w \<and> rr_target (bs_records bs ! w) = t"
    if "dget (bs_last_writer bs) t = Some p" for t p
    using inv that unfolding build_inv_def by blast
  show ?thesis unfolding build_inv_def
  proof (intro conjI allI impI)
    show "length (bs_records bs') = length (ys @ [i])" using len by (simp add: bs')
    show "map (\<lambda>a. (as_pic a, as_poc a)) (bs_associations bs') = map (\<lambda>r. (rr_pic r, rr_poc r)) (bs_records bs')"
      using inv a by (simp add: bs' build_inv_def)
  next
    fix k assume "k < length (ys @ [i])"
    then consider "k < length ys" | "k = length ys" by fastforce
    then have "rr_pic (bs_records bs' ! k) = k + 1 \<and> rr_target (bs_records bs' ! k) = rq_target (obj st ((ys @ [i]) ! k)) \<and>
        dget (rq_dp (obj st ((ys @ [i]) ! k))) ''pic_order_cnt_val'' = Some (JInt (rr_poc (bs_records bs' ! k))) \<and>
        record_resolves (take k (bs_records bs')) (bs_records bs' ! k)"
    proof cases
      case 1
      then have "bs_records bs' ! k = bs_records bs ! k" "take k (bs_records bs') = take k (bs_records bs)"
        "(ys @ [i]) ! k = ys ! k" using len by (simp_all add: bs' nth_append)
      then show ?thesis using old [OF 1] by (simp only: simp_thms)
    next
      case 2
      then have "bs_records bs' ! k = r" "take k (bs_records bs') = bs_records bs" "(ys @ [i]) ! k = i"
        using len by (simp_all add: bs' nth_append)
      then show ?thesis using R pic 2 by (simp only: simp_thms)
    qed
    then show "rr_pic (bs_records bs' ! k) = k + 1" "rr_target (bs_records bs' ! k) = rq_target (obj st ((ys @ [i]) ! k))"
      "dget (rq_dp (obj st ((ys @ [i]) ! k))) ''pic_order_cnt_val'' = Some (JInt (rr_poc (bs_records bs' ! k)))"
      "record_resolves (take k (bs_records bs')) (bs_records bs' ! k)" by blast+
  next
    fix t p assume t: "dget (bs_last_writer bs') t = Some p"
    show "\<exists>w. p = w + 1 \<and> last_write (bs_records bs') w \<and> rr_target (bs_records bs' ! w) = t"
    proof (cases "t = rq_target (obj st i)")
      case True
      then show ?thesis using t R pic len by (intro exI [of _ "length ys"]) (simp add: bs' last_write_snoc nth_append)
    next
      case False
      then obtain w where w: "p = w + 1" "last_write (bs_records bs) w" "rr_target (bs_records bs ! w) = t"
        using t writer by (auto simp: bs')
      moreover have "w < length (bs_records bs)" using w(2) by (simp add: last_write_def)
      ultimately show ?thesis using False R by (intro exI [of _ w]) (simp add: bs' last_write_snoc nth_append)
    qed
  qed
qed

lemma build_inv_all:
  assumes "walk_inv st"
    and "rfold (build_step run st) (ns_pictures st) \<lparr>bs_records = [], bs_associations = [], bs_last_writer = []\<rparr> = Inr bs"
  shows "build_inv st (ns_pictures st) bs"
proof -
  have "\<forall>zs. ns_pictures st = ns_pictures st @ zs \<longrightarrow> build_inv st (ns_pictures st) bs"
    using assms(2)
  proof (rule rfold_prefix_invariant [where P = "\<lambda>ys bs. \<forall>zs. ns_pictures st = ys @ zs \<longrightarrow> build_inv st ys bs"])
    show "\<forall>zs. ns_pictures st = [] @ zs \<longrightarrow>
        build_inv st [] \<lparr>bs_records = [], bs_associations = [], bs_last_writer = []\<rparr>"
      by (simp add: build_inv_def)
  next
    fix ys i b b'
    assume IH: "\<forall>zs. ns_pictures st = ys @ zs \<longrightarrow> build_inv st ys b" and step: "build_step run st i b = Inr b'"
    show "\<forall>zs. ns_pictures st = (ys @ [i]) @ zs \<longrightarrow> build_inv st (ys @ [i]) b'"
    proof (intro allI impI)
      fix zs assume pics: "ns_pictures st = (ys @ [i]) @ zs"
      then have "build_inv st ys b" using IH by simp
      then show "build_inv st (ys @ [i]) b'" using assms(1) pics step by (rule build_step_inv)
    qed
  qed
  then show ?thesis by simp
qed

lemma normalize_with_resolves:
  assumes "normalize_with clear events expected run = Inr (recs, pics)"
  shows "expected = JInt (int (length recs)) \<and>
    (\<forall>k < length recs. rr_pic (recs ! k) = k + 1 \<and> record_resolves (take k recs) (recs ! k)) \<and>
    map (\<lambda>a. (as_pic a, as_poc a)) pics = map (\<lambda>r. (rr_pic r, rr_poc r)) recs"
proof -
  obtain n r st bs where n: "hc_integer 1 MAX_PICTURES expected = Inr n"
    and walk: "walk_events clear events n = Inr st" and fin: "finish_walk n st = Inr ()"
    and build: "rfold (build_step r st) (ns_pictures st)
      \<lparr>bs_records = [], bs_associations = [], bs_last_writer = []\<rparr> = Inr bs"
    and eq: "Inr (bs_records bs, bs_associations bs) = (Inr (recs, pics) :: (ref_record list \<times> association list) py)"
    using assms unfolding normalize_with_def by (elim rbind_InrE) (metis unit.exhaust)
  have "build_inv st (ns_pictures st) bs" using walk_events_inv [OF walk] build by (rule build_inv_all)
  moreover have "int (length (ns_pictures st)) = n"
    using fin unfolding finish_walk_def by (elim rbind_InrE) (simp add: require_Inr)
  ultimately show ?thesis using n eq unfolding build_inv_def by (auto simp: hc_integer_Inr)
qed

text \<open>
  C18. Safety of the reference records: when the adapter accepts a trace (with or without the change of
  the lifecycle copy), it returns exactly the expected number of records, numbered in submission order,
  and every record resolves in the records before it: each DPB entry names a capture buffer, other than
  the picture's own destination, whose most recent earlier writer has exactly the stated picture order
  count; the entries are numbered from 0 and every reference list names entries of that DPB. The
  association rows carry the pictures and orders of the records.
\<close>
theorem normalized_references_resolve:
  assumes "normalize_with clear events expected run = Inr (recs, pics)"
  shows "expected = JInt (int (length recs)) \<and>
    (\<forall>k < length recs. rr_pic (recs ! k) = k + 1 \<and> record_resolves (take k recs) (recs ! k)) \<and>
    map (\<lambda>a. (as_pic a, as_poc a)) pics = map (\<lambda>r. (rr_pic r, rr_poc r)) recs"
  using assms by (rule normalize_with_resolves)

subsection \<open>The lifecycle copy agrees with the adapter\<close>

abbreviation set_out :: "(int, int) dict \<Rightarrow> norm_state \<Rightarrow> norm_state" where
  "set_out x st \<equiv> st\<lparr>ns_output_buffers := x\<rparr>"

definition same_but_out :: "norm_state \<Rightarrow> norm_state \<Rightarrow> bool" where
  "same_but_out st st' \<longleftrightarrow> (\<exists>x. st' = set_out x st)"

lemma same_but_out_refl [simp]: "same_but_out st st"
  unfolding same_but_out_def by (rule exI [of _ "ns_output_buffers st"]) simp

lemma same_but_outI [intro]: "same_but_out (set_out x st) (set_out y st)"
  unfolding same_but_out_def by (rule exI [of _ y]) simp

lemmas push_rbind = rbind_assoc if_distrib [of "\<lambda>r. rbind r g" for g] prod.case_distrib [of "\<lambda>r. rbind r g" for g]
  option.case_distrib [of "\<lambda>r. rbind r g" for g]

lemma setdefault_out:
  "setdefault_request reqfd (set_out x st) = (set_out x (fst (setdefault_request reqfd st)), snd (setdefault_request reqfd st))"
  by (simp add: setdefault_request_def split: option.split)

lemma set_obj_out: "set_obj i r (set_out x st) = set_out x (set_obj i r st)"
  by (simp add: set_obj_def)

lemmas out_congs = if_cong option.case_cong rbind_cong

lemma step_alloc_out: "step_alloc e (set_out x st) = rbind (step_alloc e st) (\<lambda>s. Inr (set_out x s))"
  by (cases st) (simp add: step_alloc_def push_rbind cong: out_congs)

lemma step_close_out: "step_close fd e (set_out x st) = rbind (step_close fd e st) (\<lambda>s. Inr (set_out x s))"
  by (cases st) (simp add: step_close_def push_rbind cong: out_congs)

lemma step_controls_out: "step_controls e (set_out x st) = rbind (step_controls e st) (\<lambda>s. Inr (set_out x s))"
  by (simp add: step_controls_def push_rbind Let_def case_prod_beta setdefault_out set_obj_out cong: out_congs)

lemma queue_request_out:
  "queue_request n i (set_out x st) = rbind (queue_request n i st) (\<lambda>s. Inr (set_out x s))"
  by (cases st) (simp add: queue_request_def push_rbind Let_def set_obj_def cong: out_congs)

lemma out_requests: "(set_out x st)\<lparr>ns_requests := r\<rparr> = set_out x (st\<lparr>ns_requests := r\<rparr>)"
  by (cases st) simp

lemma step_request_out:
  "step_request n b e (set_out x st) = rbind (step_request n b e st) (\<lambda>s. Inr (set_out x s))"
  by (simp add: step_request_def push_rbind queue_request_out out_requests cong: out_congs)

lemma out_capture: "(set_out x st)\<lparr>ns_capture_buffers := r\<rparr> = set_out x (st\<lparr>ns_capture_buffers := r\<rparr>)"
  by (cases st) simp

lemma step_qbuf_same:
  assumes "step_qbuf e st = Inr a" and "step_qbuf e (set_out x st) = Inr b"
  shows "same_but_out a b"
  using assms unfolding step_qbuf_def same_but_out_def
  by (elim rbind_InrE) (auto simp: Let_def case_prod_beta setdefault_out set_obj_out out_capture elim!: rbind_InrE split: if_splits)

lemma step_dqbuf_same:
  assumes "step_dqbuf e st = Inr a" and "step_dqbuf e (set_out x st) = Inr b"
  shows "same_but_out a b"
  using assms unfolding step_dqbuf_def same_but_out_def
  by (elim rbind_InrE) (auto simp: set_obj_out out_capture elim!: rbind_InrE split: if_splits)

lemma step_streamoff_same:
  assumes "step_streamoff False n e st = Inr a" and "step_streamoff True n e (set_out x st) = Inr b"
  shows "same_but_out a b"
  using assms unfolding step_streamoff_def same_but_out_def by (cases st) (auto elim!: rbind_InrE)

lemma same_of_commutes:
  assumes "f (set_out x st) = rbind (f st) (\<lambda>s. Inr (set_out x s))" and "f st = Inr a" and "f (set_out x st) = Inr b"
  shows "same_but_out a b"
  using assms by (auto simp: same_but_out_def)

lemma step_ioctl_same:
  assumes "step_ioctl False n op e st = Inr a" and "step_ioctl True n op e (set_out x st) = Inr b"
  shows "same_but_out a b"
proof (cases rule: step_ioctl_dispatch [of n op e])
  case skip
  with assms have "a = st" "b = set_out x st" by blast+
  then show ?thesis by (auto simp: same_but_out_def)
next
  case off
  then show ?thesis using assms step_streamoff_same by blast
next
  case ctl
  then show ?thesis using assms same_of_commutes [where f = "step_controls e"] step_controls_out by blast
next
  case qbuf
  then show ?thesis using assms step_qbuf_same by blast
next
  case dqbuf
  then show ?thesis using assms step_dqbuf_same by blast
qed

lemma same_branch:
  assumes "(if P then f else if Q then g else if R then Inr s else h) = Inr a"
    and "(if P then f' else if Q then g' else if R then Inr s' else h') = Inr b"
  shows "f = Inr a \<and> f' = Inr b \<or> g = Inr a \<and> g' = Inr b \<or> a = s \<and> b = s' \<or> h = Inr a \<and> h' = Inr b"
  using assms by (auto split: if_splits)

lemma norm_step_same:
  assumes "same_but_out st st'" and "norm_step False fd s n ie st = Inr a" and "norm_step True fd s n ie st' = Inr b"
  shows "same_but_out a b"
proof -
  obtain x where x: "st' = set_out x st" using assms(1) by (auto simp: same_but_out_def)
  obtain index e where ie: "ie = (index, e)" by (cases ie)
  obtain s1 where s1: "step_alloc e st = Inr s1" using assms(2) unfolding norm_step_def ie by (auto elim!: rbind_InrE)
  show ?thesis
  proof (cases "index \<le> s")
    case True
    then show ?thesis using assms(2,3) s1 unfolding norm_step_def ie x by (auto simp: step_alloc_out same_but_out_def)
  next
    case False
    obtain s2 where s2: "step_close fd e s1 = Inr s2"
      using assms(2) s1 False unfolding norm_step_def ie by (auto elim!: rbind_InrE)
    let ?op = "case jv e ''ioctl'' of JStr s \<Rightarrow> s | _ \<Rightarrow> []"
    have "step_request n False e s2 = Inr a \<and> step_request n False e (set_out x s2) = Inr b \<or>
      step_request n True e s2 = Inr a \<and> step_request n True e (set_out x s2) = Inr b \<or>
      a = s2 \<and> b = set_out x s2 \<or>
      step_ioctl False n ?op e s2 = Inr a \<and> step_ioctl True n ?op e (set_out x s2) = Inr b"
      by (rule same_branch) (use assms(2,3) s1 s2 False in \<open>simp_all only: norm_step_def ie x Let_def prod.case rbind_simps
        step_alloc_out step_close_out if_False simp_thms\<close>)
    then consider "a = s2 \<and> b = set_out x s2"
      | r where "step_request n r e s2 = Inr a \<and> step_request n r e (set_out x s2) = Inr b"
      | op where "step_ioctl False n op e s2 = Inr a \<and> step_ioctl True n op e (set_out x s2) = Inr b"
      by blast
    then show ?thesis
    proof cases
      case 1
      then show ?thesis by (auto simp: same_but_out_def)
    next
      case 2
      then show ?thesis using same_of_commutes [where f = "step_request n r e"] step_request_out by blast
    next
      case 3
      then show ?thesis using step_ioctl_same by blast
    qed
  qed
qed

lemma rfold_relation:
  assumes "rfold f xs s = Inr s'" and "rfold g xs t = Inr t'" and "R s t"
    and "\<And>x s t s' t'. R s t \<Longrightarrow> f x s = Inr s' \<Longrightarrow> g x t = Inr t' \<Longrightarrow> R s' t'"
  shows "R s' t'"
  using assms(1-3)
proof (induction xs arbitrary: s t)
  case (Cons x xs)
  from Cons.prems obtain u v where "f x s = Inr u" "rfold f xs u = Inr s'" "g x t = Inr v" "rfold g xs v = Inr t'"
    by (auto elim!: rbind_InrE)
  then show ?case using Cons.IH assms(4) [OF Cons.prems(3)] by blast
qed simp

lemma build_out: "build_step r (set_out x st) = build_step r st"
  by (intro ext) (simp add: build_step_def build_record_def dpb_entry_def [abs_def] Let_def cong: option.case_cong)

text \<open>
  C19. Equivalence of the lifecycle copy with the adapter it was copied from: on every trace that both
  accept, the two return the same records and associations, so returning the source buffers at a
  stream-off changes only which traces are accepted.
\<close>
theorem lifecycle_agrees:
  assumes "normalize events expected run = Inr a" and "lifecycle_normalize events expected run = Inr b"
  shows "a = b"
proof -
  define b0 where "b0 = \<lparr>bs_records = [], bs_associations = [], bs_last_writer = []\<rparr>"
  obtain n r where n: "hc_integer 1 MAX_PICTURES expected = Inr n" and r: "run_ok run = Inr r"
    using assms(1) unfolding normalize_def normalize_with_def by (auto elim!: rbind_InrE)
  obtain st st' where w: "walk_events False events n = Inr st" "walk_events True events n = Inr st'"
    and out: "finish_walk n st = Inr ()" "finish_walk n st' = Inr ()"
    and res: "rbind (rfold (build_step r st) (ns_pictures st) b0) (\<lambda>bs. Inr (bs_records bs, bs_associations bs)) = Inr a"
      "rbind (rfold (build_step r st') (ns_pictures st') b0) (\<lambda>bs. Inr (bs_records bs, bs_associations bs)) = Inr b"
    using assms n r unfolding normalize_def lifecycle_normalize_def normalize_with_def b0_def by (auto elim!: rbind_InrE)
  obtain fd s where c: "context_start events = Inr (fd, s)"
    using w(1) unfolding walk_events_def by (auto elim!: rbind_InrE)
  have "same_but_out st st'"
    by (rule rfold_relation [where R = same_but_out, OF _ _ same_but_out_refl])
       (use w c in \<open>auto simp: walk_events_def intro: norm_step_same\<close>)
  then obtain x where "st' = set_out x st" by (auto simp: same_but_out_def)
  then show ?thesis using res by (simp add: build_out)
qed

subsection \<open>Output order\<close>

lemma frame_of_total:
  assumes "distinct fs" and "length fs = length pictures" and "set fs = set (map as_system_frame_number pictures)"
  shows "distinct (map as_system_frame_number pictures) \<and> mset (map (\<lambda>f. the (frame_of pictures f)) fs) = mset pictures"
proof -
  let ?k = as_system_frame_number
  have d: "distinct (map ?k pictures)"
    using assms by (metis card_distinct distinct_card length_map)
  have the_frame: "the (frame_of pictures (?k p)) = p" if "p \<in> set pictures" for p
  proof -
    have "\<exists>q. frame_of pictures (?k p) = Some q"
      using that by (cases "frame_of pictures (?k p)") (auto simp: frame_of_def find_None_iff)
    then obtain q where q: "frame_of pictures (?k p) = Some q" by blast
    then have "q \<in> set pictures \<and> ?k q = ?k p" unfolding frame_of_def using find_SomeD by fastforce
    with d that have "q = p" by (metis distinct_map inj_onD)
    with q show ?thesis by simp
  qed
  have "mset fs = mset (map ?k pictures)" using assms(1,3) d by (metis set_eq_iff_mset_eq_distinct)
  then have "mset (map (\<lambda>f. the (frame_of pictures f)) fs) = mset (map (\<lambda>p. the (frame_of pictures (?k p))) pictures)"
    using arg_cong [of "mset fs" _ "image_mset (\<lambda>f. the (frame_of pictures f))"]
    by (simp add: image_mset.compositionality comp_def)
  also have "\<dots> = mset pictures" using the_frame by (simp add: map_idI)
  finally show ?thesis using d by blast
qed

text \<open>
  The output association loses and invents no picture: when it accepts a log, its rows are numbered
  0, 1, 2, ... in the order of the log and the pictures they carry are a permutation of the decoded
  pictures, whose frame numbers are then known to be distinct.
\<close>
theorem associate_permutation:
  assumes "associate logtext pictures decoded_frames tracee_status = Inr rows"
  shows "map fst rows = [0..<length pictures] \<and> mset (map snd rows) = mset pictures \<and>
    distinct (map as_system_frame_number pictures) \<and>
    decoded_frames = JInt (int (length pictures)) \<and> tracee_status = JInt 0"
proof -
  obtain n status found u v w where n: "hc_integer 1 MAX_PICTURES decoded_frames = Inr n"
    and status: "hc_integer 0 255 tracee_status = Inr status"
    and found: "rfold output_line (splitlines logtext) [] = Inr found"
    and req: "require (status = 0 \<and> n = int (length pictures))
       ''association requires successful pipeline and independent full frame count'' = Inr u"
      "require (length (remdups (map fst found)) = 1 \<and> length (map snd found) = length pictures \<and> distinct (map snd found))
       ''missing/duplicate/multiple-context output events'' = Inr v"
      "require (set (map snd found) = set (map as_system_frame_number pictures))
       ''output/decode picture identities differ'' = Inr w"
    and rows: "Inr (zip [0..<length (map snd found)] (map (\<lambda>f. the (frame_of pictures f)) (map snd found))) = (Inr rows :: _ py)"
    using assms unfolding associate_def Let_def by (elim rbind_InrE) (rule that)
  note ids = req [unfolded require_Inr]
  have rows: "rows = zip [0..<length (map snd found)] (map (\<lambda>f. the (frame_of pictures f)) (map snd found))"
    using rows by simp
  from frame_of_total [of "map snd found" pictures] ids show ?thesis
    using n status unfolding rows by (auto simp: hc_integer_Inr)
qed

subsection \<open>A two-picture trace\<close>

text \<open>
  An intra picture in capture buffer 4, then a P picture in capture buffer 9 that references it; the
  second source buffer is dequeued in \<open>demo_events True\<close> and returned by the stream-off otherwise.
\<close>

definition demo_ioctl :: "string \<Rightarrow> int \<Rightarrow> tr_event \<Rightarrow> tr_event" where
  "demo_ioctl op fd rest = [(''ioctl'', JStr op), (''fd'', JInt fd)] @ rest"

definition demo_buffer :: "json \<Rightarrow> int \<Rightarrow> int \<Rightarrow> json" where
  "demo_buffer kind bi usec = JObj [(''v4l2_buffer'', JObj [(''type'', kind), (''index'', JInt bi),
     (''flags'', JStr ''V4L2_BUF_FLAG_REQUEST_FD|V4L2_BUF_FLAG_TIMESTAMP_COPY''), (''request_fd'', JInt (20 + usec)),
     (''timestamp_ns'', JInt (usec * 1000)), (''timestamp'', JObj [(''tv_sec'', JInt 0), (''tv_usec'', JInt usec)]),
     (''length'', JInt 1), (''m'', JObj [(''planes'', JList [JObj [(''bytesused'', JInt 64)]])])])]"

definition demo_control :: "string \<Rightarrow> int \<Rightarrow> tr_event \<Rightarrow> json" where
  "demo_control name n p = JObj [(''id'', JStr (CID @ name)), (''size'', JInt n), (payload_key name, JObj p)]"

definition demo_params :: "int \<Rightarrow> int \<Rightarrow> tr_event" where
  "demo_params poc n = [(''flags'', JStr []), (''pic_order_cnt_val'', JInt poc),
     (''dpb'', JList (replicate 16 (JObj [(''timestamp'', JInt 1000), (''pic_order_cnt_val'', JInt 0),
        (''flags'', JStr []), (''field_pic'', JInt 0)]))),
     (''num_active_dpb_entries'', JInt n),
     (''num_poc_st_curr_before'', JInt n), (''poc_st_curr_before'', JList (replicate 16 (JInt 0))),
     (''num_poc_st_curr_after'', JInt 0), (''poc_st_curr_after'', JList (replicate 16 (JInt 0))),
     (''num_poc_lt_curr'', JInt 0), (''poc_lt_curr'', JList (replicate 16 (JInt 0)))]"

definition demo_slice :: "int \<Rightarrow> tr_event" where
  "demo_slice ty = [(''flags'', JStr []), (''slice_type'', JInt ty), (''num_ref_idx_l0_active_minus1'', JInt 0),
     (''nal_unit_type'', JInt 1), (''ref_idx_l0'', JList (replicate 16 (JInt 0))),
     (''ref_idx_l1'', JList (replicate 16 (JInt 0)))]"

definition demo_controls :: "int \<Rightarrow> json list \<Rightarrow> tr_event" where
  "demo_controls reqfd cs = demo_ioctl ''VIDIOC_S_EXT_CTRLS'' 7 [(''from_userspace'', JObj [(''v4l2_ext_controls'',
     JObj [(''which'', JStr ''V4L2_CTRL_WHICH_REQUEST_VAL''), (''request_fd'', JInt reqfd),
       (''count'', JInt (int (length cs))), (''controls'', JList cs)])])]"

definition demo_events :: "bool \<Rightarrow> tr_event list" where
  "demo_events dq =
     [[(''fd'', JInt 7), (''open'', JObj [])],
      demo_ioctl ''MEDIA_IOC_REQUEST_ALLOC'' 8 [(''from_driver'', JObj [(''request_fd'', JInt 21)])],
      demo_ioctl ''MEDIA_IOC_REQUEST_ALLOC'' 8 [(''from_driver'', JObj [(''request_fd'', JInt 22)])],
      demo_controls 21 [demo_control ''SPS'' 40 [(''flags'', JStr [])],
        demo_control ''DECODE_PARAMS'' 328 (demo_params 0 0), demo_control ''SLICE_PARAMS'' 280 (demo_slice 2)],
      demo_ioctl ''VIDIOC_QBUF'' 7 [(''from_userspace'', demo_buffer OUT_TYPE 0 1)],
      demo_ioctl ''VIDIOC_QBUF'' 7 [(''from_userspace'', demo_buffer CAP_TYPE 4 0)],
      demo_ioctl ''VIDIOC_QBUF'' 7 [(''from_userspace'', demo_buffer CAP_TYPE 9 0)],
      demo_ioctl ''MEDIA_REQUEST_IOC_QUEUE'' 21 [],
      demo_ioctl ''VIDIOC_DQBUF'' 7 [(''from_driver'', demo_buffer OUT_TYPE 0 1)],
      demo_ioctl ''VIDIOC_DQBUF'' 7 [(''from_driver'', demo_buffer CAP_TYPE 4 1)],
      demo_controls 22 [demo_control ''DECODE_PARAMS'' 328 (demo_params 2 1),
        demo_control ''SLICE_PARAMS'' 280 (demo_slice 1)],
      demo_ioctl ''VIDIOC_QBUF'' 7 [(''from_userspace'', demo_buffer OUT_TYPE 0 2)],
      demo_ioctl ''MEDIA_REQUEST_IOC_QUEUE'' 22 [],
      demo_ioctl ''VIDIOC_DQBUF'' 7 [(''from_driver'', demo_buffer CAP_TYPE 9 2)]] @
     (if dq then [demo_ioctl ''VIDIOC_DQBUF'' 7 [(''from_driver'', demo_buffer OUT_TYPE 0 2)]] else []) @
     [demo_ioctl ''VIDIOC_STREAMOFF'' 7 [(''from_userspace'', JObj [(''type'', OUT_TYPE)])],
      [(''fd'', JInt 7), (''close'', JObj [])]]"

definition demo_run :: json where
  "demo_run = JStr ''0123456789abcdef''"

lemma all_less_two: "(\<forall>k < Suc (Suc 0). P k) \<longleftrightarrow> P 0 \<and> P (Suc 0)"
  by (auto simp: less_Suc_eq)

definition demo_result :: "(ref_record list \<times> association list) py \<Rightarrow> bool" where
  "demo_result r \<longleftrightarrow> (case r of
     Inr (recs, pics) \<Rightarrow> map (\<lambda>r. map dr_buf (rr_dpb r)) recs = [[], [4]] \<and> map as_system_frame_number pics = [1, 2]
   | Inl _ \<Rightarrow> False)"

lemma demo_resultE:
  assumes "demo_result r"
  obtains recs pics where "r = Inr (recs, pics)" "map (\<lambda>r. map dr_buf (rr_dpb r)) recs = [[], [4]]"
    "map as_system_frame_number pics = [1, 2]"
  using assms by (auto simp: demo_result_def split: sum.splits prod.splits)

lemma demo_accepted: "demo_result (normalize (demo_events True) (JInt 2) demo_run)"
  by code_simp

lemma demo_accepted_lifecycle: "demo_result (lifecycle_normalize (demo_events True) (JInt 2) demo_run)"
  by code_simp

lemma demo_accepted_returned: "demo_result (normalize_with True (demo_events False) (JInt 2) demo_run)"
  by code_simp

text \<open>The trace whose last source buffer is returned by the stream-off: its P picture references buffer 4.\<close>

theorem normalized_references_resolve_witness:
  "\<exists>recs pics d. normalize_with True (demo_events False) (JInt 2) demo_run = Inr (recs, pics) \<and> length recs = 2 \<and>
     d \<in> set (rr_dpb (recs ! 1)) \<and> dr_buf d = 4 \<and> record_resolves [recs ! 0] (recs ! 1)"
proof -
  obtain recs pics where r: "normalize_with True (demo_events False) (JInt 2) demo_run = Inr (recs, pics)"
    and shape: "map (\<lambda>r. map dr_buf (rr_dpb r)) recs = [[], [4]]" using demo_accepted_returned by (rule demo_resultE)
  then obtain r0 r1 d where recs: "recs = [r0, r1]" "rr_dpb r1 = [d]" "dr_buf d = 4" by (auto simp: map_eq_Cons_conv)
  from normalized_references_resolve [OF r] have "record_resolves [r0] r1" by (auto simp: recs all_less_two)
  with r recs show ?thesis by (intro exI [of _ recs] exI [of _ pics] exI [of _ d]) simp
qed

theorem lifecycle_agrees_witness:
  "\<exists>recs pics. normalize (demo_events True) (JInt 2) demo_run = Inr (recs, pics) \<and>
     lifecycle_normalize (demo_events True) (JInt 2) demo_run = Inr (recs, pics) \<and> length recs = 2"
proof -
  obtain recs pics where a: "normalize (demo_events True) (JInt 2) demo_run = Inr (recs, pics)"
    and "map (\<lambda>r. map dr_buf (rr_dpb r)) recs = [[], [4]]" using demo_accepted by (rule demo_resultE)
  then have "length recs = 2" using arg_cong [of _ _ length] by fastforce
  moreover obtain recs' pics' where b: "lifecycle_normalize (demo_events True) (JInt 2) demo_run = Inr (recs', pics')"
    using demo_accepted_lifecycle by (rule demo_resultE)
  ultimately show ?thesis using a b lifecycle_agrees [OF a b] by blast
qed

definition demo_log :: string where
  "demo_log = ''gst_v4l2_codec_h265_dec_output_picture:<d0> Output picture 2'' @ [CHR 0x0A] @
     ''gst_v4l2_codec_h265_dec_output_picture:<d0> Output picture 1''"

definition demo_pictures :: "association list" where
  "demo_pictures = [\<lparr>as_pic = 1, as_poc = 0, as_system_frame_number = 1\<rparr>, \<lparr>as_pic = 2, as_poc = 2, as_system_frame_number = 2\<rparr>]"

lemma demo_associate: "associate demo_log demo_pictures (JInt 2) (JInt 0) = Inr (zip [0, 1] (rev demo_pictures))"
  by code_simp

theorem associate_permutation_witness:
  "\<exists>rows. associate demo_log demo_pictures (JInt 2) (JInt 0) = Inr rows \<and> map snd rows = rev demo_pictures \<and>
     map fst rows = [0..<length demo_pictures]"
  using associate_permutation [OF demo_associate] demo_associate by (auto simp: demo_pictures_def)

end
