(* ===== verification/Encoded_Inputs.thy ===== *)
theory Encoded_Inputs
  imports Reports Hevc_Controls
begin

text \<open>
  The evidence beside the control payloads, \<open>extra_evidence\<close> of
  \<open>src/experiments/hevc-full-controls/normalize.py\<close>: the decode mode and start code that the driver
  reported, and a digest of the bytes of each source buffer, taken from the dump that the tracer wrote
  just before the buffer was queued.

  \<^verbatim>\<open>sha256\<close> is the argument \<open>sha\<close>. The ValueError of \<^verbatim>\<open>bytes.fromhex\<close> is a rejection like those
  of the module, which are ValueErrors too.
\<close>

subsection \<open>Dumps\<close>

fun bytes_fromhex :: "string \<Rightarrow> 8 word list py" where
  "bytes_fromhex [] = Inr []"
| "bytes_fromhex (c # cs) =
     (if c = CHR '' '' then bytes_fromhex cs
      else case cs of
        [] \<Rightarrow> Inl (Reject ''non-hexadecimal number found in fromhex() arg'')
      | d # ds \<Rightarrow>
          if hex_char c \<and> hex_char d
          then rbind (bytes_fromhex ds) (\<lambda>bs. Inr (of_nat (16 * hex_digit_value c + hex_digit_value d) # bs))
          else Inl (Reject ''non-hexadecimal number found in fromhex() arg''))"

definition hex_line :: "json \<Rightarrow> bool" where
  "hex_line v = (case v of JStr s \<Rightarrow> s \<noteq> [] \<and> list_all (\<lambda>c. hex_char c \<or> c = CHR '' '') s | _ \<Rightarrow> False)"

definition line_text :: "json \<Rightarrow> string" where
  "line_text v = (case v of JStr s \<Rightarrow> s | _ \<Rightarrow> [])"

text \<open>The buffer index and the bytes of a dump event.\<close>

definition dump_payload :: "tr_event \<Rightarrow> (int \<times> 8 word list) py" where
  "dump_payload e =
     rbind (dsub e ''mem_array'') (\<lambda>lines.
     rbind (case lines of JList xs \<Rightarrow> (if xs \<noteq> [] \<and> list_all hex_line xs then Inr xs else Inl (Reject ''invalid encoded dump''))
            | _ \<Rightarrow> Inl (Reject ''invalid encoded dump'')) (\<lambda>xs.
     rbind (bytes_fromhex (concat (map line_text xs))) (\<lambda>bs.
     rbind (require_and [Inr (0 < length bs), rbind (rbind (dsub e ''bytesused'') (hc_integer 0 (16 * 1024 * 1024))) (\<lambda>n.
       Inr (int (length bs) = n))] ''incomplete encoded dump'') (\<lambda>_.
     rbind (rbind (dsub e ''index'') hc_u32) (\<lambda>i. Inr (i, bs))))))"

subsection \<open>The walk\<close>

record input_dump =
  du_index :: int
  du_bytes :: nat
  du_sha :: string

record input_hash =
  ih_picture :: nat
  ih_bytes :: nat
  ih_sha :: string

record mode_seen =
  mo_value :: json
  mo_by :: json

record inputs_state =
  in_exports :: "(int, int) dict"
  in_modes :: "(string, mode_seen) dict"
  in_hashes :: "input_hash list"
  in_dump :: "input_dump option"
  in_queued :: bool

definition inputs_init :: inputs_state where
  "inputs_init = \<lparr>in_exports = [], in_modes = [], in_hashes = [], in_dump = None, in_queued = False\<rparr>"

definition MODE_CIDS :: "(string, json) dict" where
  "MODE_CIDS = [(CID @ ''DECODE_MODE'', JStr ''V4L2_STATELESS_HEVC_DECODE_MODE_FRAME_BASED''),
     (CID @ ''START_CODE'', JStr ''V4L2_STATELESS_HEVC_START_CODE_NONE'')]"

definition REQUEST_WHICH :: json where "REQUEST_WHICH = JStr ''V4L2_CTRL_WHICH_REQUEST_VAL''"
definition CURRENT_WHICH :: json where "CURRENT_WHICH = JStr ''V4L2_CTRL_WHICH_CUR_VAL''"

definition candidate_fd :: "tr_event \<Rightarrow> json list \<Rightarrow> json list py" where
  "candidate_fd e acc =
     (if jv e ''ioctl'' \<noteq> JStr ''VIDIOC_S_EXT_CTRLS'' then Inr acc
      else rbind (ext_controls e) (\<lambda>(ext, cs).
           rbind (dsub ext ''which'') (\<lambda>which.
           if which = REQUEST_WHICH \<and> dhas cs (CID @ ''DECODE_PARAMS'') then rbind (dsub e ''fd'') (\<lambda>fd. Inr (acc @ [fd])) else Inr acc)))"

definition is_dump :: "tr_event \<Rightarrow> bool" where
  "is_dump e \<longleftrightarrow> jv e ''mem_dump'' = OUT_TYPE"

definition find_export :: "inputs_state \<Rightarrow> json \<Rightarrow> json" where
  "find_export st fd = (case find (\<lambda>(k, _). py_eq (JInt k) fd) (in_exports st) of None \<Rightarrow> JNull | Some (_, i) \<Rightarrow> JInt i)"

definition note_close :: "tr_event \<Rightarrow> inputs_state \<Rightarrow> inputs_state py" where
  "note_close e st =
     (if dhas e ''close'' \<and> \<not> dhas e ''errno''
      then rbind (py_hash (jv e ''fd'')) (\<lambda>_.
           Inr (st\<lparr>in_exports := filter (\<lambda>(k, _). \<not> py_eq (JInt k) (jv e ''fd'')) (in_exports st)\<rparr>))
      else Inr st)"

definition note_export :: "tr_event \<Rightarrow> inputs_state \<Rightarrow> inputs_state py" where
  "note_export e st =
     (if jv e ''ioctl'' = JStr ''VIDIOC_EXPBUF'' \<and> \<not> dhas e ''errno''
      then rbind (arguments e ''from_driver'' ''v4l2_exportbuffer'') (\<lambda>exp.
           rbind (dsub exp ''type'') (\<lambda>kind.
           if kind \<noteq> OUT_TYPE then Inr st
           else rbind (rbind (dsub exp ''plane'') (\<lambda>p. require (py_eq p (JInt 0)) ''multi-plane encoded export'')) (\<lambda>_.
                rbind (rbind (dsub exp ''index'') hc_u32) (\<lambda>i.
                rbind (rbind (dsub exp ''fd'') hc_u32) (\<lambda>k.
                Inr (st\<lparr>in_exports := dset k i (in_exports st)\<rparr>))))))
      else Inr st)"

definition note_mode :: "json \<Rightarrow> string \<times> tr_event \<Rightarrow> inputs_state \<Rightarrow> inputs_state py" where
  "note_mode op = (\<lambda>(cid, c) st.
     rbind (require_and
       [Inr (dhas MODE_CIDS cid),
        rbind (dsub c ''value'') (\<lambda>v. Inr (case dget MODE_CIDS cid of None \<Rightarrow> False | Some w \<Rightarrow> py_eq v w)),
        rbind (dsub c ''size'') (\<lambda>s. Inr (s = JInt 0))] ''unsupported mode'') (\<lambda>_.
     rbind (require (\<not> dhas (in_modes st) cid) ''duplicate mode observation'') (\<lambda>_.
     rbind (dsub c ''value'') (\<lambda>v.
     Inr (st\<lparr>in_modes := dset cid \<lparr>mo_value = v, mo_by = op\<rparr> (in_modes st)\<rparr>)))))"

definition note_modes :: "tr_event \<Rightarrow> inputs_state \<Rightarrow> inputs_state py" where
  "note_modes e st = (let op = jv e ''ioctl'' in
     if (op = JStr ''VIDIOC_S_EXT_CTRLS'' \<or> op = JStr ''VIDIOC_G_EXT_CTRLS'') \<and> \<not> dhas e ''errno''
     then rbind (dsub e ''from_driver'') (\<lambda>drv.
          rbind (ext_controls [(''from_userspace'', drv)]) (\<lambda>(ext, cs).
          if \<not> list_ex (\<lambda>(cid, _). dhas MODE_CIDS cid) cs then Inr st
          else rbind (require_and [Inr (\<not> in_queued st), rbind (dsub ext ''which'') (\<lambda>w. Inr (w = CURRENT_WHICH))]
                 ''late/request mode operation'') (\<lambda>_.
               rfold (note_mode op) cs st)))
     else Inr st)"

definition note_dump :: "(8 word list \<Rightarrow> string) \<Rightarrow> tr_event \<Rightarrow> inputs_state \<Rightarrow> inputs_state py" where
  "note_dump sha e st =
     (if is_dump e
      then rbind (require (in_dump st = None) ''orphan/duplicate payload dump'') (\<lambda>_.
           rbind (dump_payload e) (\<lambda>(i, bs).
           Inr (st\<lparr>in_dump := Some \<lparr>du_index = i, du_bytes = length bs, du_sha = sha bs\<rparr>\<rparr>)))
      else Inr st)"

definition queue_extent :: "tr_event \<Rightarrow> input_dump \<Rightarrow> unit py" where
  "queue_extent b d =
     rbind (rbind (dsub b ''m'') (\<lambda>m. sub m ''planes'')) (\<lambda>planes.
     require_and
       [rbind (dsub b ''index'') (\<lambda>i. Inr (py_eq i (JInt (du_index d)))),
        rbind (dsub b ''length'') (\<lambda>l. rbind (py_len planes) (\<lambda>n. Inr (py_eq l (JInt (int n)) \<and> n = 1))),
        rbind (py_at planes (JInt 0)) (\<lambda>p. eq_sub p ''bytesused'' (JInt (int (du_bytes d)))),
        rbind (py_at planes (JInt 0)) (\<lambda>p. eq_sub p ''data_offset'' (JInt 0))] ''payload dump does not match queued extent'')"

definition note_queue :: "tr_event \<Rightarrow> inputs_state \<Rightarrow> inputs_state py" where
  "note_queue e st =
     (if jv e ''ioctl'' = JStr ''VIDIOC_QBUF''
      then rbind (arguments e ''from_userspace'' ''v4l2_buffer'') (\<lambda>b.
           rbind (dsub b ''type'') (\<lambda>kind.
           if kind \<noteq> OUT_TYPE then Inr st
           else
             rbind (require (\<not> dhas e ''errno'' \<and> in_dump st \<noteq> None) ''failed/unobserved source queue'') (\<lambda>_.
             let d = the (in_dump st) in
             rbind (queue_extent b d) (\<lambda>_.
             Inr (st\<lparr>in_hashes := in_hashes st @ [\<lparr>ih_picture = length (in_hashes st) + 1, ih_bytes = du_bytes d, ih_sha = du_sha d\<rparr>],
                     in_dump := None, in_queued := True\<rparr>)))))
      else Inr st)"

text \<open>A dump belongs to the context or to a buffer exported from it; other events are the context's own.\<close>

definition inputs_step :: "(8 word list \<Rightarrow> string) \<Rightarrow> json \<Rightarrow> tr_event \<Rightarrow> inputs_state \<Rightarrow> inputs_state py" where
  "inputs_step sha fd e st0 =
     rbind (note_close e st0) (\<lambda>st.
     rbind (if is_dump e
            then if py_eq (jv e ''fd'') fd then Inr True
                 else rbind (py_hash (jv e ''fd'')) (\<lambda>_.
                      rbind (require (py_eq (find_export st (jv e ''fd'')) (jv e ''index''))
                        ''payload dump belongs to an unbound export/context'') (\<lambda>_. Inr True))
            else Inr (py_eq (jv e ''fd'') fd)) (\<lambda>mine.
     if \<not> mine then Inr st
     else rbind (note_export e st) (\<lambda>st.
          rbind (note_modes e st) (\<lambda>st.
          rbind (note_dump sha e st) (note_queue e)))))"

definition extra_evidence ::
  "(8 word list \<Rightarrow> string) \<Rightarrow> tr_event list \<Rightarrow> json \<Rightarrow> ((string, mode_seen) dict \<times> input_hash list) py" where
  "extra_evidence sha events expected =
     rbind (rfold candidate_fd events []) (\<lambda>fds.
     rbind (require_and [Inr (fds \<noteq> []), rbind (rall py_hash fds) (\<lambda>_. Inr (length (py_dedup fds []) = 1))]
       ''missing/multiple contexts'') (\<lambda>_.
     rbind (rfold (inputs_step sha (hd fds)) events inputs_init) (\<lambda>st.
     rbind (require (set (map fst (in_modes st)) = set (map fst MODE_CIDS) \<and> in_dump st = None \<and>
       py_eq (JInt (int (length (in_hashes st)))) expected) ''incomplete modes/input payloads'') (\<lambda>_.
     Inr (in_modes st, in_hashes st)))))"

subsection \<open>Digests belong to the queued bytes\<close>

text \<open>The events that queue a source buffer of the context.\<close>

definition is_source_queue :: "json \<Rightarrow> tr_event \<Rightarrow> bool" where
  "is_source_queue fd e \<longleftrightarrow> (is_dump e \<or> py_eq (jv e ''fd'') fd) \<and> jv e ''ioctl'' = JStr ''VIDIOC_QBUF'' \<and>
     (\<exists>b. arguments e ''from_userspace'' ''v4l2_buffer'' = Inr b \<and> dget b ''type'' = Some OUT_TYPE)"

definition hash_row :: "(8 word list \<Rightarrow> string) \<Rightarrow> nat \<Rightarrow> int \<times> 8 word list \<Rightarrow> input_hash" where
  "hash_row sha k = (\<lambda>(_, bs). \<lparr>ih_picture = k + 1, ih_bytes = length bs, ih_sha = sha bs\<rparr>)"

text \<open>The queued buffer has the dump's index and, in its single plane, exactly the dump's bytes.\<close>

definition queues_payload :: "tr_event \<Rightarrow> int \<times> 8 word list \<Rightarrow> bool" where
  "queues_payload e = (\<lambda>(i, bs). \<not> dhas e ''errno'' \<and> (\<exists>b m p. arguments e ''from_userspace'' ''v4l2_buffer'' = Inr b \<and>
     py_eq (jv b ''index'') (JInt i) \<and> dget b ''m'' = Some m \<and> sub m ''planes'' = Inr (JList [p]) \<and>
     (\<exists>v w. sub p ''bytesused'' = Inr v \<and> py_eq v (JInt (int (length bs))) \<and> sub p ''data_offset'' = Inr w \<and> py_eq w (JInt 0))))"

definition walk_inv ::
  "(8 word list \<Rightarrow> string) \<Rightarrow> tr_event list \<Rightarrow> tr_event list \<Rightarrow> inputs_state \<Rightarrow> (int \<times> 8 word list) list \<Rightarrow> bool" where
  "walk_inv sha dumps queues st ps \<longleftrightarrow> (let k = length (in_hashes st) in
     list_all2 (\<lambda>e p. dump_payload e = Inr p) dumps ps \<and>
     list_all2 queues_payload queues (take k ps) \<and>
     in_hashes st = map (\<lambda>j. hash_row sha j (ps ! j)) [0..<k] \<and>
     (case in_dump st of
        None \<Rightarrow> length ps = k
      | Some d \<Rightarrow> length ps = Suc k \<and> du_index d = fst (ps ! k) \<and> du_bytes d = length (snd (ps ! k)) \<and> du_sha d = sha (snd (ps ! k))))"

abbreviation inputs_inv :: "(8 word list \<Rightarrow> string) \<Rightarrow> json \<Rightarrow> tr_event list \<Rightarrow> inputs_state \<Rightarrow> (int \<times> 8 word list) list \<Rightarrow> bool" where
  "inputs_inv sha fd es \<equiv> walk_inv sha (filter is_dump es) (filter (is_source_queue fd) es)"

lemma quiet_steps:
  "note_close e st = Inr st' \<Longrightarrow> in_hashes st' = in_hashes st \<and> in_dump st' = in_dump st"
  "note_export e st = Inr st' \<Longrightarrow> in_hashes st' = in_hashes st \<and> in_dump st' = in_dump st"
  by (auto simp: note_close_def note_export_def elim!: rbind_InrE split: if_splits)

lemma note_mode_quiet: "note_mode op x st = Inr st' \<Longrightarrow> in_hashes st' = in_hashes st \<and> in_dump st' = in_dump st"
  by (auto simp: note_mode_def elim!: rbind_InrE split: prod.splits)

lemma note_modes_quiet:
  assumes "note_modes e st = Inr st'"
  shows "in_hashes st' = in_hashes st \<and> in_dump st' = in_dump st"
proof -
  have "in_hashes t' = in_hashes t \<and> in_dump t' = in_dump t" if "rfold (note_mode op) cs t = Inr t'" for op cs t t'
    using that
  proof (rule rfold_invariant [where P = "\<lambda>t'. in_hashes t' = in_hashes t \<and> in_dump t' = in_dump t"])
    fix x s s' assume "in_hashes s = in_hashes t \<and> in_dump s = in_dump t" "note_mode op x s = Inr s'"
    then show "in_hashes s' = in_hashes t \<and> in_dump s' = in_dump t" using note_mode_quiet by metis
  qed simp
  then show ?thesis using assms unfolding note_modes_def Let_def
    by (auto elim!: rbind_InrE split: if_splits prod.splits)
qed

lemma inputs_inv_same:
  "inputs_inv sha fd es st ps \<Longrightarrow> in_hashes st' = in_hashes st \<Longrightarrow> in_dump st' = in_dump st \<Longrightarrow> inputs_inv sha fd es st' ps"
  by (simp add: walk_inv_def)

text \<open>The dump half and the queue half of a step; an event may be both.\<close>

abbreviation half_inv :: "(8 word list \<Rightarrow> string) \<Rightarrow> json \<Rightarrow> tr_event list \<Rightarrow> tr_event \<Rightarrow> inputs_state \<Rightarrow> (int \<times> 8 word list) list \<Rightarrow> bool" where
  "half_inv sha fd es e \<equiv> walk_inv sha (filter is_dump (es @ [e])) (filter (is_source_queue fd) es)"

lemma note_dump_half:
  assumes "inputs_inv sha fd es st ps" and "note_dump sha e st = Inr st'"
  shows "\<exists>ps'. half_inv sha fd es e st' ps'"
proof (cases "is_dump e")
  case True
  then obtain i bs where p: "dump_payload e = Inr (i, bs)" "in_dump st = None"
    and st': "st' = st\<lparr>in_dump := Some \<lparr>du_index = i, du_bytes = length bs, du_sha = sha bs\<rparr>\<rparr>"
    using assms(2) by (auto simp: note_dump_def require_Inr elim!: rbind_InrE)
  let ?k = "length (in_hashes st)"
  have len: "length ps = ?k" and h: "in_hashes st = map (\<lambda>j. hash_row sha j (ps ! j)) [0..<?k]"
    using assms(1) p(2) by (auto simp: walk_inv_def Let_def)
  have "map (\<lambda>j. hash_row sha j (ps ! j)) [0..<?k] = map (\<lambda>j. hash_row sha j ((ps @ [(i, bs)]) ! j)) [0..<?k]"
    using len by (intro map_cong refl) (simp add: nth_append)
  with h have "in_hashes st = map (\<lambda>j. hash_row sha j ((ps @ [(i, bs)]) ! j)) [0..<?k]" by (rule trans)
  moreover have "list_all2 (\<lambda>e p. dump_payload e = Inr p) (filter is_dump (es @ [e])) (ps @ [(i, bs)])"
    using assms(1) True p(1) by (auto simp: walk_inv_def Let_def intro: list_all2_appendI)
  moreover have "(ps @ [(i, bs)]) ! ?k = (i, bs)" by (simp add: nth_append len)
  ultimately have "half_inv sha fd es e st' (ps @ [(i, bs)])"
    using assms(1) len unfolding st' walk_inv_def Let_def by simp
  then show ?thesis ..
next
  case False
  then have "st' = st" using assms(2) by (simp add: note_dump_def)
  then show ?thesis using assms(1) False by (auto simp: walk_inv_def)
qed

lemma queue_extent_queues:
  assumes "queue_extent b d = Inr u" and "arguments e ''from_userspace'' ''v4l2_buffer'' = Inr b" and "\<not> dhas e ''errno''"
    and "du_index d = i" and "du_bytes d = length bs"
  shows "queues_payload e (i, bs)"
proof -
  obtain m planes where m: "dget b ''m'' = Some m" "sub m ''planes'' = Inr planes" and c: "py_eq (jv b ''index'') (JInt i)"
    and n: "py_len planes = Inr 1" and p: "rbind (py_at planes (JInt 0)) (\<lambda>p. eq_sub p ''bytesused'' (JInt (int (du_bytes d)))) = Inr True"
    "rbind (py_at planes (JInt 0)) (\<lambda>p. eq_sub p ''data_offset'' (JInt 0)) = Inr True"
    using assms(1,4) unfolding queue_extent_def
    by (auto elim!: rbind_InrE simp: require_and_Inr dsub_Inr jv_def)
  obtain q v where q: "py_at planes (JInt 0) = Inr q" "sub q ''bytesused'' = Inr v" "py_eq v (JInt (int (length bs)))"
    using p(1) assms(5) by (auto simp: rbind_Inr eq_sub_True)
  obtain w where w: "sub q ''data_offset'' = Inr w" "py_eq w (JInt 0)" using p(2) q(1) by (auto simp: eq_sub_True)
  have "planes = JList [q]"
    using n q(1,2) by (cases planes) (auto simp: py_len_def py_at_def list_index_def index_of_def length_Suc_conv sub_def py_hash_def
        split: if_splits option.splits)
  then show ?thesis unfolding queues_payload_def using assms(2,3) m c q(2,3) w by auto
qed

lemma note_queue_inv:
  assumes "half_inv sha fd es e st ps" and "note_queue e st = Inr st'" and "is_dump e \<or> py_eq (jv e ''fd'') fd"
  shows "inputs_inv sha fd (es @ [e]) st' ps"
proof (cases "is_source_queue fd e")
  case True
  let ?k = "length (in_hashes st)"
  obtain b d where b: "arguments e ''from_userspace'' ''v4l2_buffer'' = Inr b" "\<not> dhas e ''errno''" "in_dump st = Some d"
    "queue_extent b d = Inr ()"
    and st': "st' = st\<lparr>in_hashes := in_hashes st @ [\<lparr>ih_picture = ?k + 1, ih_bytes = du_bytes d, ih_sha = du_sha d\<rparr>],
                     in_dump := None, in_queued := True\<rparr>"
    using True assms(2) unfolding note_queue_def is_source_queue_def Let_def
    by (auto elim!: rbind_InrE simp: require_Inr dsub_Inr split: if_splits)
  have h: "length ps = Suc ?k" "du_index d = fst (ps ! ?k)" "du_bytes d = length (snd (ps ! ?k))" "du_sha d = sha (snd (ps ! ?k))"
    "in_hashes st = map (\<lambda>j. hash_row sha j (ps ! j)) [0..<?k]"
    "list_all2 queues_payload (filter (is_source_queue fd) es) (take ?k ps)"
    using assms(1) b(3) by (auto simp: walk_inv_def Let_def)
  have "queues_payload e (ps ! ?k)"
    using queue_extent_queues [OF b(4,1,2) h(2,3)] by simp
  moreover have t: "take (Suc ?k) ps = take ?k ps @ [ps ! ?k]" using h(1) by (intro take_Suc_conv_app_nth) simp
  ultimately have "list_all2 queues_payload (filter (is_source_queue fd) (es @ [e])) (take (Suc ?k) ps)"
    unfolding t using h(6) True by (simp add: list_all2_appendI)
  moreover have "in_hashes st' = map (\<lambda>j. hash_row sha j (ps ! j)) [0..<Suc ?k]"
    unfolding st' using h(3-5) by (simp add: hash_row_def case_prod_unfold)
  ultimately show ?thesis using assms(1) h(1) unfolding walk_inv_def st' Let_def by simp
next
  case False
  then have "st' = st" using assms(2,3) unfolding note_queue_def is_source_queue_def
    by (auto elim!: rbind_InrE simp: dsub_Inr split: if_splits)
  then show ?thesis using assms(1) False by (simp add: walk_inv_def)
qed

lemma inputs_step_inv:
  assumes "inputs_inv sha fd es st ps" and "inputs_step sha fd e st = Inr st'"
  shows "\<exists>ps'. inputs_inv sha fd (es @ [e]) st' ps'"
proof -
  obtain s1 mine where s1: "note_close e st = Inr s1"
    and mine: "mine = (is_dump e \<or> py_eq (jv e ''fd'') fd)"
    and rest: "(if \<not> mine then Inr s1 else rbind (note_export e s1) (\<lambda>st. rbind (note_modes e st) (\<lambda>st.
          rbind (note_dump sha e st) (note_queue e)))) = Inr st'"
    using assms(2) unfolding inputs_step_def by (auto elim!: rbind_InrE split: if_splits)
  have i1: "inputs_inv sha fd es s1 ps" using assms(1) quiet_steps(1) [OF s1] by (auto intro: inputs_inv_same)
  show ?thesis
  proof (cases mine)
    case False
    then have "\<not> is_dump e" "\<not> is_source_queue fd e" "st' = s1" using mine rest by (auto simp: is_source_queue_def)
    then show ?thesis using i1 by (auto simp: walk_inv_def)
  next
    case True
    then obtain s2 s3 s4 where s: "note_export e s1 = Inr s2" "note_modes e s2 = Inr s3" "note_dump sha e s3 = Inr s4" "note_queue e s4 = Inr st'"
      using rest by (auto elim!: rbind_InrE)
    have "inputs_inv sha fd es s3 ps" using i1 quiet_steps(2) [OF s(1)] note_modes_quiet [OF s(2)] by (auto intro: inputs_inv_same)
    from note_dump_half [OF this s(3)] show ?thesis using note_queue_inv [OF _ s(4)] True mine by blast
  qed
qed

lemma inputs_walk_inv:
  assumes "rfold (inputs_step sha fd) es inputs_init = Inr st"
  shows "\<exists>ps. inputs_inv sha fd es st ps"
  using assms
proof (rule rfold_prefix_invariant)
  show "\<exists>ps. inputs_inv sha fd [] inputs_init ps" by (simp add: walk_inv_def inputs_init_def)
  show "\<exists>ps. inputs_inv sha fd (ys @ [x]) s' ps" if "\<exists>ps. inputs_inv sha fd ys s ps" "inputs_step sha fd x s = Inr s'" for ys x s s'
    using that inputs_step_inv by blast
qed

text \<open>At every moment a dump has been queued, or is the last one and about to be.\<close>

lemma inputs_balance:
  assumes "inputs_inv sha fd es st ps"
  shows "length (filter (is_source_queue fd) es) \<le> length (filter is_dump es) \<and>
    length (filter is_dump es) \<le> Suc (length (filter (is_source_queue fd) es))"
proof -
  have "length ps = length (in_hashes st) \<or> length ps = Suc (length (in_hashes st))"
    using assms by (auto simp: walk_inv_def Let_def split: option.splits)
  moreover have "length (filter is_dump es) = length ps"
    "length (filter (is_source_queue fd) es) = length (take (length (in_hashes st)) ps)"
    using assms unfolding walk_inv_def Let_def by (blast dest: list_all2_lengthD)+
  ultimately show ?thesis by auto
qed

text \<open>
  C33. The digests that the evidence reports are those of the bytes queued to the decoder. For the one
  decoding context \<open>fd\<close>, the dumps of the trace decode to payloads; there are as many as expected; the
  \<open>k\<close>th digest is the length and digest of the \<open>k\<close>th payload, numbered \<open>k + 1\<close>; the \<open>k\<close>th queued
  source buffer has the index of the \<open>k\<close>th dump and a single plane of exactly its bytes; and in every
  prefix of the trace each queued buffer was dumped before, at most one dump still waiting.
\<close>
theorem inputs_hash_queued_bytes:
  assumes "extra_evidence sha events expected = Inr (modes, hashes)"
  shows "\<exists>fd ps. list_all2 (\<lambda>e p. dump_payload e = Inr p) (filter is_dump events) ps \<and>
    py_eq (JInt (int (length ps))) expected \<and> hashes = map (\<lambda>k. hash_row sha k (ps ! k)) [0..<length ps] \<and>
    list_all2 queues_payload (filter (is_source_queue fd) events) ps \<and>
    (\<forall>n. length (filter (is_source_queue fd) (take n events)) \<le> length (filter is_dump (take n events)) \<and>
       length (filter is_dump (take n events)) \<le> Suc (length (filter (is_source_queue fd) (take n events))))"
proof -
  obtain fd st where walk: "rfold (inputs_step sha fd) events inputs_init = Inr st" and d: "in_dump st = None"
    and n: "py_eq (JInt (int (length (in_hashes st)))) expected" "hashes = in_hashes st"
    using assms unfolding extra_evidence_def by (auto elim!: rbind_InrE simp: require_Inr)
  obtain ps where inv: "inputs_inv sha fd events st ps" using inputs_walk_inv [OF walk] ..
  then have len: "length ps = length (in_hashes st)" using d by (simp add: walk_inv_def Let_def)
  have "length (filter (is_source_queue fd) (take n events)) \<le> length (filter is_dump (take n events)) \<and>
       length (filter is_dump (take n events)) \<le> Suc (length (filter (is_source_queue fd) (take n events)))" for n
  proof -
    have "rbind (rfold (inputs_step sha fd) (take n events) inputs_init) (rfold (inputs_step sha fd) (drop n events)) = Inr st"
      using walk by (simp add: rfold_append [symmetric])
    then obtain t where "rfold (inputs_step sha fd) (take n events) inputs_init = Inr t" by (rule rbind_InrE)
    then show ?thesis using inputs_walk_inv inputs_balance by blast
  qed
  then show ?thesis using inv len n unfolding walk_inv_def Let_def
    by (intro exI [of _ fd] exI [of _ ps]) simp
qed

subsection \<open>One source buffer\<close>

definition input_request :: tr_event where
  "input_request = [(''ioctl'', JStr ''VIDIOC_S_EXT_CTRLS''), (''fd'', JInt 7),
     (''from_userspace'', JObj [(''v4l2_ext_controls'', JObj [(''which'', REQUEST_WHICH), (''count'', JInt 1),
        (''controls'', JList [JObj [(''id'', JStr (CID @ ''DECODE_PARAMS''))]])])]),
     (''from_driver'', JObj [(''v4l2_ext_controls'', JObj [(''which'', REQUEST_WHICH), (''count'', JInt 1),
        (''controls'', JList [JObj [(''id'', JStr (CID @ ''DECODE_PARAMS''))]])])])]"

definition input_events :: "tr_event list" where
  "input_events =
     [[(''ioctl'', JStr ''VIDIOC_G_EXT_CTRLS''), (''fd'', JInt 7),
       (''from_driver'', JObj [(''v4l2_ext_controls'', JObj [(''which'', CURRENT_WHICH), (''count'', JInt 2),
          (''controls'', JList (map (\<lambda>(cid, v). JObj [(''id'', JStr cid), (''value'', v), (''size'', JInt 0)]) MODE_CIDS))])])],
      [(''ioctl'', JStr ''VIDIOC_EXPBUF''), (''fd'', JInt 7), (''from_driver'', JObj [(''v4l2_exportbuffer'',
          JObj [(''type'', OUT_TYPE), (''plane'', JInt 0), (''fd'', JInt 11), (''index'', JInt 3)])])],
      input_request,
      [(''mem_dump'', OUT_TYPE), (''fd'', JInt 11), (''index'', JInt 3), (''bytesused'', JInt 3),
       (''mem_array'', JList [JStr ''00 01 '', JStr ''ff''])],
      [(''ioctl'', JStr ''VIDIOC_QBUF''), (''fd'', JInt 7), (''from_userspace'', JObj [(''v4l2_buffer'',
          JObj [(''type'', OUT_TYPE), (''index'', JInt 3), (''length'', JInt 1),
            (''m'', JObj [(''planes'', JList [JObj [(''bytesused'', JInt 3), (''data_offset'', JInt 0)]])])])])]]"

text \<open>A digest for the example: the bytes themselves.\<close>

definition plain_digest :: "8 word list \<Rightarrow> string" where
  "plain_digest bs = map (\<lambda>b. char_of (unat b)) bs"

lemma input_events_accepted:
  "\<exists>modes. extra_evidence plain_digest input_events (JInt 1) = Inr (modes, [\<lparr>ih_picture = 1, ih_bytes = 3, ih_sha = map char_of [0, 1, 255 :: nat]\<rparr>])"
proof -
  have "case extra_evidence plain_digest input_events (JInt 1) of
      Inr (_, hs) \<Rightarrow> hs = [\<lparr>ih_picture = 1, ih_bytes = 3, ih_sha = map char_of [0, 1, 255 :: nat]\<rparr>] | Inl _ \<Rightarrow> False" by code_simp
  then show ?thesis by (auto split: sum.split_asm)
qed

theorem inputs_hash_queued_bytes_witness:
  "\<exists>fd p. dump_payload (input_events ! 3) = Inr p \<and> filter (is_source_queue fd) input_events = [input_events ! 4] \<and>
     queues_payload (input_events ! 4) p"
proof -
  obtain modes where r: "extra_evidence plain_digest input_events (JInt 1) =
      Inr (modes, [\<lparr>ih_picture = 1, ih_bytes = 3, ih_sha = map char_of [0, 1, 255 :: nat]\<rparr>])" using input_events_accepted ..
  have d: "filter is_dump input_events = [input_events ! 3]" by code_simp
  obtain fd ps where w: "list_all2 (\<lambda>e p. dump_payload e = Inr p) [input_events ! 3] ps" "list_all2 queues_payload (filter (is_source_queue fd) input_events) ps"
    using inputs_hash_queued_bytes [OF r] unfolding d by blast
  then obtain p where p: "ps = [p]" "dump_payload (input_events ! 3) = Inr p" by (auto simp: list_all2_Cons1)
  then obtain e where e: "filter (is_source_queue fd) input_events = [e]" "queues_payload e p" using w(2) by (auto simp: list_all2_Cons2)
  then have "e \<in> set (filter (is_source_queue fd) input_events)" by simp
  then have "e \<in> set (filter (\<lambda>e. jv e ''ioctl'' = JStr ''VIDIOC_QBUF'') input_events)" by (auto simp: is_source_queue_def)
  moreover have "filter (\<lambda>e. jv e ''ioctl'' = JStr ''VIDIOC_QBUF'') input_events = [input_events ! 4]" by code_simp
  ultimately have "e = input_events ! 4" by simp
  with p e show ?thesis by blast
qed

end
