(* ===== verification/Capture.thy ===== *)
theory Capture
  imports Pyvalues
begin

text \<open>
  The supervisor of one decoder run, \<open>src/experiments/hevc-avd-command-capture/capture.py\<close>: it checks that
  both kernel recorders are off, forks a child that waits for a byte, arms the recorders for that
  child, releases it, polls until it ends or the deadline passes, seals and saves both recorders and
  clears them.

  The kernel, the child and the file system are the record \<open>world\<close>: each call answers from the list of
  calls made before, so that an answer may depend on everything that happened. An exception of the
  classes that the code catches is a message. The clock and the arrival of a signal are functions of
  the same list. The child's side of the fork is not part of the model, nor is the arithmetic of
  floats: times are rationals. Closing a descriptor has no effect in the model and always succeeds
  there, and signalling a process that is already gone counts as success, as the code treats it.
\<close>

subsection \<open>Recorders\<close>

datatype recorder = Reference | Command

definition PATHS :: "recorder list" where "PATHS = [Reference, Command]"

definition STATUS_FIELDS :: "recorder \<Rightarrow> string list" where
  "STATUS_FIELDS r = (case r of
     Reference \<Rightarrow> [''run'', ''context'', ''phase'', ''errors'', ''count'', ''attempted'', ''pictures'', ''completions'', ''opens'']
   | Command \<Rightarrow> [''run'', ''context'', ''phase'', ''errors'', ''pictures'', ''completions'', ''opens''])"

type_synonym status = "(string, int) dict"

definition status_token :: "string \<Rightarrow> string + int" where
  "status_token x = (case decimal_token [] [] 64 x of Inr i \<Rightarrow> Inr i | Inl _ \<Rightarrow> Inl ''status integer'')"

definition parse_status :: "recorder \<Rightarrow> string \<Rightarrow> string + status" where
  "parse_status r text = (let p = py_split text; fs = STATUS_FIELDS r in
     rbind (need ''status schema'' (length p = length fs + 2 \<and> take 2 p = [''S'', ''1''])) (\<lambda>_.
     rbind (rmap status_token (drop 2 p)) (\<lambda>vs. Inr (zip fs vs))))"

definition snapshot_limit :: "recorder \<Rightarrow> int" where
  "snapshot_limit r = (case r of Reference \<Rightarrow> 4 * 1024 * 1024 | Command \<Rightarrow> 512 * 1024)"

definition status_fld :: "status \<Rightarrow> string \<Rightarrow> int" where
  "status_fld s k = (case dget s k of Some v \<Rightarrow> v | None \<Rightarrow> 0)"

definition check_state :: "status \<Rightarrow> int \<Rightarrow> bool \<Rightarrow> bool \<Rightarrow> string + unit" where
  "check_state s run enabled sealed =
     rbind (need ''sticky recorder error'' (status_fld s ''errors'' = 0)) (\<lambda>_.
     rbind (need ''recorder count extent'' (\<not> (status_fld s ''pictures'' > 300 \<or> status_fld s ''completions'' > status_fld s ''pictures''))) (\<lambda>_.
     if enabled
     then rbind (need ''recorder run/phase mismatch'' (status_fld s ''run'' = run \<and> status_fld s ''phase'' \<in> (if sealed then {4} else {1, 2, 3}))) (\<lambda>_.
          need ''incomplete sealed capture'' (\<not> (sealed \<and> (status_fld s ''context'' = 0 \<or> status_fld s ''pictures'' \<noteq> 300 \<or>
            status_fld s ''completions'' \<noteq> 300 \<or> status_fld s ''opens'' \<noteq> 0))))
     else need ''recorder is not off''
            (list_all (\<lambda>k. status_fld s k = 0) [''run'', ''context'', ''phase'', ''errors'', ''pictures'', ''completions''])))"

subsection \<open>The world and the supervisor's state\<close>

datatype action =
    GetStatus recorder
  | Control recorder string
  | GetSnapshot recorder
  | SaveSnapshot recorder "8 word list"
  | SaveEvent string "recorder option"
  | Fork
  | Release
  | Wait
  | Kill string
  | Sleep

record world =
  w_status :: "action list \<Rightarrow> recorder \<Rightarrow> string + string"
  w_control :: "action list \<Rightarrow> recorder \<Rightarrow> string \<Rightarrow> string + unit"
  w_snapshot :: "action list \<Rightarrow> recorder \<Rightarrow> string + 8 word list"
  w_save :: "action list \<Rightarrow> recorder \<Rightarrow> 8 word list \<Rightarrow> string + unit"
  w_event :: "action list \<Rightarrow> string + unit"
  w_fork :: "action list \<Rightarrow> string + nat"
  w_release :: "action list \<Rightarrow> string + unit"
  w_wait :: "action list \<Rightarrow> string + int option"
  w_kill :: "action list \<Rightarrow> string + unit"
  w_clock :: "action list \<Rightarrow> rat"
  w_signal :: "action list \<Rightarrow> bool"
  w_sha :: "8 word list \<Rightarrow> string"

record sup_event =
  ev_stage :: string
  ev_recorder :: "recorder option"
  ev_seconds :: rat

record sup =
  sp_log :: "action list"
  sp_started :: rat
  sp_pid :: "nat option"
  sp_exit :: "int option"
  sp_reaped :: bool
  sp_released :: bool
  sp_errors :: "(string \<times> recorder option \<times> string) list"
  sp_status :: "(recorder, status) dict"
  sp_snapshots :: "(recorder, nat \<times> string) dict"
  sp_events :: "sup_event list"
  sp_armed :: "recorder list"
  sp_writer :: bool
  sp_elapsed :: rat

definition sup_init :: "world \<Rightarrow> sup" where
  "sup_init W = \<lparr>sp_log = [], sp_started = w_clock W [], sp_pid = None, sp_exit = None, sp_reaped = False, sp_released = False,
     sp_errors = [], sp_status = [], sp_snapshots = [], sp_events = [], sp_armed = [], sp_writer = False, sp_elapsed = 0\<rparr>"

record sup_args =
  ar_command :: "string list"
  ar_run :: int
  ar_enabled :: bool
  ar_deadline :: rat
  ar_backends :: "recorder list"
  ar_environment :: "json option"
  ar_directory :: "bool option"
  ar_stdout :: "string option"
  ar_stderr :: "string option"

text \<open>A computation that may raise; what it did to the state stays done.\<close>

type_synonym 'a act = "sup \<Rightarrow> (string + 'a) \<times> sup"

definition sret :: "'a \<Rightarrow> 'a act" where "sret x st = (Inr x, st)"

definition slift :: "string + 'a \<Rightarrow> 'a act" where "slift r st = (r, st)"

definition sbind :: "'a act \<Rightarrow> ('a \<Rightarrow> 'b act) \<Rightarrow> 'b act" where
  "sbind f g st = (case f st of (Inl m, st') \<Rightarrow> (Inl m, st') | (Inr x, st') \<Rightarrow> g x st')"

definition scatch :: "'a act \<Rightarrow> (string \<Rightarrow> 'a act) \<Rightarrow> 'a act" where
  "scatch f h st = (case f st of (Inl m, st') \<Rightarrow> h m st' | (Inr x, st') \<Rightarrow> (Inr x, st'))"

primrec sfor :: "('a \<Rightarrow> unit act) \<Rightarrow> 'a list \<Rightarrow> unit act" where
  "sfor f [] = sret ()"
| "sfor f (x # xs) = sbind (f x) (\<lambda>_. sfor f xs)"

definition modify :: "(sup \<Rightarrow> sup) \<Rightarrow> unit act" where "modify f st = (Inr (), f st)"

definition sguard :: "string \<Rightarrow> (sup \<Rightarrow> bool) \<Rightarrow> unit act" where
  "sguard m p st = (if p st then Inr () else Inl m, st)"

definition ask :: "action \<Rightarrow> (action list \<Rightarrow> string + 'a) \<Rightarrow> 'a act" where
  "ask a f st = (f (sp_log st), st\<lparr>sp_log := sp_log st @ [a]\<rparr>)"

subsection \<open>Events, errors and recorder calls\<close>

text \<open>\<^verbatim>\<open>round(x, n)\<close>: to the nearest multiple, ties to even.\<close>

definition round_even :: "rat \<Rightarrow> int" where
  "round_even x = (let n = \<lfloor>x\<rfloor>; d = x - of_int n in if d < 1/2 then n else if 1/2 < d then n + 1 else if even n then n else n + 1)"

definition round_to :: "nat \<Rightarrow> rat \<Rightarrow> rat" where
  "round_to n x = of_int (round_even (x * 10 ^ n)) / 10 ^ n"

definition elapsed :: "world \<Rightarrow> sup \<Rightarrow> rat" where
  "elapsed W st = w_clock W (sp_log st) - sp_started st"

definition cancelled :: "world \<Rightarrow> sup \<Rightarrow> bool" where
  "cancelled W st \<longleftrightarrow> list_ex (\<lambda>n. w_signal W (take n (sp_log st))) [0..<Suc (length (sp_log st))]"

definition note_event :: "world \<Rightarrow> string \<Rightarrow> recorder option \<Rightarrow> bool \<Rightarrow> unit act" where
  "note_event W stage name fatal st =
     (let st1 = st\<lparr>sp_events := sp_events st @ [\<lparr>ev_stage = stage, ev_recorder = name, ev_seconds = round_to 4 (elapsed W st)\<rparr>],
                   sp_log := sp_log st @ [SaveEvent stage name]\<rparr> in
      case w_event W (sp_log st) of
        Inr _ \<Rightarrow> (Inr (), st1)
      | Inl m \<Rightarrow> (if fatal then Inl m else Inr (), st1\<lparr>sp_errors := sp_errors st @ [(''persist'', name, m)]\<rparr>))"

definition sup_error :: "world \<Rightarrow> string \<Rightarrow> recorder option \<Rightarrow> string \<Rightarrow> unit act" where
  "sup_error W stage name m =
     sbind (modify (\<lambda>st. st\<lparr>sp_errors := sp_errors st @ [(stage, name, m)]\<rparr>)) (\<lambda>_. note_event W (stage @ ''-failed'') name False)"

definition get_status :: "world \<Rightarrow> recorder \<Rightarrow> status act" where
  "get_status W r = sbind (ask (GetStatus r) (\<lambda>l. w_status W l r)) (\<lambda>text. slift (parse_status r text))"

text \<open>\<^verbatim>\<open>st=b.status();result['status'][name]=st\<close>\<close>

definition note_status :: "world \<Rightarrow> recorder \<Rightarrow> status act" where
  "note_status W r = sbind (get_status W r) (\<lambda>s. sbind (modify (\<lambda>st. st\<lparr>sp_status := dset r s (sp_status st)\<rparr>)) (\<lambda>_. sret s))"

definition control :: "world \<Rightarrow> recorder \<Rightarrow> string \<Rightarrow> unit act" where
  "control W r text = ask (Control r text) (\<lambda>l. w_control W l r text)"

definition get_snapshot :: "world \<Rightarrow> recorder \<Rightarrow> 8 word list act" where
  "get_snapshot W r = sbind (ask (GetSnapshot r) (\<lambda>l. w_snapshot W l r)) (\<lambda>raw.
     slift (rbind (need ''snapshot size'' (0 < length raw \<and> int (length raw) \<le> snapshot_limit r)) (\<lambda>_. Inr raw)))"

definition arm_text :: "int \<Rightarrow> nat \<Rightarrow> string" where
  "arm_text run pid = ''arm '' @ show_nat (nat run) @ '' '' @ show_nat pid"

definition seal_text :: "int \<Rightarrow> string" where
  "seal_text run = ''seal '' @ show_nat (nat run)"

subsection \<open>Up to the release of the child\<close>

definition preflight :: "world \<Rightarrow> sup_args \<Rightarrow> recorder \<Rightarrow> unit act" where
  "preflight W a r = sbind (note_status W r) (\<lambda>s.
     sbind (slift (check_state s (ar_run a) False False)) (\<lambda>_. slift (need ''open context before arm'' (status_fld s ''opens'' = 0))))"

definition arm :: "world \<Rightarrow> sup_args \<Rightarrow> nat \<Rightarrow> recorder \<Rightarrow> unit act" where
  "arm W a pid r =
     sbind (sguard ''cancelled before arm'' (\<lambda>st. \<not> cancelled W st)) (\<lambda>_.
     sbind (if ar_enabled a
            then sbind (modify (\<lambda>st. st\<lparr>sp_armed := sp_armed st @ [r]\<rparr>)) (\<lambda>_.
                 sbind (note_event W ''arm-attempt'' (Some r) True) (\<lambda>_. control W r (arm_text (ar_run a) pid)))
            else control W r ''off'') (\<lambda>_.
     sbind (note_status W r) (\<lambda>s.
     sbind (slift (check_state s (ar_run a) (ar_enabled a) False)) (\<lambda>_.
     sbind (slift (need ''unexpected open context before release'' (status_fld s ''opens'' = 0))) (\<lambda>_.
     note_event W (if ar_enabled a then ''armed'' else ''disabled'') (Some r) True)))))"

definition fork_child :: "world \<Rightarrow> nat act" where
  "fork_child W = sbind (ask Fork (w_fork W)) (\<lambda>pid.
     sbind (modify (\<lambda>st. st\<lparr>sp_pid := Some pid, sp_writer := True\<rparr>)) (\<lambda>_. sret pid))"

definition prepare :: "world \<Rightarrow> sup_args \<Rightarrow> unit act" where
  "prepare W a =
     sbind (note_event W ''preflight'' None True) (\<lambda>_.
     sbind (sfor (preflight W a) (ar_backends a)) (\<lambda>_.
     sbind (sguard ''cancel/deadline before fork'' (\<lambda>st. \<not> (cancelled W st \<or> elapsed W st \<ge> ar_deadline a))) (\<lambda>_.
     sbind (fork_child W) (\<lambda>pid.
     sbind (note_event W ''child-blocked'' None True) (\<lambda>_.
     sbind (sfor (arm W a pid) (ar_backends a)) (\<lambda>_.
     sbind (sguard ''cancelled before child release'' (\<lambda>st. \<not> cancelled W st)) (\<lambda>_.
     sguard ''deadline before child release'' (\<lambda>st. \<not> elapsed W st \<ge> ar_deadline a))))))))"

definition release :: "world \<Rightarrow> unit act" where
  "release W =
     sbind (ask Release (w_release W)) (\<lambda>_.
     sbind (modify (\<lambda>st. st\<lparr>sp_writer := False, sp_released := True\<rparr>)) (\<lambda>_. note_event W ''child-released'' None True))"

subsection \<open>Waiting and reaping\<close>

definition set_exit :: "int \<Rightarrow> unit act" where
  "set_exit code = modify (\<lambda>st. st\<lparr>sp_exit := Some code, sp_reaped := True\<rparr>)"

definition contexts_agree :: "sup \<Rightarrow> bool" where
  "contexts_agree st = (let cs = filter (\<lambda>c. c \<noteq> 0) (map (\<lambda>(_, s). status_fld s ''context'') (sp_status st)) in
     \<not> (length cs = 2 \<and> cs ! 0 \<noteq> cs ! 1))"

definition poll :: "world \<Rightarrow> sup_args \<Rightarrow> recorder \<Rightarrow> unit act" where
  "poll W a r = sbind (note_status W r) (\<lambda>s. slift (check_state s (ar_run a) (ar_enabled a) False))"

text \<open>One turn of the loop; true when the child has ended.\<close>

definition wait_turn :: "world \<Rightarrow> sup_args \<Rightarrow> bool act" where
  "wait_turn W a =
     sbind (ask Wait (w_wait W)) (\<lambda>r. case r of
       Some code \<Rightarrow> sbind (set_exit code) (\<lambda>_. sret True)
     | None \<Rightarrow>
         sbind (sguard ''supervisor cancelled'' (\<lambda>st. \<not> cancelled W st)) (\<lambda>_.
         sbind (sguard ''finite decoder deadline'' (\<lambda>st. \<not> elapsed W st \<ge> ar_deadline a)) (\<lambda>_.
         sbind (sfor (poll W a) (ar_backends a)) (\<lambda>_.
         sbind (sguard ''paired recorder context mismatch'' contexts_agree) (\<lambda>_.
         sbind (ask Sleep (\<lambda>_. Inr ())) (\<lambda>_. sret False))))))"

partial_function (option) wait_loop :: "world \<Rightarrow> sup_args \<Rightarrow> sup \<Rightarrow> ((string + unit) \<times> sup) option" where
  "wait_loop W a st = (case wait_turn W a st of
     (Inl m, st') \<Rightarrow> Some (Inl m, st')
   | (Inr ended, st') \<Rightarrow> if ended then Some (Inr (), st') else wait_loop W a st')"

definition reap_turn :: "world \<Rightarrow> bool act" where
  "reap_turn W = sbind (ask Wait (w_wait W)) (\<lambda>r. case r of
     Some code \<Rightarrow> sbind (set_exit code) (\<lambda>_. sret True)
   | None \<Rightarrow> sbind (ask Sleep (\<lambda>_. Inr ())) (\<lambda>_. sret False))"

partial_function (option) reap_loop :: "world \<Rightarrow> rat \<Rightarrow> sup \<Rightarrow> ((string + unit) \<times> sup) option" where
  "reap_loop W until st =
     (if w_clock W (sp_log st) < until
      then (case reap_turn W st of
              (Inl m, st') \<Rightarrow> Some (Inl m, st')
            | (Inr ended, st') \<Rightarrow> if ended then Some (Inr (), st') else reap_loop W until st')
      else Some (Inr (), st))"

text \<open>\<open>then_loop f g\<close> continues with the loop \<open>g\<close> unless \<open>f\<close> raised.\<close>

definition then_loop :: "((string + unit) \<times> sup) option \<Rightarrow> (sup \<Rightarrow> ((string + unit) \<times> sup) option) \<Rightarrow> ((string + unit) \<times> sup) option" where
  "then_loop r g = (case r of None \<Rightarrow> None | Some (Inl m, st) \<Rightarrow> Some (Inl m, st) | Some (Inr _, st) \<Rightarrow> g st)"

definition kill_child :: "world \<Rightarrow> string \<Rightarrow> rat \<Rightarrow> sup \<Rightarrow> ((string + unit) \<times> sup) option" where
  "kill_child W sig seconds st =
     (if sp_reaped st then Some (Inr (), st)
      else then_loop (Some (ask (Kill sig) (w_kill W) st)) (\<lambda>st. reap_loop W (w_clock W (sp_log st) + seconds) st))"

definition reap :: "world \<Rightarrow> sup \<Rightarrow> ((string + unit) \<times> sup) option" where
  "reap W st0 = (let st = st0\<lparr>sp_writer := False\<rparr> in
     if (case sp_pid st of None \<Rightarrow> False | Some p \<Rightarrow> p \<noteq> 0) \<and> \<not> sp_reaped st
     then then_loop (kill_child W ''SIGTERM'' 1 st) (\<lambda>st. then_loop (kill_child W ''SIGKILL'' 2 st) (\<lambda>st.
          Some (if \<not> sp_reaped st then sup_error W ''reap'' None ''child did not reap; no recovery'' st
                else note_event W ''child-terminated-and-waited'' None False st)))
     else Some (Inr (), st))"

subsection \<open>Sealing, saving and clearing\<close>

definition seal_body :: "world \<Rightarrow> sup_args \<Rightarrow> recorder \<Rightarrow> unit act" where
  "seal_body W a r =
     sbind (note_status W r) (\<lambda>s.
     sbind (slift (need ''attempt did not bind this run'' (status_fld s ''run'' = ar_run a))) (\<lambda>_.
     sbind (slift (need ''context still open; cannot seal'' (status_fld s ''opens'' = 0))) (\<lambda>_.
     sbind (control W r (seal_text (ar_run a))) (\<lambda>_.
     sbind (note_event W ''sealed'' (Some r) True) (\<lambda>_.
     sbind (get_snapshot W r) (\<lambda>raw.
     sbind (ask (SaveSnapshot r raw) (\<lambda>l. w_save W l r raw)) (\<lambda>_.
     sbind (modify (\<lambda>st. st\<lparr>sp_snapshots := dset r (length raw, w_sha W raw) (sp_snapshots st)\<rparr>)) (\<lambda>_.
     sbind (note_event W ''snapshot-persisted'' (Some r) True) (\<lambda>_.
     sbind (note_status W r) (\<lambda>s.
     slift (check_state s (ar_run a) True True)))))))))))"

definition seal :: "world \<Rightarrow> sup_args \<Rightarrow> recorder \<Rightarrow> unit act" where
  "seal W a r = scatch (seal_body W a r) (sup_error W ''seal/read'' (Some r))"

definition seal_all :: "world \<Rightarrow> sup_args \<Rightarrow> unit act" where
  "seal_all W a st = (if sp_reaped st then sfor (seal W a) (sp_armed st) st else (Inr (), st))"

definition final_check :: "world \<Rightarrow> sup_args \<Rightarrow> recorder \<Rightarrow> unit act" where
  "final_check W a r = sbind (note_status W r) (\<lambda>s.
     sbind (slift (check_state s (ar_run a) (ar_enabled a) (ar_enabled a))) (\<lambda>_. slift (need ''final open context'' (status_fld s ''opens'' = 0))))"

definition final_body :: "world \<Rightarrow> sup_args \<Rightarrow> unit act" where
  "final_body W a = sbind (sfor (final_check W a) (ar_backends a)) (\<lambda>_.
     sguard ''final paired context mismatch'' (\<lambda>st.
       \<not> (ar_enabled a \<and> length (remdups (map (\<lambda>(_, s). status_fld s ''context'') (sp_status st))) \<noteq> 1)))"

definition final :: "world \<Rightarrow> sup_args \<Rightarrow> unit act" where
  "final W a st = (if sp_reaped st \<and> sp_errors st = []
     then scatch (final_body W a) (sup_error W ''final-status'' None) st else (Inr (), st))"

definition note_cancel :: "world \<Rightarrow> unit act" where
  "note_cancel W st = (if cancelled W st \<and> sp_errors st = []
     then sup_error W ''cancelled'' None ''supervisor signal received'' st else (Inr (), st))"

definition clear_body :: "world \<Rightarrow> sup_args \<Rightarrow> recorder \<Rightarrow> unit act" where
  "clear_body W a r = sbind (control W r ''off'') (\<lambda>_. sbind (get_status W r) (\<lambda>s.
     sbind (slift (check_state s (ar_run a) False False)) (\<lambda>_. note_event W ''cleared'' (Some r) True)))"

definition clear :: "world \<Rightarrow> sup_args \<Rightarrow> recorder \<Rightarrow> unit act" where
  "clear W a r = scatch (clear_body W a r) (sup_error W ''clear'' (Some r))"

definition clear_all :: "world \<Rightarrow> sup_args \<Rightarrow> unit act" where
  "clear_all W a st = (if sp_reaped st \<and> sp_exit st = Some 0 \<and> sp_errors st = [] then sfor (clear W a) (ar_backends a) st else (Inr (), st))"

definition finish_run :: "world \<Rightarrow> unit act" where
  "finish_run W = sbind (modify (\<lambda>st. st\<lparr>sp_elapsed := round_to 3 (elapsed W st)\<rparr>)) (\<lambda>_. note_event W ''complete'' None False)"

definition settle :: "world \<Rightarrow> sup_args \<Rightarrow> unit act" where
  "settle W a = sbind (seal_all W a) (\<lambda>_. sbind (final W a) (\<lambda>_. sbind (note_cancel W) (\<lambda>_. sbind (clear_all W a) (\<lambda>_. finish_run W))))"

subsection \<open>The whole run\<close>

definition sup_contract :: "sup_args \<Rightarrow> string + unit" where
  "sup_contract a =
     rbind (need ''command/run/deadline/backend sup_contract'' (ar_command a \<noteq> [] \<and> 1 \<le> ar_deadline a \<and> ar_deadline a \<le> 90 \<and>
       1 \<le> ar_run a \<and> ar_run a < 2 ^ 64 \<and> set (ar_backends a) = set PATHS)) (\<lambda>_.
     rbind (need ''environment sup_contract'' (case ar_environment a of
       None \<Rightarrow> True | Some (JObj d) \<Rightarrow> list_all (\<lambda>(_, v). is_str v) d | _ \<Rightarrow> False)) (\<lambda>_.
     rbind (need ''working directory sup_contract'' (case ar_directory a of None \<Rightarrow> True | Some is_dir \<Rightarrow> is_dir)) (\<lambda>_.
     need ''child log path sup_contract'' ((ar_stdout a = None) = (ar_stderr a = None)))))"

definition execute_child :: "world \<Rightarrow> sup_args \<Rightarrow> sup \<Rightarrow> ((string + unit) \<times> sup) option" where
  "execute_child W a st =
     then_loop (Some (sbind (prepare W a) (\<lambda>_. release W) st)) (\<lambda>st.
     then_loop (wait_loop W a st) (\<lambda>st. Some (note_event W ''child-waited'' None True st)))"

datatype sup_result = Refused string | Raised string sup | Returned sup

text \<open>An exception while the child is being reaped leaves the function; all others are recorded.\<close>

definition supervise :: "world \<Rightarrow> sup_args \<Rightarrow> sup_result option" where
  "supervise W a = (case sup_contract a of
     Inl m \<Rightarrow> Some (Refused m)
   | Inr _ \<Rightarrow>
       (case execute_child W a (sup_init W) of
          None \<Rightarrow> None
        | Some (r, st) \<Rightarrow>
            let st1 = (case r of Inl m \<Rightarrow> snd (sup_error W ''execution'' None m st) | Inr _ \<Rightarrow> st) in
            (case reap W st1 of
               None \<Rightarrow> None
             | Some (Inl m, st2) \<Rightarrow> Some (Raised m st2)
             | Some (Inr _, st2) \<Rightarrow> Some (Returned (snd (settle W a st2))))))"

text \<open>The exit status of the command-line tool.\<close>

definition tool_exit :: "sup \<Rightarrow> int" where
  "tool_exit st = (if sp_errors st \<noteq> [] then 125
     else case sp_exit st of None \<Rightarrow> 125 | Some c \<Rightarrow> if c \<ge> 0 then c else 128 - c)"

subsection \<open>The two loops\<close>

text \<open>A loop that returns ends with a turn from a state that its turns lead to.\<close>

lemma wait_loop_last:
  assumes "wait_loop W a st = Some (r, st')" and "I st" and "\<And>s s'. I s \<Longrightarrow> wait_turn W a s = (Inr False, s') \<Longrightarrow> I s'"
  shows "\<exists>s x. I s \<and> wait_turn W a s = (x, st') \<and> (case r of Inl m \<Rightarrow> x = Inl m | Inr _ \<Rightarrow> x = Inr True)"
proof -
  have "V = W \<longrightarrow> b = a \<longrightarrow> I s \<longrightarrow> (\<exists>t x. I t \<and> wait_turn W a t = (x, snd y) \<and> (case fst y of Inl m \<Rightarrow> x = Inl m | Inr _ \<Rightarrow> x = Inr True))"
    if "wait_loop V b s = Some y" for V b s y
  proof (rule wait_loop.raw_induct [where P = "\<lambda>V b s y. V = W \<longrightarrow> b = a \<longrightarrow> I s \<longrightarrow>
      (\<exists>t x. I t \<and> wait_turn W a t = (x, snd y) \<and> (case fst y of Inl m \<Rightarrow> x = Inl m | Inr _ \<Rightarrow> x = Inr True))", OF _ that])
    fix loop V b s y
    assume IH: "\<And>V b s y. loop V b s = Some y \<Longrightarrow> V = W \<longrightarrow> b = a \<longrightarrow> I s \<longrightarrow>
      (\<exists>t x. I t \<and> wait_turn W a t = (x, snd y) \<and> (case fst y of Inl m \<Rightarrow> x = Inl m | Inr _ \<Rightarrow> x = Inr True))"
      and body: "(case wait_turn V b s of (Inl m, st') \<Rightarrow> Some (Inl m, st')
        | (Inr ended, st') \<Rightarrow> if ended then Some (Inr (), st') else loop V b st') = Some y"
    show "V = W \<longrightarrow> b = a \<longrightarrow> I s \<longrightarrow>
      (\<exists>t x. I t \<and> wait_turn W a t = (x, snd y) \<and> (case fst y of Inl m \<Rightarrow> x = Inl m | Inr _ \<Rightarrow> x = Inr True))"
    proof (intro impI)
      assume eq: "V = W" "b = a" and s: "I s"
      obtain x s' where turn: "wait_turn W a s = (x, s')" by (cases "wait_turn W a s")
      show "\<exists>t x. I t \<and> wait_turn W a t = (x, snd y) \<and> (case fst y of Inl m \<Rightarrow> x = Inl m | Inr _ \<Rightarrow> x = Inr True)"
      proof (cases "x = Inr False")
        case True
        then have "loop W a s' = Some y" "I s'" using body eq turn s assms(3) by simp_all
        then show ?thesis using IH by blast
      next
        case False
        then have "y = (case x of Inl m \<Rightarrow> Inl m | Inr _ \<Rightarrow> Inr (), s')" "x = Inr True \<or> (\<exists>m. x = Inl m)"
          using body eq turn by (auto split: sum.splits)
        then show ?thesis using s turn by (intro exI [of _ s] exI [of _ x]) (auto split: sum.splits)
      qed
    qed
  qed
  from this [OF assms(1)] assms(2) show ?thesis by simp
qed

lemma reap_loop_last:
  assumes "reap_loop W until st = Some (r, st')" and "I st" and "\<And>s x s'. I s \<Longrightarrow> reap_turn W s = (x, s') \<Longrightarrow> I s'"
  shows "I st'"
proof -
  have "V = W \<longrightarrow> u = until \<longrightarrow> I s \<longrightarrow> I (snd y)" if "reap_loop V u s = Some y" for V u s y
  proof (rule reap_loop.raw_induct [where P = "\<lambda>V u s y. V = W \<longrightarrow> u = until \<longrightarrow> I s \<longrightarrow> I (snd y)", OF _ that])
    fix loop V u s y
    assume IH: "\<And>V u s y. loop V u s = Some y \<Longrightarrow> V = W \<longrightarrow> u = until \<longrightarrow> I s \<longrightarrow> I (snd y)"
      and body: "(if w_clock V (sp_log s) < u
        then (case reap_turn V s of (Inl m, st') \<Rightarrow> Some (Inl m, st')
              | (Inr ended, st') \<Rightarrow> if ended then Some (Inr (), st') else loop V u st')
        else Some (Inr (), s)) = Some y"
    show "V = W \<longrightarrow> u = until \<longrightarrow> I s \<longrightarrow> I (snd y)"
    proof (intro impI)
      assume eq: "V = W" "u = until" and s: "I s"
      obtain x s' where turn: "reap_turn W s = (x, s')" by (cases "reap_turn W s")
      then have "I s'" using s assms(3) by blast
      then show "I (snd y)" using IH [of W until s' y] body eq s turn by (auto split: if_splits sum.splits)
    qed
  qed
  from this [OF assms(1)] assms(2) show ?thesis by simp
qed

subsection \<open>What a computation keeps\<close>

definition keeps :: "(sup \<Rightarrow> sup \<Rightarrow> bool) \<Rightarrow> 'a act \<Rightarrow> bool" where
  "keeps R f \<longleftrightarrow> (\<forall>st. R st (snd (f st)))"

lemma keepsD: "keeps R f \<Longrightarrow> f st = (r, st') \<Longrightarrow> R st st'"
  by (auto simp: keeps_def dest: spec [of _ st])

text \<open>A relation between the states before and after, closed under doing nothing and doing one thing after another.\<close>

locale act_relation =
  fixes R :: "sup \<Rightarrow> sup \<Rightarrow> bool"
  assumes R_refl: "R st st"
    and R_trans: "R st st' \<Longrightarrow> R st' st'' \<Longrightarrow> R st st''"
begin

lemma keeps_pure: "keeps R (sret x)" "keeps R (slift r)" "keeps R (sguard m p)"
  by (simp_all add: keeps_def sret_def slift_def sguard_def R_refl)

lemma keeps_bind: "keeps R f \<Longrightarrow> (\<And>x. keeps R (g x)) \<Longrightarrow> keeps R (sbind f g)"
  unfolding keeps_def sbind_def by (auto split: prod.splits sum.splits) (metis R_trans snd_conv)+

lemma keeps_catch: "keeps R f \<Longrightarrow> (\<And>m. keeps R (h m)) \<Longrightarrow> keeps R (scatch f h)"
  unfolding keeps_def scatch_def by (auto split: prod.splits sum.splits) (metis R_trans snd_conv)+

lemma keeps_for: "(\<And>x. keeps R (f x)) \<Longrightarrow> keeps R (sfor f xs)"
  by (induction xs) (auto intro: keeps_pure keeps_bind)

lemma keeps_choice: "(b \<Longrightarrow> keeps R f) \<Longrightarrow> (\<not> b \<Longrightarrow> keeps R g) \<Longrightarrow> keeps R (if b then f else g)"
  by simp

lemma keeps_option: "(\<And>x. keeps R (f x)) \<Longrightarrow> keeps R g \<Longrightarrow> keeps R (case r of Some x \<Rightarrow> f x | None \<Rightarrow> g)"
  by (cases r) auto

lemma keeps_when: "(\<And>st. keeps R (f st)) \<Longrightarrow> keeps R (\<lambda>st. if p st then f st st else (Inr (), st))"
  by (simp add: keeps_def R_refl)

lemma wait_loop_R:
  assumes "wait_loop W a st = Some (r, st')" and "keeps R (wait_turn W a)"
  shows "R st st'"
proof -
  obtain s x where "R st s" "wait_turn W a s = (x, st')"
    using wait_loop_last [OF assms(1), of "R st"] R_refl R_trans keepsD [OF assms(2)] by blast
  then show ?thesis using R_trans keepsD [OF assms(2)] by blast
qed

lemma reap_loop_R:
  assumes "reap_loop W until st = Some (r, st')" and "keeps R (reap_turn W)"
  shows "R st st'"
  using reap_loop_last [OF assms(1), of "R st"] R_refl R_trans keepsD [OF assms(2)] by blast

end

text \<open>
  Every computation only appends to the calls and to the errors; \<open>P\<close> says which calls it makes. With a
  clock that does not run backwards the recorded times are nonnegative and in order.
\<close>

definition steady :: "world \<Rightarrow> bool" where
  "steady W \<longleftrightarrow> (\<forall>l l'. w_clock W l \<le> w_clock W (l @ l'))"

definition timed :: "world \<Rightarrow> sup \<Rightarrow> bool" where
  "timed W st \<longleftrightarrow> sp_started st = w_clock W [] \<and> sorted (map ev_seconds (sp_events st)) \<and>
     (\<forall>e \<in> set (sp_events st). 0 \<le> ev_seconds e \<and> ev_seconds e \<le> round_to 4 (elapsed W st))"

definition grows :: "world \<Rightarrow> (action \<Rightarrow> bool) \<Rightarrow> sup \<Rightarrow> sup \<Rightarrow> bool" where
  "grows W P st st' \<longleftrightarrow> (\<exists>new. sp_log st' = sp_log st @ new \<and> list_all P new) \<and> (\<exists>es. sp_errors st' = sp_errors st @ es) \<and>
     sp_started st' = sp_started st \<and> (steady W \<longrightarrow> timed W st \<longrightarrow> timed W st')"

interpretation grow: act_relation "grows W P" for W P
proof
  show "grows W P st st" for st by (simp add: grows_def)
  fix st st' st'' assume "grows W P st st'" "grows W P st' st''"
  then show "grows W P st st''" unfolding grows_def by force
qed

lemma round_even_mono:
  assumes "x \<le> y" shows "round_even x \<le> round_even y"
proof -
  have "\<lfloor>x\<rfloor> \<le> \<lfloor>y\<rfloor>" using assms by (rule floor_mono)
  moreover have "round_even x \<le> \<lfloor>x\<rfloor> + 1" "\<lfloor>y\<rfloor> \<le> round_even y" by (simp_all add: round_even_def Let_def)
  moreover have "round_even x \<le> round_even y" if "\<lfloor>x\<rfloor> = \<lfloor>y\<rfloor>"
    using that assms by (auto simp: round_even_def Let_def)
  ultimately show ?thesis by linarith
qed

lemma round_to_mono: "x \<le> y \<Longrightarrow> round_to n x \<le> round_to n y"
  unfolding round_to_def by (intro divide_right_mono) (simp_all add: round_even_mono)

lemma round_to_nonneg: "0 \<le> x \<Longrightarrow> 0 \<le> round_to n x"
  using round_to_mono [of 0 x n] by (simp add: round_to_def round_even_def)

lemma elapsed_later:
  assumes "steady W" and "sp_log st' = sp_log st @ new" and "sp_started st' = sp_started st"
  shows "round_to 4 (elapsed W st) \<le> round_to 4 (elapsed W st')"
  using assms by (intro round_to_mono) (simp add: elapsed_def steady_def)

lemma elapsed_nonneg: "steady W \<Longrightarrow> sp_started st = w_clock W [] \<Longrightarrow> 0 \<le> elapsed W st"
  unfolding elapsed_def steady_def by (metis append_Nil diff_ge_0_iff_ge)

lemma timed_later:
  assumes "timed W st" "steady W" "sp_log st' = sp_log st @ new" "sp_started st' = sp_started st" "sp_events st' = sp_events st"
  shows "timed W st'"
  using assms(1,4,5) elapsed_later [OF assms(2-4)] unfolding timed_def by (auto intro: order_trans)

lemma timed_event:
  assumes "timed W st" "steady W" "sp_log st' = sp_log st @ new" "sp_started st' = sp_started st"
    "sp_events st' = sp_events st @ [e]" "ev_seconds e = round_to 4 (elapsed W st)"
  shows "timed W st'"
  using assms(1,4,5,6) elapsed_later [OF assms(2-4)] elapsed_nonneg [OF assms(2), of st] round_to_nonneg [of "elapsed W st" 4]
  unfolding timed_def by (auto simp: sorted_append intro: order_trans)

lemma grows_ask: "P x \<Longrightarrow> keeps (grows W P) (ask x f)"
  unfolding keeps_def ask_def grows_def by (auto intro: timed_later)

lemma grows_modify:
  "(\<And>st. sp_log (f st) = sp_log st \<and> (\<exists>es. sp_errors (f st) = sp_errors st @ es) \<and> sp_started (f st) = sp_started st \<and>
     sp_events (f st) = sp_events st) \<Longrightarrow> keeps (grows W P) (modify f)"
  unfolding keeps_def modify_def grows_def by (auto intro: timed_later [where new = "[]"])

lemma grows_event:
  assumes "P (SaveEvent stage name)"
  shows "keeps (grows W P) (note_event W stage name fatal)"
  unfolding keeps_def note_event_def grows_def Let_def
  using assms by (auto split: sum.splits intro: timed_event)

text \<open>The calls that are neither a control of a recorder nor the release of the child.\<close>

definition plain_call :: "action \<Rightarrow> bool" where
  "plain_call x = (case x of Control _ _ \<Rightarrow> False | Release \<Rightarrow> False | _ \<Rightarrow> True)"

lemmas grow_rules = grow.keeps_pure grow.keeps_bind grow.keeps_catch grow.keeps_for grow.keeps_choice grow.keeps_option
  grows_ask grows_modify grows_event

lemma grows_error: "(\<And>x. plain_call x \<Longrightarrow> P x) \<Longrightarrow> keeps (grows W P) (sup_error W stage name m)"
  unfolding sup_error_def by (intro grow_rules) (auto simp: plain_call_def)

lemma grows_status: "(\<And>x. plain_call x \<Longrightarrow> P x) \<Longrightarrow> keeps (grows W P) (get_status W r)"
  "(\<And>x. plain_call x \<Longrightarrow> P x) \<Longrightarrow> keeps (grows W P) (note_status W r)"
  unfolding get_status_def note_status_def by (intro grow_rules; auto simp: plain_call_def)+

lemma grows_control: "P (Control r text) \<Longrightarrow> keeps (grows W P) (control W r text)"
  unfolding control_def by (intro grow_rules)

lemma grows_snapshot: "(\<And>x. plain_call x \<Longrightarrow> P x) \<Longrightarrow> keeps (grows W P) (get_snapshot W r)"
  unfolding get_snapshot_def by (intro grow_rules) (auto simp: plain_call_def)

lemmas call_rules = grow_rules grows_error grows_status grows_control grows_snapshot

lemma grows_preflight: "(\<And>x. plain_call x \<Longrightarrow> P x) \<Longrightarrow> keeps (grows W P) (preflight W a r)"
  unfolding preflight_def by (intro call_rules) auto

lemma grows_arm:
  assumes "\<And>x. plain_call x \<Longrightarrow> P x" and "P (Control r (if ar_enabled a then arm_text (ar_run a) pid else ''off''))"
  shows "keeps (grows W P) (arm W a pid r)"
  unfolding arm_def using assms by (intro call_rules) (auto simp: plain_call_def)

lemma grows_wait_turn: "(\<And>x. plain_call x \<Longrightarrow> P x) \<Longrightarrow> keeps (grows W P) (wait_turn W a)"
  unfolding wait_turn_def set_exit_def poll_def by (intro call_rules) (auto simp: plain_call_def)

lemma grows_reap_turn: "(\<And>x. plain_call x \<Longrightarrow> P x) \<Longrightarrow> keeps (grows W P) (reap_turn W)"
  unfolding reap_turn_def set_exit_def by (intro call_rules) (auto simp: plain_call_def)

lemma grows_seal:
  assumes "\<And>x. plain_call x \<Longrightarrow> P x" and "P (Control r (seal_text (ar_run a)))"
  shows "keeps (grows W P) (seal_body W a r)" "keeps (grows W P) (seal W a r)"
  unfolding seal_def seal_body_def using assms by (intro call_rules; auto simp: plain_call_def)+

lemma grows_final: "(\<And>x. plain_call x \<Longrightarrow> P x) \<Longrightarrow> keeps (grows W P) (final_body W a)"
  "(\<And>x. plain_call x \<Longrightarrow> P x) \<Longrightarrow> keeps (grows W P) (final W a)"
proof -
  assume P: "\<And>x. plain_call x \<Longrightarrow> P x"
  show body: "keeps (grows W P) (final_body W a)"
    unfolding final_body_def final_check_def by (intro call_rules) (auto simp: P)
  have "keeps (grows W P) (scatch (final_body W a) (sup_error W ''final-status'' None))"
    using P by (intro call_rules body) auto
  then show "keeps (grows W P) (final W a)" unfolding final_def [abs_def] by (rule grow.keeps_when)
qed

lemma grows_seal_all:
  assumes "\<And>x. plain_call x \<Longrightarrow> P x" and "\<And>r. P (Control r (seal_text (ar_run a)))"
  shows "keeps (grows W P) (seal_all W a)"
  unfolding seal_all_def [abs_def] by (rule grow.keeps_when) (intro call_rules grows_seal assms)

lemma grows_note_cancel: "(\<And>x. plain_call x \<Longrightarrow> P x) \<Longrightarrow> keeps (grows W P) (note_cancel W)"
  unfolding note_cancel_def [abs_def] by (rule grow.keeps_when) (intro call_rules)

lemma grows_clear:
  assumes "\<And>x. plain_call x \<Longrightarrow> P x" and "\<And>r. P (Control r ''off'')"
  shows "keeps (grows W P) (clear_body W a r)" "keeps (grows W P) (clear W a r)" "keeps (grows W P) (clear_all W a)"
proof -
  show body: "keeps (grows W P) (clear_body W a r)" for r
    unfolding clear_body_def using assms by (intro call_rules) (auto simp: plain_call_def)
  show clear: "keeps (grows W P) (clear W a r)" for r unfolding clear_def using assms by (intro call_rules body) auto
  show "keeps (grows W P) (clear_all W a)"
    unfolding clear_all_def [abs_def] by (rule grow.keeps_when) (intro call_rules clear)
qed

lemma grows_finish: "(\<And>x. plain_call x \<Longrightarrow> P x) \<Longrightarrow> keeps (grows W P) (finish_run W)"
  unfolding finish_run_def by (intro call_rules) (auto simp: plain_call_def)

subsection \<open>Computations without an error\<close>

definition fine :: "'a act \<Rightarrow> sup \<Rightarrow> 'a \<Rightarrow> sup \<Rightarrow> bool" where
  "fine f st x st' \<longleftrightarrow> f st = (Inr x, st') \<and> sp_errors st' = []"

lemma grows_errors: "grows W P st st' \<Longrightarrow> sp_errors st' = [] \<Longrightarrow> sp_errors st = []"
  by (auto simp: grows_def)

lemma fine_start: "keeps (grows W P) f \<Longrightarrow> fine f st x st' \<Longrightarrow> sp_errors st = []"
  unfolding fine_def using keepsD grows_errors by metis

lemma fine_bind:
  assumes "fine (sbind f g) st x st'" and "\<And>y. keeps (grows W P) (g y)"
  obtains y s where "fine f st y s" "fine (g y) s x st'"
proof -
  obtain y s where "f st = (Inr y, s)" "g y s = (Inr x, st')" "sp_errors st' = []"
    using assms(1) unfolding fine_def sbind_def by (auto split: prod.splits sum.splits)
  moreover then have "sp_errors s = []" using fine_start [OF assms(2), of y s x st'] by (simp add: fine_def)
  ultimately show ?thesis using that by (simp add: fine_def)
qed

lemma fine_for_Cons:
  assumes "fine (sfor f (r # rs)) st x st'" and "\<forall>r. keeps (grows W P) (f r)"
  shows "\<exists>y s. fine (f r) st y s \<and> fine (sfor f rs) s x st'"
proof -
  from assms(1) have "fine (sbind (f r) (\<lambda>_. sfor f rs)) st x st'" by simp
  then show ?thesis by (rule fine_bind [where W = W and P = P]) (use assms(2) in \<open>auto intro: grow.keeps_for\<close>)
qed

lemma fine_pure [simp]:
  "fine (sret y) st x st' \<longleftrightarrow> x = y \<and> st' = st \<and> sp_errors st = []"
  "fine (slift r) st x st' \<longleftrightarrow> r = Inr x \<and> st' = st \<and> sp_errors st = []"
  "fine (sguard m p) st u st' \<longleftrightarrow> p st \<and> st' = st \<and> sp_errors st = []"
  "fine (ask c f) st x st' \<longleftrightarrow> f (sp_log st) = Inr x \<and> st' = st\<lparr>sp_log := sp_log st @ [c]\<rparr> \<and> sp_errors st = []"
  "fine (modify h) st u st' \<longleftrightarrow> st' = h st \<and> sp_errors (h st) = []"
  by (auto simp: fine_def sret_def slift_def sguard_def ask_def modify_def)

lemma fine_event:
  "fine (note_event W stage name fatal) st u st' \<longleftrightarrow> w_event W (sp_log st) = Inr () \<and> sp_errors st = [] \<and>
     st' = st\<lparr>sp_events := sp_events st @ [\<lparr>ev_stage = stage, ev_recorder = name, ev_seconds = round_to 4 (elapsed W st)\<rparr>],
              sp_log := sp_log st @ [SaveEvent stage name]\<rparr>"
  by (auto simp: fine_def note_event_def Let_def split: sum.splits if_splits)

lemma error_not_fine: "\<not> fine (sup_error W stage name m) st u st'"
  by (auto simp: fine_def sup_error_def sbind_def modify_def note_event_def Let_def split: sum.splits)

lemma fine_catch: "fine (scatch f (sup_error W stage name)) st x st' \<Longrightarrow> fine f st x st'"
  using error_not_fine unfolding fine_def scatch_def by (fastforce split: prod.splits sum.splits)

definition transcript :: "sup \<Rightarrow> (string \<times> recorder option) list" where
  "transcript st = map (\<lambda>e. (ev_stage e, ev_recorder e)) (sp_events st)"

text \<open>The status is one the recorder gave.\<close>

definition given_status :: "world \<Rightarrow> recorder \<Rightarrow> status \<Rightarrow> bool" where
  "given_status W r s \<longleftrightarrow> (\<exists>l text. w_status W l r = Inr text \<and> parse_status r text = Inr s)"

abbreviation tame :: "world \<Rightarrow> 'a act \<Rightarrow> bool" where
  "tame W f \<equiv> keeps (grows W (\<lambda>_. True)) f"

lemmas tame_rules = call_rules [where P = "\<lambda>_. True"]

lemma tame_parts: "tame W (preflight W a r)" "tame W (arm W a pid r)" "tame W (wait_turn W a)" "tame W (seal_body W a r)"
  "tame W (seal W a r)" "tame W (final_body W a)" "tame W (final W a)" "tame W (seal_all W a)" "tame W (note_cancel W)"
  "tame W (clear_body W a r)" "tame W (clear W a r)" "tame W (clear_all W a)" "tame W (finish_run W)" "tame W (final_check W a r)"
  "tame W (poll W a r)" "tame W (fork_child W)" "tame W (release W)"
  unfolding final_check_def poll_def fork_child_def release_def
  by (intro grows_preflight grows_arm grows_wait_turn grows_seal grows_final grows_seal_all grows_note_cancel grows_clear grows_finish
      tame_rules; simp)+

lemmas fine_elim = fine_bind [where P = "\<lambda>_. True"]

lemma fine_get_status:
  assumes "fine (get_status W r) st s st'"
  shows "given_status W r s \<and> st' = st\<lparr>sp_log := sp_log st @ [GetStatus r]\<rparr>"
  using assms unfolding get_status_def
  by (elim fine_elim [where W = W], (intro tame_rules; simp)+) (auto simp: given_status_def)

lemma fine_note_status:
  assumes "fine (note_status W r) st s st'"
  shows "given_status W r s \<and> st' = st\<lparr>sp_log := sp_log st @ [GetStatus r], sp_status := dset r s (sp_status st)\<rparr>"
  using assms unfolding note_status_def
  by (elim fine_elim [where W = W], (intro tame_rules; simp)+) (auto dest!: fine_get_status)

lemma fine_preflight:
  assumes "fine (preflight W a r) st x st'"
  shows "\<exists>s. st' = st\<lparr>sp_log := sp_log st @ [GetStatus r], sp_status := dset r s (sp_status st)\<rparr>"
  using assms unfolding preflight_def
  by (elim fine_elim [where W = W], (intro tame_rules; simp)+) (auto dest!: fine_note_status)

definition same_child :: "sup \<Rightarrow> sup \<Rightarrow> bool" where
  "same_child st st' \<longleftrightarrow> sp_pid st' = sp_pid st \<and> sp_exit st' = sp_exit st \<and> sp_reaped st' = sp_reaped st \<and> sp_released st' = sp_released st"

lemma fine_arm:
  assumes "fine (arm W a pid r) st x st'" and "ar_enabled a"
  shows "\<exists>s. sp_status st' = dset r s (sp_status st) \<and> sp_armed st' = sp_armed st @ [r] \<and> same_child st st' \<and>
    sp_snapshots st' = sp_snapshots st \<and> transcript st' = transcript st @ [(''arm-attempt'', Some r), (''armed'', Some r)] \<and>
    sp_log st' = sp_log st @ [SaveEvent ''arm-attempt'' (Some r), Control r (arm_text (ar_run a) pid), GetStatus r, SaveEvent ''armed'' (Some r)]"
  using assms(1) unfolding arm_def control_def if_P [OF assms(2)]
  by (elim fine_elim [where W = W], (intro tame_rules; simp)+)
    (drule fine_note_status, clarsimp simp: fine_event transcript_def same_child_def, blast)

text \<open>With tracing off the recorder is told so and is not armed.\<close>

lemma fine_arm_off:
  assumes "fine (arm W a pid r) st x st'" and "\<not> ar_enabled a"
  shows "sp_log st' = sp_log st @ [Control r ''off'', GetStatus r, SaveEvent ''disabled'' (Some r)]"
  using assms(1) unfolding arm_def control_def if_not_P [OF assms(2)]
  by (elim fine_elim [where W = W], (intro tame_rules; simp)+)
    (drule fine_note_status, clarsimp simp: fine_event)

lemma fine_seal:
  assumes "fine (seal W a r) st x st'"
  shows "\<exists>s raw l. w_save W l r raw = Inr () \<and> sp_status st' = dset r s (sp_status st) \<and>
    sp_snapshots st' = dset r (length raw, w_sha W raw) (sp_snapshots st) \<and> sp_armed st' = sp_armed st \<and> same_child st st' \<and>
    transcript st' = transcript st @ [(''sealed'', Some r), (''snapshot-persisted'', Some r)] \<and>
    sp_log st' = sp_log st @ [GetStatus r, Control r (seal_text (ar_run a)), SaveEvent ''sealed'' (Some r), GetSnapshot r, SaveSnapshot r raw,
       SaveEvent ''snapshot-persisted'' (Some r), GetStatus r]"
  using fine_catch [OF assms [unfolded seal_def]] unfolding seal_body_def control_def get_snapshot_def
  by (elim fine_elim [where W = W], (intro tame_rules; simp)+)
    (drule fine_note_status, drule fine_note_status, clarsimp simp: fine_event transcript_def same_child_def rbind_Inr, blast)

lemma fine_final_check:
  assumes "fine (final_check W a r) st x st'"
  shows "\<exists>s. given_status W r s \<and> check_state s (ar_run a) (ar_enabled a) (ar_enabled a) = Inr () \<and> status_fld s ''opens'' = 0 \<and>
    st' = st\<lparr>sp_log := sp_log st @ [GetStatus r], sp_status := dset r s (sp_status st)\<rparr>"
  using assms unfolding final_check_def
  by (elim fine_elim [where W = W], (intro tame_rules; simp)+) (auto simp: need_Inr dest!: fine_note_status)

lemma fine_clear:
  assumes "fine (clear W a r) st x st'"
  shows "sp_status st' = sp_status st \<and> sp_snapshots st' = sp_snapshots st \<and> sp_armed st' = sp_armed st \<and> same_child st st' \<and>
    transcript st' = transcript st @ [(''cleared'', Some r)] \<and>
    sp_log st' = sp_log st @ [Control r ''off'', GetStatus r, SaveEvent ''cleared'' (Some r)]"
  using fine_catch [OF assms [unfolded clear_def]] unfolding clear_body_def control_def
  by (elim fine_elim [where W = W], (intro tame_rules; simp)+)
    (drule fine_get_status, clarsimp simp: fine_event transcript_def same_child_def)

definition recorded :: "sup \<Rightarrow> recorder set" where
  "recorded st = dom (dget (sp_status st))"

lemma fine_preflights:
  "fine (sfor (preflight W a) rs) st x st' \<Longrightarrow> transcript st' = transcript st \<and> sp_armed st' = sp_armed st \<and>
     sp_snapshots st' = sp_snapshots st \<and> same_child st st' \<and> recorded st' = recorded st \<union> set rs"
proof (induction rs arbitrary: st)
  case (Cons r rs)
  obtain y s where "fine (preflight W a r) st y s" "fine (sfor (preflight W a) rs) s x st'"
    using fine_for_Cons [OF Cons.prems, of W "\<lambda>_. True"] tame_parts(1) by blast
  then show ?case using Cons.IH fine_preflight by (fastforce simp: transcript_def same_child_def recorded_def)
qed (simp add: same_child_def)

lemma fine_arms:
  assumes "ar_enabled a"
  shows "fine (sfor (arm W a pid) rs) st x st' \<Longrightarrow> sp_armed st' = sp_armed st @ rs \<and> sp_snapshots st' = sp_snapshots st \<and> same_child st st' \<and>
     transcript st' = transcript st @ concat (map (\<lambda>r. [(''arm-attempt'', Some r), (''armed'', Some r)]) rs) \<and>
     recorded st' = recorded st \<union> set rs \<and>
     (\<exists>new. sp_log st' = sp_log st @ new \<and> (\<forall>r \<in> set rs. Control r (arm_text (ar_run a) pid) \<in> set new))"
proof (induction rs arbitrary: st)
  case (Cons r rs)
  obtain y s where s: "fine (arm W a pid r) st y s" "fine (sfor (arm W a pid) rs) s x st'"
    using fine_for_Cons [OF Cons.prems, of W "\<lambda>_. True"] tame_parts(2) by blast
  note one = fine_arm [OF s(1) assms] and rest = Cons.IH [OF s(2)]
  from one rest show ?case by (auto simp: same_child_def recorded_def)
qed (simp add: same_child_def)

text \<open>What a recorder is told before the child is released.\<close>

definition arm_command :: "sup_args \<Rightarrow> nat \<Rightarrow> string" where
  "arm_command a pid = (if ar_enabled a then arm_text (ar_run a) pid else ''off'')"

lemma fine_arm_told:
  assumes "fine (arm W a pid r) st x st'"
  shows "\<exists>new. sp_log st' = sp_log st @ new \<and> Control r (arm_command a pid) \<in> set new"
  using fine_arm [OF assms] fine_arm_off [OF assms] by (cases "ar_enabled a") (auto simp: arm_command_def)

lemma fine_arms_told:
  "fine (sfor (arm W a pid) rs) st x st' \<Longrightarrow>
     \<exists>new. sp_log st' = sp_log st @ new \<and> (\<forall>r \<in> set rs. Control r (arm_command a pid) \<in> set new)"
proof (induction rs arbitrary: st)
  case (Cons r rs)
  obtain y s where s: "fine (arm W a pid r) st y s" "fine (sfor (arm W a pid) rs) s x st'"
    using fine_for_Cons [OF Cons.prems, of W "\<lambda>_. True"] tame_parts(2) by blast
  from fine_arm_told [OF s(1)] Cons.IH [OF s(2)] show ?case by fastforce
qed simp

lemma fine_seals:
  "fine (sfor (seal W a) rs) st x st' \<Longrightarrow> sp_armed st' = sp_armed st \<and> same_child st st' \<and>
     transcript st' = transcript st @ concat (map (\<lambda>r. [(''sealed'', Some r), (''snapshot-persisted'', Some r)]) rs) \<and>
     recorded st' = recorded st \<union> set rs \<and> dom (dget (sp_snapshots st')) = dom (dget (sp_snapshots st)) \<union> set rs \<and>
     (\<forall>r. r \<notin> set rs \<longrightarrow> dget (sp_snapshots st') r = dget (sp_snapshots st) r) \<and>
     (\<exists>new. sp_log st' = sp_log st @ new \<and> (\<forall>r \<in> set rs. Control r (seal_text (ar_run a)) \<in> set new \<and>
        (\<exists>raw l. SaveSnapshot r raw \<in> set new \<and> w_save W l r raw = Inr () \<and> dget (sp_snapshots st') r = Some (length raw, w_sha W raw))))"
proof (induction rs arbitrary: st)
  case (Cons r rs)
  obtain y s where s: "fine (seal W a r) st y s" "fine (sfor (seal W a) rs) s x st'"
    using fine_for_Cons [OF Cons.prems, of W "\<lambda>_. True"] tame_parts(5) by blast
  obtain q raw l where one: "w_save W l r raw = Inr ()" "sp_status s = dset r q (sp_status st)"
    "sp_snapshots s = dset r (length raw, w_sha W raw) (sp_snapshots st)" "sp_armed s = sp_armed st" "same_child st s"
    "transcript s = transcript st @ [(''sealed'', Some r), (''snapshot-persisted'', Some r)]"
    "sp_log s = sp_log st @ [GetStatus r, Control r (seal_text (ar_run a)), SaveEvent ''sealed'' (Some r), GetSnapshot r, SaveSnapshot r raw,
       SaveEvent ''snapshot-persisted'' (Some r), GetStatus r]"
    using fine_seal [OF s(1)] by blast
  note rest = Cons.IH [OF s(2)]
  obtain new where new: "sp_log st' = sp_log s @ new" "\<forall>q \<in> set rs. Control q (seal_text (ar_run a)) \<in> set new \<and>
        (\<exists>raw l. SaveSnapshot q raw \<in> set new \<and> w_save W l q raw = Inr () \<and> dget (sp_snapshots st') q = Some (length raw, w_sha W raw))"
    using rest by blast
  let ?new = "[GetStatus r, Control r (seal_text (ar_run a)), SaveEvent ''sealed'' (Some r), GetSnapshot r, SaveSnapshot r raw,
       SaveEvent ''snapshot-persisted'' (Some r), GetStatus r] @ new"
  have mine: "dget (sp_snapshots st') r = Some (length raw, w_sha W raw)" if "r \<notin> set rs" using rest one(3) that by simp
  have log: "sp_log st' = sp_log st @ ?new" using new(1) one(7) by simp
  have each: "\<forall>q \<in> set (r # rs). Control q (seal_text (ar_run a)) \<in> set ?new \<and>
        (\<exists>raw l. SaveSnapshot q raw \<in> set ?new \<and> w_save W l q raw = Inr () \<and> dget (sp_snapshots st') q = Some (length raw, w_sha W raw))"
  proof
    fix q assume "q \<in> set (r # rs)"
    then consider "q \<in> set rs" | "q = r" "r \<notin> set rs" by auto
    then show "Control q (seal_text (ar_run a)) \<in> set ?new \<and>
        (\<exists>raw l. SaveSnapshot q raw \<in> set ?new \<and> w_save W l q raw = Inr () \<and> dget (sp_snapshots st') q = Some (length raw, w_sha W raw))"
    proof cases
      case 1
      then obtain raw' l' where "Control q (seal_text (ar_run a)) \<in> set ?new" "SaveSnapshot q raw' \<in> set ?new" "w_save W l' q raw' = Inr ()"
        "dget (sp_snapshots st') q = Some (length raw', w_sha W raw')" using new(2) by fastforce
      then show ?thesis by blast
    next
      case 2 then show ?thesis using mine one(1) by auto
    qed
  qed
  have "recorded st' = recorded st \<union> set (r # rs)" "dom (dget (sp_snapshots st')) = dom (dget (sp_snapshots st)) \<union> set (r # rs)"
    "\<forall>q. q \<notin> set (r # rs) \<longrightarrow> dget (sp_snapshots st') q = dget (sp_snapshots st) q"
    using rest one(2,3) by (auto simp: recorded_def)
  moreover have "sp_armed st' = sp_armed st" "same_child st st'"
    "transcript st' = transcript st @ concat (map (\<lambda>r. [(''sealed'', Some r), (''snapshot-persisted'', Some r)]) (r # rs))"
    using rest one(4-6) by (simp_all add: same_child_def)
  ultimately show ?case using log each by blast
qed (simp add: same_child_def)

lemma fine_finals:
  "fine (sfor (final_check W a) rs) st x st' \<Longrightarrow> transcript st' = transcript st \<and> sp_armed st' = sp_armed st \<and>
     sp_snapshots st' = sp_snapshots st \<and> same_child st st' \<and> recorded st' = recorded st \<union> set rs \<and>
     (\<exists>new. sp_log st' = sp_log st @ new) \<and> (\<forall>r. r \<notin> set rs \<longrightarrow> dget (sp_status st') r = dget (sp_status st) r) \<and>
     (\<forall>r \<in> set rs. \<exists>s. dget (sp_status st') r = Some s \<and> given_status W r s \<and>
        check_state s (ar_run a) (ar_enabled a) (ar_enabled a) = Inr () \<and> status_fld s ''opens'' = 0)"
proof (induction rs arbitrary: st)
  case (Cons r rs)
  obtain y s where s: "fine (final_check W a r) st y s" "fine (sfor (final_check W a) rs) s x st'"
    using fine_for_Cons [OF Cons.prems, of W "\<lambda>_. True"] tame_parts(14) by blast
  obtain q where q: "given_status W r q" "check_state q (ar_run a) (ar_enabled a) (ar_enabled a) = Inr ()" "status_fld q ''opens'' = 0"
    "s = st\<lparr>sp_log := sp_log st @ [GetStatus r], sp_status := dset r q (sp_status st)\<rparr>"
    using fine_final_check [OF s(1)] by blast
  note rest = Cons.IH [OF s(2)]
  have "dget (sp_status st') r = Some q" if "r \<notin> set rs" using rest q(4) that by simp
  then show ?case using rest q by (auto simp: transcript_def same_child_def recorded_def)
qed (simp add: same_child_def)

lemma fine_clears:
  "fine (sfor (clear W a) rs) st x st' \<Longrightarrow> sp_status st' = sp_status st \<and> sp_snapshots st' = sp_snapshots st \<and> sp_armed st' = sp_armed st \<and>
     same_child st st' \<and> transcript st' = transcript st @ map (\<lambda>r. (''cleared'', Some r)) rs"
proof (induction rs arbitrary: st)
  case (Cons r rs)
  obtain y s where "fine (clear W a r) st y s" "fine (sfor (clear W a) rs) s x st'"
    using fine_for_Cons [OF Cons.prems, of W "\<lambda>_. True"] tame_parts(11) by blast
  then show ?case using Cons.IH fine_clear by (fastforce simp: same_child_def)
qed (simp add: same_child_def)

text \<open>Polling changes nothing but the last status of each recorder, and the child's exit.\<close>

definition polls :: "recorder list \<Rightarrow> sup \<Rightarrow> sup \<Rightarrow> bool" where
  "polls rs st st' \<longleftrightarrow> sp_events st' = sp_events st \<and> sp_snapshots st' = sp_snapshots st \<and> sp_armed st' = sp_armed st \<and>
     sp_pid st' = sp_pid st \<and> sp_released st' = sp_released st \<and> recorded st \<subseteq> recorded st' \<and> recorded st' \<subseteq> recorded st \<union> set rs"

interpretation poll: act_relation "polls rs" for rs
proof
  show "polls rs st st" for st by (simp add: polls_def)
  show "polls rs st st''" if "polls rs st st'" "polls rs st' st''" for st st' st'' using that unfolding polls_def by auto
qed

lemma polls_ask: "keeps (polls rs) (ask x f)"
  by (simp add: keeps_def ask_def polls_def recorded_def)

lemma polls_modify: "(\<And>st. polls rs st (f st)) \<Longrightarrow> keeps (polls rs) (modify f)"
  by (simp add: keeps_def modify_def)

lemmas poll_rules = poll.keeps_pure poll.keeps_bind poll.keeps_option polls_ask polls_modify

lemma keeps_for_in:
  assumes "\<And>r. r \<in> set rs \<Longrightarrow> keeps (polls qs) (f r)"
  shows "keeps (polls qs) (sfor f rs)"
  using assms by (induction rs) (auto intro: poll_rules)

lemma polls_wait_turn: "keeps (polls (ar_backends a)) (wait_turn W a)"
proof -
  have "keeps (polls (ar_backends a)) (poll W a r)" if "r \<in> set (ar_backends a)" for r
    unfolding poll_def note_status_def get_status_def
    using that by (intro poll_rules) (auto simp: polls_def recorded_def split: if_splits)
  then have "keeps (polls (ar_backends a)) (sfor (poll W a) (ar_backends a))" by (rule keeps_for_in)
  then show ?thesis unfolding wait_turn_def set_exit_def
    by (intro poll_rules) (auto simp: polls_def recorded_def)
qed

lemma wait_turn_ended: "wait_turn W a st = (Inr True, st') \<Longrightarrow> sp_reaped st' \<and> (\<exists>code l. w_wait W l = Inr (Some code) \<and> sp_exit st' = Some code)"
  unfolding wait_turn_def set_exit_def sbind_def sret_def modify_def ask_def
  by (fastforce split: prod.splits sum.splits option.splits)

subsection \<open>Computations that raise on every error\<close>

definition strict :: "'a act \<Rightarrow> bool" where
  "strict f \<longleftrightarrow> (\<forall>st x st'. f st = (Inr x, st') \<longrightarrow> sp_errors st' = sp_errors st)"

lemma strict_basic: "strict (sret x)" "strict (slift r)" "strict (sguard m p)" "strict (ask c h)" "strict (note_event W stage name True)"
  by (auto simp: strict_def sret_def slift_def sguard_def ask_def note_event_def Let_def split: sum.splits)

lemma strict_modify: "(\<And>st. sp_errors (f st) = sp_errors st) \<Longrightarrow> strict (modify f)"
  by (simp add: strict_def modify_def)

lemma strict_bind: "strict f \<Longrightarrow> (\<And>x. strict (g x)) \<Longrightarrow> strict (sbind f g)"
  unfolding strict_def sbind_def by (fastforce split: prod.splits sum.splits)

lemma strict_for: "(\<And>x. strict (f x)) \<Longrightarrow> strict (sfor f xs)"
  by (induction xs) (auto intro: strict_basic strict_bind)

lemma strict_choice: "strict f \<Longrightarrow> strict g \<Longrightarrow> strict (if b then f else g)"
  by simp

lemmas strict_rules = strict_basic strict_modify strict_bind strict_for strict_choice

lemma strict_prepare: "strict (prepare W a)"
  unfolding prepare_def preflight_def arm_def fork_child_def note_status_def get_status_def control_def
  by (intro strict_rules; simp)+

lemma strict_fine: "strict f \<Longrightarrow> f st = (Inr x, st') \<Longrightarrow> sp_errors st = [] \<Longrightarrow> fine f st x st'"
  by (simp add: strict_def fine_def)

subsection \<open>The phases of a run\<close>

definition arm_stages :: "recorder list \<Rightarrow> (string \<times> recorder option) list" where
  "arm_stages rs = [(''preflight'', None), (''child-blocked'', None)] @
     concat (map (\<lambda>r. [(''arm-attempt'', Some r), (''armed'', Some r)]) rs)"

lemma sup_init_simps [simp]:
  "sp_log (sup_init W) = []" "sp_errors (sup_init W) = []" "transcript (sup_init W) = []" "sp_armed (sup_init W) = []"
  "sp_snapshots (sup_init W) = []" "recorded (sup_init W) = {}" "sp_reaped (sup_init W) = False" "sp_exit (sup_init W) = None"
  by (simp_all add: sup_init_def transcript_def recorded_def)

lemma fine_fork:
  assumes "fine (fork_child W) st pid st'"
  shows "w_fork W (sp_log st) = Inr pid \<and> st' = st\<lparr>sp_log := sp_log st @ [Fork], sp_pid := Some pid, sp_writer := True\<rparr>"
  using assms unfolding fork_child_def
  by (elim fine_elim [where W = W], (intro tame_rules; simp)+) auto

lemma fine_prepare_parts:
  assumes "fine (prepare W a) (sup_init W) x st"
  obtains pid s1 s2 s3 s4 u1 u2 u3 u4 where "fine (note_event W ''preflight'' None True) (sup_init W) u1 s1"
    "fine (sfor (preflight W a) (ar_backends a)) s1 u2 s2" "fine (fork_child W) s2 pid s3"
    "fine (note_event W ''child-blocked'' None True) s3 u3 s4" "fine (sfor (arm W a pid) (ar_backends a)) s4 u4 st"
proof -
  obtain s1 s2 s2' s3 s4 s5 s5' pid u1 u2 u3 u4 u5 u6 where e: "fine (note_event W ''preflight'' None True) (sup_init W) u1 s1"
    "fine (sfor (preflight W a) (ar_backends a)) s1 u2 s2" "fine (fork_child W) s2' pid s3" "fine (note_event W ''child-blocked'' None True) s3 u3 s4"
    "fine (sfor (arm W a pid) (ar_backends a)) s4 u4 s5"
    and g: "fine (sguard ''cancel/deadline before fork'' (\<lambda>st. \<not> (cancelled W st \<or> elapsed W st \<ge> ar_deadline a))) s2 u5 s2'"
    "fine (sguard ''cancelled before child release'' (\<lambda>st. \<not> cancelled W st)) s5 u6 s5'"
    "fine (sguard ''deadline before child release'' (\<lambda>st. \<not> elapsed W st \<ge> ar_deadline a)) s5' x st"
    using assms unfolding prepare_def
    by (elim fine_elim [where W = W], (intro tame_rules tame_parts; simp)+) (rule that, assumption+)
  have "s2' = s2" "st = s5" using g by simp_all
  with e show ?thesis using that by blast
qed

text \<open>Before the child is released, every recorder has been told its part.\<close>

lemma fine_prepare_told:
  assumes "fine (prepare W a) (sup_init W) x st"
  shows "\<exists>pid l. w_fork W l = Inr pid \<and> (\<forall>r \<in> set (ar_backends a). Control r (arm_command a pid) \<in> set (sp_log st))"
proof -
  obtain pid s2 s3 s4 u4 where e: "fine (fork_child W) s2 pid s3" "fine (sfor (arm W a pid) (ar_backends a)) s4 u4 st"
    using assms by (rule fine_prepare_parts)
  from fine_fork [OF e(1)] fine_arms_told [OF e(2)] show ?thesis by auto
qed

lemma fine_prepare:
  assumes "fine (prepare W a) (sup_init W) x st" and "ar_enabled a"
  shows "\<exists>pid l. w_fork W l = Inr pid \<and> sp_pid st = Some pid \<and> sp_armed st = ar_backends a \<and> sp_snapshots st = [] \<and> \<not> sp_reaped st \<and>
    sp_exit st = None \<and> recorded st = set (ar_backends a) \<and> transcript st = arm_stages (ar_backends a) \<and>
    (\<forall>r \<in> set (ar_backends a). Control r (arm_text (ar_run a) pid) \<in> set (sp_log st))"
proof -
  obtain pid s1 s2 s3 s4 u1 u2 u3 u4 where e: "fine (note_event W ''preflight'' None True) (sup_init W) u1 s1"
    "fine (sfor (preflight W a) (ar_backends a)) s1 u2 s2" "fine (fork_child W) s2 pid s3"
    "fine (note_event W ''child-blocked'' None True) s3 u3 s4" "fine (sfor (arm W a pid) (ar_backends a)) s4 u4 st"
    using assms(1) by (rule fine_prepare_parts)
  have s1: "transcript s1 = [(''preflight'', None)]" "sp_armed s1 = []" "sp_snapshots s1 = []" "recorded s1 = {}" "\<not> sp_reaped s1" "sp_exit s1 = None"
    using e(1) by (simp_all add: fine_event transcript_def recorded_def sup_init_def)
  note p = fine_preflights [OF e(2)] and f = fine_fork [OF e(3)]
  have s4: "transcript s4 = [(''preflight'', None), (''child-blocked'', None)]" "sp_armed s4 = []" "sp_snapshots s4 = []"
    "recorded s4 = set (ar_backends a)" "\<not> sp_reaped s4" "sp_exit s4 = None" "sp_pid s4 = Some pid"
    using e(4) s1 p f by (simp_all add: fine_event transcript_def recorded_def same_child_def)
  note arms = fine_arms [OF assms(2) e(5)]
  have "sp_pid st = Some pid" "sp_armed st = ar_backends a" "sp_snapshots st = []" "\<not> sp_reaped st" "sp_exit st = None"
    "recorded st = set (ar_backends a)" "transcript st = arm_stages (ar_backends a)"
    "\<forall>r \<in> set (ar_backends a). Control r (arm_text (ar_run a) pid) \<in> set (sp_log st)"
    using arms s4 by (auto simp: same_child_def arm_stages_def)
  then show ?thesis using f by blast
qed

lemma fine_release:
  assumes "fine (release W) st x st'"
  shows "sp_released st' \<and> sp_pid st' = sp_pid st \<and> sp_armed st' = sp_armed st \<and> sp_snapshots st' = sp_snapshots st \<and>
    sp_reaped st' = sp_reaped st \<and> sp_exit st' = sp_exit st \<and> recorded st' = recorded st \<and>
    transcript st' = transcript st @ [(''child-released'', None)] \<and> sp_log st' = sp_log st @ [Release, SaveEvent ''child-released'' None]"
  using assms unfolding release_def
  by (elim fine_elim [where W = W], (intro tame_rules; simp)+) (auto simp: fine_event transcript_def recorded_def)

text \<open>Handlers turn an exception into a recorded error.\<close>

definition calm :: "unit act \<Rightarrow> bool" where
  "calm f \<longleftrightarrow> (\<forall>st. fst (f st) = Inr ())"

lemma calm_error: "calm (sup_error W stage name m)"
  by (simp add: calm_def sup_error_def sbind_def modify_def note_event_def Let_def split: sum.splits)

lemma calm_catch: "calm (scatch f (sup_error W stage name))"
  using calm_error unfolding calm_def scatch_def by (auto split: prod.splits sum.splits)

lemma calm_state: "calm f \<Longrightarrow> f st = (Inr (), snd (f st))"
  by (simp add: calm_def prod_eq_iff)

lemma calm_bind: "calm f \<Longrightarrow> (\<And>u. calm (g u)) \<Longrightarrow> calm (sbind f g)"
  unfolding calm_def [of "sbind f g"] sbind_def by (subst calm_state) (simp_all add: calm_def)

lemma calm_for: "(\<And>x. calm (f x)) \<Longrightarrow> calm (sfor f xs)"
  by (induction xs) (auto intro: calm_bind simp: calm_def [of "sret x" for x] sret_def)

lemma calm_when: "(\<And>st. calm (f st)) \<Longrightarrow> calm (\<lambda>st. if p st then f st st else (Inr (), st))"
  by (simp add: calm_def)

lemma calm_settle_parts: "calm (seal_all W a)" "calm (final W a)" "calm (note_cancel W)" "calm (clear_all W a)"
  unfolding seal_all_def [abs_def] final_def [abs_def] note_cancel_def [abs_def] clear_all_def [abs_def]
  by (rule calm_when, (rule calm_for)?, simp add: seal_def clear_def calm_catch calm_error)+

lemma settle_steps:
  obtains s3 s4 s5 s6 where "seal_all W a st = (Inr (), s3)" "final W a s3 = (Inr (), s4)" "note_cancel W s4 = (Inr (), s5)"
    "clear_all W a s5 = (Inr (), s6)" "snd (settle W a st) = snd (finish_run W s6)"
proof
  let ?s3 = "snd (seal_all W a st)" let ?s4 = "snd (final W a ?s3)" let ?s5 = "snd (note_cancel W ?s4)"
  show 1: "seal_all W a st = (Inr (), ?s3)" "final W a ?s3 = (Inr (), ?s4)" "note_cancel W ?s4 = (Inr (), ?s5)"
    "clear_all W a ?s5 = (Inr (), snd (clear_all W a ?s5))" by (rule calm_state, rule calm_settle_parts)+
  show "snd (settle W a st) = snd (finish_run W (snd (clear_all W a ?s5)))"
    unfolding settle_def sbind_def by (subst 1, simp, subst 1, simp, subst 1, simp, subst 1, simp)
qed

lemma tame_loop_errors:
  assumes "wait_loop W a st = Some (r, st')" and "sp_errors st' = []"
  shows "sp_errors st = []"
  using grow.wait_loop_R [OF assms(1) tame_parts(3)] assms(2) by (rule grows_errors)

text \<open>The child ran and was waited for, and nothing went wrong so far.\<close>

definition waited :: "world \<Rightarrow> sup_args \<Rightarrow> sup \<Rightarrow> bool" where
  "waited W a st \<longleftrightarrow> (\<exists>pid l. w_fork W l = Inr pid \<and> sp_pid st = Some pid \<and>
       (\<forall>r \<in> set (ar_backends a). Control r (arm_text (ar_run a) pid) \<in> set (sp_log st))) \<and> sp_released st \<and> sp_reaped st \<and>
     (\<exists>code l. w_wait W l = Inr (Some code) \<and> sp_exit st = Some code) \<and> sp_armed st = ar_backends a \<and> recorded st = set (ar_backends a) \<and>
     transcript st = arm_stages (ar_backends a) @ [(''child-released'', None), (''child-waited'', None)]"

lemma execute_waited:
  assumes "execute_child W a (sup_init W) = Some (Inr u, st)" and "sp_errors st = []" and "ar_enabled a"
  shows "waited W a st \<and> sp_snapshots st = []"
proof -
  obtain s0 sw v v' where s0: "sbind (prepare W a) (\<lambda>_. release W) (sup_init W) = (Inr v, s0)"
    and sw: "wait_loop W a s0 = Some (Inr v', sw)" and ev: "note_event W ''child-waited'' None True sw = (Inr u, st)"
    using assms(1) unfolding execute_child_def then_loop_def by (auto split: option.splits prod.splits sum.splits)
  have e: "fine (note_event W ''child-waited'' None True) sw u st" using ev assms(2) by (simp add: fine_def)
  then have "sp_errors sw = []" by (simp add: fine_event)
  then have "sp_errors s0 = []" using tame_loop_errors sw by blast
  with s0 have "fine (sbind (prepare W a) (\<lambda>_. release W)) (sup_init W) v s0" by (simp add: fine_def)
  then obtain y s where p: "fine (prepare W a) (sup_init W) y s" "fine (release W) s v s0"
    by (rule fine_elim [where W = W]) (intro tame_parts, blast)
  note prep = fine_prepare [OF p(1) assms(3)] and rel = fine_release [OF p(2)]
  have poll: "polls (ar_backends a) s0 sw" using poll.wait_loop_R [OF sw polls_wait_turn] .
  obtain t where "wait_turn W a t = (Inr True, sw)" using wait_loop_last [OF sw, of "\<lambda>_. True"] by auto
  then have ended: "sp_reaped sw" "\<exists>code l. w_wait W l = Inr (Some code) \<and> sp_exit sw = Some code" using wait_turn_ended by blast+
  obtain new where log: "sp_log sw = sp_log s0 @ new"
    using grow.wait_loop_R [OF sw tame_parts(3)] by (auto simp: grows_def)
  have tr: "transcript sw = transcript s0" using poll by (simp add: polls_def transcript_def)
  obtain pid l where pid: "w_fork W l = Inr pid" "sp_pid s = Some pid"
    "\<forall>r \<in> set (ar_backends a). Control r (arm_text (ar_run a) pid) \<in> set (sp_log s)" using prep by blast
  have "sp_pid st = Some pid" "\<forall>r \<in> set (ar_backends a). Control r (arm_text (ar_run a) pid) \<in> set (sp_log st)" "sp_released st" "sp_reaped st"
    "\<exists>code l. w_wait W l = Inr (Some code) \<and> sp_exit st = Some code" "sp_armed st = ar_backends a" "sp_snapshots st = []"
    using e prep rel poll ended pid log by (auto simp: fine_event polls_def)
  moreover have "recorded st = set (ar_backends a)"
    using e prep rel poll by (auto simp: fine_event polls_def recorded_def)
  moreover have "transcript st = transcript sw @ [(''child-waited'', None)]" using e by (simp add: fine_event transcript_def)
  then have "transcript st = arm_stages (ar_backends a) @ [(''child-released'', None), (''child-waited'', None)]"
    using tr rel prep by (elim exE conjE) simp
  ultimately show ?thesis using pid(1) unfolding waited_def by blast
qed

text \<open>Both recorders are sealed with a complete capture of one context and their snapshots are saved.\<close>

definition saved :: "world \<Rightarrow> sup_args \<Rightarrow> sup \<Rightarrow> bool" where
  "saved W a st \<longleftrightarrow>
     transcript st = arm_stages (ar_backends a) @ [(''child-released'', None), (''child-waited'', None)] @
       concat (map (\<lambda>r. [(''sealed'', Some r), (''snapshot-persisted'', Some r)]) (ar_backends a)) \<and>
     (\<exists>pid l. w_fork W l = Inr pid \<and> sp_pid st = Some pid) \<and> sp_released st \<and> sp_reaped st \<and>
     recorded st = set (ar_backends a) \<and> dom (dget (sp_snapshots st)) = set (ar_backends a) \<and>
     length (remdups (map (\<lambda>(_, s). status_fld s ''context'') (sp_status st))) = 1 \<and>
     (\<forall>r \<in> set (ar_backends a). Control r (seal_text (ar_run a)) \<in> set (sp_log st) \<and>
        (\<exists>raw l. SaveSnapshot r raw \<in> set (sp_log st) \<and> w_save W l r raw = Inr () \<and> dget (sp_snapshots st) r = Some (length raw, w_sha W raw)) \<and>
        (\<exists>s. dget (sp_status st) r = Some s \<and> given_status W r s \<and> check_state s (ar_run a) True True = Inr () \<and> status_fld s ''opens'' = 0))"

lemma seal_saved:
  assumes "waited W a s2" and "sp_snapshots s2 = []" and "ar_enabled a"
    and "seal_all W a s2 = (Inr (), s3)" and "final W a s3 = (Inr (), s4)" and "sp_errors s4 = []"
  shows "saved W a s4 \<and> sp_exit s4 = sp_exit s2"
proof -
  have e3: "sp_errors s3 = []" using keepsD [OF tame_parts(7) assms(5)] assms(6) by (rule grows_errors)
  have seals: "fine (sfor (seal W a) (ar_backends a)) s2 () s3"
    using assms(1,4) e3 by (simp add: waited_def seal_all_def fine_def)
  note s = fine_seals [OF seals]
  have "sp_reaped s3" using s assms(1) by (simp add: same_child_def waited_def)
  then have "fine (scatch (final_body W a) (sup_error W ''final-status'' None)) s3 () s4"
    using assms(5,6) e3 by (simp add: final_def fine_def)
  then have "fine (final_body W a) s3 () s4" by (rule fine_catch)
  then obtain v where fin: "fine (sfor (final_check W a) (ar_backends a)) s3 v s4"
    and ctx: "length (remdups (map (\<lambda>(_, s). status_fld s ''context'') (sp_status s4))) = 1"
    unfolding final_body_def using assms(3) by (elim fine_elim [where W = W], (intro tame_rules tame_parts; simp)+) auto
  note f = fine_finals [OF fin]
  obtain n3 n4 where log: "sp_log s3 = sp_log s2 @ n3" "sp_log s4 = sp_log s3 @ n4" using s f by blast
  have kept: "\<forall>r \<in> set (ar_backends a). Control r (seal_text (ar_run a)) \<in> set (sp_log s4) \<and>
        (\<exists>raw l. SaveSnapshot r raw \<in> set (sp_log s4) \<and> w_save W l r raw = Inr () \<and> dget (sp_snapshots s4) r = Some (length raw, w_sha W raw))"
  proof
    fix r assume r: "r \<in> set (ar_backends a)"
    then obtain raw l where "Control r (seal_text (ar_run a)) \<in> set (sp_log s3)" "SaveSnapshot r raw \<in> set (sp_log s3)" "w_save W l r raw = Inr ()"
      "dget (sp_snapshots s3) r = Some (length raw, w_sha W raw)" using s log(1) by fastforce
    then show "Control r (seal_text (ar_run a)) \<in> set (sp_log s4) \<and>
        (\<exists>raw l. SaveSnapshot r raw \<in> set (sp_log s4) \<and> w_save W l r raw = Inr () \<and> dget (sp_snapshots s4) r = Some (length raw, w_sha W raw))"
      using f log(2) by auto
  qed
  have rest: "sp_pid s4 = sp_pid s2" "sp_exit s4 = sp_exit s2" "sp_reaped s4" "sp_released s4" "recorded s4 = set (ar_backends a)"
    "dom (dget (sp_snapshots s4)) = set (ar_backends a)"
    using s f assms(1,2) by (auto simp: same_child_def waited_def)
  have tr: "transcript s4 = transcript s2 @ concat (map (\<lambda>r. [(''sealed'', Some r), (''snapshot-persisted'', Some r)]) (ar_backends a))"
    using s f by simp
  have st: "\<forall>r \<in> set (ar_backends a). \<exists>s. dget (sp_status s4) r = Some s \<and> given_status W r s \<and> check_state s (ar_run a) True True = Inr () \<and> status_fld s ''opens'' = 0"
    using f assms(3) by simp
  show ?thesis using assms(1) kept rest tr st ctx unfolding saved_def waited_def by auto
qed

text \<open>The state in which the supervisor ends, whether it returns or raises.\<close>

definition end_state :: "sup_result \<Rightarrow> sup option" where
  "end_state res = (case res of Refused _ \<Rightarrow> None | Raised _ st \<Rightarrow> Some st | Returned st \<Rightarrow> Some st)"

lemma supervise_parts:
  assumes "supervise W a = Some res" and "end_state res = Some st"
  obtains r s1 s1' m s2 where "sup_contract a = Inr ()" "execute_child W a (sup_init W) = Some (r, s1)"
      "s1' = (case r of Inl m \<Rightarrow> snd (sup_error W ''execution'' None m s1) | Inr _ \<Rightarrow> s1)" "reap W s1' = Some (m, s2)"
      "case m of Inl _ \<Rightarrow> st = s2 | Inr _ \<Rightarrow> res = Returned st \<and> st = snd (settle W a s2)"
proof -
  have c: "sup_contract a = Inr ()"
    using assms by (cases "sup_contract a") (auto simp: supervise_def end_state_def)
  then obtain r s1 where e: "execute_child W a (sup_init W) = Some (r, s1)"
    using assms(1) by (cases "execute_child W a (sup_init W)") (auto simp: supervise_def)
  let ?s = "case r of Inl m \<Rightarrow> snd (sup_error W ''execution'' None m s1) | Inr _ \<Rightarrow> s1"
  obtain m s2 where r: "reap W ?s = Some (m, s2)"
    using assms(1) c e by (cases "reap W ?s") (auto simp: supervise_def Let_def)
  have "res = (case m of Inl x \<Rightarrow> Raised x s2 | Inr _ \<Rightarrow> Returned (snd (settle W a s2)))"
    using assms(1) by (cases m) (simp_all add: supervise_def Let_def c e r)
  then have "case m of Inl _ \<Rightarrow> st = s2 | Inr _ \<Rightarrow> res = Returned st \<and> st = snd (settle W a s2)"
    using assms(2) by (cases m) (auto simp: end_state_def)
  with c e r show ?thesis using that by blast
qed

lemma reap_done: "sp_reaped st \<Longrightarrow> reap W st = Some (Inr (), st\<lparr>sp_writer := False\<rparr>)"
  by (simp add: reap_def Let_def)

text \<open>Without an error before the recorders are cleared, everything before went as intended.\<close>

lemma undisturbed:
  assumes "execute_child W a (sup_init W) = Some (r, s1)"
    and "s1' = (case r of Inl m \<Rightarrow> snd (sup_error W ''execution'' None m s1) | Inr _ \<Rightarrow> s1)" and "reap W s1' = Some (Inr u, s2)"
    and "seal_all W a s2 = (Inr (), s3)" "final W a s3 = (Inr (), s4)" "note_cancel W s4 = (Inr (), s5)" "sp_errors s5 = []" "ar_enabled a"
    and "grows W (\<lambda>_. True) s1' s2"
  shows "saved W a s5 \<and> \<not> cancelled W s5"
proof -
  have e4: "sp_errors s4 = []" using keepsD [OF tame_parts(9) assms(6)] assms(7) by (rule grows_errors)
  have e3: "sp_errors s3 = []" using keepsD [OF tame_parts(7) assms(5)] e4 by (rule grows_errors)
  have e2: "sp_errors s2 = []" using keepsD [OF tame_parts(8) assms(4)] e3 by (rule grows_errors)
  have e1: "sp_errors s1' = []" using assms(9) e2 by (rule grows_errors)
  obtain v where r: "r = Inr v"
  proof (cases r)
    case (Inl m)
    have "sup_error W ''execution'' None m s1 = (Inr (), s1')"
      using calm_state [OF calm_error] assms(2) Inl by simp
    with e1 have "fine (sup_error W ''execution'' None m) s1 () s1'" by (simp add: fine_def)
    then show ?thesis using error_not_fine by blast
  qed
  then have s1: "s1' = s1" using assms(2) by simp
  have w: "waited W a s1" "sp_snapshots s1 = []"
    using execute_waited [OF assms(1) [unfolded r] e1 [unfolded s1] assms(8)] by simp_all
  then have s2: "s2 = s1\<lparr>sp_writer := False\<rparr>" using assms(3) reap_done [of s1 W] s1 by (simp add: waited_def)
  have "waited W a s2" "sp_snapshots s2 = []" using w by (simp_all add: s2 waited_def transcript_def recorded_def)
  then have "saved W a s4" using seal_saved [OF _ _ assms(8,4,5) e4] by simp
  moreover have "s5 = s4 \<and> \<not> cancelled W s4"
  proof (cases "cancelled W s4")
    case True
    then have "fine (sup_error W ''cancelled'' None ''supervisor signal received'') s4 () s5"
      using assms(6,7) e4 by (simp add: note_cancel_def fine_def)
    then show ?thesis using error_not_fine by blast
  qed (use assms(6) in \<open>simp add: note_cancel_def\<close>)
  ultimately show ?thesis by simp
qed

subsection \<open>Which calls are made\<close>

lemma grows_prepare:
  assumes "\<And>x. plain_call x \<Longrightarrow> P x" and "\<And>r pid. P (Control r (if ar_enabled a then arm_text (ar_run a) pid else ''off''))"
  shows "keeps (grows W P) (prepare W a)"
  unfolding prepare_def fork_child_def
  by (intro call_rules grows_preflight grows_arm assms) (auto intro!: assms(1) simp: plain_call_def)

lemma grows_reap_loop: "(\<And>x. plain_call x \<Longrightarrow> P x) \<Longrightarrow> reap_loop W until st = Some (m, st') \<Longrightarrow> grows W P st st'"
  by (erule grow.reap_loop_R) (rule grows_reap_turn)

lemma then_loop_Some:
  assumes "then_loop r g = Some (m, st')"
  obtains x st where "r = Some (x, st)" "case x of Inl e \<Rightarrow> m = Inl e \<and> st' = st | Inr _ \<Rightarrow> g st = Some (m, st')"
  using assms unfolding then_loop_def by (auto split: option.splits prod.splits sum.splits)

lemma grows_kill:
  assumes P: "\<And>x. plain_call x \<Longrightarrow> P x" and "kill_child W sig seconds st = Some (m, st')"
  shows "grows W P st st'"
proof (cases "sp_reaped st")
  case False
  then obtain x s where s: "ask (Kill sig) (w_kill W) st = (x, s)"
    and c: "case x of Inl e \<Rightarrow> m = Inl e \<and> st' = s | Inr _ \<Rightarrow> reap_loop W (w_clock W (sp_log s) + seconds) s = Some (m, st')"
    using assms(2) unfolding kill_child_def by (auto elim!: then_loop_Some)
  have 1: "grows W P st s" using grows_ask s by (rule keepsD) (simp add: P plain_call_def)
  moreover have "grows W P s st'" using c grows_reap_loop [OF P] grow.R_refl by (cases x) auto
  ultimately show ?thesis by (rule grow.R_trans)
qed (use assms(2) in \<open>simp add: kill_child_def grow.R_refl\<close>)

lemma grows_reap:
  assumes P: "\<And>x. plain_call x \<Longrightarrow> P x" and "reap W st = Some (m, st')"
  shows "grows W P st st'"
proof -
  let ?s = "st\<lparr>sp_writer := False\<rparr>"
  have "steady W \<longrightarrow> timed W st \<longrightarrow> timed W ?s" by (auto simp: timed_def elapsed_def)
  then have w: "grows W P st ?s" by (simp add: grows_def)
  show ?thesis
  proof (cases "(case sp_pid ?s of None \<Rightarrow> False | Some p \<Rightarrow> p \<noteq> 0) \<and> \<not> sp_reaped ?s")
    case True
    have ends: "grows W P s t" if "Some (if \<not> sp_reaped s then sup_error W ''reap'' None ''child did not reap; no recovery'' s
        else note_event W ''child-terminated-and-waited'' None False s) = Some (m, t)" for s t
      using that keepsD [OF grows_error [OF P]] keepsD [OF grows_event [OF P]] by (auto simp: plain_call_def split: if_splits)
    from True assms(2) obtain x1 t1 where 1: "kill_child W ''SIGTERM'' 1 ?s = Some (x1, t1)"
      "case x1 of Inl e \<Rightarrow> m = Inl e \<and> st' = t1 | Inr _ \<Rightarrow> then_loop (kill_child W ''SIGKILL'' 2 t1) (\<lambda>st.
          Some (if \<not> sp_reaped st then sup_error W ''reap'' None ''child did not reap; no recovery'' st
                else note_event W ''child-terminated-and-waited'' None False st)) = Some (m, st')"
      unfolding reap_def Let_def by (auto elim!: then_loop_Some)
    have g1: "grows W P ?s t1" using P 1(1) by (rule grows_kill)
    have "grows W P t1 st'"
    proof (cases x1)
      case (Inr u)
      with 1(2) obtain x2 t2 where 2: "kill_child W ''SIGKILL'' 2 t1 = Some (x2, t2)"
        "case x2 of Inl e \<Rightarrow> m = Inl e \<and> st' = t2 | Inr _ \<Rightarrow> Some (if \<not> sp_reaped t2
           then sup_error W ''reap'' None ''child did not reap; no recovery'' t2
           else note_event W ''child-terminated-and-waited'' None False t2) = Some (m, st')"
        by (auto elim!: then_loop_Some)
      have "grows W P t1 t2" using P 2(1) by (rule grows_kill)
      moreover have "grows W P t2 st'" using 2(2) ends grow.R_refl by (cases x2) auto
      ultimately show ?thesis by (rule grow.R_trans)
    qed (use 1(2) in \<open>simp add: grow.R_refl\<close>)
    then show ?thesis using w g1 grow.R_trans by metis
  qed (use assms(2) w in \<open>auto simp: reap_def Let_def split: if_splits\<close>)
qed

lemma grows_wait_loop: "(\<And>x. plain_call x \<Longrightarrow> P x) \<Longrightarrow> wait_loop W a st = Some (m, st') \<Longrightarrow> grows W P st st'"
  by (erule grow.wait_loop_R) (rule grows_wait_turn)

lemma grows_execute:
  assumes P: "\<And>x. plain_call x \<Longrightarrow> P x" and "\<And>r pid. P (Control r (if ar_enabled a then arm_text (ar_run a) pid else ''off''))" and "P Release"
    and "execute_child W a st = Some (m, st')"
  shows "grows W P st st'"
proof -
  obtain x s where s: "sbind (prepare W a) (\<lambda>_. release W) st = (x, s)"
    and c: "case x of Inl e \<Rightarrow> m = Inl e \<and> st' = s | Inr _ \<Rightarrow> then_loop (wait_loop W a s) (\<lambda>st. Some (note_event W ''child-waited'' None True st)) = Some (m, st')"
    using assms(4) unfolding execute_child_def by (auto elim!: then_loop_Some)
  have "keeps (grows W P) (release W)"
    unfolding release_def using assms(1,3) by (intro call_rules) (auto simp: plain_call_def)
  then have "keeps (grows W P) (sbind (prepare W a) (\<lambda>_. release W))"
    using assms by (intro call_rules grows_prepare) auto
  then have 1: "grows W P st s" using s by (rule keepsD)
  have "grows W P s st'"
  proof (cases x)
    case (Inr u)
    with c obtain y t where t: "wait_loop W a s = Some (y, t)"
      "case y of Inl e \<Rightarrow> m = Inl e \<and> st' = t | Inr _ \<Rightarrow> Some (note_event W ''child-waited'' None True t) = Some (m, st')"
      by (auto elim!: then_loop_Some)
    have "grows W P s t" using P t(1) by (rule grows_wait_loop)
    moreover have "keeps (grows W P) (note_event W ''child-waited'' None True)" using P by (intro grows_event) (simp add: plain_call_def)
    then have "grows W P t st'" using t(2) grow.R_refl keepsD by (cases y) auto
    ultimately show ?thesis by (rule grow.R_trans)
  qed (use c in \<open>simp add: grow.R_refl\<close>)
  with 1 show ?thesis by (rule grow.R_trans)
qed

lemma grows_recorded: "(\<And>x. plain_call x \<Longrightarrow> P x) \<Longrightarrow>
    grows W P s1 (case r of Inl m \<Rightarrow> snd (sup_error W ''execution'' None m s1) | Inr _ \<Rightarrow> s1)"
  using keepsD [OF grows_error, of P W] by (cases r) (auto simp: grow.R_refl prod_eq_iff intro: prod.collapse)

interpretation child: act_relation same_child
  by unfold_locales (simp_all add: same_child_def)

lemma child_basic: "keeps same_child (ask x f)" "keeps same_child (note_event W stage name fatal)"
  by (auto simp: keeps_def same_child_def ask_def note_event_def Let_def split: sum.splits)

lemma child_modify: "(\<And>st. same_child st (f st)) \<Longrightarrow> keeps same_child (modify f)"
  by (simp add: keeps_def modify_def)

lemmas child_rules = child.keeps_pure child.keeps_bind child.keeps_catch child.keeps_for child_basic child_modify

lemma child_clear: "keeps same_child (clear_all W a)" "keeps same_child (finish_run W)"
proof -
  have "keeps same_child (clear W a r)" for r
    unfolding clear_def clear_body_def sup_error_def get_status_def control_def
    by (intro child_rules) (simp_all add: same_child_def)
  then have "keeps same_child (sfor (clear W a) rs)" for rs by (rule child.keeps_for)
  then show "keeps same_child (clear_all W a)" unfolding clear_all_def [abs_def] by (rule child.keeps_when)
  show "keeps same_child (finish_run W)" unfolding finish_run_def by (intro child_rules) (simp_all add: same_child_def)
qed

lemma grows_log: "grows W P st st' \<Longrightarrow> list_all P (sp_log st) \<Longrightarrow> list_all P (sp_log st')"
  by (auto simp: grows_def)

lemma keeps_snd: "keeps R f \<Longrightarrow> R st (snd (f st))"
  by (simp add: keeps_def)

lemma prefix_before: "l @ new = pre @ c # post \<Longrightarrow> c \<notin> set l \<Longrightarrow> set l \<subseteq> set pre"
  by (induction l arbitrary: pre) (auto simp: Cons_eq_append_conv)

definition keeps_evidence :: "action \<Rightarrow> bool" where
  "keeps_evidence x \<longleftrightarrow> (\<forall>r. x \<noteq> Control r ''off'')"

lemma keeps_evidence_calls:
  "plain_call x \<Longrightarrow> keeps_evidence x" "keeps_evidence (Control r (arm_text run pid))" "keeps_evidence (Control r (seal_text run))" "keeps_evidence Release"
  by (auto simp: keeps_evidence_def plain_call_def arm_text_def seal_text_def)

text \<open>
  C36. A recorder is switched off only after everything it recorded is safe. Whatever kernel, child,
  file system and signals do, and whether the supervisor returns or raises: when tracing is enabled and
  an \<open>off\<close> control was written, the child had been waited for and had exited with 0, and before that
  write every recorder had been sealed and its snapshot saved without an error.
\<close>
theorem cleared_only_after_saved:
  assumes "supervise W a = Some res" and "end_state res = Some st" and "ar_enabled a"
    and "sp_log st = pre @ Control r ''off'' # post"
  shows "sp_reaped st \<and> sp_exit st = Some 0 \<and> (\<forall>q \<in> {Reference, Command}. Control q (seal_text (ar_run a)) \<in> set pre \<and>
    (\<exists>raw l. SaveSnapshot q raw \<in> set pre \<and> w_save W l q raw = Inr ()))"
proof -
  obtain x s1 s1' m s2 where c: "sup_contract a = Inr ()" and ex: "execute_child W a (sup_init W) = Some (x, s1)"
    and s1': "s1' = (case x of Inl m \<Rightarrow> snd (sup_error W ''execution'' None m s1) | Inr _ \<Rightarrow> s1)" and re: "reap W s1' = Some (m, s2)"
    and st: "case m of Inl _ \<Rightarrow> st = s2 | Inr _ \<Rightarrow> res = Returned st \<and> st = snd (settle W a s2)"
    using assms(1,2) by (rule supervise_parts)
  note E = keeps_evidence_calls
  have g1: "grows W keeps_evidence (sup_init W) s1"
    using ex by (rule grows_execute [rotated 3]) (simp_all add: E assms(3))
  have g2: "grows W keeps_evidence s1 s1'" unfolding s1' by (rule grows_recorded) (rule E(1))
  have g3: "grows W keeps_evidence s1' s2" using E(1) re by (rule grows_reap)
  have l2: "list_all keeps_evidence (sp_log s2)" by (rule grows_log [OF g3], rule grows_log [OF g2], rule grows_log [OF g1]) simp
  have off: "\<not> list_all keeps_evidence (sp_log st)" using assms(4) by (auto simp: keeps_evidence_def)
  then obtain u where m: "m = Inr u" using st l2 by (cases m) auto
  obtain s3 s4 s5 s6 where s: "seal_all W a s2 = (Inr (), s3)" "final W a s3 = (Inr (), s4)" "note_cancel W s4 = (Inr (), s5)"
    "clear_all W a s5 = (Inr (), s6)" and fin': "snd (settle W a s2) = snd (finish_run W s6)"
    by (rule settle_steps [of W a s2])
  have fin: "st = snd (finish_run W s6)" using fin' st m by simp
  have k: "keeps (grows W keeps_evidence) (seal_all W a)" "keeps (grows W keeps_evidence) (final W a)"
    "keeps (grows W keeps_evidence) (note_cancel W)"
    by (rule grows_seal_all grows_final(2) grows_note_cancel; simp add: E)+
  have l5: "list_all keeps_evidence (sp_log s5)"
    by (rule grows_log [OF keepsD [OF k(3) s(3)]], rule grows_log [OF keepsD [OF k(2) s(2)]], rule grows_log [OF keepsD [OF k(1) s(1)] l2])
  have gf: "grows W keeps_evidence s6 st" unfolding fin by (rule keeps_snd, rule grows_finish) (rule E(1))
  have guard: "sp_reaped s5 \<and> sp_exit s5 = Some 0 \<and> sp_errors s5 = []"
  proof (rule ccontr)
    assume "\<not> ?thesis"
    then have "s6 = s5" using s(4) by (auto simp: clear_all_def)
    then show False using grows_log [OF gf] l5 off by simp
  qed
  have "grows W (\<lambda>_. True) s1' s2" using re by (rule grows_reap [rotated]) simp
  then have saved: "saved W a s5" using undisturbed [OF ex s1' re [unfolded m] s(1-3) _ assms(3)] guard by simp
  have "same_child s5 s6" using child_clear(1) s(4) by (rule keepsD)
  moreover have "same_child s6 st" unfolding fin by (rule keeps_snd, rule child_clear(2))
  ultimately have child: "sp_reaped st" "sp_exit st = Some 0" using guard by (simp_all add: same_child_def)
  have "grows W (\<lambda>_. True) s5 s6" using tame_parts(12) s(4) by (rule keepsD)
  moreover have "grows W (\<lambda>_. True) s6 st" unfolding fin by (rule keeps_snd, rule tame_parts(13))
  ultimately obtain new where log: "sp_log st = sp_log s5 @ new" unfolding grows_def by auto
  have "Control r ''off'' \<notin> set (sp_log s5)" using l5 by (auto simp: list_all_iff keeps_evidence_def)
  then have sub: "set (sp_log s5) \<subseteq> set pre" using assms(4) log prefix_before [of "sp_log s5" new pre] by simp
  have "set (ar_backends a) = {Reference, Command}" using c by (auto simp: sup_contract_def rbind_Inr need_Inr PATHS_def)
  then show ?thesis using saved sub child unfolding saved_def by blast
qed

definition holds_child :: "action \<Rightarrow> bool" where
  "holds_child x \<longleftrightarrow> x \<noteq> Release"

lemma holds_child_calls: "plain_call x \<Longrightarrow> holds_child x" "holds_child (Control r text)"
  by (auto simp: holds_child_def plain_call_def)

lemma grows_settle:
  assumes "\<And>x. plain_call x \<Longrightarrow> P x" and "\<And>r text. P (Control r text)"
  shows "keeps (grows W P) (settle W a)"
  unfolding settle_def using assms
  by (intro grow.keeps_bind grows_seal_all grows_final(2) grows_note_cancel grows_clear(3) grows_finish) auto

text \<open>What follows the execution of the child does not release it.\<close>

lemma after_execution:
  assumes "supervise W a = Some res" and "end_state res = Some st" and "execute_child W a (sup_init W) = Some (x, s1)"
  shows "grows W holds_child s1 st"
proof -
  obtain y t1 t1' m s2 where ex: "execute_child W a (sup_init W) = Some (y, t1)"
    and t1': "t1' = (case y of Inl m \<Rightarrow> snd (sup_error W ''execution'' None m t1) | Inr _ \<Rightarrow> t1)" and re: "reap W t1' = Some (m, s2)"
    and st: "case m of Inl _ \<Rightarrow> st = s2 | Inr _ \<Rightarrow> res = Returned st \<and> st = snd (settle W a s2)"
    using assms(1,2) by (rule supervise_parts)
  have s1: "t1 = s1" using ex assms(3) by simp
  have g1: "grows W holds_child s1 t1'" unfolding t1' s1 by (rule grows_recorded) (rule holds_child_calls)
  have g2: "grows W holds_child t1' s2" using re by (rule grows_reap [rotated]) (rule holds_child_calls)
  have "keeps (grows W holds_child) (settle W a)" by (rule grows_settle) (auto simp: holds_child_calls)
  then have "grows W holds_child s2 st" using st by (cases m) (auto simp: grow.R_refl keeps_snd)
  then show ?thesis using g1 g2 grow.R_trans by metis
qed

lemma holds_after_wait:
  assumes "then_loop (wait_loop W a s) (\<lambda>st. Some (note_event W ''child-waited'' None True st)) = Some (m, st)"
  shows "grows W holds_child s st"
proof -
  obtain y t where t: "wait_loop W a s = Some (y, t)"
    "case y of Inl e \<Rightarrow> m = Inl e \<and> st = t | Inr _ \<Rightarrow> Some (note_event W ''child-waited'' None True t) = Some (m, st)"
    using assms by (rule then_loop_Some)
  have "grows W holds_child s t" using t(1) by (rule grows_wait_loop [rotated]) (rule holds_child_calls)
  moreover have "keeps (grows W holds_child) (note_event W ''child-waited'' None True)" by (rule grows_event) (simp add: holds_child_def)
  then have "grows W holds_child t st" using t(2) grow.R_refl keepsD by (cases y) auto
  ultimately show ?thesis by (rule grow.R_trans)
qed

text \<open>
  C37. The child is released at most once, and only when both recorders have been told their part: with
  tracing enabled, each was sent \<^verbatim>\<open>arm\<close> for this run and for exactly the process that \<^verbatim>\<open>fork\<close> returned
  before the release; with tracing off (\<^verbatim>\<open>--trace off\<close>), nothing records the child and each was sent
  \<^verbatim>\<open>off\<close> before the release.
\<close>
theorem released_only_when_armed:
  assumes "supervise W a = Some res" and "end_state res = Some st" and "sp_log st = pre @ Release # post"
  shows "Release \<notin> set pre \<and> Release \<notin> set post \<and>
    (\<exists>pid l. w_fork W l = Inr pid \<and> (\<forall>q \<in> {Reference, Command}.
      Control q (if ar_enabled a then ''arm '' @ show_nat (nat (ar_run a)) @ '' '' @ show_nat pid else ''off'') \<in> set pre))"
proof -
  obtain x s1 s1' m s2 where c: "sup_contract a = Inr ()" and ex: "execute_child W a (sup_init W) = Some (x, s1)"
    using assms(1,2) by (rule supervise_parts)
  have g1: "grows W holds_child s1 st" using assms(1,2) ex by (rule after_execution)
  obtain y s0 where p: "prepare W a (sup_init W) = (y, s0)" by (cases "prepare W a (sup_init W)")
  have "keeps (grows W holds_child) (prepare W a)" by (rule grows_prepare) (auto simp: holds_child_calls)
  then have g0: "grows W holds_child (sup_init W) s0" using p by (rule keepsD)
  then have l0: "Release \<notin> set (sp_log s0)" by (auto simp: grows_def list_all_iff holds_child_def)
  have armed: "\<exists>pid l. w_fork W l = Inr pid \<and> (\<forall>r \<in> set (ar_backends a). Control r (arm_command a pid) \<in> set (sp_log s0))" if "y = Inr ()"
    using fine_prepare_told [OF strict_fine [OF strict_prepare p [unfolded that]]] by auto
  have "y = Inr () \<and> (\<exists>rest. sp_log st = sp_log s0 @ Release # rest \<and> Release \<notin> set rest)"
  proof (cases y)
    case (Inl e)
    then have "s1 = s0" using ex p by (simp add: execute_child_def then_loop_def sbind_def)
    then have "Release \<notin> set (sp_log st)" using g1 l0 by (auto simp: grows_def list_all_iff holds_child_def)
    then show ?thesis using assms(3) by simp
  next
    case (Inr u)
    obtain z t where z: "release W s0 = (z, t)" by (cases "release W s0")
    have "\<exists>new. sp_log t = sp_log s0 @ Release # new \<and> Release \<notin> set new"
      using z by (auto simp: release_def sbind_def ask_def modify_def note_event_def Let_def split: sum.splits)
    moreover have "grows W holds_child t s1"
    proof (cases z)
      case (Inl e) then show ?thesis using ex p z Inr by (simp add: execute_child_def then_loop_def sbind_def grow.R_refl)
    next
      case (Inr v)
      then have "then_loop (wait_loop W a t) (\<lambda>st. Some (note_event W ''child-waited'' None True st)) = Some (x, s1)"
        using ex p z \<open>y = Inr u\<close> by (simp add: execute_child_def then_loop_def [of "Some r" for r] sbind_def)
      then show ?thesis by (rule holds_after_wait)
    qed
    then have "grows W holds_child t st" using g1 by (rule grow.R_trans)
    ultimately show ?thesis using Inr by (fastforce simp: grows_def list_all_iff holds_child_def)
  qed
  then obtain rest where r: "y = Inr ()" "sp_log st = sp_log s0 @ Release # rest" "Release \<notin> set rest" by blast
  then have "pre = sp_log s0" "post = rest" using assms(3) l0 append_Cons_eq_iff [of Release "sp_log s0" rest pre post] by auto
  moreover have "set (ar_backends a) = {Reference, Command}" using c by (auto simp: sup_contract_def rbind_Inr need_Inr PATHS_def)
  ultimately show ?thesis using armed [OF r(1)] r(3) l0 unfolding arm_command_def arm_text_def by auto
qed

subsection \<open>The supervisor ends\<close>

definition clock_runs :: "world \<Rightarrow> bool" where
  "clock_runs W \<longleftrightarrow> (\<forall>t. \<exists>n. \<forall>l. n \<le> length l \<longrightarrow> t \<le> w_clock W l)"

lemma wait_turn_goes_on:
  assumes "wait_turn W a st = (Inr False, st')"
  shows "length (sp_log st) < length (sp_log st') \<and> elapsed W (st\<lparr>sp_log := sp_log st @ [Wait]\<rparr>) < ar_deadline a"
proof -
  let ?s = "st\<lparr>sp_log := sp_log st @ [Wait]\<rparr>"
  have w: "w_wait W (sp_log st) = Inr None" and b: "\<not> cancelled W ?s" "\<not> elapsed W ?s \<ge> ar_deadline a"
    and r: "sbind (sfor (poll W a) (ar_backends a)) (\<lambda>_. sbind (sguard ''paired recorder context mismatch'' contexts_agree) (\<lambda>_.
         sbind (ask Sleep (\<lambda>_. Inr ())) (\<lambda>_. sret False))) ?s = (Inr False, st')"
    using assms unfolding wait_turn_def
    by (auto simp: sbind_def [of "ask c f" for c f] sbind_def [of "sguard m p" for m p] sbind_def [of "modify f" for f] ask_def sguard_def
        set_exit_def modify_def sret_def split: sum.splits option.splits if_splits)
  have "keeps (grows W (\<lambda>_. True)) (sbind (sfor (poll W a) (ar_backends a)) (\<lambda>_. sbind (sguard ''paired recorder context mismatch'' contexts_agree) (\<lambda>_.
         sbind (ask Sleep (\<lambda>_. Inr ())) (\<lambda>_. sret False))))" by (intro tame_rules tame_parts) simp
  then have "grows W (\<lambda>_. True) ?s st'" using r by (rule keepsD)
  then show ?thesis using b by (auto simp: grows_def)
qed

lemma reap_turn_goes_on: "reap_turn W st = (Inr False, st') \<Longrightarrow> length (sp_log st) < length (sp_log st')"
  unfolding reap_turn_def
  by (auto simp: sbind_def set_exit_def modify_def sret_def ask_def split: sum.splits option.splits prod.splits)

lemma wait_loop_ends:
  assumes "\<And>l. n \<le> length l \<Longrightarrow> sp_started st + ar_deadline a \<le> w_clock W l"
  shows "\<exists>r. wait_loop W a st = Some r"
  using assms
proof (induction "n - length (sp_log st)" arbitrary: st rule: less_induct)
  case less
  obtain x st' where t: "wait_turn W a st = (x, st')" by (cases "wait_turn W a st")
  show ?case
  proof (cases "x = Inr False")
    case True
    note go = wait_turn_goes_on [OF t [unfolded True]]
    have "length (sp_log st) < n"
      using go less.prems [of "sp_log st @ [Wait]"] by (force simp: elapsed_def)
    moreover have "sp_started st' = sp_started st" using keepsD [OF tame_parts(3) t] by (simp add: grows_def)
    ultimately have "\<exists>r. wait_loop W a st' = Some r" using less go by (metis diff_less_mono2)
    then show ?thesis by (subst wait_loop.simps) (simp add: t True)
  qed (subst wait_loop.simps, auto simp: t split: sum.splits)
qed

lemma reap_loop_ends:
  assumes "\<And>l. n \<le> length l \<Longrightarrow> until \<le> w_clock W l"
  shows "\<exists>r. reap_loop W until st = Some r"
  using assms
proof (induction "n - length (sp_log st)" arbitrary: st rule: less_induct)
  case less
  obtain x st' where t: "reap_turn W st = (x, st')" by (cases "reap_turn W st")
  show ?case
  proof (cases "w_clock W (sp_log st) < until \<and> x = Inr False")
    case True
    then have "length (sp_log st) < n" using less.prems by (meson not_le)
    then have "\<exists>r. reap_loop W until st' = Some r" using less reap_turn_goes_on t True by (metis diff_less_mono2)
    then show ?thesis using True by (subst reap_loop.simps) (simp add: t)
  qed (subst reap_loop.simps, auto simp: t split: sum.splits)
qed

lemma then_loop_ends: "f \<noteq> None \<Longrightarrow> (\<And>st. g st \<noteq> None) \<Longrightarrow> then_loop f g \<noteq> None"
  by (auto simp: then_loop_def split: sum.splits prod.splits option.splits)

lemma kill_ends:
  assumes "clock_runs W"
  shows "kill_child W sig seconds st \<noteq> None"
proof -
  have "reap_loop W until s \<noteq> None" for until s
    using assms reap_loop_ends [of _ until W s] unfolding clock_runs_def by (metis option.distinct(1))
  then show ?thesis unfolding kill_child_def by (simp add: then_loop_ends del: not_None_eq)
qed

text \<open>
  C38. The supervisor always ends. If the clock eventually passes every time as calls are made, a run
  returns or raises for every behaviour of recorders, child, files and signals: the polling of the
  child and the two grace periods cannot go on for ever.
\<close>
theorem supervise_ends:
  assumes "clock_runs W"
  shows "\<exists>res. supervise W a = Some res"
proof -
  have "wait_loop W a s \<noteq> None" for s
    using assms wait_loop_ends [of _ s a W] unfolding clock_runs_def by (metis option.distinct(1))
  then have e: "execute_child W a (sup_init W) \<noteq> None"
    unfolding execute_child_def by (intro then_loop_ends) (simp_all del: not_None_eq)
  have r: "reap W s \<noteq> None" for s
    unfolding reap_def Let_def using assms by (simp add: then_loop_ends kill_ends del: not_None_eq)
  obtain x s1 where x: "execute_child W a (sup_init W) = Some (x, s1)" using e by auto
  obtain m s2 where "reap W (case x of Inl m \<Rightarrow> snd (sup_error W ''execution'' None m s1) | Inr _ \<Rightarrow> s1) = Some (m, s2)" using r by fastforce
  then show ?thesis by (cases "sup_contract a"; cases m) (simp_all add: supervise_def x)
qed

subsection \<open>A successful run\<close>

definition success_stages :: "recorder list \<Rightarrow> (string \<times> recorder option) list" where
  "success_stages rs = arm_stages rs @ [(''child-released'', None), (''child-waited'', None)] @
     concat (map (\<lambda>r. [(''sealed'', Some r), (''snapshot-persisted'', Some r)]) rs) @ map (\<lambda>r. (''cleared'', Some r)) rs @ [(''complete'', None)]"

lemma success_state:
  assumes "supervise W a = Some (Returned st)" and "tool_exit st = 0" and "ar_enabled a"
  obtains s5 where "saved W a s5" "sup_contract a = Inr ()" "sp_errors st = []" "sp_exit st = Some 0" "sp_released st" "sp_reaped st" "sp_pid st = sp_pid s5"
    "sp_status st = sp_status s5" "sp_snapshots st = sp_snapshots s5" "transcript st = success_stages (ar_backends a)"
    "set (sp_log s5) \<subseteq> set (sp_log st)" "steady W \<Longrightarrow> timed W st \<and> 0 \<le> sp_elapsed st"
proof -
  have fin0: "end_state (Returned st) = Some st" by (simp add: end_state_def)
  have ok: "sp_errors st = []" "sp_exit st = Some 0"
    using assms(2) by (auto simp: tool_exit_def split: if_splits option.splits)
  obtain x s1 s1' m s2 where c: "sup_contract a = Inr ()" and ex: "execute_child W a (sup_init W) = Some (x, s1)"
    and s1': "s1' = (case x of Inl m \<Rightarrow> snd (sup_error W ''execution'' None m s1) | Inr _ \<Rightarrow> s1)" and re: "reap W s1' = Some (m, s2)"
    and st: "case m of Inl _ \<Rightarrow> st = s2 | Inr _ \<Rightarrow> Returned st = Returned st \<and> st = snd (settle W a s2)"
    using assms(1) fin0 by (rule supervise_parts)
  obtain u where m: "m = Inr u"
    using assms(1) c ex s1' re by (cases m) (auto simp: supervise_def Let_def)
  obtain s3 s4 s5 s6 where s: "seal_all W a s2 = (Inr (), s3)" "final W a s3 = (Inr (), s4)" "note_cancel W s4 = (Inr (), s5)"
    "clear_all W a s5 = (Inr (), s6)" and fin': "snd (settle W a s2) = snd (finish_run W s6)"
    by (rule settle_steps [of W a s2])
  have fin: "st = snd (finish_run W s6)" using fin' st m by simp
  have g6: "grows W (\<lambda>_. True) s6 st" unfolding fin by (rule keeps_snd, rule tame_parts(13))
  have e6: "sp_errors s6 = []" using g6 ok(1) by (rule grows_errors)
  have g5: "grows W (\<lambda>_. True) s5 s6" using tame_parts(12) s(4) by (rule keepsD)
  have e5: "sp_errors s5 = []" using g5 e6 by (rule grows_errors)
  have g2: "grows W (\<lambda>_. True) s1' s2" using re by (rule grows_reap [rotated]) simp
  have saved: "saved W a s5" using undisturbed [OF ex s1' re [unfolded m] s(1-3) e5 assms(3) g2] by simp
  have "same_child s6 st" unfolding fin by (rule keeps_snd, rule child_clear(2))
  moreover have "same_child s5 s6" using child_clear(1) s(4) by (rule keepsD)
  ultimately have child: "sp_exit s5 = Some 0" "sp_pid st = sp_pid s5" "sp_reaped st = sp_reaped s5" "sp_released st = sp_released s5"
    using ok(2) by (simp_all add: same_child_def)
  have "fine (sfor (clear W a) (ar_backends a)) s5 () s6"
    using s(4) e5 e6 child(1) saved by (simp add: clear_all_def fine_def saved_def)
  note cl = fine_clears [OF this]
  have "finish_run W s6 = (Inr (), st)" unfolding fin finish_run_def
    by (simp add: sbind_def modify_def note_event_def Let_def split: sum.splits)
  then have "fine (finish_run W) s6 () st" using ok(1) by (simp add: fine_def)
  then have f: "st = s6\<lparr>sp_elapsed := round_to 3 (elapsed W s6), sp_events := sp_events s6 @ [\<lparr>ev_stage = ''complete'', ev_recorder = None,
      ev_seconds = round_to 4 (elapsed W (s6\<lparr>sp_elapsed := round_to 3 (elapsed W s6)\<rparr>))\<rparr>], sp_log := sp_log s6 @ [SaveEvent ''complete'' None]\<rparr>"
    unfolding finish_run_def by (elim fine_elim [where W = W], (intro tame_rules; simp)+) (simp add: fine_event)
  have tr: "transcript st = success_stages (ar_backends a)"
    using f cl saved by (simp add: transcript_def saved_def success_stages_def)
  have sub: "set (sp_log s5) \<subseteq> set (sp_log st)" using g5 g6 by (auto simp: grows_def)
  have time: "timed W st \<and> 0 \<le> sp_elapsed st" if "steady W"
  proof -
    have k: "keeps (grows W (\<lambda>_. True)) (seal_all W a)" "keeps (grows W (\<lambda>_. True)) (final W a)" "keeps (grows W (\<lambda>_. True)) (note_cancel W)"
      by (rule tame_parts)+
    have "grows W (\<lambda>_. True) (sup_init W) s1" using ex by (rule grows_execute [rotated 3]) simp_all
    moreover have "grows W (\<lambda>_. True) s1 s1'" unfolding s1' by (rule grows_recorded) simp
    moreover have "timed W (sup_init W)" by (simp add: timed_def sup_init_def)
    ultimately have "timed W s6" using that g2 g5 keepsD [OF k(1) s(1)] keepsD [OF k(2) s(2)] keepsD [OF k(3) s(3)] by (simp add: grows_def)
    then have "timed W st" "0 \<le> elapsed W s6" using that g6 elapsed_nonneg [OF that, of s6] by (auto simp: grows_def timed_def)
    then show ?thesis using f round_to_nonneg by simp
  qed
  show ?thesis using that [OF saved c ok _ _ child(2) _ _ tr sub time] saved child cl f by (simp add: saved_def)
qed

subsection \<open>Evaluating numerals\<close>

text \<open>Numerals without a leading zero are read over the integers, which evaluate faster.\<close>

definition digit_of :: "char \<Rightarrow> int option" where
  "digit_of = map_of (zip ''0123456789'' [0, 1, 2, 3, 4, 5, 6, 7, 8, 9])"

primrec dec_int :: "int \<Rightarrow> string \<Rightarrow> int option" where
  "dec_int acc [] = Some acc"
| "dec_int acc (c # s) = (case digit_of c of None \<Rightarrow> None | Some d \<Rightarrow> dec_int (10 * acc + d) s)"

lemma digits_of: "\<forall>(c, d) \<in> set (zip ''0123456789'' [0, 1, 2, 3, 4, 5, 6, 7, 8, 9]). is_digit c \<and> int (digit_value c) = d"
  by code_simp

lemma digit_of_Some: "digit_of c = Some d \<Longrightarrow> is_digit c \<and> int (digit_value c) = d"
  unfolding digit_of_def by (drule map_of_SomeD, drule bspec [OF digits_of]) simp

lemma dec_int_value: "dec_int (int n) s = Some i \<Longrightarrow> list_all is_digit s \<and> i = int (dec_value n s)"
proof (induction s arbitrary: n)
  case (Cons c s)
  from Cons.prems obtain d where d: "digit_of c = Some d" and r: "dec_int (10 * int n + d) s = Some i" by (auto split: option.splits)
  from digit_of_Some [OF d] have "10 * int n + d = int (10 * n + digit_value c)" by simp
  with r Cons.IH have "list_all is_digit s \<and> i = int (dec_value (10 * n + digit_value c) s)" by metis
  with digit_of_Some [OF d] show ?case by simp
qed simp

lemma dec_value_ge: "acc \<le> dec_value acc s"
proof (induction acc s rule: dec_value.induct)
  case (2 acc c s)
  then show ?case by simp
qed simp

lemma digit_char_value: "is_digit c \<Longrightarrow> digit_char (digit_value c) = c"
  by (simp add: is_digit_def digit_char_def digit_value_def Let_def)

lemma digit_value_less: "is_digit c \<Longrightarrow> digit_value c < 10"
  unfolding is_digit_def digit_value_def Let_def by arith

lemma dec_value_less: "list_all is_digit s \<Longrightarrow> dec_value n s < (n + 1) * 10 ^ length s"
proof (induction s arbitrary: n)
  case (Cons c s)
  then have "dec_value (10 * n + digit_value c) s < (10 * n + digit_value c + 1) * 10 ^ length s" by simp
  also have "\<dots> \<le> (10 * n + 10) * 10 ^ length s" using digit_value_less [of c] Cons.prems by (intro mult_right_mono) simp_all
  finally show ?case by (simp add: algebra_simps)
qed simp

lemma digit_value_pos: assumes "is_digit c" and "c \<noteq> CHR ''0''" shows "0 < digit_value c"
proof (rule ccontr)
  assume "\<not> 0 < digit_value c"
  then have "c = digit_char 0" using digit_char_value [OF assms(1)] by simp
  moreover have "digit_char 0 = CHR ''0''" by code_simp
  ultimately show False using assms(2) by simp
qed

lemma show_dec_value:
  "list_all is_digit (c # s) \<Longrightarrow> c \<noteq> CHR ''0'' \<Longrightarrow> show_nat (dec_value 0 (c # s)) = c # s"
proof (induction s rule: rev_induct)
  case Nil
  then show ?case by (subst show_nat.simps) (simp add: digit_value_less digit_char_value)
next
  case (snoc d s)
  let ?n = "dec_value 0 (c # s)"
  have d: "is_digit d" and c: "is_digit c" using snoc.prems by simp_all
  have "digit_value c \<le> ?n" using dec_value_ge [of "digit_value c" s] by simp
  then have "0 < ?n" using digit_value_pos [OF c snoc.prems(2)] by simp
  moreover have "dec_value 0 (c # s @ [d]) = 10 * ?n + digit_value d" by (simp add: dec_value_append)
  moreover have "show_nat ?n = c # s" using snoc by simp
  ultimately show ?case using digit_value_less [OF d] digit_char_value [OF d] by (subst show_nat.simps) simp
qed

lemma status_token_small: "status_token ''0'' = Inr 0"
proof -
  have "show_nat (nat 0) = ''0''" by code_simp
  then show ?thesis using decimal_token_Inr [of 64 "[]" "[]" "''0''" 0] by (simp add: status_token_def)
qed

lemma status_token_code [code]:
  "status_token x = (if x = ''0'' then Inr 0 else
     case (if x = [] \<or> hd x = CHR ''0'' \<or> length x > 9 then None else dec_int 0 x) of Some i \<Rightarrow> Inr i
     | None \<Rightarrow> case decimal_token [] [] 64 x of Inr i \<Rightarrow> Inr i | Inl _ \<Rightarrow> Inl ''status integer'')"
proof (cases "if x = [] \<or> hd x = CHR ''0'' \<or> length x > 9 then None else dec_int 0 x")
  case None
  show ?thesis
  proof (cases "x = ''0''")
    case True
    then show ?thesis by (simp add: status_token_small)
  next
    case False
    with None show ?thesis by (simp only: status_token_def option.case if_False)
  qed
next
  case (Some i)
  then have x: "x \<noteq> []" "hd x \<noteq> CHR ''0''" "length x \<le> 9" and d: "dec_int (int 0) x = Some i" by (auto split: if_splits)
  from dec_int_value [OF d] have v: "list_all is_digit x" "i = int (dec_value 0 x)" by simp_all
  have "show_nat (dec_value 0 x) = x" using x v(1) show_dec_value [of "hd x" "tl x"] by simp
  moreover have "dec_value 0 x < 10 ^ 9" using dec_value_less [OF v(1), of 0] power_increasing [OF x(3), of "10 :: nat"] by simp
  ultimately have "decimal_token [] [] 64 x = Inr i" using v(2) by (subst decimal_token_Inr) simp_all
  moreover have "x \<noteq> ''0''" using x(2) by auto
  ultimately show ?thesis using Some by (simp add: status_token_def)
qed

lemma round_to_code [code]: "round_to n x = (if x = 0 then 0 else of_int (round_even (x * 10 ^ n)) / 10 ^ n)"
  by (simp add: round_to_def round_even_def Let_def)

lemmas loop_code [code] = wait_loop.simps reap_loop.simps

text \<open>These are evaluated only once their argument is known.\<close>

definition check_raw :: "status \<Rightarrow> int \<Rightarrow> bool \<Rightarrow> bool \<Rightarrow> string + unit" where
  "check_raw = check_state"

definition parse_raw :: "recorder \<Rightarrow> string \<Rightarrow> string + status" where
  "parse_raw = parse_status"

lemmas raw_code [code] = check_state_def [folded check_raw_def] parse_status_def [folded parse_raw_def]

lemma check_state_code [code]: "check_state [] = check_raw []" "check_state (x # s) = check_raw (x # s)"
  by (simp_all add: check_raw_def)

lemma parse_status_code [code]: "parse_status r [] = parse_raw r []" "parse_status r (c # s) = parse_raw r (c # s)"
  by (simp_all add: parse_raw_def)

lemmas act_code [code] =
  get_status_def [THEN fun_cong] note_status_def [THEN fun_cong] control_def [THEN fun_cong] get_snapshot_def [THEN fun_cong]
  preflight_def [THEN fun_cong] arm_def [THEN fun_cong] fork_child_def [THEN fun_cong] prepare_def [THEN fun_cong]
  release_def [THEN fun_cong] poll_def [THEN fun_cong] wait_turn_def [THEN fun_cong] reap_turn_def [THEN fun_cong]
  seal_body_def [THEN fun_cong] seal_def [THEN fun_cong] final_check_def [THEN fun_cong] final_body_def [THEN fun_cong]
  clear_body_def [THEN fun_cong] clear_def [THEN fun_cong] finish_run_def [THEN fun_cong] settle_def [THEN fun_cong]
  sup_error_def [THEN fun_cong] sfor.simps(1) [THEN fun_cong] sfor.simps(2) [THEN fun_cong]

subsection \<open>One run of a simple world\<close>

text \<open>Recorders that follow their controls, a child that ends at the second poll, and a clock that stands still.\<close>

definition last_control :: "action list \<Rightarrow> recorder \<Rightarrow> string" where
  "last_control l r = foldl (\<lambda>acc x. case x of Control q t \<Rightarrow> if q = r then t else acc | _ \<Rightarrow> acc) ''off'' l"

definition demo_reply :: "recorder \<Rightarrow> string \<Rightarrow> string" where
  "demo_reply r c = (case r of
     Reference \<Rightarrow> if c = ''off'' then ''S 1 0 0 0 0 0 0 0 0 0'' else if c = ''seal 7'' then ''S 1 7 5 4 0 10 12 300 300 0'' else ''S 1 7 5 1 0 0 0 0 0 0''
   | Command \<Rightarrow> if c = ''off'' then ''S 1 0 0 0 0 0 0 0'' else if c = ''seal 7'' then ''S 1 7 5 4 0 300 300 0'' else ''S 1 7 5 1 0 0 0 0'')"

definition demo_world :: world where
  "demo_world = \<lparr>w_status = (\<lambda>l r. Inr (demo_reply r (last_control l r))), w_control = (\<lambda>_ _ _. Inr ()), w_snapshot = (\<lambda>_ _. Inr [1, 2]),
     w_save = (\<lambda>_ _ _. Inr ()), w_event = (\<lambda>_. Inr ()), w_fork = (\<lambda>_. Inr 42), w_release = (\<lambda>_. Inr ()),
     w_wait = (\<lambda>l. Inr (if list_ex (\<lambda>x. x = Wait) l then Some 0 else None)), w_kill = (\<lambda>_. Inr ()),
     w_clock = (\<lambda>_. 0), w_signal = (\<lambda>_. False), w_sha = (\<lambda>raw. replicate (length raw) CHR ''a'')\<rparr>"

definition demo_args :: sup_args where
  "demo_args = \<lparr>ar_command = [''decoder''], ar_run = 7, ar_enabled = True, ar_deadline = 60, ar_backends = [Reference, Command],
     ar_environment = None, ar_directory = None, ar_stdout = None, ar_stderr = None\<rparr>"

definition demo_good :: "sup_result option \<Rightarrow> bool" where
  "demo_good r = (case r of Some (Returned st) \<Rightarrow> tool_exit st = 0 \<and> list_ex (\<lambda>x. x = Control Reference ''off'') (sp_log st) \<and>
     list_ex (\<lambda>x. x = Release) (sp_log st) \<and> sp_pid st = Some 42 | _ \<Rightarrow> False)"

lemma demo_supervised: "demo_good (supervise demo_world demo_args)"
  by code_simp

lemma demo_run_state:
  obtains st where "supervise demo_world demo_args = Some (Returned st)" "end_state (Returned st) = Some st" "tool_exit st = 0"
    "Control Reference ''off'' \<in> set (sp_log st)" "Release \<in> set (sp_log st)"
proof -
  obtain res where res: "supervise demo_world demo_args = Some res" using demo_supervised by (cases "supervise demo_world demo_args") (simp_all add: demo_good_def)
  then obtain st where "res = Returned st" using demo_supervised by (cases res) (simp_all add: demo_good_def)
  then show ?thesis using that [of st] res demo_supervised by (simp add: demo_good_def end_state_def list_ex_iff)
qed

theorem cleared_only_after_saved_witness:
  "\<exists>st pre post. supervise demo_world demo_args = Some (Returned st) \<and> sp_log st = pre @ Control Reference ''off'' # post \<and>
     sp_exit st = Some 0 \<and> (\<exists>raw. SaveSnapshot Command raw \<in> set pre)"
proof -
  obtain st where st: "supervise demo_world demo_args = Some (Returned st)" "end_state (Returned st) = Some st"
    and off: "Control Reference ''off'' \<in> set (sp_log st)" by (rule demo_run_state)
  from off obtain pre post where log: "sp_log st = pre @ Control Reference ''off'' # post" by (auto simp: in_set_conv_decomp)
  have "ar_enabled demo_args" by (simp add: demo_args_def)
  from cleared_only_after_saved [OF st this log] show ?thesis using st(1) log by blast
qed

theorem released_only_when_armed_witness:
  "\<exists>st pre post. supervise demo_world demo_args = Some (Returned st) \<and> sp_log st = pre @ Release # post \<and>
     Control Reference (arm_text 7 42) \<in> set pre \<and> Control Command (arm_text 7 42) \<in> set pre"
proof -
  obtain st where st: "supervise demo_world demo_args = Some (Returned st)" "end_state (Returned st) = Some st"
    and rel: "Release \<in> set (sp_log st)" by (rule demo_run_state)
  from rel obtain pre post where log: "sp_log st = pre @ Release # post" by (auto simp: in_set_conv_decomp)
  have a: "ar_enabled demo_args" "ar_run demo_args = 7" by (simp_all add: demo_args_def)
  have "w_fork demo_world l = Inr pid \<Longrightarrow> pid = 42" for l pid by (simp add: demo_world_def)
  with released_only_when_armed [OF st log] a show ?thesis using st(1) log by (fastforce simp: arm_text_def)
qed

definition counting_world :: world where
  "counting_world = demo_world\<lparr>w_clock := \<lambda>l. of_nat (length l)\<rparr>"

theorem supervise_ends_witness: "clock_runs counting_world \<and> (\<exists>res. supervise counting_world demo_args = Some res)"
proof -
  have c: "clock_runs counting_world" unfolding clock_runs_def
  proof
    fix t :: rat
    obtain n :: nat where "t < of_nat n" using reals_Archimedean2 by blast
    then have "\<forall>l. n \<le> length l \<longrightarrow> t \<le> w_clock counting_world l" by (auto simp: counting_world_def intro: order_trans less_imp_le)
    then show "\<exists>n. \<forall>l. n \<le> length l \<longrightarrow> t \<le> w_clock counting_world l" ..
  qed
  from supervise_ends [OF this] c show ?thesis by blast
qed

end
