(* ===== verification/Same_Run_Join.thy ===== *)
theory Same_Run_Join
  imports Reports Hevc_Controls
begin

text \<open>
  The join of one observer report with the kernel evidence of the same process,
  \<open>src/experiments/hevc-reference-content/same-run/join.py\<close>: document reading, the queue records of the two
  clients, the output association, the report, the kernel evidence, and the two joins up to the
  document they return.

  \<open>loads\<close> and \<open>dumps\<close> are \<^verbatim>\<open>json.loads(raw.decode("utf-8"))\<close> and
  \<^verbatim>\<open>json.dumps(..., sort_keys=True, separators=(",", ":"))\<close>. \<open>loads\<close> returns the document with uncollapsed
  pairs, or the exception: \<open>Reject\<close> for the two decoding errors that the readers catch and for the
  rejection of a constant such as \<^verbatim>\<open>NaN\<close>, another one for what passes them (a plain \<^verbatim>\<open>ValueError\<close> for an
  integer of more than 4300 digits, a \<^verbatim>\<open>RecursionError\<close> for a document nested too deeply). The Gst queue log is given decoded, \<open>None\<close>
  standing for bytes that are not UTF-8. The rows of \<^verbatim>\<open>KernelEvidence.associations\<close> are those that
  \<open>hevc-controls\<close> returns; requests and reference records are dicts of JSON values.
\<close>

definition JOIN_SCHEMA :: string where "JOIN_SCHEMA = ''omarchy.hevc.same-run-join/v1''"
definition VA_TRACE_SCHEMA :: string where "VA_TRACE_SCHEMA = ''libva-v4l2request.hevc-refs/1''"
definition MAX_QUEUE_BYTES :: nat where "MAX_QUEUE_BYTES = 64 * 1024 * 1024"
definition MAX_OUTPUT_BYTES :: nat where "MAX_OUTPUT_BYTES = 32 * 1024"

definition REPORT_COMMON_KEYS :: "string list" where
  "REPORT_COMMON_KEYS = [''run'', ''context_generation'', ''session'', ''allocation_generation'', ''writer'',
     ''submitted'', ''completed'', ''capture_index'', ''copied'', ''sha256'']"

definition VA_REPORT_KEYS :: "string list" where
  "VA_REPORT_KEYS = REPORT_COMMON_KEYS @ [''output_ordinal'', ''surface'']"

definition GST_REPORT_KEYS :: "string list" where
  "GST_REPORT_KEYS = REPORT_COMMON_KEYS @ [''system_frame_number'', ''request'']"

subsection \<open>Documents and scalars\<close>

definition canonical_bytes :: "nat \<Rightarrow> string \<Rightarrow> unit py" where
  "canonical_bytes maximum raw =
     rbind (require (0 < length raw \<and> length raw \<le> maximum) ''size is outside the accepted bound'') (\<lambda>_.
     require (last raw = CHR 0x0A \<and> CHR 0x0D \<notin> set raw \<and> CHR 0x00 \<notin> set raw)
       ''is not canonical newline-terminated UTF-8'')"

definition load_unique :: "(string \<Rightarrow> json py) \<Rightarrow> string \<Rightarrow> json py" where
  "load_unique loads s = (case loads s of
     Inl (Reject _) \<Rightarrow> Inl (Reject ''invalid JSON'')
   | Inl e \<Rightarrow> Inl e
   | Inr v \<Rightarrow> rbind (require (unique_json v) ''duplicate JSON key'') (\<lambda>_. Inr v))"

definition json_document :: "(string \<Rightarrow> json py) \<Rightarrow> nat \<Rightarrow> string \<Rightarrow> json py" where
  "json_document loads maximum raw = rbind (canonical_bytes maximum raw) (\<lambda>_. load_unique loads raw)"

text \<open>\<^verbatim>\<open>bytes.splitlines\<close> on a value that ends in a line feed and has no carriage return.\<close>

definition json_lines :: "(string \<Rightarrow> json py) \<Rightarrow> nat \<Rightarrow> string \<Rightarrow> (string, json) dict list py" where
  "json_lines loads maximum raw =
     rbind (canonical_bytes maximum raw) (\<lambda>_.
     rmap (\<lambda>line. rbind (load_unique loads line) (\<lambda>v.
       case v of JObj d \<Rightarrow> Inr d | _ \<Rightarrow> Inl (Reject ''line is not an object'')))
       (butlast (split_on CHR 0x0A raw)))"

definition join_uint :: "nat \<Rightarrow> bool \<Rightarrow> json \<Rightarrow> int py" where
  "join_uint bits nonzero v =
     rbind (int_in ''is not an unsigned integer'' 0 (2 ^ bits - 1) v) (\<lambda>i.
     rbind (require (\<not> nonzero \<or> i \<noteq> 0) ''must be nonzero'') (\<lambda>_. Inr i))"

definition join_decimal :: "bool \<Rightarrow> string \<Rightarrow> int py" where
  "join_decimal nonzero v =
     rbind (decimal_token ''is not canonical decimal'' ''is zero, oversized or noncanonical'' 64 v) (\<lambda>i.
     rbind (require (i \<noteq> 0 \<or> \<not> nonzero) ''is zero, oversized or noncanonical'') (\<lambda>_. Inr i))"

definition join_hex :: "nat \<Rightarrow> bool \<Rightarrow> json \<Rightarrow> string py" where
  "join_hex digits nonzero v = (case v of
     JStr s \<Rightarrow>
       rbind (require (length s = digits \<and> list_all hex_char s) ''is not lowercase hexadecimal'') (\<lambda>_.
       rbind (require (\<not> nonzero \<or> hex_value s \<noteq> 0) ''must be nonzero'') (\<lambda>_. Inr s))
   | _ \<Rightarrow> Inl (Reject ''is not lowercase hexadecimal''))"

subsection \<open>Kernel evidence\<close>

record kernel_evidence =
  ke_run :: int
  ke_context :: int
  ke_child_pid :: int
  ke_requests :: "(string, json) dict list"
  ke_associations :: "association list"
  ke_reference_records :: "(string, json) dict list"
  ke_hashes :: "(string, string) dict"

definition evidence_check :: "kernel_evidence \<Rightarrow> unit py" where
  "evidence_check ev =
     rbind (join_uint 64 True (JInt (ke_run ev))) (\<lambda>_.
     rbind (join_uint 64 True (JInt (ke_context ev))) (\<lambda>_.
     rbind (join_uint 31 True (JInt (ke_child_pid ev))) (\<lambda>_.
     rbind (require (ke_requests ev \<noteq> []) ''kernel evidence has no requests'') (\<lambda>_.
     let pictures = [1..<length (ke_requests ev) + 1] in
     rbind (require (list_all2 (\<lambda>row p. py_eq (jv row ''pic'') (JInt (int p))) (ke_requests ev) pictures)
       ''kernel request history is incomplete or reordered'') (\<lambda>_.
     rbind (require (map as_pic (ke_associations ev) = pictures)
       ''raw V4L2 association history is incomplete or reordered'') (\<lambda>_.
     rbind (require (length (remdups (map as_system_frame_number (ke_associations ev))) = length pictures)
       ''raw V4L2 frame timestamps are ambiguous'') (\<lambda>_.
     rbind (require (list_all (dhas (ke_hashes ev)) [''execution'', ''v4l2_trace'', ''command_snapshot'', ''reference_snapshot''])
       ''kernel evidence digest inventory is incomplete'') (\<lambda>_.
     rall (\<lambda>(_, h). rbind (join_hex 64 False (JStr h)) (\<lambda>_. Inr ())) (ke_hashes ev)))))))))"

subsection \<open>The VA queue trace\<close>

definition VA_BASE_KEYS :: "string list" where
  "VA_BASE_KEYS = [''schema'', ''run'', ''seq'', ''ctx'', ''va_context'', ''pic'', ''req'', ''first'', ''last'',
     ''target'', ''poc'', ''irap'', ''idr'', ''ltr_sps'', ''reorder'', ''total_curr'', ''dpb'', ''slices'',
     ''st_before'', ''st_after'', ''lt_curr'', ''observer'']"

definition VA_OBSERVER_KEYS :: "string list" where
  "VA_OBSERVER_KEYS = [''run'', ''context'', ''allocation'', ''surface'', ''writer'']"

record va_identity =
  vi_run :: string
  vi_context :: int
  vi_allocation :: int
  vi_surface :: int
  vi_writer :: int
  vi_target :: int

definition va_queue_row :: "nat \<Rightarrow> (string, json) dict \<Rightarrow> va_identity py" where
  "va_queue_row index row =
     rbind (require (keys_are row VA_BASE_KEYS) ''VA queue row has unexpected fields'') (\<lambda>_.
     rbind (require (jv row ''schema'' = JStr VA_TRACE_SCHEMA) ''VA queue row has wrong schema'') (\<lambda>_.
     rbind (join_hex 16 True (jv row ''run'')) (\<lambda>_.
     rbind (require (py_eq (jv row ''seq'') (jv row ''pic'') \<and> py_eq (jv row ''pic'') (jv row ''req'') \<and>
       py_eq (jv row ''req'') (JInt (int index))) ''VA queue row is not a complete one-request picture'') (\<lambda>_.
     rbind (require (py_eq (jv row ''first'') (jv row ''last'') \<and> py_eq (jv row ''last'') (JInt 1))
       ''VA queue row is outside the one-slice campaign domain'') (\<lambda>_.
     rbind (join_uint 32 False (jv row ''target'')) (\<lambda>target.
     rbind (case jv row ''observer'' of
              JObj d \<Rightarrow> rbind (require (keys_are d VA_OBSERVER_KEYS) ''malformed observer identity'') (\<lambda>_. Inr d)
            | _ \<Rightarrow> Inl (Reject ''malformed observer identity'')) (\<lambda>d.
     rbind (join_hex 32 True (jv d ''run'')) (\<lambda>run.
     rbind (join_uint 64 True (jv d ''context'')) (\<lambda>context.
     rbind (join_uint 64 True (jv d ''allocation'')) (\<lambda>allocation.
     rbind (join_uint 64 True (jv d ''surface'')) (\<lambda>surface.
     rbind (join_uint 64 True (jv d ''writer'')) (\<lambda>writer.
     Inr \<lparr>vi_run = run, vi_context = context, vi_allocation = allocation, vi_surface = surface,
          vi_writer = writer, vi_target = target\<rparr>))))))))))))"

text \<open>One pass of the loop: the identities of the rows before, in order.\<close>

definition va_queue_step :: "(string, json) dict \<Rightarrow> va_identity list \<Rightarrow> va_identity list py" where
  "va_queue_step row seen =
     rbind (va_queue_row (length seen + 1) row) (\<lambda>i.
     rbind (require (seen = [] \<or> (vi_run i, vi_context i) = (vi_run (hd seen), vi_context (hd seen)))
       ''VA queue trace mixes observer runs or contexts'') (\<lambda>_.
     rbind (require (i \<notin> set seen) ''VA queue trace duplicates an observer identity'') (\<lambda>_.
     Inr (seen @ [i]))))"

definition parse_va_queue :: "(string \<Rightarrow> json py) \<Rightarrow> string \<Rightarrow> nat \<Rightarrow> ((string, json) dict \<times> va_identity) list py" where
  "parse_va_queue loads raw expected =
     rbind (json_lines loads MAX_QUEUE_BYTES raw) (\<lambda>rows.
     rbind (require (length rows = expected) ''VA queue trace has the wrong request extent'') (\<lambda>_.
     rbind (rfold va_queue_step rows []) (\<lambda>ids. Inr (zip rows ids))))"

definition va_projection :: "(string, json) dict \<Rightarrow> json" where
  "va_projection row = JObj (filter (\<lambda>(k, v). k \<notin> {''schema'', ''run'', ''ctx'', ''va_context'', ''observer''}) row)"

subsection \<open>The Gst queue log\<close>

record gst_row =
  gq_run :: "string \<times> string"
  gq_context :: int
  gq_allocation :: int
  gq_request :: int
  gq_writer :: int
  gq_frame :: int
  gq_capture :: int

text \<open>
  \<open>GST_QUEUE\<close> at one position. A literal, then the sixteen or the maximal run of characters of a
  group; a shorter run of digits is always followed by a digit, so no other split can match.
\<close>

definition literal :: "string \<Rightarrow> string \<Rightarrow> string option" where
  "literal p s = (if starts_with p s then Some (drop (length p) s) else None)"

definition hex_group :: "string \<Rightarrow> (string \<times> string) option" where
  "hex_group s = (if length s \<ge> 16 \<and> list_all hex_char (take 16 s) then Some (take 16 s, drop 16 s) else None)"

definition number_group :: "string \<Rightarrow> string \<Rightarrow> (string \<times> string) option" where
  "number_group key s = (case literal key s of
     None \<Rightarrow> None
   | Some r \<Rightarrow> if takeWhile is_digit r \<noteq> [] then Some (takeWhile is_digit r, dropWhile is_digit r) else None)"

fun number_groups :: "string list \<Rightarrow> string \<Rightarrow> (string list \<times> string) option" where
  "number_groups [] s = Some ([], s)"
| "number_groups (k # ks) s = (case number_group k s of
     None \<Rightarrow> None
   | Some (n, r) \<Rightarrow> map_option (\<lambda>(ns, t). (n # ns, t)) (number_groups ks r))"

definition GST_NUMBERS :: "string list" where
  "GST_NUMBERS = ['' context='', '' allocation='', '' request='', '' writer='', '' frame='', '' capture='']"

definition match_queue :: "string \<Rightarrow> ((string \<times> string \<times> string list) \<times> string) option" where
  "match_queue s = (case literal ''observer-queue run='' s of
     None \<Rightarrow> None
   | Some a \<Rightarrow> (case hex_group a of
       None \<Rightarrow> None
     | Some (x, b) \<Rightarrow> (case hex_group b of
         None \<Rightarrow> None
       | Some (y, c) \<Rightarrow> (case number_groups GST_NUMBERS c of
           None \<Rightarrow> None
         | Some (ns, r) \<Rightarrow>
             if r = [] then Some ((x, y, ns), [])
             else if py_space (hd r) then Some ((x, y, ns), tl r) else None))))"

text \<open>
  The leftmost match. A second one would be in what follows the first, which has to be blank; so
  exactly one match with a blank rest is a first match with a blank rest.
\<close>

definition find_queue :: "string \<Rightarrow> ((string \<times> string \<times> string list) \<times> string) option" where
  "find_queue line = (case find (\<lambda>s. match_queue s \<noteq> None) (suffixes_of line) of
     None \<Rightarrow> None | Some s \<Rightarrow> match_queue s)"

definition gst_row_of :: "string \<times> string \<times> string list \<Rightarrow> gst_row py" where
  "gst_row_of = (\<lambda>(x, y, ns).
     rbind (rmap (\<lambda>(n, nonzero). join_decimal nonzero n) (zip ns [True, True, True, True, False, False])) (\<lambda>vs.
     Inr \<lparr>gq_run = (x, y), gq_context = vs ! 0, gq_allocation = vs ! 1, gq_request = vs ! 2, gq_writer = vs ! 3,
          gq_frame = vs ! 4, gq_capture = vs ! 5\<rparr>))"

definition gst_line :: "string \<Rightarrow> nat \<times> gst_row list \<Rightarrow> (nat \<times> gst_row list) py" where
  "gst_line line = (\<lambda>(malformed, rows).
     if \<not> list_ex (starts_with ''observer-queue'') (suffixes_of line) then Inr (malformed, rows)
     else (case find_queue line of
             None \<Rightarrow> Inr (malformed + 1, rows)
           | Some (groups, rest) \<Rightarrow>
               if py_strip rest \<noteq> [] then Inr (malformed + 1, rows)
               else rbind (gst_row_of groups) (\<lambda>row. Inr (malformed, rows @ [row]))))"

definition gst_row_step :: "gst_row \<Rightarrow> gst_row list \<Rightarrow> gst_row list py" where
  "gst_row_step row seen =
     rbind (join_hex 16 True (JStr (fst (gq_run row)))) (\<lambda>_.
     rbind (join_hex 16 True (JStr (snd (gq_run row)))) (\<lambda>_.
     rbind (require (seen = [] \<or> (gq_run row, gq_context row) = (gq_run (hd seen), gq_context (hd seen)))
       ''Gst queue log mixes observer runs or contexts'') (\<lambda>_.
     rbind (require (row \<notin> set seen) ''Gst queue log duplicates an observer identity'') (\<lambda>_.
     rbind (require (gq_frame row \<notin> set (map gq_frame seen)) ''Gst queue log duplicates a frame identity'') (\<lambda>_.
     rbind (require (gq_request row \<notin> set (map gq_request seen)) ''Gst queue log duplicates a request generation'') (\<lambda>_.
     Inr (seen @ [row])))))))"

definition parse_gst_queue :: "string option \<Rightarrow> nat \<Rightarrow> gst_row list py" where
  "parse_gst_queue decoded expected =
     rbind (case decoded of
              None \<Rightarrow> Inl (Reject ''Gst queue log is not UTF-8'')
            | Some t \<Rightarrow> rbind (require (0 < utf8_len t \<and> utf8_len t \<le> MAX_QUEUE_BYTES \<and> CHR 0x00 \<notin> set t)
                ''Gst queue log size/content is outside the accepted bound'') (\<lambda>_. Inr t)) (\<lambda>t.
     rbind (rfold gst_line (splitlines t) (0, [])) (\<lambda>(malformed, rows).
     rbind (require (malformed = 0) ''Gst queue log contains malformed or duplicated observer records'') (\<lambda>_.
     rbind (require (length rows = expected) ''Gst queue log has the wrong request extent'') (\<lambda>_.
     rfold gst_row_step rows []))))"

subsection \<open>Output association\<close>

record output_row =
  or_output_index :: nat
  or_pic :: int
  or_poc :: int

definition association_row :: "nat \<Rightarrow> json \<Rightarrow> output_row list \<Rightarrow> output_row list py" where
  "association_row expected v rows =
     (case v of
        JObj row \<Rightarrow>
          rbind (require (keys_are row [''output_index'', ''pic'', ''poc'']) ''output association row has unexpected fields'') (\<lambda>_.
          rbind (require (py_eq (jv row ''output_index'') (JInt (int (length rows)))) ''output association indices are incomplete'') (\<lambda>_.
          rbind (join_uint 32 True (jv row ''pic'')) (\<lambda>pic.
          rbind (require (pic \<le> int expected) ''association picture is outside the decode extent'') (\<lambda>_.
          rbind (int_in ''association POC is invalid'' (-(2 ^ 31)) (2 ^ 31 - 1) (jv row ''poc'')) (\<lambda>poc.
          Inr (rows @ [\<lparr>or_output_index = length rows, or_pic = pic, or_poc = poc\<rparr>]))))))
      | _ \<Rightarrow> Inl (Reject ''output association row has unexpected fields''))"

definition parse_associations :: "json \<Rightarrow> nat \<Rightarrow> output_row list py" where
  "parse_associations document expected =
     (case document of
        JList xs \<Rightarrow>
          rbind (require (length xs = expected) ''output association has the wrong extent'') (\<lambda>_.
          rbind (rfold (association_row expected) xs []) (\<lambda>rows.
          rbind (require (length (remdups (map or_pic rows)) = expected) ''output association duplicates a decoded picture'') (\<lambda>_.
          Inr rows)))
      | _ \<Rightarrow> Inl (Reject ''output association has the wrong extent''))"

subsection \<open>The report\<close>

definition report_identity :: "(string, json) dict \<Rightarrow> rep_identity py" where
  "report_identity d =
     rbind (case jv d ''run'' of JList [a, b] \<Rightarrow> Inr (a, b) | _ \<Rightarrow> Inl (Reject ''run has wrong shape'')) (\<lambda>(a, b).
     rbind (join_hex 16 True a) (\<lambda>run0.
     rbind (join_hex 16 True b) (\<lambda>run1.
     rbind (join_hex 16 True (jv d ''context_generation'')) (\<lambda>context.
     rbind (join_hex 16 True (jv d ''session'')) (\<lambda>session.
     Inr ((run0, run1), context, session))))))"

definition coordinate :: "bool \<Rightarrow> string" where
  "coordinate va = (if va then ''output_ordinal'' else ''system_frame_number'')"

text \<open>One output of the report: the coordinates and the identity of the outputs before are the state.\<close>

definition report_output :: "bool \<Rightarrow> bool \<Rightarrow> json \<Rightarrow> int list \<times> rep_identity option \<Rightarrow> (int list \<times> rep_identity option) py" where
  "report_output va copy v = (\<lambda>(observed, common).
     case v of
       JObj d \<Rightarrow>
         rbind (require (keys_are d (if va then VA_REPORT_KEYS else GST_REPORT_KEYS)) ''observer output has unexpected fields'') (\<lambda>_.
         rbind (join_uint (if va then 64 else 32) False (jv d (coordinate va))) (\<lambda>c.
         rbind (report_identity d) (\<lambda>ident.
         rbind (require (common = None \<or> common = Some ident) ''observer report mixes run/context/session identity'') (\<lambda>_.
         rbind (rall (\<lambda>k. rbind (join_hex 16 True (jv d k)) (\<lambda>_. Inr ()))
           [''allocation_generation'', ''writer'', ''submitted'', ''completed'']) (\<lambda>_.
         rbind (require (hex_value (jstr d ''completed'') = hex_value (jstr d ''submitted''))
           ''is not at a drained completion frontier'') (\<lambda>_.
         rbind (join_uint 32 False (jv d ''capture_index'')) (\<lambda>_.
         rbind (require (jv d ''copied'' = JBool copy) ''has the wrong copy mode'') (\<lambda>_.
         rbind (if copy then rbind (join_hex 64 False (jv d ''sha256'')) (\<lambda>_. Inr ())
                else require (jv d ''sha256'' = JNull) ''exposes a copy-off digest'') (\<lambda>_.
         rbind (if va then rbind (join_uint 32 False (jv d ''surface'')) (\<lambda>_. Inr ())
                else rbind (join_hex 16 True (jv d ''request'')) (\<lambda>_. Inr ())) (\<lambda>_.
         Inr (observed @ [c], Some ident)))))))))))
     | _ \<Rightarrow> Inl (Reject ''observer output has unexpected fields''))"

definition validate_report :: "json \<Rightarrow> bool \<Rightarrow> int list \<Rightarrow> bool \<Rightarrow> json list py" where
  "validate_report document va selectors copy =
     (case document of
        JObj d \<Rightarrow>
          rbind (require (keys_are d [''schema'', ''count'', ''outputs'']) ''observer report has unexpected top-level fields'') (\<lambda>_.
          rbind (require (jv d ''schema'' = JStr (if va then VA_SCHEMA else GST_SCHEMA)) ''observer report has wrong client schema'') (\<lambda>_.
          rbind (require (is_list (jv d ''outputs'') \<and> py_eq (jv d ''count'') (JInt (int (length (jlist d ''outputs'')))) \<and>
            length (jlist d ''outputs'') = length selectors) ''observer report count differs from the requested selection'') (\<lambda>_.
          rbind (require (1 \<le> length selectors \<and> length selectors \<le> 8 \<and> distinct selectors)
            ''selectors are not one to eight unique values'') (\<lambda>_.
          rbind (rfold (report_output va copy) (jlist d ''outputs'') ([], None)) (\<lambda>(observed, _).
          rbind (if va then require (observed = selectors) ''VA observer ordinals differ from requested order''
                 else require (set observed = set selectors) ''Gst observer frames differ from requested set'') (\<lambda>_.
          Inr (jlist d ''outputs'')))))))
      | _ \<Rightarrow> Inl (Reject ''observer report has unexpected top-level fields''))"

subsection \<open>The join\<close>

definition reference_pair :: "kernel_evidence \<Rightarrow> int \<Rightarrow> json \<Rightarrow> ((string, json) dict \<times> (string, json) dict) py" where
  "reference_pair ev picture capture =
     (case filter (\<lambda>row. py_eq (jv row ''picture'') (JInt picture) \<and>
             (py_eq (jv row ''kind'') (JInt 1) \<or> py_eq (jv row ''kind'') (JInt 2))) (ke_reference_records ev) of
        [first_row, last_row] \<Rightarrow>
          rbind (require (py_eq (jv first_row ''kind'') (JInt 1) \<and> py_eq (jv last_row ''kind'') (JInt 2))
            ''kernel picture has no complete reference lifetime'') (\<lambda>_.
          rbind (require (py_eq (jv first_row ''buffer'') (jv last_row ''buffer'') \<and> py_eq (jv last_row ''buffer'') capture)
            ''kernel picture does not bind the selected capture'') (\<lambda>_.
          rbind (require (py_eq (jv first_row ''writer'') (JInt picture) \<and> py_eq (jv first_row ''completed'') (JInt 0))
            ''kernel picture has the wrong writer frontier'') (\<lambda>_.
          rbind (require (py_eq (jv last_row ''writer'') (JInt picture) \<and> py_eq (jv last_row ''completed'') (JInt 1) \<and>
            py_eq (jv last_row ''result'') (JInt 5)) ''kernel picture has no successful completion'') (\<lambda>_.
          rbind (rall (\<lambda>k. require (py_eq (jv first_row k) (jv last_row k)) ''kernel picture changed before completion'')
            [''allocation'', ''length'', ''comp_start'', ''comp_size'', ''mv_size'', ''mv_offset'']) (\<lambda>_.
          rbind (join_uint 64 True (jv first_row ''allocation'')) (\<lambda>_.
          Inr (first_row, last_row)))))))
      | _ \<Rightarrow> Inl (Reject ''kernel picture has no complete reference lifetime''))"

definition PUBLIC_FIELDS :: "string list" where
  "PUBLIC_FIELDS = [''run'', ''context_generation'', ''session'', ''allocation_generation'', ''writer'', ''submitted'',
     ''completed'', ''capture_index'', ''copied'', ''sha256'']"

definition client_public :: "(string, json) dict \<Rightarrow> bool \<Rightarrow> json" where
  "client_public output va =
     JObj (map (\<lambda>k. (k, jv output k)) (PUBLIC_FIELDS @ [if va then ''surface'' else ''request'']))"

definition FORBIDDEN :: "string list" where
  "FORBIDDEN = [''timestamp'', ''fd'', ''dma'', ''pointer'', ''lease'', ''bytes'']"

definition forbidden_key :: "string \<Rightarrow> bool" where
  "forbidden_key k \<longleftrightarrow> list_ex (\<lambda>w. list_ex (starts_with w) (suffixes_of (map lower_char k))) FORBIDDEN"

fun json_keys :: "json \<Rightarrow> string list" where
  "json_keys (JObj d) = concat (map (\<lambda>(k, v). k # json_keys v) d)"
| "json_keys (JList xs) = concat (map json_keys xs)"
| "json_keys v = []"

definition join_result :: "(json \<Rightarrow> string) \<Rightarrow> kernel_evidence \<Rightarrow> bool \<Rightarrow> bool \<Rightarrow> json list \<Rightarrow> json \<Rightarrow> json py" where
  "join_result dumps ev va copy selected queue_sha256 =
     rbind (join_hex 64 False queue_sha256) (\<lambda>digest.
     let result = JObj [(''schema'', JStr JOIN_SCHEMA), (''client'', JStr (if va then ''va'' else ''gst'')),
       (''copy'', JBool copy),
       (''kernel'', JObj [(''run'', JStr (show_nat (nat (ke_run ev)))), (''context'', JStr (show_nat (nat (ke_context ev))))]),
       (''selected'', JList selected),
       (''inputs'', JObj (dset ''client_queue'' (JStr digest) (map (\<lambda>(k, h). (k, JStr h)) (sort_key fst (ke_hashes ev)))))] in
     rbind (require (length (dumps result) + 1 \<le> MAX_OUTPUT_BYTES) ''normalized join result exceeds its bound'') (\<lambda>_.
     rbind (require (\<not> list_ex forbidden_key (json_keys result)) ''normalized join result contains a forbidden raw field'') (\<lambda>_.
     Inr result)))"

definition bridge :: "int \<Rightarrow> int \<Rightarrow> json \<Rightarrow> (string, json) dict \<Rightarrow> (string, json) dict \<Rightarrow> json" where
  "bridge picture poc capture extra r1 =
     JObj ([(''picture'', JInt picture), (''poc'', JInt poc), (''capture_index'', capture)] @ extra @
       [(''kernel_allocation'', JStr (show_nat (nat (jint r1 ''allocation'')))), (''kernel_writer'', JInt picture),
        (''kernel_completed'', JBool True)])"

definition selected_row :: "bool \<Rightarrow> json \<Rightarrow> json \<Rightarrow> json \<Rightarrow> json" where
  "selected_row va v client b =
     JObj [(''selector'', JObj [(''domain'', JStr (coordinate va)), (''value'', v)]), (''client'', client), (''bridge'', b)]"

text \<open>The body of the loop over the outputs of \<open>join_va\<close>.\<close>

definition str_of :: "json \<Rightarrow> string" where
  "str_of v = (case v of JStr s \<Rightarrow> s | _ \<Rightarrow> [])"

definition va_select ::
  "kernel_evidence \<Rightarrow> ((string, json) dict \<times> va_identity) list \<Rightarrow> output_row list \<Rightarrow> json \<Rightarrow> json py" where
  "va_select ev queue rows v =
     (let output = (case v of JObj d \<Rightarrow> d | _ \<Rightarrow> []); ordinal = jint output ''output_ordinal'' in
     rbind (case find (\<lambda>r. int (or_output_index r) = ordinal) (rev rows) of
              None \<Rightarrow> Inl (Reject ''VA output ordinal is not associated'') | Some r \<Rightarrow> Inr r) (\<lambda>a.
     let (row, obs) = queue ! nat (or_pic a - 1); run = jlist output ''run'' in
     rbind (require (vi_run obs = concat (map str_of run))
       ''VA report/queue run mismatch'') (\<lambda>_.
     rbind (require (vi_context obs = int (hex_value (jstr output ''context_generation''))) ''VA report/queue context mismatch'') (\<lambda>_.
     rbind (require (vi_allocation obs = int (hex_value (jstr output ''allocation_generation''))) ''VA report/queue allocation mismatch'') (\<lambda>_.
     rbind (require (vi_writer obs = int (hex_value (jstr output ''writer''))) ''VA report/queue writer mismatch'') (\<lambda>_.
     rbind (require (py_eq (jv row ''target'') (jv output ''capture_index'')) ''VA report/queue capture mismatch'') (\<lambda>_.
     rbind (require (py_eq (jv row ''poc'') (JInt (or_poc a))) ''VA queue/output POC mismatch'') (\<lambda>_.
     rbind (reference_pair ev (or_pic a) (jv output ''capture_index'')) (\<lambda>(r1, _).
     Inr (selected_row True (JInt ordinal) (client_public output True)
       (bridge (or_pic a) (or_poc a) (jv output ''capture_index'')
         [(''client_surface_generation'', JStr (show_nat (nat (vi_surface obs))))] r1)))))))))))"

definition join_va ::
  "(string \<Rightarrow> json py) \<Rightarrow> (json \<Rightarrow> string) \<Rightarrow> kernel_evidence \<Rightarrow> json \<Rightarrow> string \<Rightarrow> json \<Rightarrow> int list \<Rightarrow> bool \<Rightarrow> json \<Rightarrow> json py" where
  "join_va loads dumps ev report queue_raw associations selectors copy queue_sha256 =
     rbind (evidence_check ev) (\<lambda>_.
     rbind (validate_report report True selectors copy) (\<lambda>outputs.
     rbind (parse_va_queue loads queue_raw (length (ke_requests ev))) (\<lambda>queue.
     rbind (parse_associations associations (length (ke_requests ev))) (\<lambda>rows.
     rbind (rall (\<lambda>((actual, _), expected). require (py_eq (va_projection actual) (va_projection expected))
       ''VA queue row is not the raw V4L2 request from this process'') (zip queue (ke_requests ev))) (\<lambda>_.
     rbind (rmap (va_select ev queue rows) outputs) (\<lambda>selected.
     join_result dumps ev True copy selected queue_sha256))))))"

record gst_bridge =
  gb_row :: gst_row
  gb_picture :: int
  gb_poc :: int

text \<open>One row of the Gst queue, bound to a raw request by its frame number.\<close>

definition gst_bind :: "kernel_evidence \<Rightarrow> output_row list \<Rightarrow> gst_row \<Rightarrow> gst_bridge py" where
  "gst_bind ev rows row =
     rbind (case find (\<lambda>a. as_system_frame_number a = gq_frame row) (rev (ke_associations ev)) of
              None \<Rightarrow> Inl (Reject ''Gst queue frame has no raw V4L2 timestamp bridge'') | Some a \<Rightarrow> Inr a) (\<lambda>raw.
     rbind (case find (\<lambda>r. py_eq (jv r ''pic'') (JInt (int (as_pic raw)))) (rev (ke_requests ev)) of
              None \<Rightarrow> Inl (KeyError ''pic'') | Some r \<Rightarrow> Inr r) (\<lambda>request.
     rbind (dsub request ''target'') (\<lambda>target.
     rbind (require (py_eq target (JInt (gq_capture row))) ''Gst queue frame has the wrong raw V4L2 capture lifetime'') (\<lambda>_.
     rbind (require (int (as_pic raw) \<in> set (map or_pic rows)) ''Gst queue frame was not delivered by the same process'') (\<lambda>_.
     Inr \<lparr>gb_row = row, gb_picture = int (as_pic raw), gb_poc = as_poc raw\<rparr>)))))"

definition gst_select :: "kernel_evidence \<Rightarrow> gst_bridge list \<Rightarrow> json \<Rightarrow> json py" where
  "gst_select ev queue v =
     (let output = (case v of JObj d \<Rightarrow> d | _ \<Rightarrow> []); frame = jint output ''system_frame_number'' in
     rbind (case find (\<lambda>b. gq_frame (gb_row b) = frame) (rev queue) of
              None \<Rightarrow> Inl (Reject ''Gst selected frame has no same-process queue record'') | Some b \<Rightarrow> Inr b) (\<lambda>b.
     let row = gb_row b in
     rbind (require (jv output ''run'' = JList [JStr (fst (gq_run row)), JStr (snd (gq_run row))] \<and>
       gq_context row = int (hex_value (jstr output ''context_generation'')) \<and>
       gq_allocation row = int (hex_value (jstr output ''allocation_generation'')) \<and>
       gq_request row = int (hex_value (jstr output ''request'')) \<and>
       gq_writer row = int (hex_value (jstr output ''writer'')) \<and> gq_frame row = frame \<and>
       JInt (gq_capture row) = jv output ''capture_index'') ''Gst report/queue identity mismatch'') (\<lambda>_.
     rbind (reference_pair ev (gb_picture b) (jv output ''capture_index'')) (\<lambda>(r1, _).
     Inr (selected_row False (JInt frame) (client_public output False)
       (bridge (gb_picture b) (gb_poc b) (jv output ''capture_index'') [] r1))))))"

definition join_gst ::
  "(json \<Rightarrow> string) \<Rightarrow> kernel_evidence \<Rightarrow> json \<Rightarrow> string option \<Rightarrow> json \<Rightarrow> int list \<Rightarrow> bool \<Rightarrow> json \<Rightarrow> json py" where
  "join_gst dumps ev report queue_text associations selectors copy queue_sha256 =
     rbind (evidence_check ev) (\<lambda>_.
     rbind (validate_report report False selectors copy) (\<lambda>outputs.
     rbind (parse_gst_queue queue_text (length (ke_requests ev))) (\<lambda>queue.
     rbind (parse_associations associations (length (ke_requests ev))) (\<lambda>rows.
     rbind (rmap (gst_bind ev rows) queue) (\<lambda>bound.
     rbind (require (length (remdups (map (\<lambda>b. gq_frame (gb_row b)) bound)) = length (ke_requests ev))
       ''Gst queue/raw V4L2 bridge is incomplete'') (\<lambda>_.
     rbind (rmap (gst_select ev bound) outputs) (\<lambda>selected.
     join_result dumps ev False copy selected queue_sha256)))))))"

subsection \<open>The report of the join against the collector\<close>

lemma join_hex_Inr: "join_hex n nz v = Inr s \<longleftrightarrow> v = JStr s \<and> hex_field n v \<and> (nz \<longrightarrow> hex_value s \<noteq> 0)"
  by (cases v) (auto simp: join_hex_def hex_field_def rbind_Inr require_Inr)

lemma join_hex_nonzero: "join_hex 16 True v = Inr s \<Longrightarrow> hex_nonzero v \<and> v = JStr s"
  by (auto simp: join_hex_Inr hex_field_def hex_nonzero_def)

lemma join_uint_Inr: "join_uint n nz v = Inr i \<longleftrightarrow> v = JInt i \<and> uint_field n v \<and> (nz \<longrightarrow> i \<noteq> 0)"
  by (auto simp: join_uint_def uint_field_def rbind_Inr require_Inr int_in_Inr)

lemma report_identity_Inr:
  assumes "report_identity d = Inr i"
  shows "run_good d \<and> hex_nonzero (jv d ''context_generation'') \<and> hex_nonzero (jv d ''session'') \<and> i = out_identity d"
proof -
  obtain a b run0 run1 cx session where
    run: "(case jv d ''run'' of JList [a, b] \<Rightarrow> Inr (a, b) | _ \<Rightarrow> Inl (Reject ''run has wrong shape'')) = (Inr (a, b) :: (json \<times> json) py)"
    and h: "join_hex 16 True a = Inr run0" "join_hex 16 True b = Inr run1"
      "join_hex 16 True (jv d ''context_generation'') = Inr cx" "join_hex 16 True (jv d ''session'') = Inr session"
    and i: "i = ((run0, run1), cx, session)"
    using assms unfolding report_identity_def by (auto elim!: rbind_InrE)
  have "jv d ''run'' = JList [a, b]" using run by (auto split: json.splits list.splits)
  moreover have "a = JStr run0" "b = JStr run1" "hex_field 16 a" "hex_field 16 b" "hex_value run0 \<noteq> 0"
    using h(1,2) by (auto simp: join_hex_Inr)
  ultimately have "run_good d" "run_field (jv d ''run'') = Some (run0, run1)"
    by (auto simp: run_good_def run_field_def)
  with i show ?thesis
    using join_hex_nonzero [OF h(3)] join_hex_nonzero [OF h(4)] by (auto simp: out_identity_def jstr_def)
qed

lemma va_report_keys: "keys_are d VA_REPORT_KEYS \<longleftrightarrow> keys_are d VA_OUTPUT_KEYS"
proof -
  have "set VA_REPORT_KEYS = set VA_OUTPUT_KEYS"
    by (auto simp: VA_REPORT_KEYS_def REPORT_COMMON_KEYS_def VA_OUTPUT_KEYS_def)
  then show ?thesis by (simp add: keys_are_def)
qed

text \<open>What one accepted VA output of the join says beyond the collector: it is drained.\<close>

definition drained :: "json \<Rightarrow> bool" where
  "drained v \<longleftrightarrow> hex_value (jstr (dict_of v) ''completed'') = hex_value (jstr (dict_of v) ''submitted'')"

lemma report_output_va:
  assumes "report_output True copy v (observed, common) = Inr r"
  shows "output_fits common v \<and> drained v \<and> jv (dict_of v) ''copied'' = JBool copy \<and>
    r = (observed @ [jint (dict_of v) ''output_ordinal''], Some (output_ident v))"
proof -
  obtain d where v: "v = JObj d" using assms by (cases v) (auto simp: report_output_def)
  obtain c ident u1 u2 u3 u4 u5 u6 u7 i where
    k: "require (keys_are d VA_REPORT_KEYS) ''observer output has unexpected fields'' = Inr u1"
    and c: "join_uint 64 False (jv d (coordinate True)) = Inr c"
    and ident: "report_identity d = Inr ident"
    and common: "require (common = None \<or> common = Some ident) ''observer report mixes run/context/session identity'' = Inr u2"
    and hexes: "rall (\<lambda>k. rbind (join_hex 16 True (jv d k)) (\<lambda>_. Inr ()))
           [''allocation_generation'', ''writer'', ''submitted'', ''completed''] = Inr u3"
    and fr: "require (hex_value (jstr d ''completed'') = hex_value (jstr d ''submitted''))
           ''is not at a drained completion frontier'' = Inr u4"
    and cap: "join_uint 32 False (jv d ''capture_index'') = Inr i"
    and cp: "require (jv d ''copied'' = JBool copy) ''has the wrong copy mode'' = Inr u5"
    and sha: "(if copy then rbind (join_hex 64 False (jv d ''sha256'')) (\<lambda>_. Inr ())
                else require (jv d ''sha256'' = JNull) ''exposes a copy-off digest'') = Inr u6"
    and sur: "rbind (join_uint 32 False (jv d ''surface'')) (\<lambda>_. Inr ()) = (Inr u7 :: unit py)"
    and r: "Inr (observed @ [c], Some ident) = (Inr r :: _ py)"
    using assms unfolding report_output_def v prod.case json.case if_True by (elim rbind_InrE [where y = r]) (rule that)
  have hx: "hex_nonzero (jv d k)" if "k \<in> {''allocation_generation'', ''writer'', ''submitted'', ''completed''}" for k
    using hexes that by (auto simp: rall_Inr elim!: rbind_InrE dest!: join_hex_nonzero)
  note I = report_identity_Inr [OF ident]
  have "copy_good d" using cp sha by (auto simp: copy_good_def require_Inr join_hex_Inr elim!: rbind_InrE split: if_splits)
  moreover have "uint_field 32 (jv d ''surface'')" using sur by (auto simp: join_uint_Inr elim!: rbind_InrE)
  moreover have "\<forall>k \<in> set VA_HEX64_FIELDS. hex_nonzero (jv d k)" using hx I by (auto simp: VA_HEX64_FIELDS_def)
  ultimately have "va_output_good d"
    using k c cap I fr by (auto simp: va_output_good_def require_Inr va_report_keys join_uint_Inr coordinate_def)
  moreover have "jint d ''output_ordinal'' = c" using c by (auto simp: join_uint_Inr coordinate_def jint_def)
  ultimately show ?thesis using I common fr cp r unfolding v
    by (auto simp: output_fits_def dict_of_def drained_def require_Inr)
qed

lemma report_outputs_va:
  assumes "rfold (report_output True copy) outs (observed, common) = Inr (observed', common')"
  shows "(\<forall>v \<in> set outs. output_fits common v) \<and> (\<forall>v \<in> set outs. \<forall>w \<in> set outs. output_ident v = output_ident w) \<and>
    (\<forall>v \<in> set outs. drained v \<and> jv (dict_of v) ''copied'' = JBool copy) \<and>
    observed' = observed @ map (\<lambda>v. jint (dict_of v) ''output_ordinal'') outs"
  using assms
proof (induction outs arbitrary: observed common)
  case (Cons v outs)
  then obtain r where r: "report_output True copy v (observed, common) = Inr r"
    and rest: "rfold (report_output True copy) outs r = Inr (observed', common')" by (auto elim!: rbind_InrE)
  note V = report_output_va [OF r]
  have r': "r = (observed @ [jint (dict_of v) ''output_ordinal''], Some (output_ident v))" using V by blast
  note IH = Cons.IH [OF rest [unfolded r']]
  have "(\<forall>w \<in> set (v # outs). output_fits common w) \<and>
      (\<forall>w \<in> set (v # outs). \<forall>u \<in> set (v # outs). output_ident w = output_ident u)"
    using output_fits_insert [of common v "set outs"] V IH unfolding list.set by blast
  moreover have "\<forall>w \<in> set (v # outs). drained w \<and> jv (dict_of w) ''copied'' = JBool copy" using V IH by simp
  moreover have "observed' = observed @ map (\<lambda>v. jint (dict_of v) ''output_ordinal'') (v # outs)" using IH by simp
  ultimately show ?case by blast
qed simp

lemma validate_report_va:
  assumes "validate_report document True selectors copy = Inr outs"
  shows "\<exists>d. document = JObj d \<and> keys_are d TOP_KEYS \<and> jv d ''schema'' = JStr VA_SCHEMA \<and> jv d ''outputs'' = JList outs \<and>
    py_eq (jv d ''count'') (JInt (int (length outs))) \<and> 1 \<le> length outs \<and> length outs \<le> 8 \<and> distinct selectors \<and>
    (\<forall>v \<in> set outs. output_fits None v \<and> drained v \<and> jv (dict_of v) ''copied'' = JBool copy) \<and>
    (\<forall>v \<in> set outs. \<forall>w \<in> set outs. output_ident v = output_ident w) \<and>
    map (\<lambda>v. jint (dict_of v) ''output_ordinal'') outs = selectors"
proof -
  obtain d where d: "document = JObj d" using assms by (cases document) (auto simp: validate_report_def)
  obtain x u1 u2 u3 u4 where
    req: "require (keys_are d [''schema'', ''count'', ''outputs'']) ''observer report has unexpected top-level fields'' = Inr u1"
      "require (jv d ''schema'' = JStr VA_SCHEMA) ''observer report has wrong client schema'' = Inr u2"
      "require (is_list (jv d ''outputs'') \<and> py_eq (jv d ''count'') (JInt (int (length (jlist d ''outputs'')))) \<and>
            length (jlist d ''outputs'') = length selectors) ''observer report count differs from the requested selection'' = Inr u3"
      "require (1 \<le> length selectors \<and> length selectors \<le> 8 \<and> distinct selectors)
            ''selectors are not one to eight unique values'' = Inr u4"
    and x: "rfold (report_output True copy) (jlist d ''outputs'') ([], None) = Inr x"
    and rest: "(case x of (observed, _) \<Rightarrow>
          rbind (require (observed = selectors) ''VA observer ordinals differ from requested order'') (\<lambda>_.
          Inr (jlist d ''outputs''))) = Inr outs"
    using assms unfolding validate_report_def d json.case if_True by (elim rbind_InrE) (rule that)
  obtain observed common where fold: "rfold (report_output True copy) (jlist d ''outputs'') ([], None) = Inr (observed, common)"
    and obs: "observed = selectors" and outs: "outs = jlist d ''outputs''"
    using x rest by (cases x) (auto simp: rbind_Inr require_Inr)
  note F = report_outputs_va [OF fold, folded outs]
  note R = req [unfolded require_Inr]
  have "jv d ''outputs'' = JList outs" using R(3) outs jlist_is_list by blast
  moreover have "py_eq (jv d ''count'') (JInt (int (length outs)))" "length outs = length selectors" using R(3) outs by blast+
  moreover have "map (\<lambda>v. jint (dict_of v) ''output_ordinal'') outs = selectors" using F obs by simp
  moreover have "keys_are d TOP_KEYS" using R(1) by (simp add: TOP_KEYS_def)
  ultimately show ?thesis using d R(2,4) F by metis
qed

text \<open>
  C29. The join is stricter than the collector: every VA report that the join accepts for a selection
  and copy mode, and whose count is an integer, is accepted unchanged by the collector for the same
  selection and mode, from any bytes that decode to it; and all its outputs are drained, which the
  collector does not demand.
\<close>
theorem joined_report_collectable:
  assumes "validate_report document True selectors copy = Inr outs"
    and "decode_report loads data = Inr document"
    and "is_int (jv (dict_of document) ''count'')"
  shows "va_parse_report loads data (Some selectors) (Some copy) = Inr document \<and> list_all drained outs"
proof -
  obtain d where d: "document = JObj d" "keys_are d TOP_KEYS" "jv d ''schema'' = JStr VA_SCHEMA" "jv d ''outputs'' = JList outs"
      "py_eq (jv d ''count'') (JInt (int (length outs)))" "1 \<le> length outs" "length outs \<le> 8" "distinct selectors"
    and v: "\<forall>v \<in> set outs. output_fits None v \<and> drained v \<and> jv (dict_of v) ''copied'' = JBool copy"
    and i: "\<forall>v \<in> set outs. \<forall>w \<in> set outs. output_ident v = output_ident w"
    and sel: "map (\<lambda>v. jint (dict_of v) ''output_ordinal'') outs = selectors"
    using validate_report_va [OF assms(1)] by blast
  have cnt: "jv d ''count'' = JInt (int (length outs))" using assms(3) d(1,5) by (auto simp: is_int_iff dict_of_def)
  have ord: "\<exists>i. jv (dict_of v) ''output_ordinal'' = JInt i \<and> 0 \<le> i \<and> i < 2 ^ 64" if "v \<in> set outs" for v
    using v that by (auto simp: output_fits_def va_output_good_def uint_field_def)
  have "jv (dict_of v) ''output_ordinal'' = JInt (jint (dict_of v) ''output_ordinal'')" if "v \<in> set outs" for v
    using ord [OF that] by (auto simp: jint_def)
  then have "map (\<lambda>v. jv (dict_of v) ''output_ordinal'') outs = map JInt selectors"
    unfolding sel [symmetric] by simp
  then have "va_report_good document selectors copy"
    unfolding va_report_good_def using d cnt v i by blast
  moreover have "selection_ok (2 ^ 64) selectors"
    using d(6-8) ord unfolding sel [symmetric] by (fastforce simp: selection_ok_def list_all_iff jint_def)
  ultimately have "va_parse_report loads data (Some selectors) (Some copy) = Inr document"
    using assms(2) va_document_Inr [of document selectors copy document] by (simp add: va_parse_report_def expected_ok_def)
  then show ?thesis using v by (simp add: list_all_iff)
qed

lemma demo_validated: "validate_report demo_report True [7] False = Inr [demo_output]"
  by code_simp

lemma demo_decoded: "decode_report (\<lambda>_. Inr demo_report) [CHR 0x0A] = Inr demo_report"
  by code_simp

theorem joined_report_collectable_witness:
  "va_parse_report (\<lambda>_. Inr demo_report) [CHR 0x0A] (Some [7]) (Some False) = Inr demo_report"
  using joined_report_collectable [OF demo_validated demo_decoded] by (simp add: demo_report_def dict_of_def jv_def)

subsection \<open>What a join binds together\<close>

text \<open>
  The kernel records exactly one lifetime of a picture in a capture buffer: it starts with that
  picture as writer, not completed, and ends completed with the success code in the same allocation.
\<close>

definition kernel_lifetime :: "kernel_evidence \<Rightarrow> int \<Rightarrow> json \<Rightarrow> bool" where
  "kernel_lifetime ev picture capture \<longleftrightarrow> (\<exists>r1 r2.
     filter (\<lambda>row. py_eq (jv row ''picture'') (JInt picture) \<and>
       (py_eq (jv row ''kind'') (JInt 1) \<or> py_eq (jv row ''kind'') (JInt 2))) (ke_reference_records ev) = [r1, r2] \<and>
     py_eq (jv r1 ''kind'') (JInt 1) \<and> py_eq (jv r2 ''kind'') (JInt 2) \<and>
     py_eq (jv r1 ''buffer'') capture \<and> py_eq (jv r2 ''buffer'') capture \<and>
     py_eq (jv r1 ''writer'') (JInt picture) \<and> py_eq (jv r2 ''writer'') (JInt picture) \<and>
     py_eq (jv r1 ''completed'') (JInt 0) \<and> py_eq (jv r2 ''completed'') (JInt 1) \<and> py_eq (jv r2 ''result'') (JInt 5) \<and>
     py_eq (jv r1 ''allocation'') (jv r2 ''allocation''))"

definition va_bound ::
  "kernel_evidence \<Rightarrow> ((string, json) dict \<times> va_identity) list \<Rightarrow> output_row list \<Rightarrow> json \<Rightarrow> nat \<Rightarrow> bool" where
  "va_bound ev queue rows v pic \<longleftrightarrow>
     (let out = dict_of v; a = rows ! nat (jint out ''output_ordinal''); obs = snd (queue ! (pic - 1)) in
      1 \<le> pic \<and> pic \<le> length (ke_requests ev) \<and> nat (jint out ''output_ordinal'') < length rows \<and> or_pic a = int pic \<and>
      vi_run obs = concat (map str_of (jlist out ''run'')) \<and>
      vi_context obs = int (hex_value (jstr out ''context_generation'')) \<and>
      vi_allocation obs = int (hex_value (jstr out ''allocation_generation'')) \<and>
      vi_writer obs = int (hex_value (jstr out ''writer'')) \<and>
      py_eq (jv (ke_requests ev ! (pic - 1)) ''poc'') (JInt (or_poc a)) \<and>
      py_eq (jv (ke_requests ev ! (pic - 1)) ''target'') (jv out ''capture_index'') \<and>
      kernel_lifetime ev (int pic) (jv out ''capture_index''))"

lemma unique_pairs_ok: "unique_pairs d acc = Inr r \<Longrightarrow> dict_ok acc \<Longrightarrow> r = acc @ d \<and> dict_ok r"
proof (induction d acc rule: unique_pairs.induct)
  case (2 key v rest result)
  obtain u where u: "require (\<not> dhas result key) ''duplicate JSON key'' = Inr u"
    and rest: "unique_pairs rest (result @ [(key, v)]) = Inr r" using 2(2) by (auto elim!: rbind_InrE)
  have "dict_ok (result @ [(key, v)])" using 2(3) u by (auto simp: dict_ok_def dhas_def require_Inr map_of_eq_None_iff)
  from 2(1) [OF u rest this] show ?case by auto
qed simp

lemma unique_json_ok: "unique_json (JObj d) \<Longrightarrow> dict_ok d"
  using unique_pairs_ok [of d "[]"] by (auto split: sum.splits)

lemma load_unique_ok: "load_unique loads line = Inr (JObj d) \<Longrightarrow> dict_ok d"
  unfolding load_unique_def by (auto simp: rbind_Inr require_Inr simp del: unique_json.simps split: sum.splits py_exn.splits dest: unique_json_ok)

lemma json_lines_ok:
  assumes "json_lines loads m raw = Inr rows" and "row \<in> set rows"
  shows "dict_ok row"
proof -
  have "list_all2 (\<lambda>line d. load_unique loads line = Inr (JObj d)) (butlast (split_on CHR 0x0A raw)) rows"
    using assms(1) unfolding json_lines_def rmap_Inr_list_all2
    by (elim rbind_InrE) (auto simp: rmap_Inr_list_all2 elim!: list_all2_mono rbind_InrE split: json.splits)
  then obtain line where "load_unique loads line = Inr (JObj row)"
    using assms(2) by (auto simp: list_all2_conv_all_nth in_set_conv_nth)
  then show ?thesis by (rule load_unique_ok)
qed

lemma dget_filter_keys: "dget (filter (\<lambda>(k, v). k \<notin> K) row) k = (if k \<in> K then None else dget row k)"
  by (induction row) auto

lemma projection_field:
  assumes "py_eq (va_projection r) (va_projection q)" and "dict_ok r" and "dict_ok q"
    and "k \<notin> {''schema'', ''run'', ''ctx'', ''va_context'', ''observer''}"
  shows "py_eq (jv r k) (jv q k)"
proof -
  let ?f = "filter (\<lambda>(k, v). k \<notin> {''schema'', ''run'', ''ctx'', ''va_context'', ''observer''}) :: (string, json) dict \<Rightarrow> _"
  have ok: "dict_ok (?f x)" if "dict_ok x" for x using that by (simp add: dict_ok_def distinct_map_filter)
  have "rel_option py_eq (dget (?f r) k) (dget (?f q) k)"
    using py_eq_JObjD [OF assms(1) [unfolded va_projection_def] ok [OF assms(2)] ok [OF assms(3)]] .
  then have "rel_option py_eq (dget r k) (dget q k)" using assms(4) unfolding dget_filter_keys by (simp only: if_False)
  then show ?thesis by (cases "dget r k"; cases "dget q k") (auto simp: jv_def)
qed

lemma reference_pair_Inr:
  assumes "reference_pair ev picture capture = Inr rr"
  shows "kernel_lifetime ev picture capture"
proof -
  let ?rows = "filter (\<lambda>row. py_eq (jv row ''picture'') (JInt picture) \<and>
       (py_eq (jv row ''kind'') (JInt 1) \<or> py_eq (jv row ''kind'') (JInt 2))) (ke_reference_records ev)"
  obtain r1 r2 where rows: "?rows = [r1, r2]"
    using assms unfolding reference_pair_def by (auto split: list.splits)
  have "py_eq (jv r1 ''kind'') (JInt 1) \<and> py_eq (jv r2 ''kind'') (JInt 2)"
    "py_eq (jv r1 ''buffer'') (jv r2 ''buffer'') \<and> py_eq (jv r2 ''buffer'') capture"
    "py_eq (jv r1 ''writer'') (JInt picture) \<and> py_eq (jv r1 ''completed'') (JInt 0)"
    "py_eq (jv r2 ''writer'') (JInt picture) \<and> py_eq (jv r2 ''completed'') (JInt 1) \<and> py_eq (jv r2 ''result'') (JInt 5)"
    "py_eq (jv r1 ''allocation'') (jv r2 ''allocation'')"
    using assms unfolding reference_pair_def rows list.case by (auto simp: rbind_Inr require_Inr rall_Inr)
  then show ?thesis unfolding kernel_lifetime_def using rows py_eq_trans by blast
qed

lemma parse_associations_Inr:
  assumes "parse_associations document n = Inr rows"
  shows "length rows = n \<and> distinct (map or_pic rows) \<and>
    (\<forall>i < n. or_output_index (rows ! i) = i \<and> 1 \<le> or_pic (rows ! i) \<and> or_pic (rows ! i) \<le> int n)"
proof -
  obtain xs where xs: "rfold (association_row n) xs [] = Inr rows" "length xs = n" "length (remdups (map or_pic rows)) = n"
    using assms unfolding parse_associations_def by (auto simp: rbind_Inr require_Inr split: json.splits)
  have "length rows = length xs \<and> (\<forall>i < length xs. or_output_index (rows ! i) = i \<and> 1 \<le> or_pic (rows ! i) \<and> or_pic (rows ! i) \<le> int n)"
    using xs(1)
  proof (rule rfold_prefix_invariant)
    fix ys :: "json list" and v acc acc'
    assume IH: "length acc = length ys \<and> (\<forall>i < length ys. or_output_index (acc ! i) = i \<and> 1 \<le> or_pic (acc ! i) \<and> or_pic (acc ! i) \<le> int n)"
      and st: "association_row n v acc = Inr acc'"
    obtain pic poc where "acc' = acc @ [\<lparr>or_output_index = length acc, or_pic = pic, or_poc = poc\<rparr>]" "1 \<le> pic" "pic \<le> int n"
      using st unfolding association_row_def by (auto simp: rbind_Inr require_Inr join_uint_Inr uint_field_def split: json.splits)
    then show "length acc' = length (ys @ [v]) \<and> (\<forall>i < length (ys @ [v]). or_output_index (acc' ! i) = i \<and>
        1 \<le> or_pic (acc' ! i) \<and> or_pic (acc' ! i) \<le> int n)" using IH by (auto simp: nth_append less_Suc_eq)
  qed simp
  moreover have "distinct (map or_pic rows)"
    using xs calculation by (metis length_map length_remdups_eq remdups_id_iff_distinct)
  ultimately show ?thesis using xs(2) by simp
qed

lemma parse_va_queue_Inr:
  assumes "parse_va_queue loads raw n = Inr queue"
  shows "length queue = n \<and> (\<forall>q \<in> set queue. dict_ok (fst q))"
proof -
  obtain rows ids where rows: "json_lines loads MAX_QUEUE_BYTES raw = Inr rows" "length rows = n"
    and ids: "rfold va_queue_step rows [] = Inr ids" and q: "queue = zip rows ids"
    using assms unfolding parse_va_queue_def by (auto simp: rbind_Inr require_Inr)
  have "length ids = length rows" using ids
    by (rule rfold_prefix_invariant) (auto simp: va_queue_step_def rbind_Inr)
  then show ?thesis using q rows json_lines_ok [OF rows(1)] by (auto dest: set_zip_leftD)
qed

lemma va_select_Inr:
  assumes sel: "va_select ev queue rows v = Inr s"
    and assoc: "parse_associations document n = Inr rows" and queue: "parse_va_queue loads raw n = Inr queue"
    and n: "n = length (ke_requests ev)"
    and proj: "\<forall>i < n. py_eq (va_projection (fst (queue ! i))) (va_projection (ke_requests ev ! i))"
    and ok: "\<forall>r \<in> set (ke_requests ev). dict_ok r"
    and obj: "v = JObj out" and ord: "0 \<le> jint out ''output_ordinal''"
  shows "\<exists>pic. va_bound ev queue rows v pic \<and> jv (dict_of (jv (dict_of s) ''bridge'')) ''picture'' = JInt (int pic)"
proof -
  let ?o = "jint out ''output_ordinal''"
  note A = parse_associations_Inr [OF assoc] and Q = parse_va_queue_Inr [OF queue]
  obtain a where a: "find (\<lambda>r. int (or_output_index r) = ?o) (rev rows) = Some a"
    using sel obj unfolding va_select_def Let_def by (auto simp: rbind_Inr split: option.splits)
  then have "a \<in> set rows \<and> int (or_output_index a) = ?o"
    using find_SomeD by fastforce
  then obtain i where i: "i < n" "rows ! i = a" "int i = ?o" using A by (auto simp: in_set_conv_nth)
  have "nat ?o = i" using i(3) by linarith
  then have at: "nat ?o < length rows" "rows ! nat ?o = a" using i(1,2) A by auto
  define pic where "pic = nat (or_pic a)"
  have pic: "or_pic a = int pic" "1 \<le> pic" "pic \<le> n" using A i by (auto simp: pic_def)
  obtain row obs where q: "queue ! (pic - 1) = (row, obs)" by fastforce
  have nth: "nat (or_pic a - 1) = pic - 1" using pic by simp
  obtain rr u1 u2 u3 u4 u5 u6 where
    req: "require (vi_run obs = concat (map str_of (jlist out ''run''))) ''VA report/queue run mismatch'' = Inr u1"
      "require (vi_context obs = int (hex_value (jstr out ''context_generation''))) ''VA report/queue context mismatch'' = Inr u2"
      "require (vi_allocation obs = int (hex_value (jstr out ''allocation_generation''))) ''VA report/queue allocation mismatch'' = Inr u3"
      "require (vi_writer obs = int (hex_value (jstr out ''writer''))) ''VA report/queue writer mismatch'' = Inr u4"
      "require (py_eq (jv row ''target'') (jv out ''capture_index'')) ''VA report/queue capture mismatch'' = Inr u5"
      "require (py_eq (jv row ''poc'') (JInt (or_poc a))) ''VA queue/output POC mismatch'' = Inr u6"
    and pair: "reference_pair ev (or_pic a) (jv out ''capture_index'') = Inr rr"
    and s': "(case rr of (r1, _) \<Rightarrow> Inr (selected_row True (JInt ?o) (client_public out True)
        (bridge (or_pic a) (or_poc a) (jv out ''capture_index'')
         [(''client_surface_generation'', JStr (show_nat (nat (vi_surface obs))))] r1))) = (Inr s :: json py)"
    using sel unfolding va_select_def obj Let_def json.case a option.case rbind_simps nth q prod.case
    by (elim rbind_InrE) (rule that)
  note c = req [unfolded require_Inr]
  obtain r1 where s: "s = selected_row True (JInt ?o) (client_public out True) (bridge (or_pic a) (or_poc a) (jv out ''capture_index'')
         [(''client_surface_generation'', JStr (show_nat (nat (vi_surface obs))))] r1)" using s' by (cases rr) auto
  have lt: "pic - 1 < n" using pic by simp
  have d: "dict_ok row" "dict_ok (ke_requests ev ! (pic - 1))" using Q ok lt n q nth_mem [of "pic - 1" queue] by auto
  have "py_eq (va_projection row) (va_projection (ke_requests ev ! (pic - 1)))" using proj lt q by (metis fst_conv)
  then have bk: "py_eq (jv (ke_requests ev ! (pic - 1)) k) (jv row k)" if "k \<in> {''target'', ''poc''}" for k
    using that d by (intro py_eq_sym [OF projection_field]) auto
  have "py_eq (jv (ke_requests ev ! (pic - 1)) ''target'') (jv out ''capture_index'')"
    by (rule py_eq_trans [OF bk c(5)]) simp
  moreover have "py_eq (jv (ke_requests ev ! (pic - 1)) ''poc'') (JInt (or_poc a))"
    by (rule py_eq_trans [OF bk c(6)]) simp
  moreover have "kernel_lifetime ev (int pic) (jv out ''capture_index'')"
    using reference_pair_Inr [OF pair] pic(1) by simp
  ultimately have "va_bound ev queue rows v pic"
    unfolding va_bound_def Let_def obj using at pic n c q by (simp add: dict_of_def)
  moreover have "jv (dict_of (jv (dict_of s) ''bridge'')) ''picture'' = JInt (int pic)"
    unfolding s by (simp add: selected_row_def bridge_def dict_of_def jv_def pic(1))
  ultimately show ?thesis by blast
qed

text \<open>
  C28. What a VA join binds: when it returns a document, the report, the client queue trace and the
  output association all passed their checks, and every selected output stands for one decoded
  picture, a different one for each, such that the client's run, context, allocation and writer in the
  report are those of the queue row of that picture, the raw V4L2 request of that picture has the
  associated picture order count and decoded into the reported capture buffer, and the kernel recorded
  exactly one successful lifetime of that picture in that buffer. The document names these pictures.
\<close>
theorem join_va_binds:
  assumes "join_va loads dumps ev report queue_raw associations selectors copy queue_sha256 = Inr result"
    and "\<forall>r \<in> set (ke_requests ev). dict_ok r"
  shows "\<exists>outs queue rows pics.
    validate_report report True selectors copy = Inr outs \<and>
    parse_va_queue loads queue_raw (length (ke_requests ev)) = Inr queue \<and>
    parse_associations associations (length (ke_requests ev)) = Inr rows \<and>
    distinct pics \<and> list_all2 (va_bound ev queue rows) outs pics \<and>
    map (\<lambda>s. jv (dict_of (jv (dict_of s) ''bridge'')) ''picture'') (jlist (dict_of result) ''selected'') =
      map (\<lambda>p. JInt (int p)) pics"
proof -
  let ?n = "length (ke_requests ev)"
  obtain u outs queue rows u2 sel where v: "validate_report report True selectors copy = Inr outs"
    and q: "parse_va_queue loads queue_raw ?n = Inr queue" and a: "parse_associations associations ?n = Inr rows"
    and p: "rall (\<lambda>((actual, _), expected). require (py_eq (va_projection actual) (va_projection expected))
       ''VA queue row is not the raw V4L2 request from this process'') (zip queue (ke_requests ev)) = Inr u2"
    and s: "rmap (va_select ev queue rows) outs = Inr sel"
    and r: "join_result dumps ev True copy sel queue_sha256 = Inr result"
    using assms(1) unfolding join_va_def by (elim rbind_InrE)
  have proj: "\<forall>i < ?n. py_eq (va_projection (fst (queue ! i))) (va_projection (ke_requests ev ! i))"
  proof (intro allI impI)
    fix i assume i: "i < ?n"
    then have "(queue ! i, ke_requests ev ! i) \<in> set (zip queue (ke_requests ev))"
      using parse_va_queue_Inr [OF q] by (auto simp: set_zip)
    then show "py_eq (va_projection (fst (queue ! i))) (va_projection (ke_requests ev ! i))"
      using p unfolding rall_Inr by (fastforce simp: require_Inr case_prod_beta)
  qed
  have out: "\<exists>d. w = JObj d \<and> 0 \<le> jint d ''output_ordinal''" if "w \<in> set outs" for w
    using validate_report_va [OF v] that
    by (fastforce simp: output_fits_def va_output_good_def uint_field_def is_obj_iff dict_of_def jint_def)
  have len: "length sel = length outs" using s by (rule rmap_Inr_length)
  have "\<exists>pic. va_bound ev queue rows (outs ! i) pic \<and> jv (dict_of (jv (dict_of (sel ! i)) ''bridge'')) ''picture'' = JInt (int pic)"
    if i: "i < length outs" for i
  proof -
    have st: "va_select ev queue rows (outs ! i) = Inr (sel ! i)"
      using s i by (simp add: rmap_Inr_list_all2 list_all2_conv_all_nth)
    obtain d where "outs ! i = JObj d" "0 \<le> jint d ''output_ordinal''" using out i nth_mem by blast
    then show ?thesis using va_select_Inr [OF st a q refl proj assms(2)] by blast
  qed
  then obtain pic where pic: "\<And>i. i < length outs \<Longrightarrow> va_bound ev queue rows (outs ! i) (pic i) \<and>
      jv (dict_of (jv (dict_of (sel ! i)) ''bridge'')) ''picture'' = JInt (int (pic i))" by metis
  define pics where "pics = map pic [0..<length outs]"
  have "list_all2 (va_bound ev queue rows) outs pics" using pic by (simp add: pics_def list_all2_conv_all_nth)
  moreover have "map (\<lambda>s. jv (dict_of (jv (dict_of s) ''bridge'')) ''picture'') sel = map (\<lambda>p. JInt (int p)) pics"
    by (rule nth_equalityI) (simp_all add: pics_def len pic)
  moreover have "jlist (dict_of result) ''selected'' = sel"
    using r unfolding join_result_def Let_def
    by (elim rbind_InrE) (auto simp: dict_of_def jlist_def jv_def)
  moreover have "distinct pics" unfolding pics_def distinct_map
  proof (intro conjI inj_onI)
    fix i j assume ij: "i \<in> set [0..<length outs]" "j \<in> set [0..<length outs]" "pic i = pic j"
    let ?k = "\<lambda>i. nat (jint (dict_of (outs ! i)) ''output_ordinal'')"
    have b: "?k i < length rows" "?k j < length rows" "or_pic (rows ! ?k i) = or_pic (rows ! ?k j)"
      using pic [of i] pic [of j] ij by (auto simp: va_bound_def Let_def)
    moreover have "distinct (map or_pic rows)" using parse_associations_Inr [OF a] by blast
    ultimately have "?k i = ?k j" using nth_eq_iff_index_eq [of "map or_pic rows" "?k i" "?k j"] by simp
    then have "jint (dict_of (outs ! i)) ''output_ordinal'' = jint (dict_of (outs ! j)) ''output_ordinal''"
      using out [of "outs ! i"] out [of "outs ! j"] ij by (fastforce simp: dict_of_def)
    then have "selectors ! i = selectors ! j" using validate_report_va [OF v] ij by auto
    moreover have "distinct selectors" "length selectors = length outs" using validate_report_va [OF v] by auto
    ultimately show "i = j" using ij by (simp add: nth_eq_iff_index_eq)
  qed simp
  ultimately show ?thesis using v q a by blast
qed

text \<open>One picture, decoded into capture buffer 9 and selected as output 0.\<close>

definition demo_selected :: json where
  "demo_selected = JObj (dset ''output_ordinal'' (JInt 0) (dict_of demo_output))"

definition demo_joined_report :: json where
  "demo_joined_report = JObj [(''schema'', JStr VA_SCHEMA), (''count'', JInt 1), (''outputs'', JList [demo_selected])]"

definition demo_request :: "(string, json) dict" where
  "demo_request = [(''schema'', JStr VA_TRACE_SCHEMA), (''run'', JStr ''00000000000000aa''), (''seq'', JInt 1), (''ctx'', JInt 1),
     (''va_context'', JStr ''direct-v4l2''), (''pic'', JInt 1), (''req'', JInt 1), (''first'', JInt 1), (''last'', JInt 1),
     (''target'', JInt 9), (''poc'', JInt 0), (''irap'', JInt 1), (''idr'', JInt 1), (''ltr_sps'', JInt 0), (''reorder'', JInt 0),
     (''total_curr'', JInt 0), (''dpb'', JList []), (''slices'', JList []), (''st_before'', JList []), (''st_after'', JList []),
     (''lt_curr'', JList [])]"

definition demo_queue_row :: json where
  "demo_queue_row = JObj (demo_request @ [(''observer'', JObj [(''run'', JStr ''000000000000000a00000000000000b0''),
     (''context'', JInt 1), (''allocation'', JInt 3), (''surface'', JInt 8), (''writer'', JInt 4)])])"

definition demo_reference :: "int \<Rightarrow> (string, json) dict" where
  "demo_reference kind = [(''picture'', JInt 1), (''kind'', JInt kind), (''buffer'', JInt 9), (''writer'', JInt 1),
     (''completed'', JInt (kind - 1)), (''result'', JInt 5), (''allocation'', JInt 77), (''length'', JInt 4096),
     (''comp_start'', JInt 0), (''comp_size'', JInt 64), (''mv_size'', JInt 64), (''mv_offset'', JInt 128)]"

definition demo_evidence :: kernel_evidence where
  "demo_evidence = \<lparr>ke_run = 5, ke_context = 6, ke_child_pid = 7, ke_requests = [demo_request],
     ke_associations = [\<lparr>as_pic = 1, as_poc = 0, as_system_frame_number = 1\<rparr>],
     ke_reference_records = [demo_reference 1, demo_reference 2],
     ke_hashes = map (\<lambda>k. (k, replicate 64 CHR ''0'')) [''execution'', ''v4l2_trace'', ''command_snapshot'', ''reference_snapshot'']\<rparr>"

definition demo_association :: json where
  "demo_association = JList [JObj [(''output_index'', JInt 0), (''pic'', JInt 1), (''poc'', JInt 0)]]"

definition demo_join :: "json py" where
  "demo_join = join_va (\<lambda>_. Inr demo_queue_row) (\<lambda>_. []) demo_evidence demo_joined_report [CHR ''q'', CHR 0x0A] demo_association [0] False
     (JStr (replicate 64 CHR ''1''))"

lemma demo_join_accepted: "case demo_join of Inr r \<Rightarrow> length (jlist (dict_of r) ''selected'') = 1 | Inl _ \<Rightarrow> False"
  by code_simp

lemma demo_evidence_ok: "\<forall>r \<in> set (ke_requests demo_evidence). dict_ok r"
  by (simp add: demo_evidence_def demo_request_def dict_ok_def)

theorem join_va_binds_witness:
  "\<exists>result queue rows pic. demo_join = Inr result \<and> va_bound demo_evidence queue rows demo_selected pic"
proof -
  obtain result where r: "demo_join = Inr result" using demo_join_accepted by (auto split: sum.splits)
  obtain outs queue rows pics where o: "validate_report demo_joined_report True [0] False = Inr outs"
    and b: "list_all2 (va_bound demo_evidence queue rows) outs pics"
    using join_va_binds [OF r [unfolded demo_join_def] demo_evidence_ok] by blast
  have "outs = [demo_selected]"
    using validate_report_va [OF o] by (auto simp: demo_joined_report_def jv_def)
  then obtain pic where "va_bound demo_evidence queue rows demo_selected pic"
    using b by (auto simp: list_all2_Cons1)
  with r show ?thesis by blast
qed

end
