(* ===== verification/Execution_Record.thy ===== *)
theory Execution_Record
  imports Capture Same_Run_Join
begin

text \<open>
  The record of one supervised run, as \<open>hevc-avd-command-capture/capture.py\<close> writes it
  (\<open>execution_json\<close>), and the check of that record in
  \<open>hevc-reference-content/same-run/validator.py\<close>, \<^verbatim>\<open>_execution\<close> (\<open>execution_record\<close>): producer and consumer
  of one document. The record of a successful run is one that the check accepts.
\<close>

subsection \<open>The record that the supervisor returns\<close>

definition rec_name :: "recorder \<Rightarrow> string" where
  "rec_name r = (case r of Reference \<Rightarrow> ''reference'' | Command \<Rightarrow> ''command'')"

definition name_json :: "recorder option \<Rightarrow> json" where
  "name_json r = (case r of None \<Rightarrow> JNull | Some q \<Rightarrow> JStr (rec_name q))"

definition event_json :: "sup_event \<Rightarrow> json" where
  "event_json e = JObj [(''stage'', JStr (ev_stage e)), (''recorder'', name_json (ev_recorder e)), (''seconds'', JFloat (ev_seconds e))]"

definition error_json :: "string \<times> recorder option \<times> string \<Rightarrow> json" where
  "error_json x = (case x of (stage, r, m) \<Rightarrow> JObj [(''stage'', JStr stage), (''recorder'', name_json r), (''error'', JStr m)])"

definition status_json :: "status \<Rightarrow> json" where
  "status_json s = JObj (map (\<lambda>(k, v). (k, JInt v)) s)"

definition receipt_json :: "nat \<times> string \<Rightarrow> json" where
  "receipt_json x = JObj [(''bytes'', JInt (int (fst x))), (''sha256'', JStr (snd x))]"

definition execution_json :: "sup_args \<Rightarrow> sup \<Rightarrow> json" where
  "execution_json a st = JObj [
     (''schema'', JStr ''hevc-avd-command-capture.execution/1''),
     (''run'', JInt (ar_run a)),
     (''enabled'', JBool (ar_enabled a)),
     (''child_pid'', case sp_pid st of None \<Rightarrow> JNull | Some p \<Rightarrow> JInt (int p)),
     (''child_exit'', case sp_exit st of None \<Rightarrow> JNull | Some c \<Rightarrow> JInt c),
     (''child_reaped'', JBool (sp_reaped st)),
     (''child_released'', JBool (sp_released st)),
     (''errors'', JList (map error_json (sp_errors st))),
     (''status'', JObj (map (\<lambda>(r, s). (rec_name r, status_json s)) (sp_status st))),
     (''snapshots'', JObj (map (\<lambda>(r, x). (rec_name r, receipt_json x)) (sp_snapshots st))),
     (''events'', JList (map event_json (sp_events st))),
     (''elapsed_seconds'', JFloat (sp_elapsed st))]"

subsection \<open>The check of the record\<close>

definition EXECUTION_KEYS :: "string list" where
  "EXECUTION_KEYS = [''schema'', ''run'', ''enabled'', ''child_pid'', ''child_exit'', ''child_reaped'',
     ''child_released'', ''errors'', ''status'', ''snapshots'', ''events'', ''elapsed_seconds'']"

definition SUCCESS_EVENTS :: "(json \<times> json) list" where
  "SUCCESS_EVENTS = [
     (JStr ''preflight'', JNull), (JStr ''child-blocked'', JNull),
     (JStr ''arm-attempt'', JStr ''reference''), (JStr ''armed'', JStr ''reference''),
     (JStr ''arm-attempt'', JStr ''command''), (JStr ''armed'', JStr ''command''),
     (JStr ''child-released'', JNull), (JStr ''child-waited'', JNull),
     (JStr ''sealed'', JStr ''reference''), (JStr ''snapshot-persisted'', JStr ''reference''),
     (JStr ''sealed'', JStr ''command''), (JStr ''snapshot-persisted'', JStr ''command''),
     (JStr ''cleared'', JStr ''reference''), (JStr ''cleared'', JStr ''command''),
     (JStr ''complete'', JNull)]"

definition STATUS_KEYS :: "string \<Rightarrow> string list" where
  "STATUS_KEYS name = [''run'', ''context'', ''phase'', ''errors'', ''pictures'', ''completions'', ''opens''] @
     (if name = ''reference'' then [''count'', ''attempted''] else [])"

text \<open>
  Numbers: \<^verbatim>\<open>type(v) in (int, float)\<close>, the value of a number in an exact comparison (a truth value is one,
  other values raise), and \<^verbatim>\<open>float(v)\<close> of a number. A float holds 53 bits: an integer is rounded to the nearest,
  ties to even, and one whose rounded value is not below \<^verbatim>\<open>2**1024\<close> raises \<^verbatim>\<open>OverflowError\<close>.
\<close>

definition is_number :: "json \<Rightarrow> bool" where
  "is_number v = (case v of JInt _ \<Rightarrow> True | JFloat _ \<Rightarrow> True | _ \<Rightarrow> False)"

definition py_number :: "json \<Rightarrow> rat py" where
  "py_number v = (case v of JInt i \<Rightarrow> Inr (of_int i) | JFloat q \<Rightarrow> Inr q | JBool b \<Rightarrow> Inr (of_bool b) | _ \<Rightarrow> Inl TypeError)"

definition float_of_int :: "int \<Rightarrow> rat py" where
  "float_of_int i = (let n = nat \<bar>i\<bar>; e = bit_length n - 53; m = round_even (of_nat n / 2 ^ e) in
     if 2 ^ 1024 \<le> m * 2 ^ e then Inl OverflowError else Inr (of_int (sgn i * m * 2 ^ e)))"

definition py_float :: "json \<Rightarrow> rat py" where
  "py_float v = (case v of JInt i \<Rightarrow> float_of_int i | _ \<Rightarrow> py_number v)"

text \<open>\<^verbatim>\<open>type(v) is dict and set(v) == ks\<close>, and comparisons of \<^verbatim>\<open>v[k]\<close>.\<close>

definition has_keys :: "json \<Rightarrow> string list \<Rightarrow> bool" where
  "has_keys v ks = (case v of JObj d \<Rightarrow> keys_are d ks | _ \<Rightarrow> False)"

definition true_at :: "json \<Rightarrow> string \<Rightarrow> bool py" where
  "true_at v k = rbind (sub v k) (\<lambda>x. Inr (x = JBool True))"

definition int_at :: "json \<Rightarrow> string \<Rightarrow> bool py" where
  "int_at v k = rbind (sub v k) (\<lambda>x. Inr (is_int x))"

definition number_at :: "json \<Rightarrow> string \<Rightarrow> rat py" where
  "number_at v k = rbind (sub v k) py_number"

text \<open>One turn of the loop over the events: the time of this event and what it observes.\<close>

definition execution_event :: "rat \<Rightarrow> json \<Rightarrow> (rat \<times> json \<times> json) py" where
  "execution_event previous e =
     rbind (require (has_keys e [''stage'', ''recorder'', ''seconds'']) ''execution event has unexpected fields'') (\<lambda>_.
     rbind (sub e ''seconds'') (\<lambda>seconds.
     rbind (require_and [Inr (is_number seconds), rbind (py_number seconds) (\<lambda>q. Inr (previous \<le> q))]
       ''execution event has invalid or decreasing time'') (\<lambda>_.
     rbind (py_float seconds) (\<lambda>q.
     rbind (sub e ''stage'') (\<lambda>stage.
     rbind (sub e ''recorder'') (\<lambda>recorder. Inr (q, stage, recorder)))))))"

primrec execution_events :: "rat \<Rightarrow> json list \<Rightarrow> (json \<times> json) list py" where
  "execution_events previous [] = Inr []"
| "execution_events previous (e # es) =
     rbind (execution_event previous e) (\<lambda>(q, x). rbind (execution_events q es) (\<lambda>xs. Inr (x # xs)))"

text \<open>The status of one recorder; the result is its context, an integer by the checks before.\<close>

definition status_numbers :: "int \<Rightarrow> json \<Rightarrow> unit py" where
  "status_numbers run row = require_and
     [eq_sub row ''run'' (JInt run), rbind (number_at row ''context'') (\<lambda>q. Inr (0 < q)), eq_sub row ''phase'' (JInt 4),
      eq_sub row ''errors'' (JInt 0), eq_subs row ''pictures'' row ''completions'', eq_sub row ''completions'' (JInt 300),
      eq_sub row ''opens'' (JInt 0)] ''recorder is not a complete sealed same-run capture''"

definition status_counts :: "json \<Rightarrow> unit py" where
  "status_counts row = require_and
     [int_at row ''count'', int_at row ''attempted'', rbind (number_at row ''count'') (\<lambda>c. Inr (0 \<le> c)),
      rbind (number_at row ''count'') (\<lambda>c. rbind (number_at row ''attempted'') (\<lambda>n. Inr (c \<le> n)))]
     ''reference recorder count/attempted fields are invalid''"

definition execution_status :: "int \<Rightarrow> string \<Rightarrow> json \<Rightarrow> int py" where
  "execution_status run name row =
     rbind (require (has_keys row (STATUS_KEYS name)) ''recorder status has unexpected or missing fields'') (\<lambda>_.
     rbind (rall (\<lambda>k. rbind (dict_get row k) (\<lambda>v. require (is_int v) ''recorder status lacks a field''))
       [''run'', ''context'', ''phase'', ''errors'', ''pictures'', ''completions'', ''opens'']) (\<lambda>_.
     rbind (if name = ''reference'' then status_counts row else Inr ()) (\<lambda>_.
     rbind (status_numbers run row) (\<lambda>_.
     rbind (sub row ''context'') (\<lambda>c. case c of JInt i \<Rightarrow> Inr i | _ \<Rightarrow> Inl TypeError)))))"

text \<open>One turn of the loop over the recorders: the status, then the snapshot against its receipt.\<close>

definition execution_recorder ::
  "('b list \<Rightarrow> string) \<Rightarrow> int \<Rightarrow> json \<Rightarrow> json \<Rightarrow> (string, 'b list) dict \<Rightarrow> string \<Rightarrow> int py" where
  "execution_recorder sha run status receipts snapshots name =
     rbind (rbind (sub status name) (execution_status run name)) (\<lambda>ctx.
     rbind (sub receipts name) (\<lambda>receipt.
     rbind (dsub snapshots name) (\<lambda>raw.
     rbind (require_and [Inr (has_keys receipt [''bytes'', ''sha256'']), eq_sub receipt ''bytes'' (JInt (int (length raw))),
         eq_sub receipt ''sha256'' (JStr (sha raw))] ''snapshot does not match its durable execution receipt'') (\<lambda>_.
     Inr ctx))))"

definition execution_events_of :: "json \<Rightarrow> unit py" where
  "execution_events_of document =
     rbind (sub document ''events'') (\<lambda>events.
     rbind (require_and [Inr (is_list events), rbind (py_len events) (\<lambda>n. Inr (n = length SUCCESS_EVENTS))]
       ''execution event transcript has the wrong extent'') (\<lambda>_.
     rbind (rbind (py_iter events) (execution_events (- 1))) (\<lambda>observed.
     require (list_all2 (\<lambda>(s, r) (s', r'). py_eq s s' \<and> py_eq r r') observed SUCCESS_EVENTS)
       ''execution event transcript is not the successful exact-PID sequence'')))"

definition execution_record ::
  "('b list \<Rightarrow> string) \<Rightarrow> json \<Rightarrow> (string, 'b list) dict \<Rightarrow> (int \<times> int \<times> int) py" where
  "execution_record sha document snapshots =
     rbind (require (is_obj document) ''execution record is not an object'') (\<lambda>_.
     rbind (require (has_keys document EXECUTION_KEYS) ''execution record has unexpected or missing fields'') (\<lambda>_.
     rbind (require_and [eq_sub document ''schema'' (JStr ''hevc-avd-command-capture.execution/1'')]
       ''execution record has the wrong schema'') (\<lambda>_.
     rbind (rbind (sub document ''run'') (join_uint 64 True)) (\<lambda>run.
     rbind (rbind (sub document ''child_pid'') (join_uint 31 True)) (\<lambda>child.
     rbind (require_and [true_at document ''enabled'', eq_sub document ''child_exit'' (JInt 0), true_at document ''child_reaped'',
       true_at document ''child_released'', eq_sub document ''errors'' (JList [])] ''decoder/supervisor execution was not successful'') (\<lambda>_.
     rbind (sub document ''elapsed_seconds'') (\<lambda>elapsed_seconds.
     rbind (require_and [Inr (is_number elapsed_seconds), rbind (py_number elapsed_seconds) (\<lambda>q. Inr (0 \<le> q))]
       ''execution record has an invalid elapsed time'') (\<lambda>_.
     rbind (execution_events_of document) (\<lambda>_.
     rbind (sub document ''status'') (\<lambda>status.
     rbind (sub document ''snapshots'') (\<lambda>receipts.
     rbind (require (has_keys status [''reference'', ''command'']) ''execution record does not contain both recorder statuses'') (\<lambda>_.
     rbind (require (has_keys receipts [''reference'', ''command'']) ''execution record does not contain both snapshot receipts'') (\<lambda>_.
     rbind (rmap (execution_recorder sha run status receipts snapshots) [''reference'', ''command'']) (\<lambda>contexts.
     rbind (require (length (remdups contexts) = 1) ''paired kernel recorders captured different contexts'') (\<lambda>_.
     Inr (run, hd (remdups contexts), child))))))))))))))))"

subsection \<open>Floats of integers\<close>

lemma round_even_near: "of_int (round_even x) \<le> x + 1 / 2" "x - 1 / 2 \<le> of_int (round_even x)"
  unfolding round_even_def Let_def by (auto simp: algebra_simps) linarith+

lemma round_even_of_int [simp]: "round_even (of_int i) = i"
  by (simp add: round_even_def Let_def)

lemma round_even_tie: "odd i \<Longrightarrow> round_even (of_int i + 1 / 2) = i + 1"
proof -
  have "\<lfloor>of_int i + 1 / 2 :: rat\<rfloor> = i" by linarith
  then show "odd i \<Longrightarrow> ?thesis" by (simp add: round_even_def Let_def)
qed

lemma rounds_to_large:
  fixes n :: nat
  assumes "(2 :: int) ^ 1024 \<le> round_even (of_nat n / 2 ^ e) * 2 ^ e" and e: "e = bit_length n - 53"
  shows "2 ^ 1024 - 2 ^ 970 \<le> int n"
proof (cases "e \<le> 971")
  case True
  let ?m = "round_even (of_nat n / 2 ^ e)"
  have "of_int ?m * 2 ^ e \<le> of_nat n + (2 :: rat) ^ e / 2"
    using mult_right_mono [OF round_even_near(1), of "(2 :: rat) ^ e" "of_nat n / 2 ^ e"] by (simp add: algebra_simps)
  moreover have "of_int (2 ^ 1024) \<le> (of_int (?m * 2 ^ e) :: rat)" using assms(1) by (simp only: of_int_le_iff)
  ultimately have "(2 :: rat) ^ 1024 \<le> of_nat n + 2 ^ e / 2" by simp
  moreover have "(2 :: rat) ^ e \<le> 2 ^ 971" using True by (rule power_increasing) simp
  ultimately have "of_int (2 ^ 1024 - 2 ^ 970) \<le> (of_int (int n) :: rat)" by simp
  then show ?thesis by (simp only: of_int_le_iff)
next
  case False
  then have b: "1025 \<le> bit_length n" "0 < n" using e bit_length.simps [of 0] by (cases "n = 0"; simp)+
  have "(2 :: nat) ^ 1024 \<le> 2 ^ (bit_length n - 1)" using b(1) by (intro power_increasing) simp_all
  also have "\<dots> \<le> n" using bit_length_bounds [OF b(2)] by simp
  finally have "int (2 ^ 1024) \<le> int n" by (simp only: of_nat_le_iff)
  then show ?thesis by simp
qed

lemma large_rounds_up:
  fixes n :: nat
  assumes "2 ^ 1024 - 2 ^ 970 \<le> int n" and e: "e = bit_length n - 53"
  shows "(2 :: int) ^ 1024 \<le> round_even (of_nat n / 2 ^ e) * 2 ^ e"
proof -
  have "0 < n" using assms(1) by (cases n) simp_all
  note b = bit_length_bounds [OF this]
  have "int (2 ^ 1023) \<le> int n" using assms(1) by simp
  also have "\<dots> < int (2 ^ bit_length n)" using b by (simp only: of_nat_less_iff)
  finally have "1023 < bit_length n" by (simp only: of_nat_less_iff) (rule power_less_imp_less_exp [of 2], simp_all)
  then consider "bit_length n = 1024" | k where "bit_length n = 1025 + k" using le_Suc_ex [of 1025 "bit_length n"] by fastforce
  then show ?thesis
  proof cases
    case 1
    have "(of_int (2 ^ 1024 - 2 ^ 970) :: rat) \<le> of_int (int n)" using assms(1) by (simp only: of_int_le_iff)
    then have "of_int (2 ^ 53 - 1) + 1 / 2 \<le> (of_nat n / 2 ^ 971 :: rat)" by simp
    from round_even_mono [OF this] have "2 ^ 53 - 1 + 1 \<le> round_even (of_nat n / 2 ^ 971)" by (subst (asm) round_even_tie) simp_all
    from mult_right_mono [OF this, of "2 ^ 971"] show ?thesis using 1 e by simp
  next
    case (2 k)
    have "(of_nat (2 ^ (1024 + k)) :: rat) \<le> of_nat n" using b 2 by (simp only: of_nat_le_iff) simp
    then have "of_int (2 ^ 52) \<le> (of_nat n / 2 ^ (972 + k) :: rat)" by (simp add: power_add field_simps)
    from round_even_mono [OF this] have "2 ^ 52 \<le> round_even (of_nat n / 2 ^ (972 + k))" by (simp only: round_even_of_int)
    from mult_right_mono [OF this, of "2 ^ (972 + k)"] have "(2 :: int) ^ 52 * 2 ^ (972 + k) \<le> round_even (of_nat n / 2 ^ e) * 2 ^ e"
      using 2 e by simp
    moreover have "(2 :: int) ^ 1024 \<le> 2 ^ 52 * 2 ^ (972 + k)" unfolding power_add [symmetric] by (rule power_increasing) simp_all
    ultimately show ?thesis by (rule order_trans [rotated])
  qed
qed

text \<open>The integers that \<^verbatim>\<open>float\<close> refuses, exactly.\<close>

lemma float_overflow: "float_of_int i = Inl OverflowError \<longleftrightarrow> 2 ^ 1024 - 2 ^ 970 \<le> \<bar>i\<bar>"
proof -
  let ?e = "bit_length (nat \<bar>i\<bar>) - 53"
  have "float_of_int i = Inl OverflowError \<longleftrightarrow> 2 ^ 1024 \<le> round_even (of_nat (nat \<bar>i\<bar>) / 2 ^ ?e) * 2 ^ ?e"
    unfolding float_of_int_def Let_def by simp
  also have "\<dots> \<longleftrightarrow> 2 ^ 1024 - 2 ^ 970 \<le> int (nat \<bar>i\<bar>)"
    using rounds_to_large [OF _ refl] large_rounds_up [OF _ refl] by blast
  finally show ?thesis by simp
qed

lemma float_of_int_exact:
  assumes "\<bar>i\<bar> < 2 ^ 53" shows "float_of_int i = Inr (of_int i)"
proof -
  define n where "n = nat \<bar>i\<bar>"
  have n: "int n = \<bar>i\<bar>" "n < 2 ^ 53" using assms by (simp_all add: n_def nat_less_iff)
  have "bit_length n - 53 = 0"
  proof (cases "n = 0")
    case False
    then have "(2 :: nat) ^ (bit_length n - 1) < 2 ^ 53" using bit_length_bounds [of n] n(2) by simp
    then have "bit_length n - 1 < 53" by (rule power_less_imp_less_exp [rotated]) simp
    then show ?thesis by simp
  qed (simp add: bit_length.simps [of 0])
  moreover have "sgn i * int n = i" unfolding n(1) by (simp add: mult.commute abs_mult_sgn)
  moreover have "int n < 2 ^ 1024" using n assms by simp
  ultimately show ?thesis using round_even_of_int [of "int n"] by (simp add: float_of_int_def Let_def n_def [symmetric])
qed

lemma float_of_int_raises: "float_of_int i = Inl e \<Longrightarrow> e = OverflowError"
  by (auto simp: float_of_int_def Let_def split: if_splits)

lemma has_keys_sub: "has_keys v ks \<Longrightarrow> k \<in> set ks \<Longrightarrow> \<exists>x. sub v k = Inr x"
  by (cases v) (auto simp: has_keys_def sub_def dest: keys_are_dget)

lemma require_and_simps [simp]: "require_and [] m = Inr ()"
  "require_and (x # xs) m = rbind x (\<lambda>b. if b then require_and xs m else Inl (Reject m))"
  by (cases x; simp add: require_and_def)+

subsection \<open>Names, rows and events\<close>

lemma rec_name_eq [simp]: "rec_name r = rec_name q \<longleftrightarrow> r = q"
  by (cases r; cases q) (simp_all add: rec_name_def)

lemma dget_named: "dget (map (\<lambda>(r, x). (rec_name r, f x)) d) (rec_name q) = map_option f (dget d q)"
  by (induction d) auto

lemma keys_named:
  assumes "dom (dget d) = {Reference, Command}"
  shows "keys_are (map (\<lambda>(r, x). (rec_name r, f x)) d) [''reference'', ''command'']"
proof -
  have "set (map fst (map (\<lambda>(r, x). (rec_name r, f x)) d)) = rec_name ` fst ` set d" by force
  also have "fst ` set d = {Reference, Command}" using assms by (simp add: dom_map_of_conv_image_fst)
  finally show ?thesis by (simp add: keys_are_def rec_name_def)
qed

lemma status_token_nonneg: "status_token x = Inr v \<Longrightarrow> 0 \<le> v"
  by (auto simp: status_token_def decimal_token_Inr split: sum.splits)

lemma parse_status_row:
  assumes "parse_status r text = Inr s"
  shows "map fst s = STATUS_FIELDS r \<and> list_all (\<lambda>v. 0 \<le> v) (map snd s)"
proof -
  obtain vs where vs: "length (py_split text) = length (STATUS_FIELDS r) + 2" "rmap status_token (drop 2 (py_split text)) = Inr vs"
    and s: "s = zip (STATUS_FIELDS r) vs" using assms by (auto simp: parse_status_def Let_def res_simps)
  have "list_all2 (\<lambda>x v. status_token x = Inr v) (drop 2 (py_split text)) vs" using vs(2) by (simp add: rmap_Inr_list_all2)
  then have "list_all (\<lambda>v. 0 \<le> v) vs"
    by (auto simp: list_all2_conv_all_nth list_all_length dest: status_token_nonneg)
  moreover have "length vs = length (STATUS_FIELDS r)" using vs rmap_Inr_length by fastforce
  ultimately show ?thesis using s by simp
qed

lemma status_row:
  assumes "given_status W r s"
  shows "has_keys (status_json s) (STATUS_KEYS (rec_name r))" and "0 \<le> status_fld s k"
    and "k \<in> set (STATUS_FIELDS r) \<Longrightarrow> sub (status_json s) k = Inr (JInt (status_fld s k))"
proof -
  from assms have row: "map fst s = STATUS_FIELDS r" "list_all (\<lambda>v. 0 \<le> v) (map snd s)"
    using parse_status_row by (auto simp: given_status_def)
  have "map fst (map (\<lambda>(k, v). (k, JInt v)) s) = STATUS_FIELDS r" using row(1) by (simp add: comp_def case_prod_beta)
  then show "has_keys (status_json s) (STATUS_KEYS (rec_name r))"
    by (cases r) (auto simp: has_keys_def status_json_def keys_are_def STATUS_FIELDS_def STATUS_KEYS_def rec_name_def)
  show "0 \<le> status_fld s k" using row(2) by (auto simp: status_fld_def list_all_iff dest!: map_of_SomeD split: option.splits)
  assume "k \<in> set (STATUS_FIELDS r)"
  then obtain v where "dget s k = Some v" using row(1) by (metis list.set_map map_of_eq_None_iff not_None_eq)
  moreover have "dget (map (\<lambda>(k, v). (k, JInt v)) s) k = map_option JInt (dget s k)" by (induction s) auto
  ultimately show "sub (status_json s) k = Inr (JInt (status_fld s k))" by (simp add: status_json_def sub_def status_fld_def)
qed

lemma dict_get_sub: "sub v k = Inr x \<Longrightarrow> dict_get v k = Inr x"
  by (auto simp: sub_Inr dict_get_Inr jv_def)

lemma execution_status_accepts:
  assumes "given_status W r s" and "check_state s run True True = Inr ()"
    and "r = Reference \<Longrightarrow> status_fld s ''count'' \<le> status_fld s ''attempted''"
  shows "execution_status run (rec_name r) (status_json s) = Inr (status_fld s ''context'') \<and> 0 < status_fld s ''context''"
proof -
  have c: "status_fld s ''run'' = run" "status_fld s ''context'' \<noteq> 0" "status_fld s ''phase'' = 4" "status_fld s ''errors'' = 0"
    "status_fld s ''pictures'' = 300" "status_fld s ''completions'' = 300" "status_fld s ''opens'' = 0"
    using assms(2) by (simp_all add: check_state_def res_simps)
  have pos: "0 < status_fld s ''context''" using c(2) status_row(2) [OF assms(1), of "''context''"] by simp
  have at: "sub (status_json s) k = Inr (JInt (status_fld s k))" "dict_get (status_json s) k = Inr (JInt (status_fld s k))"
    if "k \<in> set (STATUS_FIELDS r)" for k
    using status_row(3) [OF assms(1) that] dict_get_sub by simp_all
  have "status_numbers run (status_json s) = Inr ()"
    using c pos at by (cases r) (simp_all add: status_numbers_def eq_sub_def eq_subs_def number_at_def py_number_def STATUS_FIELDS_def)
  moreover have "status_counts (status_json s) = Inr ()" if "r = Reference"
    using that assms(3) at status_row(2) [OF assms(1), of "''count''"]
    by (simp add: status_counts_def int_at_def number_at_def py_number_def STATUS_FIELDS_def)
  ultimately show ?thesis using status_row(1) [OF assms(1)] pos at
    by (cases r) (simp_all add: execution_status_def STATUS_FIELDS_def rec_name_def)
qed

lemma execution_events_accepts:
  assumes "sorted (map ev_seconds es)" and "list_all (\<lambda>e. previous \<le> ev_seconds e) es"
  shows "execution_events previous (map event_json es) = Inr (map (\<lambda>e. (JStr (ev_stage e), name_json (ev_recorder e))) es)"
  using assms
proof (induction es arbitrary: previous)
  case (Cons e es)
  have "execution_event previous (event_json e) = Inr (ev_seconds e, JStr (ev_stage e), name_json (ev_recorder e))"
    using Cons.prems by (auto simp: execution_event_def event_json_def has_keys_def keys_are_def sub_def is_number_def py_number_def py_float_def)
  moreover have "list_all (\<lambda>x. ev_seconds e \<le> ev_seconds x) es" using Cons.prems(1) by (auto simp: list_all_iff)
  ultimately show ?case using Cons by simp
qed simp

lemma success_events: "map (\<lambda>(s, r). (JStr s, name_json r)) (success_stages [Reference, Command]) = SUCCESS_EVENTS"
  by (simp add: success_stages_def arm_stages_def SUCCESS_EVENTS_def name_json_def rec_name_def)

text \<open>The two members of the record that have a row for each recorder.\<close>

definition named_json :: "(recorder, 'v) dict \<Rightarrow> ('v \<Rightarrow> json) \<Rightarrow> json" where
  "named_json d f = JObj (map (\<lambda>(r, x). (rec_name r, f x)) d)"

lemma named_sub: "dget d r = Some x \<Longrightarrow> sub (named_json d f) (rec_name r) = Inr (f x)"
  by (simp add: named_json_def sub_def dget_named)

lemma execution_recorder_accepts:
  assumes "dget status r = Some s" "execution_status run (rec_name r) (status_json s) = Inr ctx"
    and "dget receipts r = Some (length raw, sha raw)" "dget snapshots (rec_name r) = Some raw"
  shows "execution_recorder sha run (named_json status status_json) (named_json receipts receipt_json) snapshots (rec_name r) = Inr ctx"
proof -
  have "has_keys (receipt_json (length raw, sha raw)) [''bytes'', ''sha256'']" by (auto simp: has_keys_def receipt_json_def keys_are_def)
  then show ?thesis using assms named_sub [OF assms(1), of status_json] named_sub [OF assms(3), of receipt_json]
    by (simp add: execution_recorder_def dsub_def eq_sub_def) (simp add: receipt_json_def sub_def)
qed

subsection \<open>Acceptance\<close>

text \<open>What the check asks of a state of the supervisor.\<close>

lemma execution_record_accepts:
  assumes "1 \<le> ar_run a" "ar_run a < 2 ^ 64" "ar_enabled a" "sp_pid st = Some pid" "1 \<le> pid" "pid < 2 ^ 31" "sp_exit st = Some 0"
    and "sp_reaped st" "sp_released st" "sp_errors st = []" "0 \<le> sp_elapsed st"
    and events: "execution_events (- 1) (map event_json (sp_events st)) = Inr SUCCESS_EVENTS" "length (sp_events st) = length SUCCESS_EVENTS"
    and keys: "dom (dget (sp_status st)) = {Reference, Command}" "dom (dget (sp_snapshots st)) = {Reference, Command}"
    and rec: "\<And>r. execution_recorder sha (ar_run a) (named_json (sp_status st) status_json)
      (named_json (sp_snapshots st) receipt_json) snapshots (rec_name r) = Inr ctx"
  shows "execution_record sha (execution_json a st) snapshots = Inr (ar_run a, ctx, int pid)"
proof -
  let ?d = "execution_json a st"
  have d: "is_obj ?d" "has_keys ?d EXECUTION_KEYS"
    by (simp_all add: execution_json_def has_keys_def keys_are_def EXECUTION_KEYS_def)
  have f: "sub ?d ''schema'' = Inr (JStr ''hevc-avd-command-capture.execution/1'')" "sub ?d ''run'' = Inr (JInt (ar_run a))"
      "sub ?d ''child_pid'' = Inr (JInt (int pid))" "sub ?d ''enabled'' = Inr (JBool True)" "sub ?d ''child_exit'' = Inr (JInt 0)"
      "sub ?d ''child_reaped'' = Inr (JBool True)" "sub ?d ''child_released'' = Inr (JBool True)" "sub ?d ''errors'' = Inr (JList [])"
      "sub ?d ''elapsed_seconds'' = Inr (JFloat (sp_elapsed st))" "sub ?d ''events'' = Inr (JList (map event_json (sp_events st)))"
      "sub ?d ''status'' = Inr (named_json (sp_status st) status_json)"
      "sub ?d ''snapshots'' = Inr (named_json (sp_snapshots st) receipt_json)"
    using assms by (simp_all add: execution_json_def sub_def named_json_def)
  have run: "join_uint 64 True (JInt (ar_run a)) = Inr (ar_run a)" "join_uint 31 True (JInt (int pid)) = Inr (int pid)"
    using assms(1,2,5,6) by (simp_all add: join_uint_def int_in_def)
  have both: "has_keys (named_json (sp_status st) status_json) [''reference'', ''command'']"
    "has_keys (named_json (sp_snapshots st) receipt_json) [''reference'', ''command'']"
    using keys_named [OF keys(1)] keys_named [OF keys(2)] by (simp_all add: has_keys_def named_json_def)
  have "list_all2 (\<lambda>(s, r) (s', r'). py_eq s s' \<and> py_eq r r') SUCCESS_EVENTS SUCCESS_EVENTS"
    by (rule list.rel_refl) auto
  then have ev: "execution_events_of ?d = Inr ()"
    using f(10) events by (simp add: execution_events_of_def py_len_def py_iter_def)
  have names: "[''reference'', ''command''] = map rec_name [Reference, Command]" by (simp add: rec_name_def)
  have rows: "rmap (execution_recorder sha (ar_run a) (named_json (sp_status st) status_json)
      (named_json (sp_snapshots st) receipt_json) snapshots) [''reference'', ''command''] = Inr [ctx, ctx]"
    unfolding names using rec by simp
  show ?thesis unfolding execution_record_def
    by (simp add: d f run both ev rows assms(11) eq_sub_def true_at_def is_number_def py_number_def del: rmap.simps)
qed

lemma untraced_record_refused: "\<not> ar_enabled a \<Longrightarrow> execution_record sha (execution_json a st) snapshots \<noteq> Inr x"
  by (auto simp: execution_record_def execution_json_def true_at_def sub_def rbind_Inr require_and_Inr simp del: require_and_simps)

text \<open>A time that no float can hold is not refused: its conversion raises.\<close>

definition huge_record :: "int \<Rightarrow> json" where
  "huge_record i = JObj [(''schema'', JStr ''hevc-avd-command-capture.execution/1''), (''run'', JInt 7), (''enabled'', JBool True),
     (''child_pid'', JInt 42), (''child_exit'', JInt 0), (''child_reaped'', JBool True), (''child_released'', JBool True),
     (''errors'', JList []), (''status'', JObj []), (''snapshots'', JObj []),
     (''events'', JList (replicate 15 (JObj [(''stage'', JStr ''preflight''), (''recorder'', JNull), (''seconds'', JInt i)]))),
     (''elapsed_seconds'', JInt 1)]"

lemma huge_record_raises:
  assumes "2 ^ 1024 - 2 ^ 970 \<le> i" shows "execution_record sha (huge_record i) snapshots = Inl OverflowError"
proof -
  let ?e = "JObj [(''stage'', JStr ''preflight''), (''recorder'', JNull), (''seconds'', JInt i)]"
  have "float_of_int i = Inl OverflowError" unfolding float_overflow using assms abs_ge_self by (rule order_trans)
  moreover have "0 \<le> i" using assms by (rule order_trans [rotated]) simp
  then have "- 1 \<le> (of_int i :: rat)" by (rule order_trans [rotated, OF of_int_nonneg]) simp
  ultimately have "execution_event (- 1) ?e = Inl OverflowError"
    by (simp add: execution_event_def has_keys_def keys_are_def sub_def is_number_def py_number_def py_float_def)
  then have ev: "execution_events_of (huge_record i) = Inl OverflowError"
    by (simp add: huge_record_def execution_events_of_def sub_def py_len_def py_iter_def SUCCESS_EVENTS_def numeral_eq_Suc)
  show ?thesis unfolding execution_record_def ev
    by (simp add: huge_record_def has_keys_def keys_are_def EXECUTION_KEYS_def eq_sub_def true_at_def
        sub_def join_uint_def int_in_def is_number_def py_number_def)
qed

lemma remdups_one: assumes "length (remdups xs) = 1" "x \<in> set xs" "y \<in> set xs" shows "x = y"
proof -
  obtain z where "remdups xs = [z]" using assms(1) by (auto simp: length_Suc_conv)
  then have "set xs = {z}" by (metis list.set(1) list.simps(15) set_remdups)
  then show ?thesis using assms(2,3) by simp
qed

lemma success_transcript:
  assumes "transcript st = success_stages [Reference, Command]" and "timed W st"
  shows "execution_events (- 1) (map event_json (sp_events st)) = Inr SUCCESS_EVENTS" and "length (sp_events st) = length SUCCESS_EVENTS"
proof -
  have "map (\<lambda>e. (JStr (ev_stage e), name_json (ev_recorder e))) (sp_events st) = map (\<lambda>(s, r). (JStr s, name_json r)) (transcript st)"
    by (simp add: transcript_def)
  also have "\<dots> = SUCCESS_EVENTS" unfolding assms(1) by (rule success_events)
  finally have e: "map (\<lambda>e. (JStr (ev_stage e), name_json (ev_recorder e))) (sp_events st) = SUCCESS_EVENTS" .
  have "list_all (\<lambda>e. - 1 \<le> ev_seconds e) (sp_events st)" "sorted (map ev_seconds (sp_events st))"
    using assms(2) by (force simp: timed_def list_all_iff)+
  then show "execution_events (- 1) (map event_json (sp_events st)) = Inr SUCCESS_EVENTS"
    unfolding e [symmetric] by (intro execution_events_accepts)
  show "length (sp_events st) = length SUCCESS_EVENTS" using e by (metis length_map)
qed

lemma saved_recorder:
  assumes "saved W a st" and "ar_backends a = [Reference, Command]"
  shows "\<exists>raw. SaveSnapshot r raw \<in> set (sp_log st) \<and> dget (sp_snapshots st) r = Some (length raw, w_sha W raw)"
    and "\<exists>x. dget (sp_status st) r = Some x \<and> given_status W r x \<and> check_state x (ar_run a) True True = Inr ()"
proof -
  have "r \<in> set (ar_backends a)" using assms(2) by (cases r) simp_all
  moreover have "\<forall>r \<in> set (ar_backends a).
      (\<exists>raw l. SaveSnapshot r raw \<in> set (sp_log st) \<and> w_save W l r raw = Inr () \<and> dget (sp_snapshots st) r = Some (length raw, w_sha W raw)) \<and>
      (\<exists>s. dget (sp_status st) r = Some s \<and> given_status W r s \<and> check_state s (ar_run a) True True = Inr () \<and> status_fld s ''opens'' = 0)"
    using assms(1) unfolding saved_def by (elim conjE) (intro ballI, drule bspec, assumption, elim conjE, intro conjI)
  ultimately show "\<exists>raw. SaveSnapshot r raw \<in> set (sp_log st) \<and> dget (sp_snapshots st) r = Some (length raw, w_sha W raw)"
    and "\<exists>x. dget (sp_status st) r = Some x \<and> given_status W r x \<and> check_state x (ar_run a) True True = Inr ()" by blast+
qed

lemma saved_paired: "saved W a st \<Longrightarrow> length (remdups (map (\<lambda>(_, s). status_fld s ''context'') (sp_status st))) = 1"
  unfolding saved_def by (elim conjE)

lemma saved_child: "saved W a st \<Longrightarrow> \<exists>pid l. w_fork W l = Inr pid \<and> sp_pid st = Some pid"
  unfolding saved_def by (elim conjE)

lemma success_parts:
  assumes "supervise W a = Some (Returned st)" and "tool_exit st = 0" and "ar_enabled a"
  obtains s where "saved W a s" "sup_contract a = Inr ()" "sp_errors st = []" "sp_exit st = Some 0" "sp_released st" "sp_reaped st"
    "sp_pid st = sp_pid s" "sp_status st = sp_status s" "sp_snapshots st = sp_snapshots s" "transcript st = success_stages (ar_backends a)"
    "set (sp_log s) \<subseteq> set (sp_log st)" "steady W \<longrightarrow> timed W st \<and> 0 \<le> sp_elapsed st"
  by (rule success_state [OF assms], rule that, assumption+, rule impI)

text \<open>
  C39. A successful traced run leaves a record that the validator accepts. If the supervisor runs with
  tracing enabled and with the recorders \<^verbatim>\<open>reference\<close> and \<^verbatim>\<open>command\<close> in this order, and ends with exit status 0,
  then \<^verbatim>\<open>_execution\<close> accepts the record it returns together with the very snapshots it saved, and reads from it
  the run, one nonzero context and the process that was released. The world is assumed to have a clock that
  does not run backwards, process numbers between 1 and \<^verbatim>\<open>2**31 - 1\<close>, and a reference recorder that never
  counts more than it attempted. A run with \<^verbatim>\<open>--trace off\<close> is outside the property: it may end with status 0
  too, and its record is refused (\<open>untraced_record_refused\<close>).
\<close>
theorem supervised_record_accepted:
  assumes "supervise W a = Some (Returned st)" and "tool_exit st = 0" and "ar_enabled a" and "ar_backends a = [Reference, Command]"
    and "steady W" and fork: "\<forall>l pid. w_fork W l = Inr pid \<longrightarrow> 1 \<le> pid \<and> pid < 2 ^ 31"
    and counts: "\<forall>s. given_status W Reference s \<longrightarrow> status_fld s ''count'' \<le> status_fld s ''attempted''"
  shows "\<exists>raw raw' ctx pid. SaveSnapshot Reference raw \<in> set (sp_log st) \<and> SaveSnapshot Command raw' \<in> set (sp_log st) \<and>
    sp_pid st = Some pid \<and> 0 < ctx \<and>
    execution_record (w_sha W) (execution_json a st) [(''reference'', raw), (''command'', raw')] = Inr (ar_run a, ctx, int pid)"
proof -
  from assms(1-3) obtain s where s: "saved W a s" "sup_contract a = Inr ()" and ok: "sp_errors st = []" "sp_exit st = Some 0" "sp_released st" "sp_reaped st"
    and same: "sp_pid st = sp_pid s" "sp_status st = sp_status s" "sp_snapshots st = sp_snapshots s"
    and tr: "transcript st = success_stages (ar_backends a)" and log: "set (sp_log s) \<subseteq> set (sp_log st)"
    and clock: "steady W \<longrightarrow> timed W st \<and> 0 \<le> sp_elapsed st" by (rule success_parts)
  from clock assms(5) have time: "timed W st" "0 \<le> sp_elapsed st" by simp_all
  have run: "1 \<le> ar_run a" "ar_run a < 2 ^ 64" using s(2) by (simp_all add: sup_contract_def res_simps)
  obtain pid l where pid: "sp_pid st = Some pid" "w_fork W l = Inr pid" using saved_child [OF s(1)] same(1) by auto
  have pid_range: "1 \<le> pid" "pid < 2 ^ 31" using fork pid(2) by blast+
  have dom: "dom (dget (sp_status st)) = {Reference, Command}" "dom (dget (sp_snapshots st)) = {Reference, Command}"
    using s(1) same assms(4) by (simp_all add: saved_def recorded_def)
  have "\<exists>raw. SaveSnapshot r raw \<in> set (sp_log st) \<and> dget (sp_snapshots st) r = Some (length raw, w_sha W raw)" for r
    using saved_recorder(1) [OF s(1) assms(4), of r] same(3) log by auto
  then obtain raw where raw: "\<And>r. SaveSnapshot r (raw r) \<in> set (sp_log st)"
    "\<And>r. dget (sp_snapshots st) r = Some (length (raw r), w_sha W (raw r))" by metis
  have "\<exists>x. dget (sp_status st) r = Some x \<and> given_status W r x \<and> check_state x (ar_run a) True True = Inr ()" for r
    using saved_recorder(2) [OF s(1) assms(4), of r] same(2) by simp
  then obtain row where row: "\<And>r. dget (sp_status st) r = Some (row r)" "\<And>r. given_status W r (row r)"
    "\<And>r. check_state (row r) (ar_run a) True True = Inr ()" by metis
  define ctx where "ctx = status_fld (row Reference) ''context''"
  have one: "status_fld (row r) ''context'' = ctx" for r
  proof -
    have "status_fld (row q) ''context'' \<in> set (map (\<lambda>(_, s). status_fld s ''context'') (sp_status st))" for q
      using map_of_SomeD [OF row(1) [of q]] by force
    from remdups_one [OF saved_paired [OF s(1), folded same(2)] this this] show ?thesis unfolding ctx_def .
  qed
  let ?snapshots = "[(''reference'', raw Reference), (''command'', raw Command)]"
  have st: "execution_status (ar_run a) (rec_name r) (status_json (row r)) = Inr ctx" "0 < ctx" for r
    using execution_status_accepts [OF row(2,3) [of r]] counts row(2) [of r] one [of r] by auto
  have "dget ?snapshots (rec_name r) = Some (raw r)" for r by (cases r) (simp_all add: rec_name_def)
  then have recs: "execution_recorder (w_sha W) (ar_run a) (named_json (sp_status st) status_json)
      (named_json (sp_snapshots st) receipt_json) ?snapshots (rec_name r) = Inr ctx" for r
    by (rule execution_recorder_accepts [where sha = "w_sha W", OF row(1) st(1) raw(2)])
  note events = success_transcript [OF tr [unfolded assms(4)] time(1)]
  have "execution_record (w_sha W) (execution_json a st) ?snapshots = Inr (ar_run a, ctx, int pid)"
    by (rule execution_record_accepts [OF run assms(3) pid(1) pid_range ok(2) ok(4) ok(3) ok(1) time(2) events dom recs])
  then show ?thesis using raw(1) pid(1) st(2) by blast
qed

lemma demo_counts: "given_status demo_world Reference s \<Longrightarrow> status_fld s ''count'' \<le> status_fld s ''attempted''"
proof -
  assume "given_status demo_world Reference s"
  then obtain c where c: "parse_status Reference (demo_reply Reference c) = Inr s" by (auto simp: given_status_def demo_world_def)
  have p: "parse_status Reference ''S 1 0 0 0 0 0 0 0 0 0'' = Inr (zip (STATUS_FIELDS Reference) [0, 0, 0, 0, 0, 0, 0, 0, 0])"
    "parse_status Reference ''S 1 7 5 4 0 10 12 300 300 0'' = Inr (zip (STATUS_FIELDS Reference) [7, 5, 4, 0, 10, 12, 300, 300, 0])"
    "parse_status Reference ''S 1 7 5 1 0 0 0 0 0 0'' = Inr (zip (STATUS_FIELDS Reference) [7, 5, 1, 0, 0, 0, 0, 0, 0])" by code_simp+
  show ?thesis using c p by (auto simp: demo_reply_def STATUS_FIELDS_def status_fld_def split: if_splits)
qed

theorem supervised_record_accepted_witness:
  "\<exists>st raw raw' ctx. supervise demo_world demo_args = Some (Returned st) \<and>
    execution_record (w_sha demo_world) (execution_json demo_args st) [(''reference'', raw), (''command'', raw')] = Inr (7, ctx, 42)"
proof -
  obtain st where st: "supervise demo_world demo_args = Some (Returned st)" "tool_exit st = 0" by (rule demo_run_state)
  have a: "ar_enabled demo_args" "ar_backends demo_args = [Reference, Command]" "steady demo_world"
    by (simp_all add: demo_args_def demo_world_def steady_def)
  have f: "\<forall>l pid. w_fork demo_world l = Inr pid \<longrightarrow> 1 \<le> pid \<and> pid < 2 ^ 31" by (simp add: demo_world_def)
  have "sp_pid st = Some 42" using demo_supervised st(1) by (simp add: demo_good_def)
  then show ?thesis using supervised_record_accepted [OF st a f] demo_counts st(1) by (auto simp: demo_args_def)
qed

end
