(* ===== verification/Full_Controls.thy ===== *)
theory Full_Controls
  imports Hevc_Controls
begin

text \<open>
  The complete control payloads: \<open>full_payload\<close> of \<open>src/experiments/hevc-full-controls/normalize.py\<close>, which
  checks a control against the schema in \<open>payload-schema.json\<close>, and \<open>validate_controls\<close> of
  \<open>report.py\<close>, which checks a file of control sets against the reference records of the same run.

  Control sets and records are JSON values, because \<open>report.py\<close> reads them from files. The schema
  nests structures two deep, which is the depth that \<open>full_payload\<close> uses.
\<close>

subsection \<open>The payload schema\<close>

datatype pay_type = PayInt bool nat | PayStruct string

datatype pay_field = PayFlags "string list" | PayOne pay_type | PayArray nat pay_type

abbreviation pay_u8 :: pay_field where "pay_u8 \<equiv> PayOne (PayInt False 8)"
abbreviation pay_s8 :: pay_field where "pay_s8 \<equiv> PayOne (PayInt True 8)"
abbreviation pay_u16 :: pay_field where "pay_u16 \<equiv> PayOne (PayInt False 16)"
abbreviation pay_u32 :: pay_field where "pay_u32 \<equiv> PayOne (PayInt False 32)"
abbreviation pay_s32 :: pay_field where "pay_s32 \<equiv> PayOne (PayInt True 32)"
abbreviation pay_u64 :: pay_field where "pay_u64 \<equiv> PayOne (PayInt False 64)"

definition PAY_SPS :: "(string, pay_field) dict" where
  "PAY_SPS =
    [(''video_parameter_set_id'', pay_u8), (''seq_parameter_set_id'', pay_u8),
     (''pic_width_in_luma_samples'', pay_u16), (''pic_height_in_luma_samples'', pay_u16),
     (''bit_depth_luma_minus8'', pay_u8), (''bit_depth_chroma_minus8'', pay_u8),
     (''log2_max_pic_order_cnt_lsb_minus4'', pay_u8), (''sps_max_dec_pic_buffering_minus1'', pay_u8),
     (''sps_max_num_reorder_pics'', pay_u8), (''sps_max_latency_increase_plus1'', pay_u8),
     (''log2_min_luma_coding_block_size_minus3'', pay_u8), (''log2_diff_max_min_luma_coding_block_size'', pay_u8),
     (''log2_min_luma_transform_block_size_minus2'', pay_u8),
     (''log2_diff_max_min_luma_transform_block_size'', pay_u8), (''max_transform_hierarchy_depth_inter'', pay_u8),
     (''max_transform_hierarchy_depth_intra'', pay_u8), (''pcm_sample_bit_depth_luma_minus1'', pay_u8),
     (''pcm_sample_bit_depth_chroma_minus1'', pay_u8), (''log2_min_pcm_luma_coding_block_size_minus3'', pay_u8),
     (''log2_diff_max_min_pcm_luma_coding_block_size'', pay_u8), (''num_short_term_ref_pic_sets'', pay_u8),
     (''num_long_term_ref_pics_sps'', pay_u8), (''chroma_format_idc'', pay_u8),
     (''sps_max_sub_layers_minus1'', pay_u8), (''flags'', PayFlags [''V4L2_HEVC_SPS_FLAG_SEPARATE_COLOUR_PLANE'',
     ''V4L2_HEVC_SPS_FLAG_SCALING_LIST_ENABLED'', ''V4L2_HEVC_SPS_FLAG_AMP_ENABLED'',
     ''V4L2_HEVC_SPS_FLAG_SAMPLE_ADAPTIVE_OFFSET'', ''V4L2_HEVC_SPS_FLAG_PCM_ENABLED'',
     ''V4L2_HEVC_SPS_FLAG_PCM_LOOP_FILTER_DISABLED'', ''V4L2_HEVC_SPS_FLAG_LONG_TERM_REF_PICS_PRESENT'',
     ''V4L2_HEVC_SPS_FLAG_SPS_TEMPORAL_MVP_ENABLED'', ''V4L2_HEVC_SPS_FLAG_STRONG_INTRA_SMOOTHING_ENABLED''])]"

definition PAY_PPS :: "(string, pay_field) dict" where
  "PAY_PPS =
    [(''pic_parameter_set_id'', pay_u8), (''num_extra_slice_header_bits'', pay_u8),
     (''num_ref_idx_l0_default_active_minus1'', pay_u8), (''num_ref_idx_l1_default_active_minus1'', pay_u8),
     (''init_qp_minus26'', pay_s8), (''diff_cu_qp_delta_depth'', pay_u8), (''pps_cb_qp_offset'', pay_s8),
     (''pps_cr_qp_offset'', pay_s8), (''num_tile_columns_minus1'', pay_u8), (''num_tile_rows_minus1'', pay_u8),
     (''column_width_minus1'', PayArray 20 (PayInt False 8)),
     (''row_height_minus1'', PayArray 22 (PayInt False 8)), (''pps_beta_offset_div2'', pay_s8),
     (''pps_tc_offset_div2'', pay_s8), (''log2_parallel_merge_level_minus2'', pay_u8),
     (''flags'', PayFlags [''V4L2_HEVC_PPS_FLAG_DEPENDENT_SLICE_SEGMENT_ENABLED'',
     ''V4L2_HEVC_PPS_FLAG_OUTPUT_FLAG_PRESENT'', ''V4L2_HEVC_PPS_FLAG_SIGN_DATA_HIDING_ENABLED'',
     ''V4L2_HEVC_PPS_FLAG_CABAC_INIT_PRESENT'', ''V4L2_HEVC_PPS_FLAG_CONSTRAINED_INTRA_PRED'',
     ''V4L2_HEVC_PPS_FLAG_TRANSFORM_SKIP_ENABLED'', ''V4L2_HEVC_PPS_FLAG_CU_QP_DELTA_ENABLED'',
     ''V4L2_HEVC_PPS_FLAG_PPS_SLICE_CHROMA_QP_OFFSETS_PRESENT'', ''V4L2_HEVC_PPS_FLAG_WEIGHTED_PRED'',
     ''V4L2_HEVC_PPS_FLAG_WEIGHTED_BIPRED'', ''V4L2_HEVC_PPS_FLAG_TRANSQUANT_BYPASS_ENABLED'',
     ''V4L2_HEVC_PPS_FLAG_TILES_ENABLED'', ''V4L2_HEVC_PPS_FLAG_ENTROPY_CODING_SYNC_ENABLED'',
     ''V4L2_HEVC_PPS_FLAG_LOOP_FILTER_ACROSS_TILES_ENABLED'',
     ''V4L2_HEVC_PPS_FLAG_PPS_LOOP_FILTER_ACROSS_SLICES_ENABLED'',
     ''V4L2_HEVC_PPS_FLAG_DEBLOCKING_FILTER_OVERRIDE_ENABLED'',
     ''V4L2_HEVC_PPS_FLAG_PPS_DISABLE_DEBLOCKING_FILTER'', ''V4L2_HEVC_PPS_FLAG_LISTS_MODIFICATION_PRESENT'',
     ''V4L2_HEVC_PPS_FLAG_SLICE_SEGMENT_HEADER_EXTENSION_PRESENT'',
     ''V4L2_HEVC_PPS_FLAG_DEBLOCKING_FILTER_CONTROL_PRESENT'', ''V4L2_HEVC_PPS_FLAG_UNIFORM_SPACING''])]"

definition PAY_SLICE :: "(string, pay_field) dict" where
  "PAY_SLICE =
    [(''bit_size'', pay_u32), (''data_byte_offset'', pay_u32), (''num_entry_point_offsets'', pay_u32),
     (''nal_unit_type'', pay_u8), (''nuh_temporal_id_plus1'', pay_u8), (''slice_type'', pay_u8),
     (''colour_plane_id'', pay_u8), (''slice_pic_order_cnt'', pay_s32), (''num_ref_idx_l0_active_minus1'', pay_u8),
     (''num_ref_idx_l1_active_minus1'', pay_u8), (''collocated_ref_idx'', pay_u8),
     (''five_minus_max_num_merge_cand'', pay_u8), (''slice_qp_delta'', pay_s8), (''slice_cb_qp_offset'', pay_s8),
     (''slice_cr_qp_offset'', pay_s8), (''slice_act_y_qp_offset'', pay_s8), (''slice_act_cb_qp_offset'', pay_s8),
     (''slice_act_cr_qp_offset'', pay_s8), (''slice_beta_offset_div2'', pay_s8),
     (''slice_tc_offset_div2'', pay_s8), (''pic_struct'', pay_u8), (''slice_segment_addr'', pay_u32),
     (''ref_idx_l0'', PayArray 16 (PayInt False 8)), (''ref_idx_l1'', PayArray 16 (PayInt False 8)),
     (''short_term_ref_pic_set_size'', pay_u16), (''long_term_ref_pic_set_size'', pay_u16),
     (''flags'', PayFlags [''V4L2_HEVC_SLICE_PARAMS_FLAG_SLICE_SAO_LUMA'',
     ''V4L2_HEVC_SLICE_PARAMS_FLAG_SLICE_SAO_CHROMA'', ''V4L2_HEVC_SLICE_PARAMS_FLAG_SLICE_TEMPORAL_MVP_ENABLED'',
     ''V4L2_HEVC_SLICE_PARAMS_FLAG_MVD_L1_ZERO'', ''V4L2_HEVC_SLICE_PARAMS_FLAG_CABAC_INIT'',
     ''V4L2_HEVC_SLICE_PARAMS_FLAG_COLLOCATED_FROM_L0'', ''V4L2_HEVC_SLICE_PARAMS_FLAG_USE_INTEGER_MV'',
     ''V4L2_HEVC_SLICE_PARAMS_FLAG_SLICE_DEBLOCKING_FILTER_DISABLED'',
     ''V4L2_HEVC_SLICE_PARAMS_FLAG_SLICE_LOOP_FILTER_ACROSS_SLICES_ENABLED'',
     ''V4L2_HEVC_SLICE_PARAMS_FLAG_DEPENDENT_SLICE_SEGMENT'']),
     (''v4l2_hevc_pred_weight_table'', PayOne (PayStruct ''v4l2_hevc_pred_weight_table''))]"

definition PAY_DECODE :: "(string, pay_field) dict" where
  "PAY_DECODE =
    [(''pic_order_cnt_val'', pay_s32), (''short_term_ref_pic_set_size'', pay_u16),
     (''long_term_ref_pic_set_size'', pay_u16), (''num_active_dpb_entries'', pay_u8),
     (''num_poc_st_curr_before'', pay_u8), (''num_poc_st_curr_after'', pay_u8), (''num_poc_lt_curr'', pay_u8),
     (''poc_st_curr_before'', PayArray 16 (PayInt False 8)), (''poc_st_curr_after'', PayArray 16 (PayInt False 8)),
     (''poc_lt_curr'', PayArray 16 (PayInt False 8)), (''num_delta_pocs_of_ref_rps_idx'', pay_u8),
     (''dpb'', PayArray 16 (PayStruct ''v4l2_hevc_dpb_entry'')),
     (''flags'', PayFlags [''V4L2_HEVC_DECODE_PARAM_FLAG_IRAP_PIC'', ''V4L2_HEVC_DECODE_PARAM_FLAG_IDR_PIC'',
     ''V4L2_HEVC_DECODE_PARAM_FLAG_NO_OUTPUT_OF_PRIOR''])]"

definition PAY_SCALING :: "(string, pay_field) dict" where
  "PAY_SCALING =
    [(''scaling_list_4x4'', PayArray 96 (PayInt False 8)), (''scaling_list_8x8'', PayArray 384 (PayInt False 8)),
     (''scaling_list_16x16'', PayArray 384 (PayInt False 8)),
     (''scaling_list_32x32'', PayArray 128 (PayInt False 8)),
     (''scaling_list_dc_coef_16x16'', PayArray 6 (PayInt False 8)),
     (''scaling_list_dc_coef_32x32'', PayArray 2 (PayInt False 8))]"

definition PAY_WEIGHT :: "(string, pay_field) dict" where
  "PAY_WEIGHT =
    [(''delta_luma_weight_l0'', PayArray 16 (PayInt True 8)), (''luma_offset_l0'', PayArray 16 (PayInt True 8)),
     (''delta_chroma_weight_l0'', PayArray 32 (PayInt True 8)),
     (''chroma_offset_l0'', PayArray 32 (PayInt True 8)), (''delta_luma_weight_l1'', PayArray 16 (PayInt True 8)),
     (''luma_offset_l1'', PayArray 16 (PayInt True 8)), (''delta_chroma_weight_l1'', PayArray 32 (PayInt True 8)),
     (''chroma_offset_l1'', PayArray 32 (PayInt True 8)), (''luma_log2_weight_denom'', pay_u8),
     (''delta_chroma_log2_weight_denom'', pay_s8)]"

definition PAY_DPB :: "(string, pay_field) dict" where
  "PAY_DPB =
    [(''timestamp'', pay_u64), (''flags'', PayFlags [''V4L2_HEVC_PPS_FLAG_DEPENDENT_SLICE_SEGMENT_ENABLED'']),
     (''field_pic'', pay_u8), (''pic_order_cnt_val'', pay_s32)]"

definition PAY_SCHEMA :: "(string, (string, pay_field) dict) dict" where
  "PAY_SCHEMA = [(''v4l2_ctrl_hevc_sps'', PAY_SPS),
     (''v4l2_ctrl_hevc_pps'', PAY_PPS),
     (''v4l2_ctrl_hevc_slice_params'', PAY_SLICE),
     (''v4l2_ctrl_hevc_decode_params'', PAY_DECODE),
     (''v4l2_ctrl_hevc_scaling_matrix'', PAY_SCALING),
     (''v4l2_hevc_pred_weight_table'', PAY_WEIGHT),
     (''v4l2_hevc_dpb_entry'', PAY_DPB)]"

definition FULL_SIZES :: "(string, int) dict" where
  "FULL_SIZES = [(''SPS'', 40), (''PPS'', 64), (''SLICE_PARAMS'', 280), (''DECODE_PARAMS'', 328), (''SCALING_MATRIX'', 1000)]"

definition control_key :: "string \<Rightarrow> string" where
  "control_key name = ''v4l2_ctrl_hevc_'' @ map lower_char name"

subsection \<open>Checking a payload\<close>

definition pay_low :: "bool \<Rightarrow> nat \<Rightarrow> int" where
  "pay_low sg bits = (if sg then - (2 ^ (bits - 1)) else 0)"

definition pay_high :: "bool \<Rightarrow> nat \<Rightarrow> int" where
  "pay_high sg bits = (if sg then 2 ^ (bits - 1) - 1 else 2 ^ bits - 1)"

definition pay_value :: "(json \<Rightarrow> string \<Rightarrow> json py) \<Rightarrow> pay_type \<Rightarrow> json \<Rightarrow> json py" where
  "pay_value struct t v = (case t of
     PayInt sg bits \<Rightarrow> rbind (hc_integer (pay_low sg bits) (pay_high sg bits) v) (\<lambda>i. Inr (JInt i))
   | PayStruct s \<Rightarrow> struct v s)"

definition flag_tokens :: "string \<Rightarrow> string list" where
  "flag_tokens s = (if s = [] then [] else map py_strip (split_on CHR ''|'' s))"

definition LONG_TERM :: string where "LONG_TERM = ''V4L2_HEVC_DPB_ENTRY_LONG_TERM_REFERENCE''"

definition pay_field_value :: "(json \<Rightarrow> string \<Rightarrow> json py) \<Rightarrow> string \<Rightarrow> pay_field \<Rightarrow> json \<Rightarrow> json py" where
  "pay_field_value struct name f item = (case f of
     PayFlags allowed \<Rightarrow>
       (case item of
          JStr s \<Rightarrow>
            let tokens = flag_tokens s in
            rbind (require (distinct tokens \<and> set tokens \<subseteq> set allowed) ''unknown flags'') (\<lambda>_.
            Inr (JList (map JStr
              (if name = ''v4l2_hevc_dpb_entry'' then (if tokens \<noteq> [] then [LONG_TERM] else []) else sort tokens))))
        | _ \<Rightarrow> Inl (Reject ''invalid flags''))
   | PayOne t \<Rightarrow> pay_value struct t item
   | PayArray n t \<Rightarrow>
       (case item of
          JList xs \<Rightarrow>
            rbind (require (length xs = n) ''missing/extra array elements'') (\<lambda>_.
            rbind (rmap (pay_value struct t) xs) (\<lambda>ys. Inr (JList ys)))
        | _ \<Rightarrow> Inl (Reject ''missing/extra array elements'')))"

definition pay_struct :: "(json \<Rightarrow> string \<Rightarrow> json py) \<Rightarrow> json \<Rightarrow> string \<Rightarrow> json py" where
  "pay_struct struct v name =
     rbind (dsub PAY_SCHEMA name) (\<lambda>fs.
     case v of
       JObj d \<Rightarrow>
         rbind (require (keys_are d (map fst fs)) ''missing/unknown control field'') (\<lambda>_.
         rbind (rmap (\<lambda>(key, f). rbind (dsub d key) (\<lambda>item.
                        rbind (pay_field_value struct name f item) (\<lambda>r. Inr (key, r)))) fs) (\<lambda>result.
         Inr (JObj result)))
     | _ \<Rightarrow> Inl (Reject ''missing/unknown control field''))"

primrec payload_depth :: "nat \<Rightarrow> json \<Rightarrow> string \<Rightarrow> json py" where
  "payload_depth 0 = (\<lambda>v name. Inl (Reject ''recursion limit''))"
| "payload_depth (Suc n) = pay_struct (payload_depth n)"

definition full_payload :: "json \<Rightarrow> string \<Rightarrow> json py" where
  "full_payload = payload_depth 2"

subsection \<open>Control sets against reference records\<close>

text \<open>One recorded difference between the submitted and the returned value of a field.\<close>

definition joined_flags :: "bool \<Rightarrow> json \<Rightarrow> json py" where
  "joined_flags listed raw =
     rbind (py_in (JStr ''flags'') raw) (\<lambda>has.
     if \<not> has then Inr raw
     else rbind (sub raw ''flags'') (\<lambda>fl.
          rbind (require (listed \<longrightarrow> is_list fl) ''invalid public flags'') (\<lambda>_.
          rbind (py_join fl) (\<lambda>s. py_put raw (JStr ''flags'') (JStr s)))))"

definition control_payload :: "json \<Rightarrow> json \<Rightarrow> json py" where
  "control_payload raw name = (case name of
     JStr s \<Rightarrow> full_payload raw (control_key s)
   | _ \<Rightarrow> Inl AttributeError)"

definition check_change :: "json \<Rightarrow> json \<Rightarrow> json \<Rightarrow> (json \<times> json) list \<Rightarrow> (json \<times> json) list py" where
  "check_change row cs change seen =
     rbind (py_set change) (\<lambda>ks.
     rbind (require (names_are ks [''control'', ''field'', ''submitted'', ''returned'']) ''invalid correction record'') (\<lambda>_.
     rbind (sub change ''control'') (\<lambda>name.
     rbind (sub change ''field'') (\<lambda>field.
     rbind (require_and
       [rbind (sub row ''submitted'') (py_in name), py_in name cs, rbind (py_at cs name) (py_in field),
        rbind (py_hash name) (\<lambda>_. rbind (py_hash field) (\<lambda>_.
          Inr (\<not> list_ex (\<lambda>(n, f). py_eq n name \<and> py_eq f field) seen)))] ''unbound/duplicate correction'') (\<lambda>_.
     rbind (require_and
       [rbind (sub change ''returned'') (\<lambda>r. rbind (rbind (py_at cs name) (\<lambda>c. py_at c field)) (\<lambda>v. Inr (py_eq r v))),
        rbind (sub change ''submitted'') (\<lambda>s. rbind (sub change ''returned'') (\<lambda>r. Inr (\<not> py_eq s r)))]
       ''correction does not match return'') (\<lambda>_.
     rbind (py_at cs name) (\<lambda>data.
     rbind (sub change ''submitted'') (\<lambda>s.
     rbind (py_put data field s) (\<lambda>raw.
     rbind (require (\<not> py_eq name (JStr ''DECODE_PARAMS'')) ''unexpected reference correction'') (\<lambda>_.
     rbind (joined_flags False raw) (\<lambda>raw.
     rbind (control_payload raw name) (\<lambda>_.
     Inr (seen @ [(name, field)])))))))))))))"

text \<open>
  The published form of a DPB entry names a logical writer in place of a timestamp; it is put back into
  the shape of the ioctl to be checked, and back again to be compared.
\<close>

definition restore_entry :: "nat \<Rightarrow> json \<Rightarrow> json py" where
  "restore_entry i ent = (case ent of
     JObj d \<Rightarrow>
       rbind (dsub d ''timestamp_writer'') (\<lambda>writer.
       rbind (require (case writer of JNull \<Rightarrow> True | JInt w \<Rightarrow> 1 \<le> w \<and> w < int i | _ \<Rightarrow> False) ''invalid writer'') (\<lambda>_.
       let d1 = dset ''timestamp'' (JInt (case writer of JInt w \<Rightarrow> w * 1000 | _ \<Rightarrow> 0)) (ddel ''timestamp_writer'' d) in
       rbind (dsub d1 ''flags'') (\<lambda>fl.
       rbind (py_set fl) (\<lambda>fs.
       rbind (require (subset_names fs [LONG_TERM]) ''unknown DPB flag'') (\<lambda>_.
       Inr (JObj (dset ''flags'' (JStr (if py_true fl then ''V4L2_HEVC_PPS_FLAG_DEPENDENT_SLICE_SEGMENT_ENABLED''
         else [])) d1)))))))
   | JList _ \<Rightarrow> Inl TypeError
   | _ \<Rightarrow> Inl AttributeError)"

definition publish_entry :: "json \<Rightarrow> json py" where
  "publish_entry ent = (case ent of
     JObj d \<Rightarrow>
       rbind (dsub d ''timestamp'') (\<lambda>token.
       Inr (JObj (dset ''timestamp_writer'' (case token of JInt t \<Rightarrow> if t = 0 then JNull else JInt (t div 1000) | _ \<Rightarrow> JNull)
         (ddel ''timestamp'' d))))
   | JList _ \<Rightarrow> Inl TypeError
   | _ \<Rightarrow> Inl AttributeError)"

definition map_dpb :: "(json \<Rightarrow> json py) \<Rightarrow> json \<Rightarrow> json py" where
  "map_dpb f raw =
     rbind (sub raw ''dpb'') (\<lambda>dpb.
     rbind (py_iter dpb) (\<lambda>ents.
     rbind (rmap f ents) (\<lambda>ents'.
     if is_list dpb then py_put raw (JStr ''dpb'') (JList ents') else Inr raw)))"

definition check_payload :: "nat \<Rightarrow> string \<times> json \<Rightarrow> unit py" where
  "check_payload i = (\<lambda>(name, data).
     rbind (if name = ''DECODE_PARAMS'' then map_dpb (restore_entry i) data else Inr data) (\<lambda>raw.
     rbind (joined_flags True raw) (\<lambda>raw.
     rbind (full_payload raw (control_key name)) (\<lambda>checked.
     rbind (if name = ''DECODE_PARAMS'' then map_dpb publish_entry checked else Inr checked) (\<lambda>checked.
     require (py_eq checked data) ''noncanonical payload'')))))"

definition check_submitted :: "json list \<Rightarrow> nat \<Rightarrow> json \<Rightarrow> json \<Rightarrow> json list \<Rightarrow> unit py" where
  "check_submitted rows i row cs names =
     rbind (require_and
       [rbind (sub row ''submitted'') (\<lambda>s. rbind (rbind (sub row ''submitted'') py_set) (\<lambda>xs.
          rbind (py_sorted xs) (\<lambda>ys. Inr (py_eq s (JList ys))))),
        rbind (rbind (sub row ''submitted'') py_set) (\<lambda>xs. Inr (list_all (\<lambda>x. list_ex (py_eq x) names) xs)),
        rbind (rbind (sub row ''submitted'') py_set) (\<lambda>xs.
          Inr (superset_names xs [''PPS'', ''DECODE_PARAMS'', ''SLICE_PARAMS'', ''SCALING_MATRIX'']))]
       ''invalid explicit control set'') (\<lambda>_.
     rbind (rbind (sub row ''submitted'') (py_in (JStr ''SPS''))) (\<lambda>sps.
     if sps then require_and [eq_sub row ''sps_from_picture'' (JInt (int i))] ''bad SPS source''
     else
       require_and
         [Inr (i > 1), eq_subs row ''sps_from_picture'' (rows ! (i - 2)) ''sps_from_picture'',
          rbind (sub cs ''SPS'') (\<lambda>x. rbind (rbind (sub (rows ! (i - 2)) ''controls'') (\<lambda>c. sub c ''SPS'')) (\<lambda>y.
            Inr (py_eq x y)))] ''invented inherited SPS''))"

text \<open>\<^verbatim>\<open>writers\<close>: the number of the last picture that wrote a buffer.\<close>

definition row_writer :: "(json \<times> nat) list \<Rightarrow> json \<Rightarrow> nat option" where
  "row_writer ws b = map_option snd (find (\<lambda>(k, _). py_eq k b) ws)"

definition set_writer :: "json \<Rightarrow> nat \<Rightarrow> (json \<times> nat) list \<Rightarrow> (json \<times> nat) list" where
  "set_writer b i ws =
     (if list_ex (\<lambda>(k, _). py_eq k b) ws then map (\<lambda>(k, w). (k, if py_eq k b then i else w)) ws else ws @ [(b, i)])"

definition int_value :: "json \<Rightarrow> int py" where
  "int_value v = (case v of JInt i \<Rightarrow> Inr i | _ \<Rightarrow> Inl TypeError)"

lemma int_value_Inr [res_simps]: "int_value v = Inr i \<longleftrightarrow> v = JInt i"
  by (cases v) (auto simp: int_value_def)

definition check_dpb_slot :: "json list \<Rightarrow> (json \<times> nat) list \<Rightarrow> json \<Rightarrow> json \<Rightarrow> nat \<times> json \<Rightarrow> unit py" where
  "check_dpb_slot rows writers ref dp = (\<lambda>(slot, ent).
     rbind (sub ent ''timestamp_writer'') (\<lambda>w.
     rbind (rbind (sub dp ''num_active_dpb_entries'') int_value) (\<lambda>n.
     if int slot \<ge> n then require (w = JNull) ''inactive timestamp was not omitted''
     else
       rbind (require_and
         [Inr (w \<noteq> JNull),
          rbind (rbind (sub ref ''dpb'') (\<lambda>l. py_at l (JInt (int slot)))) (\<lambda>a. rbind (sub a ''buf'') (\<lambda>b.
            rbind (py_hash b) (\<lambda>_.
            Inr (case row_writer writers b of None \<Rightarrow> False | Some p \<Rightarrow> py_eq (JInt (int p)) w))))]
         ''stale/incorrect logical writer'') (\<lambda>_.
       rbind (rbind (sub ref ''dpb'') (\<lambda>l. py_at l (JInt (int slot)))) (\<lambda>actual.
       require_and
         [eq_subs ent ''pic_order_cnt_val'' actual ''poc'',
          rbind (rbind (int_value w) (\<lambda>p. py_at (JList rows) (JInt (p - 1)))) (\<lambda>prev. eq_subs actual ''poc'' prev ''poc''),
          eq_subs ent ''field_pic'' actual ''field'',
          rbind (sub ent ''flags'') (\<lambda>fl. rbind (sub actual ''lt'') (\<lambda>lt. Inr (py_true fl = py_true lt)))]
         ''control/reference DPB mismatch'')))))"

definition check_rps :: "json \<Rightarrow> json \<Rightarrow> string \<times> string \<Rightarrow> unit py" where
  "check_rps ref dp = (\<lambda>(key, suffix).
     rbind (sub dp (''num_poc_'' @ suffix)) (\<lambda>cnt.
     require_and
       [rbind (rbind (sub dp (''poc_'' @ suffix)) (\<lambda>arr. py_take arr cnt)) (\<lambda>xs.
          rbind (sub ref key) (\<lambda>l. Inr (py_eq (JList xs) l)))] ''RPS list mismatch''))"

definition slice_letter :: "int \<Rightarrow> string" where
  "slice_letter t = (if t = 0 then ''B'' else if t = 1 then ''P'' else ''I'')"

definition logical_list :: "json \<Rightarrow> json \<Rightarrow> json \<Rightarrow> string \<times> int \<Rightarrow> json list py" where
  "logical_list ref dp sl = (\<lambda>(key, cnt).
     rbind (rbind (sub sl (''ref_idx_'' @ key)) (\<lambda>arr. py_take arr (JInt cnt))) (\<lambda>slots.
     rbind (require_and
       [rbind (rbind (sub ref ''slices'') py_first) (\<lambda>s. rbind (sub s key) (\<lambda>l. Inr (py_eq (JList slots) l)))]
       ''slice reference mismatch'') (\<lambda>_.
     rmap (\<lambda>j. rbind (rbind (sub dp ''dpb'') (\<lambda>l. py_at l j)) (\<lambda>e. sub e ''timestamp_writer'')) slots)))"

definition logical_lists :: "json \<Rightarrow> json \<Rightarrow> json \<Rightarrow> (json list \<times> json list) py" where
  "logical_lists ref dp sl =
     rbind (sub sl ''slice_type'') (\<lambda>typ.
     rbind (require_and
       [Inr (list_ex (py_eq typ) [JInt 0, JInt 1, JInt 2]),
        rbind (int_value typ) (\<lambda>t. rbind (rbind (sub ref ''slices'') py_first) (\<lambda>s.
          eq_sub s ''type'' (JStr (slice_letter t))))] ''type mismatch'') (\<lambda>_.
     rbind (if py_eq typ (JInt 2) then Inr 0
            else rbind (rbind (sub sl ''num_ref_idx_l0_active_minus1'') int_value) (\<lambda>k. Inr (k + 1))) (\<lambda>c0.
     rbind (if py_eq typ (JInt 0)
            then rbind (rbind (sub sl ''num_ref_idx_l1_active_minus1'') int_value) (\<lambda>k. Inr (k + 1)) else Inr 0) (\<lambda>c1.
     rbind (logical_list ref dp sl (''l0'', c0)) (\<lambda>l0.
     rbind (logical_list ref dp sl (''l1'', c1)) (\<lambda>l1.
     Inr (l0, l1)))))))"

definition check_dpb :: "json list \<Rightarrow> (json \<times> nat) list \<Rightarrow> json \<Rightarrow> json \<Rightarrow> json \<Rightarrow> json \<Rightarrow> unit py" where
  "check_dpb rows writers row ref dp sl =
     rbind (require_and
       [eq_subs dp ''pic_order_cnt_val'' sl ''slice_pic_order_cnt'', eq_subs sl ''slice_pic_order_cnt'' row ''poc'']
       ''POC mismatch'') (\<lambda>_.
     rbind (require_and
       [rbind (sub dp ''num_active_dpb_entries'') (\<lambda>n. rbind (rbind (sub ref ''dpb'') py_len) (\<lambda>k.
          Inr (py_eq n (JInt (int k)))))] ''DPB extent mismatch'') (\<lambda>_.
     rbind (rbind (sub dp ''dpb'') py_iter) (\<lambda>ents.
     rall (check_dpb_slot rows writers ref dp) (zip [0..<length ents] ents))))"

text \<open>The body of the loop over the pictures; \<open>i\<close> counts from 1.\<close>

definition check_row ::
  "json \<Rightarrow> json list \<Rightarrow> nat \<times> json \<times> json \<Rightarrow> (json \<times> nat) list \<times> (json list \<times> json list) list \<Rightarrow>
     ((json \<times> nat) list \<times> (json list \<times> json list) list) py" where
  "check_row run rows = (\<lambda>(i, row, ref) (writers, logical).
     rbind (require_and
       [eq_sub row ''schema'' (JStr ''hevc-full-controls/1''), eq_subs row ''picture'' ref ''pic'',
        eq_sub ref ''pic'' (JInt (int i)), eq_subs row ''run'' ref ''run'', eq_sub ref ''run'' run,
        eq_subs row ''target'' ref ''target'', eq_subs row ''poc'' ref ''poc''] ''mixed control/reference identity'') (\<lambda>_.
     rbind (sub row ''controls'') (\<lambda>cs.
     rbind (py_set cs) (\<lambda>names.
     rbind (require (names_are names (map fst FULL_SIZES)) ''missing payload'') (\<lambda>_.
     rbind (rbind (sub row ''input_changes'') py_iter) (\<lambda>changes.
     rbind (rfold (check_change row cs) changes []) (\<lambda>_.
     rbind (case cs of JObj d \<Rightarrow> Inr d | _ \<Rightarrow> Inl AttributeError) (\<lambda>items.
     rbind (rall (check_payload i) items) (\<lambda>_.
     rbind (check_submitted rows i row cs names) (\<lambda>_.
     rbind (sub cs ''DECODE_PARAMS'') (\<lambda>dp.
     rbind (sub cs ''SLICE_PARAMS'') (\<lambda>sl.
     rbind (check_dpb rows writers row ref dp sl) (\<lambda>_.
     rbind (rall (check_rps ref dp) [(''st_before'', ''st_curr_before''), (''st_after'', ''st_curr_after''),
       (''lt_curr'', ''lt_curr'')]) (\<lambda>_.
     rbind (logical_lists ref dp sl) (\<lambda>lists.
     rbind (sub row ''target'') (\<lambda>target.
     rbind (py_hash target) (\<lambda>_.
     Inr (set_writer target i writers, logical @ [lists]))))))))))))))))))"

definition check_rows :: "json list \<Rightarrow> json list \<Rightarrow> json \<Rightarrow> ((json \<times> nat) list \<times> (json list \<times> json list) list) py" where
  "check_rows rows refs run =
     rfold (check_row run rows) (zip [1..<Suc (length rows)] (zip rows refs)) ([], [])"

definition full_validate_controls :: "json list \<Rightarrow> json list \<Rightarrow> json \<Rightarrow> (json list \<times> json list) list py" where
  "full_validate_controls rows refs run =
     rbind (require (length rows = 300 \<and> length refs = 300) ''incomplete control/reference extent'') (\<lambda>_.
     rbind (check_rows rows refs run) (\<lambda>(_, logical). Inr logical))"

subsection \<open>What a checked payload says\<close>

definition jfield :: "json \<Rightarrow> string \<Rightarrow> json" where
  "jfield v k = (case v of JObj d \<Rightarrow> jv d k | _ \<Rightarrow> JNull)"

lemma sub_jfield: "sub v k = Inr x \<Longrightarrow> jfield v k = x"
  by (auto simp: sub_Inr jfield_def jv_def)

lemma rmap_dict:
  assumes "rmap (\<lambda>(k, f). rbind (g k f) (\<lambda>r. Inr (k, r))) fs = Inr result"
  shows "map fst result = map fst fs \<and> (distinct (map fst fs) \<longrightarrow>
    (\<forall>k f. dget fs k = Some f \<longrightarrow> (\<exists>y. dget result k = Some y \<and> g k f = Inr y)))"
  using assms
proof (induction fs arbitrary: result)
  case (Cons x fs)
  obtain k f where x: "x = (k, f)" by (cases x)
  obtain y ys where y: "g k f = Inr y" and ys: "rmap (\<lambda>(k, f). rbind (g k f) (\<lambda>r. Inr (k, r))) fs = Inr ys"
    "result = (k, y) # ys" using Cons.prems x by (auto simp: rbind_Inr)
  show ?case using Cons.IH [OF ys(1)] y ys(2) x by auto
qed simp

lemma PAY_SCHEMA_distinct: "dget PAY_SCHEMA name = Some fs \<Longrightarrow> distinct (map fst fs)"
proof -
  have "list_all (\<lambda>(_, fs). distinct (map fst fs)) PAY_SCHEMA" by code_simp
  then show "dget PAY_SCHEMA name = Some fs \<Longrightarrow> distinct (map fst fs)"
    by (auto simp: list_all_iff dest: map_of_SomeD)
qed

lemma pay_struct_Inr:
  assumes "pay_struct struct v name = Inr w"
  shows "\<exists>fs d r. dget PAY_SCHEMA name = Some fs \<and> v = JObj d \<and> w = JObj r \<and> keys_are d (map fst fs) \<and>
    map fst r = map fst fs \<and>
    (\<forall>k f. dget fs k = Some f \<longrightarrow> (\<exists>x y. dget d k = Some x \<and> dget r k = Some y \<and> pay_field_value struct name f x = Inr y))"
proof -
  obtain fs where fs: "dget PAY_SCHEMA name = Some fs" using assms unfolding pay_struct_def
    by (auto simp: dsub_Inr elim!: rbind_InrE)
  obtain d where v: "v = JObj d" using assms fs unfolding pay_struct_def by (cases v) (auto simp: dsub_def)
  obtain r where keys: "keys_are d (map fst fs)" and w: "w = JObj r"
    and run: "rmap (\<lambda>(key, f). rbind (dsub d key) (\<lambda>item. rbind (pay_field_value struct name f item) (\<lambda>r. Inr (key, r)))) fs = Inr r"
    using assms fs v unfolding pay_struct_def by (auto simp: dsub_def require_Inr elim!: rbind_InrE)
  have "(\<lambda>(key, f). rbind (dsub d key) (\<lambda>item. rbind (pay_field_value struct name f item) (\<lambda>r. Inr (key, r)))) =
      (\<lambda>(key, f). rbind (rbind (dsub d key) (pay_field_value struct name f)) (\<lambda>r. Inr (key, r)))"
    by (simp add: rbind_assoc)
  from rmap_dict [OF run [unfolded this]] PAY_SCHEMA_distinct [OF fs] have "map fst r = map fst fs"
    and "\<And>k f. dget fs k = Some f \<Longrightarrow> \<exists>y. dget r k = Some y \<and> rbind (dsub d k) (pay_field_value struct name f) = Inr y"
    by blast+
  then show ?thesis using fs v w keys by (fastforce simp: rbind_Inr dsub_Inr)
qed

lemma full_payload_struct: "full_payload = pay_struct (payload_depth 1)"
  by (simp add: full_payload_def numeral_2_eq_2)

lemmas full_payload_Inr = pay_struct_Inr [of "payload_depth 1", folded full_payload_struct]

lemma pay_value_int:
  "pay_value struct (PayInt sg bits) v = Inr w \<longleftrightarrow> (\<exists>i. v = JInt i \<and> w = JInt i \<and> pay_low sg bits \<le> i \<and> i \<le> pay_high sg bits)"
  by (auto simp: pay_value_def hc_integer_def rbind_Inr int_in_Inr)

text \<open>The canonical form of a payload, per field of the schema.\<close>

definition fits_value :: "(json \<Rightarrow> string \<Rightarrow> bool) \<Rightarrow> pay_type \<Rightarrow> json \<Rightarrow> bool" where
  "fits_value F t v = (case t of
     PayInt sg bits \<Rightarrow> (case v of JInt i \<Rightarrow> pay_low sg bits \<le> i \<and> i \<le> pay_high sg bits | _ \<Rightarrow> False)
   | PayStruct s \<Rightarrow> F v s)"

definition flag_names :: "json \<Rightarrow> string list" where
  "flag_names v = (case v of JList xs \<Rightarrow> map (\<lambda>x. case x of JStr s \<Rightarrow> s | _ \<Rightarrow> []) xs | _ \<Rightarrow> [])"

definition fits_field :: "(json \<Rightarrow> string \<Rightarrow> bool) \<Rightarrow> string \<Rightarrow> pay_field \<Rightarrow> json \<Rightarrow> bool" where
  "fits_field F name f v = (case f of
     PayFlags allowed \<Rightarrow> v = JList (map JStr (flag_names v)) \<and> sorted (flag_names v) \<and> distinct (flag_names v) \<and>
       set (flag_names v) \<subseteq> set (if name = ''v4l2_hevc_dpb_entry'' then [LONG_TERM] else allowed)
   | PayOne t \<Rightarrow> fits_value F t v
   | PayArray n t \<Rightarrow> (case v of JList xs \<Rightarrow> length xs = n \<and> list_all (fits_value F t) xs | _ \<Rightarrow> False))"

definition fits_struct :: "(json \<Rightarrow> string \<Rightarrow> bool) \<Rightarrow> json \<Rightarrow> string \<Rightarrow> bool" where
  "fits_struct F v name = (case dget PAY_SCHEMA name of
     None \<Rightarrow> False
   | Some fs \<Rightarrow> (case v of
       JObj r \<Rightarrow> map fst r = map fst fs \<and> list_all (\<lambda>(k, f). fits_field F name f (jfield v k)) fs
     | _ \<Rightarrow> False))"

primrec fits_depth :: "nat \<Rightarrow> json \<Rightarrow> string \<Rightarrow> bool" where
  "fits_depth 0 = (\<lambda>v name. False)"
| "fits_depth (Suc n) = fits_struct (fits_depth n)"

lemma flag_names_map [simp]: "flag_names (JList (map JStr ts)) = ts"
  by (simp add: flag_names_def comp_def)

lemma pay_value_fits:
  assumes "\<And>v s w. struct v s = Inr w \<Longrightarrow> F w s" and "pay_value struct t v = Inr w"
  shows "fits_value F t w"
proof (cases t)
  case (PayInt sg bits)
  then show ?thesis using assms(2) by (auto simp: pay_value_int fits_value_def)
next
  case (PayStruct s)
  then show ?thesis using assms by (simp add: pay_value_def fits_value_def)
qed

lemma pay_field_fits:
  assumes "\<And>v s w. struct v s = Inr w \<Longrightarrow> F w s" and "pay_field_value struct name f v = Inr w"
  shows "fits_field F name f w"
proof -
  have val: "fits_value F t w" if "pay_value struct t v = Inr w" for t v w
    using assms(1) that by (rule pay_value_fits)
  show ?thesis
proof (cases f)
  case (PayFlags allowed)
  then obtain s where v: "v = JStr s" using assms(2) by (cases v) (simp_all add: pay_field_value_def)
  then have tok: "distinct (flag_tokens s)" "set (flag_tokens s) \<subseteq> set allowed"
    and w: "w = JList (map JStr (if name = ''v4l2_hevc_dpb_entry''
      then (if flag_tokens s \<noteq> [] then [LONG_TERM] else []) else sort (flag_tokens s)))"
    using assms(2) PayFlags by (auto simp: pay_field_value_def Let_def rbind_Inr require_Inr)
  show ?thesis using tok unfolding w fits_field_def PayFlags pay_field.case flag_names_map by simp
next
  case (PayOne t)
  then show ?thesis using assms(2) val by (simp add: pay_field_value_def fits_field_def)
next
  case (PayArray n t)
  then obtain xs ys where xs: "v = JList xs" "length xs = n" "rmap (pay_value struct t) xs = Inr ys" "w = JList ys"
    using assms(2) by (cases v) (auto simp: pay_field_value_def rbind_Inr require_Inr)
  have "list_all (fits_value F t) ys"
    using xs(3) val unfolding rmap_Inr_list_all2 list_all2_conv_all_nth list_all_length by (metis (no_types, lifting))
  then show ?thesis using xs rmap_Inr_length [OF xs(3)] by (simp add: fits_field_def PayArray)
qed
qed

lemma pay_struct_fits:
  assumes "\<And>v s w. struct v s = Inr w \<Longrightarrow> F w s" and "pay_struct struct v name = Inr w"
  shows "fits_struct F w name"
proof -
  obtain fs d r where fs: "dget PAY_SCHEMA name = Some fs" "w = JObj r" "map fst r = map fst fs"
    and fld: "\<And>k f. dget fs k = Some f \<Longrightarrow> \<exists>x y. dget d k = Some x \<and> dget r k = Some y \<and> pay_field_value struct name f x = Inr y"
    using pay_struct_Inr [OF assms(2)] by blast
  have "fits_field F name f (jfield w k)" if kf: "(k, f) \<in> set fs" for k f
  proof -
    have "dget fs k = Some f" using PAY_SCHEMA_distinct [OF fs(1)] kf by simp
    from fld [OF this] obtain x y where "dget r k = Some y" "pay_field_value struct name f x = Inr y" by blast
    moreover from this(2) have "fits_field F name f y" by (rule pay_field_fits [rotated]) (rule assms(1))
    ultimately show ?thesis using fs(2) by (simp add: jfield_def jv_def)
  qed
  then show ?thesis using fs by (auto simp: fits_struct_def list_all_iff)
qed

text \<open>
  C34. A payload that passes the schema check comes out in canonical form: exactly the schema's fields in
  its order, every integer of the field's width and sign, every array of its full length, nested
  structures likewise, and flags as a sorted list of distinct known names.
\<close>
theorem payload_typed:
  assumes "full_payload v name = Inr w"
  shows "fits_depth 2 w name"
proof -
  have "payload_depth n v s = Inr w \<Longrightarrow> fits_depth n w s" for n v s w
  proof (induction n arbitrary: v s w)
    case (Suc n)
    show ?case unfolding fits_depth.simps
      by (rule pay_struct_fits [where struct = "payload_depth n"]) (use Suc in simp_all)
  qed simp
  then show ?thesis using assms by (simp add: full_payload_def)
qed

definition blank_field :: "(string \<Rightarrow> json) \<Rightarrow> pay_field \<Rightarrow> json" where
  "blank_field struct f = (let one = (\<lambda>t. case t of PayInt _ _ \<Rightarrow> JInt 0 | PayStruct s \<Rightarrow> struct s) in
     case f of PayFlags _ \<Rightarrow> JStr [] | PayOne t \<Rightarrow> one t | PayArray n t \<Rightarrow> JList (replicate n (one t)))"

primrec blank_depth :: "nat \<Rightarrow> string \<Rightarrow> json" where
  "blank_depth 0 = (\<lambda>name. JNull)"
| "blank_depth (Suc n) = (\<lambda>name. JObj (map (\<lambda>(k, f). (k, blank_field (blank_depth n) f))
     (case dget PAY_SCHEMA name of Some fs \<Rightarrow> fs | None \<Rightarrow> [])))"

theorem payload_typed_witness:
  "\<exists>w. full_payload (blank_depth 2 ''v4l2_ctrl_hevc_decode_params'') ''v4l2_ctrl_hevc_decode_params'' = Inr w \<and>
     fits_depth 2 w ''v4l2_ctrl_hevc_decode_params''"
proof -
  have "case full_payload (blank_depth 2 ''v4l2_ctrl_hevc_decode_params'') ''v4l2_ctrl_hevc_decode_params'' of
      Inl _ \<Rightarrow> False | Inr _ \<Rightarrow> True" by code_simp
  then show ?thesis using payload_typed by (auto split: sum.splits)
qed

text \<open>The schema nests no deeper than the two levels of \<open>full_payload\<close>.\<close>

definition structs_of :: "pay_field \<Rightarrow> string list" where
  "structs_of f = (case f of PayOne (PayStruct s) \<Rightarrow> [s] | PayArray _ (PayStruct s) \<Rightarrow> [s] | _ \<Rightarrow> [])"

definition nested_structs :: "string \<Rightarrow> string list" where
  "nested_structs name = (case dget PAY_SCHEMA name of None \<Rightarrow> [] | Some fs \<Rightarrow> concat (map (structs_of \<circ> snd) fs))"

lemma pay_field_cong:
  assumes "\<And>v s. s \<in> set (structs_of f) \<Longrightarrow> F v s = G v s"
  shows "pay_field_value F name f v = pay_field_value G name f v"
proof -
  have "pay_value F t = pay_value G t" if "f = PayOne t \<or> f = PayArray n t" for t n
    using that assms by (cases t) (auto simp: pay_value_def structs_of_def fun_eq_iff)
  then show ?thesis by (cases f) (auto simp: pay_field_value_def split: json.splits)
qed

lemma pay_struct_cong:
  assumes "\<And>v s. s \<in> set (nested_structs name) \<Longrightarrow> F v s = G v s"
  shows "pay_struct F v name = pay_struct G v name"
proof (cases "dget PAY_SCHEMA name")
  case (Some fs)
  have "pay_field_value F name f x = pay_field_value G name f x" if "(k, f) \<in> set fs" for k f x
    by (rule pay_field_cong, rule assms) (use that Some in \<open>force simp: nested_structs_def\<close>)
  then have "rmap (\<lambda>(key, f). rbind (dsub d key) (\<lambda>item. rbind (pay_field_value F name f item) (\<lambda>r. Inr (key, r)))) fs =
      rmap (\<lambda>(key, f). rbind (dsub d key) (\<lambda>item. rbind (pay_field_value G name f item) (\<lambda>r. Inr (key, r)))) fs" for d
    by (intro rmap_cong) auto
  moreover have "dsub PAY_SCHEMA name = Inr fs" using Some by (simp add: dsub_def)
  ultimately show ?thesis by (simp add: pay_struct_def split: json.split)
qed (simp add: pay_struct_def dsub_def)

lemma schema_nesting: "s \<in> set (nested_structs name) \<Longrightarrow> nested_structs s = []"
proof -
  have "list_all (\<lambda>(n, _). list_all (\<lambda>s. nested_structs s = []) (nested_structs n)) PAY_SCHEMA" by code_simp
  then have "nested_structs s = []" if "(n, fs) \<in> set PAY_SCHEMA" "s \<in> set (nested_structs n)" for n fs s
    using that by (fastforce simp: list_all_iff)
  moreover have "\<exists>fs. (name, fs) \<in> set PAY_SCHEMA" if "nested_structs name \<noteq> []"
    using that by (auto simp: nested_structs_def split: option.splits dest: map_of_SomeD)
  ultimately show "s \<in> set (nested_structs name) \<Longrightarrow> nested_structs s = []"
    by (metis empty_iff list.set(1))
qed

lemma payload_depth_enough: "payload_depth (n + 2) v name = full_payload v name"
proof -
  have inner: "pay_struct (payload_depth n) w s = pay_struct (payload_depth 0) w s" if "nested_structs s = []" for w s
    by (rule pay_struct_cong) (simp only: that list.set empty_iff)
  have "pay_struct (pay_struct (payload_depth n)) v name = pay_struct (pay_struct (payload_depth 0)) v name"
    by (rule pay_struct_cong) (rule inner, erule schema_nesting)
  then show ?thesis unfolding full_payload_def numeral_2_eq_2 add_Suc_right add_0_right payload_depth.simps .
qed

subsection \<open>Logical writers\<close>

text \<open>The table after the first \<open>k\<close> rows.\<close>

abbreviation row_target :: "json list \<Rightarrow> nat \<Rightarrow> json" where
  "row_target rows j \<equiv> jfield (rows ! j) ''target''"

abbreviation writers_after :: "json list \<Rightarrow> nat \<Rightarrow> (json \<times> nat) list" where
  "writers_after rows k \<equiv> fold (\<lambda>j. set_writer (row_target rows j) (Suc j)) [0..<k] []"

lemma find_map_writer:
  "find (\<lambda>(k, _). py_eq k b) (map (\<lambda>(k, w). (k, if py_eq k t then i else w)) ws) =
   map_option (\<lambda>(k, w). (k, if py_eq k t then i else w)) (find (\<lambda>(k, _). py_eq k b) ws)"
  by (induction ws) auto

lemma row_writer_set: "row_writer (set_writer t i ws) b = (if py_eq t b then Some i else row_writer ws b)"
proof (cases "list_ex (\<lambda>(k, _). py_eq k t) ws")
  case True
  then obtain k w where ex: "(k, w) \<in> set ws" "py_eq k t" by (auto simp: list_ex_iff)
  have eq: "py_eq k' b \<Longrightarrow> py_eq k' t \<longleftrightarrow> py_eq t b" for k' by (auto simp: py_eq_def)
  show ?thesis
  proof (cases "find (\<lambda>(k, _). py_eq k b) ws")
    case None
    then have "\<not> py_eq k b" using ex(1) by (auto simp: find_None_ex list_ex_iff)
    then have "\<not> py_eq t b" using ex(2) by (auto simp: py_eq_def)
    then show ?thesis using True None by (simp add: set_writer_def row_writer_def find_map_writer)
  next
    case (Some p)
    then have "py_eq (fst p) b" using find_SomeD [OF Some] by (cases p) simp
    then show ?thesis using True Some eq [of "fst p"] by (cases p) (simp add: set_writer_def row_writer_def find_map_writer)
  qed
next
  case False
  have "find (\<lambda>(k, _). py_eq k b) ws = None" if "py_eq t b"
    using False that unfolding find_None_ex by (auto simp: list_ex_iff py_eq_def)
  then show ?thesis using False by (auto simp: set_writer_def row_writer_def find_append split: option.splits)
qed

interpretation row_writers: writer_table "[]" row_writer set_writer py_eq
  by unfold_locales (simp_all add: row_writer_set, simp add: row_writer_def)

lemma check_row_Inr:
  assumes "check_row run rows (i, row, ref) (ws, lg) = Inr (ws', lg')"
  obtains d dp sl where "sub row ''controls'' = Inr (JObj d)" "rall (check_payload i) d = Inr ()"
    "sub (JObj d) ''DECODE_PARAMS'' = Inr dp" "check_dpb rows ws row ref dp sl = Inr ()"
    "ws' = set_writer (jfield row ''target'') i ws"
proof -
  obtain u1 cs names u2 changes seen items u3 u4 dp sl u5 u6 lists target u7 where
    cs: "sub row ''controls'' = Inr cs" and it: "(case cs of JObj d \<Rightarrow> Inr d | _ \<Rightarrow> Inl AttributeError) = Inr items"
    and pay: "rall (check_payload i) items = Inr u3" and dp: "sub cs ''DECODE_PARAMS'' = Inr dp"
    and dpb: "check_dpb rows ws row ref dp sl = Inr u5" and t: "sub row ''target'' = Inr target"
    and ws: "Inr (set_writer target i ws, lg @ [lists]) = (Inr (ws', lg') :: _ py)"
    using assms unfolding check_row_def prod.case by (elim rbind_InrE) (rule that)
  have "cs = JObj items" using it by (cases cs) simp_all
  then show ?thesis using that cs pay dp dpb ws sub_jfield [OF t] by simp
qed

lemma decode_schema: "dget PAY_SCHEMA (control_key ''DECODE_PARAMS'') = Some PAY_DECODE"
  "dget PAY_DECODE ''dpb'' = Some (PayArray 16 (PayStruct ''v4l2_hevc_dpb_entry''))"
  "dget PAY_DECODE ''num_active_dpb_entries'' = Some pay_u8"
  by code_simp+

lemma joined_flags_Inr:
  assumes "joined_flags l (JObj d) = Inr raw"
  shows "\<exists>d'. raw = JObj d' \<and> (\<forall>k. k \<noteq> ''flags'' \<longrightarrow> dget d' k = dget d k)"
  using assms by (auto simp: joined_flags_def rbind_Inr py_put_def split: if_splits)

lemma check_payload_decode:
  assumes "check_payload i (''DECODE_PARAMS'', data) = Inr u"
  obtains ents n where "jfield data ''dpb'' = JList ents" "length ents = 16" "sub data ''dpb'' = Inr (JList ents)"
    "sub data ''num_active_dpb_entries'' = Inr (JInt n)"
proof -
  obtain raw raw2 checked where raw: "map_dpb (restore_entry i) data = Inr raw"
    and raw2: "joined_flags True raw = Inr raw2" and pay: "full_payload raw2 (control_key ''DECODE_PARAMS'') = Inr checked"
    using assms unfolding check_payload_def prod.case by (auto elim!: rbind_InrE)
  obtain dpb es es' where dpb: "sub data ''dpb'' = Inr dpb" and es: "py_iter dpb = Inr es" "rmap (restore_entry i) es = Inr es'"
    and put: "(if is_list dpb then py_put data (JStr ''dpb'') (JList es') else Inr data) = Inr raw"
    using raw unfolding map_dpb_def by (auto elim!: rbind_InrE)
  obtain d where d: "data = JObj d" "dget d ''dpb'' = Some dpb" using dpb by (auto simp: sub_Inr)
  define dr where "dr = (if is_list dpb then dset ''dpb'' (JList es') d else d)"
  have r: "raw = JObj dr" using put d by (auto simp: py_put_def dr_def split: if_splits)
  obtain d2 where d2: "raw2 = JObj d2" "\<And>k. k \<noteq> ''flags'' \<Longrightarrow> dget d2 k = dget dr k"
    using joined_flags_Inr raw2 unfolding r by blast
  obtain x y where x: "dget d2 ''dpb'' = Some x"
    "pay_field_value (payload_depth 1) (control_key ''DECODE_PARAMS'') (PayArray 16 (PayStruct ''v4l2_hevc_dpb_entry'')) x = Inr y"
    using full_payload_Inr [OF pay] decode_schema d2(1) by fastforce
  obtain a b where a: "dget d2 ''num_active_dpb_entries'' = Some a"
    "pay_field_value (payload_depth 1) (control_key ''DECODE_PARAMS'') pay_u8 a = Inr b"
    using full_payload_Inr [OF pay] decode_schema d2(1) by fastforce
  obtain xs where xs: "x = JList xs" "length xs = 16" using x(2)
    by (cases x) (auto simp: pay_field_value_def rbind_Inr require_Inr)
  have lst: "is_list dpb" using x(1) xs d2(2) [of "''dpb''"] d(2) by (auto simp: dr_def split: if_splits)
  then obtain ents where ents: "dpb = JList ents" by (auto simp: is_list_iff)
  have "length ents = 16"
    using x(1) xs d2(2) [of "''dpb''"] lst es ents rmap_Inr_length [OF es(2)] by (auto simp: dr_def py_iter_def)
  moreover obtain n where "a = JInt n" using a(2) by (auto simp: pay_field_value_def pay_value_int)
  moreover have "sub data ''num_active_dpb_entries'' = Inr a"
    using a(1) d2(2) [of "''num_active_dpb_entries''"] d(1) by (auto simp: dr_def sub_def split: if_splits)
  ultimately show ?thesis using that dpb ents sub_jfield [OF dpb] by simp
qed

lemma check_dpb_slot_Inr:
  assumes "check_dpb_slot rows ws ref dp (slot, ent) = Inr u" and "sub dp ''num_active_dpb_entries'' = Inr (JInt n)"
  shows "if int slot \<ge> n then jfield ent ''timestamp_writer'' = JNull
    else \<exists>w acts prev. jfield ent ''timestamp_writer'' = JInt (int w) \<and> jfield ref ''dpb'' = JList acts \<and>
      row_writer ws (jfield (acts ! slot) ''buf'') = Some w \<and>
      py_at (JList rows) (JInt (int w - 1)) = Inr prev \<and> py_eq (jfield ent ''pic_order_cnt_val'') (jfield prev ''poc'')"
proof (cases "int slot \<ge> n")
  case True
  then show ?thesis using assms
    by (auto simp: check_dpb_slot_def int_value_def rbind_Inr require_Inr dest: sub_jfield)
next
  case False
  obtain w where w: "sub ent ''timestamp_writer'' = Inr w"
    using assms(1) unfolding check_dpb_slot_def prod.case by (elim rbind_InrE)
  note run = assms(1) [unfolded check_dpb_slot_def prod.case w assms(2) rbind_simps int_value_def json.case if_not_P [OF False]]
  obtain l a b where l: "sub ref ''dpb'' = Inr l" "py_at l (JInt (int slot)) = Inr a" "sub a ''buf'' = Inr b"
    and wr: "(case row_writer ws b of None \<Rightarrow> False | Some p \<Rightarrow> py_eq (JInt (int p)) w)"
    using run by (auto simp: rbind_Inr require_and_Inr)
  have rest: "eq_subs ent ''pic_order_cnt_val'' a ''poc'' = Inr True"
    "rbind (rbind (case w of JInt i \<Rightarrow> Inr i | _ \<Rightarrow> Inl TypeError) (\<lambda>p. py_at (JList rows) (JInt (p - 1)))) (\<lambda>prev. eq_subs a ''poc'' prev ''poc'') = Inr True"
    using run l by (auto simp: rbind_Inr require_and_Inr)
  then obtain i prev where i: "w = JInt i" "py_at (JList rows) (JInt (i - 1)) = Inr prev" "eq_subs a ''poc'' prev ''poc'' = Inr True"
    by (cases w) (auto simp: rbind_Inr)
  obtain p where p: "row_writer ws b = Some p" "i = int p" using wr i(1) by (auto split: option.splits)
  obtain acts where acts: "l = JList acts"
    using l(2,3) by (cases l) (auto simp: py_at_def py_hash_def rbind_Inr sub_def)
  have "a = acts ! slot" using l(2) unfolding acts by (auto simp: py_at_def list_index_def index_of_def rbind_Inr split: if_splits)
  moreover have "py_eq (jfield ent ''pic_order_cnt_val'') (jfield prev ''poc'')"
    using rest(1) i(3) by (auto simp: eq_subs_True dest!: sub_jfield intro: py_eq_trans)
  ultimately show ?thesis using False w l acts i p sub_jfield [OF w] sub_jfield [OF l(1)] sub_jfield [OF l(3)] by auto
qed

lemma check_rows_prefix:
  assumes "check_rows rows refs run = Inr r" and "length refs = length rows" and "k \<le> length rows"
  shows "\<exists>lg. rfold (check_row run rows) (take k (zip [1..<Suc (length rows)] (zip rows refs))) ([], []) =
    Inr (writers_after rows k, lg)"
  using assms(3)
proof (induction k)
  case 0
  then show ?case by simp
next
  case (Suc k)
  let ?xs = "zip [1..<Suc (length rows)] (zip rows refs)"
  obtain lg where ws: "rfold (check_row run rows) (take k ?xs) ([], []) = Inr (writers_after rows k, lg)"
    using Suc by auto
  have len: "k < length ?xs" using Suc.prems assms(2) by simp
  have xk: "?xs ! k = (Suc k, rows ! k, refs ! k)" using Suc.prems assms(2) by (simp add: nth_upt del: upt_Suc)
  have "rfold (check_row run rows) (take (Suc k) ?xs @ drop (Suc k) ?xs) ([], []) = Inr r"
    using assms(1) unfolding check_rows_def append_take_drop_id .
  then obtain s where s: "rfold (check_row run rows) (take (Suc k) ?xs) ([], []) = Inr s"
    unfolding rfold_append by (elim rbind_InrE)
  then have "check_row run rows (?xs ! k) (writers_after rows k, lg) = Inr s"
    unfolding take_Suc_conv_app_nth [OF len] rfold_append ws rbind_simps by (auto simp: rbind_Inr)
  moreover obtain ws' lg' where s': "s = (ws', lg')" by (cases s)
  ultimately have step: "check_row run rows (Suc k, rows ! k, refs ! k) (writers_after rows k, lg) = Inr (ws', lg')"
    unfolding xk by simp
  have "ws' = set_writer (row_target rows k) (Suc k) (writers_after rows k)" by (rule check_row_Inr [OF step])
  then show ?case using s s' by simp
qed

lemma check_rows_step:
  assumes "check_rows rows refs run = Inr r" and "length refs = length rows" and "k < length rows"
  obtains lg ws' lg' where "check_row run rows (Suc k, rows ! k, refs ! k) (writers_after rows k, lg) = Inr (ws', lg')"
proof -
  let ?xs = "zip [1..<Suc (length rows)] (zip rows refs)"
  obtain lg where ws: "rfold (check_row run rows) (take k ?xs) ([], []) = Inr (writers_after rows k, lg)"
    using check_rows_prefix [OF assms(1,2), of k] assms(3) by auto
  obtain s where s: "rfold (check_row run rows) (take (Suc k) ?xs) ([], []) = Inr s"
    using check_rows_prefix [OF assms(1,2), of "Suc k"] assms(3) by auto
  have len: "k < length ?xs" and xk: "?xs ! k = (Suc k, rows ! k, refs ! k)"
    using assms(2,3) by (simp_all add: nth_upt del: upt_Suc)
  have "check_row run rows (Suc k, rows ! k, refs ! k) (writers_after rows k, lg) = Inr s"
    using s unfolding take_Suc_conv_app_nth [OF len] rfold_append ws rbind_simps xk by (auto simp: rbind_Inr)
  then show ?thesis using that by (cases s) blast
qed

text \<open>
  C31. The logical writers of accepted control sets are the latest ones. In every picture, each active
  DPB entry names an earlier picture \<open>w\<close> whose target is the buffer that the reference record names for
  that entry and whose order count is the entry's, and no picture after \<open>w\<close> and before this one wrote
  that buffer; an inactive entry names none.
\<close>
theorem control_writers_latest:
  assumes "check_rows rows refs run = Inr r" and "length refs = length rows" and "i < length rows"
    and "dp = jfield (jfield (rows ! i) ''controls'') ''DECODE_PARAMS''"
  shows "\<exists>ents n. jfield dp ''dpb'' = JList ents \<and> length ents = 16 \<and> jfield dp ''num_active_dpb_entries'' = JInt n \<and>
    (\<forall>s < 16. if int s \<ge> n then jfield (ents ! s) ''timestamp_writer'' = JNull
      else \<exists>w acts. jfield (ents ! s) ''timestamp_writer'' = JInt (int w) \<and> 1 \<le> w \<and> w \<le> i \<and>
        jfield (refs ! i) ''dpb'' = JList acts \<and>
        py_eq (jfield (rows ! (w - 1)) ''target'') (jfield (acts ! s) ''buf'') \<and>
        py_eq (jfield (ents ! s) ''pic_order_cnt_val'') (jfield (rows ! (w - 1)) ''poc'') \<and>
        (\<forall>j. w \<le> j \<and> j < i \<longrightarrow> \<not> py_eq (jfield (rows ! j) ''target'') (jfield (acts ! s) ''buf'')))"
proof -
  let ?ws = "writers_after rows i"
  obtain lg ws' lg' where step: "check_row run rows (Suc i, rows ! i, refs ! i) (?ws, lg) = Inr (ws', lg')"
    by (rule check_rows_step [OF assms(1-3)])
  obtain d dp' sl where c: "sub (rows ! i) ''controls'' = Inr (JObj d)" and pay: "rall (check_payload (Suc i)) d = Inr ()"
    and dp': "sub (JObj d) ''DECODE_PARAMS'' = Inr dp'" and chk: "check_dpb rows ?ws (rows ! i) (refs ! i) dp' sl = Inr ()"
    by (rule check_row_Inr [OF step])
  have dp: "dp = dp'" using assms(4) sub_jfield [OF c] sub_jfield [OF dp'] by simp
  have "(''DECODE_PARAMS'', dp) \<in> set d" using dp' unfolding dp by (auto simp: sub_Inr dest: map_of_SomeD)
  then have "check_payload (Suc i) (''DECODE_PARAMS'', dp) = Inr ()" using pay by (simp add: rall_Inr)
  then obtain ents n where ents: "jfield dp ''dpb'' = JList ents" "length ents = 16" "sub dp ''dpb'' = Inr (JList ents)"
    "sub dp ''num_active_dpb_entries'' = Inr (JInt n)" by (rule check_payload_decode)
  have slot: "check_dpb_slot rows ?ws (refs ! i) dp (s, ents ! s) = Inr ()" if "s < 16" for s
  proof -
    have "(s, ents ! s) \<in> set (zip [0..<length ents] ents)" using that ents(2) by (auto simp: in_set_zip intro: exI [of _ s])
    then show ?thesis using chk ents(3) unfolding check_dpb_def dp [symmetric]
      by (auto simp: py_iter_def rall_Inr elim!: rbind_InrE)
  qed
  have "if int s \<ge> n then jfield (ents ! s) ''timestamp_writer'' = JNull
      else \<exists>w acts. jfield (ents ! s) ''timestamp_writer'' = JInt (int w) \<and> 1 \<le> w \<and> w \<le> i \<and>
        jfield (refs ! i) ''dpb'' = JList acts \<and>
        py_eq (jfield (rows ! (w - 1)) ''target'') (jfield (acts ! s) ''buf'') \<and>
        py_eq (jfield (ents ! s) ''pic_order_cnt_val'') (jfield (rows ! (w - 1)) ''poc'') \<and>
        (\<forall>j. w \<le> j \<and> j < i \<longrightarrow> \<not> py_eq (jfield (rows ! j) ''target'') (jfield (acts ! s) ''buf''))" if lt: "s < 16" for s
  proof (cases "int s \<ge> n")
    case False
    then obtain w acts prev where w: "jfield (ents ! s) ''timestamp_writer'' = JInt (int w)" "jfield (refs ! i) ''dpb'' = JList acts"
      "row_writer ?ws (jfield (acts ! s) ''buf'') = Some w" "py_at (JList rows) (JInt (int w - 1)) = Inr prev"
      "py_eq (jfield (ents ! s) ''pic_order_cnt_val'') (jfield prev ''poc'')"
      using check_dpb_slot_Inr [OF slot [OF lt] ents(4)] by auto
    have latest: "1 \<le> w \<and> w \<le> i \<and> py_eq (jfield (rows ! (w - 1)) ''target'') (jfield (acts ! s) ''buf'') \<and>
        (\<forall>j. w \<le> j \<and> j < i \<longrightarrow> \<not> py_eq (jfield (rows ! j) ''target'') (jfield (acts ! s) ''buf''))"
      using w(3) by (rule row_writers.look_latest)
    then have "prev = rows ! (w - 1)" using w(4) assms(3)
      by (auto simp: py_at_def list_index_def index_of_def nat_diff_distrib split: if_splits)
    then show ?thesis using False w(1,2,5) latest by auto
  qed (use check_dpb_slot_Inr [OF slot [OF lt] ents(4)] in simp)
  then show ?thesis using ents(1,2) sub_jfield [OF ents(4)] by blast
qed

subsection \<open>Two control sets\<close>

definition public_control :: "string \<Rightarrow> json" where
  "public_control name = (case full_payload (blank_depth 2 (control_key name)) (control_key name) of
     Inr v \<Rightarrow> v | _ \<Rightarrow> JNull)"

definition public_entry :: "json \<Rightarrow> int \<Rightarrow> json" where
  "public_entry w poc = JObj [(''flags'', JList []), (''field_pic'', JInt 0), (''pic_order_cnt_val'', JInt poc), (''timestamp_writer'', w)]"

definition public_decode :: "int \<Rightarrow> json list \<Rightarrow> json" where
  "public_decode poc entries = JObj
     [(''pic_order_cnt_val'', JInt poc), (''short_term_ref_pic_set_size'', JInt 0), (''long_term_ref_pic_set_size'', JInt
      0), (''num_active_dpb_entries'', JInt (int (length entries))), (''num_poc_st_curr_before'', JInt 0),
      (''num_poc_st_curr_after'', JInt 0), (''num_poc_lt_curr'', JInt 0), (''poc_st_curr_before'', JList (replicate 16
      (JInt 0))), (''poc_st_curr_after'', JList (replicate 16 (JInt 0))), (''poc_lt_curr'', JList (replicate 16 (JInt
      0))), (''num_delta_pocs_of_ref_rps_idx'', JInt 0), (''dpb'', JList (entries @ replicate (16 - length entries)
      (public_entry JNull 0))), (''flags'', JList [])]"

definition public_slice :: "int \<Rightarrow> int \<Rightarrow> json" where
  "public_slice poc typ = JObj
     [(''bit_size'', JInt 0), (''data_byte_offset'', JInt 0), (''num_entry_point_offsets'', JInt 0), (''nal_unit_type'',
      JInt 0), (''nuh_temporal_id_plus1'', JInt 0), (''slice_type'', JInt typ), (''colour_plane_id'', JInt 0),
      (''slice_pic_order_cnt'', JInt poc), (''num_ref_idx_l0_active_minus1'', JInt 0), (''num_ref_idx_l1_active_minus1'',
      JInt 0), (''collocated_ref_idx'', JInt 0), (''five_minus_max_num_merge_cand'', JInt 0), (''slice_qp_delta'', JInt
      0), (''slice_cb_qp_offset'', JInt 0), (''slice_cr_qp_offset'', JInt 0), (''slice_act_y_qp_offset'', JInt 0),
      (''slice_act_cb_qp_offset'', JInt 0), (''slice_act_cr_qp_offset'', JInt 0), (''slice_beta_offset_div2'', JInt 0),
      (''slice_tc_offset_div2'', JInt 0), (''pic_struct'', JInt 0), (''slice_segment_addr'', JInt 0), (''ref_idx_l0'',
      JList (replicate 16 (JInt 0))), (''ref_idx_l1'', JList (replicate 16 (JInt 0))), (''short_term_ref_pic_set_size'',
      JInt 0), (''long_term_ref_pic_set_size'', JInt 0), (''flags'', JList []), (''v4l2_hevc_pred_weight_table'', JObj
      [(''delta_luma_weight_l0'', JList (replicate 16 (JInt 0))), (''luma_offset_l0'', JList (replicate 16 (JInt 0))),
      (''delta_chroma_weight_l0'', JList (replicate 32 (JInt 0))), (''chroma_offset_l0'', JList (replicate 32 (JInt 0))),
      (''delta_luma_weight_l1'', JList (replicate 16 (JInt 0))), (''luma_offset_l1'', JList (replicate 16 (JInt 0))),
      (''delta_chroma_weight_l1'', JList (replicate 32 (JInt 0))), (''chroma_offset_l1'', JList (replicate 32 (JInt 0))),
      (''luma_log2_weight_denom'', JInt 0), (''delta_chroma_log2_weight_denom'', JInt 0)])]"

definition public_scaling :: json where
  "public_scaling = JObj (map (\<lambda>(k, f). (k, JList (replicate (case f of PayArray n _ \<Rightarrow> n | _ \<Rightarrow> 0) (JInt 0)))) PAY_SCALING)"

definition demo_row :: "int \<Rightarrow> int \<Rightarrow> int \<Rightarrow> json \<Rightarrow> json \<Rightarrow> json" where
  "demo_row i target poc sl dp = JObj
     [(''schema'', JStr ''hevc-full-controls/1''), (''picture'', JInt i), (''run'', JStr ''r''), (''target'', JInt target),
      (''poc'', JInt poc), (''submitted'', JList (map JStr [''DECODE_PARAMS'', ''PPS'', ''SCALING_MATRIX'', ''SLICE_PARAMS'', ''SPS''])),
      (''sps_from_picture'', JInt i), (''input_changes'', JList []),
      (''controls'', JObj [(''SPS'', public_control ''SPS''), (''PPS'', public_control ''PPS''),
         (''SCALING_MATRIX'', public_scaling), (''SLICE_PARAMS'', sl), (''DECODE_PARAMS'', dp)])]"

definition demo_ref :: "int \<Rightarrow> int \<Rightarrow> int \<Rightarrow> string \<Rightarrow> json list \<Rightarrow> json list \<Rightarrow> json" where
  "demo_ref i target poc letter dpb l0 = JObj
     [(''pic'', JInt i), (''run'', JStr ''r''), (''target'', JInt target), (''poc'', JInt poc), (''dpb'', JList dpb),
      (''st_before'', JList []), (''st_after'', JList []), (''lt_curr'', JList []),
      (''slices'', JList [JObj [(''type'', JStr letter), (''l0'', JList l0), (''l1'', JList [])]])]"

definition demo_rows :: "json list" where
  "demo_rows = [demo_row 1 5 0 (public_slice 0 2) (public_decode 0 []),
     demo_row 2 6 4 (public_slice 4 1) (public_decode 4 [public_entry (JInt 1) 0])]"

definition demo_refs :: "json list" where
  "demo_refs = [demo_ref 1 5 0 ''I'' [] [],
     demo_ref 2 6 4 ''P'' [JObj [(''buf'', JInt 5), (''poc'', JInt 0), (''field'', JInt 0), (''lt'', JInt 0)]] [JInt 0]]"

text \<open>Evaluated in pieces: equal payloads need not be compared by their sorted keys.\<close>

lemma check_payloadI:
  assumes "(if name = ''DECODE_PARAMS'' then map_dpb (restore_entry i) data else Inr data) = Inr raw"
    and "joined_flags True raw = Inr raw2" and "full_payload raw2 (control_key name) = Inr checked"
    and "(if name = ''DECODE_PARAMS'' then map_dpb publish_entry checked else Inr checked) = Inr data"
  shows "check_payload i (name, data) = Inr ()"
  using assms unfolding check_payload_def prod.case by simp

definition payload_same :: "nat \<Rightarrow> string \<Rightarrow> json \<Rightarrow> bool" where
  "payload_same i name data \<longleftrightarrow>
     rbind (if name = ''DECODE_PARAMS'' then map_dpb (restore_entry i) data else Inr data) (\<lambda>raw.
     rbind (joined_flags True raw) (\<lambda>raw.
     rbind (full_payload raw (control_key name)) (\<lambda>checked.
     if name = ''DECODE_PARAMS'' then map_dpb publish_entry checked else Inr checked))) = Inr data"

lemma payload_sameD: "payload_same i name data \<Longrightarrow> check_payload i (name, data) = Inr ()"
  unfolding payload_same_def by (elim rbind_InrE) (rule check_payloadI)

lemma zero_array: "pay_field_value F name (PayArray n (PayInt False 8)) (JList (replicate n (JInt 0))) = Inr (JList (replicate n (JInt 0)))"
  by (simp add: pay_field_value_def pay_value_def hc_integer_def int_in_def pay_low_def pay_high_def rmap_replicate)

lemma scaling_payload: "full_payload public_scaling (control_key ''SCALING_MATRIX'') = Inr public_scaling"
proof -
  have k: "dget PAY_SCHEMA (control_key ''SCALING_MATRIX'') = Some PAY_SCALING" by code_simp
  show ?thesis unfolding full_payload_struct pay_struct_def dsub_def k public_scaling_def
    by (simp add: PAY_SCALING_def keys_are_def zero_array)
qed

lemma scaling_same: "payload_same i ''SCALING_MATRIX'' public_scaling"
  using scaling_payload unfolding payload_same_def
  by (simp add: joined_flags_def py_in_def public_scaling_def PAY_SCALING_def py_hash_def)

lemma payload_same_other: "payload_same 1 name data \<Longrightarrow> name \<noteq> ''DECODE_PARAMS'' \<Longrightarrow> payload_same i name data"
  by (simp add: payload_same_def)

lemma demo_sps: "payload_same 1 ''SPS'' (public_control ''SPS'')"
  by code_simp

lemma demo_pps: "payload_same 1 ''PPS'' (public_control ''PPS'')"
  by code_simp

lemma demo_slice0: "payload_same 1 ''SLICE_PARAMS'' (public_slice 0 2)"
  by code_simp

lemma demo_slice1: "payload_same 2 ''SLICE_PARAMS'' (public_slice 4 1)"
  by code_simp

lemma demo_decode0: "payload_same 1 ''DECODE_PARAMS'' (public_decode 0 [])"
  by code_simp

lemma demo_decode1: "payload_same 2 ''DECODE_PARAMS'' (public_decode 4 [public_entry (JInt 1) 0])"
  by code_simp

lemma demo_row_ok:
  assumes "check_payload i (''SLICE_PARAMS'', sl) = Inr ()" and "check_payload i (''DECODE_PARAMS'', dp) = Inr ()"
    and "check_dpb rows ws (demo_row (int i) target poc sl dp) (demo_ref (int i) target poc letter dpb l0) dp sl = Inr ()"
    and "rall (check_rps (demo_ref (int i) target poc letter dpb l0) dp) [(''st_before'', ''st_curr_before''),
       (''st_after'', ''st_curr_after''), (''lt_curr'', ''lt_curr'')] = Inr ()"
    and "logical_lists (demo_ref (int i) target poc letter dpb l0) dp sl = Inr ls"
  shows "check_row (JStr ''r'') rows (i, demo_row (int i) target poc sl dp, demo_ref (int i) target poc letter dpb l0) (ws, lg) =
    Inr (set_writer (JInt target) i ws, lg @ [ls])"
proof -
  let ?names = "map JStr [''DECODE_PARAMS'', ''PPS'', ''SCALING_MATRIX'', ''SLICE_PARAMS'', ''SPS'']"
  let ?keys = "map JStr [''SPS'', ''PPS'', ''SCALING_MATRIX'', ''SLICE_PARAMS'', ''DECODE_PARAMS'']"
  have pay: "check_payload i (''SPS'', public_control ''SPS'') = Inr ()" "check_payload i (''PPS'', public_control ''PPS'') = Inr ()"
    "check_payload i (''SCALING_MATRIX'', public_scaling) = Inr ()"
    by (rule payload_sameD, rule payload_same_other, rule demo_sps demo_pps scaling_same, simp)+
  have dedup: "py_dedup ?names [] = ?names" "py_dedup ?keys [] = ?keys" "rall py_hash ?names = Inr ()" "rall py_hash ?keys = Inr ()"
    "py_sorted ?names = Inr ?names" "names_are ?keys (map fst FULL_SIZES)"
    "list_all (\<lambda>x. list_ex (py_eq x) ?keys) ?names" "superset_names ?names [''PPS'', ''DECODE_PARAMS'', ''SLICE_PARAMS'', ''SCALING_MATRIX'']"
    "list_ex (py_eq (JStr ''SPS'')) ?names"
    by code_simp+
  show ?thesis
    using assms pay dedup
    by (simp only: check_row_def prod.case) (simp add: demo_row_def demo_ref_def check_submitted_def sub_def py_set_def
        py_iter_def require_and_def eq_sub_def eq_subs_def py_in_def py_hash_def)
qed

lemma demo_parts0:
  "check_dpb rows [] (demo_row 1 5 0 (public_slice 0 2) (public_decode 0 [])) (demo_ref 1 5 0 ''I'' [] [])
     (public_decode 0 []) (public_slice 0 2) = Inr ()"
  "rall (check_rps (demo_ref 1 5 0 ''I'' [] []) (public_decode 0 [])) [(''st_before'', ''st_curr_before''),
       (''st_after'', ''st_curr_after''), (''lt_curr'', ''lt_curr'')] = Inr ()"
  "logical_lists (demo_ref 1 5 0 ''I'' [] []) (public_decode 0 []) (public_slice 0 2) = Inr ([], [])"
  by (simp_all add: check_dpb_def check_rps_def logical_lists_def logical_list_def demo_row_def demo_ref_def public_decode_def
      public_slice_def public_entry_def sub_def require_and_def eq_sub_def eq_subs_def py_len_def py_iter_def py_take_def
      py_first_def int_value_def check_dpb_slot_def slice_letter_def numeral_eq_Suc upt_rec)

lemma demo_parts1:
  "check_dpb demo_rows [(JInt 5, 1)] (demo_row 2 6 4 (public_slice 4 1) (public_decode 4 [public_entry (JInt 1) 0])) (demo_refs ! 1)
     (public_decode 4 [public_entry (JInt 1) 0]) (public_slice 4 1) = Inr ()"
  "rall (check_rps (demo_refs ! 1) (public_decode 4 [public_entry (JInt 1) 0])) [(''st_before'', ''st_curr_before''),
       (''st_after'', ''st_curr_after''), (''lt_curr'', ''lt_curr'')] = Inr ()"
  "logical_lists (demo_refs ! 1) (public_decode 4 [public_entry (JInt 1) 0]) (public_slice 4 1) = Inr ([JInt 1], [])"
  by (simp_all add: check_dpb_def check_rps_def logical_lists_def logical_list_def demo_row_def demo_ref_def public_decode_def
      public_slice_def public_entry_def sub_def require_and_def eq_sub_def eq_subs_def py_len_def py_iter_def py_take_def
      py_first_def int_value_def check_dpb_slot_def slice_letter_def numeral_eq_Suc upt_rec demo_refs_def demo_rows_def
      row_writer_def py_hash_def py_at_def list_index_def index_of_def)

lemma demo_rows_accepted: "check_rows demo_rows demo_refs (JStr ''r'') = Inr ([(JInt 5, 1), (JInt 6, 2)], [([], []), ([JInt 1], [])])"
proof -
  let ?r0 = "demo_row 1 5 0 (public_slice 0 2) (public_decode 0 [])"
  let ?r1 = "demo_row 2 6 4 (public_slice 4 1) (public_decode 4 [public_entry (JInt 1) 0])"
  let ?f1 = "demo_ref 2 6 4 ''P'' [JObj [(''buf'', JInt 5), (''poc'', JInt 0), (''field'', JInt 0), (''lt'', JInt 0)]] [JInt 0]"
  have f1: "demo_refs ! 1 = ?f1" by (simp add: demo_refs_def)
  note row0 = demo_row_ok [where i = 1, unfolded of_nat_1, OF payload_sameD [OF demo_slice0] payload_sameD [OF demo_decode0] demo_parts0]
  note row1 = demo_row_ok [where i = 2, unfolded of_nat_numeral, OF payload_sameD [OF demo_slice1]
      payload_sameD [OF demo_decode1] demo_parts1 [unfolded f1]]
  have xs: "zip [1..<Suc (length demo_rows)] (zip demo_rows demo_refs) =
      [(1, ?r0, demo_ref 1 5 0 ''I'' [] []), (2, ?r1, ?f1)]"
    by (simp add: demo_rows_def demo_refs_def numeral_2_eq_2)
  have w: "set_writer (JInt 5) 1 [] = [(JInt 5, 1)]" "set_writer (JInt 6) 2 [(JInt 5, 1)] = [(JInt 5, 1), (JInt 6, 2)]"
    by (simp_all add: set_writer_def)
  show ?thesis unfolding check_rows_def xs rfold.simps row0 rbind_simps append_Nil w(1) row1 w(2) append_Cons ..
qed

theorem control_writers_latest_witness:
  "\<exists>ents. check_rows demo_rows demo_refs (JStr ''r'') = Inr ([(JInt 5, 1), (JInt 6, 2)], [([], []), ([JInt 1], [])]) \<and>
     jfield (public_decode 4 [public_entry (JInt 1) 0]) ''dpb'' = JList ents \<and> jfield (ents ! 0) ''timestamp_writer'' = JInt 1"
proof -
  have len: "length demo_refs = length demo_rows" "1 < length demo_rows" by (simp_all add: demo_refs_def demo_rows_def)
  have dp: "public_decode 4 [public_entry (JInt 1) 0] = jfield (jfield (demo_rows ! 1) ''controls'') ''DECODE_PARAMS''"
    by (simp add: demo_rows_def demo_row_def jfield_def jv_def)
  have n: "jfield (public_decode 4 [public_entry (JInt 1) 0]) ''num_active_dpb_entries'' = JInt 1"
    by (simp add: public_decode_def jfield_def jv_def)
  obtain ents where ents: "jfield (public_decode 4 [public_entry (JInt 1) 0]) ''dpb'' = JList ents"
    and w: "\<exists>w. jfield (ents ! 0) ''timestamp_writer'' = JInt (int w) \<and> 1 \<le> w \<and> w \<le> 1"
    using control_writers_latest [OF demo_rows_accepted len dp] n by fastforce
  from w have "jfield (ents ! 0) ''timestamp_writer'' = JInt 1" by (metis le_antisym of_nat_1)
  with ents demo_rows_accepted show ?thesis by blast
qed

end
