(* ===== verification/Full_Adapter.thy ===== *)
theory Full_Adapter
  imports Full_Controls
begin

text \<open>
  The adapter for complete control payloads, \<open>src/experiments/hevc-full-controls/normalize.py\<close>: \<open>full_normalize\<close>
  renames timestamps to logical writers, collects the control sets and runs the lifecycle adapter on
  the renamed events.

  The code works on a deep copy of the events and changes buffers and controls in place; a step here
  returns the changed event, or none when the event is left out. The dicts that \<^verbatim>\<open>pending\<close> and
  \<^verbatim>\<open>out_buffers\<close> share are objects in the store \<open>fs_objs\<close>. Records and control sets are returned as
  the JSON values that the code builds.
\<close>

subsection \<open>The renaming walk\<close>

record pend =
  pd_raw :: int
  pd_token :: int
  pd_out :: bool
  pd_cap :: bool

record full_state =
  fs_objs :: "pend list"
  fs_pending :: "(int, nat) dict"
  fs_out_buffers :: "(int, nat) dict"
  fs_completed :: "(int, int \<times> int) dict"
  fs_sets :: "(string, json) dict list"
  fs_requested :: "(int, string list) dict"
  fs_originals :: "(int, (string, json) dict) dict"
  fs_changes :: "(int, json list) dict"
  fs_raw_stamps :: "int list"
  fs_seq :: nat
  fs_queued :: nat

definition full_init :: full_state where
  "full_init = \<lparr>fs_objs = [], fs_pending = [], fs_out_buffers = [], fs_completed = [], fs_sets = [], fs_requested = [],
     fs_originals = [], fs_changes = [], fs_raw_stamps = [], fs_seq = 0, fs_queued = 0\<rparr>"

definition REQUEST_VAL :: json where "REQUEST_VAL = JStr ''V4L2_CTRL_WHICH_REQUEST_VAL''"
definition CUR_VAL :: json where "CUR_VAL = JStr ''V4L2_CTRL_WHICH_CUR_VAL''"

text \<open>\<^verbatim>\<open>e[direction][key] = value\<close> for arguments that were just read.\<close>

definition put_arguments :: "tr_event \<Rightarrow> string \<Rightarrow> string \<Rightarrow> tr_event \<Rightarrow> tr_event" where
  "put_arguments e direction key x = (case dget e direction of
     Some (JObj d) \<Rightarrow> dset direction (JObj (dset key (JObj x) d)) e | _ \<Rightarrow> e)"

definition set_timestamp :: "tr_event \<Rightarrow> int \<Rightarrow> tr_event" where
  "set_timestamp buf token =
     dset ''timestamp'' (JObj [(''tv_sec'', JInt (token div 1000000000)), (''tv_usec'', JInt ((token div 1000) mod 1000000))])
       (dset ''timestamp_ns'' (JInt token) buf)"

text \<open>The tokens of the writers, completed or pending, that had this timestamp.\<close>

definition writer_tokens :: "full_state \<Rightarrow> json \<Rightarrow> int list" where
  "writer_tokens st ts = remdups
     (map snd (filter (\<lambda>(raw, _). py_eq (JInt raw) ts)
       (map snd (fs_completed st) @ map (\<lambda>(_, i). (pd_raw (fs_objs st ! i), pd_token (fs_objs st ! i))) (fs_pending st))))"

definition rename_entry :: "full_state \<Rightarrow> int \<Rightarrow> nat \<times> json \<times> json \<Rightarrow> (json \<times> json) py" where
  "rename_entry st n = (\<lambda>(i, ent, out).
     rbind (if int i < n
            then rbind (sub ent ''timestamp'') (\<lambda>ts. case writer_tokens st ts of
                   [t] \<Rightarrow> Inr t | _ \<Rightarrow> Inl (Reject ''unknown/ambiguous timestamp writer at control submission''))
            else Inr 0) (\<lambda>token.
     rbind (py_put ent (JStr ''timestamp'') (JInt token)) (\<lambda>ent'.
     case out of
       JObj d \<Rightarrow> rbind (dsub d ''timestamp'') (\<lambda>_. Inr (ent',
         JObj (dset ''timestamp_writer'' (if int i < n then JInt (token div 1000) else JNull) (ddel ''timestamp'' d))))
     | _ \<Rightarrow> Inl AttributeError)))"

definition rename_dpb :: "full_state \<Rightarrow> json \<Rightarrow> json \<Rightarrow> (json \<times> json) py" where
  "rename_dpb st dp orig =
     rbind (rbind (sub dp ''num_active_dpb_entries'') (hc_integer 0 16)) (\<lambda>n.
     rbind (rbind (sub dp ''dpb'') py_iter) (\<lambda>ents.
     rbind (rbind (sub orig ''dpb'') py_iter) (\<lambda>outs.
     rbind (rmap (rename_entry st n) (zip [0..<length ents] (zip ents outs))) (\<lambda>pairs.
     rbind (py_put dp (JStr ''dpb'') (JList (map fst pairs))) (\<lambda>dp'.
     rbind (py_put orig (JStr ''dpb'') (JList (map snd pairs))) (\<lambda>orig'.
     Inr (dp', orig')))))))"

text \<open>One control of a request: (collected payloads, recorded changes, the controls of the renamed event).\<close>

definition full_control ::
  "full_state \<Rightarrow> (string, tr_event) dict \<Rightarrow> string \<times> tr_event \<Rightarrow>
     (string, json) dict \<times> json list \<times> json list \<Rightarrow> ((string, json) dict \<times> json list \<times> json list) py" where
  "full_control st before_cs = (\<lambda>(cid, c) (original, changes, items).
     let name = drop (length CID) cid; key = control_key name in
     rbind (rbind (dsub c ''size'') hc_u32) (\<lambda>sz.
     rbind (rbind (dsub before_cs cid) (\<lambda>b. rbind (dsub b ''size'') hc_u32)) (\<lambda>bsz.
     rbind (require (sz = bsz \<and> Some bsz = dget FULL_SIZES name) ''unsupported dynamic extent'') (\<lambda>_.
     rbind (dsub c key) (\<lambda>v.
     rbind (full_payload v key) (\<lambda>orig.
     rbind (rbind (dsub before_cs cid) (\<lambda>b. rbind (dsub b key) (\<lambda>w. full_payload w key))) (\<lambda>before.
     rbind (if name = ''SLICE_PARAMS''
            then require_and [eq_subs v ''num_entry_point_offsets'' before ''num_entry_point_offsets'',
                   eq_sub before ''num_entry_point_offsets'' (JInt 0)] ''entry points not captured by this contract''
            else Inr ()) (\<lambda>_.
     rbind (if name = ''DECODE_PARAMS''
            then rbind (require (py_eq before orig) ''unexpected kernel reference correction'') (\<lambda>_.
                 rbind (rename_dpb st v orig) (\<lambda>(v', orig'). Inr (v', orig', orig')))
            else Inr (v, orig, before)) (\<lambda>(v', orig', before').
     rbind (case orig' of JObj d \<Rightarrow> Inr d | _ \<Rightarrow> Inl AttributeError) (\<lambda>items_of.
     rbind (rmap (\<lambda>(field, x). rbind (sub before' field) (\<lambda>b. Inr (field, b, x))) items_of) (\<lambda>triples.
     Inr (dset name orig' original,
          changes @ map (\<lambda>(field, b, x). JObj [(''control'', JStr name), (''field'', JStr field), (''submitted'', b), (''returned'', x)])
            (filter (\<lambda>(_, b, x). \<not> py_eq b x) triples),
          items @ [JObj (dset key v' c)]))))))))))))"

definition full_controls_step :: "tr_event \<Rightarrow> full_state \<Rightarrow> (full_state \<times> tr_event option) py" where
  "full_controls_step e st =
     rbind (require (\<not> dhas e ''errno'') ''control submission failed'') (\<lambda>_.
     rbind (ext_controls e) (\<lambda>(ext, cs0).
     rbind (dsub ext ''which'') (\<lambda>which.
     if which \<noteq> REQUEST_VAL
     then rbind (require (which = CUR_VAL \<and> fs_seq st = 0 \<and> fs_queued st = 0) ''current controls changed during decode'') (\<lambda>_.
          Inr (st, None))
     else
       rbind (rbind (dsub ext ''request_fd'') hc_u32) (\<lambda>reqfd.
       rbind (dsub e ''from_driver'') (\<lambda>drv.
       rbind (ext_controls [(''from_userspace'', drv)]) (\<lambda>(rext, rcs).
       rbind (require_and [rbind (dsub rext ''which'') (\<lambda>w. Inr (py_eq w which)),
         rbind (dsub rext ''request_fd'') (\<lambda>r. Inr (py_eq r (JInt reqfd))),
         Inr (set (map fst rcs) = set (map fst cs0))] ''returned control identity mismatch'') (\<lambda>_.
       rbind (dsub rext ''controls'') (\<lambda>returned.
       let ext1 = dset ''controls'' returned ext in
       rbind (ext_controls (put_arguments e ''from_userspace'' ''v4l2_ext_controls'' ext1)) (\<lambda>(_, cs).
       rbind (require (list_all (\<lambda>(cid, _). list_ex (\<lambda>(n, _). cid = CID @ n) FULL_SIZES) cs) ''unsupported control'') (\<lambda>_.
       let seen = (case dget (fs_requested st) reqfd of Some ks \<Rightarrow> ks | None \<Rightarrow> []) in
       rbind (require (\<not> list_ex (\<lambda>(cid, _). cid \<in> set seen) cs) ''duplicate request control'') (\<lambda>_.
       rbind (rfold (full_control st cs0) cs
         (case dget (fs_originals st) reqfd of Some d \<Rightarrow> d | None \<Rightarrow> [],
          case dget (fs_changes st) reqfd of Some d \<Rightarrow> d | None \<Rightarrow> [], [])) (\<lambda>(original, changes, items).
       Inr (st\<lparr>fs_requested := dset reqfd (seen @ map fst cs) (fs_requested st),
               fs_originals := dset reqfd original (fs_originals st), fs_changes := dset reqfd changes (fs_changes st)\<rparr>,
            Some (put_arguments e ''from_userspace'' ''v4l2_ext_controls'' (dset ''controls'' (JList items) ext1)))))))))))))))"

definition full_qbuf :: "tr_event \<Rightarrow> full_state \<Rightarrow> (full_state \<times> tr_event option) py" where
  "full_qbuf e st =
     rbind (arguments e ''from_userspace'' ''v4l2_buffer'') (\<lambda>b.
     rbind (dsub b ''type'') (\<lambda>kind.
     if kind \<noteq> OUT_TYPE then Inr (st, Some e)
     else
       rbind (hc_timestamp b) (\<lambda>raw.
       rbind (rbind (dsub b ''index'') hc_u32) (\<lambda>bi.
       rbind (require (\<not> dhas (fs_pending st) raw \<and> \<not> dhas (fs_out_buffers st) bi) ''timestamp/output reused while pending'') (\<lambda>_.
       let sq = fs_seq st + 1; i = length (fs_objs st); token = int sq * 1000 in
       Inr (st\<lparr>fs_seq := sq, fs_raw_stamps := fs_raw_stamps st @ [raw],
               fs_objs := fs_objs st @ [\<lparr>pd_raw = raw, pd_token = token, pd_out = False, pd_cap = False\<rparr>],
               fs_pending := dset raw i (fs_pending st), fs_out_buffers := dset bi i (fs_out_buffers st)\<rparr>,
            Some (put_arguments e ''from_userspace'' ''v4l2_buffer'' (set_timestamp b token))))))))"

definition full_dqbuf :: "tr_event \<Rightarrow> full_state \<Rightarrow> (full_state \<times> tr_event option) py" where
  "full_dqbuf e st =
     rbind (arguments e ''from_driver'' ''v4l2_buffer'') (\<lambda>b.
     rbind (hc_timestamp b) (\<lambda>raw.
     rbind (case dget (fs_pending st) raw of None \<Rightarrow> Inl (Reject ''orphan completion'') | Some i \<Rightarrow> Inr i) (\<lambda>i.
     let p = fs_objs st ! i in
     rbind (rbind (dsub b ''index'') hc_u32) (\<lambda>bi.
     rbind (dsub b ''type'') (\<lambda>kind.
     rbind (if kind = OUT_TYPE
            then rbind (require (\<not> pd_out p \<and> dget (fs_out_buffers st) bi = Some i) ''wrong OUTPUT completion'') (\<lambda>_.
                 Inr (st\<lparr>fs_out_buffers := ddel bi (fs_out_buffers st), fs_objs := (fs_objs st)[i := p\<lparr>pd_out := True\<rparr>]\<rparr>))
            else if kind = CAP_TYPE
            then rbind (require (\<not> pd_cap p) ''duplicate CAPTURE completion'') (\<lambda>_.
                 Inr (st\<lparr>fs_completed := dset bi (raw, pd_token p) (fs_completed st), fs_objs := (fs_objs st)[i := p\<lparr>pd_cap := True\<rparr>]\<rparr>))
            else Inl (Reject ''unsupported queue'')) (\<lambda>st1.
     let q = fs_objs st1 ! i in
     Inr (if pd_out q \<and> pd_cap q then st1\<lparr>fs_pending := ddel raw (fs_pending st1)\<rparr> else st1,
          Some (put_arguments e ''from_driver'' ''v4l2_buffer'' (set_timestamp b (pd_token p))))))))))"

definition full_streamoff :: "json \<Rightarrow> tr_event \<Rightarrow> full_state \<Rightarrow> (full_state \<times> tr_event option) py" where
  "full_streamoff expected e st =
     rbind (require (\<not> dhas e ''errno'' \<and> py_eq (JInt (int (fs_queued st))) expected \<and>
       list_all (\<lambda>(_, i). pd_cap (fs_objs st ! i)) (fs_pending st)) ''stream stopped with missing capture'') (\<lambda>_.
     rbind (streamoff_output e) (\<lambda>out.
     Inr (if out then st\<lparr>fs_pending := [], fs_out_buffers := []\<rparr> else st, Some e)))"

definition full_queue :: "tr_event \<Rightarrow> full_state \<Rightarrow> (full_state \<times> tr_event option) py" where
  "full_queue e st =
     rbind (rbind (dsub e ''fd'') hc_u32) (\<lambda>reqfd.
     rbind (case dget (fs_originals st) reqfd of None \<Rightarrow> Inl (Reject ''orphan request queue'') | Some cs \<Rightarrow> Inr cs) (\<lambda>cs.
     rbind (require (list_all (dhas cs) [''PPS'', ''DECODE_PARAMS'', ''SCALING_MATRIX'', ''SLICE_PARAMS'']) ''missing per-request controls'') (\<lambda>_.
     let submitted = sort (map fst cs) in
     rbind (if dhas cs ''SPS'' then Inr (JInt (int (fs_queued st) + 1), cs)
            else if fs_sets st = [] then Inl (Reject ''first request SPS missing'')
            else (let lst = last (fs_sets st) in
              Inr (jv lst ''sps_from_picture'', dset ''SPS'' (jfield (jv lst ''controls'') ''SPS'') cs))) (\<lambda>(sps_from, cs').
     let row = [(''picture'', JInt (int (fs_queued st) + 1)), (''submitted'', JList (map JStr submitted)),
                (''sps_from_picture'', sps_from), (''controls'', JObj cs'),
                (''input_changes'', JList (case dget (fs_changes st) reqfd of Some l \<Rightarrow> l | None \<Rightarrow> []))] in
     Inr (st\<lparr>fs_queued := fs_queued st + 1, fs_sets := fs_sets st @ [row], fs_originals := ddel reqfd (fs_originals st),
             fs_requested := ddel reqfd (fs_requested st), fs_changes := ddel reqfd (fs_changes st)\<rparr>, Some e)))))"

definition full_step :: "int \<Rightarrow> json \<Rightarrow> tr_event \<Rightarrow> full_state \<times> tr_event list \<Rightarrow> (full_state \<times> tr_event list) py" where
  "full_step fd expected e = (\<lambda>(st, selected).
     let op = jv e ''ioctl''; mine = py_eq (jv e ''fd'') (JInt fd) in
     rbind (if op = JStr ''VIDIOC_S_EXT_CTRLS'' \<and> mine then full_controls_step e st
            else if op = JStr ''VIDIOC_QBUF'' \<and> mine \<and> \<not> dhas e ''errno'' then full_qbuf e st
            else if op = JStr ''VIDIOC_DQBUF'' \<and> mine \<and> \<not> dhas e ''errno'' then full_dqbuf e st
            else if op = JStr ''VIDIOC_STREAMOFF'' \<and> mine then full_streamoff expected e st
            else if op = JStr ''MEDIA_REQUEST_IOC_QUEUE'' then full_queue e st
            else Inr (st, Some e)) (\<lambda>(st', e').
     Inr (st', selected @ (case e' of None \<Rightarrow> [] | Some x \<Rightarrow> [x]))))"

subsection \<open>Records and control sets\<close>

definition dpb_json :: "dpb_rec \<Rightarrow> json" where
  "dpb_json d = JObj [(''i'', JInt (int (dr_i d))), (''buf'', JInt (dr_buf d)), (''poc'', JInt (dr_poc d)), (''lt'', JInt (dr_lt d)),
     (''field'', JInt (dr_field d))]"

definition slice_json :: "slice_rec \<Rightarrow> json" where
  "slice_json s = JObj ([(''i'', JInt 0), (''type'', JStr (sr_type s)), (''nal'', JInt (sr_nal s)), (''l0'', JList (map JInt (sr_l0 s))),
     (''l1'', JList (map JInt (sr_l1 s))), (''tmvp'', JInt (of_bool (sr_tmvp s)))] @
     (if sr_tmvp s then [(''col_l0'', JInt (of_bool (sr_col_l0 s))), (''col'', JInt (sr_col s))] else []))"

definition record_json :: "ref_record \<Rightarrow> json" where
  "record_json r = (let pic = JInt (int (rr_pic r)) in
     JObj [(''schema'', JStr HC_SCHEMA), (''run'', JStr (rr_run r)), (''seq'', pic), (''ctx'', JInt 1), (''va_context'', JStr ''direct-v4l2''),
       (''pic'', pic), (''req'', pic), (''first'', JInt 1), (''last'', JInt 1), (''target'', JInt (rr_target r)), (''poc'', JInt (rr_poc r)),
       (''irap'', JInt (of_bool (rr_irap r))), (''idr'', JInt (of_bool (rr_idr r))), (''ltr_sps'', JInt (of_bool (rr_ltr_sps r))),
       (''reorder'', JInt 0), (''total_curr'', JInt (int (rr_total_curr r))), (''dpb'', JList (map dpb_json (rr_dpb r))),
       (''slices'', JList [slice_json (rr_slice r)]), (''st_before'', JList (map JInt (rr_st_before r))),
       (''st_after'', JList (map JInt (rr_st_after r))), (''lt_curr'', JList (map JInt (rr_lt_curr r)))])"

definition relabel :: "association \<times> int \<Rightarrow> association py" where
  "relabel = (\<lambda>(pic, raw).
     rbind (require (as_system_frame_number pic = int (as_pic pic)) ''request queue differs from output submission order'') (\<lambda>_.
     Inr (pic\<lparr>as_system_frame_number := raw div 1000\<rparr>)))"

definition bound_entry :: "ref_record list \<Rightarrow> ref_record \<Rightarrow> (string, json) dict \<Rightarrow> nat \<times> json \<Rightarrow> unit py" where
  "bound_entry refs ref row = (\<lambda>(i, ent).
     if i \<ge> length (rr_dpb ref) then Inr ()
     else rbind (rbind (sub ent ''timestamp_writer'') int_value) (\<lambda>writer.
          require_and [Inr (1 \<le> writer \<and> writer < jint row ''picture''),
            if nat (writer - 1) < length refs then Inr (rr_target (refs ! nat (writer - 1)) = dr_buf (rr_dpb ref ! i))
            else Inl IndexError] ''logical writer differs from lifecycle association''))"

definition bound_set :: "json \<Rightarrow> ref_record list \<Rightarrow> (string, json) dict \<times> ref_record \<Rightarrow> json py" where
  "bound_set run refs = (\<lambda>(row, ref).
     rbind (rbind (rbind (sub (jv row ''controls'') ''DECODE_PARAMS'') (\<lambda>dp. sub dp ''dpb'')) py_iter) (\<lambda>ents.
     rbind (rall (bound_entry refs ref row) (zip [0..<length ents] ents)) (\<lambda>_.
     Inr (JObj (row @ [(''schema'', JStr ''hevc-full-controls/1''), (''run'', run), (''target'', JInt (rr_target ref)),
       (''poc'', JInt (rr_poc ref))])))))"

text \<open>The events that submit decode parameters with a request.\<close>

definition request_event :: "tr_event \<Rightarrow> tr_event list \<Rightarrow> tr_event list py" where
  "request_event e acc =
     (if jv e ''ioctl'' \<noteq> JStr ''VIDIOC_S_EXT_CTRLS'' then Inr acc
      else rbind (ext_controls e) (\<lambda>(ext, cs).
           rbind (dsub ext ''which'') (\<lambda>which.
           Inr (if which = REQUEST_VAL \<and> dhas cs (CID @ ''DECODE_PARAMS'') then acc @ [e] else acc))))"

definition decoding_fd :: "tr_event list \<Rightarrow> int py" where
  "decoding_fd events =
     rbind (rfold request_event events []) (\<lambda>es.
     rbind (require_and [Inr (es \<noteq> []), rbind (rmap (\<lambda>e. dsub e ''fd'') es) (\<lambda>fds. rbind (rall py_hash fds) (\<lambda>_.
       Inr (length (py_dedup fds []) = 1)))] ''missing/multiple decoding contexts'') (\<lambda>_.
     rbind (dsub (hd es) ''fd'') hc_u32))"

definition full_normalize :: "tr_event list \<Rightarrow> json \<Rightarrow> json \<Rightarrow> (json list \<times> ref_record list \<times> association list) py" where
  "full_normalize events expected run =
     rbind (decoding_fd events) (\<lambda>fd.
     rbind (rfold (full_step fd expected) events (full_init, [])) (\<lambda>(st, selected).
     rbind (require (fs_seq st = fs_queued st \<and> py_eq (JInt (int (fs_queued st))) expected \<and> fs_pending st = [] \<and>
       fs_out_buffers st = [] \<and> fs_originals st = []) ''incomplete request/completion history'') (\<lambda>_.
     rbind (lifecycle_normalize selected expected run) (\<lambda>(refs, pictures).
     rbind (rmap relabel (zip pictures (fs_raw_stamps st))) (\<lambda>pictures'.
     rbind (rmap (bound_set run refs) (zip (fs_sets st) refs)) (\<lambda>rows.
     Inr (rows, refs, pictures' @ drop (length (fs_raw_stamps st)) pictures)))))))"

subsection \<open>Control sets are bound to the reference records\<close>

lemma bound_set_Inr:
  assumes "bound_set run refs (row, ref) = Inr v"
  obtains ents where "py_iter (jfield (jfield (jv row ''controls'') ''DECODE_PARAMS'') ''dpb'') = Inr ents"
    "rall (bound_entry refs ref row) (zip [0..<length ents] ents) = Inr ()"
    "v = JObj (row @ [(''schema'', JStr ''hevc-full-controls/1''), (''run'', run), (''target'', JInt (rr_target ref)),
       (''poc'', JInt (rr_poc ref))])"
  using assms unfolding bound_set_def prod.case
  by (elim rbind_InrE) (auto dest!: sub_jfield)

lemma bound_entry_Inr:
  assumes "bound_entry refs ref row (i, ent) = Inr u" and "i < length (rr_dpb ref)"
  obtains w where "jfield ent ''timestamp_writer'' = JInt (int w)" "1 \<le> w" "int w < jint row ''picture''"
    "rr_target (refs ! (w - 1)) = dr_buf (rr_dpb ref ! i)"
proof -
  obtain x where x: "sub ent ''timestamp_writer'' = Inr (JInt x)" "1 \<le> x" "x < jint row ''picture''"
    "rr_target (refs ! nat (x - 1)) = dr_buf (rr_dpb ref ! i)"
    using assms by (auto simp: bound_entry_def rbind_Inr require_and_Inr int_value_Inr split: if_splits)
  then have "nat (x - 1) = nat x - 1" by (simp add: nat_diff_distrib)
  then show ?thesis using that [of "nat x"] x sub_jfield [OF x(1)] by simp
qed

text \<open>The rows of the walk are numbered in queueing order.\<close>

definition rows_numbered :: "full_state \<times> tr_event list \<Rightarrow> bool" where
  "rows_numbered s \<longleftrightarrow> fs_queued (fst s) = length (fs_sets (fst s)) \<and>
     (\<forall>k < length (fs_sets (fst s)). dget (fs_sets (fst s) ! k) ''picture'' = Some (JInt (int k + 1)) \<and>
        (\<forall>key \<in> {''schema'', ''run'', ''target'', ''poc''}. dget (fs_sets (fst s) ! k) key = None))"

lemma full_step_sets:
  assumes "full_step fd expected e (st, sel) = Inr (st', sel')"
  shows "(fs_queued st' = fs_queued st \<and> fs_sets st' = fs_sets st) \<or>
    (\<exists>row. fs_queued st' = fs_queued st + 1 \<and> fs_sets st' = fs_sets st @ [row] \<and>
       dget row ''picture'' = Some (JInt (int (fs_queued st) + 1)) \<and>
       (\<forall>key \<in> {''schema'', ''run'', ''target'', ''poc''}. dget row key = None))"
proof -
  have c: "fs_queued st' = fs_queued st \<and> fs_sets st' = fs_sets st" if "full_controls_step e st = Inr (st', x)" for x
    using that unfolding full_controls_step_def
    by (auto elim!: rbind_InrE simp: Let_def split: if_splits prod.splits)
  have q: "fs_queued st' = fs_queued st \<and> fs_sets st' = fs_sets st" if "full_qbuf e st = Inr (st', x)" for x
    using that unfolding full_qbuf_def by (auto elim!: rbind_InrE simp: Let_def split: if_splits)
  have d: "fs_queued st' = fs_queued st \<and> fs_sets st' = fs_sets st" if "full_dqbuf e st = Inr (st', x)" for x
    using that unfolding full_dqbuf_def by (auto elim!: rbind_InrE simp: Let_def split: if_splits)
  have o: "fs_queued st' = fs_queued st \<and> fs_sets st' = fs_sets st" if "full_streamoff expected e st = Inr (st', x)" for x
    using that unfolding full_streamoff_def by (auto elim!: rbind_InrE split: if_splits)
  have r: "\<exists>row. fs_queued st' = fs_queued st + 1 \<and> fs_sets st' = fs_sets st @ [row] \<and>
       dget row ''picture'' = Some (JInt (int (fs_queued st) + 1)) \<and>
       (\<forall>key \<in> {''schema'', ''run'', ''target'', ''poc''}. dget row key = None)" if "full_queue e st = Inr (st', x)" for x
    using that unfolding full_queue_def by (auto elim!: rbind_InrE simp: Let_def split: prod.splits)
  show ?thesis using assms c q d o r unfolding full_step_def prod.case Let_def
    by (auto elim!: rbind_InrE split: if_splits prod.splits)
qed

lemma full_walk_numbered:
  assumes "rfold (full_step fd expected) events (full_init, []) = Inr s"
  shows "rows_numbered s"
  using assms
proof (rule rfold_invariant)
  show "rows_numbered (full_init, [])" by (simp add: rows_numbered_def full_init_def)
next
  fix e s s' assume inv: "rows_numbered s" and step: "full_step fd expected e s = Inr s'"
  obtain st sel st' sel' where s: "s = (st, sel)" "s' = (st', sel')" by (cases s; cases s')
  from full_step_sets [OF step [unfolded s]] inv show "rows_numbered s'"
    by (auto simp: s rows_numbered_def nth_append less_Suc_eq)
qed

text \<open>
  C32. The control sets that the full adapter returns are bound to its reference records: there is one
  row per record, numbered in order, with the record's target and order count; in every row each active
  DPB entry names an earlier picture whose record has the entry's buffer as its target; and the records
  themselves resolve as those of the lifecycle adapter do, each entry to the latest earlier writer of its
  buffer with the stated order count.
\<close>
theorem full_controls_bound:
  assumes "full_normalize events expected run = Inr (rows, refs, pics)"
  shows "length rows = length refs \<and> expected = JInt (int (length refs)) \<and>
    (\<forall>k < length refs. record_resolves (take k refs) (refs ! k) \<and> jfield (rows ! k) ''picture'' = JInt (int k + 1) \<and>
       jfield (rows ! k) ''target'' = JInt (rr_target (refs ! k)) \<and> jfield (rows ! k) ''poc'' = JInt (rr_poc (refs ! k)) \<and>
       (\<exists>ents. py_iter (jfield (jfield (jfield (rows ! k) ''controls'') ''DECODE_PARAMS'') ''dpb'') = Inr ents \<and>
          (\<forall>i < min (length ents) (length (rr_dpb (refs ! k))). \<exists>w. jfield (ents ! i) ''timestamp_writer'' = JInt (int w) \<and>
             1 \<le> w \<and> w \<le> k \<and> rr_target (refs ! (w - 1)) = dr_buf (rr_dpb (refs ! k) ! i))))"
proof -
  obtain fd st sel pics0 pics1 where walk: "rfold (full_step fd expected) events (full_init, []) = Inr (st, sel)"
    and q: "py_eq (JInt (int (fs_queued st))) expected"
    and life: "lifecycle_normalize sel expected run = Inr (refs, pics0)"
    and rows: "rmap (bound_set run refs) (zip (fs_sets st) refs) = Inr rows"
    using assms unfolding full_normalize_def
    by (auto elim!: rbind_InrE simp: require_Inr split: prod.splits)
  have num: "fs_queued st = length (fs_sets st)"
    "\<And>k. k < length (fs_sets st) \<Longrightarrow> dget (fs_sets st ! k) ''picture'' = Some (JInt (int k + 1)) \<and>
       (\<forall>key \<in> {''schema'', ''run'', ''target'', ''poc''}. dget (fs_sets st ! k) key = None)"
    using full_walk_numbered [OF walk] by (auto simp: rows_numbered_def)
  have res: "expected = JInt (int (length refs))" "\<And>k. k < length refs \<Longrightarrow> record_resolves (take k refs) (refs ! k)"
    using normalize_with_resolves [OF life [unfolded lifecycle_normalize_def]] by blast+
  then have len: "length (fs_sets st) = length refs" using q num(1) by simp
  then have lrows: "length rows = length refs" using rmap_Inr_length [OF rows] by simp
  have "jfield (rows ! k) ''picture'' = JInt (int k + 1) \<and>
       jfield (rows ! k) ''target'' = JInt (rr_target (refs ! k)) \<and> jfield (rows ! k) ''poc'' = JInt (rr_poc (refs ! k)) \<and>
       (\<exists>ents. py_iter (jfield (jfield (jfield (rows ! k) ''controls'') ''DECODE_PARAMS'') ''dpb'') = Inr ents \<and>
          (\<forall>i < min (length ents) (length (rr_dpb (refs ! k))). \<exists>w. jfield (ents ! i) ''timestamp_writer'' = JInt (int w) \<and>
             1 \<le> w \<and> w \<le> k \<and> rr_target (refs ! (w - 1)) = dr_buf (rr_dpb (refs ! k) ! i)))" if k: "k < length refs" for k
  proof -
    have "bound_set run refs (fs_sets st ! k, refs ! k) = Inr (rows ! k)"
      using rows k len unfolding rmap_Inr_list_all2 list_all2_conv_all_nth by simp
    then obtain ents where ents: "py_iter (jfield (jfield (jv (fs_sets st ! k) ''controls'') ''DECODE_PARAMS'') ''dpb'') = Inr ents"
      and chk: "rall (bound_entry refs (refs ! k) (fs_sets st ! k)) (zip [0..<length ents] ents) = Inr ()"
      and v: "rows ! k = JObj (fs_sets st ! k @ [(''schema'', JStr ''hevc-full-controls/1''), (''run'', run),
        (''target'', JInt (rr_target (refs ! k))), (''poc'', JInt (rr_poc (refs ! k)))])"
      by (rule bound_set_Inr)
    note new = num(2) [OF k [folded len]]
    have pic: "jint (fs_sets st ! k) ''picture'' = int k + 1" using new by (simp add: jint_def jv_def)
    have fields: "jfield (rows ! k) ''picture'' = JInt (int k + 1)" "jfield (rows ! k) ''target'' = JInt (rr_target (refs ! k))"
      "jfield (rows ! k) ''poc'' = JInt (rr_poc (refs ! k))"
      using new unfolding v by (simp_all add: jfield_def jv_def map_add_def)
    have ctl: "jfield (jfield (rows ! k) ''controls'') ''DECODE_PARAMS'' = jfield (jv (fs_sets st ! k) ''controls'') ''DECODE_PARAMS''"
      unfolding v by (simp add: jfield_def jv_def map_add_def split: option.splits)
    have "\<exists>w. jfield (ents ! i) ''timestamp_writer'' = JInt (int w) \<and>
             1 \<le> w \<and> w \<le> k \<and> rr_target (refs ! (w - 1)) = dr_buf (rr_dpb (refs ! k) ! i)"
      if i: "i < min (length ents) (length (rr_dpb (refs ! k)))" for i
    proof -
      have "(i, ents ! i) \<in> set (zip [0..<length ents] ents)" using i by (auto simp: in_set_zip intro: exI [of _ i])
      then have "bound_entry refs (refs ! k) (fs_sets st ! k) (i, ents ! i) = Inr ()" using chk by (simp add: rall_Inr)
      then show ?thesis using i pic by (elim bound_entry_Inr) auto
    qed
    then show ?thesis using fields ents ctl by auto
  qed
  then show ?thesis using lrows res by blast
qed

subsection \<open>A trace with complete payloads\<close>

text \<open>
  An intra picture and a P picture that references it, with complete payloads; the raw timestamps 5000
  and 9000 become the tokens 1000 and 2000. The control steps are evaluated with the payloads kept
  opaque.
\<close>

definition item_dict :: "string \<Rightarrow> json \<Rightarrow> tr_event" where
  "item_dict name v = [(''id'', JStr (CID @ name)), (''size'', JInt (case dget FULL_SIZES name of Some n \<Rightarrow> n | None \<Rightarrow> 0)),
     (control_key name, v)]"

definition full_ext :: "int \<Rightarrow> (string \<times> json) list \<Rightarrow> tr_event" where
  "full_ext reqfd xs = [(''which'', REQUEST_VAL), (''request_fd'', JInt reqfd), (''count'', JInt (int (length xs))),
     (''controls'', JList (map (\<lambda>(n, v). JObj (item_dict n v)) xs))]"

definition full_event :: "int \<Rightarrow> (string \<times> json) list \<Rightarrow> (string \<times> json) list \<Rightarrow> tr_event" where
  "full_event reqfd xs ys = demo_ioctl ''VIDIOC_S_EXT_CTRLS'' 7
     [(''from_userspace'', JObj [(''v4l2_ext_controls'', JObj (full_ext reqfd xs))]),
      (''from_driver'', JObj [(''v4l2_ext_controls'', JObj (full_ext reqfd ys))])]"

definition item_list :: "(string \<times> json) list \<Rightarrow> (string, tr_event) dict" where
  "item_list = map (\<lambda>(n, v). (CID @ n, item_dict n v))"

lemma control_item_dict: "control_item (JObj (item_dict n v)) = Some (CID @ n, item_dict n v)"
  by (simp add: control_item_def item_dict_def jv_def)

lemma ext_controls_full:
  assumes "length xs \<le> 64" and "distinct (map fst xs)" and "dget e ''from_userspace'' = Some (JObj [(''v4l2_ext_controls'', JObj (full_ext reqfd xs))])"
  shows "ext_controls e = Inr (full_ext reqfd xs, item_list xs)"
proof -
  have m: "map (\<lambda>c. the (control_item c)) (map (\<lambda>(n, v). JObj (item_dict n v)) xs) = item_list xs"
    by (simp add: item_list_def control_item_dict case_prod_unfold)
  have a: "list_all (\<lambda>c. control_item c \<noteq> None) (map (\<lambda>(n, v). JObj (item_dict n v)) xs)"
    by (auto simp: list_all_iff control_item_dict)
  have d: "distinct (map fst (item_list xs))"
    using assms(2) by (induction xs) (auto simp: item_list_def image_iff)
  have n: "hc_integer 0 64 (JInt (int (length xs))) = Inr (int (length xs))"
    using assms(1) by (simp add: hc_integer_def int_in_def)
  have f: "dget (full_ext reqfd xs) ''controls'' = Some (JList (map (\<lambda>(n, v). JObj (item_dict n v)) xs))"
    "dget (full_ext reqfd xs) ''count'' = Some (JInt (int (length xs)))"
    by (simp_all add: full_ext_def)
  have arg: "arguments e ''from_userspace'' ''v4l2_ext_controls'' = Inr (full_ext reqfd xs)"
    using assms(3) by (simp add: arguments_def dsub_def sub_def)
  show ?thesis
    using m a d n by (simp only: ext_controls_def arg rbind_simps dsub_def f option.case json.case Let_def length_map) simp
qed

text \<open>A control that the driver returned as submitted: payload, checked payload, and both after the renaming.\<close>

definition item_ok :: "full_state \<Rightarrow> string \<times> json \<times> (string, json) dict \<times> json \<times> (string, json) dict \<Rightarrow> bool" where
  "item_ok st = (\<lambda>(name, v, d, v', d'). dhas FULL_SIZES name \<and> full_payload v (control_key name) = Inr (JObj d) \<and>
     dict_ok d' \<and>
     (name = ''SLICE_PARAMS'' \<longrightarrow> sub v ''num_entry_point_offsets'' = Inr (JInt 0) \<and> sub (JObj d) ''num_entry_point_offsets'' = Inr (JInt 0)) \<and>
     (if name = ''DECODE_PARAMS'' then rename_dpb st v (JObj d) = Inr (v', JObj d') else v' = v \<and> d' = d))"

lemma fields_of_self:
  assumes "dict_ok d"
  shows "rmap (\<lambda>(field, x). rbind (sub (JObj d) field) (\<lambda>b. Inr (field, b, x))) d = Inr (map (\<lambda>(field, x). (field, x, x)) d)"
proof -
  have "rmap (\<lambda>(field, x). rbind (sub (JObj d) field) (\<lambda>b. Inr (field, b, x))) l = Inr (map (\<lambda>(field, x). (field, x, x)) l)"
    if "set l \<subseteq> set d" for l
    using that assms by (induction l) (auto simp: sub_def dict_ok_def)
  then show ?thesis by blast
qed

lemma full_control_same:
  assumes "item_ok st (name, v, d, v', d')" and "dget cs0 (CID @ name) = Some (item_dict name v)"
  shows "full_control st cs0 (CID @ name, item_dict name v) (original, changes, items) =
    Inr (dset name (JObj d') original, changes, items @ [JObj (item_dict name v')])"
proof -
  have dom: "\<exists>n. dget FULL_SIZES name = Some n" using assms(1) by (auto simp: item_ok_def dhas_def)
  then obtain n where n: "dget FULL_SIZES name = Some n" "hc_u32 (JInt n) = Inr n"
    using map_of_SomeD [of FULL_SIZES name] by (fastforce simp: FULL_SIZES_def hc_integer_def int_in_def)
  have nm: "drop (length CID) (CID @ name) = name" by simp
  have keys: "''id'' \<noteq> control_key name" "''size'' \<noteq> control_key name" by (simp_all add: control_key_def)
  have c: "dsub (item_dict name v) ''size'' = Inr (JInt n)" "dsub (item_dict name v) (control_key name) = Inr v"
    "dset (control_key name) v' (item_dict name v) = item_dict name v'" "dsub cs0 (CID @ name) = Inr (item_dict name v)"
    using keys n assms(2) by (auto simp: item_dict_def dsub_def)
  have p: "full_payload v (control_key name) = Inr (JObj d)" and d': "dict_ok d'" using assms(1) by (auto simp: item_ok_def)
  have sl: "(if name = ''SLICE_PARAMS''
            then require_and [eq_subs v ''num_entry_point_offsets'' (JObj d) ''num_entry_point_offsets'',
                   eq_sub (JObj d) ''num_entry_point_offsets'' (JInt 0)] ''entry points not captured by this contract''
            else Inr ()) = Inr ()"
    using assms(1) by (auto simp: item_ok_def require_and_def eq_subs_def eq_sub_def)
  have dp: "(if name = ''DECODE_PARAMS''
            then rbind (require (py_eq (JObj d) (JObj d)) ''unexpected kernel reference correction'') (\<lambda>_.
                 rbind (rename_dpb st v (JObj d)) (\<lambda>(v', orig'). Inr (v', orig', orig')))
            else Inr (v, JObj d, JObj d)) = Inr (v', JObj d', JObj d')"
    using assms(1) by (auto simp: item_ok_def split: if_splits)
  have flt: "filter (\<lambda>(_, b, x). \<not> py_eq b x) (map (\<lambda>(field, x). (field, x, x)) d') = []"
    by (auto simp: filter_empty_conv)
  show ?thesis
    unfolding full_control_def prod.case Let_def nm c rbind_simps n p
    by (simp only: n simp_thms require_def if_True rbind_simps sl dp [unfolded require_def] prod.case json.case fields_of_self [OF d'] flt
        list.map append_Nil2 c(3)) simp
qed

abbreviation raw_items :: "(string \<times> json \<times> (string, json) dict \<times> json \<times> (string, json) dict) list \<Rightarrow> (string \<times> json) list" where
  "raw_items \<equiv> map (\<lambda>(n, v, _). (n, v))"

abbreviation new_items :: "(string \<times> json \<times> (string, json) dict \<times> json \<times> (string, json) dict) list \<Rightarrow> (string \<times> json) list" where
  "new_items \<equiv> map (\<lambda>(n, _, _, v', _). (n, v'))"

lemma full_control_all:
  assumes "\<forall>p \<in> set ps. item_ok st p \<and> dget cs0 (CID @ fst p) = Some (item_dict (fst p) (fst (snd p)))"
  shows "rfold (full_control st cs0) (item_list (raw_items ps)) (original, changes, items) =
    Inr (fold (\<lambda>(n, _, _, _, d'). dset n (JObj d')) ps original, changes, items @ map (\<lambda>(n, v). JObj (item_dict n v)) (new_items ps))"
  using assms
proof (induction ps arbitrary: original items)
  case (Cons p ps)
  obtain n v d v' d' where p: "p = (n, v, d, v', d')" by (cases p)
  show ?case using Cons.prems full_control_same [of st n v d v' d' cs0]
    by (simp add: p item_list_def) (simp add: Cons.IH [unfolded item_list_def, simplified])
qed (simp add: item_list_def)

lemma full_controls_demo:
  assumes ok: "\<forall>p \<in> set ps. item_ok st p" and dist: "distinct (map fst ps)" and len: "length ps \<le> 64" and fd: "hc_u32 (JInt reqfd) = Inr reqfd"
    and new: "dget (fs_requested st) reqfd = None" "dget (fs_originals st) reqfd = None" "dget (fs_changes st) reqfd = None"
  shows "full_controls_step (full_event reqfd (raw_items ps) (raw_items ps)) st =
    Inr (st\<lparr>fs_requested := dset reqfd (map (\<lambda>p. CID @ fst p) ps) (fs_requested st),
       fs_originals := dset reqfd (fold (\<lambda>(n, _, _, _, d'). dset n (JObj d')) ps []) (fs_originals st),
       fs_changes := dset reqfd [] (fs_changes st)\<rparr>,
     Some (full_event reqfd (new_items ps) (raw_items ps)))"
proof -
  let ?xs = "raw_items ps"
  let ?e = "full_event reqfd ?xs ?xs"
  have d: "distinct (map fst ?xs)" using dist by (simp add: case_prod_unfold comp_def)
  have e: "dget ?e ''from_userspace'' = Some (JObj [(''v4l2_ext_controls'', JObj (full_ext reqfd ?xs))])"
    "dsub ?e ''from_driver'' = Inr (JObj [(''v4l2_ext_controls'', JObj (full_ext reqfd ?xs))])" "\<not> dhas ?e ''errno''"
    by (simp_all add: full_event_def demo_ioctl_def dsub_def dhas_def)
  have x: "dsub (full_ext reqfd ?xs) ''which'' = Inr REQUEST_VAL" "dsub (full_ext reqfd ?xs) ''request_fd'' = Inr (JInt reqfd)"
    "dsub (full_ext reqfd ?xs) ''controls'' = Inr (JList (map (\<lambda>(n, v). JObj (item_dict n v)) ?xs))"
    "dset ''controls'' (JList (map (\<lambda>(n, v). JObj (item_dict n v)) ?xs)) (full_ext reqfd ?xs) = full_ext reqfd ?xs"
    "dset ''controls'' (JList (map (\<lambda>(n, v). JObj (item_dict n v)) (new_items ps))) (full_ext reqfd ?xs) = full_ext reqfd (new_items ps)"
    by (simp_all add: full_ext_def dsub_def)
  have put: "put_arguments ?e ''from_userspace'' ''v4l2_ext_controls'' (full_ext reqfd ys) = full_event reqfd ys ?xs" for ys
    by (simp add: put_arguments_def full_event_def demo_ioctl_def)
  have cs: "ext_controls ?e = Inr (full_ext reqfd ?xs, item_list ?xs)"
    using d len e(1) by (intro ext_controls_full) simp_all
  have drv: "ext_controls [(''from_userspace'', JObj [(''v4l2_ext_controls'', JObj (full_ext reqfd ?xs))])] = Inr (full_ext reqfd ?xs, item_list ?xs)"
    using d len by (intro ext_controls_full) simp_all
  have known: "list_all (\<lambda>(cid, _). list_ex (\<lambda>(n, _). cid = CID @ n) FULL_SIZES) (item_list ?xs)"
    using ok by (fastforce simp: list_all_iff list_ex_iff item_list_def item_ok_def dhas_def dest: map_of_SomeD)
  have "distinct (map fst (item_list ?xs))" using d by (induction ps) (auto simp: item_list_def image_iff)
  then have own: "\<forall>p \<in> set ps. item_ok st p \<and> dget (item_list ?xs) (CID @ fst p) = Some (item_dict (fst p) (fst (snd p)))"
    using ok by (auto simp: item_list_def image_iff intro!: map_of_is_SomeI bexI)
  have names: "map fst (item_list ?xs) = map (\<lambda>p. CID @ fst p) ps" by (simp add: item_list_def case_prod_unfold)
  note all = full_control_all [OF own, of "[]" "[]" "[]", unfolded append_Nil]
  show ?thesis unfolding full_controls_step_def cs rbind_simps prod.case x e(2) drv fd put new option.case Let_def all names
    using e(3) known by (simp add: require_and_def put x) (simp add: list_ex_iff case_prod_unfold)
qed

definition checked_control :: "string \<Rightarrow> json \<Rightarrow> (string, json) dict" where
  "checked_control name v = (case full_payload v (control_key name) of Inr (JObj d) \<Rightarrow> d | _ \<Rightarrow> [])"

definition demo_entry :: "int \<Rightarrow> json" where
  "demo_entry ts = JObj [(''timestamp'', JInt ts), (''flags'', JStr []), (''field_pic'', JInt 0), (''pic_order_cnt_val'', JInt 0)]"

definition raw_decode :: "int \<Rightarrow> int \<Rightarrow> json list \<Rightarrow> json" where
  "raw_decode poc n ents = JObj
     [(''pic_order_cnt_val'', JInt poc), (''short_term_ref_pic_set_size'', JInt 0), (''long_term_ref_pic_set_size'', JInt 0),
      (''num_active_dpb_entries'', JInt n), (''num_poc_st_curr_before'', JInt n),
      (''num_poc_st_curr_after'', JInt 0), (''num_poc_lt_curr'', JInt 0), (''poc_st_curr_before'', JList (replicate 16
      (JInt 0))), (''poc_st_curr_after'', JList (replicate 16 (JInt 0))), (''poc_lt_curr'', JList (replicate 16 (JInt
      0))), (''num_delta_pocs_of_ref_rps_idx'', JInt 0), (''dpb'', JList ents), (''flags'', JStr [])]"

definition raw_slice :: "int \<Rightarrow> int \<Rightarrow> json \<Rightarrow> json" where
  "raw_slice poc ty weights = JObj
     [(''bit_size'', JInt 0), (''data_byte_offset'', JInt 0), (''num_entry_point_offsets'', JInt 0), (''nal_unit_type'',
      JInt 1), (''nuh_temporal_id_plus1'', JInt 0), (''slice_type'', JInt ty), (''colour_plane_id'', JInt 0),
      (''slice_pic_order_cnt'', JInt poc), (''num_ref_idx_l0_active_minus1'', JInt 0), (''num_ref_idx_l1_active_minus1'',
      JInt 0), (''collocated_ref_idx'', JInt 0), (''five_minus_max_num_merge_cand'', JInt 0), (''slice_qp_delta'', JInt
      0), (''slice_cb_qp_offset'', JInt 0), (''slice_cr_qp_offset'', JInt 0), (''slice_act_y_qp_offset'', JInt 0),
      (''slice_act_cb_qp_offset'', JInt 0), (''slice_act_cr_qp_offset'', JInt 0), (''slice_beta_offset_div2'', JInt 0),
      (''slice_tc_offset_div2'', JInt 0), (''pic_struct'', JInt 0), (''slice_segment_addr'', JInt 0), (''ref_idx_l0'',
      JList (replicate 16 (JInt 0))), (''ref_idx_l1'', JList (replicate 16 (JInt 0))), (''short_term_ref_pic_set_size'',
      JInt 0), (''long_term_ref_pic_set_size'', JInt 0), (''flags'', JStr []), (''v4l2_hevc_pred_weight_table'', weights)]"

definition demo_weights :: json where
  "demo_weights = blank_depth 1 ''v4l2_hevc_pred_weight_table''"

definition full_sps :: json where "full_sps = blank_depth 2 ''v4l2_ctrl_hevc_sps''"
definition full_pps :: json where "full_pps = blank_depth 2 ''v4l2_ctrl_hevc_pps''"
definition full_sl0 :: json where "full_sl0 = raw_slice 0 2 demo_weights"
definition full_sl1 :: json where "full_sl1 = raw_slice 2 1 demo_weights"
definition full_dp0 :: json where "full_dp0 = raw_decode 0 0 (replicate 16 (demo_entry 5000))"
definition full_dp1 :: json where "full_dp1 = raw_decode 2 1 (replicate 16 (demo_entry 5000))"

definition renaming_state :: "full_state" where
  "renaming_state = full_init\<lparr>fs_completed := [(4, (5000, 1000))]\<rparr>"

definition renamed :: "json \<Rightarrow> json \<times> (string, json) dict" where
  "renamed v = (case rename_dpb renaming_state v (JObj (checked_control ''DECODE_PARAMS'' v)) of
     Inr (v', JObj d) \<Rightarrow> (v', d) | _ \<Rightarrow> (JNull, []))"

definition plain_ok :: "string \<Rightarrow> json \<Rightarrow> bool" where
  "plain_ok name v \<longleftrightarrow> dhas FULL_SIZES name \<and> (case full_payload v (control_key name) of
     Inr (JObj d) \<Rightarrow> dict_ok d \<and> (name = ''SLICE_PARAMS'' \<longrightarrow> jfield v ''num_entry_point_offsets'' = JInt 0 \<and> jv d ''num_entry_point_offsets'' = JInt 0)
   | _ \<Rightarrow> False)"

definition decode_ok :: "json \<Rightarrow> bool" where
  "decode_ok v \<longleftrightarrow> (case full_payload v (control_key ''DECODE_PARAMS'') of
     Inr (JObj d) \<Rightarrow> (case rename_dpb renaming_state v (JObj d) of Inr (_, JObj d') \<Rightarrow> dict_ok d' | _ \<Rightarrow> False)
   | _ \<Rightarrow> False)"

lemma demo_plain:
  "plain_ok ''SPS'' full_sps" "plain_ok ''PPS'' full_pps"
  "plain_ok ''SLICE_PARAMS'' full_sl0" "plain_ok ''SLICE_PARAMS'' full_sl1"
  by code_simp+

lemma demo_decodes: "decode_ok full_dp0" "decode_ok full_dp1"
  by code_simp+

lemma plain_item:
  assumes "plain_ok name v" and "name \<noteq> ''DECODE_PARAMS''"
  shows "item_ok st (name, v, checked_control name v, v, checked_control name v)"
  using assms by (auto simp: plain_ok_def item_ok_def checked_control_def sub_def jfield_def jv_def split: sum.splits json.splits option.splits)

lemma scaling_item:
  "item_ok st (''SCALING_MATRIX'', public_scaling, checked_control ''SCALING_MATRIX'' public_scaling, public_scaling,
     checked_control ''SCALING_MATRIX'' public_scaling)"
  using plain_item [of "''SCALING_MATRIX''" public_scaling]
  by (simp add: plain_ok_def scaling_payload) (simp add: public_scaling_def PAY_SCALING_def dict_ok_def dhas_def FULL_SIZES_def)

lemma rename_dpb_cong:
  assumes "writer_tokens st = writer_tokens st' \<or> sub v ''num_active_dpb_entries'' = Inr (JInt 0)"
  shows "rename_dpb st v orig = rename_dpb st' v orig"
proof -
  have "rename_entry st n = rename_entry st' n" if "rbind (sub v ''num_active_dpb_entries'') (hc_integer 0 16) = Inr n" for n
    using assms
  proof
    assume "sub v ''num_active_dpb_entries'' = Inr (JInt 0)"
    then have "n = 0" using that by (simp add: hc_integer_def int_in_def)
    then show ?thesis by (simp add: rename_entry_def)
  next
    assume w: "writer_tokens st = writer_tokens st'"
    show ?thesis unfolding rename_entry_def w ..
  qed
  then show ?thesis unfolding rename_dpb_def by (intro rbind_cong refl) simp
qed

lemma decode_item:
  assumes "decode_ok v" and "writer_tokens st = writer_tokens renaming_state \<or> sub v ''num_active_dpb_entries'' = Inr (JInt 0)"
  shows "item_ok st (''DECODE_PARAMS'', v, checked_control ''DECODE_PARAMS'' v, fst (renamed v), snd (renamed v))"
proof -
  obtain d where d: "full_payload v (control_key ''DECODE_PARAMS'') = Inr (JObj d)"
    "case rename_dpb renaming_state v (JObj d) of Inr (_, JObj d') \<Rightarrow> dict_ok d' | _ \<Rightarrow> False"
    using assms(1) unfolding decode_ok_def by (cases "full_payload v (control_key ''DECODE_PARAMS'')") (simp_all split: json.split_asm)
  then obtain v' d' where "rename_dpb renaming_state v (JObj d) = Inr (v', JObj d')" "dict_ok d'"
    by (cases "rename_dpb renaming_state v (JObj d)") (auto split: json.split_asm prod.split_asm)
  with d(1) show ?thesis using rename_dpb_cong [OF assms(2)]
    by (simp add: item_ok_def renamed_def checked_control_def dhas_def FULL_SIZES_def)
qed

type_synonym demo_item = "string \<times> json \<times> (string, json) dict \<times> json \<times> (string, json) dict"

definition plain_demo :: "string \<Rightarrow> json \<Rightarrow> demo_item" where
  "plain_demo name v = (name, v, checked_control name v, v, checked_control name v)"

definition decode_demo :: "json \<Rightarrow> demo_item" where
  "decode_demo v = (''DECODE_PARAMS'', v, checked_control ''DECODE_PARAMS'' v, fst (renamed v), snd (renamed v))"

definition demo_items1 :: "demo_item list" where
  "demo_items1 = [plain_demo ''SPS'' full_sps, plain_demo ''PPS'' full_pps,
     plain_demo ''SCALING_MATRIX'' public_scaling, plain_demo ''SLICE_PARAMS'' full_sl0, decode_demo full_dp0]"

definition demo_items2 :: "demo_item list" where
  "demo_items2 = [plain_demo ''PPS'' full_pps,
     plain_demo ''SCALING_MATRIX'' public_scaling, plain_demo ''SLICE_PARAMS'' full_sl1, decode_demo full_dp1]"

lemmas demo_items_ok = demo_plain [THEN plain_item, simplified, folded plain_demo_def] scaling_item [folded plain_demo_def]

lemma demo_items1_ok: "\<forall>p \<in> set demo_items1. item_ok st p"
proof -
  have "sub full_dp0 ''num_active_dpb_entries'' = Inr (JInt 0)" by code_simp
  then have "item_ok st (decode_demo full_dp0)"
    unfolding decode_demo_def by (intro decode_item demo_decodes) simp
  then show ?thesis by (simp add: demo_items1_def demo_items_ok)
qed

lemma demo_items2_ok:
  assumes "writer_tokens st = writer_tokens renaming_state"
  shows "\<forall>p \<in> set demo_items2. item_ok st p"
proof -
  have "item_ok st (decode_demo full_dp1)"
    unfolding decode_demo_def by (intro decode_item demo_decodes disjI1 assms)
  then show ?thesis by (simp add: demo_items2_def demo_items_ok)
qed

definition demo_queued :: "json \<Rightarrow> int \<Rightarrow> int \<Rightarrow> tr_event" where
  "demo_queued kind bi usec = demo_ioctl ''VIDIOC_QBUF'' 7 [(''from_userspace'', demo_buffer kind bi usec)]"

definition demo_dequeued :: "json \<Rightarrow> int \<Rightarrow> int \<Rightarrow> tr_event" where
  "demo_dequeued kind bi usec = demo_ioctl ''VIDIOC_DQBUF'' 7 [(''from_driver'', demo_buffer kind bi usec)]"

definition stamped :: "string \<Rightarrow> tr_event \<Rightarrow> int \<Rightarrow> tr_event" where
  "stamped direction e token = (case arguments e direction ''v4l2_buffer'' of
     Inr b \<Rightarrow> put_arguments e direction ''v4l2_buffer'' (set_timestamp b token) | _ \<Rightarrow> e)"

definition demo_first :: "tr_event list" where
  "demo_first = [[(''fd'', JInt 7), (''open'', JObj [])],
     demo_ioctl ''MEDIA_IOC_REQUEST_ALLOC'' 8 [(''from_driver'', JObj [(''request_fd'', JInt 25)])],
     demo_ioctl ''MEDIA_IOC_REQUEST_ALLOC'' 8 [(''from_driver'', JObj [(''request_fd'', JInt 29)])]]"

definition demo_mid :: "tr_event list" where
  "demo_mid = [demo_queued OUT_TYPE 0 5, demo_queued CAP_TYPE 4 0, demo_queued CAP_TYPE 9 0, demo_ioctl ''MEDIA_REQUEST_IOC_QUEUE'' 25 [],
     demo_dequeued OUT_TYPE 0 5, demo_dequeued CAP_TYPE 4 5]"

definition demo_mid' :: "tr_event list" where
  "demo_mid' = [stamped ''from_userspace'' (demo_queued OUT_TYPE 0 5) 1000, demo_queued CAP_TYPE 4 0, demo_queued CAP_TYPE 9 0,
     demo_ioctl ''MEDIA_REQUEST_IOC_QUEUE'' 25 [],
     stamped ''from_driver'' (demo_dequeued OUT_TYPE 0 5) 1000, stamped ''from_driver'' (demo_dequeued CAP_TYPE 4 5) 1000]"

definition demo_end :: "tr_event list" where
  "demo_end = [demo_queued OUT_TYPE 0 9, demo_ioctl ''MEDIA_REQUEST_IOC_QUEUE'' 29 [],
     demo_dequeued CAP_TYPE 9 9, demo_dequeued OUT_TYPE 0 9,
     demo_ioctl ''VIDIOC_STREAMOFF'' 7 [(''from_userspace'', JObj [(''type'', OUT_TYPE)])], [(''fd'', JInt 7), (''close'', JObj [])]]"

definition demo_end' :: "tr_event list" where
  "demo_end' = [stamped ''from_userspace'' (demo_queued OUT_TYPE 0 9) 2000, demo_ioctl ''MEDIA_REQUEST_IOC_QUEUE'' 29 [],
     stamped ''from_driver'' (demo_dequeued CAP_TYPE 9 9) 2000, stamped ''from_driver'' (demo_dequeued OUT_TYPE 0 9) 2000,
     demo_ioctl ''VIDIOC_STREAMOFF'' 7 [(''from_userspace'', JObj [(''type'', OUT_TYPE)])], [(''fd'', JInt 7), (''close'', JObj [])]]"

definition full_demo :: "tr_event list" where
  "full_demo = demo_first @ [full_event 25 (raw_items demo_items1) (raw_items demo_items1)] @ demo_mid @
     [full_event 29 (raw_items demo_items2) (raw_items demo_items2)] @ demo_end"

definition demo_state1 :: "string list \<Rightarrow> (string, json) dict \<Rightarrow> full_state" where
  "demo_state1 ks cs = full_init\<lparr>fs_requested := [(25, ks)], fs_originals := [(25, cs)], fs_changes := [(25, [])]\<rparr>"

definition demo_set :: "int \<Rightarrow> string list \<Rightarrow> int \<Rightarrow> (string, json) dict \<Rightarrow> (string, json) dict" where
  "demo_set n names sps cs = [(''picture'', JInt n), (''submitted'', JList (map JStr names)), (''sps_from_picture'', JInt sps),
     (''controls'', JObj cs), (''input_changes'', JList [])]"

definition demo_state2 :: "(string, json) dict list \<Rightarrow> full_state" where
  "demo_state2 sets = full_init\<lparr>fs_objs := [\<lparr>pd_raw = 5000, pd_token = 1000, pd_out = True, pd_cap = True\<rparr>],
     fs_completed := [(4, (5000, 1000))], fs_sets := sets, fs_raw_stamps := [5000], fs_seq := 1, fs_queued := 1\<rparr>"

definition demo_state3 :: "(string, json) dict list \<Rightarrow> string list \<Rightarrow> (string, json) dict \<Rightarrow> full_state" where
  "demo_state3 sets ks cs = (demo_state2 sets)\<lparr>fs_requested := [(29, ks)], fs_originals := [(29, cs)], fs_changes := [(29, [])]\<rparr>"

definition demo_state4 :: "(string, json) dict list \<Rightarrow> full_state" where
  "demo_state4 sets = full_init\<lparr>fs_objs := [\<lparr>pd_raw = 5000, pd_token = 1000, pd_out = True, pd_cap = True\<rparr>,
       \<lparr>pd_raw = 9000, pd_token = 2000, pd_out = True, pd_cap = True\<rparr>],
     fs_completed := [(4, (5000, 1000)), (9, (9000, 2000))], fs_sets := sets, fs_raw_stamps := [5000, 9000], fs_seq := 2, fs_queued := 2\<rparr>"

lemma demo_walk_first: "rfold (full_step 7 (JInt 2)) demo_first (full_init, []) = Inr (full_init, demo_first)"
  by code_simp

abbreviation demo_cs1 :: "json \<Rightarrow> json \<Rightarrow> json \<Rightarrow> json \<Rightarrow> json \<Rightarrow> (string, json) dict" where
  "demo_cs1 a b c d e \<equiv> [(''SPS'', a), (''PPS'', b), (''SCALING_MATRIX'', c), (''SLICE_PARAMS'', d), (''DECODE_PARAMS'', e)]"

lemma demo_walk_mid:
  "rfold (full_step 7 (JInt 2)) demo_mid (demo_state1 ks (demo_cs1 a b c d e), []) =
     Inr (demo_state2 [demo_set 1 [''DECODE_PARAMS'', ''PPS'', ''SCALING_MATRIX'', ''SLICE_PARAMS'', ''SPS''] 1 (demo_cs1 a b c d e)], demo_mid')"
  by code_simp

lemma demo_walk_end:
  "rfold (full_step 7 (JInt 2)) demo_end (demo_state3 [demo_set 1 names 1 (demo_cs1 a b c d e)]
       ks [(''PPS'', b'), (''SCALING_MATRIX'', c'), (''SLICE_PARAMS'', d'), (''DECODE_PARAMS'', e')], []) =
     Inr (demo_state4 [demo_set 1 names 1 (demo_cs1 a b c d e),
       demo_set 2 [''DECODE_PARAMS'', ''PPS'', ''SCALING_MATRIX'', ''SLICE_PARAMS''] 1
         [(''PPS'', b'), (''SCALING_MATRIX'', c'), (''SLICE_PARAMS'', d'), (''DECODE_PARAMS'', e'), (''SPS'', a)]], demo_end')"
  by code_simp

lemma full_step_acc:
  "full_step fd expected e (st, sel @ s) = rbind (full_step fd expected e (st, s)) (\<lambda>(st', s'). Inr (st', sel @ s'))"
  unfolding full_step_def prod.case Let_def rbind_assoc
  by (intro rbind_cong refl) (simp add: case_prod_unfold)

lemma full_walk_acc:
  "rfold (full_step fd expected) es (st, s) = Inr (st', s') \<Longrightarrow>
     rfold (full_step fd expected) es (st, sel @ s) = Inr (st', sel @ s')"
proof (induction es arbitrary: st s)
  case (Cons e es)
  then obtain st1 s1 where "full_step fd expected e (st, s) = Inr (st1, s1)" "rfold (full_step fd expected) es (st1, s1) = Inr (st', s')"
    by (auto simp: rbind_Inr)
  then show ?case using Cons.IH by (simp add: full_step_acc)
qed simp

lemma full_step_controls:
  assumes "full_controls_step (full_event reqfd xs ys) st = Inr (st', Some e)"
  shows "full_step 7 expected (full_event reqfd xs ys) (st, sel) = Inr (st', sel @ [e])"
proof -
  have "jv (full_event reqfd xs ys) ''ioctl'' = JStr ''VIDIOC_S_EXT_CTRLS''" "jv (full_event reqfd xs ys) ''fd'' = JInt 7"
    by (simp_all add: full_event_def demo_ioctl_def jv_def)
  then show ?thesis using assms by (simp add: full_step_def)
qed

definition item_names :: "demo_item list \<Rightarrow> string list" where
  "item_names ps = map (\<lambda>p. CID @ fst p) ps"

definition item_sets :: "demo_item list \<Rightarrow> (string, json) dict" where
  "item_sets ps = map (\<lambda>(n, _, _, _, d'). (n, JObj d')) ps"

lemma demo_control1:
  "full_step 7 expected (full_event 25 (raw_items demo_items1) (raw_items demo_items1)) (full_init, sel) =
     Inr (demo_state1 (item_names demo_items1) (item_sets demo_items1), sel @ [full_event 25 (new_items demo_items1) (raw_items demo_items1)])"
proof (rule full_step_controls)
  have fd: "hc_u32 (JInt 25) = Inr 25" by (simp add: hc_integer_def int_in_def)
  have d: "distinct (map fst demo_items1)" "length demo_items1 \<le> 64" by (simp_all add: demo_items1_def plain_demo_def decode_demo_def)
  have s: "fold (\<lambda>(n, _, _, _, d'). dset n (JObj d')) demo_items1 [] = item_sets demo_items1"
    by (simp add: item_sets_def demo_items1_def plain_demo_def decode_demo_def case_prod_unfold)
  show "full_controls_step (full_event 25 (raw_items demo_items1) (raw_items demo_items1)) full_init =
    Inr (demo_state1 (item_names demo_items1) (item_sets demo_items1), Some (full_event 25 (new_items demo_items1) (raw_items demo_items1)))"
    by (subst full_controls_demo [OF demo_items1_ok d fd]) (simp_all add: full_init_def demo_state1_def item_names_def s)
qed

lemma demo_control2:
  "full_step 7 expected (full_event 29 (raw_items demo_items2) (raw_items demo_items2)) (demo_state2 sets, sel) =
     Inr (demo_state3 sets (item_names demo_items2) (item_sets demo_items2), sel @ [full_event 29 (new_items demo_items2) (raw_items demo_items2)])"
proof (rule full_step_controls)
  have fd: "hc_u32 (JInt 29) = Inr 29" by (simp add: hc_integer_def int_in_def)
  have d: "distinct (map fst demo_items2)" "length demo_items2 \<le> 64" by (simp_all add: demo_items2_def plain_demo_def decode_demo_def)
  have s: "fold (\<lambda>(n, _, _, _, d'). dset n (JObj d')) demo_items2 [] = item_sets demo_items2"
    by (simp add: item_sets_def demo_items2_def plain_demo_def decode_demo_def case_prod_unfold)
  have w: "writer_tokens (demo_state2 sets) = writer_tokens renaming_state"
    by (rule ext) (simp add: writer_tokens_def demo_state2_def renaming_state_def full_init_def)
  show "full_controls_step (full_event 29 (raw_items demo_items2) (raw_items demo_items2)) (demo_state2 sets) =
    Inr (demo_state3 sets (item_names demo_items2) (item_sets demo_items2), Some (full_event 29 (new_items demo_items2) (raw_items demo_items2)))"
    by (subst full_controls_demo [OF demo_items2_ok [OF w] d fd])
      (simp_all add: full_init_def demo_state2_def demo_state3_def item_names_def s)
qed

definition full_selected :: "tr_event \<Rightarrow> tr_event \<Rightarrow> tr_event list" where
  "full_selected e1 e2 = demo_first @ [e1] @ demo_mid' @ [e2] @ demo_end'"

definition demo_sets :: "(string, json) dict list" where
  "demo_sets = [demo_set 1 [''DECODE_PARAMS'', ''PPS'', ''SCALING_MATRIX'', ''SLICE_PARAMS'', ''SPS''] 1 (item_sets demo_items1),
     demo_set 2 [''DECODE_PARAMS'', ''PPS'', ''SCALING_MATRIX'', ''SLICE_PARAMS''] 1
       (item_sets demo_items2 @ [(''SPS'', snd (hd (item_sets demo_items1)))])]"

lemma demo_walk:
  "rfold (full_step 7 (JInt 2)) full_demo (full_init, []) = Inr (demo_state4 demo_sets,
     full_selected (full_event 25 (new_items demo_items1) (raw_items demo_items1)) (full_event 29 (new_items demo_items2) (raw_items demo_items2)))"
proof -
  obtain a b c d e where s1: "item_sets demo_items1 = demo_cs1 a b c d e"
    by (simp add: item_sets_def demo_items1_def plain_demo_def decode_demo_def case_prod_unfold)
  obtain b' c' d' e' where s2: "item_sets demo_items2 = [(''PPS'', b'), (''SCALING_MATRIX'', c'), (''SLICE_PARAMS'', d'), (''DECODE_PARAMS'', e')]"
    by (simp add: item_sets_def demo_items2_def plain_demo_def decode_demo_def case_prod_unfold)
  show ?thesis
    unfolding full_demo_def rfold_append demo_walk_first rbind_simps rfold.simps demo_control1 s1
      full_walk_acc [OF demo_walk_mid, unfolded append_Nil2] demo_control2 s2 full_walk_acc [OF demo_walk_end, unfolded append_Nil2]
    by (simp add: demo_sets_def full_selected_def s1 s2)
qed

lemma demo_fd: "decoding_fd full_demo = Inr 7"
proof -
  have ext: "ext_controls (full_event fd xs ys) = Inr (full_ext fd xs, item_list xs)" if "length xs \<le> 64" "distinct (map fst xs)" for fd xs ys
    using that by (intro ext_controls_full) (simp_all add: full_event_def demo_ioctl_def)
  have req: "request_event (full_event fd xs ys) acc = Inr (acc @ [full_event fd xs ys])"
    if "length xs \<le> 64" "distinct (map fst xs)" "''DECODE_PARAMS'' \<in> set (map fst xs)" for fd xs ys acc
  proof -
    have "dhas (item_list xs) (CID @ ''DECODE_PARAMS'')"
      using that(3) by (force simp: dhas_def item_list_def map_of_eq_None_iff)
    moreover have "jv (full_event fd xs ys) ''ioctl'' = JStr ''VIDIOC_S_EXT_CTRLS''" by (simp add: full_event_def demo_ioctl_def jv_def)
    ultimately show ?thesis using ext [OF that(1,2), of fd ys] by (simp add: request_event_def full_ext_def dsub_def)
  qed
  have skip: "rfold request_event demo_first acc = Inr acc" "rfold request_event demo_mid acc = Inr acc" "rfold request_event demo_end acc = Inr acc" for acc
    by (simp_all add: demo_first_def demo_mid_def demo_end_def demo_queued_def demo_dequeued_def demo_ioctl_def request_event_def jv_def)
  have i: "length (raw_items demo_items1) \<le> 64" "distinct (map fst (raw_items demo_items1))" "''DECODE_PARAMS'' \<in> set (map fst (raw_items demo_items1))"
    "length (raw_items demo_items2) \<le> 64" "distinct (map fst (raw_items demo_items2))" "''DECODE_PARAMS'' \<in> set (map fst (raw_items demo_items2))"
    by (simp_all add: demo_items1_def demo_items2_def plain_demo_def decode_demo_def)
  have fd: "dsub (full_event fd xs ys) ''fd'' = Inr (JInt 7)" for fd xs ys by (simp add: full_event_def demo_ioctl_def dsub_def)
  show ?thesis unfolding decoding_fd_def full_demo_def rfold_append skip rbind_simps rfold.simps req [OF i(1-3)] req [OF i(4-6)]
    by (simp add: require_and_def fd py_hash_def hc_integer_def int_in_def)
qed

definition demo_event :: "int \<Rightarrow> (string \<times> json) list \<Rightarrow> json \<Rightarrow> tr_event" where
  "demo_event reqfd xs drv = demo_ioctl ''VIDIOC_S_EXT_CTRLS'' 7
     [(''from_userspace'', JObj [(''v4l2_ext_controls'', JObj (full_ext reqfd xs))]), (''from_driver'', drv)]"

definition lifecycle_ok :: "(ref_record list \<times> association list) py \<Rightarrow> bool" where
  "lifecycle_ok r \<longleftrightarrow> (case r of
     Inr (refs, pics) \<Rightarrow> map (\<lambda>r. map dr_buf (rr_dpb r)) refs = [[], [4]] \<and> map rr_target refs = [4, 9] \<and>
       map as_system_frame_number pics = [1, 2] \<and> map as_pic pics = [1, 2]
   | Inl _ \<Rightarrow> False)"

lemma demo_renamed:
  "fst (renamed full_dp0) = raw_decode 0 0 (replicate 16 (demo_entry 0))"
  "fst (renamed full_dp1) = raw_decode 2 1 (demo_entry 1000 # replicate 15 (demo_entry 0))"
  by code_simp+

lemma demo_lifecycle:
  "lifecycle_ok (lifecycle_normalize (full_selected
     (demo_event 25 [(''SPS'', full_sps), (''PPS'', p1), (''SCALING_MATRIX'', s1), (''SLICE_PARAMS'', raw_slice 0 2 w1),
        (''DECODE_PARAMS'', raw_decode 0 0 (replicate 16 (demo_entry 0)))] drv1)
     (demo_event 29 [(''PPS'', p2), (''SCALING_MATRIX'', s2), (''SLICE_PARAMS'', raw_slice 2 1 w2),
        (''DECODE_PARAMS'', raw_decode 2 1 (demo_entry 1000 # replicate 15 (demo_entry 0)))] drv2)) (JInt 2) (JStr ''0123456789abcdef''))"
  by code_simp

definition dpb_ok :: "json list \<Rightarrow> json \<Rightarrow> bool" where
  "dpb_ok ws v \<longleftrightarrow> (case jv (snd (renamed v)) ''dpb'' of
     JList ents \<Rightarrow> length ents = 16 \<and> map (\<lambda>e. jfield e ''timestamp_writer'') (take (length ws) ents) = ws \<and> dhas (snd (renamed v)) ''dpb'' \<and>
       list_all (\<lambda>e. case e of JObj d \<Rightarrow> dhas d ''timestamp_writer'' | _ \<Rightarrow> False) ents
   | _ \<Rightarrow> False)"

lemma demo_dpbs: "dpb_ok [] full_dp0" "dpb_ok [JInt 1] full_dp1"
  by code_simp+

definition full_run :: json where "full_run = JStr ''0123456789abcdef''"

lemma full_event_demo: "full_event reqfd xs ys = demo_event reqfd xs (JObj [(''v4l2_ext_controls'', JObj (full_ext reqfd ys))])"
  by (simp add: full_event_def demo_event_def)

lemma full_demo_lifecycle:
  "lifecycle_ok (lifecycle_normalize (full_selected (full_event 25 (new_items demo_items1) (raw_items demo_items1))
     (full_event 29 (new_items demo_items2) (raw_items demo_items2))) (JInt 2) full_run)"
  using demo_lifecycle
  by (simp add: full_event_demo demo_items1_def demo_items2_def plain_demo_def decode_demo_def demo_renamed full_sl0_def full_sl1_def full_run_def)

lemma demo_set_dpb:
  assumes "dpb_ok ws v" and "dget cs ''DECODE_PARAMS'' = Some (JObj (snd (renamed v)))" and "row = demo_set n names sps cs"
  obtains ents where
    "rbind (rbind (sub (jv row ''controls'') ''DECODE_PARAMS'') (\<lambda>dp. sub dp ''dpb'')) py_iter = Inr ents"
    "length ents = 16" "map (\<lambda>e. jfield e ''timestamp_writer'') (take (length ws) ents) = ws"
    "\<forall>i < 16. sub (ents ! i) ''timestamp_writer'' = Inr (jfield (ents ! i) ''timestamp_writer'')"
proof -
  obtain ents where d: "jv (snd (renamed v)) ''dpb'' = JList ents" and e: "length ents = 16"
    "map (\<lambda>e. jfield e ''timestamp_writer'') (take (length ws) ents) = ws" "dhas (snd (renamed v)) ''dpb''"
    "list_all (\<lambda>e. case e of JObj d \<Rightarrow> dhas d ''timestamp_writer'' | _ \<Rightarrow> False) ents"
    using assms(1) unfolding dpb_ok_def by (auto split: json.split_asm)
  have "sub (JObj (snd (renamed v))) ''dpb'' = Inr (JList ents)" using d e(3) by (auto simp: sub_def jv_def dhas_def)
  then have "rbind (rbind (sub (jv row ''controls'') ''DECODE_PARAMS'') (\<lambda>dp. sub dp ''dpb'')) py_iter = Inr ents"
    using assms(2,3) by (simp add: demo_set_def jv_def sub_def py_iter_def)
  moreover have "sub (ents ! i) ''timestamp_writer'' = Inr (jfield (ents ! i) ''timestamp_writer'')" if "i < 16" for i
    using e(1,4) that unfolding list_all_length
    by (cases "ents ! i") (auto simp: sub_def jfield_def jv_def dhas_def dest!: spec [of _ i])
  ultimately show ?thesis using that e(1,2) by blast
qed

lemma bound_none: "rr_dpb ref = [] \<Longrightarrow> rall (bound_entry refs ref row) (zip [0..<k] ents) = Inr ()"
  by (auto simp: rall_Inr bound_entry_def)

lemma bound_one:
  assumes "rr_dpb ref = [d]" and "length ents = 16" and "sub (ents ! 0) ''timestamp_writer'' = Inr (JInt 1)" and "jint row ''picture'' = 2"
    and "refs \<noteq> []" and "rr_target (refs ! 0) = dr_buf d"
  shows "rall (bound_entry refs ref row) (zip [0..<16] ents) = Inr ()"
proof -
  have "bound_entry refs ref row (i, ents ! i) = Inr ()" if "i < 16" for i
    using assms by (cases i) (simp_all add: bound_entry_def int_value_def require_and_def)
  then show ?thesis using assms(2) by (auto simp: rall_Inr in_set_zip)
qed

lemma full_demo_accepted:
  obtains rows refs pics where "full_normalize full_demo (JInt 2) full_run = Inr (rows, refs, pics)"
    "map (\<lambda>r. length (rr_dpb r)) refs = [0, 1]"
    "\<exists>ents. py_iter (jfield (jfield (jfield (rows ! 1) ''controls'') ''DECODE_PARAMS'') ''dpb'') = Inr ents \<and> length ents = 16"
proof -
  obtain refs pics where life: "lifecycle_normalize (full_selected (full_event 25 (new_items demo_items1) (raw_items demo_items1))
     (full_event 29 (new_items demo_items2) (raw_items demo_items2))) (JInt 2) full_run = Inr (refs, pics)"
    and shape: "map (\<lambda>r. map dr_buf (rr_dpb r)) refs = [[], [4]]" "map rr_target refs = [4, 9]"
    "map as_system_frame_number pics = [1, 2]" "map as_pic pics = [1, 2]"
    using full_demo_lifecycle unfolding lifecycle_ok_def by (auto split: sum.split_asm)
  then obtain r0 r1 d p0 p1 where refs: "refs = [r0, r1]" "rr_dpb r0 = []" "rr_dpb r1 = [d]" "dr_buf d = 4" "rr_target r0 = 4"
    and pics: "pics = [p0, p1]" "as_system_frame_number p0 = int (as_pic p0)" "as_system_frame_number p1 = int (as_pic p1)"
    by (auto simp: map_eq_Cons_conv)
  obtain s0 s1 where sets: "demo_sets = [s0, s1]" "s0 = demo_set 1 [''DECODE_PARAMS'', ''PPS'', ''SCALING_MATRIX'', ''SLICE_PARAMS'', ''SPS''] 1 (item_sets demo_items1)"
    "s1 = demo_set 2 [''DECODE_PARAMS'', ''PPS'', ''SCALING_MATRIX'', ''SLICE_PARAMS''] 1 (item_sets demo_items2 @ [(''SPS'', snd (hd (item_sets demo_items1)))])"
    by (simp add: demo_sets_def)
  have dp: "dget (item_sets demo_items1) ''DECODE_PARAMS'' = Some (JObj (snd (renamed full_dp0)))"
    "dget (item_sets demo_items2 @ [(''SPS'', v)]) ''DECODE_PARAMS'' = Some (JObj (snd (renamed full_dp1)))" for v
    by (simp_all add: item_sets_def demo_items1_def demo_items2_def plain_demo_def decode_demo_def case_prod_unfold)
  have b0: "\<exists>v. bound_set full_run refs (s0, r0) = Inr v"
    by (rule demo_set_dpb [OF demo_dpbs(1) dp(1) sets(2)]) (simp add: bound_set_def bound_none refs(2))
  obtain ents where e: "rbind (rbind (sub (jv s1 ''controls'') ''DECODE_PARAMS'') (\<lambda>dp. sub dp ''dpb'')) py_iter = Inr ents"
      "length ents = 16" "map (\<lambda>e. jfield e ''timestamp_writer'') (take (length [JInt 1]) ents) = [JInt 1]"
      "\<forall>i < 16. sub (ents ! i) ''timestamp_writer'' = Inr (jfield (ents ! i) ''timestamp_writer'')"
    by (rule demo_set_dpb [OF demo_dpbs(2) dp(2) sets(3)])
  have "sub (ents ! 0) ''timestamp_writer'' = Inr (JInt 1)" using e(2,3) e(4) [rule_format, of 0] by (cases ents) auto
  then have "rall (bound_entry refs r1 s1) (zip [0..<16] ents) = Inr ()"
    using refs e(2) by (intro bound_one) (simp_all add: sets(3) demo_set_def jint_def jv_def)
  then obtain v1 where b1: "bound_set full_run refs (s1, r1) = Inr v1" "jfield v1 ''controls'' = jv s1 ''controls''"
    using e(1,2) by (simp add: bound_set_def jfield_def jv_def sets(3) demo_set_def)
  have v1: "py_iter (jfield (jfield (jfield v1 ''controls'') ''DECODE_PARAMS'') ''dpb'') = Inr ents"
    using e(1) unfolding b1(2) by (auto elim!: rbind_InrE dest!: sub_jfield)
  from b0 b1(1) obtain v0 where rows: "rmap (bound_set full_run refs) (zip demo_sets refs) = Inr [v0, v1]"
    by (auto simp: sets(1) refs(1))
  have rel: "rmap relabel (zip pics [5000, 9000]) = Inr [p0\<lparr>as_system_frame_number := 5\<rparr>, p1\<lparr>as_system_frame_number := 9\<rparr>]"
    using pics by (simp add: relabel_def)
  have "full_normalize full_demo (JInt 2) full_run =
    Inr ([v0, v1], refs, [p0\<lparr>as_system_frame_number := 5\<rparr>, p1\<lparr>as_system_frame_number := 9\<rparr>])"
    unfolding full_normalize_def demo_fd rbind_simps demo_walk prod.case life
    using rows rel pics(1) by (simp add: demo_state4_def full_init_def)
  then show ?thesis using that refs v1 e(2) by simp
qed

theorem full_controls_bound_witness:
  "\<exists>rows refs pics ents. full_normalize full_demo (JInt 2) full_run = Inr (rows, refs, pics) \<and> length rows = 2 \<and>
     py_iter (jfield (jfield (jfield (rows ! 1) ''controls'') ''DECODE_PARAMS'') ''dpb'') = Inr ents \<and> length ents = 16 \<and>
     jfield (ents ! 0) ''timestamp_writer'' = JInt 1"
proof -
  obtain rows refs pics where r: "full_normalize full_demo (JInt 2) full_run = Inr (rows, refs, pics)"
    and l: "map (\<lambda>r. length (rr_dpb r)) refs = [0, 1]"
    and ex: "\<exists>ents. py_iter (jfield (jfield (jfield (rows ! 1) ''controls'') ''DECODE_PARAMS'') ''dpb'') = Inr ents \<and> length ents = 16"
    by (rule full_demo_accepted)
  from ex obtain ents where e: "py_iter (jfield (jfield (jfield (rows ! 1) ''controls'') ''DECODE_PARAMS'') ''dpb'') = Inr ents"
    "length ents = 16" by blast
  from l obtain r0 r1 where refs: "refs = [r0, r1]" "length (rr_dpb r1) = 1" by (auto simp: map_eq_Cons_conv)
  note b = full_controls_bound [OF r]
  have len: "1 < length refs" "length rows = 2" using b refs(1) by simp_all
  obtain w where w: "jfield (ents ! 0) ''timestamp_writer'' = JInt (int w)" "1 \<le> w" "w \<le> 1"
    using b [THEN conjunct2, THEN conjunct2, rule_format, OF len(1)] e refs by auto
  then have "w = 1" by simp
  with w r e len(2) show ?thesis by auto
qed

end
