(* ===== verification/Avd_Map.thy ===== *)
theory Avd_Map
  imports Pyvalues
begin

unbundle bit_operations_syntax

text \<open>
  Predictions of the reference commands, \<open>src/experiments/hevc-avd-map/model.py\<close>: partially known
  command words, the reference table and list words, the motion word, the kernel's buffer lookup, and
  the walk over the normalized pictures (\<open>map_records\<close>) that tracks the latest writer of each buffer.

  Records are JSON values; subscripts raise as in Python. A word that the code renders as a
  hexadecimal text is kept as the integer. Names of unknown inputs and the descriptive texts of the
  result are kept where they vary.
\<close>

definition WORD_ALL :: int where "WORD_ALL = 0xffffffff"
definition MAP_SCHEMA :: string where "MAP_SCHEMA = ''libva-v4l2request.hevc-refs/1''"

definition map_integer :: "json \<Rightarrow> int \<Rightarrow> int \<Rightarrow> int py" where
  "map_integer v low high = int_in ''invalid integer/range'' low high v"

subsection \<open>Partially known words\<close>

type_synonym word_field = "string \<times> int \<times> int option"

record partial_word =
  known_mask :: int
  known_value :: int
  pw_value :: "int option"
  unknown_inputs :: "string list"

text \<open>The loop of \<^verbatim>\<open>word\<close>: the known bits, the unknown bits and the names of the missing inputs.\<close>

definition word_step :: "word_field \<Rightarrow> int \<times> int \<times> string list \<Rightarrow> (int \<times> int \<times> string list) py" where
  "word_step f acc = (case f of (name, msk, bits) \<Rightarrow> (case acc of (val, unknown, missing) \<Rightarrow>
     (case bits of
        None \<Rightarrow> Inr (val, unknown OR msk, missing @ [name])
      | Some b \<Rightarrow>
          rbind (require (b AND NOT msk = 0) ''word field outside mask'') (\<lambda>_.
          Inr (val OR b, unknown, missing)))))"

definition cmd_word :: "word_field list \<Rightarrow> partial_word py" where
  "cmd_word flds =
     rbind (rfold word_step flds (0, 0, [])) (\<lambda>(val, unknown, missing).
     let unknown' = unknown AND NOT val in
     Inr \<lparr>known_mask = WORD_ALL XOR unknown', known_value = val,
          pw_value = (if unknown' \<noteq> 0 then None else Some val), unknown_inputs = missing\<rparr>)"

definition ref_header :: "json \<Rightarrow> json \<Rightarrow> json \<Rightarrow> json \<Rightarrow> partial_word py" where
  "ref_header cnt long_term slice_poc reference_poc =
     rbind (map_integer cnt 1 16) (\<lambda>n.
     rbind (map_integer long_term 0 1) (\<lambda>lt.
     rbind (if slice_poc \<noteq> JNull \<and> reference_poc \<noteq> JNull
            then rbind (map_integer slice_poc (-(2 ^ 31)) (2 ^ 31 - 1)) (\<lambda>sp.
                 rbind (map_integer reference_poc (-(2 ^ 31)) (2 ^ 31 - 1)) (\<lambda>rp.
                 rbind (map_integer (JInt (sp - rp)) (-(2 ^ 31)) (2 ^ 31 - 1)) (\<lambda>d.
                 Inr (Some (d AND 0x1ffff)))))
            else Inr None) (\<lambda>delta.
     cmd_word [(''count_minus_one'', 0xf0000000, Some (push_bit 28 (n - 1))),
               (''constant'', push_bit 24 1, Some (push_bit 24 1)),
               (''long_term'', push_bit 17 1, Some (push_bit 17 lt)),
               (''slice_pic_order_cnt'', 0x1ffff, delta)])))"

definition ref_list_word :: "int \<Rightarrow> int \<Rightarrow> int \<Rightarrow> int py" where
  "ref_list_word which position slot =
     rbind (map_integer (JInt which) 0 1) (\<lambda>w.
     rbind (map_integer (JInt position) 0 15) (\<lambda>p.
     rbind (map_integer (JInt slot) 0 15) (\<lambda>s.
     Inr (0x2dc00000 OR push_bit 8 w OR push_bit 4 p OR s))))"

subsection \<open>The kernel's buffer lookup\<close>

fun py_distinct :: "json list \<Rightarrow> bool" where
  "py_distinct [] = True"
| "py_distinct (v # vs) = (\<not> list_ex (py_eq v) vs \<and> py_distinct vs)"

record lookup_result =
  lookup_index :: json
  lookup_fallback :: bool

definition check_kernel_buffer :: "json \<Rightarrow> (int \<times> bool \<times> int) py" where
  "check_kernel_buffer b =
     rbind (rbind (sub b ''index'') (\<lambda>v. map_integer v 0 (2 ^ 32 - 1))) (\<lambda>i.
     rbind (sub b ''copied_timestamp'') (\<lambda>c.
     rbind (require (is_bool c) ''missing timestamp validity'') (\<lambda>_.
     rbind (rbind (sub b ''timestamp'') (\<lambda>v. map_integer v 0 (2 ^ 64 - 1))) (\<lambda>t.
     Inr (i, c = JBool True, t)))))"

definition kernel_lookup :: "json list \<Rightarrow> json \<Rightarrow> json \<Rightarrow> lookup_result py" where
  "kernel_lookup buffers timestamp destination =
     rbind (map_integer timestamp 0 (2 ^ 64 - 1)) (\<lambda>ts.
     rbind (rmap (\<lambda>b. sub b ''index'') buffers) (\<lambda>indices.
     rbind (rall py_hash indices) (\<lambda>_.
     rbind (require (py_distinct indices \<and> list_ex (py_eq destination) indices) ''ambiguous buffer snapshot'') (\<lambda>_.
     rbind (rmap check_kernel_buffer buffers) (\<lambda>rows.
     Inr (case find (\<lambda>(i, copied, t). copied \<and> t = ts) (sort_key fst rows) of
            Some (i, _) \<Rightarrow> \<lparr>lookup_index = JInt i, lookup_fallback = False\<rparr>
          | None \<Rightarrow> \<lparr>lookup_index = destination, lookup_fallback = True\<rparr>))))))"

subsection \<open>Pictures\<close>

record writer =
  w_picture :: int
  w_poc :: int
  w_buffer :: int
  w_generation :: int
  w_is_intra :: bool

record map_ref =
  mr_slot :: int
  mr_writer :: writer
  mr_long_term :: int
  mr_header :: partial_word
  mr_header_value :: "int option"
  mr_buffer :: json

record list_entry =
  le_position :: int
  le_slot :: int
  le_word :: int
  le_writer :: writer

record motion_pred =
  mo_collocated :: "writer option"
  mo_expected_ref_valid :: "bool option"
  mo_gate_reason :: string
  mo_word :: partial_word

record mapped =
  mp_picture :: int
  mp_poc :: int
  mp_slice_type :: string
  mp_nal :: json
  mp_destination :: writer
  mp_previous :: "writer option"
  mp_dpb :: "map_ref list"
  mp_table_emitted :: bool
  mp_l0 :: "list_entry list"
  mp_l1 :: "list_entry list"
  mp_motion :: motion_pred

text \<open>The validated part of a slice that \<^verbatim>\<open>motion\<close> reads: type, flag, the two lists of slots.\<close>

definition motion_fields :: "string \<Rightarrow> bool \<Rightarrow> bool \<Rightarrow> nat \<Rightarrow> nat \<Rightarrow> bool option \<Rightarrow> word_field list" where
  "motion_fields typ tmvp col_l0 n0 n1 ref_valid =
     [(''opcode'', 0xff000000, Some 0x2d000000),
      (''five_minus_max_num_merge_cand'', 0xe, None),
      (''col_from_l1_flag'', 0x10, Some (push_bit 4 (of_bool (tmvp \<and> \<not> col_l0)))),
      (''CABAC_INIT'', 0x20, None),
      (''MVD_L1_ZERO'', 0x40, None),
      (''num_ref_idx_l0_active_minus1'', 0xf800, Some (push_bit 11 (int n0 - 1))),
      (''num_ref_idx_l1_active_minus1'', 0x780,
         if typ = ''B'' then Some (push_bit 7 (int n1 - 1)) else None),
      (''DEPENDENT_SLICE_SEGMENT/FLAG2'', 0x8000, if tmvp then Some 0x8000 else None),
      (''P-slice'', 0x10000, Some (push_bit 16 (of_bool (typ = ''P'')))),
      (''ref_valid'', 0x40000, map_option (\<lambda>v. push_bit 18 (of_bool v)) ref_valid)]"

definition map_motion :: "string \<Rightarrow> bool \<Rightarrow> bool \<Rightarrow> json \<Rightarrow> int list \<Rightarrow> int list \<Rightarrow> map_ref list \<Rightarrow> motion_pred py" where
  "map_motion typ tmvp col_l0 col l0 l1 refs =
     (if typ = ''I''
      then rbind (cmd_word [(''I early return'', WORD_ALL, Some 0x2d020000)]) (\<lambda>w.
           Inr \<lparr>mo_collocated = None, mo_expected_ref_valid = Some False,
                mo_gate_reason = ''I-slice early return'', mo_word = w\<rparr>)
      else
        rbind (if tmvp
               then let selected = (if typ = ''P'' \<or> col_l0 then l0 else l1) in
                    rbind (map_integer col 0 (int (length selected) - 1)) (\<lambda>i.
                    Inr (Some (mr_writer (refs ! nat (selected ! nat i)))))
               else Inr None) (\<lambda>c.
        let (ref_valid, reason) =
              (if \<not> tmvp then (Some False, ''TMVP disabled'')
               else case c of
                 Some w \<Rightarrow> if w_is_intra w then (Some False, ''expected referenced writer is intra'')
                            else (None, ''dependent-segment flag is unrecorded'')
               | None \<Rightarrow> (None, ''dependent-segment flag is unrecorded'')) in
        rbind (cmd_word (motion_fields typ tmvp col_l0 (length l0) (length l1) ref_valid)) (\<lambda>w.
        Inr \<lparr>mo_collocated = c, mo_expected_ref_valid = ref_valid, mo_gate_reason = reason,
             mo_word = w\<rparr>)))"

subsection \<open>The walk over the pictures\<close>

record map_state =
  ms_writers :: "(int, writer) dict"
  ms_generations :: "(int, int) dict"
  ms_pocs :: "int list"
  ms_mapped :: "mapped list"

definition map_init :: map_state where
  "map_init = \<lparr>ms_writers = [], ms_generations = [], ms_pocs = [], ms_mapped = []\<rparr>"

text \<open>\<^verbatim>\<open>writers.get(v)\<close> for a key as it comes from the record.\<close>

definition writer_of :: "(int, writer) dict \<Rightarrow> json \<Rightarrow> writer option" where
  "writer_of ws v = map_option snd (find (\<lambda>(b, w). py_eq (JInt b) v) ws)"

definition map_dpb_entry ::
  "map_state \<Rightarrow> int \<Rightarrow> json \<Rightarrow> nat \<Rightarrow> json \<Rightarrow> map_ref list \<times> json list \<Rightarrow> (map_ref list \<times> json list) py" where
  "map_dpb_entry st target poc n e acc = (case acc of (refs, seen) \<Rightarrow>
     let slot = length refs in
     rbind (rbind (sub e ''i'') (\<lambda>i.
            if py_eq i (JInt (int slot)) then rbind (sub e ''field'') (\<lambda>f. Inr (py_eq f (JInt 0)))
            else Inr False)) (\<lambda>ok.
     rbind (require ok ''unsupported DPB layout/field'') (\<lambda>_.
     rbind (rbind (sub e ''lt'') (\<lambda>v. map_integer v 0 1)) (\<lambda>lt.
     rbind (sub e ''buf'') (\<lambda>buf.
     rbind (if py_eq buf (JInt target) then Inr False
            else rbind (py_hash buf) (\<lambda>_. Inr (\<not> list_ex (py_eq buf) seen))) (\<lambda>fresh.
     rbind (require fresh ''destination/duplicate DPB alias'') (\<lambda>_.
     rbind (case writer_of (ms_writers st) buf of
              None \<Rightarrow> Inl (Reject ''unresolved/stale buffer writer'')
            | Some w \<Rightarrow> rbind (sub e ''poc'') (\<lambda>p.
                rbind (require (py_eq (JInt (w_poc w)) p) ''unresolved/stale buffer writer'') (\<lambda>_. Inr (w, p)))) (\<lambda>(w, p).
     rbind (ref_header (JInt (int n)) (JInt lt) JNull JNull) (\<lambda>h.
     rbind (ref_header (JInt (int n)) (JInt lt) poc p) (\<lambda>hv.
     Inr (refs @ [\<lparr>mr_slot = int slot, mr_writer = w, mr_long_term = lt, mr_header = h,
                    mr_header_value = pw_value hv, mr_buffer = buf\<rparr>], seen @ [buf])))))))))))"

definition map_list_entry :: "int \<Rightarrow> map_ref list \<Rightarrow> json \<Rightarrow> list_entry list \<Rightarrow> list_entry list py" where
  "map_list_entry which refs v acc =
     rbind (map_integer v 0 (int (length refs) - 1)) (\<lambda>slot.
     rbind (ref_list_word which (int (length acc)) slot) (\<lambda>w.
     Inr (acc @ [\<lparr>le_position = int (length acc), le_slot = slot, le_word = w,
                   le_writer = mr_writer (refs ! nat slot)\<rparr>])))"

definition map_list :: "json \<Rightarrow> string \<Rightarrow> int \<Rightarrow> map_ref list \<Rightarrow> list_entry list py" where
  "map_list s key which refs =
     rbind (sub s key) (\<lambda>v.
     rbind (py_len v) (\<lambda>n.
     rbind (require (n \<le> 16) ''oversized active list'') (\<lambda>_.
     rbind (py_iter v) (\<lambda>xs. rfold (map_list_entry which refs) xs []))))"

definition equals_ordinal :: "json \<Rightarrow> int \<Rightarrow> string \<Rightarrow> unit py" where
  "equals_ordinal r ordinal key =
     rbind (rbind (sub r key) (\<lambda>v. map_integer v 1 10000)) (\<lambda>i.
     require (i = ordinal) ''incomplete or reordered picture'')"

definition check_slot_list :: "json \<Rightarrow> map_ref list \<Rightarrow> string \<Rightarrow> unit py" where
  "check_slot_list r refs key =
     rbind (sub r key) (\<lambda>v. rbind (py_iter v) (\<lambda>xs.
     rall (\<lambda>i. rbind (map_integer i 0 (int (length refs) - 1)) (\<lambda>_. Inr ())) xs))"

text \<open>Header checks of one record, up to its picture order count.\<close>

definition map_record_header :: "json \<Rightarrow> json \<Rightarrow> map_state \<Rightarrow> int \<Rightarrow> json \<Rightarrow> int py" where
  "map_record_header ctx run st ordinal r =
     rbind (sub r ''schema'') (\<lambda>schema.
     rbind (require (py_eq schema (JStr MAP_SCHEMA)) ''unsupported schema'') (\<lambda>_.
     rbind (sub r ''ctx'') (\<lambda>c.
     rbind (if py_eq c ctx then rbind (sub r ''run'') (\<lambda>v. Inr (py_eq v run)) else Inr False) (\<lambda>same.
     rbind (require same ''mixed context/run'') (\<lambda>_.
     rbind (rall (equals_ordinal r ordinal) [''seq'', ''pic'', ''req'']) (\<lambda>_.
     rbind (sub r ''first'') (\<lambda>f. rbind (sub r ''last'') (\<lambda>l.
     rbind (dict_get r ''slices_omitted'') (\<lambda>om.
     rbind (require (py_eq f l \<and> py_eq l (JInt 1) \<and> \<not> py_true om) ''batched/omitted picture'') (\<lambda>_.
     rbind (rbind (sub r ''poc'') (\<lambda>v. map_integer v (-(2 ^ 31)) (2 ^ 31 - 1))) (\<lambda>poc.
     rbind (require (poc \<notin> set (ms_pocs st)) ''repeated POC/epoch outside model domain'') (\<lambda>_.
     Inr poc))))))))))))"

definition map_slice :: "json \<Rightarrow> (json \<times> string \<times> bool) py" where
  "map_slice r =
     rbind (sub r ''slices'') (\<lambda>sl.
     rbind (py_len sl) (\<lambda>n.
     rbind (require (n = 1) ''model requires exactly one slice'') (\<lambda>_.
     rbind (py_first sl) (\<lambda>s.
     rbind (sub s ''i'') (\<lambda>i.
     rbind (if py_eq i (JInt 0)
            then rbind (sub s ''type'') (\<lambda>t. Inr (t \<in> {JStr ''I'', JStr ''P'', JStr ''B''})) else Inr False) (\<lambda>ok.
     rbind (require ok ''unsupported slice'') (\<lambda>_.
     rbind (sub s ''type'') (\<lambda>t.
     rbind (rbind (sub s ''tmvp'') (\<lambda>v. map_integer v 0 1)) (\<lambda>tm.
     Inr (s, (case t of JStr x \<Rightarrow> x | _ \<Rightarrow> []), tm = 1))))))))))"

definition map_record :: "json \<Rightarrow> json \<Rightarrow> json \<Rightarrow> map_state \<Rightarrow> map_state py" where
  "map_record ctx run r st =
     (let ordinal = int (length (ms_mapped st)) + 1 in
     rbind (map_record_header ctx run st ordinal r) (\<lambda>poc.
     rbind (rbind (sub r ''target'') (\<lambda>v. map_integer v 0 (2 ^ 32 - 1))) (\<lambda>target.
     rbind (map_slice r) (\<lambda>(s, typ, tmvp).
     rbind (sub r ''dpb'') (\<lambda>d.
     rbind (py_len d) (\<lambda>n.
     rbind (require (n \<le> 16) ''oversized DPB'') (\<lambda>_.
     rbind (py_iter d) (\<lambda>es.
     rbind (rfold (map_dpb_entry st target (JInt poc) n) es ([], [])) (\<lambda>(refs, _).
     rbind (rall (check_slot_list r refs) [''st_before'', ''st_after'', ''lt_curr'']) (\<lambda>_.
     rbind (map_list s ''l0'' 0 refs) (\<lambda>l0.
     rbind (map_list s ''l1'' 1 refs) (\<lambda>l1.
     rbind (require ((typ = ''I'' \<and> l0 = [] \<and> l1 = []) \<or> (typ = ''P'' \<and> l0 \<noteq> [] \<and> l1 = []) \<or>
                     (typ = ''B'' \<and> l0 \<noteq> [] \<and> l1 \<noteq> [])) ''slice/list mismatch'') (\<lambda>_.
     rbind (if tmvp
            then rbind (rbind (sub s ''col_l0'') (\<lambda>v. map_integer v 0 1)) (\<lambda>cl.
                 rbind (rbind (sub s ''col'') (\<lambda>v. map_integer v 0 255)) (\<lambda>c. Inr (cl = 1, JInt c)))
            else Inr (False, JNull)) (\<lambda>(col_l0, col).
     let prior = dget (ms_writers st) target;
         generation = (case dget (ms_generations st) target of None \<Rightarrow> 0 | Some g \<Rightarrow> g) + 1;
         current = \<lparr>w_picture = ordinal, w_poc = poc, w_buffer = target, w_generation = generation,
                    w_is_intra = (typ = ''I'')\<rparr> in
     rbind (sub s ''nal'') (\<lambda>nal.
     rbind (map_motion typ tmvp col_l0 col (map le_slot l0) (map le_slot l1) refs) (\<lambda>mo.
     Inr \<lparr>ms_writers = dset target current (ms_writers st),
          ms_generations = dset target generation (ms_generations st),
          ms_pocs = poc # ms_pocs st,
          ms_mapped = ms_mapped st @
            [\<lparr>mp_picture = ordinal, mp_poc = poc, mp_slice_type = typ, mp_nal = nal,
              mp_destination = current, mp_previous = prior, mp_dpb = refs,
              mp_table_emitted = (typ \<noteq> ''I''), mp_l0 = l0, mp_l1 = l1, mp_motion = mo\<rparr>]\<rparr>))))))))))))))))"

definition map_records :: "json list \<Rightarrow> json \<Rightarrow> mapped list py" where
  "map_records records expected =
     rbind (map_integer expected 1 10000) (\<lambda>n.
     rbind (require (int (length records) = n) ''incomplete extent'') (\<lambda>_.
     case records of
       [] \<Rightarrow> Inr []
     | r0 # _ \<Rightarrow>
         rbind (sub r0 ''schema'') (\<lambda>schema.
         rbind (require (py_eq schema (JStr MAP_SCHEMA)) ''unsupported schema'') (\<lambda>_.
         rbind (sub r0 ''ctx'') (\<lambda>ctx.
         rbind (sub r0 ''run'') (\<lambda>run.
         rbind (rfold (map_record ctx run) records map_init) (\<lambda>st. Inr (ms_mapped st))))))))"

subsection \<open>Partially known words are sound and as sharp as possible\<close>

text \<open>A completion gives every field bits within its mask and the known fields the bits they have.\<close>

definition fits :: "word_field \<Rightarrow> int \<Rightarrow> bool" where
  "fits f b \<longleftrightarrow> b AND NOT (fst (snd f)) = 0 \<and> (snd (snd f) = None \<or> snd (snd f) = Some b)"

definition completes :: "word_field list \<Rightarrow> int \<Rightarrow> bool" where
  "completes flds v \<longleftrightarrow> (\<exists>bs. list_all2 fits flds bs \<and> v = foldr (OR) bs 0)"

lemma within_mask_bit: "b AND NOT m = 0 \<Longrightarrow> bit b i \<Longrightarrow> bit m i" for b m :: int
  by (metis bit_0_eq bit_and_iff bit_not_int_iff bot_apply bot_bool_def)

lemma word_step_Inr:
  "word_step (name, m, k) (val, unk, mis) = Inr r \<longleftrightarrow>
     (case k of None \<Rightarrow> r = (val, unk OR m, mis @ [name])
      | Some b \<Rightarrow> b AND NOT m = 0 \<and> r = (val OR b, unk, mis))"
  by (auto simp: word_step_def res_simps split: option.splits)

lemma word_fold_mono:
  "rfold word_step flds (v, u, m) = Inr (v', u', m') \<Longrightarrow>
     (bit v i \<longrightarrow> bit v' i) \<and> (bit u i \<longrightarrow> bit u' i)"
proof (induction flds arbitrary: v u m)
  case (Cons f flds)
  obtain name msk k where f: "f = (name, msk, k)" by (cases f)
  obtain v1 u1 m1 where 1: "word_step f (v, u, m) = Inr (v1, u1, m1)"
    and 2: "rfold word_step flds (v1, u1, m1) = Inr (v', u', m')"
    using Cons.prems by (auto elim!: rbind_InrE)
  have "(bit v i \<longrightarrow> bit v1 i) \<and> (bit u i \<longrightarrow> bit u1 i)"
    using 1 unfolding f word_step_Inr by (auto simp: bit_or_iff split: option.splits)
  with Cons.IH [OF 2] show ?case by blast
qed simp

lemma word_fold_bits:
  assumes "rfold word_step flds (v, u, m) = Inr (v', u', m')" and "list_all2 fits flds bs"
  shows "(bit v' i \<longrightarrow> bit v i \<or> bit (foldr (OR) bs 0) i) \<and>
    (bit (foldr (OR) bs 0) i \<longrightarrow> bit v' i \<or> bit u' i)"
  using assms
proof (induction flds arbitrary: v u m bs)
  case (Cons f flds)
  obtain name msk k where f: "f = (name, msk, k)" by (cases f)
  obtain v1 u1 m1 where 1: "word_step f (v, u, m) = Inr (v1, u1, m1)"
    and 2: "rfold word_step flds (v1, u1, m1) = Inr (v', u', m')"
    using Cons.prems(1) by (auto elim!: rbind_InrE)
  obtain b bs' where bs: "bs = b # bs'" "fits f b" "list_all2 fits flds bs'"
    using Cons.prems(2) by (auto simp: list_all2_Cons1)
  have step: "(bit v1 i \<longrightarrow> bit v i \<or> bit b i) \<and> (bit b i \<longrightarrow> bit v1 i \<or> bit u1 i)"
    using 1 bs(2) within_mask_bit unfolding f word_step_Inr fits_def
    by (auto simp: bit_or_iff split: option.splits)
  show ?case
    using Cons.IH [OF 2 bs(3)] step word_fold_mono [OF 2, of i] unfolding bs(1)
    by (auto simp: bit_or_iff)
qed simp

definition low_completion :: "word_field \<Rightarrow> int" where
  "low_completion f = (case snd (snd f) of None \<Rightarrow> 0 | Some b \<Rightarrow> b)"

definition high_completion :: "word_field \<Rightarrow> int" where
  "high_completion f = (case snd (snd f) of None \<Rightarrow> fst (snd f) | Some b \<Rightarrow> b)"

lemma word_fold_completions:
  assumes "rfold word_step flds (v, u, m) = Inr (v', u', m')"
  shows "list_all2 fits flds (map low_completion flds) \<and> list_all2 fits flds (map high_completion flds) \<and>
    v' = v OR foldr (OR) (map low_completion flds) 0 \<and>
    v' OR u' = (v OR u) OR foldr (OR) (map high_completion flds) 0"
  using assms
proof (induction flds arbitrary: v u m)
  case (Cons f flds)
  obtain name msk k where f: "f = (name, msk, k)" by (cases f)
  obtain v1 u1 m1 where 1: "word_step f (v, u, m) = Inr (v1, u1, m1)"
    and 2: "rfold word_step flds (v1, u1, m1) = Inr (v', u', m')"
    using Cons.prems by (auto elim!: rbind_InrE)
  have "fits f (low_completion f)" "fits f (high_completion f)"
      "v1 = v OR low_completion f" "v1 OR u1 = (v OR u) OR high_completion f"
    using 1 unfolding f word_step_Inr
    by (auto simp: fits_def low_completion_def high_completion_def or.assoc or.commute or.left_commute
        split: option.splits)
  then have step: "fits f (low_completion f)" "fits f (high_completion f)"
      "v1 OR x = v OR (low_completion f OR x)" "(v1 OR u1) OR x = (v OR u) OR (high_completion f OR x)" for x
    by (simp_all only: or.assoc)
  show ?case
    using Cons.IH [OF 2] step(1,2) unfolding step(4) unfolding step(3) list.map foldr.simps o_apply list_all2_Cons
    by blast
qed simp

lemma bit_WORD_ALL: "bit WORD_ALL i \<longleftrightarrow> i < 32"
proof -
  have "WORD_ALL = Bit_Operations.mask 32" by (simp add: WORD_ALL_def mask_eq_exp_minus_1)
  show ?thesis unfolding \<open>WORD_ALL = Bit_Operations.mask 32\<close> bit_mask_iff by simp
qed

lemma cmd_word_Inr:
  assumes "cmd_word flds = Inr w"
  obtains u m where "rfold word_step flds (0, 0, []) = Inr (known_value w, u, m)"
    "known_mask w = WORD_ALL XOR (u AND NOT (known_value w))"
    "pw_value w = (if u AND NOT (known_value w) \<noteq> 0 then None else Some (known_value w))"
proof -
  obtain val u m where "rfold word_step flds (0, 0, []) = Inr (val, u, m)"
    "known_mask w = WORD_ALL XOR (u AND NOT val)" "known_value w = val"
    "pw_value w = (if u AND NOT val \<noteq> 0 then None else Some val)"
    using assms unfolding cmd_word_def Let_def by (auto elim!: rbind_InrE)
  then show thesis using that by simp
qed

lemma cmd_word_total:
  assumes "list_all2 fits flds bs"
  shows "\<exists>w. cmd_word flds = Inr w"
proof -
  have "\<exists>r. rfold word_step flds acc = Inr r" for acc
    using assms
  proof (induction arbitrary: acc rule: list_all2_induct)
    case (Cons f fs b bs)
    obtain r where "word_step f acc = Inr r"
      using Cons.hyps(1) by (cases f; cases acc) (auto simp: word_step_def fits_def split: option.splits)
    with Cons.IH [of r] show ?case by simp
  qed (unfold rfold.simps, blast)
  then obtain r where "rfold word_step flds (0, 0, []) = Inr r" by blast
  then show ?thesis by (cases r) (simp add: cmd_word_def Let_def)
qed

lemma completion_in_word:
  assumes "list_all2 fits flds bs" and "\<forall>f \<in> set flds. fst (snd f) AND NOT WORD_ALL = 0"
    and "bit (foldr (OR) bs 0) i"
  shows "i < 32"
  using assms
proof (induction rule: list_all2_induct)
  case (Cons f fs b bs)
  have "bit b i \<Longrightarrow> i < 32"
    using Cons.hyps(1) Cons.prems(1) within_mask_bit [of b "fst (snd f)" i]
      within_mask_bit [of "fst (snd f)" WORD_ALL i] by (simp add: fits_def bit_WORD_ALL)
  with Cons show ?case by (auto simp: bit_or_iff)
qed simp

lemma cmd_word_completion:
  assumes "cmd_word flds = Inr w" and "\<forall>f \<in> set flds. fst (snd f) AND NOT WORD_ALL = 0"
    and "completes flds v"
  shows "v AND known_mask w = known_value w" and "pw_value w = Some x \<Longrightarrow> v = x"
proof -
  obtain u m where fold: "rfold word_step flds (0, 0, []) = Inr (known_value w, u, m)"
    and km: "known_mask w = WORD_ALL XOR (u AND NOT (known_value w))"
    and pw: "pw_value w = (if u AND NOT (known_value w) \<noteq> 0 then None else Some (known_value w))"
    by (rule cmd_word_Inr [OF assms(1)])
  obtain bs where bs: "list_all2 fits flds bs" "v = foldr (OR) bs 0"
    using assms(3) unfolding completes_def by blast
  have vi: "(bit (known_value w) i \<longrightarrow> bit v i) \<and> (bit v i \<longrightarrow> bit (known_value w) i \<or> bit u i)"
      "bit v i \<Longrightarrow> i < 32" for i
    using word_fold_bits [OF fold bs(1), of i] completion_in_word [OF bs(1) assms(2), of i] unfolding bs(2)
    by simp_all
  show "v AND known_mask w = known_value w"
    unfolding bit_eq_iff bit_and_iff km bit_xor_iff bit_not_int_iff bit_WORD_ALL using vi by blast
  assume "pw_value w = Some x"
  then have z: "u AND NOT (known_value w) = 0" "x = known_value w" using pw by (auto split: if_splits)
  have "bit u i \<Longrightarrow> bit (known_value w) i" for i by (rule within_mask_bit [OF z(1)])
  then show "v = x" unfolding z(2) bit_eq_iff using vi by blast
qed

text \<open>
  C21. A partially known command word is sound and sharp. Whatever the unrecorded inputs contribute
  within their masks, the resulting word agrees with the prediction on the known mask, and a complete
  prediction is the word. Conversely a bit outside the known mask is really undetermined: two
  completions differ there.
\<close>
theorem cmd_word_sound_sharp:
  assumes "cmd_word flds = Inr w" and "\<forall>f \<in> set flds. fst (snd f) AND NOT WORD_ALL = 0"
  shows "(\<forall>v. completes flds v \<longrightarrow> v AND known_mask w = known_value w \<and>
            (\<forall>x. pw_value w = Some x \<longrightarrow> v = x)) \<and>
    (\<forall>i < 32. \<not> bit (known_mask w) i \<longrightarrow>
       (\<exists>v v'. completes flds v \<and> completes flds v' \<and> bit v i \<noteq> bit v' i))"
proof -
  obtain u m where fold: "rfold word_step flds (0, 0, []) = Inr (known_value w, u, m)"
    and km: "known_mask w = WORD_ALL XOR (u AND NOT (known_value w))"
    by (rule cmd_word_Inr [OF assms(1)])
  have "completes flds (known_value w)" "completes flds (known_value w OR u)"
    using word_fold_completions [OF fold] unfolding or.left_neutral completes_def by blast+
  moreover have "bit (known_value w) i \<noteq> bit (known_value w OR u) i"
    if "i < 32" "\<not> bit (known_mask w) i" for i
    using that unfolding km bit_xor_iff bit_and_iff bit_not_int_iff bit_WORD_ALL bit_or_iff by blast
  ultimately show ?thesis using cmd_word_completion [OF assms] by blast
qed

definition header_fields :: "int \<Rightarrow> int \<Rightarrow> int option \<Rightarrow> word_field list" where
  "header_fields n lt delta =
     [(''count_minus_one'', 0xf0000000, Some (push_bit 28 (n - 1))),
      (''constant'', push_bit 24 1, Some (push_bit 24 1)),
      (''long_term'', push_bit 17 1, Some (push_bit 17 lt)),
      (''slice_pic_order_cnt'', 0x1ffff, delta)]"

theorem cmd_word_sound_sharp_witness:
  "\<exists>w. cmd_word (header_fields 2 1 None) = Inr w \<and> 0x11020005 AND known_mask w = known_value w"
proof -
  let ?w = "\<lparr>known_mask = 0xfffe0000, known_value = 0x11020000, pw_value = None,
    unknown_inputs = [''slice_pic_order_cnt'']\<rparr>"
  have w: "cmd_word (header_fields 2 1 None) = Inr ?w" by code_simp
  have m: "\<forall>f \<in> set (header_fields 2 1 None). fst (snd f) AND NOT WORD_ALL = 0" by code_simp
  have "list_all2 fits (header_fields 2 1 None) [0x10000000, 0x1000000, 0x20000, 5]" by code_simp
  moreover have "(0x11020005 :: int) = foldr (OR) [0x10000000, 0x1000000, 0x20000, 5] 0" by code_simp
  ultimately have "completes (header_fields 2 1 None) 0x11020005" unfolding completes_def by blast
  with cmd_word_sound_sharp [OF w m] have "0x11020005 AND known_mask ?w = known_value ?w" by blast
  with w show ?thesis by blast
qed

subsection \<open>Command words decode\<close>

lemma high_bit: "0 \<le> a \<Longrightarrow> a < 2 ^ k \<Longrightarrow> k \<le> i \<Longrightarrow> \<not> bit a i" for a :: int
  by (metis bit_take_bit_iff linorder_not_le take_bit_int_eq_self)

lemma header_bits:
  assumes "1 \<le> n" "n \<le> 16" "lt \<in> {0, 1}" "0 \<le> d" "d < 2 ^ 17"
  shows "\<exists>w. cmd_word (header_fields n lt (Some d)) = Inr w \<and>
    pw_value w = Some (push_bit 28 (n - 1) OR push_bit 24 1 OR push_bit 17 lt OR d)"
proof -
  have "n - 1 \<in> set [0..15]" using assms(1,2) by simp
  moreover have "list_all (\<lambda>m. push_bit 28 m AND NOT 0xf0000000 = (0 :: int)) [0..15]" by code_simp
  ultimately have 1: "push_bit 28 (n - 1) AND NOT 0xf0000000 = 0" unfolding list_all_iff by blast
  have 2: "push_bit 17 lt AND NOT (push_bit 17 1) = 0" using assms(3) by auto
  have m: "0x1ffff = (Bit_Operations.mask 17 :: int)" by (simp add: mask_eq_exp_minus_1)
  have 3: "d AND NOT 0x1ffff = 0"
    unfolding m bit_eq_iff bit_and_iff bit_not_int_iff bit_mask_iff
    using high_bit [OF assms(4,5)] not_le by auto
  show ?thesis
    unfolding cmd_word_def header_fields_def Let_def
    using 1 2 3 by (simp add: word_step_def or.assoc)
qed

lemma low17: "0 \<le> take_bit 17 a" "take_bit 17 a < 2 ^ 17" for a :: int
  by (rule take_bit_nonnegative, rule take_bit_int_less_exp)

lemma ref_header_known:
  assumes "1 \<le> n" "n \<le> 16" "lt \<in> {0, 1}" "- (2 ^ 31) \<le> sp" "sp < 2 ^ 31" "- (2 ^ 31) \<le> rp" "rp < 2 ^ 31"
    and "- (2 ^ 31) \<le> sp - rp" "sp - rp < 2 ^ 31"
  shows "\<exists>w. ref_header (JInt n) (JInt lt) (JInt sp) (JInt rp) = Inr w \<and>
    pw_value w = Some (push_bit 28 (n - 1) OR push_bit 24 1 OR push_bit 17 lt OR take_bit 17 (sp - rp))"
proof -
  have m: "(sp - rp) AND 0x1ffff = take_bit 17 (sp - rp)"
    by (simp add: take_bit_eq_mask mask_eq_exp_minus_1)
  have "ref_header (JInt n) (JInt lt) (JInt sp) (JInt rp) =
      cmd_word (header_fields n lt (Some (take_bit 17 (sp - rp))))"
    using assms m unfolding ref_header_def map_integer_def header_fields_def by (auto simp: int_in_def)
  then show ?thesis using header_bits [OF assms(1-3) low17] by (simp only:)
qed

lemma decode_header:
  fixes n lt d :: int
  assumes "1 \<le> n" "n \<le> 16" "lt \<in> {0, 1}" "0 \<le> d" "d < 2 ^ 17"
  defines "x \<equiv> push_bit 28 (n - 1) OR push_bit 24 1 OR push_bit 17 lt OR d"
  shows "drop_bit 28 x = n - 1" and "take_bit 1 (drop_bit 17 x) = lt" and "take_bit 17 x = d"
proof -
  have n: "\<not> bit (n - 1) (4 + i)" for i by (rule high_bit [of _ 4]) (use assms(1,2) in simp_all)
  have lt: "\<not> bit lt (Suc i)" for i by (rule high_bit [of _ 1]) (use assms(3) in auto)
  have d: "17 \<le> i \<Longrightarrow> \<not> bit d i" for i by (rule high_bit [OF assms(4,5)])
  have xb: "bit x i \<longleftrightarrow> (28 \<le> i \<and> bit (n - 1) (i - 28)) \<or> i = 24 \<or> (17 \<le> i \<and> bit lt (i - 17)) \<or> bit d i" for i
    unfolding x_def bit_or_iff bit_push_bit_iff bit_1_iff by auto
  show "drop_bit 28 x = n - 1"
  proof (rule bit_eqI)
    fix i
    have "\<not> bit lt (11 + i)" using lt [of "10 + i"] by simp
    then show "bit (drop_bit 28 x) i = bit (n - 1) i" using d [of "28 + i"] by (simp add: bit_drop_bit_eq xb)
  qed
  show "take_bit 1 (drop_bit 17 x) = lt"
  proof (rule bit_eqI)
    fix i
    show "bit (take_bit 1 (drop_bit 17 x)) i = bit lt i"
      unfolding bit_take_bit_iff bit_drop_bit_eq o_apply xb using lt [of "i - 1"] d [of "17 + i"] n
      by (cases "i = 0") auto
  qed
  show "take_bit 17 x = d"
  proof (rule bit_eqI)
    fix i show "bit (take_bit 17 x) i = bit d i" using d [of i] not_le by (auto simp: bit_take_bit_iff xb)
  qed
qed

lemma position_bits:
  fixes p :: int
  assumes "0 \<le> p" "p \<le> 15"
  shows "drop_bit 20 (push_bit 4 p) = 0" "take_bit 4 (drop_bit 8 (push_bit 4 p)) = 0"
    "take_bit 4 (drop_bit 4 (push_bit 4 p)) = p" "take_bit 4 (push_bit 4 p) = 0"
proof -
  have "p \<in> set [0..15]" using assms by simp
  moreover have "list_all (\<lambda>p. drop_bit 20 (push_bit 4 p) = 0 \<and> take_bit 4 (drop_bit 8 (push_bit 4 p)) = 0 \<and>
      take_bit 4 (drop_bit 4 (push_bit 4 p)) = p \<and> take_bit 4 (push_bit 4 p) = (0 :: int)) [0..15]" by code_simp
  ultimately show "drop_bit 20 (push_bit 4 p) = 0" "take_bit 4 (drop_bit 8 (push_bit 4 p)) = 0"
    "take_bit 4 (drop_bit 4 (push_bit 4 p)) = p" "take_bit 4 (push_bit 4 p) = 0"
    unfolding list_all_iff by blast+
qed

lemma slot_bits:
  fixes p :: int
  assumes "0 \<le> p" "p \<le> 15"
  shows "drop_bit 20 p = 0" "take_bit 4 (drop_bit 8 p) = 0" "take_bit 4 (drop_bit 4 p) = 0" "take_bit 4 p = p"
proof -
  have "p \<in> set [0..15]" using assms by simp
  moreover have "list_all (\<lambda>p. drop_bit 20 p = 0 \<and> take_bit 4 (drop_bit 8 p) = 0 \<and>
      take_bit 4 (drop_bit 4 p) = 0 \<and> take_bit 4 p = (p :: int)) [0..15]" by code_simp
  ultimately show "drop_bit 20 p = 0" "take_bit 4 (drop_bit 8 p) = 0" "take_bit 4 (drop_bit 4 p) = 0"
    "take_bit 4 p = p"
    unfolding list_all_iff by blast+
qed

text \<open>
  C22. The reference commands lose nothing: from the table word of a reference one reads back the
  number of references, the long-term flag and the picture order count distance modulo 2^17, and from
  a list word which list, which position and which slot it sets.
\<close>
theorem reference_words_decode:
  assumes "1 \<le> n" "n \<le> 16" "lt \<in> {0, 1}" "- (2 ^ 31) \<le> sp" "sp < 2 ^ 31" "- (2 ^ 31) \<le> rp" "rp < 2 ^ 31"
    and "- (2 ^ 31) \<le> sp - rp" "sp - rp < 2 ^ 31"
    and "which \<in> {0, 1}" "0 \<le> position" "position \<le> 15" "0 \<le> slot" "slot \<le> 15"
  shows "\<exists>w x y. ref_header (JInt n) (JInt lt) (JInt sp) (JInt rp) = Inr w \<and> pw_value w = Some x \<and>
      drop_bit 28 x + 1 = n \<and> take_bit 1 (drop_bit 17 x) = lt \<and> take_bit 17 x = (sp - rp) mod 2 ^ 17 \<and>
      ref_list_word which position slot = Inr y \<and> drop_bit 20 y = 0x2dc \<and>
      take_bit 4 (drop_bit 8 y) = which \<and> take_bit 4 (drop_bit 4 y) = position \<and> take_bit 4 y = slot"
proof -
  let ?d = "take_bit 17 (sp - rp)"
  let ?x = "push_bit 28 (n - 1) OR push_bit 24 1 OR push_bit 17 lt OR ?d"
  obtain w where w: "ref_header (JInt n) (JInt lt) (JInt sp) (JInt rp) = Inr w" "pw_value w = Some ?x"
    using ref_header_known [OF assms(1-9)] by blast
  have dec: "drop_bit 28 ?x = n - 1" "take_bit 1 (drop_bit 17 ?x) = lt" "take_bit 17 ?x = ?d"
    by (rule decode_header [OF assms(1-3) low17])+
  let ?y = "0x2dc00000 OR push_bit 8 which OR push_bit 4 position OR slot"
  have "drop_bit 20 ?y = 0x2dc \<and> take_bit 4 (drop_bit 8 ?y) = which \<and>
      take_bit 4 (drop_bit 4 ?y) = position \<and> take_bit 4 ?y = slot"
    unfolding drop_bit_or take_bit_or
    using assms(10) position_bits [of position] slot_bits [of slot] assms(11-) by auto
  moreover have "ref_list_word which position slot = Inr ?y"
    using assms unfolding ref_list_word_def map_integer_def by (auto simp: int_in_def)
  moreover have "?d = (sp - rp) mod 2 ^ 17" by (rule take_bit_eq_mod)
  moreover have "drop_bit 28 ?x + 1 = n" unfolding dec(1) by simp
  ultimately show ?thesis using w dec(2,3) by metis
qed

theorem reference_words_decode_witness:
  "\<exists>w x y. ref_header (JInt 3) (JInt 1) (JInt 8) (JInt 4) = Inr w \<and> pw_value w = Some x \<and>
     take_bit 17 x = 4 \<and> ref_list_word 1 2 3 = Inr y \<and> take_bit 4 y = 3"
  using reference_words_decode [of 3 1 8 4 1 2 3] by auto

subsection \<open>References resolve to the latest writer\<close>

definition latest :: "writer list \<Rightarrow> int \<Rightarrow> writer option" where
  "latest hist b = find (\<lambda>w. w_buffer w = b) (rev hist)"

definition writes_to :: "writer list \<Rightarrow> int \<Rightarrow> int" where
  "writes_to hist b = int (length (filter (\<lambda>w. w_buffer w = b) hist))"

lemma latest_snoc: "latest (hist @ [w]) b = (if w_buffer w = b then Some w else latest hist b)"
  by (simp add: latest_def)

lemma writes_to_snoc: "writes_to (hist @ [w]) b = writes_to hist b + of_bool (w_buffer w = b)"
  by (simp add: writes_to_def)

lemma latest_Some_buffer: "latest hist b = Some w \<Longrightarrow> w_buffer w = b"
  by (auto simp: latest_def find_Some_iff)

text \<open>
  What the prediction \<open>m\<close> for the record \<open>r\<close> must satisfy after the destinations \<open>hist\<close>. A mapped
  reference belongs to one DPB entry \<open>e\<close> of the record: its buffer is the entry's, its writer is the last
  one of that buffer and has the entry's order count, and its header words are those of the entry.
\<close>

definition ref_matches :: "writer list \<Rightarrow> int \<Rightarrow> int \<Rightarrow> nat \<Rightarrow> json \<Rightarrow> map_ref \<Rightarrow> bool" where
  "ref_matches hist target poc n e m \<longleftrightarrow>
     sub e ''buf'' = Inr (mr_buffer m) \<and> py_eq (JInt (w_buffer (mr_writer m))) (mr_buffer m) \<and>
     latest hist (w_buffer (mr_writer m)) = Some (mr_writer m) \<and> w_buffer (mr_writer m) \<noteq> target \<and>
     sub e ''poc'' = Inr (JInt (w_poc (mr_writer m))) \<and> sub e ''lt'' = Inr (JInt (mr_long_term m)) \<and>
     ref_header (JInt (int n)) (JInt (mr_long_term m)) JNull JNull = Inr (mr_header m) \<and>
     (\<exists>h. ref_header (JInt (int n)) (JInt (mr_long_term m)) (JInt poc) (JInt (w_poc (mr_writer m))) = Inr h \<and>
        mr_header_value m = pw_value h)"

text \<open>Entry \<open>i\<close> of the active list \<open>which\<close> names slot \<open>v\<close> of the record.\<close>

definition entry_ok :: "map_ref list \<Rightarrow> int \<Rightarrow> nat \<Rightarrow> json \<Rightarrow> list_entry \<Rightarrow> bool" where
  "entry_ok refs which i v e \<longleftrightarrow> v = JInt (le_slot e) \<and> 0 \<le> le_slot e \<and> le_slot e < int (length refs) \<and>
     le_position e = int i \<and> le_writer e = mr_writer (refs ! nat (le_slot e)) \<and>
     le_word e = (0x2dc00000 OR push_bit 8 which OR push_bit 4 (int i) OR le_slot e)"

definition list_ok :: "map_ref list \<Rightarrow> int \<Rightarrow> json list \<Rightarrow> list_entry list \<Rightarrow> bool" where
  "list_ok refs which vs l \<longleftrightarrow> length l = length vs \<and> (\<forall>i < length l. entry_ok refs which i (vs ! i) (l ! i))"

definition lists_match :: "json \<Rightarrow> mapped \<Rightarrow> bool" where
  "lists_match r m \<longleftrightarrow> (\<exists>s vs vs'. rbind (sub r ''slices'') py_first = Inr s \<and>
     rbind (sub s ''l0'') py_iter = Inr vs \<and> list_ok (mp_dpb m) 0 vs (mp_l0 m) \<and>
     rbind (sub s ''l1'') py_iter = Inr vs' \<and> list_ok (mp_dpb m) 1 vs' (mp_l1 m))"

definition picture_resolved :: "json \<Rightarrow> writer list \<Rightarrow> mapped \<Rightarrow> bool" where
  "picture_resolved r hist m \<longleftrightarrow>
     mp_picture m = int (length hist) + 1 \<and> w_picture (mp_destination m) = mp_picture m \<and>
     w_poc (mp_destination m) = mp_poc m \<and> sub r ''poc'' = Inr (JInt (mp_poc m)) \<and>
     sub r ''target'' = Inr (JInt (w_buffer (mp_destination m))) \<and>
     mp_previous m = latest hist (w_buffer (mp_destination m)) \<and>
     w_generation (mp_destination m) = writes_to hist (w_buffer (mp_destination m)) + 1 \<and>
     (\<exists>es. rbind (sub r ''dpb'') py_iter = Inr es \<and>
        list_all2 (ref_matches hist (w_buffer (mp_destination m)) (mp_poc m) (length es)) es (mp_dpb m)) \<and>
     distinct (map (w_buffer \<circ> mr_writer) (mp_dpb m)) \<and> lists_match r m"

definition resolved :: "json list \<Rightarrow> mapped list \<Rightarrow> bool" where
  "resolved rs ms \<longleftrightarrow> length ms = length rs \<and>
     (\<forall>k < length ms. picture_resolved (rs ! k) (map mp_destination (take k ms)) (ms ! k))"

lemma resolved_snoc:
  assumes "resolved rs ms" and "picture_resolved r (map mp_destination ms) m"
  shows "resolved (rs @ [r]) (ms @ [m])"
  using assms by (auto simp: resolved_def nth_append less_Suc_eq)

definition map_inv :: "json list \<Rightarrow> map_state \<Rightarrow> bool" where
  "map_inv rs st \<longleftrightarrow> dict_ok (ms_writers st) \<and>
     (\<forall>b. dget (ms_writers st) b = latest (map mp_destination (ms_mapped st)) b) \<and>
     (\<forall>b. (case dget (ms_generations st) b of None \<Rightarrow> 0 | Some g \<Rightarrow> g) =
           writes_to (map mp_destination (ms_mapped st)) b) \<and>
     ms_pocs st = rev (map mp_poc (ms_mapped st)) \<and> distinct (map mp_poc (ms_mapped st)) \<and>
     resolved rs (ms_mapped st)"

lemma map_inv_init: "map_inv [] map_init"
  by (simp add: map_inv_def map_init_def latest_def writes_to_def resolved_def)

text \<open>A DPB entry, the reference made of it and the buffer value that is remembered.\<close>

definition dpb_match :: "map_state \<Rightarrow> int \<Rightarrow> int \<Rightarrow> nat \<Rightarrow> json \<Rightarrow> map_ref \<Rightarrow> bool" where
  "dpb_match st target poc n e m \<longleftrightarrow>
     sub e ''buf'' = Inr (mr_buffer m) \<and> (\<exists>b. (b, mr_writer m) \<in> set (ms_writers st) \<and> py_eq (JInt b) (mr_buffer m)) \<and>
     \<not> py_eq (mr_buffer m) (JInt target) \<and>
     sub e ''poc'' = Inr (JInt (w_poc (mr_writer m))) \<and> sub e ''lt'' = Inr (JInt (mr_long_term m)) \<and>
     ref_header (JInt (int n)) (JInt (mr_long_term m)) JNull JNull = Inr (mr_header m) \<and>
     (\<exists>h. ref_header (JInt (int n)) (JInt (mr_long_term m)) (JInt poc) (JInt (w_poc (mr_writer m))) = Inr h \<and>
        mr_header_value m = pw_value h)"

definition dpb_acc_ok :: "map_state \<Rightarrow> int \<Rightarrow> int \<Rightarrow> nat \<Rightarrow> json list \<Rightarrow> map_ref list \<times> json list \<Rightarrow> bool" where
  "dpb_acc_ok st target poc n es acc \<longleftrightarrow> list_all2 (dpb_match st target poc n) es (fst acc) \<and>
     snd acc = map mr_buffer (fst acc) \<and> sorted_wrt (\<lambda>a b. \<not> py_eq b a) (snd acc)"

lemma ref_header_ints:
  assumes "ref_header cnt lt (JInt sp) p = Inr h" and "py_eq (JInt w) p"
  shows "p = JInt w"
proof -
  have "p \<noteq> JNull" using assms(2) by auto
  then obtain rp where "p = JInt rp" using assms(1) by (auto simp: ref_header_def res_simps map_integer_def)
  then show ?thesis using assms(2) by simp
qed

lemma map_dpb_entry_ok:
  assumes "map_dpb_entry st target (JInt poc) n e acc = Inr acc'" and "dpb_acc_ok st target poc n es acc"
  shows "dpb_acc_ok st target poc n (es @ [e]) acc'"
proof -
  obtain refs seen where acc: "acc = (refs, seen)" by (cases acc)
  obtain buf w p lt h h0 where buf: "sub e ''buf'' = Inr buf" "\<not> py_eq buf (JInt target)" "\<not> list_ex (py_eq buf) seen"
    and w: "writer_of (ms_writers st) buf = Some w" "sub e ''poc'' = Inr p" "py_eq (JInt (w_poc w)) p"
    and lt: "sub e ''lt'' = Inr (JInt lt)"
    and hv: "ref_header (JInt (int n)) (JInt lt) (JInt poc) p = Inr h"
    and h0: "ref_header (JInt (int n)) (JInt lt) JNull JNull = Inr h0"
    and acc': "acc' = (refs @ [\<lparr>mr_slot = int (length refs), mr_writer = w, mr_long_term = lt, mr_header = h0,
      mr_header_value = pw_value h, mr_buffer = buf\<rparr>], seen @ [buf])"
    using assms(1) unfolding acc map_dpb_entry_def Let_def map_integer_def
    by (auto elim!: rbind_InrE simp: require_Inr int_in_Inr split: if_splits option.splits)
  have p: "p = JInt (w_poc w)" using hv w(3) by (rule ref_header_ints)
  obtain b where b: "(b, w) \<in> set (ms_writers st)" "py_eq (JInt b) buf"
    using w(1) by (auto simp: writer_of_def find_Some_iff dest: nth_mem)
  have "dpb_match st target poc n e \<lparr>mr_slot = int (length refs), mr_writer = w, mr_long_term = lt, mr_header = h0,
      mr_header_value = pw_value h, mr_buffer = buf\<rparr>"
    unfolding dpb_match_def using buf(1,2) b w(2) lt hv h0 p by auto
  then show ?thesis
    using assms(2) buf(3) unfolding acc acc' dpb_acc_ok_def
    by (auto simp: sorted_wrt_append list_ex_iff intro: list_all2_appendI)
qed

lemma dpb_refs_resolved:
  assumes inv: "map_inv rs st" and ok: "dpb_acc_ok st target poc n es (refs, seen)"
  shows "list_all2 (ref_matches (map mp_destination (ms_mapped st)) target poc n) es refs" (is ?A)
    and "distinct (map (w_buffer \<circ> mr_writer) refs)" (is ?B)
proof -
  let ?hist = "map mp_destination (ms_mapped st)"
  have m: "list_all2 (dpb_match st target poc n) es refs"
    and sorted: "sorted_wrt (\<lambda>a b. \<not> py_eq b a) (map mr_buffer refs)"
    using ok by (auto simp: dpb_acc_ok_def)
  have key: "latest ?hist b = Some w" "w_buffer w = b" if "(b, w) \<in> set (ms_writers st)" for b w
  proof -
    have "distinct (map fst (ms_writers st))" using inv unfolding map_inv_def dict_ok_def by blast
    then have "dget (ms_writers st) b = Some w" using that by (rule map_of_is_SomeI)
    then show "latest ?hist b = Some w" using inv by (simp add: map_inv_def)
    then show "w_buffer w = b" by (rule latest_Some_buffer)
  qed
  have match: "ref_matches ?hist target poc n e r" if d: "dpb_match st target poc n e r" for e r
  proof -
    obtain b where b: "(b, mr_writer r) \<in> set (ms_writers st)" "py_eq (JInt b) (mr_buffer r)"
      using d unfolding dpb_match_def by blast
    have "w_buffer (mr_writer r) \<noteq> target" using key(2) [OF b(1)] b(2) d py_eq_sym unfolding dpb_match_def by blast
    then show ?thesis using d b(2) key [OF b(1)] unfolding dpb_match_def ref_matches_def by simp
  qed
  show all: ?A using m by (rule list_all2_mono) (rule match)
  show ?B
    unfolding distinct_conv_nth
  proof (intro allI impI)
    fix i j assume ij: "i < length (map (w_buffer \<circ> mr_writer) refs)" "j < length (map (w_buffer \<circ> mr_writer) refs)" "i \<noteq> j"
    have ne: "\<not> py_eq (mr_buffer (refs ! i)) (mr_buffer (refs ! j))"
      using sorted ij unfolding sorted_wrt_iff_nth_less by (metis length_map linorder_neqE_nat nth_map py_eq_sym)
    have "py_eq (JInt (w_buffer (mr_writer (refs ! k)))) (mr_buffer (refs ! k))" if "k < length refs" for k
      using list_all2_nthD2 [OF all that] by (simp add: ref_matches_def)
    then show "map (w_buffer \<circ> mr_writer) refs ! i \<noteq> map (w_buffer \<circ> mr_writer) refs ! j"
      using ne ij py_eq_sym py_eq_trans by (metis comp_apply length_map nth_map)
  qed
qed

lemma map_list_ok:
  assumes "map_list s key which refs = Inr l" and "which \<in> {0, 1}"
  shows "\<exists>vs. rbind (sub s key) py_iter = Inr vs \<and> list_ok refs which vs l"
proof -
  obtain vs where vs: "rbind (sub s key) py_iter = Inr vs" and fold: "rfold (map_list_entry which refs) vs [] = Inr l"
    using assms(1) unfolding map_list_def by (auto elim!: rbind_InrE)
  have "list_ok refs which vs l"
  proof (rule rfold_prefix_invariant [OF fold])
    fix vs v acc acc' assume acc: "list_ok refs which vs acc" and "map_list_entry which refs v acc = Inr acc'"
    then obtain e where "acc' = acc @ [e]" "entry_ok refs which (length acc) v e"
      unfolding map_list_entry_def ref_list_word_def map_integer_def
      by (auto elim!: rbind_InrE simp: int_in_Inr entry_ok_def)
    then show "list_ok refs which (vs @ [v]) acc'" using acc by (auto simp: list_ok_def nth_append less_Suc_eq)
  qed (simp add: list_ok_def)
  with vs show ?thesis by blast
qed

lemma py_len_iter: "py_len v = Inr n \<Longrightarrow> py_iter v = Inr es \<Longrightarrow> n = length es"
  by (cases v) (auto simp: py_len_def py_iter_def)

lemma map_record_Inr:
  assumes "map_record ctx run r st = Inr st'"
  obtains m target poc ty refs seen es where
    "poc \<notin> set (ms_pocs st)" "rbind (sub r ''dpb'') py_iter = Inr es" "dpb_acc_ok st target poc (length es) es (refs, seen)"
    "sub r ''poc'' = Inr (JInt poc)" "sub r ''target'' = Inr (JInt target)"
    "st' = \<lparr>ms_writers = dset target (mp_destination m) (ms_writers st),
       ms_generations = dset target (w_generation (mp_destination m)) (ms_generations st),
       ms_pocs = poc # ms_pocs st, ms_mapped = ms_mapped st @ [m]\<rparr>"
    "mp_picture m = int (length (ms_mapped st)) + 1" "mp_poc m = poc"
    "mp_destination m = \<lparr>w_picture = mp_picture m, w_poc = poc, w_buffer = target,
       w_generation = (case dget (ms_generations st) target of None \<Rightarrow> 0 | Some g \<Rightarrow> g) + 1,
       w_is_intra = (ty = ''I'')\<rparr>"
    "mp_previous m = dget (ms_writers st) target" "mp_dpb m = refs"
    "lists_match r m"
proof -
  let ?ordinal = "int (length (ms_mapped st)) + 1"
  obtain poc where poc: "map_record_header ctx run st ?ordinal r = Inr poc"
    using assms unfolding map_record_def Let_def by (elim rbind_InrE)
  note 1 = assms [unfolded map_record_def Let_def poc rbind_simps]
  obtain target s ty tmvp d n es refs seen l0 l1 col_l0 col nal mo where
    t: "sub r ''target'' = Inr (JInt target)" and sl: "map_slice r = Inr (s, ty, tmvp)"
    and d: "sub r ''dpb'' = Inr d" "py_len d = Inr n" "py_iter d = Inr es"
    and fold: "rfold (map_dpb_entry st target (JInt poc) n) es ([], []) = Inr (refs, seen)"
    and l: "map_list s ''l0'' 0 refs = Inr l0" "map_list s ''l1'' 1 refs = Inr l1"
    and st': "st' = \<lparr>ms_writers = dset target \<lparr>w_picture = ?ordinal, w_poc = poc, w_buffer = target,
         w_generation = (case dget (ms_generations st) target of None \<Rightarrow> 0 | Some g \<Rightarrow> g) + 1,
         w_is_intra = (ty = ''I'')\<rparr> (ms_writers st),
       ms_generations = dset target ((case dget (ms_generations st) target of None \<Rightarrow> 0 | Some g \<Rightarrow> g) + 1)
         (ms_generations st),
       ms_pocs = poc # ms_pocs st,
       ms_mapped = ms_mapped st @ [\<lparr>mp_picture = ?ordinal, mp_poc = poc, mp_slice_type = ty, mp_nal = nal,
         mp_destination = \<lparr>w_picture = ?ordinal, w_poc = poc, w_buffer = target,
           w_generation = (case dget (ms_generations st) target of None \<Rightarrow> 0 | Some g \<Rightarrow> g) + 1,
           w_is_intra = (ty = ''I'')\<rparr>,
         mp_previous = dget (ms_writers st) target, mp_dpb = refs, mp_table_emitted = (ty \<noteq> ''I''),
         mp_l0 = l0, mp_l1 = l1, mp_motion = mo\<rparr>]\<rparr>"
    using 1 by (elim rbind_InrE prod.exhaust) (auto elim!: rbind_InrE simp: map_integer_def int_in_Inr)
  have poc': "poc \<notin> set (ms_pocs st)" "sub r ''poc'' = Inr (JInt poc)"
    using poc unfolding map_record_header_def map_integer_def by (auto elim!: rbind_InrE simp: require_Inr int_in_Inr)
  have n: "n = length es" using d(2,3) by (rule py_len_iter)
  have acc: "dpb_acc_ok st target poc n es (refs, seen)"
    using fold by (rule rfold_prefix_invariant) (simp add: dpb_acc_ok_def, rule map_dpb_entry_ok)
  have "rbind (sub r ''slices'') py_first = Inr s" using sl by (auto simp: map_slice_def elim!: rbind_InrE)
  then have "lists_match r (last (ms_mapped st'))"
    using map_list_ok [OF l(1)] map_list_ok [OF l(2)] unfolding lists_match_def by (simp add: st')
  then show thesis
    using poc' d(1,3) acc t
    by (intro that [where poc = poc and target = target and refs = refs and seen = seen and es = es
        and m = "last (ms_mapped st')" and ty = ty]) (simp_all add: st' n)
qed

lemma map_record_inv:
  assumes inv: "map_inv rs st" and step: "map_record ctx run r st = Inr st'"
  shows "map_inv (rs @ [r]) st'"
proof -
  obtain m target poc ty refs seen es where poc: "poc \<notin> set (ms_pocs st)" and es: "rbind (sub r ''dpb'') py_iter = Inr es"
    and acc: "dpb_acc_ok st target poc (length es) es (refs, seen)"
    and src: "sub r ''poc'' = Inr (JInt poc)" "sub r ''target'' = Inr (JInt target)"
    and st': "st' = \<lparr>ms_writers = dset target (mp_destination m) (ms_writers st),
       ms_generations = dset target (w_generation (mp_destination m)) (ms_generations st),
       ms_pocs = poc # ms_pocs st, ms_mapped = ms_mapped st @ [m]\<rparr>"
    and pic: "mp_picture m = int (length (ms_mapped st)) + 1" "mp_poc m = poc"
    and dest: "mp_destination m = \<lparr>w_picture = mp_picture m, w_poc = poc, w_buffer = target,
       w_generation = (case dget (ms_generations st) target of None \<Rightarrow> 0 | Some g \<Rightarrow> g) + 1,
       w_is_intra = (ty = ''I'')\<rparr>"
    and prev: "mp_previous m = dget (ms_writers st) target" and dpb: "mp_dpb m = refs"
    and lists: "lists_match r m"
    by (rule map_record_Inr [OF step])
  let ?hist = "map mp_destination (ms_mapped st)"
  have w: "dget (ms_writers st) b = latest ?hist b"
    and g: "(case dget (ms_generations st) b of None \<Rightarrow> 0 | Some g \<Rightarrow> g) = writes_to ?hist b" for b
    using inv unfolding map_inv_def by blast+
  have buf: "w_buffer (mp_destination m) = target"
      "w_generation (mp_destination m) = writes_to ?hist target + 1"
      "w_poc (mp_destination m) = poc" "w_picture (mp_destination m) = mp_picture m"
    by (simp_all add: dest g)
  have "picture_resolved r ?hist m"
    unfolding picture_resolved_def dpb prev w buf pic using lists src es dpb_refs_resolved [OF inv acc] by simp
  then have "resolved (rs @ [r]) (ms_mapped st @ [m])" using inv by (intro resolved_snoc) (simp_all add: map_inv_def)
  moreover have "dget (dset target (mp_destination m) (ms_writers st)) b =
      latest (?hist @ [mp_destination m]) b" for b
    by (simp add: latest_snoc buf w)
  moreover have "(case dget (dset target (w_generation (mp_destination m)) (ms_generations st)) b of
      None \<Rightarrow> 0 | Some g \<Rightarrow> g) = writes_to (?hist @ [mp_destination m]) b" for b
    using g [of b] by (simp add: writes_to_snoc buf)
  ultimately show ?thesis
    using inv poc pic(2) unfolding st' map_inv_def
    by simp
qed

lemma map_records_inv:
  assumes "rfold (map_record ctx run) rs map_init = Inr st"
  shows "map_inv rs st"
  using assms map_inv_init by (rule rfold_prefix_invariant) (rule map_record_inv)

text \<open>
  C20. Every reference of an accepted trace is resolved to the latest writer of the buffer that the
  record names. One prediction per record, with the record's order count and destination; order counts
  are distinct; the previous content and the generation of the destination are the last writer and the
  number of writes of that buffer so far. The mapped references are, one for one and in order, the DPB
  entries of the record: each has the entry's buffer, which is not the destination, its writer is the
  last picture that wrote that buffer and has the entry's order count, and its header words are those
  of the entry; no two share a buffer. Every active list entry is the slot the record lists there, its
  writer is that of the DPB entry in the slot, and its word encodes list, position and slot.
\<close>
theorem map_records_resolves_latest:
  assumes "map_records rs n = Inr ms"
  shows "length ms = length rs \<and> distinct (map mp_poc ms) \<and> resolved rs ms"
proof (cases rs)
  case Nil
  then show ?thesis using assms by (auto simp: map_records_def res_simps map_integer_def)
next
  case (Cons r0 rest)
  obtain ctx run st where "rfold (map_record ctx run) rs map_init = Inr st" "ms = ms_mapped st"
    using assms unfolding map_records_def Cons list.case by (elim rbind_InrE) (simp add: Cons)
  then have "map_inv rs st" "ms = ms_mapped st" using map_records_inv by blast+
  then show ?thesis by (simp add: map_inv_def resolved_def)
qed

subsection \<open>A trace\<close>

definition map_sample :: "json list" where
  "map_sample =
     [JObj [(''schema'', JStr MAP_SCHEMA), (''ctx'', JInt 1), (''run'', JStr ''r''), (''seq'', JInt 1),
        (''pic'', JInt 1), (''req'', JInt 1), (''first'', JInt 1), (''last'', JInt 1), (''poc'', JInt 0),
        (''target'', JInt 5), (''slices'', JList [JObj [(''i'', JInt 0), (''type'', JStr ''I''),
           (''tmvp'', JInt 0), (''nal'', JInt 19), (''l0'', JList []), (''l1'', JList [])]]),
        (''dpb'', JList []), (''st_before'', JList []), (''st_after'', JList []), (''lt_curr'', JList [])],
      JObj [(''schema'', JStr MAP_SCHEMA), (''ctx'', JInt 1), (''run'', JStr ''r''), (''seq'', JInt 2),
        (''pic'', JInt 2), (''req'', JInt 2), (''first'', JInt 1), (''last'', JInt 1), (''poc'', JInt 4),
        (''target'', JInt 6), (''slices'', JList [JObj [(''i'', JInt 0), (''type'', JStr ''P''),
           (''tmvp'', JInt 1), (''col_l0'', JInt 1), (''col'', JInt 0), (''nal'', JInt 1),
           (''l0'', JList [JInt 0]), (''l1'', JList [])]]),
        (''dpb'', JList [JObj [(''i'', JInt 0), (''field'', JInt 0), (''lt'', JInt 0), (''buf'', JInt 5),
           (''poc'', JInt 0)]]),
        (''st_before'', JList [JInt 0]), (''st_after'', JList []), (''lt_curr'', JList [])]]"

theorem map_records_resolves_latest_witness:
  "\<exists>ms. map_records map_sample (JInt 2) = Inr ms \<and> length ms = 2 \<and> resolved map_sample ms \<and>
     map (map (w_picture \<circ> mr_writer) \<circ> mp_dpb) ms = [[], [1]]"
proof -
  have "(case map_records map_sample (JInt 2) of Inl _ \<Rightarrow> False
     | Inr ms \<Rightarrow> map (map (w_picture \<circ> mr_writer) \<circ> mp_dpb) ms = [[], [1]])" by code_simp
  then obtain ms where ms: "map_records map_sample (JInt 2) = Inr ms"
    "map (map (w_picture \<circ> mr_writer) \<circ> mp_dpb) ms = [[], [1]]" by (auto split: sum.splits)
  with map_records_resolves_latest [OF ms(1)] show ?thesis by (auto simp: map_sample_def)
qed

end
