(* ===== verification/Avd_Trace.thy ===== *)
theory Avd_Trace
  imports Avd_Map
begin

unbundle bit_operations_syntax

text \<open>
  The strict reader of the reference trace, \<open>src/experiments/hevc-avd-trace/check.py\<close>:
  \<open>read_capture\<close> turns the snapshot text into rows, \<open>validate_trace\<close> checks the rows picture by
  picture. Malformed evidence raises, a measured discrepancy of well-formed evidence is appended to
  the findings.

  A row is a dict from field names to integers with the fields of its kind; \<open>fld\<close> is subscription.
  The dicts and lists that the nested functions of \<^verbatim>\<open>validate\<close> share are the record \<open>trace_state\<close>.
  The optional oracle is the result of \<open>map_records\<close>.
\<close>

definition CAPACITY :: nat where "CAPACITY = 2048"
definition VALUES :: nat where "VALUES = 72"
definition PICTURES :: int where "PICTURES = 300"
definition FIRST :: int where "FIRST = 24"
definition LAST :: int where "LAST = 34"
definition RECORD_SIZE :: int where "RECORD_SIZE = (5 + int VALUES) * 8"
definition TMVP :: int where "TMVP = 4"
definition MVD_ZERO :: int where "MVD_ZERO = 8"
definition CABAC :: int where "CABAC = 16"
definition COL_L0 :: int where "COL_L0 = 32"
definition DEPENDENT :: int where "DEPENDENT = 512"

definition TYPES :: "(int, string) dict" where "TYPES = [(0, ''B''), (1, ''P''), (2, ''I'')]"

definition BUFFER :: "string list" where
  "BUFFER = [''buffer'', ''timestamp'', ''copied'', ''intra'', ''writer'', ''completed'', ''allocation'',
     ''length'', ''comp_start'', ''comp_size'', ''off0'', ''off1'', ''off2'', ''off3'', ''mv_size'',
     ''mv_offset'', ''bounds'', ''memory'']"

definition START :: "string list" where
  "START = [''previous_writer'', ''poc'', ''slice_poc'', ''type'', ''slices'', ''entry_capacity'',
     ''dpb_count'', ''width'', ''height''] @ BUFFER @ [''slice_entries'']"

definition TABLE :: "string list" where
  "TABLE = [''slot'', ''poc'', ''flags'', ''requested_timestamp'', ''word'', ''matched''] @ BUFFER @
     map (\<lambda>i. ''emitted_comp'' @ show_nat i) [0..<4]"

definition l_key :: "nat \<Rightarrow> nat \<Rightarrow> string" where
  "l_key li i = ''l'' @ show_nat li @ ''_'' @ show_nat i"

definition MOTION :: "string list" where
  "MOTION = [''flags'', ''type'', ''merge'', ''l0_minus1'', ''l1_minus1'', ''col_index'', ''first'',
     ''slot'', ''requested_timestamp'', ''lookup'', ''matched'', ''valid'', ''word'', ''emitted''] @
     BUFFER @ map (l_key 0) [0..<16] @ map (l_key 1) [0..<16] @ [''emitted_mv'', ''quirks'']"

definition TRACE_FIELDS :: "(int, string list) dict" where
  "TRACE_FIELDS = [(1, START), (2, [''result''] @ BUFFER), (3, TABLE),
     (4, [''list'', ''position'', ''slot'', ''word'']), (5, MOTION)]"

subsection \<open>Reading\<close>

definition trace_unsigned :: "string \<Rightarrow> int py" where
  "trace_unsigned token =
     decimal_token ''noncanonical unsigned integer'' ''integer out of range/noncanonical'' 64 token"

definition trace_signed32 :: "int \<Rightarrow> int py" where
  "trace_signed32 v =
     rbind (require (0 \<le> v \<and> v < 2 ^ 32) ''POC outside encoded s32'') (\<lambda>_.
     Inr (if v < 2 ^ 31 then v else v - 2 ^ 32))"

type_synonym row = "(string, int) dict"

definition fld :: "row \<Rightarrow> string \<Rightarrow> int" where
  "fld r k = (case dget r k of Some v \<Rightarrow> v | None \<Rightarrow> 0)"

record capture =
  cap_run :: int
  cap_context :: int
  cap_records :: "row list"
  cap_count :: int

text \<open>\<^verbatim>\<open>row[field] = signed32(row[field])\<close> when the row has the field.\<close>

definition sign_field :: "string \<Rightarrow> row \<Rightarrow> row py" where
  "sign_field k r = (case dget r k of
     None \<Rightarrow> Inr r
   | Some v \<Rightarrow> rbind (trace_signed32 v) (\<lambda>s. Inr (dset k s r)))"

definition row_of :: "int \<Rightarrow> int \<Rightarrow> int list \<Rightarrow> row py" where
  "row_of kind pic vals =
     (case dget TRACE_FIELDS kind of
        None \<Rightarrow> Inl (Reject ''unknown kind/picture'')
      | Some keys \<Rightarrow>
          rbind (require (1 \<le> pic \<and> pic \<le> PICTURES) ''unknown kind/picture'') (\<lambda>_.
          rbind (require (\<not> list_ex (\<lambda>v. v \<noteq> 0) (drop (length keys) vals)) ''unknown nonzero reserved inputs'') (\<lambda>_.
          rbind (sign_field ''poc'' (zip keys vals @ [(''kind'', kind), (''picture'', pic)])) (\<lambda>r.
          sign_field ''slice_poc'' r))))"

definition read_row :: "int \<Rightarrow> int \<Rightarrow> string \<Rightarrow> row list \<Rightarrow> row list py" where
  "read_row run ctx line rows =
     (let tokens = py_split line in
     rbind (require (length tokens = VALUES + 6 \<and> hd tokens = ''R'') ''missing/extra record inputs'') (\<lambda>_.
     rbind (rmap trace_unsigned (tl tokens)) (\<lambda>vs.
     rbind (require (take 3 vs = [run, ctx, int (length rows) + 1])
       ''wrong context/run or missing/duplicate sequence'') (\<lambda>_.
     rbind (row_of (vs ! 3) (vs ! 4) (drop 5 vs)) (\<lambda>r. Inr (rows @ [r]))))))"

definition read_capture :: "string \<Rightarrow> int \<Rightarrow> capture py" where
  "read_capture body expected_run =
     rbind (require (utf8_len body \<le> 4 * 1024 * 1024) ''oversized snapshot'') (\<lambda>_.
     let lines = splitlines body in
     rbind (require (lines \<noteq> [] \<and> length lines \<le> CAPACITY + 1) ''empty/oversized extent'') (\<lambda>_.
     let h = py_split (hd lines) in
     rbind (require (length h = 14 \<and> hd h = ''H'') ''missing/invalid header'') (\<lambda>_.
     rbind (rmap trace_unsigned (tl h)) (\<lambda>vs.
     let version = vs ! 0; run = vs ! 1; ctx = vs ! 2; phase = vs ! 3; errors = vs ! 4; count = vs ! 5;
         attempted = vs ! 6 in
     rbind (require (version = 2 \<and> run = expected_run \<and> run > 0 \<and> ctx > 0) ''wrong schema/run/context'') (\<lambda>_.
     rbind (require (phase = 4 \<and> errors = 0) ''unsealed or kernel-invalid capture'') (\<lambda>_.
     rbind (require (drop 7 vs = [PICTURES, PICTURES, int CAPACITY, FIRST, LAST, RECORD_SIZE])
       ''wrong extent/schema constants'') (\<lambda>_.
     rbind (require (count = attempted \<and> attempted = int (length lines) - 1 \<and> 600 \<le> count \<and> count \<le> 1139)
       ''loss/overflow/extent mismatch'') (\<lambda>_.
     rbind (rfold (read_row run ctx) (tl lines) []) (\<lambda>rows.
     Inr \<lparr>cap_run = run, cap_context = ctx, cap_records = rows, cap_count = count\<rparr>)))))))))"

definition motion_word :: "row \<Rightarrow> int py" where
  "motion_word m =
     (if fld m ''type'' = 2 then Inr 0x2d020000
      else let f = fld m ''flags'' in
        rbind (require (0 \<le> fld m ''merge'' \<and> fld m ''merge'' \<le> 4 \<and> fld m ''l0_minus1'' < 16 \<and>
          fld m ''l1_minus1'' < 16) ''motion controls outside experiment domain'') (\<lambda>_.
        Inr (0x2d000000 OR push_bit 1 (5 - fld m ''merge'') OR
          push_bit 4 (of_bool (f AND TMVP \<noteq> 0 \<and> f AND COL_L0 = 0)) OR
          push_bit 5 (of_bool (f AND CABAC \<noteq> 0)) OR push_bit 6 (of_bool (f AND MVD_ZERO = 0)) OR
          push_bit 11 (fld m ''l0_minus1'') OR push_bit 7 (fld m ''l1_minus1'') OR
          push_bit 15 (of_bool (f AND (TMVP OR DEPENDENT) \<noteq> 0)) OR
          push_bit 16 (of_bool (fld m ''type'' = 1)) OR push_bit 18 (fld m ''valid''))))"

subsection \<open>The state of a validation\<close>

record finding =
  fi_picture :: int
  fi_kind :: int
  fi_code :: string

record normalized_row =
  nr_fields :: row
  nr_writers :: "(string \<times> int option \<times> int list) list"

record trace_state =
  findings :: "finding list"
  starts :: "(int, row) dict"
  histories :: "(int \<times> int, int) dict"
  allocations :: "(int, int) dict"
  current_writers :: "(int, row) dict"
  current_allocations :: "(int, int) dict"
  normalized :: "normalized_row list"

definition trace_init :: trace_state where
  "trace_init = \<lparr>findings = [], starts = [], histories = [], allocations = [], current_writers = [],
     current_allocations = [], normalized = []\<rparr>"

definition add_finding :: "row \<Rightarrow> string \<Rightarrow> trace_state \<Rightarrow> trace_state" where
  "add_finding r code st = st\<lparr>findings := findings st @
     [\<lparr>fi_picture = fld r ''picture'', fi_kind = fld r ''kind'', fi_code = code\<rparr>]\<rparr>"

definition check_value :: "row \<Rightarrow> bool \<Rightarrow> string \<Rightarrow> trace_state \<Rightarrow> trace_state" where
  "check_value r c code st = (if c then st else add_finding r code st)"

definition OFFS :: "string list" where "OFFS = [''off0'', ''off1'', ''off2'', ''off3'']"

definition mv_bytes :: "row \<Rightarrow> int" where
  "mv_bytes start = ((fld start ''width'' + 63) div 64) * ((fld start ''height'' + 63) div 64) * 256"

definition layout_valid :: "row \<Rightarrow> row \<Rightarrow> bool" where
  "layout_valid r start \<longleftrightarrow>
     fld r ''length'' \<ge> mv_bytes start \<and>
     fld r ''comp_start'' + fld r ''comp_size'' \<le> fld r ''length'' - mv_bytes start \<and>
     list_all (\<lambda>k. fld r k < fld r ''comp_size'') OFFS"

text \<open>\<^verbatim>\<open>buffer\<close>: the domain of a buffer snapshot, then what it says about its writer.\<close>

definition check_snapshot :: "row \<Rightarrow> row \<Rightarrow> trace_state \<Rightarrow> trace_state py" where
  "check_snapshot r start st =
     rbind (require (list_all (\<lambda>k. fld r k \<in> {0, 1}) [''copied'', ''intra'', ''completed'', ''bounds''])
       ''invalid buffer boolean'') (\<lambda>_.
     rbind (require (fld r ''buffer'' < 2 ^ 32 \<and> fld r ''allocation'' > 0 \<and> fld r ''memory'' \<in> {1, 4})
       ''invalid buffer/allocation/memory identity'') (\<lambda>_.
     rbind (require (0 < fld r ''length'' \<and> fld r ''length'' < 2 ^ 32 \<and> fld r ''comp_start'' < 2 ^ 32 \<and>
       fld r ''comp_size'' < 2 ^ 32) ''layout outside plane domain'') (\<lambda>_.
     rbind (require (list_all (\<lambda>k. fld r k < 2 ^ 32) OFFS) ''invalid compressed offset'') (\<lambda>_.
     rbind (require (fld r ''mv_size'' = mv_bytes start \<and>
       fld r ''mv_offset'' = max 0 (fld r ''length'' - mv_bytes start) \<and>
       fld r ''bounds'' = of_bool (layout_valid r start)) ''inconsistent layout snapshot'') (\<lambda>_.
     let st1 = check_value r (layout_valid r start) ''allocation-range-out-of-bounds'' st;
         st2 = check_value r (fld r ''copied'' = 1) ''copied-timestamp-invalid'' st1 in
     rbind (case dget (allocations st2) (fld r ''allocation'') of
              None \<Rightarrow> Inr ()
            | Some b \<Rightarrow> require (b = fld r ''buffer'') ''allocation identity aliases buffer indices'') (\<lambda>_.
     Inr (st2\<lparr>allocations := dset (fld r ''allocation'') (fld r ''buffer'') (allocations st2)\<rparr>)))))))"

definition check_writer :: "row \<Rightarrow> trace_state \<Rightarrow> trace_state" where
  "check_writer r st =
     (let st1 = check_value r (dget (current_allocations st) (fld r ''buffer'') = Some (fld r ''allocation''))
            ''stale-or-unwritten-allocation'' st;
          st2 = check_value r
            (dget (histories st1) (fld r ''buffer'', fld r ''allocation'') = Some (fld r ''writer'') \<and>
             dget (starts st1) (fld r ''writer'') \<noteq> None) ''stale-or-unknown-writer'' st1;
          st3 = (case dget (starts st2) (fld r ''writer'') of
             None \<Rightarrow> st2
           | Some known \<Rightarrow>
               check_value r (fld r ''intra'' = of_bool (fld known ''type'' = 2)) ''writer-intra-mismatch''
                 (check_value r (fld r ''timestamp'' = fld known ''timestamp'') ''writer-timestamp-mismatch'' st2)) in
      check_value r (fld r ''completed'' = 1) ''reference-writer-not-completed'' st3)"

definition check_buffer :: "row \<Rightarrow> row \<Rightarrow> bool \<Rightarrow> trace_state \<Rightarrow> trace_state py" where
  "check_buffer r start destination st =
     rbind (check_snapshot r start st) (\<lambda>st1.
     Inr (if destination then st1 else check_writer r st1))"

subsection \<open>Comparison with the prediction\<close>

fun zip_check :: "('a \<Rightarrow> 'b \<Rightarrow> trace_state \<Rightarrow> trace_state) \<Rightarrow> 'a list \<Rightarrow> 'b list \<Rightarrow> trace_state \<Rightarrow> trace_state" where
  "zip_check f (x # xs) (y # ys) st = zip_check f xs ys (f x y st)"
| "zip_check f _ _ st = st"

definition compare_reference :: "row \<Rightarrow> map_ref \<Rightarrow> trace_state \<Rightarrow> trace_state" where
  "compare_reference a p =
     check_value a (fld a ''slot'' = mr_slot p \<and> fld a ''poc'' = w_poc (mr_writer p) \<and>
       fld a ''flags'' AND 1 = mr_long_term p \<and> fld a ''buffer'' = w_buffer (mr_writer p) \<and>
       fld a ''writer'' = w_picture (mr_writer p) \<and> fld a ''intra'' = of_bool (w_is_intra (mr_writer p)))
       ''userspace-reference-mismatch''"

definition compare_expected :: "mapped list option \<Rightarrow> row \<Rightarrow> row list \<Rightarrow> row list \<Rightarrow> row \<Rightarrow> trace_state \<Rightarrow> trace_state" where
  "compare_expected expected start table lst_rows motion st =
     (case expected of
        None \<Rightarrow> st
      | Some preds \<Rightarrow>
          let pred = preds ! nat (fld start ''picture'' - 1);
              st1 = (if fld start ''type'' \<noteq> 2
                     then zip_check compare_reference table (mp_dpb pred)
                       (check_value start (length table = length (mp_dpb pred)) ''userspace-dpb-count-mismatch'' st)
                     else st);
              same = (\<lambda>li wanted. map (\<lambda>r. (fld r ''slot'', fld r ''word'')) (filter (\<lambda>r. fld r ''list'' = li) lst_rows) =
                       map (\<lambda>e. (le_slot e, le_word e)) wanted);
              st2 = check_value start (same 0 (mp_l0 pred)) ''userspace-list-mismatch'' st1;
              st3 = check_value start (same 1 (mp_l1 pred)) ''userspace-list-mismatch'' st2;
              mw = mo_word (mp_motion pred) in
          check_value motion (fld motion ''word'' AND known_mask mw = known_value mw)
            ''userspace-known-motion-bit-mismatch'' st3)"

subsection \<open>One picture\<close>

definition check_start_values :: "mapped list option \<Rightarrow> row \<Rightarrow> trace_state \<Rightarrow> trace_state" where
  "check_start_values expected start st =
     (let prior = (case dget (histories st) (fld start ''buffer'', fld start ''allocation'') of
                    None \<Rightarrow> 0 | Some w \<Rightarrow> w);
         st1 = check_value start (fld start ''previous_writer'' = prior) ''destination-previous-writer-mismatch'' st;
         st2 = check_value start (fld start ''intra'' = of_bool (fld start ''type'' = 2)) ''destination-intra-mismatch'' st1 in
      case expected of
        None \<Rightarrow> st2
      | Some preds \<Rightarrow>
          let pred = preds ! nat (fld start ''picture'' - 1) in
          check_value start (fld start ''poc'' = mp_poc pred \<and>
            dget TYPES (fld start ''type'') = Some (mp_slice_type pred) \<and>
            fld start ''buffer'' = w_buffer (mp_destination pred)) ''userspace-picture-mismatch'' st2)"

definition check_start :: "mapped list option \<Rightarrow> row list \<Rightarrow> trace_state \<Rightarrow> trace_state py" where
  "check_start expected g st =
     (let start = hd g; fin = last g; pic = fld start ''picture'' in
     rbind (require (fld start ''kind'' = 1 \<and> fld fin ''kind'' = 2 \<and>
       list_all (\<lambda>r. fld r ''picture'' = pic) g) ''incomplete/mixed picture group'') (\<lambda>_.
     rbind (require (dhas TYPES (fld start ''type'') \<and> fld start ''slices'' = 1 \<and> fld start ''slice_entries'' = 0 \<and>
       1 \<le> fld start ''entry_capacity'' \<and> fld start ''entry_capacity'' \<le> 256 \<and> fld start ''dpb_count'' \<le> 16)
       ''unsupported slice/extent'') (\<lambda>_.
     rbind (require (0 < fld start ''width'' \<and> fld start ''width'' \<le> 16384 \<and> 0 < fld start ''height'' \<and>
       fld start ''height'' \<le> 16384) ''invalid negotiated dimensions'') (\<lambda>_.
     rbind (require (fld start ''writer'' = pic \<and> fld start ''completed'' = 0 \<and> fld fin ''result'' = 5 \<and>
       fld fin ''completed'' = 1) ''invalid start/completion state'') (\<lambda>_.
     rbind (require (list_all (\<lambda>k. k \<noteq> ''completed'' \<longrightarrow> fld start k = fld fin k) BUFFER)
       ''destination changed before completion'') (\<lambda>_.
     let st3 = check_start_values expected start st;
         st4 = st3\<lparr>starts := dset pic start (starts st3),
                   current_writers := dset (fld start ''buffer'') start (current_writers st3),
                   current_allocations := dset (fld start ''buffer'') (fld start ''allocation'') (current_allocations st3),
                   histories := dset (fld start ''buffer'', fld start ''allocation'') pic (histories st3)\<rparr> in
     check_buffer start start True st4))))))"

definition header_value :: "row \<Rightarrow> row \<Rightarrow> int py" where
  "header_value start r =
     rbind (ref_header (JInt (fld start ''dpb_count'')) (JInt (of_bool (fld r ''flags'' AND 1 \<noteq> 0)))
       (JInt (fld start ''slice_poc'')) (JInt (fld r ''poc''))) (\<lambda>h.
     case pw_value h of None \<Rightarrow> Inl TypeError | Some x \<Rightarrow> Inr x)"

definition check_table_row :: "row \<Rightarrow> nat \<times> row \<Rightarrow> trace_state \<Rightarrow> trace_state py" where
  "check_table_row start ir st = (case ir of (i, r) \<Rightarrow>
     rbind (require (fld r ''slot'' = int i \<and> fld r ''matched'' \<in> {0, 1}) ''missing/duplicate table slot'') (\<lambda>_.
     rbind (check_buffer r start False st) (\<lambda>st0.
     let st1 = check_value r (fld r ''matched'' = 1) ''reference-lookup-fallback'' st0;
         st2 = check_value r (fld r ''requested_timestamp'' = fld r ''timestamp'') ''lookup-timestamp-mismatch'' st1;
         st3 = check_value r (fld r ''writer'' < fld start ''picture'') ''reference-aliases-current-destination'' st2;
         st4 = (case dget (starts st3) (fld r ''writer'') of
                  None \<Rightarrow> st3
                | Some known \<Rightarrow> check_value r (fld known ''poc'' = fld r ''poc'') ''reference-poc-mismatch'' st3) in
     rbind (header_value start r) (\<lambda>hv.
     let st5 = check_value r (fld r ''word'' = hv) ''reference-header-word-mismatch'' st4 in
     Inr (check_value r (list_all (\<lambda>i. fld r (''emitted_comp'' @ show_nat i) =
            fld r ''comp_start'' + fld r (''off'' @ show_nat i)) [0..<4]) ''compressed-address-mismatch'' st5)))))"

text \<open>The list records the motion inputs call for: list, position, slot, word.\<close>

definition wanted_entry :: "row \<Rightarrow> nat \<Rightarrow> nat \<Rightarrow> nat \<Rightarrow> (int \<times> int \<times> int \<times> int) py" where
  "wanted_entry m n li i =
     (let slot = fld m (l_key li i) in
     rbind (require (slot < int n) ''active list outside recorded table'') (\<lambda>_.
     rbind (ref_list_word (int li) (int i) slot) (\<lambda>w. Inr (int li, int i, slot, w))))"

definition expected_lists :: "row \<Rightarrow> row \<Rightarrow> nat \<Rightarrow> (int \<times> int \<times> int \<times> int) list py" where
  "expected_lists start m n =
     (if fld start ''type'' = 2 then Inr []
      else
        rbind (require (fld m ''l0_minus1'' < 16 \<and> fld m ''l1_minus1'' < 16) ''oversized lists'') (\<lambda>_.
        rbind (rmap (wanted_entry m n 0) [0..<nat (fld m ''l0_minus1'' + 1)]) (\<lambda>a.
        rbind (if fld start ''type'' = 0
               then rmap (wanted_entry m n 1) [0..<nat (fld m ''l1_minus1'' + 1)] else Inr []) (\<lambda>b.
        Inr (a @ b)))))"

fun check_lists :: "row list \<Rightarrow> (int \<times> int \<times> int \<times> int) list \<Rightarrow> trace_state \<Rightarrow> trace_state py" where
  "check_lists (r # rs) ((li, i, slot, w) # ws) st =
     rbind (require (fld r ''list'' = li \<and> fld r ''position'' = i) ''missing/duplicate list position'') (\<lambda>_.
     check_lists rs ws (check_value r (fld r ''list'' = li \<and> fld r ''position'' = i \<and> fld r ''slot'' = slot \<and>
       fld r ''word'' = w) ''reference-list-word-mismatch'' st))"
| "check_lists _ _ st = Inr st"

definition check_motion :: "row \<Rightarrow> row list \<Rightarrow> row \<Rightarrow> trace_state \<Rightarrow> trace_state py" where
  "check_motion start table m st =
     (if fld start ''type'' = 2
      then rbind (require (\<not> list_ex (\<lambda>k. fld m k \<noteq> 0) ([''lookup'', ''matched'', ''valid'', ''emitted'', ''slot'',
             ''requested_timestamp'', ''emitted_mv''] @ BUFFER)) ''I-slice lookup/address violates early return'') (\<lambda>_.
           Inr st)
      else
        rbind (require (fld m ''lookup'' = 1 \<and> fld m ''col_index'' < 16)
          ''non-I lookup omitted/invalid (including TMVP off)'') (\<lambda>_.
        let li = (if fld start ''type'' = 1 \<or> fld m ''flags'' AND COL_L0 \<noteq> 0 then 0 else 1);
            slot = fld m (l_key li (nat (fld m ''col_index''))) in
        rbind (require (slot < int (length table)) ''collocated slot outside experiment domain'') (\<lambda>_.
        let st1 = check_value m (fld m ''slot'' = slot) ''collocated-slot-mismatch'' st in
        rbind (check_buffer m start False st1) (\<lambda>st2.
        let t = table ! nat slot;
            gate = (fld m ''flags'' AND DEPENDENT = 0 \<and> fld m ''flags'' AND TMVP \<noteq> 0 \<and> fld m ''first'' \<noteq> 0 \<and>
                    fld m ''intra'' = 0);
            st3 = check_value m (fld m ''matched'' = 1) ''motion-lookup-fallback'' st2;
            st4 = check_value m (fld m ''requested_timestamp'' = fld t ''requested_timestamp'' \<and>
                    fld t ''requested_timestamp'' = fld m ''timestamp'') ''motion-lookup-timestamp-mismatch'' st3;
            st5 = check_value m (list_all (\<lambda>k. fld m k = fld t k) BUFFER) ''motion-table-state-mismatch'' st4;
            st6 = check_value m (fld m ''valid'' = of_bool gate \<and> fld m ''emitted'' = of_bool gate) ''motion-gate-mismatch'' st5 in
        Inr (check_value m (fld m ''emitted_mv'' = (if fld m ''emitted'' \<noteq> 0 then fld m ''mv_offset'' else 0))
               ''motion-address-mismatch'' st6)))))"

definition rows_of_kind :: "int \<Rightarrow> row list \<Rightarrow> row list" where
  "rows_of_kind k g = filter (\<lambda>r. fld r ''kind'' = k) g"

definition check_detail :: "mapped list option \<Rightarrow> row \<Rightarrow> row list \<Rightarrow> row list \<Rightarrow> row \<Rightarrow> trace_state \<Rightarrow> trace_state py" where
  "check_detail expected start table lst_rows m st =
     rbind (require (fld m ''type'' = fld start ''type'' \<and> fld m ''first'' = 1) ''missing/invalid slice inputs'') (\<lambda>_.
     rbind (require (list_all (\<lambda>k. fld m k \<in> {0, 1}) [''lookup'', ''matched'', ''valid'', ''emitted''])
       ''invalid motion boolean'') (\<lambda>_.
     rbind (require (list_all (\<lambda>li. list_all (\<lambda>i. fld m (l_key li i) \<le> 255) [0..<16]) [0, 1])
       ''invalid raw reference byte'') (\<lambda>_.
     rbind (rfold (check_table_row start) (zip [0..<length table] table) st) (\<lambda>st1.
     rbind (expected_lists start m (length table)) (\<lambda>wanted.
     rbind (require (length lst_rows = length wanted) ''missing/extra list records'') (\<lambda>_.
     rbind (check_lists lst_rows wanted st1) (\<lambda>st2.
     rbind (check_motion start table m st2) (\<lambda>st3.
     rbind (motion_word m) (\<lambda>w.
     let st4 = check_value m (fld m ''word'' = w) ''full-motion-word-mismatch'' st3;
         st5 = check_value start (fld start ''slice_poc'' = fld start ''poc'') ''slice-decode-poc-difference'' st4 in
     Inr (compare_expected expected start table lst_rows m st5))))))))))"

definition check_group :: "mapped list option \<Rightarrow> row list \<Rightarrow> trace_state \<Rightarrow> trace_state py" where
  "check_group expected g st =
     rbind (check_start expected g st) (\<lambda>st1.
     let start = hd g; pic = fld start ''picture''; detail = (FIRST \<le> pic \<and> pic \<le> LAST);
         table = rows_of_kind 3 g; lst_rows = rows_of_kind 4 g; motion = rows_of_kind 5 g in
     rbind (require (length motion = of_bool detail) ''missing/duplicate motion record'') (\<lambda>_.
     rbind (require (int (length table) = (if detail \<and> fld start ''type'' \<noteq> 2 then fld start ''dpb_count'' else 0))
       ''missing/extra table records'') (\<lambda>_.
     rbind (require (map (\<lambda>r. fld r ''kind'') g =
         [1] @ replicate (length table) 3 @ replicate (length lst_rows) 4 @ replicate (length motion) 5 @ [2])
       ''unexpected emission ordering'') (\<lambda>_.
     if \<not> detail then rbind (require (lst_rows = []) ''command records outside window'') (\<lambda>_. Inr st1)
     else check_detail expected start table lst_rows (hd motion) st1))))"

subsection \<open>The trace\<close>

text \<open>Time stamps are replaced by the pictures that currently own them.\<close>

definition resolve_stamp :: "row \<Rightarrow> string \<Rightarrow> trace_state \<times> row \<times> (string \<times> int option \<times> int list) list \<Rightarrow>
    trace_state \<times> row \<times> (string \<times> int option \<times> int list) list" where
  "resolve_stamp r key acc = (case acc of (st, out, ws) \<Rightarrow>
     (case dget out key of
        None \<Rightarrow> (st, out, ws)
      | Some stamp \<Rightarrow>
          let has_buffer = (fld r ''kind'' \<noteq> 5 \<or> fld r ''lookup'' \<noteq> 0);
              candidates = sort (map (\<lambda>s. fld s ''picture'')
                (filter (\<lambda>s. has_buffer \<and> fld s ''timestamp'' = stamp) (map snd (current_writers st)))) in
          (if length candidates > 1 then add_finding r (key @ ''-ambiguous-current-writers'') st else st,
           ddel key out,
           ws @ [(key, (case candidates of [c] \<Rightarrow> Some c | _ \<Rightarrow> None), candidates)])))"

definition normalize_row :: "row \<Rightarrow> trace_state \<Rightarrow> trace_state" where
  "normalize_row r st =
     (case resolve_stamp r ''requested_timestamp'' (resolve_stamp r ''timestamp'' (st, r, [])) of
        (st', out, ws) \<Rightarrow> st'\<lparr>normalized := normalized st' @ [\<lparr>nr_fields = out, nr_writers = ws\<rparr>]\<rparr>)"

definition trace_step :: "mapped list option \<Rightarrow> row \<Rightarrow> trace_state \<times> row list \<times> int \<Rightarrow>
    (trace_state \<times> row list \<times> int) py" where
  "trace_step expected r acc = (case acc of (st, grp, next_picture) \<Rightarrow>
     rbind (if fld r ''kind'' = 1
            then require (grp = [] \<and> fld r ''picture'' = next_picture) ''missing/duplicate/out-of-order picture''
            else require (grp \<noteq> []) ''record outside picture'') (\<lambda>_.
     let grp' = grp @ [r] in
     if fld r ''kind'' = 2
     then rbind (check_group expected grp' st) (\<lambda>st'.
          Inr (fold normalize_row grp' st', [], next_picture + 1))
     else Inr (st, grp', next_picture)))"

record trace_result =
  tr_run :: int
  tr_context :: int
  tr_userspace_correlated :: bool
  tr_findings :: "finding list"
  tr_records :: "normalized_row list"

definition validate_trace :: "capture \<Rightarrow> mapped list option \<Rightarrow> trace_result py" where
  "validate_trace cap expected =
     rbind (case expected of None \<Rightarrow> Inr ()
            | Some preds \<Rightarrow> require (int (length preds) = PICTURES) ''incomplete userspace oracle'') (\<lambda>_.
     rbind (rfold (trace_step expected) (cap_records cap) (trace_init, [], 1)) (\<lambda>(st, grp, next_picture).
     rbind (require (grp = [] \<and> next_picture = PICTURES + 1) ''missing final completion'') (\<lambda>_.
     Inr \<lparr>tr_run = cap_run cap, tr_context = cap_context cap, tr_userspace_correlated = (expected \<noteq> None),
          tr_findings = findings st, tr_records = normalized st\<rparr>)))"

subsection \<open>What the checks establish\<close>

text \<open>The part of the state that describes the writers seen so far.\<close>

definition hist :: "trace_state \<Rightarrow> (int, row) dict \<times> (int \<times> int, int) dict \<times> (int, int) dict" where
  "hist st = (starts st, histories st, current_allocations st)"

lemma check_value_findings: "findings (check_value r c code st) = [] \<longleftrightarrow> findings st = [] \<and> c"
  by (auto simp: check_value_def add_finding_def)

lemma check_value_fields [simp]:
  "starts (check_value r c code st) = starts st"
  "histories (check_value r c code st) = histories st"
  "current_allocations (check_value r c code st) = current_allocations st"
  "current_writers (check_value r c code st) = current_writers st"
  "allocations (check_value r c code st) = allocations st"
  by (simp_all add: check_value_def add_finding_def)

lemma hist_check_value [simp]: "hist (check_value r c code st) = hist st"
  by (simp add: hist_def)

lemma histD: "hist st = hist st' \<Longrightarrow> starts st = starts st' \<and> histories st = histories st' \<and>
    current_allocations st = current_allocations st'"
  by (simp add: hist_def)

lemma check_snapshot_Inr:
  assumes "check_snapshot r start st = Inr st'"
  shows "hist st' = hist st \<and> (findings st' = [] \<longrightarrow> findings st = [] \<and> layout_valid r start \<and> fld r ''copied'' = 1)"
  using assms unfolding check_snapshot_def Let_def
  by (elim rbind_InrE) (auto simp: hist_def check_value_findings)

lemma check_writer_hist: "hist (check_writer r st) = hist st"
  by (auto simp: check_writer_def Let_def hist_def split: option.splits)

lemma check_writer_clean:
  assumes "findings (check_writer r st) = []"
  obtains known where "findings st = []"
    "dget (current_allocations st) (fld r ''buffer'') = Some (fld r ''allocation'')"
    "dget (histories st) (fld r ''buffer'', fld r ''allocation'') = Some (fld r ''writer'')"
    "dget (starts st) (fld r ''writer'') = Some known"
    "fld r ''timestamp'' = fld known ''timestamp''" "fld r ''completed'' = 1"
  using assms unfolding check_writer_def Let_def
  by (auto simp: check_value_findings split: option.splits)

lemma check_buffer_Inr:
  assumes "check_buffer r start d st = Inr st'"
  shows "hist st' = hist st" and "findings st' = [] \<Longrightarrow> findings st = []"
    and "findings st' = [] \<Longrightarrow> layout_valid r start"
proof -
  obtain st1 where 1: "check_snapshot r start st = Inr st1" "st' = (if d then st1 else check_writer r st1)"
    using assms unfolding check_buffer_def by (elim rbind_InrE) simp
  note s = check_snapshot_Inr [OF 1(1)]
  show "hist st' = hist st" using s 1(2) by (simp add: check_writer_hist)
  have "findings st1 = []" if "findings st' = []"
    using that 1(2) by (cases d) (auto elim: check_writer_clean)
  then show "findings st' = [] \<Longrightarrow> findings st = []" and "findings st' = [] \<Longrightarrow> layout_valid r start"
    using s by blast+
qed

lemma check_buffer_writer:
  assumes "check_buffer r start False st = Inr st'" and "findings st' = []"
  obtains known where
    "dget (current_allocations st) (fld r ''buffer'') = Some (fld r ''allocation'')"
    "dget (histories st) (fld r ''buffer'', fld r ''allocation'') = Some (fld r ''writer'')"
    "dget (starts st) (fld r ''writer'') = Some known"
    "fld r ''timestamp'' = fld known ''timestamp''" "fld r ''completed'' = 1"
proof -
  obtain st1 where 1: "check_snapshot r start st = Inr st1" "st' = check_writer r st1"
    using assms(1) unfolding check_buffer_def by (elim rbind_InrE) simp
  have "hist st1 = hist st" using check_snapshot_Inr [OF 1(1)] by blast
  then have h: "current_allocations st1 = current_allocations st" "histories st1 = histories st"
    "starts st1 = starts st" by (simp_all add: hist_def)
  show thesis
    using assms(2) unfolding 1(2)
    by (rule check_writer_clean) (rule that, auto simp: h)
qed

text \<open>A table row that raised no finding, relative to the writers at that time.\<close>

definition table_clean :: "trace_state \<Rightarrow> row \<Rightarrow> row \<Rightarrow> bool" where
  "table_clean st start r \<longleftrightarrow>
     dget (current_allocations st) (fld r ''buffer'') = Some (fld r ''allocation'') \<and>
     dget (histories st) (fld r ''buffer'', fld r ''allocation'') = Some (fld r ''writer'') \<and>
     (\<exists>known. dget (starts st) (fld r ''writer'') = Some known \<and>
        fld r ''timestamp'' = fld known ''timestamp'' \<and> fld r ''poc'' = fld known ''poc'') \<and>
     fld r ''completed'' = 1 \<and> fld r ''matched'' = 1 \<and> fld r ''requested_timestamp'' = fld r ''timestamp'' \<and>
     fld r ''writer'' < fld start ''picture'' \<and> layout_valid r start \<and>
     header_value start r = Inr (fld r ''word'') \<and>
     (\<forall>i < 4. fld r (''emitted_comp'' @ show_nat i) = fld r ''comp_start'' + fld r (''off'' @ show_nat i))"

lemma table_clean_hist: "hist st = hist st' \<Longrightarrow> table_clean st start r = table_clean st' start r"
  by (simp add: table_clean_def hist_def)

lemma check_table_row_Inr:
  assumes "check_table_row start (i, r) st = Inr st'"
  shows "hist st' = hist st" and "findings st' = [] \<Longrightarrow> findings st = [] \<and> table_clean st start r"
proof -
  obtain st0 hv where b: "check_buffer r start False st = Inr st0" and hv: "header_value start r = Inr hv"
    and st': "st' = check_value r (list_all (\<lambda>i. fld r (''emitted_comp'' @ show_nat i) =
            fld r ''comp_start'' + fld r (''off'' @ show_nat i)) [0..<4]) ''compressed-address-mismatch''
        (check_value r (fld r ''word'' = hv) ''reference-header-word-mismatch''
        (let st3 = check_value r (fld r ''writer'' < fld start ''picture'') ''reference-aliases-current-destination''
           (check_value r (fld r ''requested_timestamp'' = fld r ''timestamp'') ''lookup-timestamp-mismatch''
           (check_value r (fld r ''matched'' = 1) ''reference-lookup-fallback'' st0)) in
         case dget (starts st3) (fld r ''writer'') of
           None \<Rightarrow> st3
         | Some known \<Rightarrow> check_value r (fld known ''poc'' = fld r ''poc'') ''reference-poc-mismatch'' st3))"
    using assms unfolding check_table_row_def Let_def prod.case by (elim rbind_InrE) simp
  note h = check_buffer_Inr [OF b]
  show "hist st' = hist st" unfolding st' Let_def using h(1) by (auto split: option.splits)
  assume clean: "findings st' = []"
  then have c0: "findings st0 = []" unfolding st' Let_def by (auto simp: check_value_findings split: option.splits)
  obtain known where known:
    "dget (current_allocations st) (fld r ''buffer'') = Some (fld r ''allocation'')"
    "dget (histories st) (fld r ''buffer'', fld r ''allocation'') = Some (fld r ''writer'')"
    "dget (starts st) (fld r ''writer'') = Some known"
    "fld r ''timestamp'' = fld known ''timestamp''" "fld r ''completed'' = 1"
    by (rule check_buffer_writer [OF b c0])
  have s0: "starts st0 = starts st" using h(1) by (simp add: hist_def)
  have addr: "\<forall>i < 4. fld r (''emitted_comp'' @ show_nat i) = fld r ''comp_start'' + fld r (''off'' @ show_nat i)"
    using clean unfolding st' check_value_findings list_all_iff set_upt by simp
  have rest: "fld r ''word'' = hv" "fld r ''writer'' < fld start ''picture''"
      "fld r ''requested_timestamp'' = fld r ''timestamp''" "fld r ''matched'' = 1" "fld known ''poc'' = fld r ''poc''"
    using clean known(3) unfolding st' Let_def by (simp_all add: check_value_findings s0)
  show "findings st = [] \<and> table_clean st start r"
    unfolding table_clean_def using known rest addr hv h(2,3) [OF c0] by auto
qed

lemma check_table_Inr:
  assumes "rfold (check_table_row start) irs st = Inr st'"
  shows "hist st' = hist st \<and> (findings st' = [] \<longrightarrow> findings st = [] \<and> (\<forall>ir \<in> set irs. table_clean st start (snd ir)))"
  using assms
proof (induction irs arbitrary: st)
  case (Cons ir irs)
  obtain i r where ir: "ir = (i, r)" by (cases ir)
  from Cons.prems obtain st1 where 1: "check_table_row start (i, r) st = Inr st1"
    and 2: "rfold (check_table_row start) irs st1 = Inr st'" unfolding ir by (auto elim!: rbind_InrE)
  note a = check_table_row_Inr [OF 1] and b = Cons.IH [OF 2]
  show ?case unfolding ir using a b table_clean_hist [OF a(1)] by auto
qed simp

lemma check_lists_Inr:
  "check_lists rs ws st = Inr st' \<Longrightarrow> hist st' = hist st \<and> (findings st' = [] \<longrightarrow> findings st = [])"
proof (induction rs ws st rule: check_lists.induct)
  case (1 r rs li i slot w ws st)
  from 1(2) obtain u where u: "require (fld r ''list'' = li \<and> fld r ''position'' = i)
      ''missing/duplicate list position'' = Inr u"
    and "check_lists rs ws (check_value r (fld r ''list'' = li \<and> fld r ''position'' = i \<and>
      fld r ''slot'' = slot \<and> fld r ''word'' = w) ''reference-list-word-mismatch'' st) = Inr st'"
    unfolding check_lists.simps by (elim rbind_InrE)
  from 1(1) [OF u this(2)] show ?case unfolding hist_check_value check_value_findings by blast
qed simp_all

lemma check_motion_Inr:
  assumes "check_motion start table m st = Inr st'"
  shows "hist st' = hist st \<and> (findings st' = [] \<longrightarrow> findings st = [])"
proof (cases "fld start ''type'' = 2")
  case True
  show ?thesis using assms unfolding check_motion_def if_P [OF True] by (elim rbind_InrE) simp
next
  case False
  obtain slot st2 c1 c2 c3 c4 c5 k1 k2 k3 k4 k5 where
    b: "check_buffer m start False (check_value m (fld m ''slot'' = slot) ''collocated-slot-mismatch'' st) = Inr st2"
    and "Inr (check_value m c5 k5 (check_value m c4 k4 (check_value m c3 k3 (check_value m c2 k2
      (check_value m c1 k1 st2))))) = (Inr st' :: trace_state py)"
    using assms unfolding check_motion_def Let_def if_not_P [OF False] by (elim rbind_InrE) (rule that)
  then have "st' = check_value m c5 k5 (check_value m c4 k4 (check_value m c3 k3 (check_value m c2 k2
      (check_value m c1 k1 st2))))" by simp
  then have "hist st' = hist st2 \<and> (findings st' = [] \<longrightarrow> findings st2 = [])"
    by (simp add: check_value_findings)
  with check_buffer_Inr(1,2) [OF b] show ?thesis by (simp add: check_value_findings)
qed

lemma zip_check_mono:
  assumes "\<And>x y st. hist (f x y st) = hist st \<and> (findings (f x y st) = [] \<longrightarrow> findings st = [])"
  shows "hist (zip_check f xs ys st) = hist st \<and> (findings (zip_check f xs ys st) = [] \<longrightarrow> findings st = [])"
  using assms by (induction f xs ys st rule: zip_check.induct) auto

lemma compare_expected_mono:
  "hist (compare_expected e start table ls m st) = hist st \<and>
   (findings (compare_expected e start table ls m st) = [] \<longrightarrow> findings st = [])"
proof -
  have "hist (compare_reference a p st) = hist st \<and> (findings (compare_reference a p st) = [] \<longrightarrow> findings st = [])"
    for a p st by (simp add: compare_reference_def check_value_findings)
  then have z: "hist (zip_check compare_reference xs ys st) = hist st \<and>
      (findings (zip_check compare_reference xs ys st) = [] \<longrightarrow> findings st = [])" for xs ys st
    by (rule zip_check_mono)
  show ?thesis
  proof (cases e)
    case (Some preds)
    define pred where "pred = preds ! nat (fld start ''picture'' - 1)"
    define st1 where "st1 = (if fld start ''type'' \<noteq> 2
      then zip_check compare_reference table (mp_dpb pred)
        (check_value start (length table = length (mp_dpb pred)) ''userspace-dpb-count-mismatch'' st) else st)"
    have "hist st1 = hist st \<and> (findings st1 = [] \<longrightarrow> findings st = [])"
    proof (cases "fld start ''type'' = 2")
      case False
      show ?thesis
        using z [of table "mp_dpb pred"
          "check_value start (length table = length (mp_dpb pred)) ''userspace-dpb-count-mismatch'' st"]
        unfolding st1_def if_P [OF False] hist_check_value check_value_findings by blast
    qed (simp add: st1_def)
    then show ?thesis
      unfolding Some compare_expected_def Let_def option.case pred_def [symmetric] st1_def [symmetric]
      by (simp add: check_value_findings)
  qed (simp add: compare_expected_def)
qed

lemma check_detail_Inr:
  assumes "check_detail e start table ls m st = Inr st'"
  shows "hist st' = hist st" and "findings st' = [] \<Longrightarrow> findings st = [] \<and> (\<forall>r \<in> set table. table_clean st start r)"
proof -
  obtain st1 st2 st3 ws w where t: "rfold (check_table_row start) (zip [0..<length table] table) st = Inr st1"
    and l: "check_lists ls ws st1 = Inr st2" and m: "check_motion start table m st2 = Inr st3"
    and "Inr (compare_expected e start table ls m
      (check_value start (fld start ''slice_poc'' = fld start ''poc'') ''slice-decode-poc-difference''
        (check_value m (fld m ''word'' = w) ''full-motion-word-mismatch'' st3))) = (Inr st' :: trace_state py)"
    using assms unfolding check_detail_def Let_def by (elim rbind_InrE) (rule that)
  then have st': "st' = compare_expected e start table ls m
      (check_value start (fld start ''slice_poc'' = fld start ''poc'') ''slice-decode-poc-difference''
        (check_value m (fld m ''word'' = w) ''full-motion-word-mismatch'' st3))" by simp
  note ch = check_table_Inr [OF t] check_lists_Inr [OF l] check_motion_Inr [OF m]
  have c: "hist st' = hist st3 \<and> (findings st' = [] \<longrightarrow> findings st3 = [])"
    unfolding st' using compare_expected_mono [of e start table ls m] check_value_findings hist_check_value by metis
  show "hist st' = hist st" using c ch by simp
  have "set table = snd ` set (zip [0..<length table] table)"
    by (metis length_map length_upt list.set_map map_nth map_snd_zip minus_nat.diff_0)
  then show "findings st' = [] \<Longrightarrow> findings st = [] \<and> (\<forall>r \<in> set table. table_clean st start r)"
    using c ch by auto
qed

lemma check_start_Inr:
  assumes "check_start e g st = Inr st'"
  defines "s \<equiv> hd g"
  shows "starts st' = dset (fld s ''picture'') s (starts st)"
    and "current_allocations st' = dset (fld s ''buffer'') (fld s ''allocation'') (current_allocations st)"
    and "histories st' = dset (fld s ''buffer'', fld s ''allocation'') (fld s ''picture'') (histories st)"
    and "findings st' = [] \<Longrightarrow> findings st = []"
    and "fld s ''kind'' = 1 \<and> fld (last g) ''kind'' = 2 \<and> (\<forall>r \<in> set g. fld r ''picture'' = fld s ''picture'')"
proof -
  let ?upd = "\<lambda>st3. st3\<lparr>starts := dset (fld s ''picture'') s (starts st3),
     current_writers := dset (fld s ''buffer'') s (current_writers st3),
     current_allocations := dset (fld s ''buffer'') (fld s ''allocation'') (current_allocations st3),
     histories := dset (fld s ''buffer'', fld s ''allocation'') (fld s ''picture'') (histories st3)\<rparr>"
  define st3 where "st3 = check_start_values e s st"
  have h: "hist st3 = hist st" "findings st3 = [] \<Longrightarrow> findings st = []"
    unfolding st3_def check_start_values_def Let_def by (auto simp: check_value_findings split: option.splits)
  have b: "check_buffer s s True (?upd st3) = Inr st'"
    and k: "fld s ''kind'' = 1 \<and> fld (last g) ''kind'' = 2 \<and> list_all (\<lambda>r. fld r ''picture'' = fld s ''picture'') g"
    using assms(1) unfolding check_start_def Let_def s_def [symmetric] st3_def [symmetric]
    by (simp_all only: rbind_Inr require_Inr) blast+
  have h': "starts st3 = starts st" "current_allocations st3 = current_allocations st" "histories st3 = histories st"
    using h(1) by (simp_all add: hist_def)
  have f: "starts st' = starts (?upd st3)" "current_allocations st' = current_allocations (?upd st3)"
      "histories st' = histories (?upd st3)"
    using check_buffer_Inr(1) [OF b] by (simp_all add: hist_def)
  show "starts st' = dset (fld s ''picture'') s (starts st)"
    and "current_allocations st' = dset (fld s ''buffer'') (fld s ''allocation'') (current_allocations st)"
    and "histories st' = dset (fld s ''buffer'', fld s ''allocation'') (fld s ''picture'') (histories st)"
    unfolding f by (simp_all add: h')
  show "findings st' = [] \<Longrightarrow> findings st = []" using check_buffer_Inr(2) [OF b] h(2) by simp
  show "fld s ''kind'' = 1 \<and> fld (last g) ''kind'' = 2 \<and> (\<forall>r \<in> set g. fld r ''picture'' = fld s ''picture'')"
    using k by (simp add: list_all_iff)
qed

text \<open>Groups: one per picture, in order, with the kinds of records in emission order.\<close>

definition group_shape :: "int \<Rightarrow> row list \<Rightarrow> bool" where
  "group_shape pic g \<longleftrightarrow> g \<noteq> [] \<and> fld (hd g) ''kind'' = 1 \<and> fld (last g) ''kind'' = 2 \<and>
     (\<forall>r \<in> set g. fld r ''picture'' = pic) \<and>
     (\<exists>n k j. map (\<lambda>r. fld r ''kind'') g = [1] @ replicate n 3 @ replicate k 4 @ replicate j 5 @ [2])"

lemma check_group_Inr:
  assumes "check_group e g st = Inr st'"
  obtains st1 where "check_start e g st = Inr st1" "hist st' = hist st1"
    "findings st' = [] \<longrightarrow> findings st1 = [] \<and> (\<forall>r \<in> set (rows_of_kind 3 g). table_clean st1 (hd g) r)"
    "\<exists>n k j. map (\<lambda>r. fld r ''kind'') g = [1] @ replicate n 3 @ replicate k 4 @ replicate j 5 @ [2]"
proof -
  let ?pic = "fld (hd g) ''picture''"
  obtain st1 where 1: "check_start e g st = Inr st1"
    and n: "int (length (rows_of_kind 3 g)) =
      (if (FIRST \<le> ?pic \<and> ?pic \<le> LAST) \<and> fld (hd g) ''type'' \<noteq> 2 then fld (hd g) ''dpb_count'' else 0)"
    and kinds: "\<exists>n k j. map (\<lambda>r. fld r ''kind'') g = [1] @ replicate n 3 @ replicate k 4 @ replicate j 5 @ [2]"
    and rest: "(if \<not> (FIRST \<le> ?pic \<and> ?pic \<le> LAST)
      then rbind (require (rows_of_kind 4 g = []) ''command records outside window'') (\<lambda>_. Inr st1)
      else check_detail e (hd g) (rows_of_kind 3 g) (rows_of_kind 4 g) (hd (rows_of_kind 5 g)) st1) = Inr st'"
    using assms unfolding check_group_def Let_def rbind_Inr require_Inr by blast
  show thesis
  proof (cases "FIRST \<le> ?pic \<and> ?pic \<le> LAST")
    case True
    then have d: "check_detail e (hd g) (rows_of_kind 3 g) (rows_of_kind 4 g) (hd (rows_of_kind 5 g)) st1 = Inr st'"
      using rest by simp
    show thesis by (rule that [OF 1 check_detail_Inr(1) [OF d] _ kinds]) (use check_detail_Inr(2) [OF d] in blast)
  next
    case False
    then have "st' = st1" using rest by (auto elim!: rbind_InrE)
    moreover have "rows_of_kind 3 g = []" using n False by simp
    ultimately show thesis using that [OF 1 _ _ kinds] by simp
  qed
qed

lemma normalize_row_hist: "hist (normalize_row r st) = hist st"
  by (auto simp: normalize_row_def resolve_stamp_def Let_def hist_def add_finding_def split: prod.splits option.splits)

lemma normalize_row_findings: "findings (normalize_row r st) = [] \<Longrightarrow> findings st = []"
  by (auto simp: normalize_row_def resolve_stamp_def Let_def add_finding_def split: prod.splits option.splits if_splits)

lemma normalize_rows: "hist (fold normalize_row g st) = hist st \<and> (findings (fold normalize_row g st) = [] \<longrightarrow> findings st = [])"
proof (induction g arbitrary: st)
  case (Cons r g)
  show ?case using Cons.IH [of "normalize_row r st"] normalize_row_findings [of r st] normalize_row_hist [of r st] by simp
qed simp

text \<open>The start records so far, and what a reference of a later record must be among them.\<close>

definition latest_start :: "row list \<Rightarrow> int \<Rightarrow> row option" where
  "latest_start S b = find (\<lambda>s. fld s ''buffer'' = b) (rev S)"

definition reference_ok :: "row list \<Rightarrow> row \<Rightarrow> row \<Rightarrow> bool" where
  "reference_ok S start r \<longleftrightarrow>
     (\<exists>w. latest_start S (fld r ''buffer'') = Some w \<and> fld w ''picture'' = fld r ''writer'' \<and>
        fld r ''writer'' < fld start ''picture'' \<and> fld w ''allocation'' = fld r ''allocation'' \<and>
        fld w ''timestamp'' = fld r ''timestamp'' \<and> fld w ''poc'' = fld r ''poc'') \<and>
     fld r ''completed'' = 1 \<and> fld r ''matched'' = 1 \<and> fld r ''requested_timestamp'' = fld r ''timestamp'' \<and>
     layout_valid r start \<and> header_value start r = Inr (fld r ''word'') \<and>
     (\<forall>i < 4. fld r (''emitted_comp'' @ show_nat i) = fld r ''comp_start'' + fld r (''off'' @ show_nat i))"

definition hist_ok :: "trace_state \<Rightarrow> row list \<Rightarrow> bool" where
  "hist_ok st S \<longleftrightarrow>
     (\<forall>p. dget (starts st) p = find (\<lambda>s. fld s ''picture'' = p) (rev S)) \<and>
     (\<forall>b. dget (current_allocations st) b = map_option (\<lambda>s. fld s ''allocation'') (latest_start S b)) \<and>
     (\<forall>b a. dget (histories st) (b, a) =
        map_option (\<lambda>s. fld s ''picture'') (find (\<lambda>s. fld s ''buffer'' = b \<and> fld s ''allocation'' = a) (rev S)))"

lemma hist_ok_hist: "hist st = hist st' \<Longrightarrow> hist_ok st S = hist_ok st' S"
  by (simp add: hist_ok_def hist_def)

lemma check_start_hist_ok:
  assumes "check_start e g st = Inr st1" and "hist_ok st S"
  shows "hist_ok st1 (S @ [hd g])"
  using assms(2) unfolding hist_ok_def latest_start_def check_start_Inr(1-3) [OF assms(1)] by auto

lemma find_conj: "find P xs = Some w \<Longrightarrow> Q w \<Longrightarrow> find (\<lambda>x. P x \<and> Q x) xs = Some w"
  by (induction xs) (auto split: if_splits)

lemma table_clean_reference:
  assumes h: "hist_ok st S" and d: "distinct (map (\<lambda>s. fld s ''picture'') S)" and c: "table_clean st start r"
  shows "reference_ok S start r"
proof -
  obtain w where w: "latest_start S (fld r ''buffer'') = Some w" "fld w ''allocation'' = fld r ''allocation''"
    using c h by (auto simp: table_clean_def hist_ok_def)
  have "find (\<lambda>s. fld s ''buffer'' = fld r ''buffer'' \<and> fld s ''allocation'' = fld r ''allocation'') (rev S) = Some w"
    using find_conj [of "\<lambda>s. fld s ''buffer'' = fld r ''buffer''" "rev S" w
        "\<lambda>s. fld s ''allocation'' = fld r ''allocation''"] w by (simp add: latest_start_def)
  then have pic: "fld w ''picture'' = fld r ''writer''"
    using c h by (auto simp: table_clean_def hist_ok_def)
  obtain known where known: "dget (starts st) (fld r ''writer'') = Some known"
    "fld r ''timestamp'' = fld known ''timestamp''" "fld r ''poc'' = fld known ''poc''"
    using c by (auto simp: table_clean_def)
  then have k: "find (\<lambda>s. fld s ''picture'' = fld r ''writer'') (rev S) = Some known"
    using h by (simp add: hist_ok_def)
  have "w \<in> set S" using w(1) by (auto simp: latest_start_def find_Some_iff dest: nth_mem)
      (metis length_rev nth_mem set_rev)
  moreover have "known \<in> set S" "fld known ''picture'' = fld r ''writer''"
    using k by (auto simp: find_Some_iff) (metis length_rev nth_mem set_rev)
  moreover have "inj_on (\<lambda>s. fld s ''picture'') (set S)" using d by (simp add: distinct_map)
  ultimately have "known = w" using pic by (metis inj_onD)
  then show ?thesis using c w pic known unfolding table_clean_def reference_ok_def by auto
qed

text \<open>The invariant of the loop over the rows.\<close>

definition trace_inv :: "row list \<Rightarrow> trace_state \<times> row list \<times> int \<Rightarrow> bool" where
  "trace_inv rows acc \<longleftrightarrow> (case acc of (st, grp, nxt) \<Rightarrow>
     \<exists>gs. rows = concat gs @ grp \<and> nxt = int (length gs) + 1 \<and> hist_ok st (map hd gs) \<and>
       (grp \<noteq> [] \<longrightarrow> fld (hd grp) ''kind'' = 1 \<and> fld (hd grp) ''picture'' = nxt) \<and>
       (\<forall>k < length gs. group_shape (int k + 1) (gs ! k)) \<and>
       (findings st = [] \<longrightarrow> (\<forall>k < length gs. \<forall>r \<in> set (rows_of_kind 3 (gs ! k)).
          reference_ok (map hd (take (Suc k) gs)) (hd (gs ! k)) r)))"

lemma shapes_pictures:
  assumes "\<forall>k < length gs. group_shape (int k + 1) (gs ! k)"
  shows "distinct (map (\<lambda>s. fld s ''picture'') (map hd gs))"
proof -
  have "fld (hd (gs ! k)) ''picture'' = int k + 1" if "k < length gs" for k
    using assms that by (auto simp: group_shape_def)
  then have "map (\<lambda>s. fld s ''picture'') (map hd gs) = map (\<lambda>k. int k + 1) [0..<length gs]"
    by (intro nth_equalityI) simp_all
  then show ?thesis by (simp add: distinct_map inj_on_def)
qed

lemma all_less_Suc: "(\<forall>k < Suc n. P k) \<longleftrightarrow> (\<forall>k < n. P k) \<and> P n"
  using less_Suc_eq by auto

lemma group_done:
  assumes gs: "rows = concat gs @ grp" "nxt = int (length gs) + 1" "hist_ok st (map hd gs)"
      "\<forall>k < length gs. group_shape (int k + 1) (gs ! k)"
      "findings st = [] \<longrightarrow> (\<forall>k < length gs. \<forall>r \<in> set (rows_of_kind 3 (gs ! k)).
          reference_ok (map hd (take (Suc k) gs)) (hd (gs ! k)) r)"
    and g: "check_group e (grp @ [r]) st = Inr st'" "fld (hd (grp @ [r])) ''picture'' = nxt"
  shows "trace_inv (rows @ [r]) (fold normalize_row (grp @ [r]) st', [], nxt + 1)"
proof -
  let ?g = "grp @ [r]" and ?st = "fold normalize_row (grp @ [r]) st'" and ?gs = "gs @ [grp @ [r]]"
  obtain st1 where st1: "check_start e ?g st = Inr st1" "hist st' = hist st1"
      "findings st' = [] \<longrightarrow> findings st1 = [] \<and> (\<forall>r \<in> set (rows_of_kind 3 ?g). table_clean st1 (hd ?g) r)"
    and kinds: "\<exists>n k j. map (\<lambda>r. fld r ''kind'') ?g = [1] @ replicate n 3 @ replicate k 4 @ replicate j 5 @ [2]"
    by (rule check_group_Inr [OF g(1)])
  note s = check_start_Inr [OF st1(1)]
  have h1: "hist_ok st1 (map hd ?gs)" using check_start_hist_ok [OF st1(1) gs(3)] by simp
  have hst: "hist ?st = hist st1" using normalize_rows [of ?g st'] st1(2) by simp
  have "group_shape nxt ?g"
    using s(5) kinds g(2) unfolding group_shape_def by blast
  then have shapes: "\<forall>k < length ?gs. group_shape (int k + 1) (?gs ! k)"
    using gs(2,4) by (simp add: all_less_Suc nth_append)
  have refs: "\<forall>k < length ?gs. \<forall>r \<in> set (rows_of_kind 3 (?gs ! k)).
      reference_ok (map hd (take (Suc k) ?gs)) (hd (?gs ! k)) r" if "findings ?st = []"
  proof -
    have c': "findings st' = []" using normalize_rows [of ?g st'] that by blast
    then have c: "findings st = []" using st1(3) s(4) by blast
    have "reference_ok (map hd ?gs) (hd ?g) q" if "q \<in> set (rows_of_kind 3 ?g)" for q
      using table_clean_reference [OF h1 shapes_pictures [OF shapes]] st1(3) c' that by blast
    with gs(5) c show ?thesis by (simp add: all_less_Suc nth_append)
  qed
  have "hist_ok ?st (map hd ?gs)" using hist_ok_hist [OF hst] h1 by blast
  moreover have "rows @ [r] = concat ?gs @ []" "nxt + 1 = int (length ?gs) + 1" using gs(1,2) by simp_all
  ultimately show ?thesis
    unfolding trace_inv_def prod.case using shapes refs by blast
qed

lemma trace_step_inv:
  assumes inv: "trace_inv rows acc" and step: "trace_step e r acc = Inr acc'"
  shows "trace_inv (rows @ [r]) acc'"
proof -
  obtain st grp nxt where acc: "acc = (st, grp, nxt)" by (cases acc)
  obtain gs where gs: "rows = concat gs @ grp" "nxt = int (length gs) + 1" "hist_ok st (map hd gs)"
      "\<forall>k < length gs. group_shape (int k + 1) (gs ! k)"
      "findings st = [] \<longrightarrow> (\<forall>k < length gs. \<forall>r \<in> set (rows_of_kind 3 (gs ! k)).
          reference_ok (map hd (take (Suc k) gs)) (hd (gs ! k)) r)"
    and grp: "grp \<noteq> [] \<longrightarrow> fld (hd grp) ''kind'' = 1 \<and> fld (hd grp) ''picture'' = nxt"
    using inv unfolding acc trace_inv_def prod.case by blast
  have start: "fld (hd (grp @ [r])) ''picture'' = nxt" "fld r ''kind'' = 2 \<or> fld (hd (grp @ [r])) ''kind'' = 1"
    using step grp unfolding acc trace_step_def prod.case
    by (auto elim!: rbind_InrE simp: require_Inr split: if_splits)
  show ?thesis
  proof (cases "fld r ''kind'' = 2")
    case True
    obtain st' where "check_group e (grp @ [r]) st = Inr st'"
      "acc' = (fold normalize_row (grp @ [r]) st', [], nxt + 1)"
      using step True unfolding acc trace_step_def prod.case Let_def by (auto elim!: rbind_InrE)
    with group_done [OF gs _ start(1)] show ?thesis by blast
  next
    case False
    then have acc': "acc' = (st, grp @ [r], nxt)"
      using step unfolding acc trace_step_def prod.case Let_def by (auto elim!: rbind_InrE split: if_splits)
    show ?thesis
      unfolding acc' trace_inv_def prod.case
      using gs start False by (intro exI [of _ gs]) (simp only: append_assoc, blast)
  qed
qed

text \<open>
  C23. An accepted trace is complete and ordered, and a trace without findings has only sound
  references. The records split into 300 groups, one per picture in order, each a start record, table,
  list and motion records in emission order, and a completion. If no discrepancy was reported, every
  recorded reference names the latest picture that wrote its buffer, an earlier one with the same
  allocation, time stamp and picture order count; its writer had completed, its ranges lie inside
  the allocation, and the emitted header word and compressed addresses are the expected ones.
\<close>
theorem clean_trace_references:
  assumes "validate_trace cap expected = Inr res"
  shows "\<exists>gs. cap_records cap = concat gs \<and> length gs = 300 \<and>
    (\<forall>k < 300. group_shape (int k + 1) (gs ! k)) \<and>
    (tr_findings res = [] \<longrightarrow> (\<forall>k < 300. \<forall>r \<in> set (rows_of_kind 3 (gs ! k)).
       reference_ok (map hd (take (Suc k) gs)) (hd (gs ! k)) r))"
proof -
  obtain st grp nxt where run: "rfold (trace_step expected) (cap_records cap) (trace_init, [], 1) = Inr (st, grp, nxt)"
    and fin: "grp = []" "nxt = PICTURES + 1" "tr_findings res = findings st"
    using assms unfolding validate_trace_def by (auto elim!: rbind_InrE simp: require_Inr)
  have "trace_inv [] (trace_init, [], 1)"
    by (simp add: trace_inv_def trace_init_def hist_ok_def latest_start_def)
  then have "trace_inv (cap_records cap) (st, grp, nxt)"
    by (rule rfold_prefix_invariant [OF run]) (rule trace_step_inv)
  then obtain gs where gs: "cap_records cap = concat gs" "int (length gs) = 300"
    "\<forall>k < length gs. group_shape (int k + 1) (gs ! k)"
    "findings st = [] \<longrightarrow> (\<forall>k < length gs. \<forall>r \<in> set (rows_of_kind 3 (gs ! k)).
       reference_ok (map hd (take (Suc k) gs)) (hd (gs ! k)) r)"
    unfolding trace_inv_def prod.case fin(1,2) by (auto simp: PICTURES_def)
  then have "length gs = 300" by linarith
  then show ?thesis using gs(1,3,4) fin(3) by (intro exI [of _ gs]) simp
qed

subsection \<open>A clean capture\<close>

text \<open>
  300 pictures. The first writes buffer 1 and all others write buffer 0; all are intra pictures except the
  first one of the detail window, a P picture whose only reference is the first picture.
\<close>

definition clean_buffer :: "int \<Rightarrow> int \<Rightarrow> int \<Rightarrow> row" where
  "clean_buffer k intra completed =
     [(''buffer'', if k = 1 then 1 else 0), (''timestamp'', k), (''copied'', 1), (''intra'', intra), (''writer'', k),
      (''completed'', completed), (''allocation'', if k = 1 then 2 else 1), (''length'', 4096), (''comp_start'', 0),
      (''comp_size'', 1024), (''off0'', 0), (''off1'', 1), (''off2'', 2), (''off3'', 3), (''mv_size'', 256),
      (''mv_offset'', 3840), (''bounds'', 1), (''memory'', 1)]"

definition clean_start :: "int \<Rightarrow> row" where
  "clean_start k =
     [(''previous_writer'', if k \<le> 2 then 0 else k - 1), (''poc'', k), (''slice_poc'', k), (''type'', if k = FIRST then 1 else 2), (''slices'', 1),
      (''entry_capacity'', 1), (''dpb_count'', of_bool (k = FIRST)), (''width'', 64), (''height'', 64)] @
     clean_buffer k (of_bool (k \<noteq> FIRST)) 0 @ [(''slice_entries'', 0), (''kind'', 1), (''picture'', k)]"

definition clean_done :: "int \<Rightarrow> row" where
  "clean_done k = (''result'', 5) # clean_buffer k (of_bool (k \<noteq> FIRST)) 1 @ [(''kind'', 2), (''picture'', k)]"

definition clean_motion :: "int \<Rightarrow> row" where
  "clean_motion k = [(''type'', 2), (''first'', 1), (''word'', 0x2d020000), (''kind'', 5), (''picture'', k)]"

definition clean_table :: row where
  "clean_table = [(''slot'', 0), (''poc'', 1), (''flags'', 0), (''requested_timestamp'', 1), (''word'', 0x1000017), (''matched'', 1)] @
     clean_buffer 1 1 1 @ [(''emitted_comp0'', 0), (''emitted_comp1'', 1), (''emitted_comp2'', 2), (''emitted_comp3'', 3), (''kind'', 3), (''picture'', FIRST)]"

definition clean_entry :: row where
  "clean_entry = [(''list'', 0), (''position'', 0), (''slot'', 0), (''word'', 0x2dc00000), (''kind'', 4), (''picture'', FIRST)]"

definition clean_lookup :: row where
  "clean_lookup = [(''flags'', MVD_ZERO), (''type'', 1), (''first'', 1), (''slot'', 0), (''requested_timestamp'', 1), (''lookup'', 1), (''matched'', 1),
     (''word'', 0x2d01000a)] @ clean_buffer 1 1 1 @ [(''kind'', 5), (''picture'', FIRST)]"

definition clean_group :: "int \<Rightarrow> row list" where
  "clean_group k = [clean_start k] @ (if k = FIRST then [clean_table, clean_entry, clean_lookup]
     else if FIRST \<le> k \<and> k \<le> LAST then [clean_motion k] else []) @ [clean_done k]"

definition clean_capture :: capture where
  "clean_capture = \<lparr>cap_run = 7, cap_context = 1,
     cap_records = concat (map (\<lambda>i. clean_group (int i + 1)) [0..<300]), cap_count = 613\<rparr>"

definition clean_inv :: "int \<Rightarrow> trace_state \<Rightarrow> bool" where
  "clean_inv k st \<longleftrightarrow> findings st = [] \<and> dget (starts st) 1 = Some (clean_start 1) \<and>
     dget (histories st) (1, 2) = Some 1 \<and> dget (histories st) (0, 1) = (if k = 1 then None else Some k) \<and>
     dget (allocations st) 2 = Some 1 \<and> dget (allocations st) 1 = (if k = 1 then None else Some 0) \<and>
     dget (current_allocations st) 1 = Some 2 \<and>
     current_writers st = (1, clean_start 1) # (if k = 1 then [] else [(0, clean_start k)])"

lemma clean_fields [simp]:
  "fld (clean_start k) ''kind'' = 1" "fld (clean_start k) ''picture'' = k" "fld (clean_start k) ''timestamp'' = k"
  "fld (clean_done k) ''kind'' = 2" "fld (clean_done k) ''picture'' = k"
  "fld (clean_motion k) ''kind'' = 5" "fld (clean_motion k) ''picture'' = k"
  "fld clean_table ''kind'' = 3" "fld clean_table ''picture'' = FIRST" "fld clean_entry ''kind'' = 4" "fld clean_entry ''picture'' = FIRST"
  "fld clean_lookup ''kind'' = 5" "fld clean_lookup ''picture'' = FIRST"
  by (simp_all add: fld_def clean_start_def clean_done_def clean_motion_def clean_buffer_def clean_table_def clean_entry_def clean_lookup_def)

lemma clean_group_ends [simp]:
  "hd (clean_group k) = clean_start k" "last (clean_group k) = clean_done k"
  "list_all (\<lambda>r. fld r ''picture'' = k) (clean_group k)"
  by (simp_all add: clean_group_def)

definition first_state :: "(trace_state \<times> row list \<times> int) py" where
  "first_state = rfold (trace_step None) (clean_group 1) (trace_init, [], 1)"

lemma first_state_good: "case first_state of Inr (st, g, n) \<Rightarrow> clean_inv 1 st \<and> g = [] \<and> n = 2 | Inl _ \<Rightarrow> False"
  by code_simp

lemma clean_buffer_values:
  assumes "1 < k"
  shows "fld (clean_start k) ''buffer'' = 0" "fld (clean_start k) ''allocation'' = 1" "fld (clean_start k) ''copied'' = 1"
    "fld (clean_start k) ''writer'' = k" "fld (clean_start k) ''completed'' = 0"
    "fld (clean_start k) ''length'' = 4096" "fld (clean_start k) ''comp_start'' = 0" "fld (clean_start k) ''comp_size'' = 1024"
    "fld (clean_start k) ''off0'' = 0" "fld (clean_start k) ''off1'' = 1" "fld (clean_start k) ''off2'' = 2" "fld (clean_start k) ''off3'' = 3"
    "fld (clean_start k) ''mv_size'' = 256" "fld (clean_start k) ''mv_offset'' = 3840" "fld (clean_start k) ''bounds'' = 1"
    "fld (clean_start k) ''memory'' = 1" "fld (clean_start k) ''intra'' = of_bool (k \<noteq> FIRST)"
  using assms by (simp_all add: fld_def clean_start_def clean_buffer_def)

lemma clean_start_values:
  assumes "1 < k"
  shows "fld (clean_start k) ''previous_writer'' = (if k \<le> 2 then 0 else k - 1)" "fld (clean_start k) ''type'' = (if k = FIRST then 1 else 2)"
    "fld (clean_start k) ''slices'' = 1" "fld (clean_start k) ''entry_capacity'' = 1" "fld (clean_start k) ''dpb_count'' = of_bool (k = FIRST)"
    "fld (clean_start k) ''width'' = 64" "fld (clean_start k) ''height'' = 64" "fld (clean_start k) ''slice_entries'' = 0"
  using assms by (simp_all add: fld_def clean_start_def clean_buffer_def)

lemma clean_done_values:
  "fld (clean_done k) ''result'' = 5" "fld (clean_done k) ''completed'' = 1"
  "list_all (\<lambda>n. n \<noteq> ''completed'' \<longrightarrow> fld (clean_start k) n = fld (clean_done k) n) BUFFER"
  by (simp_all add: BUFFER_def fld_def clean_start_def clean_done_def clean_buffer_def)

lemma clean_snapshot:
  assumes "dget (allocations st) 1 \<in> {None, Some 0}" and "1 < k"
  shows "check_snapshot (clean_start k) (clean_start k) st = Inr (st\<lparr>allocations := dset 1 0 (allocations st)\<rparr>)"
  using assms(1) unfolding check_snapshot_def Let_def
  by (auto simp: check_value_def OFFS_def layout_valid_def mv_bytes_def clean_buffer_values [OF assms(2)] clean_start_values [OF assms(2)])

lemma clean_check_start:
  assumes "clean_inv (k - 1) st" and "1 < k"
  shows "\<exists>st1. check_start None (clean_group k) st = Inr st1 \<and> clean_inv k st1"
proof -
  have h: "(case dget (histories st) (0, 1) of None \<Rightarrow> 0 | Some w \<Rightarrow> w) = (if k \<le> 2 then 0 else k - 1)"
    using assms by (auto simp: clean_inv_def)
  have v: "check_start_values None (clean_start k) st = st"
    using h by (simp add: check_start_values_def check_value_def clean_buffer_values [OF assms(2)] clean_start_values [OF assms(2)])
  have al: "dget (allocations st) 1 \<in> {None, Some 0}" using assms by (simp add: clean_inv_def)
  let ?upd = "st\<lparr>starts := dset k (clean_start k) (starts st),
     current_writers := dset 0 (clean_start k) (current_writers st),
     current_allocations := dset 0 1 (current_allocations st), histories := dset (0, 1) k (histories st)\<rparr>"
  have b: "check_buffer (clean_start k) (clean_start k) True ?upd =
      Inr (?upd\<lparr>allocations := dset 1 0 (allocations ?upd)\<rparr>)"
    unfolding check_buffer_def by (subst clean_snapshot) (use al assms(2) in simp_all)
  have "check_start None (clean_group k) st = check_buffer (clean_start k) (clean_start k) True ?upd"
    unfolding check_start_def Let_def clean_group_ends v clean_fields
    by (simp add: TYPES_def dhas_def clean_done_values clean_buffer_values [OF assms(2)] clean_start_values [OF assms(2)])
  moreover have "clean_inv k (?upd\<lparr>allocations := dset 1 0 (allocations ?upd)\<rparr>)"
    using assms by (auto simp: clean_inv_def)
  ultimately show ?thesis using b by simp
qed

lemma clean_rows_of_kind:
  "rows_of_kind 3 (clean_group k) = (if k = FIRST then [clean_table] else [])"
  "rows_of_kind 4 (clean_group k) = (if k = FIRST then [clean_entry] else [])"
  "rows_of_kind 5 (clean_group k) = (if k = FIRST then [clean_lookup] else if FIRST \<le> k \<and> k \<le> LAST then [clean_motion k] else [])"
  by (simp_all add: rows_of_kind_def clean_group_def)

lemma clean_motion_zero:
  "n \<notin> {''type'', ''first'', ''word'', ''kind'', ''picture''} \<Longrightarrow> fld (clean_motion k) n = 0"
  by (auto simp: fld_def clean_motion_def)

lemma clean_detail:
  assumes "k \<noteq> FIRST" shows "check_detail None (clean_start k) [] [] (clean_motion k) st = Inr st"
proof -
  have l: "fld (clean_motion k) (l_key a b) = 0" for a b
    by (rule clean_motion_zero) (auto simp: l_key_def)
  have t: "fld (clean_start k) ''type'' = 2" "fld (clean_motion k) ''type'' = 2" "fld (clean_motion k) ''first'' = 1"
    "fld (clean_motion k) ''word'' = 0x2d020000" "fld (clean_start k) ''poc'' = fld (clean_start k) ''slice_poc''"
    using assms by (simp_all add: fld_def clean_start_def clean_motion_def)
  have w: "motion_word (clean_motion k) = Inr 0x2d020000" by (simp add: motion_word_def t)
  have e: "expected_lists (clean_start k) (clean_motion k) 0 = Inr []" by (simp add: expected_lists_def t)
  have m: "check_motion (clean_start k) [] (clean_motion k) st = Inr st"
    by (simp add: check_motion_def t clean_motion_zero BUFFER_def)
  show ?thesis
    unfolding check_detail_def by (simp add: t w e m l clean_motion_zero check_value_def compare_expected_def list_all_iff)
qed

text \<open>The inter picture: its one reference is the buffer that the first picture wrote.\<close>

definition reads_first :: "row \<Rightarrow> bool" where
  "reads_first r \<longleftrightarrow> list_all (\<lambda>(k, v). fld r k = v) (clean_buffer 1 1 1)"

lemma clean_reads: "reads_first clean_table" "reads_first clean_lookup"
  by (simp_all add: reads_first_def fld_def clean_table_def clean_lookup_def clean_buffer_def)

lemma clean_reference:
  assumes "clean_inv FIRST st" and "reads_first r"
  shows "\<exists>st'. check_buffer r (clean_start FIRST) False st = Inr st' \<and> clean_inv FIRST st' "
proof -
  have f: "fld r ''buffer'' = 1" "fld r ''timestamp'' = 1" "fld r ''copied'' = 1" "fld r ''intra'' = 1" "fld r ''writer'' = 1"
    "fld r ''completed'' = 1" "fld r ''allocation'' = 2" "fld r ''length'' = 4096" "fld r ''comp_start'' = 0" "fld r ''comp_size'' = 1024"
    "fld r ''off0'' = 0" "fld r ''off1'' = 1" "fld r ''off2'' = 2" "fld r ''off3'' = 3" "fld r ''mv_size'' = 256" "fld r ''mv_offset'' = 3840"
    "fld r ''bounds'' = 1" "fld r ''memory'' = 1"
    using assms(2) by (simp_all add: reads_first_def clean_buffer_def)
  have d: "fld (clean_start k) ''width'' = 64" "fld (clean_start k) ''height'' = 64" "fld (clean_start 1) ''type'' = 2" for k
    by (simp_all add: fld_def clean_start_def FIRST_def)
  have "check_snapshot r (clean_start FIRST) st = Inr (st\<lparr>allocations := dset 2 1 (allocations st)\<rparr>)"
    using assms(1) unfolding check_snapshot_def Let_def
    by (simp add: f d check_value_def OFFS_def layout_valid_def mv_bytes_def clean_inv_def)
  moreover have "check_writer r (st\<lparr>allocations := dset 2 1 (allocations st)\<rparr>) = st\<lparr>allocations := dset 2 1 (allocations st)\<rparr>"
    using assms(1) by (simp add: check_writer_def check_value_def f d clean_inv_def)
  moreover have "clean_inv FIRST (st\<lparr>allocations := dset 2 1 (allocations st)\<rparr>)"
    using assms(1) by (simp add: clean_inv_def)
  ultimately show ?thesis by (simp add: check_buffer_def)
qed

lemma clean_table_row:
  assumes "clean_inv FIRST st"
  shows "\<exists>st'. check_table_row (clean_start FIRST) (0, clean_table) st = Inr st' \<and> clean_inv FIRST st'"
proof -
  obtain st' where st': "check_buffer clean_table (clean_start FIRST) False st = Inr st'" "clean_inv FIRST st'"
    using clean_reference [OF assms clean_reads(1)] by blast
  have h: "header_value (clean_start FIRST) clean_table = Inr 0x1000017" by code_simp
  have e: "list_all (\<lambda>i. fld clean_table (''emitted_comp'' @ show_nat i) = fld clean_table ''comp_start'' + fld clean_table (''off'' @ show_nat i)) [0..<4]"
    by code_simp
  have f: "fld clean_table ''slot'' = 0" "fld clean_table ''matched'' = 1" "fld clean_table ''requested_timestamp'' = 1"
    "fld clean_table ''timestamp'' = 1" "fld clean_table ''writer'' = 1" "fld clean_table ''poc'' = 1" "fld clean_table ''word'' = 0x1000017"
    "fld (clean_start 1) ''poc'' = 1"
    by (simp_all add: fld_def clean_table_def clean_buffer_def clean_start_def)
  have s: "dget (starts st') 1 = Some (clean_start 1)" using st'(2) by (simp add: clean_inv_def)
  have "check_table_row (clean_start FIRST) (0, clean_table) st = Inr st'"
    unfolding check_table_row_def Let_def prod.case
    by (simp only: st'(1) h e f s rbind_simps check_value_def option.case clean_fields if_True) (simp add: FIRST_def s f)
  with st'(2) show ?thesis by blast
qed

lemma clean_lookup_row:
  assumes "clean_inv FIRST st"
  shows "\<exists>st'. check_motion (clean_start FIRST) [clean_table] clean_lookup st = Inr st' \<and> clean_inv FIRST st'"
proof -
  obtain st' where st': "check_buffer clean_lookup (clean_start FIRST) False st = Inr st'" "clean_inv FIRST st'"
    using clean_reference [OF assms clean_reads(2)] by blast
  have k: "l_key 0 0 = ''l0_0''" by code_simp
  have f: "fld (clean_start FIRST) ''type'' = 1" "fld clean_lookup ''lookup'' = 1" "fld clean_lookup ''col_index'' = 0"
    "fld clean_lookup ''slot'' = 0" "fld clean_lookup ''l0_0'' = 0" "fld clean_lookup ''intra'' = 1" "fld clean_lookup ''matched'' = 1"
    "fld clean_lookup ''requested_timestamp'' = 1" "fld clean_table ''requested_timestamp'' = 1" "fld clean_lookup ''timestamp'' = 1"
    "fld clean_lookup ''valid'' = 0" "fld clean_lookup ''emitted'' = 0" "fld clean_lookup ''emitted_mv'' = 0"
    by (simp_all add: fld_def clean_lookup_def clean_table_def clean_buffer_def clean_start_def)
  have b: "list_all (\<lambda>k. fld clean_lookup k = fld clean_table k) BUFFER" by code_simp
  have "check_motion (clean_start FIRST) [clean_table] clean_lookup st = Inr st'"
    unfolding check_motion_def Let_def by (simp add: f k st'(1) b check_value_def)
  with st'(2) show ?thesis by blast
qed

lemma clean_inter:
  assumes "clean_inv FIRST st"
  shows "\<exists>st'. check_detail None (clean_start FIRST) [clean_table] [clean_entry] clean_lookup st = Inr st' \<and> clean_inv FIRST st'"
proof -
  obtain st1 where 1: "check_table_row (clean_start FIRST) (0, clean_table) st = Inr st1" "clean_inv FIRST st1"
    using clean_table_row [OF assms] by blast
  obtain st2 where 2: "check_motion (clean_start FIRST) [clean_table] clean_lookup st1 = Inr st2" "clean_inv FIRST st2"
    using clean_lookup_row [OF 1(2)] by blast
  have e: "expected_lists (clean_start FIRST) clean_lookup (Suc 0) = Inr [(0, 0, 0, 0x2dc00000)]" by code_simp
  have l: "check_lists [clean_entry] [(0, 0, 0, 0x2dc00000)] st1 = Inr st1"
    by (simp add: check_value_def fld_def clean_entry_def)
  have w: "motion_word clean_lookup = Inr 0x2d01000a" by code_simp
  have p: "fld clean_lookup ''type'' = fld (clean_start FIRST) ''type'' \<and> fld clean_lookup ''first'' = 1"
    "list_all (\<lambda>k. fld clean_lookup k \<in> {0, 1}) [''lookup'', ''matched'', ''valid'', ''emitted'']"
    "list_all (\<lambda>li. list_all (\<lambda>i. fld clean_lookup (l_key li i) \<le> 255) [0..<16]) [0, 1]"
    "fld clean_lookup ''word'' = 0x2d01000a" "fld (clean_start FIRST) ''slice_poc'' = fld (clean_start FIRST) ''poc''" by code_simp+
  have z: "zip [0..<length [clean_table]] [clean_table] = [(0, clean_table)]" by simp
  have "check_detail None (clean_start FIRST) [clean_table] [clean_entry] clean_lookup st = Inr st2"
    unfolding check_detail_def Let_def z
    by (simp only: p require_simps rbind_simps rfold.simps 1(1) length_Cons list.size(3) e l 2(1) w check_value_def if_True
        compare_expected_def option.case simp_thms)
  with 2(2) show ?thesis by blast
qed

lemma clean_check_group:
  assumes "clean_inv (k - 1) st" and "1 < k"
  shows "\<exists>st1. check_group None (clean_group k) st = Inr st1 \<and> clean_inv k st1"
proof -
  obtain st1 where st1: "check_start None (clean_group k) st = Inr st1" "clean_inv k st1"
    using clean_check_start [OF assms] by blast
  show ?thesis
  proof (cases "k = FIRST")
    case True
    obtain st2 where st2: "check_detail None (clean_start FIRST) [clean_table] [clean_entry] clean_lookup st1 = Inr st2" "clean_inv FIRST st2"
      using clean_inter st1(2) True by blast
    have d: "fld (clean_start FIRST) ''type'' = 1" "fld (clean_start FIRST) ''dpb_count'' = 1" by (simp_all add: fld_def clean_start_def)
    have "check_group None (clean_group k) st = Inr st2"
      unfolding check_group_def st1(1) rbind_simps Let_def clean_group_ends clean_rows_of_kind clean_fields
      using d st2(1) True by (simp add: clean_group_def FIRST_def LAST_def)
    with st2(2) True show ?thesis by blast
  next
    case False
    have d: "fld (clean_start k) ''type'' = 2" using False by (simp add: fld_def clean_start_def)
    have "check_group None (clean_group k) st = Inr st1"
      unfolding check_group_def st1(1) rbind_simps Let_def clean_group_ends clean_rows_of_kind clean_fields
      using d clean_detail [OF False] False by (auto simp: clean_group_def)
    with st1(2) show ?thesis by blast
  qed
qed

lemma clean_stamps:
  assumes "clean_inv k st" and "0 < k"
  shows "length (filter (\<lambda>s. b \<and> fld s ''timestamp'' = stamp) (map snd (current_writers st))) \<le> 1"
  using assms by (auto simp: clean_inv_def)

lemma clean_resolve:
  assumes "clean_inv k st" and "0 < k"
  obtains out' ws' where "resolve_stamp r key (st, out, ws) = (st, out', ws')"
proof (cases "dget out key")
  case (Some stamp)
  then show thesis using clean_stamps [OF assms, of "fld r ''kind'' \<noteq> 5 \<or> fld r ''lookup'' \<noteq> 0" stamp] that
    by (auto simp: resolve_stamp_def Let_def)
qed (use that in \<open>simp add: resolve_stamp_def\<close>)

lemma clean_normalize:
  assumes "clean_inv k st" and "0 < k"
  shows "clean_inv k (fold normalize_row rs st)"
  using assms(1)
proof (induction rs arbitrary: st)
  case (Cons r rs)
  obtain out ws where 1: "resolve_stamp r ''timestamp'' (st, r, []) = (st, out, ws)"
    using clean_resolve [OF Cons.prems assms(2)] by blast
  obtain out' ws' where 2: "resolve_stamp r ''requested_timestamp'' (st, out, ws) = (st, out', ws')"
    using clean_resolve [OF Cons.prems assms(2)] by blast
  have "clean_inv k (normalize_row r st)" using Cons.prems by (simp add: normalize_row_def 1 2 clean_inv_def)
  then show ?case using Cons.IH by simp
qed simp

lemma clean_group_run:
  assumes "clean_inv (k - 1) st" and "1 < k"
  shows "\<exists>st'. rfold (trace_step None) (clean_group k) (st, [], k) = Inr (st', [], k + 1) \<and> clean_inv k st'"
proof -
  obtain st1 where st1: "check_group None (clean_group k) st = Inr st1" "clean_inv k st1"
    using clean_check_group [OF assms] by blast
  then have "rfold (trace_step None) (clean_group k) (st, [], k) =
      Inr (fold normalize_row (clean_group k) st1, [], k + 1)"
    by (cases "k = FIRST"; cases "FIRST \<le> k \<and> k \<le> LAST") (auto simp: clean_group_def trace_step_def Let_def)
  then show ?thesis using clean_normalize [OF st1(2)] assms(2) by auto
qed

lemma clean_run:
  "\<exists>st. rfold (trace_step None) (concat (map (\<lambda>i. clean_group (int i + 1)) [0..<Suc n])) (trace_init, [], 1) =
     Inr (st, [], int n + 2) \<and> clean_inv (int n + 1) st"
proof (induction n)
  case 0
  show ?case using first_state_good by (auto simp: first_state_def split: sum.splits)
next
  case (Suc n)
  then obtain st where st: "rfold (trace_step None) (concat (map (\<lambda>i. clean_group (int i + 1)) [0..<Suc n]))
      (trace_init, [], 1) = Inr (st, [], int n + 2)" "clean_inv (int n + 1) st" by blast
  have "\<exists>st'. rfold (trace_step None) (clean_group (int n + 2)) (st, [], int n + 2) =
      Inr (st', [], int n + 2 + 1) \<and> clean_inv (int n + 2) st'"
    by (rule clean_group_run) (use st(2) in \<open>simp_all add: add.commute\<close>)
  then obtain st' where step: "rfold (trace_step None) (clean_group (int n + 2)) (st, [], int n + 2) =
      Inr (st', [], int n + 2 + 1)" "clean_inv (int n + 2) st'" by blast
  have "concat (map (\<lambda>i. clean_group (int i + 1)) [0..<Suc (Suc n)]) =
      concat (map (\<lambda>i. clean_group (int i + 1)) [0..<Suc n]) @ clean_group (int n + 2)" by (simp add: add.commute)
  then have "rfold (trace_step None) (concat (map (\<lambda>i. clean_group (int i + 1)) [0..<Suc (Suc n)])) (trace_init, [], 1) =
      Inr (st', [], int n + 2 + 1)" by (simp only: rfold_append st(1) rbind_simps step(1))
  with step(2) show ?case by (intro exI [of _ st']) (simp add: add.commute)
qed

theorem clean_trace_references_witness:
  "\<exists>res gs. validate_trace clean_capture None = Inr res \<and> tr_findings res = [] \<and> cap_records clean_capture = concat gs \<and> length gs = 300 \<and>
     clean_table \<in> set (rows_of_kind 3 (gs ! 23)) \<and> reference_ok (map hd (take 24 gs)) (hd (gs ! 23)) clean_table"
proof -
  obtain st where st: "rfold (trace_step None) (cap_records clean_capture) (trace_init, [], 1) = Inr (st, [], 301)" "findings st = []"
    using clean_run [of 299] by (auto simp: clean_capture_def clean_inv_def)
  define res where "res = \<lparr>tr_run = cap_run clean_capture, tr_context = cap_context clean_capture,
    tr_userspace_correlated = False, tr_findings = findings st, tr_records = normalized st\<rparr>"
  have v: "validate_trace clean_capture None = Inr res"
    using st(1) by (simp add: validate_trace_def PICTURES_def res_def)
  have clean: "tr_findings res = []" by (simp add: res_def st(2))
  obtain gs where gs: "cap_records clean_capture = concat gs" "length gs = 300" "\<forall>k < 300. group_shape (int k + 1) (gs ! k)"
    and refs: "\<forall>k < 300. \<forall>r \<in> set (rows_of_kind 3 (gs ! k)). reference_ok (map hd (take (Suc k) gs)) (hd (gs ! k)) r"
    using clean_trace_references [OF v] clean by blast
  have "clean_table \<in> set (clean_group (int 23 + 1))" by (simp add: clean_group_def FIRST_def)
  moreover have "(23 :: nat) \<in> set [0..<300]" by simp
  ultimately have "clean_table \<in> set (concat gs)" unfolding gs(1) [symmetric] clean_capture_def capture.simps set_concat set_map by blast
  then obtain g where "g \<in> set gs" "clean_table \<in> set g" by auto
  then obtain k where k: "k < 300" "clean_table \<in> set (gs ! k)" using gs(2) by (auto simp: in_set_conv_nth [of g])
  have "fld clean_table ''picture'' = int k + 1" using gs(3) [rule_format, OF k(1)] k(2) unfolding group_shape_def by blast
  then have "k = 23" by (simp add: FIRST_def)
  with k have row: "clean_table \<in> set (rows_of_kind 3 (gs ! 23))" by (simp add: rows_of_kind_def)
  with refs [rule_format, of 23] show ?thesis using v clean gs(1,2) by (auto simp: numeral_eq_Suc)
qed

subsection \<open>Numerals, rows and the motion word\<close>

text \<open>
  A token is accepted as the integer it prints: \<open>trace_unsigned\<close> accepts exactly the decimal
  spellings without sign, space or leading zero of the integers below 2^64, so reading inverts
  printing and no integer has two spellings.
\<close>
theorem trace_unsigned_canonical:
  "trace_unsigned token = Inr i \<longleftrightarrow> 0 \<le> i \<and> i < 2 ^ 64 \<and> token = show_nat (nat i)"
  unfolding trace_unsigned_def by (rule decimal_token_Inr) simp

definition row_keys :: "int \<Rightarrow> string list" where
  "row_keys kind = (case dget TRACE_FIELDS kind of None \<Rightarrow> [] | Some keys \<Rightarrow> keys)"

lemma row_keys_length: "length (row_keys kind) \<le> VALUES"
  by (auto simp: row_keys_def TRACE_FIELDS_def START_def TABLE_def MOTION_def BUFFER_def VALUES_def)

lemma sign_field_Inr:
  assumes "sign_field k r = Inr r'"
  shows "map fst r' = map fst r \<and> (\<forall>n. n \<noteq> k \<longrightarrow> dget r' n = dget r n) \<and>
    (\<forall>v. dget r' k = Some v \<longrightarrow> - (2 ^ 31) \<le> v \<and> v < 2 ^ 31 \<and> dget r k = Some (v mod 2 ^ 32))"
proof (cases "dget r k")
  case None
  with assms show ?thesis by (simp add: sign_field_def)
next
  case (Some v)
  then have r': "0 \<le> v" "v < 2 ^ 32" "r' = dset k (if v < 2 ^ 31 then v else v - 2 ^ 32) r"
    using assms by (auto simp: sign_field_def trace_signed32_def require_Inr elim!: rbind_InrE)
  have "k \<in> set (map fst r)" using Some by (metis map_of_eq_None_iff option.distinct(1) list.set_map)
  then have "map fst r' = map fst r" using r'(3) by (simp add: update_keys)
  moreover have "(v - 2 ^ 32) mod 2 ^ 32 = v mod 2 ^ 32" by (simp add: mod_diff_right_eq)
  ultimately show ?thesis using r' Some by auto
qed

text \<open>
  Rows are typed by their kind. A row read from 72 values has exactly the fields of its kind, then
  its kind and picture number; the picture number is within the capture; picture order counts are
  signed 32-bit values congruent to the recorded ones, every other field is the recorded value, and
  no value beyond the fields was dropped unless it was zero.
\<close>
theorem row_of_typed:
  assumes "row_of kind pic vals = Inr r" and "length vals = VALUES"
  shows "kind \<in> {1, 2, 3, 4, 5} \<and> 1 \<le> pic \<and> pic \<le> PICTURES \<and>
    map fst r = row_keys kind @ [''kind'', ''picture''] \<and>
    (\<forall>i < length (row_keys kind). let k = row_keys kind ! i; v = fld r k in
       if k \<in> {''poc'', ''slice_poc''} then - (2 ^ 31) \<le> v \<and> v < 2 ^ 31 \<and> v mod 2 ^ 32 = vals ! i
       else v = vals ! i) \<and>
    (\<forall>v \<in> set (drop (length (row_keys kind)) vals). v = 0)"
proof -
  obtain keys where keys: "dget TRACE_FIELDS kind = Some keys"
    using assms(1) by (auto simp: row_of_def split: option.splits)
  have rk: "row_keys kind = keys" by (simp add: row_keys_def keys)
  define r0 where "r0 = zip keys vals @ [(''kind'', kind), (''picture'', pic)]"
  obtain r1 where pic: "1 \<le> pic \<and> pic \<le> PICTURES" and zero: "\<not> list_ex (\<lambda>v. v \<noteq> 0) (drop (length keys) vals)"
    and s1: "sign_field ''poc'' r0 = Inr r1" and s2: "sign_field ''slice_poc'' r1 = Inr r"
    using assms(1) unfolding row_of_def keys option.case r0_def [symmetric] by (auto elim!: rbind_InrE simp: require_Inr)
  note t1 = sign_field_Inr [OF s1] and t2 = sign_field_Inr [OF s2]
  have kind: "kind \<in> {1, 2, 3, 4, 5}" using keys by (auto simp: TRACE_FIELDS_def split: if_splits)
  have len: "length keys \<le> length vals" using row_keys_length [of kind] assms(2) by (simp add: rk)
  then have fst0: "map fst r0 = keys @ [''kind'', ''picture'']" by (simp add: r0_def map_fst_zip_take)
  have "list_all (\<lambda>(k, ks). distinct (ks @ [''kind'', ''picture''])) TRACE_FIELDS" by code_simp
  moreover have "(kind, keys) \<in> set TRACE_FIELDS" using keys by (rule map_of_SomeD)
  ultimately have dist: "distinct (map fst r0)" unfolding list_all_iff fst0 by auto
  have get0: "dget r0 (keys ! i) = Some (vals ! i)" if "i < length keys" for i
  proof (rule map_of_is_SomeI [OF dist])
    have "zip keys vals ! i \<in> set (zip keys vals)" using that len by (intro nth_mem) simp
    then show "(keys ! i, vals ! i) \<in> set r0" using that len by (simp add: r0_def)
  qed
  have get: "let k = keys ! i; v = fld r k in
       if k \<in> {''poc'', ''slice_poc''} then - (2 ^ 31) \<le> v \<and> v < 2 ^ 31 \<and> v mod 2 ^ 32 = vals ! i
       else v = vals ! i" if i: "i < length keys" for i
  proof -
    let ?k = "keys ! i"
    have "?k \<in> set (map fst r0)" using i fst0 by simp
    then have "?k \<in> fst ` set r" using t1 t2 by (metis list.set_map)
    then obtain v where v: "dget r ?k = Some v" by (metis map_of_eq_None_iff not_None_eq)
    consider "?k = ''poc''" | "?k = ''slice_poc''" | "?k \<notin> {''poc'', ''slice_poc''}" by blast
    then show ?thesis
    proof cases
      case 1
      then have "dget r1 ''poc'' = Some v" using t2 v by simp
      then have "- (2 ^ 31) \<le> v \<and> v < 2 ^ 31 \<and> dget r0 ''poc'' = Some (v mod 2 ^ 32)" using t1 by blast
      then show ?thesis using get0 [OF i] v 1 by (simp add: fld_def)
    next
      case 2
      then have "- (2 ^ 31) \<le> v \<and> v < 2 ^ 31 \<and> dget r1 ''slice_poc'' = Some (v mod 2 ^ 32)" using t2 v by simp
      then show ?thesis using get0 [OF i] v 2 t1 by (simp add: fld_def)
    next
      case 3
      then have "dget r ?k = dget r0 ?k" using t1 t2 by simp
      then show ?thesis using get0 [OF i] 3 by (simp add: fld_def)
    qed
  qed
  show ?thesis unfolding rk using kind pic t1 t2 fst0 get zero by (auto simp: list_ex_iff)
qed

theorem row_of_typed_witness:
  "\<exists>r. row_of 4 30 ([1, 2, 3, 0x2dc00123] @ replicate 68 0) = Inr r \<and>
     map fst r = row_keys 4 @ [''kind'', ''picture''] \<and> fld r ''word'' = 0x2dc00123"
proof -
  let ?vals = "[1, 2, 3, 0x2dc00123] @ replicate 68 0 :: int list" and ?r = "[(''list'', 1 :: int), (''position'', 2), (''slot'', 3),
    (''word'', 0x2dc00123), (''kind'', 4), (''picture'', 30)]"
  have r: "row_of 4 30 ?vals = Inr ?r" by code_simp
  have "length ?vals = VALUES" by (simp add: VALUES_def)
  with row_of_typed [OF r] have "map fst ?r = row_keys 4 @ [''kind'', ''picture'']" by blast
  with r show ?thesis by (auto simp: fld_def)
qed

lemma field_masks:
  fixes n :: int
  assumes "0 \<le> n" "n \<le> 15"
  shows "push_bit 11 n AND NOT 0xf800 = 0" and "push_bit 7 n AND NOT 0x780 = 0"
proof -
  have "n \<in> set [0..15]" using assms by simp
  moreover have "list_all (\<lambda>n. push_bit 11 n AND NOT 0xf800 = 0 \<and> push_bit 7 n AND NOT 0x780 = (0 :: int)) [0..15]"
    by code_simp
  ultimately show "push_bit 11 n AND NOT 0xf800 = 0" and "push_bit 7 n AND NOT 0x780 = 0"
    unfolding list_all_iff by blast+
qed

lemma merge_mask:
  fixes n :: int
  assumes "0 \<le> n" "n \<le> 4"
  shows "push_bit 1 (5 - n) AND NOT 0xe = 0"
proof -
  have "n \<in> set [0..4]" using assms by simp
  moreover have "list_all (\<lambda>n. push_bit 1 (5 - n) AND NOT 0xe = (0 :: int)) [0..4]" by code_simp
  ultimately show ?thesis unfolding list_all_iff by blast
qed

lemma flag_or_nonzero: "a AND b \<noteq> 0 \<Longrightarrow> a AND (b OR c) \<noteq> 0" for a b c :: int
  unfolding bit_eq_iff by (auto simp: bit_and_iff bit_or_iff)

text \<open>
  C24. The recorded word refines the prediction. For a P or B slice whose motion record has the type,
  the active list lengths and the temporal motion flags of the submitted slice, and the validity the
  prediction expects if it expects one, the full motion word computed from the record agrees with
  the partially known word predicted from the slice alone, on every bit the prediction claims.
\<close>
theorem motion_word_refines_prediction:
  assumes ty: "(typ, fld m ''type'') \<in> {(''P'', 1), (''B'', 0)}"
    and flags: "fld m ''flags'' AND TMVP \<noteq> 0 \<longleftrightarrow> tmvp" "tmvp \<longrightarrow> (fld m ''flags'' AND COL_L0 \<noteq> 0 \<longleftrightarrow> col_l0)"
    and l0: "fld m ''l0_minus1'' = int n0 - 1" "0 < n0" "n0 \<le> 16"
    and l1: "typ = ''B'' \<longrightarrow> fld m ''l1_minus1'' = int n1 - 1" "0 \<le> fld m ''l1_minus1''" "fld m ''l1_minus1'' < 16"
    and merge: "0 \<le> fld m ''merge''" "fld m ''merge'' \<le> 4"
    and valid: "fld m ''valid'' \<in> {0, 1}" "\<forall>v. ref_valid = Some v \<longrightarrow> fld m ''valid'' = of_bool v"
  shows "\<exists>w x. cmd_word (motion_fields typ tmvp col_l0 n0 n1 ref_valid) = Inr w \<and> motion_word m = Inr x \<and>
    x AND known_mask w = known_value w"
proof -
  let ?f = "fld m ''flags''"
  let ?flds = "motion_fields typ tmvp col_l0 n0 n1 ref_valid"
  define bs where "bs = [0x2d000000, push_bit 1 (5 - fld m ''merge''),
     push_bit 4 (of_bool (?f AND TMVP \<noteq> 0 \<and> ?f AND COL_L0 = 0)),
     push_bit 5 (of_bool (?f AND CABAC \<noteq> 0)), push_bit 6 (of_bool (?f AND MVD_ZERO = 0)),
     push_bit 11 (fld m ''l0_minus1''), push_bit 7 (fld m ''l1_minus1''),
     push_bit 15 (of_bool (?f AND (TMVP OR DEPENDENT) \<noteq> 0)), push_bit 16 (of_bool (fld m ''type'' = 1)),
     push_bit 18 (fld m ''valid'')]"
  have x: "motion_word m = Inr (foldr (OR) bs 0)"
    using ty l0 l1 merge unfolding motion_word_def bs_def by (auto simp: Let_def or.assoc)
  have dep: "tmvp \<Longrightarrow> ?f AND (TMVP OR DEPENDENT) \<noteq> 0" using flags(1) flag_or_nonzero by blast
  have m0: "push_bit 11 (int n0 - 1) AND NOT 0xf800 = 0" by (rule field_masks(1)) (use l0 in simp_all)
  have m1: "push_bit 7 (fld m ''l1_minus1'') AND NOT 0x780 = 0" by (rule field_masks(2)) (use l1 in simp_all)
  note mm = merge_mask [OF merge]
  have eq: "(?f AND TMVP \<noteq> 0 \<and> ?f AND COL_L0 = 0) = (tmvp \<and> \<not> col_l0)" using flags by blast
  have p: "(fld m ''type'' = 1) = (typ = ''P'')" using ty by auto
  have 2: "fits (a, 0xe, None) (push_bit 1 (5 - fld m ''merge''))" for a
    unfolding fits_def fst_conv snd_conv using mm by blast
  have 3: "fits (a, 0x10, Some (push_bit 4 (of_bool b))) (push_bit 4 (of_bool b))" for a b by (cases b) (simp_all add: fits_def)
  have 4: "fits (a, 0x20, None) (push_bit 5 (of_bool b))" for a b by (cases b) (simp_all add: fits_def)
  have 5: "fits (a, 0x40, None) (push_bit 6 (of_bool b))" for a b by (cases b) (simp_all add: fits_def)
  have 6: "fits (a, 0xf800, Some (push_bit 11 (int n0 - 1))) (push_bit 11 (fld m ''l0_minus1''))" for a
    unfolding fits_def fst_conv snd_conv l0(1) using m0 by blast
  have 7: "fits (a, 0x780, if typ = ''B'' then Some (push_bit 7 (int n1 - 1)) else None)
      (push_bit 7 (fld m ''l1_minus1''))" for a
    unfolding fits_def fst_conv snd_conv using m1 l1(1) by (cases "typ = ''B''") auto
  have 8: "fits (a, 0x8000, if tmvp then Some 0x8000 else None)
      (push_bit 15 (of_bool (?f AND (TMVP OR DEPENDENT) \<noteq> 0)))" for a
    using dep by (cases "?f AND (TMVP OR DEPENDENT) \<noteq> 0") (auto simp: fits_def)
  have 9: "fits (a, 0x10000, Some (push_bit 16 (of_bool b))) (push_bit 16 (of_bool b))" for a b
    by (cases b) (simp_all add: fits_def)
  have 10: "fits (a, 0x40000, map_option (\<lambda>v. push_bit 18 (of_bool v)) ref_valid) (push_bit 18 (fld m ''valid''))" for a
    using valid by (cases ref_valid) (auto simp: fits_def)
  have fit: "list_all2 fits ?flds bs"
    unfolding motion_fields_def bs_def eq p
    by (intro list_all2_Cons [THEN iffD2] conjI 2 3 4 5 6 7 8 9 10) (simp_all add: fits_def)
  have masks: "\<forall>f \<in> set ?flds. fst (snd f) AND NOT WORD_ALL = 0"
    by (simp add: motion_fields_def WORD_ALL_def)
  obtain w where w: "cmd_word ?flds = Inr w" using cmd_word_total [OF fit] by blast
  have "completes ?flds (foldr (OR) bs 0)" using fit unfolding completes_def by blast
  from cmd_word_completion(1) [OF w masks this] show ?thesis using w x by blast
qed

theorem motion_word_refines_prediction_witness:
  "\<exists>w x. cmd_word (motion_fields ''P'' True True 2 0 None) = Inr w \<and>
     motion_word [(''type'', 1), (''flags'', 36), (''l0_minus1'', 1), (''merge'', 2), (''valid'', 1)] = Inr x \<and>
     x AND known_mask w = known_value w"
  by (rule motion_word_refines_prediction)
    (simp_all add: fld_def TMVP_def COL_L0_def)

end
