(* ===== verification/Command_Trace.thy ===== *)
theory Command_Trace
  imports Avd_Trace
begin

unbundle bit_operations_syntax

text \<open>
  The reader of the command snapshot, \<open>src/experiments/hevc-avd-command-trace/parser.py\<close>: the packed
  control block (\<open>pack_controls\<close>, \<open>unpack_controls\<close>), the domain of the host execution
  (\<open>validate_controls\<close>), the text of a snapshot (\<open>parse_snapshot\<close>), its binding to the reference
  trace of the same run (\<open>bind_history\<close>, on a \<open>capture\<close> of \<open>Avd_Trace\<close>) and two arithmetic checks.

  A byte is an \<open>8 word\<close>. \<open>LAYOUT\<close> is what \<^verbatim>\<open>layout()\<close> reads from \<open>kernel/control-layout.inc\<close>. Control
  values are JSON values as the caller of \<open>pack_controls\<close> may pass anything.
\<close>

type_synonym cbyte = "8 word"

definition CMD_PACKED :: nat where "CMD_PACKED = 1380"
definition CMD_CONTROL :: nat where "CMD_CONTROL = 1392"
definition WINDOW_SIZE :: int where "WINDOW_SIZE = 7596"
definition CAPTURE_SIZE :: int where "CAPTURE_SIZE = (64 + 300 * 24 + 11 * WINDOW_SIZE + 7) div 8 * 8"

datatype wire_kind = U8 | S8 | U16 | U32 | S32 | U64 | BYTES

definition signed_kind :: "wire_kind \<Rightarrow> bool" where
  "signed_kind k \<longleftrightarrow> k \<in> {S8, S32}"

definition wire_count :: "wire_kind \<Rightarrow> nat \<Rightarrow> nat" where
  "wire_count k count = (case k of U8 \<Rightarrow> 1 | S8 \<Rightarrow> 1 | U16 \<Rightarrow> 2 | U32 \<Rightarrow> 4 | S32 \<Rightarrow> 4 | U64 \<Rightarrow> 8 | BYTES \<Rightarrow> count)"

definition LAYOUT :: "(wire_kind \<times> string \<times> nat) list" where
  "LAYOUT = map (\<lambda>(k, n, c). (k, n, wire_count k c))
     [(U8, ''video_parameter_set_id'', 1), (U8, ''seq_parameter_set_id'', 1), 
      (U16, ''pic_width_in_luma_samples'', 1), (U16, ''pic_height_in_luma_samples'', 1), 
      (U8, ''bit_depth_luma_minus8'', 1), (U8, ''bit_depth_chroma_minus8'', 1), 
      (U8, ''log2_max_pic_order_cnt_lsb_minus4'', 1), 
      (U8, ''sps_max_dec_pic_buffering_minus1'', 1), (U8, ''sps_max_num_reorder_pics'', 1), 
      (U8, ''sps_max_latency_increase_plus1'', 1), 
      (U8, ''log2_min_luma_coding_block_size_minus3'', 1), 
      (U8, ''log2_diff_max_min_luma_coding_block_size'', 1), 
      (U8, ''log2_min_luma_transform_block_size_minus2'', 1), 
      (U8, ''log2_diff_max_min_luma_transform_block_size'', 1), 
      (U8, ''max_transform_hierarchy_depth_inter'', 1), 
      (U8, ''max_transform_hierarchy_depth_intra'', 1), 
      (U8, ''pcm_sample_bit_depth_luma_minus1'', 1), 
      (U8, ''pcm_sample_bit_depth_chroma_minus1'', 1), 
      (U8, ''log2_min_pcm_luma_coding_block_size_minus3'', 1), 
      (U8, ''log2_diff_max_min_pcm_luma_coding_block_size'', 1), 
      (U8, ''num_short_term_ref_pic_sets'', 1), (U8, ''num_long_term_ref_pics_sps'', 1), 
      (U8, ''chroma_format_idc'', 1), (U8, ''sps_max_sub_layers_minus1'', 1), 
      (U64, ''sps_flags'', 1), (U8, ''pic_parameter_set_id'', 1), 
      (U8, ''num_extra_slice_header_bits'', 1), 
      (U8, ''num_ref_idx_l0_default_active_minus1'', 1), 
      (U8, ''num_ref_idx_l1_default_active_minus1'', 1), (S8, ''init_qp_minus26'', 1), 
      (U8, ''diff_cu_qp_delta_depth'', 1), (S8, ''pps_cb_qp_offset'', 1), 
      (S8, ''pps_cr_qp_offset'', 1), (U8, ''num_tile_columns_minus1'', 1), 
      (U8, ''num_tile_rows_minus1'', 1), (BYTES, ''column_width_minus1'', 20), 
      (BYTES, ''row_height_minus1'', 22), (S8, ''pps_beta_offset_div2'', 1), 
      (S8, ''pps_tc_offset_div2'', 1), (U8, ''log2_parallel_merge_level_minus2'', 1), 
      (U64, ''pps_flags'', 1), (BYTES, ''scaling_list_4x4'', 96), 
      (BYTES, ''scaling_list_8x8'', 384), (BYTES, ''scaling_list_16x16'', 384), 
      (BYTES, ''scaling_list_32x32'', 128), (BYTES, ''scaling_list_dc_coef_16x16'', 6), 
      (BYTES, ''scaling_list_dc_coef_32x32'', 2), (U32, ''bit_size'', 1), 
      (U32, ''data_byte_offset'', 1), (U32, ''num_entry_point_offsets'', 1), 
      (U8, ''nal_unit_type'', 1), (U8, ''nuh_temporal_id_plus1'', 1), (U8, ''slice_type'', 1), 
      (U8, ''colour_plane_id'', 1), (S32, ''slice_pic_order_cnt'', 1), 
      (U8, ''num_ref_idx_l0_active_minus1'', 1), (U8, ''num_ref_idx_l1_active_minus1'', 1), 
      (U8, ''collocated_ref_idx'', 1), (U8, ''five_minus_max_num_merge_cand'', 1), 
      (S8, ''slice_qp_delta'', 1), (S8, ''slice_cb_qp_offset'', 1), 
      (S8, ''slice_cr_qp_offset'', 1), (S8, ''slice_act_y_qp_offset'', 1), 
      (S8, ''slice_act_cb_qp_offset'', 1), (S8, ''slice_act_cr_qp_offset'', 1), 
      (S8, ''slice_beta_offset_div2'', 1), (S8, ''slice_tc_offset_div2'', 1), 
      (U8, ''pic_struct'', 1), (U32, ''slice_segment_addr'', 1), (BYTES, ''ref_idx_l0'', 16), 
      (BYTES, ''ref_idx_l1'', 16), (U16, ''short_term_ref_pic_set_size'', 1), 
      (U16, ''long_term_ref_pic_set_size'', 1), (U64, ''slice_flags'', 1), 
      (U8, ''luma_log2_weight_denom'', 1), (S8, ''delta_chroma_log2_weight_denom'', 1), 
      (BYTES, ''delta_luma_weight_l0'', 16), (BYTES, ''luma_offset_l0'', 16), 
      (BYTES, ''delta_chroma_weight_l0'', 32), (BYTES, ''chroma_offset_l0'', 32), 
      (BYTES, ''delta_luma_weight_l1'', 16), (BYTES, ''luma_offset_l1'', 16), 
      (BYTES, ''delta_chroma_weight_l1'', 32), (BYTES, ''chroma_offset_l1'', 32), 
      (U64, ''decode_flags'', 1)]"

subsection \<open>Packed controls\<close>

fun le_value :: "cbyte list \<Rightarrow> int" where
  "le_value [] = 0"
| "le_value (b # bs) = uint b + 256 * le_value bs"

fun le_bytes :: "nat \<Rightarrow> int \<Rightarrow> cbyte list" where
  "le_bytes 0 v = []"
| "le_bytes (Suc n) v = word_of_int v # le_bytes n (v div 256)"

text \<open>\<^verbatim>\<open>int.from_bytes\<close> and \<^verbatim>\<open>int.to_bytes\<close>, little endian; the latter overflows outside its range.\<close>

definition from_bytes :: "bool \<Rightarrow> cbyte list \<Rightarrow> int" where
  "from_bytes sg bs = (let v = le_value bs in
     if sg \<and> v \<ge> 2 ^ (8 * length bs - 1) then v - 2 ^ (8 * length bs) else v)"

definition to_bytes :: "bool \<Rightarrow> nat \<Rightarrow> int \<Rightarrow> cbyte list option" where
  "to_bytes sg n v =
     (if (if sg then - (2 ^ (8 * n - 1)) \<le> v \<and> v < 2 ^ (8 * n - 1) else 0 \<le> v \<and> v < 2 ^ (8 * n))
      then Some (le_bytes n v) else None)"

fun unpack_fields :: "(wire_kind \<times> string \<times> nat) list \<Rightarrow> cbyte list \<Rightarrow> (string, json) dict" where
  "unpack_fields [] buf = []"
| "unpack_fields ((kind, name, count) # rest) buf =
     (name, if kind = BYTES then JList (map (\<lambda>b. JInt (uint b)) (take count buf))
            else JInt (from_bytes (signed_kind kind) (take count buf))) # unpack_fields rest (drop count buf)"

definition unpack_controls :: "cbyte list \<Rightarrow> (string, json) dict py" where
  "unpack_controls buf =
     rbind (require (length buf = CMD_CONTROL) ''controls require exactly 1392 bytes'') (\<lambda>_.
     rbind (require (list_all (\<lambda>b. b = 0) (drop CMD_PACKED buf)) ''nonzero wire padding'') (\<lambda>_.
     Inr (unpack_fields LAYOUT buf)))"

definition byte_item :: "json \<Rightarrow> cbyte option" where
  "byte_item v = (case v of JInt i \<Rightarrow> if 0 \<le> i \<and> i \<le> 255 then Some (word_of_int i) else None | _ \<Rightarrow> None)"

definition pack_field :: "(string, json) dict \<Rightarrow> wire_kind \<times> string \<times> nat \<Rightarrow> cbyte list py" where
  "pack_field c = (\<lambda>(kind, name, count).
     rbind (dsub c name) (\<lambda>v.
     if kind = BYTES
     then (case v of
             JList xs \<Rightarrow>
               if length xs = count \<and> list_all (\<lambda>x. byte_item x \<noteq> None) xs
               then Inr (map (\<lambda>x. the (byte_item x)) xs) else Inl (Reject (''array domain: '' @ name))
           | _ \<Rightarrow> Inl (Reject (''array domain: '' @ name)))
     else (case v of
             JInt i \<Rightarrow> (case to_bytes (signed_kind kind) count i of
                 None \<Rightarrow> Inl (Reject (''scalar range: '' @ name))
               | Some bs \<Rightarrow> Inr bs)
           | _ \<Rightarrow> Inl (Reject (''scalar domain: '' @ name)))))"

definition pack_controls :: "(string, json) dict \<Rightarrow> cbyte list py" where
  "pack_controls c =
     rbind (require (set (map fst c) = set (map (fst \<circ> snd) LAYOUT)) ''missing/unknown control fields'') (\<lambda>_.
     rbind (rmap (pack_field c) LAYOUT) (\<lambda>bss.
     Inr (concat bss @ replicate (CMD_CONTROL - CMD_PACKED) 0)))"

subsection \<open>The domain of the experiment\<close>

definition known_flags :: "(string, json) dict \<Rightarrow> string \<times> int \<Rightarrow> unit py" where
  "known_flags c = (\<lambda>(name, msk). require (jint c name AND NOT msk = 0) (''unknown control flags: '' @ name))"

definition validate_controls :: "(string, json) dict \<Rightarrow> unit py" where
  "validate_controls c =
     rbind (rall (known_flags c) [(''sps_flags'', 511), (''pps_flags'', 2 ^ 21 - 1), (''slice_flags'', 1023),
       (''decode_flags'', 7)]) (\<lambda>_.
     rbind (require (jint c ''slice_type'' \<in> {0, 1, 2}) ''unknown slice type'') (\<lambda>_.
     rbind (require (jint c ''pps_flags'' AND 2 ^ 11 = 0 \<and> jint c ''num_entry_point_offsets'' = 0)
       ''tiles/entry points outside experiment'') (\<lambda>_.
     rbind (require (jint c ''num_tile_columns_minus1'' = jint c ''num_tile_rows_minus1'' \<and>
       jint c ''num_tile_rows_minus1'' = 0) ''unexpected inactive tile geometry'') (\<lambda>_.
     rbind (require (jint c ''chroma_format_idc'' = 1 \<and> jint c ''bit_depth_luma_minus8'' \<in> {0, 2} \<and>
       jint c ''bit_depth_luma_minus8'' = jint c ''bit_depth_chroma_minus8'') ''depth/chroma outside experiment'') (\<lambda>_.
     rbind (require (list_all (\<lambda>k. 0 < jint c k \<and> jint c k \<le> 16384)
       [''pic_width_in_luma_samples'', ''pic_height_in_luma_samples'']) ''dimensions outside domain'') (\<lambda>_.
     let log2 = 3 + jint c ''log2_min_luma_coding_block_size_minus3'' +
           jint c ''log2_diff_max_min_luma_coding_block_size'' in
     rbind (require (3 \<le> log2 \<and> log2 \<le> 6) ''invalid CTB size'') (\<lambda>_.
     let size = 2 ^ nat log2;
         ctbs = ((jint c ''pic_width_in_luma_samples'' + size - 1) div size) *
                ((jint c ''pic_height_in_luma_samples'' + size - 1) div size) in
     rbind (require (jint c ''slice_segment_addr'' < ctbs) ''slice start outside picture'') (\<lambda>_.
     rbind (require (jint c ''num_ref_idx_l0_active_minus1'' < 16 \<and> jint c ''num_ref_idx_l1_active_minus1'' < 16)
       ''reference extent'') (\<lambda>_.
     rbind (require (0 \<le> jint c ''luma_log2_weight_denom'' \<and> jint c ''luma_log2_weight_denom'' \<le> 7 \<and>
       0 \<le> jint c ''luma_log2_weight_denom'' + jint c ''delta_chroma_log2_weight_denom'' \<and>
       jint c ''luma_log2_weight_denom'' + jint c ''delta_chroma_log2_weight_denom'' \<le> 7)
       ''weight shift outside domain'') (\<lambda>_.
     rbind (require (jint c ''bit_size'' \<le> 2 ^ 31 - 1 \<and> 0 \<le> jint c ''data_byte_offset'' \<and>
       jint c ''data_byte_offset'' < jint c ''bit_size'' div 8) ''coded extent outside source int domain'') (\<lambda>_.
     rbind (require (0 \<le> jint c ''init_qp_minus26'' + 26 + jint c ''slice_qp_delta'' \<and>
       jint c ''init_qp_minus26'' + 26 + jint c ''slice_qp_delta'' \<le> 51 + 6 * jint c ''bit_depth_luma_minus8'')
       ''QP outside experiment'') (\<lambda>_.
     rbind (rall (\<lambda>k. require (-12 \<le> jint c k \<and> jint c k \<le> 12) ''QP offset outside domain'')
       [''pps_cb_qp_offset'', ''pps_cr_qp_offset'', ''slice_cb_qp_offset'', ''slice_cr_qp_offset'']) (\<lambda>_.
     rall (\<lambda>k. require (-6 \<le> jint c k \<and> jint c k \<le> 6) ''deblock offset outside domain'')
       [''slice_beta_offset_div2'', ''slice_tc_offset_div2''])))))))))))))"

subsection \<open>Snapshots\<close>

definition cmd_unsigned :: "nat \<Rightarrow> string \<Rightarrow> int py" where
  "cmd_unsigned bits token =
     decimal_token ''noncanonical integer'' ''integer range/noncanonical spelling'' bits token"

definition cmd_signed32 :: "int \<Rightarrow> int" where
  "cmd_signed32 n = (if n < 2 ^ 31 then n else n - 2 ^ 32)"

record cmd_hist =
  ch_picture :: int
  ch_poc :: int
  ch_type :: int
  ch_target :: int
  ch_flags :: int
  ch_intra :: int

record cmd_window =
  cw_picture :: int
  cw_poc :: int
  cw_type :: int
  cw_nwords :: int
  cw_nbytes :: int
  cw_inactive :: int
  cw_sites :: "int list"
  cw_words :: "int list"
  cw_controls :: "cbyte list"
  cw_decomp :: int
  cw_revision :: int
  cw_quirks :: int
  cw_bytesperline :: int

record cmd_capture =
  cc_run :: int
  cc_context :: int
  cc_pictures :: "cmd_hist list"
  cc_windows :: "cmd_window list"

definition parse_history :: "string \<Rightarrow> cmd_hist list \<Rightarrow> cmd_hist list py" where
  "parse_history line hs =
     (let p = py_split line in
     rbind (require (length p = 7 \<and> hd p = ''P'') ''history shape'') (\<lambda>_.
     rbind (rmap (cmd_unsigned 32) (tl p)) (\<lambda>vs.
     let number = vs ! 0; poc = vs ! 1; kind = vs ! 2; target = vs ! 3; flags = vs ! 4; intra = vs ! 5 in
     rbind (require (number = int (length hs) + 1 \<and> kind \<in> {0, 1, 2} \<and> flags AND NOT 7 = 0 \<and>
       intra = of_bool (kind = 2)) ''history sequence/type/flags'') (\<lambda>_.
     Inr (hs @ [\<lparr>ch_picture = number, ch_poc = cmd_signed32 poc, ch_type = kind, ch_target = target,
                  ch_flags = flags, ch_intra = intra\<rparr>])))))"

fun evens :: "'a list \<Rightarrow> 'a list" where
  "evens (x # y # xs) = x # evens xs"
| "evens xs = xs"

definition odds :: "'a list \<Rightarrow> 'a list" where
  "odds xs = evens (tl xs)"

definition expected_inactive :: "(string, json) dict \<Rightarrow> int \<Rightarrow> int" where
  "expected_inactive c kind =
     (if jint c ''sps_flags'' AND 2 = 0 then 2 ^ 19 else 0) OR (if kind = 2 then 2 ^ 27 else 0)"

definition parse_window :: "cmd_hist list \<Rightarrow> string \<times> string \<Rightarrow> cmd_window list \<Rightarrow> cmd_window list py" where
  "parse_window hs rows ws =
     (let pic = 24 + int (length ws); w = py_split (fst rows); h = hs ! nat (pic - 1) in
     rbind (require (11 \<le> length w \<and> hd w = ''W'') ''window shape'') (\<lambda>_.
     rbind (rmap (cmd_unsigned 32) (take 10 (tl w))) (\<lambda>vs.
     let number = vs ! 0; poc = vs ! 1; kind = vs ! 2; nwords = vs ! 3; nbytes = vs ! 4; inactive = vs ! 5;
         decomp = vs ! 6; revision = vs ! 7; quirks = vs ! 8; stride = vs ! 9 in
     rbind (require (number = pic \<and> cmd_signed32 poc = ch_poc h \<and> kind = ch_type h) ''window/history binding'') (\<lambda>_.
     rbind (require (0 < nwords \<and> nwords \<le> 1024 \<and> nbytes = int CMD_CONTROL \<and> int (length w) = 11 + 2 * nwords)
       ''word/control extent'') (\<lambda>_.
     rbind (require (decomp \<in> {0, 1} \<and> revision \<in> {3, 4} \<and> quirks AND NOT 3 = 0 \<and> 0 < stride \<and> stride < 2 ^ 24)
       ''missing/unknown kernel context inputs'') (\<lambda>_.
     rbind (require (inactive AND NOT (2 ^ 19 OR 2 ^ 27) = 0) ''unknown inactive bits'') (\<lambda>_.
     rbind (rmap (cmd_unsigned 32) (drop 11 w)) (\<lambda>pairs.
     let sites = evens pairs; words = odds pairs in
     rbind (require (list_all (\<lambda>site. 1 \<le> site \<and> site \<le> 32) sites) ''unknown word site'') (\<lambda>_.
     let raw = py_split (snd rows) in
     rbind (require (length raw = CMD_CONTROL + 1 \<and> hd raw = ''C'') ''control row shape'') (\<lambda>_.
     rbind (rmap (cmd_unsigned 8) (tl raw)) (\<lambda>bs.
     let buf = map word_of_int bs in
     rbind (unpack_controls buf) (\<lambda>c.
     rbind (validate_controls c) (\<lambda>_.
     rbind (require (jint c ''slice_pic_order_cnt'' = cmd_signed32 poc \<and> jint c ''slice_type'' = kind \<and>
       jint c ''decode_flags'' = ch_flags h) ''copied controls bound to wrong job'') (\<lambda>_.
     rbind (require (inactive = expected_inactive c kind) ''missing/contradictory inactive state'') (\<lambda>_.
     Inr (ws @ [\<lparr>cw_picture = pic, cw_poc = cmd_signed32 poc, cw_type = kind, cw_nwords = nwords,
                  cw_nbytes = nbytes, cw_inactive = inactive, cw_sites = sites, cw_words = words,
                  cw_controls = buf, cw_decomp = decomp, cw_revision = revision, cw_quirks = quirks,
                  cw_bytesperline = stride\<rparr>]))))))))))))))))"

definition line_pairs :: "string list \<Rightarrow> (string \<times> string) list" where
  "line_pairs ls = zip (evens ls) (odds ls)"

definition parse_snapshot :: "string \<Rightarrow> json \<Rightarrow> cmd_capture py" where
  "parse_snapshot body expected_run =
     rbind (case expected_run of
              JInt r \<Rightarrow> require (0 < r \<and> r < 2 ^ 64) ''expected run required''
            | _ \<Rightarrow> Inl (Reject ''expected run required'')) (\<lambda>_.
     rbind (require (utf8_len body \<le> 512 * 1024) ''snapshot too large'') (\<lambda>_.
     let ls = splitlines body in
     rbind (require (length ls = 323) ''require header, 300 histories and 11 complete windows'') (\<lambda>_.
     let h = py_split (hd ls) in
     rbind (require (length h = 14 \<and> hd h = ''H'') ''header shape'') (\<lambda>_.
     rbind (rmap (cmd_unsigned 64) (tl h)) (\<lambda>vs.
     let version = vs ! 0; run = vs ! 1; context = vs ! 2; phase = vs ! 3; errors = vs ! 4 in
     rbind (require (version = 2 \<and> expected_run = JInt run \<and> phase = 4 \<and> errors = 0 \<and> context > 0)
       ''wrong run/context/schema or invalid capture'') (\<lambda>_.
     rbind (require (drop 5 vs = [300, 300, 2048, 24, 34, 1024, CAPTURE_SIZE, WINDOW_SIZE]) ''extent/layout mismatch'') (\<lambda>_.
     rbind (rfold parse_history (take 300 (tl ls)) []) (\<lambda>hs.
     rbind (rfold (parse_window hs) (line_pairs (drop 301 ls)) []) (\<lambda>ws.
     Inr \<lparr>cc_run = run, cc_context = context, cc_pictures = hs, cc_windows = ws\<rparr>)))))))))"

definition bind_history :: "cmd_capture \<Rightarrow> capture \<Rightarrow> unit py" where
  "bind_history cap reference =
     rbind (require (cc_run cap = cap_run reference \<and> cc_context cap = cap_context reference) ''paired trace identity'') (\<lambda>_.
     let start_rows = filter (\<lambda>r. fld r ''kind'' = 1) (cap_records reference) in
     rbind (require (length start_rows = 300) ''paired writer history extent'') (\<lambda>_.
     rall (\<lambda>(own, ref). require (ch_picture own = fld ref ''picture'' \<and> ch_poc own = fld ref ''poc'' \<and>
         ch_type own = fld ref ''type'' \<and> ch_target own = fld ref ''buffer'' \<and> ch_intra own = fld ref ''intra'')
         ''paired writer/job mismatch'') (zip (cc_pictures cap) start_rows)))"

subsection \<open>Arithmetic checks\<close>

definition predict_qp :: "(string, json) dict \<Rightarrow> int py" where
  "predict_qp c =
     rbind (require (list_all (\<lambda>k. case dget c k of Some v \<Rightarrow> is_int v | None \<Rightarrow> False)
       [''init_qp_minus26'', ''slice_qp_delta'', ''pps_cb_qp_offset'', ''pps_cr_qp_offset'', ''slice_cb_qp_offset'',
        ''slice_cr_qp_offset'']) ''QP inputs missing'') (\<lambda>_.
     Inr (0x2d900000 OR push_bit 10 ((jint c ''init_qp_minus26'' + 26 + jint c ''slice_qp_delta'') AND 255) OR
       push_bit 5 ((jint c ''pps_cb_qp_offset'' + jint c ''slice_cb_qp_offset'') AND 31) OR
       ((jint c ''pps_cr_qp_offset'' + jint c ''slice_cr_qp_offset'') AND 31)))"

definition classify_weights :: "cmd_window \<Rightarrow> string py" where
  "classify_weights w =
     (let weight = map snd (filter (\<lambda>(site, _). 22 \<le> site \<and> site \<le> 26) (zip (cw_sites w) (cw_words w))) in
      if cw_inactive w AND 2 ^ 27 \<noteq> 0
      then rbind (require (weight = []) ''skipped weights also emitted'') (\<lambda>_. Inr ''skipped'')
      else rbind (require (weight \<noteq> []) ''weight state missing'') (\<lambda>_.
           Inr (if weight = [0x2dd00000] then ''default-header'' else ''weighted'')))"

subsection \<open>Packing round trips\<close>

lemma byte_uint: "0 \<le> uint b" "uint b < 256" for b :: cbyte
  using unsigned_less [of b, where 'a = int] by simp_all

lemma byte_shift: "word_of_int (v + 256 * k) = (word_of_int v :: cbyte)"
  unfolding word_of_int_eq_iff take_bit_eq_mod by simp

lemma le_bytes_length [simp]: "length (le_bytes n v) = n"
  by (induction n arbitrary: v) simp_all

lemma le_value_bounds: "0 \<le> le_value bs \<and> le_value bs < 256 ^ length bs"
proof (induction bs)
  case (Cons b bs)
  show ?case using Cons byte_uint [of b] by simp
qed simp

lemma le_value_bytes: "le_value (le_bytes n v) = v mod 256 ^ n"
proof (induction n arbitrary: v)
  case (Suc n)
  have "uint (word_of_int v :: cbyte) = v mod 256" by (simp add: uint_word_of_int)
  moreover have "v mod (256 * 256 ^ n) = v mod 256 + 256 * (v div 256 mod 256 ^ n)"
    using zmod_zmult2_eq [of "256 ^ n" v 256] by simp
  ultimately show ?case using Suc by simp
qed simp

lemma le_bytes_value: "le_bytes (length bs) (le_value bs) = bs"
proof (induction bs)
  case (Cons b bs)
  note u = byte_uint [of b]
  have "(uint b + 256 * le_value bs) div 256 = le_value bs" using u by simp
  moreover have "(word_of_int (uint b + 256 * le_value bs) :: cbyte) = b"
    unfolding byte_shift by simp
  ultimately show ?case using Cons by simp
qed simp

lemma le_bytes_shift: "le_bytes n (v + 256 ^ n * k) = le_bytes n v"
proof (induction n arbitrary: v)
  case (Suc n)
  have "(word_of_int (v + 256 * (256 ^ n * k)) :: cbyte) = word_of_int v"
    by (rule byte_shift)
  moreover have "(v + 256 * (256 ^ n * k)) div 256 = v div 256 + 256 ^ n * k" by simp
  ultimately show ?case using Suc [of "v div 256"] by (simp add: mult.assoc add.commute)
qed simp

lemma exp_256: "(2 :: int) ^ (8 * n) = 256 ^ n"
  by (simp add: power_mult)

lemma half_256: "0 < n \<Longrightarrow> (256 :: int) ^ n = 2 * 2 ^ (8 * n - 1)"
  by (simp add: exp_256 [symmetric] power_Suc [symmetric] del: power_Suc)

lemma from_to_bytes:
  assumes "to_bytes sg n v = Some bs" and "0 < n"
  shows "length bs = n \<and> from_bytes sg bs = v"
proof -
  have bs: "bs = le_bytes n v" and r: "if sg then - (2 ^ (8 * n - 1)) \<le> v \<and> v < 2 ^ (8 * n - 1) else 0 \<le> v \<and> v < 2 ^ (8 * n)"
    using assms(1) by (auto simp: to_bytes_def split: if_splits)
  let ?h = "2 ^ (8 * n - 1) :: int"
  have val: "le_value bs = v mod (2 * ?h)" unfolding bs le_value_bytes half_256 [OF assms(2)] by simp
  show ?thesis
  proof (cases "sg \<and> v < 0")
    case True
    then have "(v + 2 * ?h) mod (2 * ?h) = v + 2 * ?h" using r by (intro mod_pos_pos_trivial) auto
    then have "v mod (2 * ?h) = v + 2 * ?h" by (simp only: mod_add_self2)
    then show ?thesis using True r val by (auto simp: from_bytes_def Let_def bs exp_256 half_256 [OF assms(2)])
  next
    case False
    then have "v mod (2 * ?h) = v" using r half_256 [OF assms(2)] by (auto simp: exp_256 intro!: mod_pos_pos_trivial split: if_splits)
    then show ?thesis using False r val by (auto simp: from_bytes_def Let_def bs exp_256 half_256 [OF assms(2)])
  qed
qed

lemma to_from_bytes:
  assumes "bs \<noteq> []"
  shows "to_bytes sg (length bs) (from_bytes sg bs) = Some bs"
proof -
  let ?n = "length bs" and ?h = "2 ^ (8 * length bs - 1) :: int"
  have n: "0 < ?n" using assms by simp
  have b: "0 \<le> le_value bs" "le_value bs < 2 * ?h" using le_value_bounds [of bs] half_256 [OF n] by simp_all
  show ?thesis
  proof (cases "sg \<and> le_value bs \<ge> ?h")
    case True
    then have f: "from_bytes sg bs = le_value bs + 256 ^ ?n * (-1)" by (simp add: from_bytes_def exp_256)
    have "le_bytes ?n (from_bytes sg bs) = bs" unfolding f le_bytes_shift le_bytes_value ..
    moreover have "- ?h \<le> from_bytes sg bs" "from_bytes sg bs < ?h" using b True half_256 [OF n] unfolding f by simp_all
    ultimately show ?thesis using True by (simp add: to_bytes_def)
  next
    case False
    then have f: "from_bytes sg bs = le_value bs" by (auto simp: from_bytes_def)
    show ?thesis
      using b False unfolding f to_bytes_def le_bytes_value exp_256 half_256 [OF n] by auto
  qed
qed

definition field_value :: "wire_kind \<Rightarrow> cbyte list \<Rightarrow> json" where
  "field_value kind bs = (if kind = BYTES then JList (map (\<lambda>b. JInt (uint b)) bs)
     else JInt (from_bytes (signed_kind kind) bs))"

lemma pack_field_Inr:
  assumes "pack_field c (kind, name, count) = Inr bs" and "kind \<noteq> BYTES \<longrightarrow> 0 < count"
  shows "length bs = count \<and> dget c name = Some (field_value kind bs)"
proof -
  obtain v where v: "dget c name = Some v" using assms(1) by (auto simp: pack_field_def dsub_Inr elim!: rbind_InrE)
  show ?thesis
  proof (cases "kind = BYTES")
    case True
    then obtain xs where xs: "v = JList xs" "length xs = count" "list_all (\<lambda>x. byte_item x \<noteq> None) xs"
      "bs = map (\<lambda>x. the (byte_item x)) xs"
      using assms(1) v by (auto simp: pack_field_def dsub_def split: json.splits if_splits)
    have "JInt (uint (the (byte_item x))) = x" if mem: "x \<in> set xs" for x
    proof -
      obtain y where "byte_item x = Some y" using mem xs(3) by (auto simp: list_all_iff)
      then obtain i where i: "x = JInt i" "0 \<le> i" "i \<le> 255"
        by (cases x) (auto simp: byte_item_def split: if_splits)
      then have "uint (word_of_int i :: cbyte) = i" by (simp add: uint_word_of_int)
      then show ?thesis using i by (simp add: byte_item_def)
    qed
    then have "map (\<lambda>b. JInt (uint b)) bs = xs" unfolding xs(4) by (simp add: map_idI)
    then show ?thesis using v xs True by (simp add: field_value_def)
  next
    case False
    then obtain i where i: "v = JInt i" "to_bytes (signed_kind kind) count i = Some bs"
      using assms(1) v by (auto simp: pack_field_def dsub_def split: json.splits option.splits)
    then show ?thesis using from_to_bytes [OF i(2)] assms(2) False v by (simp add: field_value_def)
  qed
qed

lemma pack_field_value:
  assumes "dget c name = Some (field_value kind bs)" and "length bs = count" and "kind \<noteq> BYTES \<longrightarrow> 0 < count"
  shows "pack_field c (kind, name, count) = Inr bs"
proof (cases "kind = BYTES")
  case True
  have "byte_item (JInt (uint b)) = Some b" for b using byte_uint [of b] by (simp add: byte_item_def)
  then show ?thesis using assms True by (simp add: pack_field_def dsub_def field_value_def list_all_iff comp_def)
next
  case False
  have "to_bytes (signed_kind kind) count (from_bytes (signed_kind kind) bs) = Some bs"
    using to_from_bytes [of bs] assms(2,3) False by auto
  then show ?thesis using assms(1) False by (simp add: pack_field_def dsub_def field_value_def)
qed

definition scalars_sized :: "(wire_kind \<times> string \<times> nat) list \<Rightarrow> bool" where
  "scalars_sized L \<longleftrightarrow> list_all (\<lambda>(k, n, c). k \<noteq> BYTES \<longrightarrow> 0 < c) L"

definition layout_size :: "(wire_kind \<times> string \<times> nat) list \<Rightarrow> nat" where
  "layout_size L = sum_list (map (\<lambda>(k, n, c). c) L)"

lemma LAYOUT_facts: "distinct (map (fst \<circ> snd) LAYOUT)" "scalars_sized LAYOUT" "layout_size LAYOUT = CMD_PACKED"
  by code_simp+

lemma unpack_fields_names: "map fst (unpack_fields L buf) = map (fst \<circ> snd) L"
  by (induction L buf rule: unpack_fields.induct) simp_all

lemma unpack_packed:
  assumes "rmap (pack_field c) L = Inr bss" and "scalars_sized L"
  shows "length (concat bss) = layout_size L \<and>
    (\<forall>(k, n, cnt) \<in> set L. dget c n \<noteq> None) \<and>
    unpack_fields L (concat bss @ rest) = map (\<lambda>(k, n, cnt). (n, the (dget c n))) L"
  using assms
proof (induction L arbitrary: bss)
  case (Cons f L)
  obtain kind name count where f: "f = (kind, name, count)" by (cases f)
  obtain bs bss' where 1: "pack_field c (kind, name, count) = Inr bs" "rmap (pack_field c) L = Inr bss'" "bss = bs # bss'"
    using Cons.prems(1) unfolding f by (auto elim!: rbind_InrE)
  have p: "length bs = count" "dget c name = Some (field_value kind bs)"
    using pack_field_Inr [OF 1(1)] Cons.prems(2) by (auto simp: f scalars_sized_def)
  show ?case
    using Cons.IH [OF 1(2)] Cons.prems(2) p unfolding f 1(3)
    by (auto simp: scalars_sized_def layout_size_def field_value_def)
qed (simp add: layout_size_def)

fun field_bytes :: "(wire_kind \<times> string \<times> nat) list \<Rightarrow> cbyte list \<Rightarrow> cbyte list list" where
  "field_bytes [] buf = []"
| "field_bytes ((kind, name, count) # rest) buf = take count buf # field_bytes rest (drop count buf)"

lemma concat_field_bytes: "concat (field_bytes L buf) = take (layout_size L) buf"
  by (induction L buf rule: field_bytes.induct) (simp_all add: layout_size_def take_add)

lemma pack_unpacked:
  assumes "\<And>n v. dget (unpack_fields L buf) n = Some v \<Longrightarrow> dget c n = Some v"
    and "distinct (map (fst \<circ> snd) L)" and "scalars_sized L" and "layout_size L \<le> length buf"
  shows "rmap (pack_field c) L = Inr (field_bytes L buf)"
  using assms
proof (induction L arbitrary: buf)
  case (Cons f L)
  obtain kind name count where f: "f = (kind, name, count)" by (cases f)
  have "name \<notin> set (map fst (unpack_fields L (drop count buf)))"
    unfolding unpack_fields_names using Cons.prems(2) by (simp add: f)
  then have fresh: "dget (unpack_fields L (drop count buf)) name = None" by (simp add: map_of_eq_None_iff)
  have "dget (unpack_fields (f # L) buf) name = Some (field_value kind (take count buf))"
    by (simp add: f field_value_def)
  then have "dget c name = Some (field_value kind (take count buf))" by (rule Cons.prems(1))
  moreover have "length (take count buf) = count" using Cons.prems(4) by (simp add: f layout_size_def)
  ultimately have "pack_field c (kind, name, count) = Inr (take count buf)"
    using Cons.prems(3) by (intro pack_field_value) (auto simp: f scalars_sized_def)
  moreover have "rmap (pack_field c) L = Inr (field_bytes L (drop count buf))"
  proof (rule Cons.IH)
    fix n v assume "dget (unpack_fields L (drop count buf)) n = Some v"
    then show "dget c n = Some v" using fresh Cons.prems(1) [of n v] by (cases "n = name") (auto simp: f)
  qed (use Cons.prems in \<open>auto simp: f scalars_sized_def layout_size_def\<close>)
  ultimately show ?case by (simp add: f)
qed simp

lemma unpack_pack_controls:
  assumes "pack_controls c = Inr buf"
  shows "length buf = CMD_CONTROL \<and> (\<exists>c'. unpack_controls buf = Inr c' \<and> (\<forall>k. dget c' k = dget c k))"
proof -
  from assms obtain bss where names: "set (map fst c) = set (map (fst \<circ> snd) LAYOUT)"
    and bss: "rmap (pack_field c) LAYOUT = Inr bss" and buf: "buf = concat bss @ replicate (CMD_CONTROL - CMD_PACKED) 0"
    unfolding pack_controls_def by (auto simp: require_Inr elim!: rbind_InrE)
  note u = unpack_packed [OF bss LAYOUT_facts(2), of "replicate (CMD_CONTROL - CMD_PACKED) 0"]
  have len: "length (concat bss) = CMD_PACKED" using u LAYOUT_facts(3) by simp
  then have length: "length buf = CMD_CONTROL" unfolding buf by (simp add: CMD_CONTROL_def CMD_PACKED_def)
  have "unpack_controls buf = Inr (unpack_fields LAYOUT buf)"
    using len unfolding buf unpack_controls_def by (simp add: CMD_CONTROL_def CMD_PACKED_def list_all_iff)
  moreover have "dget (unpack_fields LAYOUT buf) k = dget c k" for k
  proof -
    have m: "dget (map (\<lambda>(kind, n, cnt). (n, the (dget c n))) L) k =
        (if k \<in> set (map (fst \<circ> snd) L) then Some (the (dget c k)) else None)" for L :: "(wire_kind \<times> string \<times> nat) list"
      by (induction L) auto
    have "dget c k \<noteq> None \<longleftrightarrow> k \<in> set (map (fst \<circ> snd) LAYOUT)"
      unfolding names [symmetric] by (simp add: map_of_eq_None_iff)
    moreover have "dget (unpack_fields LAYOUT buf) k =
        (if k \<in> set (map (fst \<circ> snd) LAYOUT) then Some (the (dget c k)) else None)"
      unfolding buf using u m by simp
    ultimately show ?thesis by (cases "dget c k") simp_all
  qed
  ultimately show ?thesis using length by blast
qed

lemma pack_unpack_controls:
  assumes "unpack_controls buf = Inr c"
  shows "pack_controls c = Inr buf"
proof -
  from assms have len: "length buf = CMD_CONTROL" and pad: "list_all (\<lambda>b. b = 0) (drop CMD_PACKED buf)"
    and c: "c = unpack_fields LAYOUT buf"
    unfolding unpack_controls_def by (auto simp: require_Inr elim!: rbind_InrE)
  have "rmap (pack_field c) LAYOUT = Inr (field_bytes LAYOUT buf)"
    by (rule pack_unpacked) (use len c LAYOUT_facts in \<open>simp_all add: CMD_CONTROL_def CMD_PACKED_def\<close>)
  moreover have "set (map fst c) = set (map (fst \<circ> snd) LAYOUT)" unfolding c unpack_fields_names ..
  moreover have "replicate (CMD_CONTROL - CMD_PACKED) 0 = drop CMD_PACKED buf"
  proof (rule sym, rule replicate_eqI)
    show "length (drop CMD_PACKED buf) = CMD_CONTROL - CMD_PACKED" using len by simp
    show "y = 0" if "y \<in> set (drop CMD_PACKED buf)" for y using pad that by (simp only: list_all_iff)
  qed
  moreover have "concat (field_bytes LAYOUT buf) @ drop CMD_PACKED buf = buf"
    unfolding concat_field_bytes LAYOUT_facts(3) by (rule append_take_drop_id)
  ultimately show "pack_controls c = Inr buf"
    unfolding pack_controls_def by simp
qed

text \<open>
  C25. The control block is a faithful encoding. Packing a complete dict of controls gives 1392 bytes
  that unpack to the same value for every field, and unpacking any well-formed block gives controls
  that pack to exactly that block, so no two blocks and no two control sets are confused.
\<close>
theorem controls_roundtrip:
  "(pack_controls c = Inr buf \<longrightarrow>
      length buf = CMD_CONTROL \<and> (\<exists>c'. unpack_controls buf = Inr c' \<and> (\<forall>k. dget c' k = dget c k))) \<and>
   (unpack_controls buf = Inr c \<longrightarrow> pack_controls c = Inr buf)"
  using unpack_pack_controls pack_unpack_controls by blast

theorem controls_roundtrip_witness:
  "\<exists>c. unpack_controls (replicate CMD_CONTROL 0) = Inr c \<and> pack_controls c = Inr (replicate CMD_CONTROL 0)"
proof -
  have "unpack_controls (replicate CMD_CONTROL 0) = Inr (unpack_fields LAYOUT (replicate CMD_CONTROL 0))"
    by (simp add: unpack_controls_def list_all_iff)
  with controls_roundtrip show ?thesis by blast
qed

end
