(* ===== verification/Command_Compare.thy ===== *)
theory Command_Compare
  imports Command_Trace
begin

unbundle bit_operations_syntax

text \<open>
  The comparison of the controls that the ioctls returned with those the kernel copied into its command
  snapshot, \<open>src/experiments/hevc-avd-command-capture/compare.py\<close>: \<open>copied_fields\<close> and \<open>compare_capture\<close>.

  \<open>COPY_LAYOUT\<close> is \<open>kernel/control-layout.inc\<close> with the C expression of each field, split at its arrow;
  \<open>flags\<close> is the dict that \<^verbatim>\<open>flag_values\<close> reads from a kernel header. Rows are JSON values. The values
  that \<open>validate_controls\<close> reads are integers or \<open>pack_controls\<close>, called next, rejects them.
\<close>

definition COPY_LAYOUT :: "(wire_kind \<times> string \<times> string \<times> string \<times> nat) list" where
  "COPY_LAYOUT =
     [(U8, ''video_parameter_set_id'', ''sps'', ''video_parameter_set_id'', 1),
      (U8, ''seq_parameter_set_id'', ''sps'', ''seq_parameter_set_id'', 1),
      (U16, ''pic_width_in_luma_samples'', ''sps'', ''pic_width_in_luma_samples'', 1),
      (U16, ''pic_height_in_luma_samples'', ''sps'', ''pic_height_in_luma_samples'', 1),
      (U8, ''bit_depth_luma_minus8'', ''sps'', ''bit_depth_luma_minus8'', 1),
      (U8, ''bit_depth_chroma_minus8'', ''sps'', ''bit_depth_chroma_minus8'', 1),
      (U8, ''log2_max_pic_order_cnt_lsb_minus4'', ''sps'', ''log2_max_pic_order_cnt_lsb_minus4'', 1),
      (U8, ''sps_max_dec_pic_buffering_minus1'', ''sps'', ''sps_max_dec_pic_buffering_minus1'', 1),
      (U8, ''sps_max_num_reorder_pics'', ''sps'', ''sps_max_num_reorder_pics'', 1),
      (U8, ''sps_max_latency_increase_plus1'', ''sps'', ''sps_max_latency_increase_plus1'', 1),
      (U8, ''log2_min_luma_coding_block_size_minus3'', ''sps'', ''log2_min_luma_coding_block_size_minus3'', 1),
      (U8, ''log2_diff_max_min_luma_coding_block_size'', ''sps'', ''log2_diff_max_min_luma_coding_block_size'', 1),
      (U8, ''log2_min_luma_transform_block_size_minus2'', ''sps'', ''log2_min_luma_transform_block_size_minus2'', 1),
      (U8, ''log2_diff_max_min_luma_transform_block_size'', ''sps'', ''log2_diff_max_min_luma_transform_block_size'', 1),
      (U8, ''max_transform_hierarchy_depth_inter'', ''sps'', ''max_transform_hierarchy_depth_inter'', 1),
      (U8, ''max_transform_hierarchy_depth_intra'', ''sps'', ''max_transform_hierarchy_depth_intra'', 1),
      (U8, ''pcm_sample_bit_depth_luma_minus1'', ''sps'', ''pcm_sample_bit_depth_luma_minus1'', 1),
      (U8, ''pcm_sample_bit_depth_chroma_minus1'', ''sps'', ''pcm_sample_bit_depth_chroma_minus1'', 1),
      (U8, ''log2_min_pcm_luma_coding_block_size_minus3'', ''sps'', ''log2_min_pcm_luma_coding_block_size_minus3'', 1),
      (U8, ''log2_diff_max_min_pcm_luma_coding_block_size'', ''sps'', ''log2_diff_max_min_pcm_luma_coding_block_size'', 1),
      (U8, ''num_short_term_ref_pic_sets'', ''sps'', ''num_short_term_ref_pic_sets'', 1),
      (U8, ''num_long_term_ref_pics_sps'', ''sps'', ''num_long_term_ref_pics_sps'', 1),
      (U8, ''chroma_format_idc'', ''sps'', ''chroma_format_idc'', 1),
      (U8, ''sps_max_sub_layers_minus1'', ''sps'', ''sps_max_sub_layers_minus1'', 1),
      (U64, ''sps_flags'', ''sps'', ''flags'', 1), (U8, ''pic_parameter_set_id'', ''pps'', ''pic_parameter_set_id'', 1),
      (U8, ''num_extra_slice_header_bits'', ''pps'', ''num_extra_slice_header_bits'', 1),
      (U8, ''num_ref_idx_l0_default_active_minus1'', ''pps'', ''num_ref_idx_l0_default_active_minus1'', 1),
      (U8, ''num_ref_idx_l1_default_active_minus1'', ''pps'', ''num_ref_idx_l1_default_active_minus1'', 1),
      (S8, ''init_qp_minus26'', ''pps'', ''init_qp_minus26'', 1),
      (U8, ''diff_cu_qp_delta_depth'', ''pps'', ''diff_cu_qp_delta_depth'', 1),
      (S8, ''pps_cb_qp_offset'', ''pps'', ''pps_cb_qp_offset'', 1),
      (S8, ''pps_cr_qp_offset'', ''pps'', ''pps_cr_qp_offset'', 1),
      (U8, ''num_tile_columns_minus1'', ''pps'', ''num_tile_columns_minus1'', 1),
      (U8, ''num_tile_rows_minus1'', ''pps'', ''num_tile_rows_minus1'', 1),
      (BYTES, ''column_width_minus1'', ''pps'', ''column_width_minus1'', 20),
      (BYTES, ''row_height_minus1'', ''pps'', ''row_height_minus1'', 22),
      (S8, ''pps_beta_offset_div2'', ''pps'', ''pps_beta_offset_div2'', 1),
      (S8, ''pps_tc_offset_div2'', ''pps'', ''pps_tc_offset_div2'', 1),
      (U8, ''log2_parallel_merge_level_minus2'', ''pps'', ''log2_parallel_merge_level_minus2'', 1),
      (U64, ''pps_flags'', ''pps'', ''flags'', 1), (BYTES, ''scaling_list_4x4'', ''sc'', ''scaling_list_4x4'', 96),
      (BYTES, ''scaling_list_8x8'', ''sc'', ''scaling_list_8x8'', 384),
      (BYTES, ''scaling_list_16x16'', ''sc'', ''scaling_list_16x16'', 384),
      (BYTES, ''scaling_list_32x32'', ''sc'', ''scaling_list_32x32'', 128),
      (BYTES, ''scaling_list_dc_coef_16x16'', ''sc'', ''scaling_list_dc_coef_16x16'', 6),
      (BYTES, ''scaling_list_dc_coef_32x32'', ''sc'', ''scaling_list_dc_coef_32x32'', 2),
      (U32, ''bit_size'', ''sl'', ''bit_size'', 1), (U32, ''data_byte_offset'', ''sl'', ''data_byte_offset'', 1),
      (U32, ''num_entry_point_offsets'', ''sl'', ''num_entry_point_offsets'', 1),
      (U8, ''nal_unit_type'', ''sl'', ''nal_unit_type'', 1),
      (U8, ''nuh_temporal_id_plus1'', ''sl'', ''nuh_temporal_id_plus1'', 1),
      (U8, ''slice_type'', ''sl'', ''slice_type'', 1), (U8, ''colour_plane_id'', ''sl'', ''colour_plane_id'', 1),
      (S32, ''slice_pic_order_cnt'', ''sl'', ''slice_pic_order_cnt'', 1),
      (U8, ''num_ref_idx_l0_active_minus1'', ''sl'', ''num_ref_idx_l0_active_minus1'', 1),
      (U8, ''num_ref_idx_l1_active_minus1'', ''sl'', ''num_ref_idx_l1_active_minus1'', 1),
      (U8, ''collocated_ref_idx'', ''sl'', ''collocated_ref_idx'', 1),
      (U8, ''five_minus_max_num_merge_cand'', ''sl'', ''five_minus_max_num_merge_cand'', 1),
      (S8, ''slice_qp_delta'', ''sl'', ''slice_qp_delta'', 1),
      (S8, ''slice_cb_qp_offset'', ''sl'', ''slice_cb_qp_offset'', 1),
      (S8, ''slice_cr_qp_offset'', ''sl'', ''slice_cr_qp_offset'', 1),
      (S8, ''slice_act_y_qp_offset'', ''sl'', ''slice_act_y_qp_offset'', 1),
      (S8, ''slice_act_cb_qp_offset'', ''sl'', ''slice_act_cb_qp_offset'', 1),
      (S8, ''slice_act_cr_qp_offset'', ''sl'', ''slice_act_cr_qp_offset'', 1),
      (S8, ''slice_beta_offset_div2'', ''sl'', ''slice_beta_offset_div2'', 1),
      (S8, ''slice_tc_offset_div2'', ''sl'', ''slice_tc_offset_div2'', 1),
      (U8, ''pic_struct'', ''sl'', ''pic_struct'', 1), (U32, ''slice_segment_addr'', ''sl'', ''slice_segment_addr'', 1),
      (BYTES, ''ref_idx_l0'', ''sl'', ''ref_idx_l0'', 16), (BYTES, ''ref_idx_l1'', ''sl'', ''ref_idx_l1'', 16),
      (U16, ''short_term_ref_pic_set_size'', ''sl'', ''short_term_ref_pic_set_size'', 1),
      (U16, ''long_term_ref_pic_set_size'', ''sl'', ''long_term_ref_pic_set_size'', 1),
      (U64, ''slice_flags'', ''sl'', ''flags'', 1),
      (U8, ''luma_log2_weight_denom'', ''w'', ''luma_log2_weight_denom'', 1),
      (S8, ''delta_chroma_log2_weight_denom'', ''w'', ''delta_chroma_log2_weight_denom'', 1),
      (BYTES, ''delta_luma_weight_l0'', ''w'', ''delta_luma_weight_l0'', 16),
      (BYTES, ''luma_offset_l0'', ''w'', ''luma_offset_l0'', 16),
      (BYTES, ''delta_chroma_weight_l0'', ''w'', ''delta_chroma_weight_l0'', 32),
      (BYTES, ''chroma_offset_l0'', ''w'', ''chroma_offset_l0'', 32),
      (BYTES, ''delta_luma_weight_l1'', ''w'', ''delta_luma_weight_l1'', 16),
      (BYTES, ''luma_offset_l1'', ''w'', ''luma_offset_l1'', 16),
      (BYTES, ''delta_chroma_weight_l1'', ''w'', ''delta_chroma_weight_l1'', 32),
      (BYTES, ''chroma_offset_l1'', ''w'', ''chroma_offset_l1'', 32), (U64, ''decode_flags'', ''flags'', ''flags'', 1)]"

lemma COPY_LAYOUT_names: "map (\<lambda>(k, n, _, _, c). (k, n, wire_count k c)) COPY_LAYOUT = LAYOUT"
  by code_simp

definition source_of :: "json \<Rightarrow> string \<Rightarrow> json py" where
  "source_of controls base =
     (if base = ''sps'' then sub controls ''SPS'' else if base = ''pps'' then sub controls ''PPS''
      else if base = ''sc'' then sub controls ''SCALING_MATRIX'' else if base = ''sl'' then sub controls ''SLICE_PARAMS''
      else if base = ''w'' then rbind (sub controls ''SLICE_PARAMS'') (\<lambda>sl. sub sl ''v4l2_hevc_pred_weight_table'')
      else Inl (KeyError base))"

definition ends_flags :: "string \<Rightarrow> bool" where
  "ends_flags name \<longleftrightarrow> drop (length name - 6) name = ''_flags''"

definition flag_sum :: "(string, int) dict \<Rightarrow> json \<Rightarrow> json py" where
  "flag_sum flags v = (case v of
     JList xs \<Rightarrow>
       rbind (require_and
         [rbind (py_set v) (\<lambda>ys. Inr (length xs = length ys)),
          rbind (rmap (\<lambda>x. rbind (py_hash x) (\<lambda>_. Inr (case x of JStr s \<Rightarrow> dhas flags s | _ \<Rightarrow> False))) xs) (\<lambda>bs.
            Inr (list_all id bs))] ''unmapped flags'') (\<lambda>_.
       Inr (JInt (sum_list (map (\<lambda>x. case x of JStr s \<Rightarrow> the (dget flags s) | _ \<Rightarrow> 0) xs))))
   | _ \<Rightarrow> Inl (Reject ''unmapped flags''))"

definition byte_values :: "string \<Rightarrow> nat \<Rightarrow> json \<Rightarrow> json py" where
  "byte_values base cnt v = (case v of
     JList xs \<Rightarrow>
       rbind (require (length xs = cnt) ''array extent'') (\<lambda>_.
       rbind (require (list_all (\<lambda>x. case x of JInt i \<Rightarrow> (if base = ''w'' then -128 \<le> i \<and> i \<le> 127 else 0 \<le> i \<and> i \<le> 255)
                                              | _ \<Rightarrow> False) xs) ''array domain'') (\<lambda>_.
       Inr (JList (map (\<lambda>x. case x of JInt i \<Rightarrow> JInt (i AND 255) | _ \<Rightarrow> x) xs))))
   | _ \<Rightarrow> Inl (Reject ''array extent''))"

definition copied_field ::
  "(string, int) dict \<Rightarrow> json \<Rightarrow> wire_kind \<times> string \<times> string \<times> string \<times> nat \<Rightarrow> (string \<times> json) py" where
  "copied_field flags controls = (\<lambda>(kind, name, base, member, cnt).
     rbind (if base = ''flags'' then rbind (sub controls ''DECODE_PARAMS'') (\<lambda>dp. sub dp ''flags'')
            else rbind (source_of controls base) (\<lambda>src. sub src member)) (\<lambda>v.
     rbind (if ends_flags name then flag_sum flags v
            else if kind = BYTES then byte_values base cnt v else Inr v) (\<lambda>r.
     Inr (name, r))))"

definition copied_fields :: "(string, int) dict \<Rightarrow> json \<Rightarrow> (string, json) dict py" where
  "copied_fields flags row =
     rbind (sub row ''controls'') (\<lambda>controls.
     rbind (rall (\<lambda>base. rbind (source_of controls base) (\<lambda>_. Inr ())) [''sl'', ''sps'', ''pps'', ''sc'', ''w'']) (\<lambda>_.
     rbind (rmap (copied_field flags controls) COPY_LAYOUT) (\<lambda>result.
     rbind (validate_controls result) (\<lambda>_.
     rbind (pack_controls result) (\<lambda>_.
     Inr result)))))"

record difference =
  df_picture :: int
  df_poc :: int
  df_field :: string
  df_ioctl :: json
  df_kernel :: json

definition compare_history :: "cmd_hist \<times> json \<Rightarrow> unit py" where
  "compare_history = (\<lambda>(h, row).
     rbind (sub row ''picture'') (\<lambda>pic. rbind (sub row ''poc'') (\<lambda>poc. rbind (sub row ''target'') (\<lambda>target.
     rbind (rbind (sub row ''controls'') (\<lambda>c. rbind (sub c ''SLICE_PARAMS'') (\<lambda>sl. sub sl ''slice_type''))) (\<lambda>typ.
     require (py_eq (JInt (ch_picture h)) pic \<and> py_eq (JInt (ch_poc h)) poc \<and> py_eq (JInt (ch_target h)) target \<and>
       py_eq (JInt (ch_type h)) typ) ''ioctl/kernel full history mismatch'')))))"

definition compare_window :: "(string, int) dict \<Rightarrow> json list \<Rightarrow> cmd_window \<Rightarrow> difference list py" where
  "compare_window flags rows w =
     rbind (py_at (JList rows) (JInt (cw_picture w - 1))) (\<lambda>row.
     rbind (copied_fields flags row) (\<lambda>expected.
     rbind (unpack_controls (cw_controls w)) (\<lambda>actual.
     rbind (rmap (\<lambda>(name, v). rbind (dsub actual name) (\<lambda>a. Inr (name, v, a))) expected) (\<lambda>triples.
     Inr (map (\<lambda>(name, v, a). \<lparr>df_picture = cw_picture w, df_poc = cw_poc w, df_field = name, df_ioctl = v, df_kernel = a\<rparr>)
       (filter (\<lambda>(name, v, a). \<not> py_eq a v) triples))))))"

definition compare_capture :: "cmd_capture \<Rightarrow> json list \<Rightarrow> (string, int) dict \<Rightarrow> difference list py" where
  "compare_capture cap rows flags =
     rbind (require_and
       [Inr (length rows = 300),
        rbind (rmap (\<lambda>r. sub r ''picture'') rows) (\<lambda>ps. Inr (list_all2 py_eq ps (map JInt [1..300])))] ''ioctl picture extent'') (\<lambda>_.
     rbind (rmap (\<lambda>r. sub r ''run'') rows) (\<lambda>runs.
     rbind (rall py_hash runs) (\<lambda>_.
     rbind (require (length (py_dedup runs []) = 1) ''mixed ioctl runs'') (\<lambda>_.
     rbind (rall compare_history (zip (cc_pictures cap) rows)) (\<lambda>_.
     rbind (rmap (compare_window flags rows) (cc_windows cap)) (\<lambda>dss.
     Inr (concat dss)))))))"

subsection \<open>No difference means the same bytes\<close>

lemma py_eq_ints: "py_eq (JList (map JInt xs)) (JList (map JInt ys)) \<longleftrightarrow> xs = ys"
  unfolding py_eq_def canon.simps json.inject map_map
  by (rule inj_map_eq_map) (simp add: inj_def)

lemma field_value_eq:
  assumes "py_eq (field_value k bs) (field_value k bs')" shows "field_value k bs = field_value k bs'"
proof (cases "k = BYTES")
  case True
  have "map uint bs = map uint bs'"
    using assms True py_eq_ints [of "map uint bs" "map uint bs'"] by (simp add: field_value_def comp_def)
  then have "map (JInt \<circ> uint) bs = map (JInt \<circ> uint) bs'" by (simp flip: map_map)
  then show ?thesis using True by (simp add: field_value_def comp_def)
qed (use assms in \<open>simp add: field_value_def\<close>)

lemma layout_sized: "(kind, name, cnt) \<in> set LAYOUT \<Longrightarrow> kind \<noteq> BYTES \<longrightarrow> 0 < cnt"
  using LAYOUT_facts(2) by (auto simp: scalars_sized_def list_all_iff)

lemma same_fields:
  assumes "pack_controls c = Inr bs" and "unpack_controls buf = Inr a"
    and eq: "\<And>n v. dget c n = Some v \<Longrightarrow> \<exists>x. dget a n = Some x \<and> py_eq x v"
  shows "bs = buf"
proof -
  obtain xss where xss: "rmap (pack_field c) LAYOUT = Inr xss" "bs = concat xss @ replicate (CMD_CONTROL - CMD_PACKED) 0"
    using assms(1) unfolding pack_controls_def by (auto elim!: rbind_InrE)
  obtain yss where yss: "rmap (pack_field a) LAYOUT = Inr yss" "buf = concat yss @ replicate (CMD_CONTROL - CMD_PACKED) 0"
    using pack_unpack_controls [OF assms(2)] unfolding pack_controls_def by (auto elim!: rbind_InrE)
  have "b = b'" if f: "f \<in> set LAYOUT" and b: "pack_field c f = Inr b" and b': "pack_field a f = Inr b'" for f b b'
  proof -
    obtain kind name cnt where k: "f = (kind, name, cnt)" by (cases f)
    note s = layout_sized [OF f [unfolded k]]
    have c: "length b = cnt" "dget c name = Some (field_value kind b)" using pack_field_Inr [OF b [unfolded k] s] by auto
    have a: "length b' = cnt" "dget a name = Some (field_value kind b')" using pack_field_Inr [OF b' [unfolded k] s] by auto
    have "field_value kind b' = field_value kind b" using eq [OF c(2)] a(2) by (auto intro: field_value_eq)
    then have "pack_field c (kind, name, cnt) = Inr b'" using pack_field_value [OF _ a(1) s] c(2) by simp
    then show ?thesis using b k by simp
  qed
  then have "xss = yss" by (rule rmap_same [OF xss(1) yss(1)])
  then show ?thesis using xss yss by simp
qed

lemma copied_fields_Inr:
  assumes "copied_fields flags row = Inr c"
  shows "dict_ok c \<and> (\<exists>bs. pack_controls c = Inr bs)"
proof -
  obtain controls bs where c: "rmap (copied_field flags controls) COPY_LAYOUT = Inr c" and bs: "pack_controls c = Inr bs"
    using assms unfolding copied_fields_def by (auto elim!: rbind_InrE)
  have "map fst c = map (\<lambda>(k, n, _). n) COPY_LAYOUT"
    using c unfolding rmap_Inr_list_all2
    by (rule list_all2_induct) (auto simp: copied_field_def rbind_Inr)
  moreover have "distinct (map (\<lambda>(k, n, _). n) COPY_LAYOUT)"
  proof -
    have "map (\<lambda>(k, n, _). n) COPY_LAYOUT = map (fst \<circ> snd) LAYOUT"
      unfolding COPY_LAYOUT_names [symmetric] by (simp add: case_prod_beta')
    then show ?thesis using LAYOUT_facts(1) by simp
  qed
  ultimately show ?thesis using bs by (simp add: dict_ok_def)
qed

lemma compare_window_clean:
  assumes "compare_window flags rows w = Inr ds"
  shows "ds = [] \<longleftrightarrow> (\<exists>row c. py_at (JList rows) (JInt (cw_picture w - 1)) = Inr row \<and> copied_fields flags row = Inr c \<and>
    pack_controls c = Inr (cw_controls w))"
proof -
  obtain row c a ts where row: "py_at (JList rows) (JInt (cw_picture w - 1)) = Inr row" and c: "copied_fields flags row = Inr c"
    and a: "unpack_controls (cw_controls w) = Inr a"
    and ts: "rmap (\<lambda>(name, v). rbind (dsub a name) (\<lambda>x. Inr (name, v, x))) c = Inr ts"
    and ds: "ds = map (\<lambda>(name, v, a). \<lparr>df_picture = cw_picture w, df_poc = cw_poc w, df_field = name, df_ioctl = v, df_kernel = a\<rparr>)
       (filter (\<lambda>(name, v, a). \<not> py_eq a v) ts)"
    using assms unfolding compare_window_def by (elim rbind_InrE) simp
  obtain bs where ok: "dict_ok c" and bs: "pack_controls c = Inr bs" using copied_fields_Inr [OF c] by blast
  have "list_all2 (\<lambda>(name, v) t. \<exists>x. dget a name = Some x \<and> t = (name, v, x)) c ts"
    using ts unfolding rmap_Inr_list_all2 by (rule list_all2_mono) (auto simp: rbind_Inr dsub_Inr)
  then have "ds = [] \<longleftrightarrow> (\<forall>(n, v) \<in> set c. \<exists>x. dget a n = Some x \<and> py_eq x v)"
    unfolding ds by (induction c ts rule: list_all2_induct) (auto split: if_splits)
  also have "\<dots> \<longleftrightarrow> (\<forall>n v. dget c n = Some v \<longrightarrow> (\<exists>x. dget a n = Some x \<and> py_eq x v))"
    using ok by (auto simp: dict_ok_def)
  also have "\<dots> \<longleftrightarrow> bs = cw_controls w"
  proof
    assume "\<forall>n v. dget c n = Some v \<longrightarrow> (\<exists>x. dget a n = Some x \<and> py_eq x v)"
    then show "bs = cw_controls w" using same_fields [OF bs a] by blast
  next
    assume "bs = cw_controls w"
    then have "\<forall>k. dget a k = dget c k" using unpack_pack_controls [OF bs] a by auto
    then show "\<forall>n v. dget c n = Some v \<longrightarrow> (\<exists>x. dget a n = Some x \<and> py_eq x v)" by auto
  qed
  finally show ?thesis using row c bs by auto
qed

text \<open>
  C35. The comparison decides equality of bytes. When it runs to its end, it reports no difference
  exactly when in every window of the kernel snapshot the 1392 control bytes are the packed form of the
  fields that the ioctl of that picture returned.
\<close>
theorem clean_comparison_iff:
  assumes "compare_capture cap rows flags = Inr ds"
  shows "ds = [] \<longleftrightarrow> (\<forall>w \<in> set (cc_windows cap). \<exists>row c. py_at (JList rows) (JInt (cw_picture w - 1)) = Inr row \<and>
    copied_fields flags row = Inr c \<and> pack_controls c = Inr (cw_controls w))"
proof -
  obtain dss where dss: "rmap (compare_window flags rows) (cc_windows cap) = Inr dss" and ds: "ds = concat dss"
    using assms unfolding compare_capture_def by (auto elim!: rbind_InrE)
  have "list_all2 (\<lambda>w d. d = [] \<longleftrightarrow> (\<exists>row c. py_at (JList rows) (JInt (cw_picture w - 1)) = Inr row \<and>
      copied_fields flags row = Inr c \<and> pack_controls c = Inr (cw_controls w))) (cc_windows cap) dss"
    using dss unfolding rmap_Inr_list_all2 by (rule list_all2_mono) (rule compare_window_clean)
  then show ?thesis unfolding ds by (induction rule: list_all2_induct) auto
qed

subsection \<open>A clean window\<close>

definition demo_scalar :: "string \<Rightarrow> int" where
  "demo_scalar n = (if n = ''chroma_format_idc'' then 1
     else if n = ''pic_width_in_luma_samples'' \<or> n = ''pic_height_in_luma_samples'' \<or> n = ''bit_size'' then 16
     else if n = ''slice_type'' then 2 else 0)"

definition demo_value :: "wire_kind \<times> string \<times> string \<times> string \<times> nat \<Rightarrow> json" where
  "demo_value = (\<lambda>(k, n, _, _, c). if ends_flags n then JList [] else if k = BYTES then JList (replicate c (JInt 0))
     else JInt (demo_scalar n))"

definition demo_source :: "string \<Rightarrow> (string, json) dict" where
  "demo_source base = map (\<lambda>f. (fst (snd (snd (snd f))), demo_value f)) (filter (\<lambda>f. fst (snd (snd f)) = base) COPY_LAYOUT)"

definition demo_copied :: json where
  "demo_copied = JObj [(''SPS'', JObj (demo_source ''sps'')), (''PPS'', JObj (demo_source ''pps'')),
     (''SCALING_MATRIX'', JObj (demo_source ''sc'')), (''DECODE_PARAMS'', JObj (demo_source ''flags'')),
     (''SLICE_PARAMS'', JObj (demo_source ''sl'' @ [(''v4l2_hevc_pred_weight_table'', JObj (demo_source ''w''))]))]"

definition demo_copy_row :: "int \<Rightarrow> json" where
  "demo_copy_row i = JObj [(''picture'', JInt i), (''run'', JStr ''r''), (''controls'', demo_copied)]"

lemma copy_bases:
  assumes "(k, n, b, m, c) \<in> set COPY_LAYOUT"
  shows "b \<in> {''sps'', ''pps'', ''sc'', ''sl'', ''w'', ''flags''}" "b = ''flags'' \<Longrightarrow> m = ''flags''" "ends_flags n \<Longrightarrow> k = U64"
    "0 < c"
proof -
  have "list_all (\<lambda>(k, n, b, m, c). b \<in> {''sps'', ''pps'', ''sc'', ''sl'', ''w'', ''flags''} \<and> (b = ''flags'' \<longrightarrow> m = ''flags'') \<and>
    (ends_flags n \<longrightarrow> k = U64) \<and> 0 < c) COPY_LAYOUT" by code_simp
  with assms show "b \<in> {''sps'', ''pps'', ''sc'', ''sl'', ''w'', ''flags''}" "b = ''flags'' \<Longrightarrow> m = ''flags''" "ends_flags n \<Longrightarrow> k = U64"
    "0 < c" by (auto simp: list_all_iff)
qed

lemma demo_source_get:
  assumes "(k, n, b, m, c) \<in> set COPY_LAYOUT"
  shows "dget (demo_source b) m = Some (demo_value (k, n, b, m, c))"
proof -
  have "list_all (\<lambda>b. distinct (map (\<lambda>f. fst (snd (snd (snd f)))) (filter (\<lambda>f. fst (snd (snd f)) = b) COPY_LAYOUT)))
    [''sps'', ''pps'', ''sc'', ''sl'', ''w'', ''flags'']" by code_simp
  then have "distinct (map (\<lambda>f. fst (snd (snd (snd f)))) (filter (\<lambda>f. fst (snd (snd f)) = b) COPY_LAYOUT))"
    using copy_bases(1) [OF assms] by auto
  then have "distinct (map fst (demo_source b))" by (simp add: demo_source_def comp_def)
  moreover have "(m, demo_value (k, n, b, m, c)) \<in> set (demo_source b)" using assms by (force simp: demo_source_def)
  ultimately show ?thesis by (rule map_of_is_SomeI)
qed

definition copy_result :: "wire_kind \<times> string \<times> string \<times> string \<times> nat \<Rightarrow> string \<times> json" where
  "copy_result = (\<lambda>(k, n, _, _, c). (n, if k = BYTES then JList (replicate c (JInt 0)) else JInt (demo_scalar n)))"

lemma demo_scalar_flags: "ends_flags n \<Longrightarrow> demo_scalar n = 0"
proof -
  have "list_all (\<lambda>n. \<not> ends_flags n) [''chroma_format_idc'', ''pic_width_in_luma_samples'', ''pic_height_in_luma_samples'',
    ''bit_size'', ''slice_type'']" by code_simp
  then show "ends_flags n \<Longrightarrow> demo_scalar n = 0" by (auto simp: demo_scalar_def)
qed

lemma demo_sources:
  "source_of demo_copied ''sps'' = Inr (JObj (demo_source ''sps''))" "source_of demo_copied ''pps'' = Inr (JObj (demo_source ''pps''))"
  "source_of demo_copied ''sc'' = Inr (JObj (demo_source ''sc''))"
  "source_of demo_copied ''sl'' = Inr (JObj (demo_source ''sl'' @ [(''v4l2_hevc_pred_weight_table'', JObj (demo_source ''w''))]))"
  "sub demo_copied ''DECODE_PARAMS'' = Inr (JObj (demo_source ''flags''))"
  by (simp_all add: source_of_def demo_copied_def sub_def)

lemma demo_source_w: "source_of demo_copied ''w'' = Inr (JObj (demo_source ''w''))"
proof -
  have "''v4l2_hevc_pred_weight_table'' \<notin> set (map fst (demo_source ''sl''))"
  proof -
    have "list_all (\<lambda>f. fst (snd (snd (snd f))) \<noteq> ''v4l2_hevc_pred_weight_table'') COPY_LAYOUT" by code_simp
    then show ?thesis by (auto simp: demo_source_def list_all_iff)
  qed
  then have none: "dget (demo_source ''sl'') ''v4l2_hevc_pred_weight_table'' = None" by (simp add: map_of_eq_None_iff)
  have "source_of demo_copied ''w'' = rbind (source_of demo_copied ''sl'') (\<lambda>sl. sub sl ''v4l2_hevc_pred_weight_table'')"
    by (simp add: source_of_def)
  then show ?thesis using none by (simp add: demo_sources(4) sub_def map_add_def)
qed

lemma demo_copied_field:
  assumes "f \<in> set COPY_LAYOUT" shows "copied_field [] demo_copied f = Inr (copy_result f)"
proof -
  obtain k n b m c where f: "f = (k, n, b, m, c)" by (cases f)
  note fs = assms [unfolded f]
  note get = demo_source_get [OF fs]
  have "(if b = ''flags'' then rbind (sub demo_copied ''DECODE_PARAMS'') (\<lambda>dp. sub dp ''flags'')
            else rbind (source_of demo_copied b) (\<lambda>src. sub src m)) = Inr (demo_value f)"
  proof (cases "b = ''flags''")
    case True
    have "sub (JObj (demo_source ''flags'')) ''flags'' = Inr (demo_value f)"
      using get copy_bases(2) [OF fs] True by (simp add: sub_def f)
    then show ?thesis unfolding if_P [OF True] demo_sources(5) rbind_simps .
  next
    case False
    obtain src where src: "source_of demo_copied b = Inr (JObj src)" "dget src m = Some (demo_value f)"
    proof (cases "b = ''sl''")
      case True
      then show ?thesis using that [OF demo_sources(4) [folded True]] get by (simp add: f map_add_def)
    next
      case False
      then have "source_of demo_copied b = Inr (JObj (demo_source b))"
        using copy_bases(1) [OF fs] \<open>b \<noteq> ''flags''\<close> demo_sources demo_source_w by blast
      then show ?thesis using that get f by blast
    qed
    then show ?thesis using False by (simp add: sub_def)
  qed
  moreover have "(if ends_flags n then flag_sum [] (demo_value f) else if k = BYTES then byte_values b c (demo_value f)
      else Inr (demo_value f)) = Inr (snd (copy_result f))"
    using copy_bases(3) [OF fs] demo_scalar_flags
    by (auto simp: demo_value_def copy_result_def f flag_sum_def byte_values_def require_and_def py_set_def py_iter_def list_all_iff)
  moreover have "(n, snd (copy_result f)) = copy_result f" by (simp add: copy_result_def f)
  ultimately show ?thesis unfolding copied_field_def f prod.case by (simp only: rbind_simps)
qed

lemma copy_result_eq: "copy_result f = (fst (snd f), if fst f = BYTES then JList (replicate (snd (snd (snd (snd f)))) (JInt 0))
    else JInt (demo_scalar (fst (snd f))))"
  by (cases f) (simp add: copy_result_def)

lemma copy_result_get: "dget (map copy_result COPY_LAYOUT) n =
    map_option (\<lambda>f. snd (copy_result f)) (find (\<lambda>f. fst (snd f) = n) COPY_LAYOUT)"
  unfolding copy_result_eq snd_conv by (rule dget_map_find)

lemma demo_scalar_other:
  assumes "find (\<lambda>f. fst (snd f) = n) COPY_LAYOUT = None" shows "demo_scalar n = 0"
proof (rule ccontr)
  assume "demo_scalar n \<noteq> 0"
  then have n: "n \<in> set [''chroma_format_idc'', ''pic_width_in_luma_samples'', ''pic_height_in_luma_samples'', ''bit_size'', ''slice_type'']"
    unfolding demo_scalar_def by (auto split: if_splits)
  have "list_all (\<lambda>n. list_ex (\<lambda>f. fst (snd f) = n) COPY_LAYOUT) [''chroma_format_idc'', ''pic_width_in_luma_samples'',
    ''pic_height_in_luma_samples'', ''bit_size'', ''slice_type'']" by code_simp
  then have "list_ex (\<lambda>f. fst (snd f) = n) COPY_LAYOUT" using n unfolding list_all_iff by blast
  then show False using assms unfolding find_None_iff list_ex_iff by blast
qed

lemma demo_scalar_bytes: "f \<in> set COPY_LAYOUT \<Longrightarrow> fst f = BYTES \<Longrightarrow> demo_scalar (fst (snd f)) = 0"
proof -
  have "list_all (\<lambda>f. fst f = BYTES \<longrightarrow> demo_scalar (fst (snd f)) = 0) COPY_LAYOUT" by code_simp
  then show "f \<in> set COPY_LAYOUT \<Longrightarrow> fst f = BYTES \<Longrightarrow> demo_scalar (fst (snd f)) = 0"
    unfolding list_all_iff by blast
qed

lemma demo_jint: "jint (map copy_result COPY_LAYOUT) n = demo_scalar n"
proof (cases "find (\<lambda>f. fst (snd f) = n) COPY_LAYOUT")
  case None
  then show ?thesis by (simp add: jint_def jv_def copy_result_get demo_scalar_other)
next
  case (Some f)
  then have "f \<in> set COPY_LAYOUT" "fst (snd f) = n" using find_SomeD [OF Some] by simp_all
  then show ?thesis using Some demo_scalar_bytes [of f]
    by (cases "fst f = BYTES") (simp_all add: jint_def jv_def copy_result_get copy_result_eq)
qed

lemma copy_validated: "validate_controls (map copy_result COPY_LAYOUT) = Inr ()"
  unfolding validate_controls_def known_flags_def Let_def by (simp add: demo_jint demo_scalar_def)

lemma demo_packed: "\<exists>bs. pack_controls (map copy_result COPY_LAYOUT) = Inr bs"
proof -
  have names: "set (map fst (map copy_result COPY_LAYOUT)) = set (map (fst \<circ> snd) LAYOUT)"
    unfolding COPY_LAYOUT_names [symmetric] by (force simp: copy_result_def)
  have "\<exists>y. pack_field (map copy_result COPY_LAYOUT) f = Inr y" if f: "f \<in> set LAYOUT" for f
  proof -
    obtain kind n cnt where k: "f = (kind, n, cnt)" by (cases f)
    have "f \<in> set (map (\<lambda>(k, n, _, _, c). (k, n, wire_count k c)) COPY_LAYOUT)" using f unfolding COPY_LAYOUT_names .
    then obtain b m c where l: "(kind, n, b, m, c) \<in> set COPY_LAYOUT" "cnt = wire_count kind c" unfolding k by auto
    have "distinct (map fst (map copy_result COPY_LAYOUT))"
      using LAYOUT_facts(1) unfolding COPY_LAYOUT_names [symmetric]
      by (simp add: comp_def copy_result_def case_prod_beta')
    moreover have "copy_result (kind, n, b, m, c) \<in> set (map copy_result COPY_LAYOUT)" using l(1) by simp
    ultimately have g: "dget (map copy_result COPY_LAYOUT) n =
        Some (if kind = BYTES then JList (replicate c (JInt 0)) else JInt (demo_scalar n))"
      by (intro map_of_is_SomeI) (simp_all add: copy_result_def)
    have "0 \<le> demo_scalar n" "demo_scalar n < 128" by (simp_all add: demo_scalar_def)
    then have "kind \<noteq> BYTES \<Longrightarrow> to_bytes (signed_kind kind) cnt (demo_scalar n) \<noteq> None"
      unfolding l(2) by (cases kind) (auto simp: to_bytes_def wire_count_def signed_kind_def)
    then show ?thesis using g l(2) unfolding k pack_field_def
      by (auto simp: dsub_def byte_item_def wire_count_def list_all_iff)
  qed
  then obtain bss where "rmap (pack_field (map copy_result COPY_LAYOUT)) LAYOUT = Inr bss" using rmap_returns by blast
  then show ?thesis using names by (simp add: pack_controls_def)
qed

lemma demo_copy_ok: "copied_fields [] (demo_copy_row i) = Inr (map copy_result COPY_LAYOUT)"
proof -
  have "rmap (copied_field [] demo_copied) COPY_LAYOUT = Inr (map copy_result COPY_LAYOUT)"
    unfolding rmap_Inr_list_all2 list_all2_conv_all_nth by (auto intro: demo_copied_field)
  then show ?thesis using copy_validated demo_packed
    by (auto simp: copied_fields_def demo_copy_row_def sub_def demo_sources demo_source_w)
qed

lemma py_dedup_same: "py_dedup (map (\<lambda>_. JStr s) xs) [JStr s] = [JStr s]"
  by (induction xs) simp_all

theorem clean_comparison_iff_witness:
  "\<exists>cap ds w c. compare_capture cap (map demo_copy_row [1..300]) [] = Inr ds \<and> ds = [] \<and> cc_windows cap = [w] \<and>
     copied_fields [] (demo_copy_row 24) = Inr c \<and> pack_controls c = Inr (cw_controls w)"
proof -
  let ?rows = "map demo_copy_row [1..300]"
  obtain c where c: "copied_fields [] (demo_copy_row 24) = Inr c" using demo_copy_ok by blast
  obtain bs where bs: "pack_controls c = Inr bs" using copied_fields_Inr [OF c] by blast
  obtain a where a: "unpack_controls bs = Inr a" "\<And>k. dget a k = dget c k" using unpack_pack_controls [OF bs] by blast
  define w where "w = \<lparr>cw_picture = 24, cw_poc = 0, cw_type = 2, cw_nwords = 0, cw_nbytes = 1392, cw_inactive = 0, cw_sites = [],
    cw_words = [], cw_controls = bs, cw_decomp = 0, cw_revision = 3, cw_quirks = 0, cw_bytesperline = 1\<rparr>"
  define cap where "cap = \<lparr>cc_run = 1, cc_context = 1, cc_pictures = [], cc_windows = [w]\<rparr>"
  have "\<exists>ts. rmap (\<lambda>(name, v). rbind (dsub a name) (\<lambda>x. Inr (name, v, x))) c = Inr ts"
  proof (rule rmap_returns)
    fix x assume "x \<in> set c"
    then have "dget c (fst x) \<noteq> None" by (simp add: map_of_eq_None_iff)
    then show "\<exists>y. (case x of (name, v) \<Rightarrow> rbind (dsub a name) (\<lambda>x. Inr (name, v, x))) = Inr y"
      using a(2) by (cases x) (auto simp: dsub_def)
  qed
  moreover have row: "py_at (JList ?rows) (JInt (cw_picture w - 1)) = Inr (demo_copy_row 24)"
    by (simp add: w_def py_at_def list_index_def index_of_def)
  ultimately obtain d where d: "compare_window [] ?rows w = Inr d"
    unfolding compare_window_def using c a(1) by (auto simp: w_def)
  have pics: "rmap (\<lambda>r. sub r ''picture'') ?rows = Inr (map JInt [1..300])"
    using rmap_map_Inr [of "\<lambda>i. sub (demo_copy_row i) ''picture''" JInt "[1..300]"]
    by (simp add: rmap_Inr_list_all2 list_all2_conv_all_nth demo_copy_row_def sub_def)
  have runs: "rmap (\<lambda>r. sub r ''run'') ?rows = Inr (map (\<lambda>_. JStr ''r'') [1..300])"
    by (simp add: rmap_Inr_list_all2 list_all2_conv_all_nth demo_copy_row_def sub_def)
  have "[1..300] = 1 # [2..300]" by (simp add: upto_rec1)
  then have "py_dedup (map (\<lambda>_. JStr ''r'') [1..300]) [] = [JStr ''r'']" by (simp add: py_dedup_same)
  moreover have "list_all2 py_eq (map JInt [1..300]) (map JInt [1..300])" by (simp add: list_all2_conv_all_nth)
  moreover have "rall py_hash (map (\<lambda>_. JStr ''r'') [1..300]) = Inr ()" by (simp add: rall_Inr py_hash_def)
  ultimately have run: "compare_capture cap ?rows [] = Inr (concat [d])"
    unfolding compare_capture_def pics runs cap_def using d by (simp add: require_and_def)
  have "concat [d] = []" unfolding clean_comparison_iff [OF run] using row c bs by (simp add: cap_def w_def)
  then show ?thesis using run c bs by (intro exI [of _ cap] exI [of _ "concat [d]"] exI [of _ w] exI [of _ c]) (simp add: cap_def w_def)
qed

end
