(* ===== verification/Same_Run_Validator.thy ===== *)
theory Same_Run_Validator
  imports Execution_Record Full_Adapter Command_Compare
begin

text \<open>
  The validator of one supervised run, \<open>hevc-reference-content/same-run/validator.py\<close>: it reads the four
  files the run left, checks the execution record (theory \<open>Execution_Record\<close>), and puts the trace through
  the adapter, the checkers and the comparison that the other theories model; what remains is the
  evidence that the join uses.

  Parameters are \<^verbatim>\<open>json.loads\<close>, \<^verbatim>\<open>sha256\<close>, the flag values read from the kernel header, and the two
  calls of the oracle, which runs a compiled program. \<^verbatim>\<open>json.loads\<close> has two readers: the execution record
  (\<open>loads\<close>, a document or the exception, as in theory \<open>Same_Run_Join\<close>) and the ioctl trace, which is decoded
  with \<^verbatim>\<open>surrogateescape\<close> and whose reader turns every exception of the decoder into a rejection
  (\<open>loads_trace\<close>, \<open>None\<close> standing for any of them).
\<close>

subsection \<open>Reading a file\<close>

definition safe_read :: "nat \<Rightarrow> bool \<Rightarrow> file_run \<Rightarrow> string py" where
  "safe_read maximum private f =
     rbind (require (fr_nofollow f) ''O_NOFOLLOW is required'') (\<lambda>_.
     rbind (require (fr_open f) ''cannot open'') (\<lambda>_.
     rbind (case fr_stat f of None \<Rightarrow> Inl (Reject ''cannot read'') | Some s \<Rightarrow> Inr s) (\<lambda>status.
     rbind (require (is_regular status) ''is not a regular file'') (\<lambda>_.
     rbind (require ((st_uid status = fr_euid f \<or> \<not> private \<and> st_uid status = 0) \<and> st_nlink status = 1)
       ''ownership/link count is ambiguous'') (\<lambda>_.
     rbind (require (\<not> private \<or> st_mode status AND 63 = 0) ''is not private'') (\<lambda>_.
     rbind (require (private \<or> st_mode status AND 18 = 0) ''is publicly writable'') (\<lambda>_.
     rbind (require (0 < st_size status \<and> st_size status \<le> int maximum) ''has an invalid extent'') (\<lambda>_.
     rbind (read_loop maximum (1024 * 1024) (fr_reads f) []) (\<lambda>data.
     rbind (closed_stat f) (\<lambda>final_status.
     rbind (require (status = final_status) ''changed while being read'') (\<lambda>_.
     rbind (require (int (length data) = st_size status) ''changed extent while being read'') (\<lambda>_.
     Inr data))))))))))))"

subsection \<open>The raw evidence\<close>

definition ascii_text :: "string \<Rightarrow> string py" where
  "ascii_text raw = rbind (require (list_all (\<lambda>c. (of_char c :: nat) < 128) raw) ''not ASCII'') (\<lambda>_. Inr raw)"

text \<open>The parameters that stand for the oracle and for the kernel header.\<close>

record oracle_calls =
  or_flags :: "(string, int) dict py"
  or_identity :: "unit py"
  or_window :: "cmd_window \<Rightarrow> bool py"

definition command_checks :: "oracle_calls \<Rightarrow> cmd_capture \<Rightarrow> json list \<Rightarrow> unit py" where
  "command_checks orc command controls =
     rbind (or_flags orc) (\<lambda>flags.
     rbind (compare_capture command controls flags) (\<lambda>differences.
     rbind (require (differences = []) ''same-run returned controls differ from the kernel command snapshot'') (\<lambda>_.
     rbind (or_identity orc) (\<lambda>_.
     rbind (rmap (or_window orc) (cc_windows command)) (\<lambda>verified.
     require (list_all (\<lambda>ok. ok) verified) ''selected command words differ from the pinned C oracle'')))))"

definition raw_evidence ::
  "(string \<Rightarrow> json option) \<Rightarrow> (string \<Rightarrow> string) \<Rightarrow> oracle_calls \<Rightarrow> int \<Rightarrow> int \<Rightarrow> string \<Rightarrow> string \<Rightarrow> string \<Rightarrow>
     (ref_record list \<times> association list \<times> trace_result) py" where
  "raw_evidence loads_trace sha orc run ctx trace_raw command_raw reference_raw =
     rbind (parse_events (length trace_raw) (loads_trace trace_raw)) (\<lambda>events.
     let token = JStr (take 16 (sha trace_raw)) in
     rbind (full_normalize events (JInt 300) token) (\<lambda>(controls, refs, associations).
     let requests = map record_json refs in
     rbind (full_validate_controls controls requests token) (\<lambda>_.
     rbind (rbind (ascii_text command_raw) (\<lambda>body. parse_snapshot body (JInt run))) (\<lambda>command.
     rbind (rbind (ascii_text reference_raw) (\<lambda>body. read_capture body run)) (\<lambda>reference.
     rbind (map_records requests (JInt 300)) (\<lambda>expected.
     rbind (validate_trace reference (Some expected)) (\<lambda>result.
     rbind (require (tr_findings result = []) ''same-run reference validator reported findings'') (\<lambda>_.
     rbind (bind_history command reference) (\<lambda>_.
     rbind (require (cc_context command = cap_context reference \<and> cap_context reference = ctx)
       ''snapshots disagree with the supervisor's paired kernel context'') (\<lambda>_.
     rbind (command_checks orc command controls) (\<lambda>_.
     Inr (refs, associations, result))))))))))))"

text \<open>
  The handler around it: a \<^verbatim>\<open>ValueError\<close>, \<^verbatim>\<open>KeyError\<close>, \<^verbatim>\<open>TypeError\<close>, \<^verbatim>\<open>IndexError\<close> and so on becomes a
  \<^verbatim>\<open>JoinError\<close>, which is the rejection here; \<^verbatim>\<open>AttributeError\<close>, \<^verbatim>\<open>OverflowError\<close> and \<^verbatim>\<open>RecursionError\<close> are not
  among the classes it names.
\<close>

definition as_join_error :: "'a py \<Rightarrow> 'a py" where
  "as_join_error r = (case r of
     Inr x \<Rightarrow> Inr x
   | Inl (Reject m) \<Rightarrow> Inl (Reject m)
   | Inl AttributeError \<Rightarrow> Inl AttributeError
   | Inl OverflowError \<Rightarrow> Inl OverflowError
   | Inl RecursionError \<Rightarrow> Inl RecursionError
   | Inl _ \<Rightarrow> Inl (Reject ''raw same-run validation failed''))"

subsection \<open>The validator\<close>

record run_files =
  rf_execution :: file_run
  rf_trace :: file_run
  rf_command :: file_run
  rf_reference :: file_run
  rf_uapi :: file_run
  rf_identity :: file_run

definition normalized_dict :: "normalized_row \<Rightarrow> (string, json) dict" where
  "normalized_dict r = map (\<lambda>(k, v). (k, JInt v)) (nr_fields r) @
     concat (map (\<lambda>(key, w, cs). [(key @ ''_writer'', case w of None \<Rightarrow> JNull | Some p \<Rightarrow> JInt p),
       (key @ ''_writer_candidates'', JList (map JInt cs))]) (nr_writers r))"

definition validate_run ::
  "(string \<Rightarrow> json py) \<Rightarrow> (string \<Rightarrow> json option) \<Rightarrow> (string \<Rightarrow> string) \<Rightarrow> oracle_calls \<Rightarrow> run_files \<Rightarrow> kernel_evidence py" where
  "validate_run loads loads_trace sha orc files =
     rbind (safe_read (256 * 1024) True (rf_execution files)) (\<lambda>execution_raw.
     rbind (safe_read (128 * 1024 * 1024) True (rf_trace files)) (\<lambda>trace_raw.
     rbind (safe_read (512 * 1024) True (rf_command files)) (\<lambda>command_raw.
     rbind (safe_read (4 * 1024 * 1024) True (rf_reference files)) (\<lambda>reference_raw.
     rbind (json_document loads (256 * 1024) execution_raw) (\<lambda>execution.
     rbind (execution_record sha execution [(''command'', command_raw), (''reference'', reference_raw)]) (\<lambda>(run, ctx, child).
     rbind (as_join_error (raw_evidence loads_trace sha orc run ctx trace_raw command_raw reference_raw)) (\<lambda>(refs, associations, result).
     rbind (safe_read (2 * 1024 * 1024) False (rf_uapi files)) (\<lambda>uapi_raw.
     rbind (safe_read (1024 * 1024) False (rf_identity files)) (\<lambda>identity_raw.
     let evidence = \<lparr>ke_run = run, ke_context = ctx, ke_child_pid = child, ke_requests = map (dict_of \<circ> record_json) refs,
       ke_associations = associations, ke_reference_records = map normalized_dict (tr_records result),
       ke_hashes = [(''execution'', sha execution_raw), (''v4l2_trace'', sha trace_raw), (''command_snapshot'', sha command_raw),
         (''reference_snapshot'', sha reference_raw), (''uapi'', sha uapi_raw), (''oracle_identity'', sha identity_raw)]\<rparr> in
     rbind (evidence_check evidence) (\<lambda>_. Inr evidence))))))))))"

subsection \<open>How it fails\<close>

text \<open>\<open>lets_through P r\<close>: beside rejections, only exceptions with the property \<open>P\<close> leave \<open>r\<close>.\<close>

definition lets_through :: "(py_exn \<Rightarrow> bool) \<Rightarrow> 'a py \<Rightarrow> bool" where
  "lets_through P r \<longleftrightarrow> (\<forall>e. r = Inl e \<longrightarrow> (\<exists>m. e = Reject m) \<or> P e)"

named_theorems through_rules

lemma through_basic [through_rules]: "lets_through P (Inr x)" "lets_through P (Inl (Reject m))" "lets_through P (require c m)"
  by (auto simp: lets_through_def require_def need_Inl)

lemma through_bind [through_rules]:
  assumes "lets_through P r" and "\<And>x. r = Inr x \<Longrightarrow> lets_through P (f x)" shows "lets_through P (rbind r f)"
  using assms by (cases r) (auto simp: lets_through_def)

lemma through_mono: "lets_through P r \<Longrightarrow> (\<And>e. P e \<Longrightarrow> Q e) \<Longrightarrow> lets_through Q r"
  by (auto simp: lets_through_def)

lemma through_option [through_rules]:
  "lets_through P r \<Longrightarrow> (\<And>x. lets_through P (f x)) \<Longrightarrow> lets_through P (case o' of None \<Rightarrow> r | Some x \<Rightarrow> f x)"
  by (cases o') auto

lemma through_rall [through_rules]: "(\<And>x. x \<in> set xs \<Longrightarrow> lets_through P (f x)) \<Longrightarrow> lets_through P (rall f xs)"
  by (induction xs) (auto intro!: through_rules)

lemma through_rmap: "(\<And>x. x \<in> set xs \<Longrightarrow> lets_through P (f x)) \<Longrightarrow> lets_through P (rmap f xs)"
  by (induction xs) (auto intro!: through_rules)

lemma through_and [through_rules]:
  "lets_through P (require_and [] m)"
  "lets_through P x \<Longrightarrow> (x = Inr True \<Longrightarrow> lets_through P (require_and xs m)) \<Longrightarrow> lets_through P (require_and (x # xs) m)"
  by (cases x; auto simp: lets_through_def)+

lemma through_read_loop [through_rules]: "lets_through P (read_loop limit piece rs data)"
  by (induction limit piece rs data rule: read_loop.induct) (auto simp: Let_def lets_through_def split: option.splits)

lemma through_safe_read [through_rules]: "lets_through P (safe_read maximum private f)"
  unfolding safe_read_def closed_stat_def by (intro through_rules)

lemma through_int_in [through_rules]: "lets_through P (int_in m low high v)"
  by (cases v) (simp_all add: int_in_def lets_through_def)

lemma through_uint [through_rules]: "lets_through P (join_uint bits nonzero v)"
  unfolding join_uint_def by (intro through_rules)

lemma through_hex [through_rules]: "lets_through P (join_hex digits nonzero v)"
  unfolding join_hex_def by (cases v) (auto intro!: through_rules)

lemma through_evidence [through_rules]: "lets_through P (evidence_check ev)"
  unfolding evidence_check_def Let_def case_prod_beta by (intro through_rules)

lemma through_document: "lets_through (\<lambda>e. loads raw = Inl e) (json_document loads maximum raw)"
proof -
  have "lets_through (\<lambda>e. loads raw = Inl e) (load_unique loads raw)"
  proof (cases "loads raw")
    case (Inr v)
    then show ?thesis unfolding load_unique_def by (simp only: sum.case) (intro through_rules)
  qed (auto simp: load_unique_def lets_through_def split: py_exn.splits)
  then show ?thesis unfolding json_document_def canonical_bytes_def by (intro through_rules)
qed

lemma document_Inr: "json_document loads maximum raw = Inr v \<Longrightarrow> loads raw = Inr v"
  by (auto simp: json_document_def load_unique_def rbind_Inr split: sum.splits py_exn.splits)

text \<open>A value whose keys have been checked has them, and a checked number can be compared.\<close>

lemma through_at:
  assumes "has_keys v ks" and "k \<in> set ks"
  shows "lets_through P (sub v k)" "lets_through P (dict_get v k)" "lets_through P (eq_sub v k x)" "lets_through P (true_at v k)" "lets_through P (int_at v k)"
proof -
  obtain y where "sub v k = Inr y" using has_keys_sub [OF assms] by blast
  moreover from this have "dict_get v k = Inr y" by (rule dict_get_sub)
  ultimately show "lets_through P (sub v k)" "lets_through P (dict_get v k)" "lets_through P (eq_sub v k x)" "lets_through P (true_at v k)" "lets_through P (int_at v k)"
    by (simp_all add: eq_sub_def true_at_def int_at_def lets_through_def)
qed

lemma through_number:
  "is_number v \<Longrightarrow> lets_through P (py_number v)"
  "int_at row k = Inr True \<Longrightarrow> lets_through P (number_at row k)"
  by (auto simp: is_number_def py_number_def lets_through_def int_at_def number_at_def rbind_Inr is_int_iff split: json.splits)

text \<open>An event whose time is an integer that no float can hold.\<close>

definition huge_seconds :: "json \<Rightarrow> bool" where
  "huge_seconds e \<longleftrightarrow> (\<exists>d i. e = JObj d \<and> dget d ''seconds'' = Some (JInt i) \<and> 2 ^ 1024 - 2 ^ 970 \<le> \<bar>i\<bar>)"

lemma through_float:
  assumes "is_number v" "sub e ''seconds'' = Inr v"
  shows "lets_through (\<lambda>x. x = OverflowError \<and> huge_seconds e) (py_float v)"
proof (cases v)
  case (JInt i)
  then show ?thesis using assms(2) float_of_int_raises [of i] float_overflow [of i]
    unfolding lets_through_def huge_seconds_def sub_Inr py_float_def by auto
qed (use assms(1) in \<open>simp_all add: is_number_def py_float_def py_number_def lets_through_def\<close>)

lemma through_event: "lets_through (\<lambda>x. x = OverflowError \<and> huge_seconds e) (execution_event previous e)"
  unfolding execution_event_def
  by (intro through_rules through_number through_float through_at) (auto simp: res_simps split: if_splits)

lemma through_events: "lets_through (\<lambda>x. x = OverflowError \<and> list_ex huge_seconds es) (execution_events previous es)"
proof (induction es arbitrary: previous)
  case (Cons e es)
  have "lets_through (\<lambda>x. x = OverflowError \<and> list_ex huge_seconds (e # es)) (execution_event previous e)"
    using through_event by (rule through_mono) simp
  moreover have "lets_through (\<lambda>x. x = OverflowError \<and> list_ex huge_seconds (e # es)) (execution_events q es)" for q
    using Cons.IH by (rule through_mono) simp
  ultimately show ?case by (auto intro!: through_rules split: prod.splits)
qed (simp add: through_basic)

text \<open>The document whose events hold such a time.\<close>

definition huge_document :: "json \<Rightarrow> bool" where
  "huge_document v \<longleftrightarrow> (\<exists>d es. v = JObj d \<and> dget d ''events'' = Some (JList es) \<and> list_ex huge_seconds es)"

lemma huge_documentD:
  "huge_document v \<Longrightarrow> r = Inr v \<Longrightarrow> \<exists>d es x i. r = Inr (JObj d) \<and> dget d ''events'' = Some (JList es) \<and> JObj x \<in> set es \<and>
     dget x ''seconds'' = Some (JInt i) \<and> 2 ^ 1024 - 2 ^ 970 \<le> \<bar>i\<bar>"
  unfolding huge_document_def huge_seconds_def list_ex_iff by blast

lemma through_events_of:
  assumes "has_keys document EXECUTION_KEYS"
  shows "lets_through (\<lambda>x. x = OverflowError \<and> huge_document document) (execution_events_of document)"
proof -
  obtain v where v: "sub document ''events'' = Inr v"
    using has_keys_sub [OF assms, of "''events''"] by (auto simp: EXECUTION_KEYS_def)
  show ?thesis
  proof (cases v)
    case (JList es)
    have "lets_through (\<lambda>x. x = OverflowError \<and> huge_document document) (execution_events (- 1) es)"
      using through_events by (rule through_mono) (use v JList in \<open>auto simp: huge_document_def sub_Inr\<close>)
    then show ?thesis unfolding execution_events_of_def v JList
      by (auto simp: py_len_def py_iter_def intro!: through_rules)
  qed (simp_all add: execution_events_of_def v lets_through_def)
qed

lemma through_counts:
  assumes "has_keys row (STATUS_KEYS ''reference'')" shows "lets_through P (status_counts row)"
  unfolding status_counts_def by (intro through_rules through_number through_at [OF assms]) (simp_all add: STATUS_KEYS_def)

lemma through_numbers:
  assumes "has_keys row (STATUS_KEYS name)" and "int_at row ''context'' = Inr True"
  shows "lets_through P (status_numbers run row)"
proof -
  obtain f where f: "\<And>k. k \<in> set (STATUS_KEYS name) \<Longrightarrow> sub row k = Inr (f k)" using has_keys_sub [OF assms(1)] by metis
  have "lets_through P (eq_subs row ''pictures'' row ''completions'')" by (simp add: eq_subs_def f STATUS_KEYS_def lets_through_def)
  then show ?thesis unfolding status_numbers_def
    by (intro through_rules through_number(2) [OF assms(2)] through_at [OF assms(1)]) (simp_all add: STATUS_KEYS_def)
qed

lemma through_context:
  assumes "int_at row ''context'' = Inr True"
  shows "lets_through P (rbind (sub row ''context'') (\<lambda>c. case c of JInt i \<Rightarrow> Inr i | _ \<Rightarrow> Inl TypeError))"
  using assms by (auto simp: int_at_def rbind_Inr is_int_iff lets_through_def)

lemma checked_context:
  assumes "rall (\<lambda>k. rbind (dict_get row k) (\<lambda>v. require (is_int v) m)) ks = Inr u" and "''context'' \<in> set ks"
  shows "int_at row ''context'' = Inr True"
proof -
  have "rbind (dict_get row ''context'') (\<lambda>v. require (is_int v) m) = Inr ()" using assms by (auto simp: rall_Inr)
  then show ?thesis by (auto simp: rbind_Inr require_Inr dict_get_Inr int_at_def sub_def is_int_iff jv_def split: option.splits)
qed

lemma through_status [through_rules]: "lets_through P (execution_status run name row)"
proof (cases "has_keys row (STATUS_KEYS name)")
  case True
  have checks: "lets_through P (rall (\<lambda>k. rbind (dict_get row k) (\<lambda>v. require (is_int v) m))
      [''run'', ''context'', ''phase'', ''errors'', ''pictures'', ''completions'', ''opens''])" for m
    by (intro through_rules through_at(2) [OF True]) (auto simp: STATUS_KEYS_def)
  have counts: "lets_through P (if name = ''reference'' then status_counts row else Inr ())"
    using True through_counts through_basic(1) by auto
  show ?thesis unfolding execution_status_def
    by (rule through_bind [OF through_basic(3)], rule through_bind [OF checks], drule checked_context, simp,
        rule through_bind [OF counts], rule through_bind [OF through_numbers [OF True]], assumption, rule through_context)
qed (simp add: execution_status_def through_basic)

text \<open>Both snapshots are given, so that the lookup of a snapshot succeeds.\<close>

lemma through_recorder:
  assumes "has_keys status ks" "has_keys receipts ks" "name \<in> set ks" "dget snapshots name = Some raw"
  shows "lets_through P (execution_recorder sha run status receipts snapshots name)"
proof -
  have "lets_through P (dsub snapshots name)" using assms(4) by (simp add: dsub_def through_basic)
  moreover have "lets_through P (eq_sub receipt k x)" if "Inr (has_keys receipt [''bytes'', ''sha256'']) = (Inr True :: bool py)"
    "k \<in> {''bytes'', ''sha256''}" for receipt k x
    using that by (intro through_at(3) [where ks = "[''bytes'', ''sha256'']"]) auto
  ultimately show ?thesis unfolding execution_recorder_def
    by (intro through_rules through_at(1) [OF assms(1,3)] through_at(1) [OF assms(2,3)]) simp_all
qed

lemma through_execution:
  assumes "dget snapshots ''reference'' = Some raw" and "dget snapshots ''command'' = Some raw'"
  shows "lets_through (\<lambda>x. x = OverflowError \<and> huge_document document) (execution_record sha document snapshots)"
proof (cases "has_keys document EXECUTION_KEYS")
  case True
  note at = through_at [OF True]
  have rows: "lets_through P (rmap (execution_recorder sha run status receipts snapshots) [''reference'', ''command''])"
    if "has_keys status [''reference'', ''command'']" "has_keys receipts [''reference'', ''command'']" for P run status receipts
    using that assms by (intro through_rmap) (auto intro: through_recorder)
  show ?thesis unfolding execution_record_def
    by (intro through_rules at through_number through_events_of [OF True] rows) (auto simp: EXECUTION_KEYS_def require_Inr)
next
  case False
  then show ?thesis unfolding execution_record_def by (cases "is_obj document") (simp_all add: through_basic)
qed

lemma through_join_error:
  "lets_through (\<lambda>e. e \<in> {AttributeError, OverflowError, RecursionError} \<and> r = Inl e) (as_join_error r)"
  by (auto simp: lets_through_def as_join_error_def split: sum.splits py_exn.splits)

text \<open>
  C40. The validator fails closed. Whatever the files contain, and whatever the JSON decoder, the
  digest, the kernel header and the oracle answer, it returns evidence, or refuses with \<^verbatim>\<open>JoinError\<close>, or
  lets an exception through in one of three ways only: the decoder raised it on the execution record and it
  is none of the decoding errors (an integer of more than 4300 digits, a nesting too deep); or it is the
  \<^verbatim>\<open>OverflowError\<close> of an event of that record whose time is an integer too large for a float; or it is an
  \<^verbatim>\<open>AttributeError\<close>, \<^verbatim>\<open>OverflowError\<close> or \<^verbatim>\<open>RecursionError\<close> of a reader of the raw evidence of these very
  files, the classes that the handler there does not name. Beside these, no lookup error, type error or
  index error leaves it.
\<close>
theorem validate_run_fails_closed:
  "(\<exists>ev. validate_run loads loads_trace sha orc files = Inr ev) \<or>
   (\<exists>m. validate_run loads loads_trace sha orc files = Inl (Reject m)) \<or>
   (\<exists>e raw. validate_run loads loads_trace sha orc files = Inl e \<and> safe_read (256 * 1024) True (rf_execution files) = Inr raw \<and>
     (loads raw = Inl e \<or>
      e = OverflowError \<and> (\<exists>d es x i. loads raw = Inr (JObj d) \<and> dget d ''events'' = Some (JList es) \<and> JObj x \<in> set es \<and>
        dget x ''seconds'' = Some (JInt i) \<and> 2 ^ 1024 - 2 ^ 970 \<le> \<bar>i\<bar>) \<or>
      e \<in> {AttributeError, OverflowError, RecursionError} \<and> (\<exists>run ctx traced command reference.
        safe_read (128 * 1024 * 1024) True (rf_trace files) = Inr traced \<and> safe_read (512 * 1024) True (rf_command files) = Inr command \<and>
        safe_read (4 * 1024 * 1024) True (rf_reference files) = Inr reference \<and>
        raw_evidence loads_trace sha orc run ctx traced command reference = Inl e)))"
proof -
  let ?B = "\<lambda>raw e. loads raw = Inl e \<or>
      e = OverflowError \<and> (\<exists>d es x i. loads raw = Inr (JObj d) \<and> dget d ''events'' = Some (JList es) \<and> JObj x \<in> set es \<and>
        dget x ''seconds'' = Some (JInt i) \<and> 2 ^ 1024 - 2 ^ 970 \<le> \<bar>i\<bar>) \<or>
      e \<in> {AttributeError, OverflowError, RecursionError} \<and> (\<exists>run ctx traced command reference.
        safe_read (128 * 1024 * 1024) True (rf_trace files) = Inr traced \<and> safe_read (512 * 1024) True (rf_command files) = Inr command \<and>
        safe_read (4 * 1024 * 1024) True (rf_reference files) = Inr reference \<and>
        raw_evidence loads_trace sha orc run ctx traced command reference = Inl e)"
  let ?P = "\<lambda>e. \<exists>raw. safe_read (256 * 1024) True (rf_execution files) = Inr raw \<and> ?B raw e"
  have execution: "lets_through ?P (execution_record sha v snapshots)"
    if "safe_read (256 * 1024) True (rf_execution files) = Inr raw" "json_document loads maximum raw = Inr v"
      "dget snapshots ''reference'' = Some a" "dget snapshots ''command'' = Some b" for raw maximum v snapshots a b
    using through_execution [OF that(3,4)]
    by (rule through_mono) (intro exI [of _ raw] conjI that(1) disjI2 disjI1 huge_documentD [OF _ document_Inr [OF that(2)]]; simp)
  have evidence: "lets_through ?P (as_join_error (raw_evidence loads_trace sha orc run ctx traced command reference))"
    if "safe_read (256 * 1024) True (rf_execution files) = Inr raw" "safe_read (128 * 1024 * 1024) True (rf_trace files) = Inr traced"
      "safe_read (512 * 1024) True (rf_command files) = Inr command" "safe_read (4 * 1024 * 1024) True (rf_reference files) = Inr reference"
    for raw run ctx traced command reference
    using through_join_error by (rule through_mono) (use that in blast)
  have document: "lets_through ?P (json_document loads maximum raw)"
    if "safe_read (256 * 1024) True (rf_execution files) = Inr raw" for raw maximum
    using through_document by (rule through_mono) (use that in blast)
  have "lets_through ?P (validate_run loads loads_trace sha orc files)"
    unfolding validate_run_def Let_def case_prod_beta
    by (rule through_bind [OF through_safe_read], rule through_bind [OF through_safe_read], rule through_bind [OF through_safe_read],
        rule through_bind [OF through_safe_read], rule through_bind [OF document], assumption,
        rule through_bind [OF execution], assumption, assumption, simp, simp, rule through_bind [OF evidence], assumption, assumption,
        assumption, assumption, rule through_bind [OF through_safe_read], rule through_bind [OF through_safe_read],
        rule through_bind [OF through_evidence], rule through_basic(1))
  then have h: "(\<exists>m. e = Reject m) \<or> ?P e" if "validate_run loads loads_trace sha orc files = Inl e" for e
    using that unfolding lets_through_def by blast
  show ?thesis
  proof (cases "validate_run loads loads_trace sha orc files")
    case (Inl e)
    from h [OF Inl] show ?thesis
    proof
      assume "?P e" then obtain raw where "safe_read (256 * 1024) True (rf_execution files) = Inr raw \<and> ?B raw e" ..
      then have "validate_run loads loads_trace sha orc files = Inl e \<and> safe_read (256 * 1024) True (rf_execution files) = Inr raw \<and> ?B raw e"
        by (rule conjI [OF Inl])
      then show ?thesis by - (rule disjI2, rule disjI2, rule exI [of _ e], rule exI [of _ raw])
    next
      assume "\<exists>m. e = Reject m" then show ?thesis using Inl by - (rule disjI2, rule disjI1, simp)
    qed
  next
    case (Inr ev)
    then show ?thesis by - (rule disjI1, rule exI)
  qed
qed

subsection \<open>What it accepts\<close>

lemma as_join_error_Inr: "as_join_error r = Inr x \<longleftrightarrow> r = Inr x"
  by (auto simp: as_join_error_def split: sum.splits py_exn.splits)

lemma parse_snapshot_run: "parse_snapshot body (JInt run) = Inr command \<Longrightarrow> cc_run command = run"
  by (auto simp: parse_snapshot_def Let_def res_simps split: if_splits)

lemma validate_trace_identity:
  "validate_trace reference expected = Inr result \<Longrightarrow> tr_run result = cap_run reference \<and> tr_context result = cap_context reference"
  by (auto simp: validate_trace_def res_simps)

text \<open>
  Evidence that is returned belongs to one run: the execution record, the command trace and the
  reference trace have its run and its context, the reference trace has no findings against the
  requests of the same ioctl trace, and the controls of that trace are those of the command trace.
\<close>
lemma raw_evidence_one_run:
  assumes "raw_evidence loads_trace sha orc run ctx trace_raw command_raw reference_raw = Inr (refs, associations, result)"
  obtains events controls command expected reference flags where
    "full_normalize events (JInt 300) (JStr (take 16 (sha trace_raw))) = Inr (controls, refs, associations)"
    "map_records (map record_json refs) (JInt 300) = Inr expected" "validate_trace reference (Some expected) = Inr result"
    "cc_run command = run" "cc_context command = ctx" "tr_run result = run" "tr_context result = ctx" "tr_findings result = []"
    "bind_history command reference = Inr ()" "compare_capture command controls flags = Inr []"
proof -
  have "\<exists>events controls command expected reference flags body u.
      full_normalize events (JInt 300) (JStr (take 16 (sha trace_raw))) = Inr (controls, refs, associations) \<and>
      map_records (map record_json refs) (JInt 300) = Inr expected \<and> validate_trace reference (Some expected) = Inr result \<and>
      parse_snapshot body (JInt run) = Inr command \<and> tr_findings result = [] \<and> bind_history command reference = Inr u \<and>
      cc_context command = cap_context reference \<and> cap_context reference = ctx \<and> compare_capture command controls flags = Inr []"
    using assms unfolding raw_evidence_def command_checks_def Let_def
    by (simp only: rbind_Inr require_Inr prod.case split_paired_Ex prod.inject sum.inject) blast
  then obtain events controls command expected reference flags body u where
    n: "full_normalize events (JInt 300) (JStr (take 16 (sha trace_raw))) = Inr (controls, refs, associations)"
    and m: "map_records (map record_json refs) (JInt 300) = Inr expected" and v: "validate_trace reference (Some expected) = Inr result"
    and p: "parse_snapshot body (JInt run) = Inr command" and f: "tr_findings result = []" and b: "bind_history command reference = Inr u"
    and c: "cc_context command = cap_context reference" "cap_context reference = ctx" and d: "compare_capture command controls flags = Inr []"
    by blast
  have "cc_run command = run" using p by (rule parse_snapshot_run)
  moreover have "cc_run command = cap_run reference" using b by (auto simp: bind_history_def res_simps)
  ultimately show ?thesis using that [OF n m v] validate_trace_identity [OF v] c f b d by simp
qed

lemma validated_evidence:
  assumes "validate_run loads loads_trace sha orc files = Inr ev"
  obtains execution trace_raw command_raw reference_raw refs result where
    "execution_record sha execution [(''command'', command_raw), (''reference'', reference_raw)] = Inr (ke_run ev, ke_context ev, ke_child_pid ev)"
    "raw_evidence loads_trace sha orc (ke_run ev) (ke_context ev) trace_raw command_raw reference_raw = Inr (refs, ke_associations ev, result)"
    "ke_requests ev = map (dict_of \<circ> record_json) refs" "ke_reference_records ev = map normalized_dict (tr_records result)"
    "dget (ke_hashes ev) ''v4l2_trace'' = Some (sha trace_raw)" "evidence_check ev = Inr ()"
  using assms unfolding validate_run_def Let_def
  by (auto simp: rbind_Inr as_join_error_Inr split_paired_Ex)

end
