(* ===== verification/Spec2Isabelle.thy ===== *)
theory Spec2Isabelle
  imports Hevcnal Observer Observation Vp9_Safety H264_Selection Campaign Encoded_Inputs Same_Run_Validator
begin

text \<open>
  \<^bold>\<open>The program.\<close> The repository holds experiments around the video decoder of Apple M1 machines: kernel
  patches (C, not modelled) and, in Python, the offline models and the fail-closed evidence checkers
  that decide whether a measurement may be believed. Three families of components are modelled.

    \<^item> \<^emph>\<open>Models of decoder behaviour\<close>: the VP9 queue and reference state model with its fixtures, the
      H.264 profile selection, the HEVC bitstream helpers that build test streams, the prediction of
      the hardware's reference commands.
    \<^item> \<^emph>\<open>Observation of decoded content\<close>: a synthetic decoder queue and an observer that pins, copies and
      hashes a reference while other threads go on; the contract of one observation; the planner of
      the observation campaign; the collectors of the reports that the two clients write.
    \<^item> \<^emph>\<open>Evidence of one run\<close>: the supervisor that records it, the adapters from an ioctl trace to
      reference records and control sets, the checkers of the two kernel traces, the comparison of the
      controls of both sides, and the join of an observer report with that evidence.

  In the third family the components form a pipeline. \<open>supervise\<close> runs one decoder between the arming
  and the sealing of the kernel recorders. A v4l2-tracer file is read by \<open>parse_events\<close> and
  turned by \<open>normalize\<close> into reference records; \<open>map_records\<close> predicts from those records what the
  hardware's reference table must hold; \<open>validate_trace\<close> compares the prediction with the kernel's
  reference trace; \<open>bind_history\<close> binds the command trace to the same run; \<open>full_normalize\<close> and
  \<open>extra_evidence\<close> add the complete control payloads and the encoded inputs, and \<open>compare_capture\<close> compares
  those payloads with the bytes in the command trace. \<open>validate_run\<close> composes these steps into the
  evidence of one run, and \<open>join_va\<close> and \<open>join_gst\<close>
  bind an observer report to one lifetime of that evidence.

  \<^bold>\<open>Conventions.\<close> A Python call that may raise returns a sum whose left side is the exception
  (\<open>Prelude\<close>: \<open>rbind\<close>, \<open>need\<close>, \<open>rfold\<close>, \<open>rmap\<close>); an insertion-ordered dict is an association list
  (\<open>dget\<close>, \<open>dset\<close>, \<open>ddel\<close>). \<open>Json\<close> has the values of \<^verbatim>\<open>json.loads\<close> and Python's equality on them;
  \<open>Pyvalues\<close> subscription, \<^verbatim>\<open>len\<close>, iteration, duplicate-key refusal, string splitting and decimal
  numerals, with the exceptions they raise. Unbounded ints are \<open>int\<close>; bytes that are computed with are
  \<open>8 word\<close>. The methods of an object take and return its record; where a method may raise after it has
  changed the object, it returns the exception together with the changed object. \<^verbatim>\<open>json.loads\<close>,
  \<^verbatim>\<open>json.dumps\<close> and \<^verbatim>\<open>sha256\<close> are arguments of the definitions that use them; a JSON float is a rational,
  which leaves out infinities. Interpolated parts of messages are left out.

  \<^bold>\<open>The theories\<close> (paths under \<open>src/experiments/\<close>):

    \<^item> \<open>Vp9_Geometry\<close>, \<open>Vp9_State\<close>, \<open>Vp9_Safety\<close>: \<open>vp9-state/model.py\<close>. The size arithmetic; the class
      \<^verbatim>\<open>Session\<close> as the record \<open>session\<close>, each \<^verbatim>\<open>op_*\<close> method as \<open>op_*\<close>, \<open>apply_event\<close>, \<open>run_events\<close>
      and \<open>run_fixture\<close>. \<open>sinv\<close> is an invariant that every handler keeps, also when it raises. Shown
      from it: every run ends without an exception the code does not mean to raise; an accepted decode
      under the proposed rule reads only decoded, retained buffers of a compatible era; capture slots
      are exclusive; a failed session never changes its decode state; what the stock rules do and do
      not guarantee; layouts of an era have enough room.
    \<^item> \<open>Fake_Queue\<close>, \<open>Observer\<close>: \<open>hevc-reference-content/synthetic_queue.py\<close> and \<open>adapter.py\<close>. The queue's
      methods are atomic steps (\<open>env_step\<close>). The observer relies on the queue only through the locales
      \<open>retaining\<close> and \<open>retaining_fresh\<close>: whatever other clients do, a pinned generation keeps its buffer.
      Both are interpreted on the queue. Shown: a snapshot reads a quiescent writer's bytes,
      every failure leaves the observer stopped and nothing pinned, the queue's invariant is kept.
    \<^item> \<open>Observation\<close>: \<open>hevc-reference-memory/observation.py\<close>, with the meaning of an accepted record.
    \<^item> \<open>Hevcnal\<close>: \<open>hevc-parameter-sets/hevcnal.py\<close>. Framing, emulation prevention, bit reader and writer,
      and the identifier-rewriting helpers. The locale \<open>bit_reader\<close> is the interface of a parser that
      only moves its position; it is interpreted on the fixed-width reader, Exp-Golomb and the layer
      loop. Shown: escaping round-trips and emits no start code, rewritten streams split back, and the
      rewriting helpers change exactly the intended field.
    \<^item> \<open>H264_Selection\<close>: \<open>h264-profile-selection/selection.py\<close>. The exact-match path against a reference
      definition; the proposed remap is sound and extends the exact match.
    \<^item> \<open>Campaign\<close>: \<open>hevc-reference-content/campaign/controller.py\<close>. \<open>validate_plan\<close> decides \<open>plan_ok\<close>;
      \<open>build_plan\<close> yields a valid plan exactly for inputs inside the bounds; a valid plan is always
      published, and \<open>execute\<close> never runs anything.
    \<^item> \<open>Avd_Map\<close>: \<open>hevc-avd-map/model.py\<close>. Partially known words are sound and as sharp as possible; the
      walk resolves each reference to the latest writer of its buffer.
    \<^item> \<open>Avd_Trace\<close>: \<open>hevc-avd-trace/check.py\<close>. A trace without findings has in every selected picture a
      reference table that names latest writers; the motion word agrees with the prediction; decimal
      fields are canonical; rows have the fields of their kind.
    \<^item> \<open>Command_Trace\<close>: \<open>hevc-avd-command-trace/parser.py\<close>. Packed controls read back.
    \<^item> \<open>Hevc_Controls\<close>: \<open>hevc-controls/normalize.py\<close> and its variant \<open>hevc-full-controls/lifecycle.py\<close> as two
      instances of one walk. References of normalized records resolve to the last completed write of
      their buffer; where the first adapter accepts, the variant returns the same; the associated
      outputs are a permutation of the pictures.
    \<^item> \<open>Full_Controls\<close>, \<open>Full_Adapter\<close>, \<open>Encoded_Inputs\<close>: \<open>hevc-full-controls/normalize.py\<close> (\<open>payload\<close> with its schema,
      \<open>normalize\<close>, \<open>extra_evidence\<close>) and \<open>validate_controls\<close> of \<open>hevc-full-controls/report.py\<close>. The locale
      \<open>writer_table\<close> states what a table of latest writers promises; it is interpreted on the dict of the
      code. Shown: accepted payloads have the type of their schema; the DPB entries of accepted control
      sets name latest writers; the adapter's control sets are bound to its reference records; the
      digests of encoded inputs are those of the bytes that were queued.
    \<^item> \<open>Command_Compare\<close>: \<open>hevc-avd-command-capture/compare.py\<close>. A comparison without differences means equal
      bytes, and conversely.
    \<^item> \<open>Capture\<close>: \<open>hevc-avd-command-capture/capture.py\<close>. The supervisor as computations over the record
      \<open>sup\<close> that may raise; kernel, child, file system, clock and signals are the parameter \<open>world\<close>, whose
      answers depend on all calls made before. The locale \<open>act_relation\<close> carries a relation between the
      states before and after one call through every handler; it is interpreted on \<open>grows\<close> (which calls
      are made), \<open>polls\<close> (which statuses are replaced) and \<open>same_child\<close>. Shown, for every world:
      recorders are switched off only after their snapshots were saved, the child is released only
      when both recorders are armed for it, and the supervisor ends if the clock goes on.
    \<^item> \<open>Reports\<close>: \<open>hevc-reference-content/va-callsite/collector.py\<close> and \<open>gst-runner/collector.py\<close>.
    \<^item> \<open>Same_Run_Join\<close>: \<open>hevc-reference-content/same-run/join.py\<close>. A joined output has its own picture on
      whose identities queue row, request and kernel lifetime agree; a report the join accepts is one
      the collector accepts.
    \<^item> \<open>Execution_Record\<close>, \<open>Same_Run_Validator\<close>: \<open>hevc-reference-content/same-run/validator.py\<close>. The record that
      \<open>supervise\<close> leaves after a successful traced run is one that \<^verbatim>\<open>_execution\<close> accepts. Subscripts raise
      \<^verbatim>\<open>KeyError\<close> and \<^verbatim>\<open>TypeError\<close>, and \<^verbatim>\<open>float\<close> of an integer rounds or raises \<^verbatim>\<open>OverflowError\<close>. \<open>validate_run\<close>
      composes the readers and checkers above and returns evidence of one run and one context, or refuses,
      or lets through one of the exceptions that \<open>validate_run_fails_closed\<close> lists.

  \<^bold>\<open>Loops and bounds.\<close> Two loops poll a child until it ends or a time passes (\<open>wait_loop\<close>, \<open>reap_loop\<close>);
  they are partial functions, not returning is \<open>None\<close>, and \<open>supervise_ends\<close> shows that they return if
  the clock goes on. All other definitions are total. The loops that are not structural (\<open>split_loop\<close>,
  \<open>ue_zeros\<close>, \<open>first_free\<close>) have termination proofs by a measure. There is no fuel: a wait on other
  threads (\<open>drain_loop\<close>, the gaps of \<open>snapshot\<close>) takes the script of what those threads do as its
  argument, and a read of a file takes the results of its system calls.

  \<^bold>\<open>Not modelled.\<close> Command-line entry points; building, fetching, patching and verifying sources; what
  child processes do and the files they leave; the C code, extracted and compiled by several tools;
  report writers that only print; tests, mutation drivers and the evidence re-checkers under \<open>docs/\<close>.
\<close>

end
